(* ===== verification/Prelude.thy ===== *)
theory Prelude
  imports Main "HOL-Library.Char_ord" "HOL-Library.List_Lexorder"
    "HOL-Library.Product_Lexorder" "HOL-Library.Sublist" "HOL-Library.Code_Target_Nat"
begin

text \<open>
  Shared vocabulary of the development: results of fallible code, the pieces of the Rust
  standard library on strings and collections that the modelled code calls, and the generic
  lemmas and rule collections that the component theories rest on.

  A Rust \<open>String\<close> is a UTF-8 byte sequence and \<open>len()\<close> counts bytes; it is modelled by
  HOL's \<open>string\<close>, a list of 8-bit characters, so that \<open>length\<close> is \<open>len()\<close>.  The order of
  \<open>List_Lexorder\<close> over \<open>Char_ord\<close> is Rust's byte order on strings, the order of a
  \<open>BTreeMap<String, _>\<close> and of \<open>sort\<close>.
\<close>

section \<open>Rule collections\<close>

named_theorems result_simps "equations for results of fallible code"
named_theorems string_simps "equations for the string operations of the standard library"

section \<open>Fallible code\<close>

text \<open>\<open>Result<T, E>\<close> is \<open>'e + 'a\<close>, with \<open>Inl\<close> for \<open>Err\<close>.  \<open>and_then\<close> is the question-mark operator.\<close>

definition and_then :: "'e + 'a \<Rightarrow> ('a \<Rightarrow> 'e + 'b) \<Rightarrow> 'e + 'b" where
  "and_then r f = (case r of Inl e \<Rightarrow> Inl e | Inr x \<Rightarrow> f x)"

definition ensure :: "bool \<Rightarrow> 'e \<Rightarrow> 'e + unit" where
  "ensure b e = (if b then Inr () else Inl e)"

definition ok_or :: "'a option \<Rightarrow> 'e \<Rightarrow> 'e + 'a" where
  "ok_or x e = (case x of None \<Rightarrow> Inl e | Some y \<Rightarrow> Inr y)"

fun try_each :: "('a \<Rightarrow> 'e + unit) \<Rightarrow> 'a list \<Rightarrow> 'e + unit" where
  "try_each f [] = Inr ()"
| "try_each f (x # xs) = and_then (f x) (\<lambda>_. try_each f xs)"

fun try_map :: "('a \<Rightarrow> 'e + 'b) \<Rightarrow> 'a list \<Rightarrow> 'e + 'b list" where
  "try_map f [] = Inr []"
| "try_map f (x # xs) = and_then (f x) (\<lambda>y. and_then (try_map f xs) (\<lambda>ys. Inr (y # ys)))"

fun try_fold :: "('s \<Rightarrow> 'a \<Rightarrow> 'e + 's) \<Rightarrow> 's \<Rightarrow> 'a list \<Rightarrow> 'e + 's" where
  "try_fold f s [] = Inr s"
| "try_fold f s (x # xs) = and_then (f s x) (\<lambda>s'. try_fold f s' xs)"

lemma and_then_Inr [simp, result_simps]: "and_then (Inr x) f = f x"
  by (simp add: and_then_def)

lemma and_then_Inl [simp, result_simps]: "and_then (Inl e) f = Inl e"
  by (simp add: and_then_def)

lemma and_then_eq_Inr [result_simps]: "and_then r f = Inr y \<longleftrightarrow> (\<exists>x. r = Inr x \<and> f x = Inr y)"
  by (cases r) auto

lemma and_then_eq_Inl [result_simps]:
  "and_then r f = Inl e \<longleftrightarrow> r = Inl e \<or> (\<exists>x. r = Inr x \<and> f x = Inl e)"
  by (cases r) auto

lemma ensure_eq_Inr [simp, result_simps]: "ensure b e = Inr u \<longleftrightarrow> b"
  by (simp add: ensure_def)

lemma ensure_eq_Inl [simp, result_simps]: "ensure b e = Inl e' \<longleftrightarrow> \<not> b \<and> e' = e"
  by (auto simp: ensure_def)

lemma ok_or_simps [simp, result_simps]: "ok_or (Some x) e = Inr x" "ok_or None e = Inl e"
  by (simp_all add: ok_or_def)

lemma ok_or_eq_Inr [simp, result_simps]: "ok_or x e = Inr y \<longleftrightarrow> x = Some y"
  by (cases x) (auto simp: ok_or_def)

lemma ok_or_eq_Inl [simp, result_simps]: "ok_or x e = Inl e' \<longleftrightarrow> x = None \<and> e' = e"
  by (cases x) (auto simp: ok_or_def)

lemma try_each_eq_Inr [result_simps]: "try_each f xs = Inr u \<longleftrightarrow> (\<forall>x \<in> set xs. f x = Inr ())"
  by (induction xs) (auto simp: result_simps)

lemma try_map_eq_Inr: "try_map f xs = Inr ys \<longleftrightarrow> list_all2 (\<lambda>x y. f x = Inr y) xs ys"
  by (induction xs arbitrary: ys) (auto simp: result_simps list_all2_Cons1)

lemma try_map_length: "try_map f xs = Inr ys \<Longrightarrow> length ys = length xs"
  by (auto simp: try_map_eq_Inr dest: list_all2_lengthD)

text \<open>A fold that keeps an invariant of its state, whatever prefix of the list it has seen.\<close>

lemma try_fold_inv:
  assumes "try_fold f s xs = Inr t" and "P s"
    and "\<And>s x s'. x \<in> set xs \<Longrightarrow> P s \<Longrightarrow> f s x = Inr s' \<Longrightarrow> P s'"
  shows "P t"
  using assms
proof (induction xs arbitrary: s)
  case Nil
  then show ?case by simp
next
  case (Cons x xs)
  then obtain s' where s': "f s x = Inr s'" and rest: "try_fold f s' xs = Inr t"
    by (auto simp: and_then_eq_Inr)
  have "P s'" using Cons.prems(2) s' by (auto intro: Cons.prems(3))
  show ?case
  proof (rule Cons.IH [OF rest \<open>P s'\<close>])
    fix s y s'
    assume "y \<in> set xs" and "P s" and "f s y = Inr s'"
    then show "P s'" using Cons.prems(3) [of y s s'] by simp
  qed
qed

text \<open>A scan that checks each element and rejects a key it has seen: it succeeds exactly when
  every element passes and the keys are distinct, and it returns the keys.\<close>

lemma try_fold_seen:
  assumes "\<And>s x t. f s x = Inr t \<longleftrightarrow> ok x \<and> key x \<notin> s \<and> t = insert (key x) s"
  shows "try_fold f s xs = Inr t \<longleftrightarrow>
    (\<forall>x \<in> set xs. ok x \<and> key x \<notin> s) \<and> distinct (map key xs) \<and> t = s \<union> key ` set xs"
proof (induction xs arbitrary: s)
  case (Cons x xs)
  show ?case
    by (auto simp: and_then_eq_Inr assms Cons.IH) (metis image_eqI)
qed auto

lemma try_map_check:
  assumes "\<And>x y. f x = Inr y \<longleftrightarrow> ok x \<and> y = x"
  shows "try_map f xs = Inr ys \<longleftrightarrow> list_all ok xs \<and> ys = xs"
  by (induction xs arbitrary: ys) (auto simp: and_then_eq_Inr assms)

text \<open>A result whose image under a projection is known.\<close>

lemma found_result:
  assumes "map_option (map_sum id f) x = Some (Inr y)"
  obtains r where "x = Some (Inr r)" and "f r = y"
  using assms by (cases x) (auto split: sum.splits simp: map_sum_def)

lemma find_SomeD: "find P xs = Some x \<Longrightarrow> x \<in> set xs \<and> P x"
  by (auto simp: find_Some_iff)

section \<open>Loops\<close>

text \<open>A loop whose body either stops with a result or gives the next state.  It may run forever:
  then its value is \<open>None\<close>.\<close>

partial_function (option) run_loop :: "('s \<Rightarrow> 'r + 's) \<Rightarrow> 's \<Rightarrow> 'r option" where
  "run_loop body s = (case body s of Inl r \<Rightarrow> Some r | Inr s' \<Rightarrow> run_loop body s')"

declare run_loop.simps [simp del, code]

lemma run_loop_stop: "body s = Inl r \<Longrightarrow> run_loop body s = Some r"
  by (subst run_loop.simps) simp

lemma run_loop_next: "body s = Inr s' \<Longrightarrow> run_loop body s = run_loop body s'"
  by (subst run_loop.simps) simp

text \<open>A loop whose body keeps an invariant and decreases a measure stops, and the state in which
  it stops satisfies the invariant.\<close>

lemma run_loop_result:
  fixes m :: "'s \<Rightarrow> nat"
  assumes "P s"
    and "\<And>s s'. P s \<Longrightarrow> body s = Inr s' \<Longrightarrow> P s' \<and> m s' < m s"
    and "\<And>s r. P s \<Longrightarrow> body s = Inl r \<Longrightarrow> Q r"
  shows "\<exists>r. run_loop body s = Some r \<and> Q r"
  using assms(1)
proof (induction "m s" arbitrary: s rule: less_induct)
  case less
  show ?case
  proof (cases "body s")
    case (Inl r)
    then show ?thesis using assms(3) [OF less.prems Inl] by (auto intro: run_loop_stop)
  next
    case (Inr s')
    have "P s'" and "m s' < m s" using assms(2) [OF less.prems Inr] by simp_all
    then show ?thesis using less.hyps [of s'] Inr by (simp add: run_loop_next)
  qed
qed

section \<open>Machine integers\<close>

text \<open>\<open>usize\<close> and \<open>u64\<close> are 64 bits wide; saturating operations stop at the bounds.\<close>

definition usize_max :: nat where "usize_max = 2 ^ 64 - 1"

definition saturating_add :: "nat \<Rightarrow> nat \<Rightarrow> nat" where
  "saturating_add a b = min (a + b) usize_max"

definition checked_add :: "nat \<Rightarrow> nat \<Rightarrow> nat option" where
  "checked_add a b = (if a + b \<le> usize_max then Some (a + b) else None)"

lemma saturating_add_exact: "a + b \<le> usize_max \<Longrightarrow> saturating_add a b = a + b"
  by (simp add: saturating_add_def)

lemma saturating_add_le: "saturating_add a b \<le> a + b"
  by (simp add: saturating_add_def)

section \<open>Characters\<close>

definition code :: "char \<Rightarrow> nat" where "code c = of_char c"

definition is_ascii_digit :: "char \<Rightarrow> bool" where
  "is_ascii_digit c \<longleftrightarrow> 48 \<le> code c \<and> code c \<le> 57"

definition is_ascii_lowercase :: "char \<Rightarrow> bool" where
  "is_ascii_lowercase c \<longleftrightarrow> 97 \<le> code c \<and> code c \<le> 122"

definition is_ascii_uppercase :: "char \<Rightarrow> bool" where
  "is_ascii_uppercase c \<longleftrightarrow> 65 \<le> code c \<and> code c \<le> 90"

definition is_ascii_alphanumeric :: "char \<Rightarrow> bool" where
  "is_ascii_alphanumeric c \<longleftrightarrow> is_ascii_digit c \<or> is_ascii_lowercase c \<or> is_ascii_uppercase c"

definition to_lower :: "char \<Rightarrow> char" where
  "to_lower c = (if is_ascii_uppercase c then char_of (code c + 32) else c)"

definition to_ascii_lowercase :: "string \<Rightarrow> string" where
  "to_ascii_lowercase s = map to_lower s"

definition nul :: char where "nul = char_of (0::nat)"

lemma code_Char [simp]: "code (Char b0 b1 b2 b3 b4 b5 b6 b7) =
    horner_sum of_bool 2 [b0, b1, b2, b3, b4, b5, b6, b7]"
  by (simp add: code_def of_char_def)

section \<open>Strings\<close>

definition starts_with :: "string \<Rightarrow> string \<Rightarrow> bool" where
  "starts_with s p \<longleftrightarrow> prefix p s"

definition ends_with :: "string \<Rightarrow> string \<Rightarrow> bool" where
  "ends_with s p \<longleftrightarrow> suffix p s"

definition strip_prefix_str :: "string \<Rightarrow> string \<Rightarrow> string option" where
  "strip_prefix_str p s = (if prefix p s then Some (drop (length p) s) else None)"

fun contains_str :: "string \<Rightarrow> string \<Rightarrow> bool" where
  "contains_str p [] \<longleftrightarrow> p = []"
| "contains_str p (c # s) \<longleftrightarrow> prefix p (c # s) \<or> contains_str p s"

text \<open>\<open>str::split(c)\<close>: one piece more than there are separators.\<close>

fun split_on :: "char \<Rightarrow> string \<Rightarrow> string list" where
  "split_on c [] = [[]]"
| "split_on c (x # s) =
     (if x = c then [] # split_on c s
      else case split_on c s of [] \<Rightarrow> [[x]] | p # ps \<Rightarrow> (x # p) # ps)"

fun join_with :: "string \<Rightarrow> string list \<Rightarrow> string" where
  "join_with sep [] = []"
| "join_with sep [p] = p"
| "join_with sep (p # q # ps) = p @ sep @ join_with sep (q # ps)"

text \<open>\<open>replace\<close> of backslashes by slashes.\<close>

definition to_slashes :: "string \<Rightarrow> string" where
  "to_slashes = map (\<lambda>c. if c = CHR 0x5C then CHR ''/'' else c)"

text \<open>\<open>str::trim\<close> removes the code points with the Unicode property \<open>White_Space\<close>, here
  by their UTF-8 encodings, from both ends.\<close>

definition ws_encodings :: "string list" where
  "ws_encodings = map (\<lambda>n. [char_of n]) [9, 10, 11, 12, 13, 32::nat]
    @ map (map char_of) ([[194, 133], [194, 160], [225, 154, 128],
        [226, 128, 168], [226, 128, 169], [226, 128, 175], [226, 129, 159], [227, 128, 128]]
        @ map (\<lambda>n. [226, 128, n]) [128..<139] :: nat list list)"

function strip_any :: "string list \<Rightarrow> string \<Rightarrow> string" where
  "strip_any ps s =
     (case find (\<lambda>p. p \<noteq> [] \<and> prefix p s) ps of
        None \<Rightarrow> s
      | Some p \<Rightarrow> strip_any ps (drop (length p) s))"
  by pat_completeness auto
termination
proof (relation "measure (\<lambda>(ps, s). length s)")
  show "wf (measure (\<lambda>(ps::string list, s::string). length s))"
    by simp
next
  fix ps :: "string list" and s :: string and p
  assume "find (\<lambda>p. p \<noteq> [] \<and> prefix p s) ps = Some p"
  then have "p \<noteq> []" and "prefix p s"
    by (auto simp: find_Some_iff)
  then show "((ps, drop (length p) s), (ps, s)) \<in> measure (\<lambda>(ps, s). length s)"
    by (cases p) (auto simp: prefix_def)
qed

declare strip_any.simps [simp del]

definition trim :: "string \<Rightarrow> string" where
  "trim s = rev (strip_any (map rev ws_encodings) (rev (strip_any ws_encodings s)))"

definition blank :: "string \<Rightarrow> bool" where
  "blank s \<longleftrightarrow> trim s = []"

lemma strip_any_Nil [simp]: "strip_any ps [] = []"
proof -
  have "find (\<lambda>p. p \<noteq> [] \<and> prefix p []) ps = None"
    by (auto simp: find_None_iff)
  then show ?thesis by (subst strip_any.simps) simp
qed

lemma trim_Nil [simp, string_simps]: "trim [] = []"
  by (simp add: trim_def)

lemma blank_Nil [simp, string_simps]: "blank []"
  by (simp add: blank_def)

lemma not_blank_nonempty: "\<not> blank s \<Longrightarrow> s \<noteq> []"
  by auto

text \<open>The two ends of \<open>trim\<close> only remove: what is left is a contiguous part of the string.\<close>

lemma strip_any_suffix: "suffix (strip_any ps s) s"
proof (induction ps s rule: strip_any.induct)
  case (1 ps s)
  show ?case
  proof (cases "find (\<lambda>p. p \<noteq> [] \<and> prefix p s) ps")
    case None
    then show ?thesis by (subst strip_any.simps) simp
  next
    case (Some p)
    with 1 have "suffix (strip_any ps (drop (length p) s)) (drop (length p) s)" by blast
    then show ?thesis
      using Some by (subst strip_any.simps) (auto intro: suffix_order.trans suffix_drop)
  qed
qed

lemma length_trim_le: "length (trim s) \<le> length s"
proof -
  let ?t = "strip_any ws_encodings s"
  have "length (trim s) \<le> length (rev ?t)"
    unfolding trim_def using suffix_length_le [OF strip_any_suffix [of _ "rev ?t"]]
    by (metis length_rev)
  also have "\<dots> \<le> length s"
    using suffix_length_le [OF strip_any_suffix [of ws_encodings s]] by simp
  finally show ?thesis .
qed

text \<open>\<open>to_string\<close> of an unsigned integer.\<close>

fun digits :: "nat \<Rightarrow> string" where
  "digits n = (if n < 10 then [char_of (48 + n)]
               else digits (n div 10) @ [char_of (48 + n mod 10)])"

declare digits.simps [simp del]

definition digits_value :: "string \<Rightarrow> nat" where
  "digits_value s = foldl (\<lambda>v c. 10 * v + (code c - 48)) 0 s"

lemma code_digit [simp]: "d < 10 \<Longrightarrow> code (char_of (48 + d)) = 48 + d"
  by (simp add: code_def)

lemma digits_are_digits: "c \<in> set (digits n) \<Longrightarrow> is_ascii_digit c"
proof (induction n rule: digits.induct)
  case (1 n)
  then show ?case
    by (subst (asm) (2) digits.simps) (auto simp: is_ascii_digit_def split: if_splits)
qed

lemma digits_nonempty [simp]: "digits n \<noteq> []"
  by (subst digits.simps) simp

lemma digits_value_digits [simp]: "digits_value (digits n) = n"
proof (induction n rule: digits.induct)
  case (1 n)
  show ?case
  proof (cases "n < 10")
    case True
    then show ?thesis by (subst digits.simps) (simp add: digits_value_def)
  next
    case False
    then have "digits_value (digits n) = 10 * digits_value (digits (n div 10)) + n mod 10"
      by (subst digits.simps) (simp add: digits_value_def)
    with 1 False show ?thesis by simp
  qed
qed

lemma digits_inject [simp]: "digits m = digits n \<longleftrightarrow> m = n"
  by (metis digits_value_digits)

section \<open>Ordered maps and sets\<close>

text \<open>
  A \<open>BTreeMap\<close> is the list of its entries in key order; \<open>map_of\<close> is \<open>get\<close>, and iteration is
  the list itself.
\<close>

fun btree_insert :: "'k::linorder \<Rightarrow> 'v \<Rightarrow> ('k \<times> 'v) list \<Rightarrow> ('k \<times> 'v) list" where
  "btree_insert k v [] = [(k, v)]"
| "btree_insert k v ((a, b) # m) =
     (if k < a then (k, v) # (a, b) # m
      else if k = a then (k, v) # m
      else (a, b) # btree_insert k v m)"

definition btree_of :: "('k::linorder \<times> 'v) list \<Rightarrow> ('k \<times> 'v) list" where
  "btree_of kvs = fold (\<lambda>(k, v) m. btree_insert k v m) kvs []"

abbreviation ordered_keys :: "('k::linorder \<times> 'v) list \<Rightarrow> bool" where
  "ordered_keys m \<equiv> sorted_wrt (<) (map fst m)"

lemma map_of_btree_insert [simp]: "map_of (btree_insert k v m) = (map_of m)(k \<mapsto> v)"
  by (induction m) (auto simp: fun_eq_iff)

lemma keys_btree_insert [simp]: "fst ` set (btree_insert k v m) = insert k (fst ` set m)"
  by (induction k v m rule: btree_insert.induct) auto

lemma ordered_btree_insert: "ordered_keys m \<Longrightarrow> ordered_keys (btree_insert k v m)"
proof (induction k v m rule: btree_insert.induct)
  case (2 k v a b m)
  have keys: "set (map fst (btree_insert k v m)) = insert k (fst ` set m)"
    using keys_btree_insert [of k v m] by (simp add: image_image)
  show ?case
    using 2 keys by auto
qed simp

lemma ordered_distinct: "ordered_keys m \<Longrightarrow> distinct (map fst m)"
  by (simp add: strict_sorted_iff)

text \<open>Two ordered maps with the same entries are the same list.\<close>

text \<open>Entries inserted in the order of their keys.\<close>

lemma btree_insert_last:
  "\<forall>k' \<in> fst ` set m. k' < k \<Longrightarrow> btree_insert k v m = m @ [(k, v)]"
  by (induction m) (auto dest: less_asym)

lemma btree_of_ordered: "ordered_keys kvs \<Longrightarrow> btree_of kvs = kvs"
proof (induction kvs rule: rev_induct)
  case (snoc kv kvs)
  then have "ordered_keys kvs" "\<forall>k' \<in> fst ` set kvs. k' < fst kv"
    by (auto simp: sorted_wrt_append)
  with snoc.IH show ?case by (cases kv) (simp add: btree_of_def btree_insert_last)
qed (simp add: btree_of_def)

lemma ordered_map_eqI:
  assumes "ordered_keys m" and "ordered_keys n" and "map_of m = map_of n"
  shows "m = n"
proof -
  have d: "distinct (map fst m)" "distinct (map fst n)"
    using assms(1,2) by (simp_all add: strict_sorted_iff)
  have eq: "set m = set n"
    using d assms(3) by (simp add: map_of_inject_set)
  have "inj_on fst (set m \<union> set n)"
    using d eq by (simp add: distinct_map)
  then show ?thesis
    using assms(1,2) d eq by (intro map_sorted_distinct_set_unique [of fst])
      (simp_all add: strict_sorted_iff)
qed

text \<open>\<open>Vec::dedup_by\<close> drops each element whose key is that of the one kept before it;
  \<open>retain\<close> with a \<open>HashSet\<close> keeps the first element of each key.\<close>

fun dedup_by :: "('a \<Rightarrow> 'k) \<Rightarrow> 'a list \<Rightarrow> 'a list" where
  "dedup_by f [] = []"
| "dedup_by f [x] = [x]"
| "dedup_by f (x # y # zs) =
     (if f x = f y then dedup_by f (x # zs) else x # dedup_by f (y # zs))"

fun retain_first :: "('a \<Rightarrow> 'k) \<Rightarrow> 'k list \<Rightarrow> 'a list \<Rightarrow> 'a list" where
  "retain_first f seen [] = []"
| "retain_first f seen (x # xs) =
     (if f x \<in> set seen then retain_first f seen xs
      else x # retain_first f (f x # seen) xs)"

lemma set_dedup_by_subset: "set (dedup_by f xs) \<subseteq> set xs"
  by (induction f xs rule: dedup_by.induct) auto

lemma keys_dedup_by: "f ` set (dedup_by f xs) = f ` set xs"
  by (induction f xs rule: dedup_by.induct) auto

lemma length_dedup_by: "length (dedup_by f xs) \<le> length xs"
  by (induction f xs rule: dedup_by.induct) auto

lemma set_retain_first_subset: "set (retain_first f seen xs) \<subseteq> set xs"
  by (induction xs arbitrary: seen) (auto split: if_splits)

lemma retain_first_fresh: "x \<in> set (retain_first f seen xs) \<Longrightarrow> f x \<notin> set seen"
  by (induction xs arbitrary: seen) (fastforce split: if_splits)+

lemma distinct_retain_first: "distinct (map f (retain_first f seen xs))"
  by (induction xs arbitrary: seen) (auto dest: retain_first_fresh)

lemma keys_retain_first: "f ` set (retain_first f seen xs) = f ` set xs - set seen"
  by (induction xs arbitrary: seen) auto

lemma sorted_retain_first: "sorted_wrt P xs \<Longrightarrow> sorted_wrt P (retain_first f seen xs)"
  by (induction xs arbitrary: seen) (use set_retain_first_subset in fastforce)+

end
