(* ===== verification/CortexError.thy ===== *)
theory CortexError
  imports Prelude
begin

text \<open>
  \<open>src/error.rs\<close> and the failure kinds of \<open>src/embedding/contracts.rs\<close>.  Errors of foreign
  crates are carried by their message.  \<open>Panicked\<close> is not a constructor of the source: it
  marks an outcome where the code panics, so that a panic is a visible branch of the model.
\<close>

datatype embedding_failure_kind =
  InputTooLarge | BatchTooLarge | Unavailable | Timeout | Protocol | InvalidResponse | Unknown

record embedding_failure =
  failure_kind :: embedding_failure_kind
  failure_message :: string
  failure_status :: "nat option"

datatype cortex_error =
    ConfigurationErr string
  | IoErr string string
  | StorageErr string
  | MigrationErr string
  | AnalysisErr string
  | EmbeddingErr string
  | EmbeddingFailureErr embedding_failure
  | SerializationErr string
  | NotFoundErr string
  | AmbiguousErr string
  | ConflictErr string
  | OtherErr string
  | Panicked string

definition new_failure :: "embedding_failure_kind \<Rightarrow> string \<Rightarrow> embedding_failure" where
  "new_failure k m = \<lparr>failure_kind = k, failure_message = m, failure_status = None\<rparr>"

definition with_status :: "nat \<Rightarrow> embedding_failure \<Rightarrow> embedding_failure" where
  "with_status n f = f\<lparr>failure_status := Some n\<rparr>"

text \<open>The \<open>Display\<close> texts of the two types.\<close>

definition failure_display :: "embedding_failure \<Rightarrow> string" where
  "failure_display f =
     (case failure_status f of
        Some n \<Rightarrow> failure_message f @ '' (HTTP '' @ digits n @ '')''
      | None \<Rightarrow> failure_message f)"

fun error_display :: "cortex_error \<Rightarrow> string" where
  "error_display (ConfigurationErr m) = ''configuration error: '' @ m"
| "error_display (IoErr p m) = ''I/O error at '' @ p @ '': '' @ m"
| "error_display (StorageErr m) = ''storage error: '' @ m"
| "error_display (MigrationErr m) = ''migration error: '' @ m"
| "error_display (AnalysisErr m) = ''analysis error: '' @ m"
| "error_display (EmbeddingErr m) = ''embedding error: '' @ m"
| "error_display (EmbeddingFailureErr f) = ''embedding error: '' @ failure_display f"
| "error_display (SerializationErr m) = ''serialization error: '' @ m"
| "error_display (NotFoundErr m) = ''not found: '' @ m"
| "error_display (AmbiguousErr m) = ''ambiguous: '' @ m"
| "error_display (ConflictErr m) = ''conflict: '' @ m"
| "error_display (OtherErr m) = m"
| "error_display (Panicked m) = m"

end
