(* ===== verification/Float32.thy ===== *)
theory Float32
  imports Prelude "HOL-Library.Word" "HOL-Library.Log_Nat"
begin

text \<open>
  Rust's \<open>f32\<close> as its 32-bit pattern (IEEE 754 binary32): the comparisons, \<open>is_finite\<close>,
  \<open>clamp\<close>, \<open>max\<close>, \<open>total_cmp\<close>, the correctly rounded sum, product and quotient, and the
  conversions from and to \<open>usize\<close> that the modelled code uses.  A result that is not a number has
  one fixed pattern here.
\<close>

type_synonym f32 = "32 word"

definition f32_neg :: "f32 \<Rightarrow> bool" where
  "f32_neg w = bit w 31"

definition f32_mag :: "f32 \<Rightarrow> nat" where
  "f32_mag w = unat (take_bit 31 w)"

definition f32_infinity_mag :: nat where "f32_infinity_mag = 255 * 2 ^ 23"
definition f32_zero :: f32 where "f32_zero = 0"
definition f32_one :: f32 where "f32_one = 0x3F800000"
definition f32_nan :: f32 where "f32_nan = 0x7FC00000"

definition f32_is_nan :: "f32 \<Rightarrow> bool" where
  "f32_is_nan w \<longleftrightarrow> f32_infinity_mag < f32_mag w"

definition f32_is_finite :: "f32 \<Rightarrow> bool" where
  "f32_is_finite w \<longleftrightarrow> f32_mag w < f32_infinity_mag"

definition f32_pack :: "bool \<Rightarrow> nat \<Rightarrow> f32" where
  "f32_pack neg m = (if neg then 2 ^ 31 else 0) + of_nat m"

text \<open>A finite magnitude \<open>m\<close> stands for \<open>f32_sig m * 2 ^ (f32_expo m - 150)\<close>.\<close>

definition f32_sig :: "nat \<Rightarrow> nat" where
  "f32_sig m = (if m < 2 ^ 23 then m else m mod 2 ^ 23 + 2 ^ 23)"

definition f32_expo :: "nat \<Rightarrow> nat" where
  "f32_expo m = (if m < 2 ^ 23 then 1 else m div 2 ^ 23)"

definition round_half_even :: "nat \<Rightarrow> nat \<Rightarrow> nat" where
  "round_half_even n k =
     (let q = n div 2 ^ k; r = n mod 2 ^ k
      in if 2 * r > 2 ^ k \<or> 2 * r = 2 ^ k \<and> odd q then q + 1 else q)"

text \<open>The magnitude nearest to \<open>n * 2 ^ e\<close>, ties to even, overflowing to infinity.\<close>

definition f32_round :: "nat \<Rightarrow> int \<Rightarrow> nat" where
  "f32_round n e =
     (if n = 0 then 0
      else let q = max (int (floorlog 2 n) - 24 + e) (-149);
               m = (if q \<le> e then n * 2 ^ nat (e - q) else round_half_even n (nat (q - e)))
           in min (nat (q + 149) * 2 ^ 23 + m) f32_infinity_mag)"

definition f32_mul :: "f32 \<Rightarrow> f32 \<Rightarrow> f32" where
  "f32_mul a b =
     (let neg = (f32_neg a \<noteq> f32_neg b); x = f32_mag a; y = f32_mag b
      in if f32_is_nan a \<or> f32_is_nan b then f32_nan
         else if x = f32_infinity_mag \<or> y = f32_infinity_mag
         then (if x = 0 \<or> y = 0 then f32_nan else f32_pack neg f32_infinity_mag)
         else f32_pack neg (f32_round (f32_sig x * f32_sig y)
                (int (f32_expo x) + int (f32_expo y) - 300)))"

text \<open>The exact sum is an integer multiple of a power of two.  A zero sum is negative only when both
  summands are.\<close>

definition f32_signed :: "f32 \<Rightarrow> nat \<Rightarrow> int" where
  "f32_signed a e =
     (let v = int (f32_sig (f32_mag a)) * 2 ^ (f32_expo (f32_mag a) - e)
      in if f32_neg a then - v else v)"

definition f32_add :: "f32 \<Rightarrow> f32 \<Rightarrow> f32" where
  "f32_add a b =
     (let x = f32_mag a; y = f32_mag b
      in if f32_is_nan a \<or> f32_is_nan b then f32_nan
         else if x = f32_infinity_mag
         then (if y = f32_infinity_mag \<and> f32_neg a \<noteq> f32_neg b then f32_nan else a)
         else if y = f32_infinity_mag then b
         else let e = min (f32_expo x) (f32_expo y); s = f32_signed a e + f32_signed b e
              in f32_pack (s < 0 \<or> s = 0 \<and> f32_neg a \<and> f32_neg b)
                   (f32_round (nat \<bar>s\<bar>) (int e - 150)))"

text \<open>The quotient to more bits than the result has, with a last bit that tells an inexact one.\<close>

definition f32_div :: "f32 \<Rightarrow> f32 \<Rightarrow> f32" where
  "f32_div a b =
     (let neg = (f32_neg a \<noteq> f32_neg b); x = f32_mag a; y = f32_mag b
      in if f32_is_nan a \<or> f32_is_nan b then f32_nan
         else if x = f32_infinity_mag
         then (if y = f32_infinity_mag then f32_nan else f32_pack neg f32_infinity_mag)
         else if y = f32_infinity_mag then f32_pack neg 0
         else if y = 0 then (if x = 0 then f32_nan else f32_pack neg f32_infinity_mag)
         else let n = f32_sig x * 2 ^ 50;
                  q = 2 * (n div f32_sig y) + (if n mod f32_sig y = 0 then 0 else 1)
              in f32_pack neg (f32_round q (int (f32_expo x) - int (f32_expo y) - 51)))"

text \<open>\<open>n as f32\<close>, and \<open>x.floor() as usize\<close>, which saturates and takes a NaN to 0.\<close>

definition f32_of_nat :: "nat \<Rightarrow> f32" where
  "f32_of_nat n = f32_pack False (f32_round n 0)"

definition f32_floor_nat :: "f32 \<Rightarrow> nat" where
  "f32_floor_nat w =
     (let m = f32_mag w
      in if f32_is_nan w \<or> f32_neg w then 0
         else if m = f32_infinity_mag then usize_max
         else if 150 \<le> f32_expo m then min usize_max (f32_sig m * 2 ^ (f32_expo m - 150))
         else f32_sig m div 2 ^ (150 - f32_expo m))"

text \<open>Numeric order: both zeros are equal, and nothing compares with a NaN.\<close>

definition f32_key :: "f32 \<Rightarrow> int" where
  "f32_key w = (if f32_neg w then - int (f32_mag w) else int (f32_mag w))"

definition f32_lt :: "f32 \<Rightarrow> f32 \<Rightarrow> bool" where
  "f32_lt a b \<longleftrightarrow> \<not> f32_is_nan a \<and> \<not> f32_is_nan b \<and> f32_key a < f32_key b"

text \<open>\<open>f32::max\<close>, which prefers a number to a NaN.\<close>

definition f32_max :: "f32 \<Rightarrow> f32 \<Rightarrow> f32" where
  "f32_max a b = (if f32_is_nan a \<or> f32_lt a b then b else a)"

text \<open>\<open>f32::clamp\<close> and the key of \<open>f32::total_cmp\<close>.\<close>

definition f32_clamp :: "f32 \<Rightarrow> f32 \<Rightarrow> f32 \<Rightarrow> f32" where
  "f32_clamp x lo hi =
     (let y = (if f32_lt x lo then lo else x) in if f32_lt hi y then hi else y)"

definition f32_total_key :: "f32 \<Rightarrow> int" where
  "f32_total_key w = (if f32_neg w then - int (f32_mag w) - 1 else int (f32_mag w))"

definition in_unit :: "f32 \<Rightarrow> bool" where
  "in_unit w \<longleftrightarrow> \<not> f32_is_nan w \<and> 0 \<le> f32_key w \<and> f32_key w \<le> f32_key f32_one"

lemma f32_mag_less: "f32_mag w < 2 ^ 31"
  using take_bit_nat_less_exp [of 31 "unat w"] by (simp add: f32_mag_def unsigned_take_bit_eq)

lemma f32_mag_pack: "m < 2 ^ 31 \<Longrightarrow> f32_mag (f32_pack neg m) = m"
  by (simp add: f32_mag_def f32_pack_def unsigned_take_bit_eq unat_word_ariths take_bit_eq_mod
      unat_of_nat mod_add_eq)

lemma f32_round_le: "f32_round n e \<le> f32_infinity_mag"
  by (simp add: f32_round_def Let_def)

lemma f32_one_facts [simp]:
  "f32_key f32_one = 127 * 2 ^ 23" "\<not> f32_is_nan f32_one" "f32_key f32_zero = 0"
  "\<not> f32_is_nan f32_zero"
  by (simp_all add: f32_key_def f32_one_def f32_zero_def f32_neg_def f32_mag_def f32_is_nan_def
      f32_infinity_mag_def unsigned_take_bit_eq take_bit_eq_mod)

lemma f32_mul_not_nan:
  assumes "f32_is_finite a" and "f32_is_finite b"
  shows "\<not> f32_is_nan (f32_mul a b)"
proof -
  have "\<not> f32_is_nan a" "\<not> f32_is_nan b" "f32_mag a \<noteq> f32_infinity_mag" "f32_mag b \<noteq> f32_infinity_mag"
    using assms by (auto simp: f32_is_finite_def f32_is_nan_def)
  moreover have "f32_round n e < 2 ^ 31" for n e
    using f32_round_le [of n e] by (simp add: f32_infinity_mag_def)
  ultimately show ?thesis
    using f32_round_le by (simp add: f32_mul_def Let_def f32_is_nan_def f32_mag_pack not_less)
qed

lemma f32_clamp_unit: "\<not> f32_is_nan x \<Longrightarrow> in_unit (f32_clamp x f32_zero f32_one)"
  by (auto simp: in_unit_def f32_clamp_def f32_lt_def Let_def)

lemma in_unit_is_finite: "in_unit w \<Longrightarrow> f32_is_finite w"
proof -
  assume "in_unit w"
  then have "\<bar>f32_key w\<bar> \<le> 127 * 2 ^ 23" by (simp add: in_unit_def)
  moreover have "int (f32_mag w) = \<bar>f32_key w\<bar>" by (simp add: f32_key_def)
  ultimately show ?thesis by (simp add: f32_is_finite_def f32_infinity_mag_def)
qed

lemma in_unit_one [simp]: "in_unit f32_one"
  by (simp add: in_unit_def)

text \<open>The product step of a path's confidence stays in the unit interval.\<close>

lemma f32_mul_clamp_unit:
  "in_unit a \<Longrightarrow> in_unit b \<Longrightarrow> in_unit (f32_clamp (f32_mul a b) f32_zero f32_one)"
  by (intro f32_clamp_unit f32_mul_not_nan in_unit_is_finite)

end
