(* ===== verification/Embedding.thy ===== *)
theory Embedding
  imports CortexError Float32
begin

text \<open>
  The embedding boundary: \<open>src/embedding/contracts.rs\<close>, \<open>src/embedding/provider.rs\<close> and the
  OpenAI-compatible provider of \<open>src/embedding/openai.rs\<close>.  The HTTP client is a parameter: it
  maps a hidden world state and a request's inputs to an outcome and the next world state.
\<close>

section \<open>Contracts\<close>

record embedding_limits =
  max_input_tokens :: "nat option"
  max_batch_tokens :: "nat option"
  max_batch_items :: nat
  reserved_tokens :: nat

definition input_budget :: "embedding_limits \<Rightarrow> nat option" where
  "input_budget l = map_option (\<lambda>limit. limit - reserved_tokens l) (max_input_tokens l)"

datatype token_count_accuracy = Exact | ConservativeEstimate

record token_count =
  tokens :: nat
  accuracy :: token_count_accuracy

definition conservative_byte_count :: "string \<Rightarrow> token_count" where
  "conservative_byte_count t = \<lparr>tokens = length t, accuracy = ConservativeEstimate\<rparr>"

text \<open>The operations of the trait \<open>EmbeddingProvider\<close> that the indexer calls.\<close>

record ('s, 'v) embedding_provider =
  provider_limits :: embedding_limits
  count_tokens :: "string \<Rightarrow> token_count"
  prepare_document_input :: "string \<Rightarrow> string"
  provider_embed_documents :: "'s \<Rightarrow> string list \<Rightarrow> (cortex_error + 'v list) \<times> 's"

section \<open>The OpenAI-compatible provider\<close>

record embedding_datum =
  datum_index :: nat
  datum_embedding :: "f32 list"

record embedding_response =
  response_data :: "embedding_datum list"
  response_model :: "string option"

fun check_data :: "nat option \<Rightarrow> nat \<Rightarrow> nat option \<Rightarrow> embedding_datum list
    \<Rightarrow> embedding_failure + unit" where
  "check_data expected_dimension expected_index dimension [] = Inr ()"
| "check_data expected_dimension expected_index dimension (d # ds) =
     (let v = datum_embedding d;
          bad = (\<lambda>m. Inl (new_failure InvalidResponse m))
      in if datum_index d \<noteq> expected_index
         then bad (''embedding response has missing or duplicate index '' @ digits expected_index)
         else if v = [] then bad ''embedding vector is empty''
         else if (case expected_dimension of None \<Rightarrow> False | Some n \<Rightarrow> n \<noteq> length v)
         then bad (''embedding dimension mismatch: expected ''
                @ digits (case expected_dimension of None \<Rightarrow> 0 | Some n \<Rightarrow> n)
                @ '', received '' @ digits (length v))
         else if (case dimension of None \<Rightarrow> False | Some n \<Rightarrow> n \<noteq> length v)
         then bad ''embedding response contains inconsistent dimensions''
         else if list_ex (\<lambda>x. \<not> f32_is_finite x) v
         then bad ''embedding response contains a non-finite value''
         else check_data expected_dimension (Suc expected_index)
                (case dimension of None \<Rightarrow> Some (length v) | Some n \<Rightarrow> Some n) ds)"

definition validate_response :: "embedding_response \<Rightarrow> nat \<Rightarrow> string \<Rightarrow> nat option
    \<Rightarrow> embedding_failure + f32 list list" where
  "validate_response r expected_count expected_model expected_dimension =
     (if (case response_model r of None \<Rightarrow> False | Some m \<Rightarrow> m \<noteq> expected_model)
      then Inl (new_failure InvalidResponse (''embedding model mismatch: requested ''
             @ expected_model @ '', received ''
             @ (case response_model r of None \<Rightarrow> [] | Some m \<Rightarrow> m)))
      else if length (response_data r) \<noteq> expected_count
      then Inl (new_failure InvalidResponse (''embedding count mismatch: expected ''
             @ digits expected_count @ '', received '' @ digits (length (response_data r))))
      else let data = sort_key datum_index (response_data r)
           in and_then (check_data expected_dimension 0 None data)
                (\<lambda>_. Inr (map datum_embedding data)))"

definition classify_http_failure :: "nat \<Rightarrow> string \<Rightarrow> embedding_failure" where
  "classify_http_failure status body =
     (let normalized = to_ascii_lowercase body;
          has = (\<lambda>p. contains_str p normalized);
          kind = (if has ''physical batch size'' \<or> has ''batch'' \<and> has ''too large''
                  then BatchTooLarge
                  else if status = 413 \<or> has ''larger than the max context size''
                    \<or> has ''input'' \<and> has ''too large''
                  then InputTooLarge
                  else if status = 408 \<or> status = 504 then Timeout
                  else if 500 \<le> status then Unavailable
                  else Unknown)
      in with_status status
           (new_failure kind (''embedding endpoint rejected request: '' @ body)))"

text \<open>What the HTTP client can report for one request.\<close>

record request_error =
  is_timeout :: bool
  is_connect :: bool
  request_error_text :: string

datatype http_outcome =
    SendFailed request_error
  | Rejected nat string
  | Undecodable string
  | Answered embedding_response

definition request_failure :: "request_error \<Rightarrow> cortex_error" where
  "request_failure e =
     EmbeddingFailureErr (new_failure
       (if is_timeout e then Timeout else if is_connect e then Unavailable else Protocol)
       (request_error_text e))"

record openai_config =
  config_model :: string
  config_dimension :: "nat option"
  config_batch_size :: nat
  config_document_prefix :: string

definition embed_batch :: "('s \<Rightarrow> string list \<Rightarrow> http_outcome \<times> 's) \<Rightarrow> openai_config
    \<Rightarrow> 's \<Rightarrow> string list \<Rightarrow> (cortex_error + f32 list list) \<times> 's" where
  "embed_batch post cfg s texts =
     (case post s texts of (outcome, s') \<Rightarrow>
        ((case outcome of
            SendFailed e \<Rightarrow> Inl (request_failure e)
          | Rejected status body \<Rightarrow> Inl (EmbeddingFailureErr (classify_http_failure status body))
          | Undecodable m \<Rightarrow> Inl (EmbeddingFailureErr
              (new_failure InvalidResponse (''invalid embedding response: '' @ m)))
          | Answered r \<Rightarrow>
              (case validate_response r (length texts) (config_model cfg) (config_dimension cfg) of
                 Inl f \<Rightarrow> Inl (EmbeddingFailureErr f)
               | Inr vs \<Rightarrow> Inr vs)), s'))"

text \<open>\<open>slice::chunks\<close>; a chunk size of 0 panics and is caught before this function.\<close>

fun chunks :: "nat \<Rightarrow> 'a list \<Rightarrow> 'a list list" where
  "chunks n [] = []"
| "chunks n (x # xs) = (x # take (n - 1) xs) # chunks n (drop (n - 1) xs)"

fun embed_chunks :: "('s \<Rightarrow> string list \<Rightarrow> http_outcome \<times> 's) \<Rightarrow> openai_config
    \<Rightarrow> 's \<Rightarrow> string list list \<Rightarrow> (cortex_error + f32 list list) \<times> 's" where
  "embed_chunks post cfg s [] = (Inr [], s)"
| "embed_chunks post cfg s (b # bs) =
     (case embed_batch post cfg s b of
        (Inl e, s1) \<Rightarrow> (Inl e, s1)
      | (Inr vs, s1) \<Rightarrow>
          (case embed_chunks post cfg s1 bs of
             (Inl e, s2) \<Rightarrow> (Inl e, s2)
           | (Inr ws, s2) \<Rightarrow> (Inr (vs @ ws), s2)))"

definition embed_prepared :: "('s \<Rightarrow> string list \<Rightarrow> http_outcome \<times> 's) \<Rightarrow> openai_config
    \<Rightarrow> 's \<Rightarrow> string list \<Rightarrow> (cortex_error + f32 list list) \<times> 's" where
  "embed_prepared post cfg s texts =
     (if texts = [] then (Inr [], s)
      else if config_batch_size cfg = 0 then (Inl (Panicked ''chunk size must be non-zero''), s)
      else embed_chunks post cfg s (chunks (config_batch_size cfg) texts))"

definition openai_embed_documents :: "('s \<Rightarrow> string list \<Rightarrow> http_outcome \<times> 's) \<Rightarrow> openai_config
    \<Rightarrow> 's \<Rightarrow> string list \<Rightarrow> (cortex_error + f32 list list) \<times> 's" where
  "openai_embed_documents post cfg s texts =
     embed_prepared post cfg s (map (\<lambda>t. config_document_prefix cfg @ t) texts)"

section \<open>The provider interface\<close>

text \<open>What a client of \<open>embed_documents\<close> relies on: a successful call answers every input.\<close>

locale embedding_service =
  fixes embed :: "'s \<Rightarrow> string list \<Rightarrow> (cortex_error + 'v list) \<times> 's"
  assumes embed_length: "embed s texts = (Inr vs, s') \<Longrightarrow> length vs = length texts"

lemma check_data_indices:
  "check_data ed i dn ds = Inr u \<Longrightarrow> map datum_index ds = [i..<i + length ds]"
proof (induction ed i dn ds rule: check_data.induct)
  case (2 ed i dn d ds)
  have "i + length (d # ds) = Suc i + length ds" by simp
  with 2 show ?case
    by (simp add: Let_def upt_conv_Cons del: upt_Suc split: if_splits)
qed simp

lemma check_data_vectors:
  "check_data ed i dn ds = Inr u \<Longrightarrow> d \<in> set ds \<Longrightarrow>
     datum_embedding d \<noteq> [] \<and> (\<forall>n. ed = Some n \<longrightarrow> length (datum_embedding d) = n)
     \<and> (\<forall>n. dn = Some n \<longrightarrow> length (datum_embedding d) = n)
     \<and> (\<forall>x \<in> set (datum_embedding d). f32_is_finite x)"
  by (induction ed i dn ds rule: check_data.induct)
    (fastforce simp: Let_def list_ex_iff split: if_splits option.splits)+

lemma check_data_uniform:
  "check_data ed i None ds = Inr u \<Longrightarrow> d \<in> set ds \<Longrightarrow>
     length (datum_embedding d) = length (datum_embedding (hd ds))"
  by (cases ds) (fastforce simp: Let_def dest: check_data_vectors split: if_splits)+

lemma validate_response_length:
  "validate_response r n m d = Inr vs \<Longrightarrow> length vs = n"
  by (auto simp: validate_response_def Let_def result_simps split: if_splits)

lemma embed_batch_length:
  "embed_batch post cfg s texts = (Inr vs, s') \<Longrightarrow> length vs = length texts"
  by (auto simp: embed_batch_def split: prod.splits http_outcome.splits sum.splits
      dest: validate_response_length)

lemma concat_chunks: "0 < n \<Longrightarrow> concat (chunks n xs) = xs"
  by (induction n xs rule: chunks.induct) auto

lemma chunks_bounds: "0 < n \<Longrightarrow> c \<in> set (chunks n xs) \<Longrightarrow> 0 < length c \<and> length c \<le> n"
  by (induction n xs rule: chunks.induct) auto

lemma embed_chunks_length:
  "embed_chunks post cfg s bs = (Inr vs, s') \<Longrightarrow> length vs = length (concat bs)"
  by (induction post cfg s bs arbitrary: vs s' rule: embed_chunks.induct)
    (auto split: prod.splits sum.splits dest: embed_batch_length)

interpretation openai: embedding_service "openai_embed_documents post cfg"
proof
  fix s texts vs s'
  assume "openai_embed_documents post cfg s texts = (Inr vs, s')"
  then show "length vs = length texts"
    by (auto simp: openai_embed_documents_def embed_prepared_def concat_chunks
        dest!: embed_chunks_length split: if_splits)
qed

text \<open>Every vector of a successful call is non-empty, finite and of the configured dimension.\<close>

definition valid_vector :: "nat option \<Rightarrow> f32 list \<Rightarrow> bool" where
  "valid_vector expected v \<longleftrightarrow> v \<noteq> [] \<and> list_all f32_is_finite v
     \<and> (\<forall>n. expected = Some n \<longrightarrow> length v = n)"

lemma validate_response_valid:
  assumes "validate_response r n m d = Inr vs" and "v \<in> set vs"
  shows "valid_vector d v"
proof -
  let ?data = "sort_key datum_index (response_data r)"
  from assms obtain x where "check_data d 0 None ?data = Inr ()" "x \<in> set ?data" "v = datum_embedding x"
    by (auto simp: validate_response_def Let_def result_simps split: if_splits)
  then show ?thesis
    using check_data_vectors [of d 0 None ?data "()" x] by (auto simp: valid_vector_def list_all_iff)
qed

lemma embed_chunks_valid:
  "embed_chunks post cfg s bs = (Inr vs, s') \<Longrightarrow> v \<in> set vs \<Longrightarrow> valid_vector (config_dimension cfg) v"
proof (induction post cfg s bs arbitrary: vs s' rule: embed_chunks.induct)
  case (2 post cfg s b bs)
  then show ?case
    by (auto simp: embed_batch_def split: prod.splits sum.splits http_outcome.splits
        dest: validate_response_valid)
qed simp

lemma openai_embed_valid:
  "openai_embed_documents post cfg s texts = (Inr vs, s') \<Longrightarrow> v \<in> set vs \<Longrightarrow>
     valid_vector (config_dimension cfg) v"
  by (auto simp: openai_embed_documents_def embed_prepared_def dest: embed_chunks_valid
      split: if_splits)

text \<open>With a non-zero batch size the provider does not panic.\<close>

lemma openai_embed_no_panic:
  assumes "0 < config_batch_size cfg"
  shows "openai_embed_documents post cfg s texts \<noteq> (Inl (Panicked m), s')"
proof -
  have "embed_chunks post cfg s bs \<noteq> (Inl (Panicked m), s')" for bs
    by (induction post cfg s bs arbitrary: s' rule: embed_chunks.induct)
      (fastforce simp: embed_batch_def request_failure_def
        split: prod.splits sum.splits http_outcome.splits)+
  then show ?thesis
    using assms by (auto simp: openai_embed_documents_def embed_prepared_def)
qed

end
