(* ===== verification/Batcher.thy ===== *)
theory Batcher
  imports Embedding
begin

text \<open>
  \<open>src/indexing/batcher.rs\<close>: packing document texts into provider batches and embedding them
  with bounded repacking of batches the provider rejects for their size.  The loop over the
  \<open>VecDeque\<close> is \<open>embed_loop\<close>; its world state and the metrics counters are passed explicitly.
  Latency is not modelled.
\<close>

section \<open>State\<close>

definition max_capacity_retry_depth :: nat where "max_capacity_retry_depth = 8"

record planned_batch =
  indices :: "nat list"
  token_total :: nat
  largest_item_tokens :: nat

datatype batch_error = NeedsSmallerInput nat | Fatal cortex_error

record runtime_metrics =
  embedding_calls :: nat
  embedding_inputs :: nat
  embedding_batches :: nat
  capacity_retries :: nat
  batch_repacks :: nat
  terminal_capacity_failures :: nat

text \<open>\<open>fetch_add\<close> on an \<open>AtomicUsize\<close> wraps around.\<close>

definition fetch_add :: "nat \<Rightarrow> nat \<Rightarrow> nat" where
  "fetch_add c n = (c + n) mod (usize_max + 1)"

definition record_embedding :: "nat \<Rightarrow> nat option \<Rightarrow> runtime_metrics \<Rightarrow> runtime_metrics" where
  "record_embedding inputs batch_size m =
     (let batches = (case batch_size of None \<Rightarrow> 1
                     | Some k \<Rightarrow> if 0 < k then (inputs + k - 1) div k else 1)
      in m\<lparr>embedding_calls := fetch_add (embedding_calls m) 1,
           embedding_inputs := fetch_add (embedding_inputs m) inputs,
           embedding_batches := fetch_add (embedding_batches m) batches\<rparr>)"

definition record_capacity_retry :: "bool \<Rightarrow> runtime_metrics \<Rightarrow> runtime_metrics" where
  "record_capacity_retry repacked m =
     (let m1 = m\<lparr>capacity_retries := fetch_add (capacity_retries m) 1\<rparr>
      in if repacked then m1\<lparr>batch_repacks := fetch_add (batch_repacks m1) 1\<rparr> else m1)"

definition record_terminal_capacity_failure :: "runtime_metrics \<Rightarrow> runtime_metrics" where
  "record_terminal_capacity_failure m =
     m\<lparr>terminal_capacity_failures := fetch_add (terminal_capacity_failures m) 1\<rparr>"

section \<open>Planning\<close>

definition empty_batch :: planned_batch where
  "empty_batch = \<lparr>indices = [], token_total = 0, largest_item_tokens = 0\<rparr>"

definition add_item :: "planned_batch \<Rightarrow> nat \<Rightarrow> nat \<Rightarrow> planned_batch" where
  "add_item b index n =
     \<lparr>indices = indices b @ [index], token_total = saturating_add (token_total b) n,
      largest_item_tokens = max (largest_item_tokens b) n\<rparr>"

definition must_flush :: "embedding_limits \<Rightarrow> planned_batch \<Rightarrow> nat \<Rightarrow> bool" where
  "must_flush limits b n \<longleftrightarrow>
     indices b \<noteq> [] \<and>
     (length (indices b) = max 1 (max_batch_items limits)
      \<or> (case max_batch_tokens limits of None \<Rightarrow> False
         | Some limit \<Rightarrow> limit < saturating_add (token_total b) n))"

fun pack_items :: "embedding_limits \<Rightarrow> planned_batch \<Rightarrow> nat \<Rightarrow> nat list \<Rightarrow> planned_batch list" where
  "pack_items limits current i [] = (if indices current = [] then [] else [current])"
| "pack_items limits current i (n # ns) =
     (if must_flush limits current n
      then current # pack_items limits (add_item empty_batch i n) (Suc i) ns
      else pack_items limits (add_item current i n) (Suc i) ns)"

definition oversized :: "embedding_limits \<Rightarrow> nat \<Rightarrow> bool" where
  "oversized limits n \<longleftrightarrow>
     (case input_budget limits of None \<Rightarrow> False | Some budget \<Rightarrow> budget < n)
     \<or> (case max_batch_tokens limits of None \<Rightarrow> False | Some budget \<Rightarrow> budget < n)"

definition token_counts :: "('s, 'v) embedding_provider \<Rightarrow> string list \<Rightarrow> nat list" where
  "token_counts p texts =
     map (\<lambda>t. tokens (count_tokens p (prepare_document_input p t))) texts"

definition plan_batches :: "string list \<Rightarrow> ('s, 'v) embedding_provider
    \<Rightarrow> batch_error + planned_batch list" where
  "plan_batches texts p =
     (let counts = token_counts p texts
      in case find (oversized (provider_limits p)) counts of
           Some n \<Rightarrow> Inl (NeedsSmallerInput n)
         | None \<Rightarrow> Inr (pack_items (provider_limits p) empty_batch 0 counts))"

section \<open>Embedding with repacking\<close>

definition is_capacity_failure :: "embedding_failure \<Rightarrow> bool" where
  "is_capacity_failure f \<longleftrightarrow>
     failure_kind f = BatchTooLarge \<or> failure_kind f = InputTooLarge"

definition assign_vectors :: "nat list \<Rightarrow> 'v list \<Rightarrow> 'v option list \<Rightarrow> 'v option list" where
  "assign_vectors ixs vs vecs = fold (\<lambda>(i, v) acc. acc[i := Some v]) (zip ixs vs) vecs"

definition count_mismatch :: "nat \<Rightarrow> nat \<Rightarrow> batch_error" where
  "count_mismatch n k = Fatal (EmbeddingErr (''provider returned '' @ digits n
      @ '' vectors for '' @ digits k @ '' inputs''))"

definition queue_measure :: "(nat list \<times> nat) list \<Rightarrow> nat" where
  "queue_measure q = sum_list (map (\<lambda>(_, depth). 3 ^ (9 - depth)) q)"

lemma queue_measure_split:
  "\<not> max_capacity_retry_depth \<le> d \<Longrightarrow> 3 ^ (8 - d) + 3 ^ (8 - d) < (3::nat) ^ (9 - d)"
  by (simp add: max_capacity_retry_depth_def Suc_diff_le [symmetric] not_le)
    (simp add: Suc_diff_Suc [symmetric] numeral_eq_Suc)

text \<open>An index outside \<open>texts\<close> panics in the source; \<open>plan_indices\<close> below excludes it.\<close>

function embed_loop :: "('s, 'v) embedding_provider \<Rightarrow> string list \<Rightarrow> (nat list \<times> nat) list
    \<Rightarrow> 'v option list \<Rightarrow> runtime_metrics \<Rightarrow> 's
    \<Rightarrow> (batch_error + 'v option list) \<times> runtime_metrics \<times> 's" where
  "embed_loop p texts [] vectors m s = (Inr vectors, m, s)"
| "embed_loop p texts ((ixs, depth) # queue) vectors m s =
     (if list_ex (\<lambda>i. length texts \<le> i) ixs
      then (Inl (Fatal (Panicked ''index out of bounds'')), m, s)
      else case provider_embed_documents p s (map (\<lambda>i. texts ! i) ixs) of (result, s1) \<Rightarrow>
        let m1 = record_embedding (length ixs) None m
        in case result of
             Inr vs \<Rightarrow>
               if length vs \<noteq> length ixs
               then (Inl (count_mismatch (length vs) (length ixs)), m1, s1)
               else embed_loop p texts queue (assign_vectors ixs vs vectors) m1 s1
           | Inl e \<Rightarrow>
               (case e of
                  EmbeddingFailureErr f \<Rightarrow>
                    if is_capacity_failure f then
                      if max_capacity_retry_depth \<le> depth
                      then (Inl (Fatal e), record_terminal_capacity_failure m1, s1)
                      else let m2 = record_capacity_retry (1 < length ixs) m1
                        in if length ixs = 1
                           then (Inl (NeedsSmallerInput (tokens (count_tokens p
                                   (prepare_document_input p (texts ! hd ixs))))), m2, s1)
                           else let middle = length ixs div 2
                             in embed_loop p texts
                                  ((take middle ixs, Suc depth) # (drop middle ixs, Suc depth) # queue)
                                  vectors m2 s1
                    else (Inl (Fatal e), m1, s1)
                | _ \<Rightarrow> (Inl (Fatal e), m1, s1)))"
  by pat_completeness auto
termination
proof (relation "measure (\<lambda>(p, texts, queue, vectors, m, s). queue_measure queue)", goal_cases)
  case 1
  show ?case by simp
next
  case 2
  then show ?case by (auto simp: queue_measure_def intro: queue_measure_split)
next
  case 3
  then show ?case by (simp add: queue_measure_def)
qed

declare embed_loop.simps(2) [simp del]

fun collect_vectors :: "nat \<Rightarrow> 'v option list \<Rightarrow> batch_error + 'v list" where
  "collect_vectors i [] = Inr []"
| "collect_vectors i (v # vs) =
     and_then (ok_or v (Fatal (EmbeddingErr (''provider returned no vector for input '' @ digits i))))
       (\<lambda>x. and_then (collect_vectors (Suc i) vs) (\<lambda>xs. Inr (x # xs)))"

definition embed_documents :: "string list \<Rightarrow> ('s, 'v) embedding_provider \<Rightarrow> runtime_metrics
    \<Rightarrow> 's \<Rightarrow> (batch_error + 'v list) \<times> runtime_metrics \<times> 's" where
  "embed_documents texts p m s =
     (if texts = [] then (Inr [], m, s)
      else case plan_batches texts p of
             Inl e \<Rightarrow> (Inl e, m, s)
           | Inr planned \<Rightarrow>
               (case embed_loop p texts (map (\<lambda>b. (indices b, 0)) planned)
                       (replicate (length texts) None) m s of
                  (Inl e, m', s') \<Rightarrow> (Inl e, m', s')
                | (Inr vectors, m', s') \<Rightarrow> (collect_vectors 0 vectors, m', s')))"

section \<open>Lemmas on planning\<close>

text \<open>The batches are consecutive runs of the input positions.\<close>

lemma pack_items_positions:
  "concat (map indices (pack_items l b i ns)) = indices b @ [i..<i + length ns]"
  by (induction l b i ns rule: pack_items.induct)
    (auto simp: add_item_def empty_batch_def upt_rec)

lemma drop_eq_Cons: "n # ns = drop i xs \<Longrightarrow> i < length xs \<and> n = xs ! i \<and> ns = drop (Suc i) xs"
  by (metis Cons_nth_drop_Suc drop_all list.distinct(1) list.inject not_le)

definition batch_ok :: "embedding_limits \<Rightarrow> nat list \<Rightarrow> planned_batch \<Rightarrow> bool" where
  "batch_ok l counts b \<longleftrightarrow>
     length (indices b) \<le> max 1 (max_batch_items l)
     \<and> token_total b = min (sum_list (map ((!) counts) (indices b))) usize_max
     \<and> (\<forall>limit. max_batch_tokens l = Some limit \<longrightarrow> token_total b \<le> limit)
     \<and> largest_item_tokens b = Max (insert 0 (((!) counts) ` set (indices b)))"

lemma max_Max_insert: "finite A \<Longrightarrow> max (x::nat) (Max (insert 0 A)) = Max (insert x A)"
  by (cases "A = {}") simp_all

lemma batch_ok_empty: "batch_ok l counts empty_batch"
  by (simp add: batch_ok_def empty_batch_def)

lemma batch_ok_add_item:
  assumes "batch_ok l counts b" and "\<not> must_flush l b (counts ! i)"
    and "\<not> oversized l (counts ! i)"
  shows "batch_ok l counts (add_item b i (counts ! i))"
proof -
  have "max_batch_tokens l = Some limit \<Longrightarrow> saturating_add (token_total b) (counts ! i) \<le> limit"
    for limit
    using assms by (cases "indices b = []")
      (auto simp: batch_ok_def must_flush_def oversized_def saturating_add_def)
  moreover have "length (indices b) + 1 \<le> max 1 (max_batch_items l)"
    using assms(1,2) by (cases "indices b = []") (auto simp: batch_ok_def must_flush_def)
  ultimately show ?thesis
    using assms(1)
    by (auto simp: batch_ok_def add_item_def saturating_add_def max.commute max_Max_insert)
qed

lemma batch_ok_restart: "\<not> oversized l (counts ! i) \<Longrightarrow>
    batch_ok l counts (add_item empty_batch i (counts ! i))"
  by (rule batch_ok_add_item [OF batch_ok_empty]) (simp_all add: must_flush_def empty_batch_def)

lemma pack_items_ok:
  assumes "ns = drop i counts" and "batch_ok l counts b" and "\<not> list_ex (oversized l) counts"
  shows "\<forall>c \<in> set (pack_items l b i ns). batch_ok l counts c \<and> indices c \<noteq> []"
  using assms
proof (induction l b i ns rule: pack_items.induct)
  case (2 l b i n ns)
  have i: "i < length counts" and n: "n = counts ! i" and ns: "ns = drop (Suc i) counts"
    using drop_eq_Cons [OF 2(3)] by auto
  have fits: "\<not> oversized l n"
    using 2(5) nth_mem [OF i] by (simp add: list_ex_iff n)
  show ?case
  proof (cases "must_flush l b n")
    case True
    then have "indices b \<noteq> []" by (simp add: must_flush_def)
    then show ?thesis
      using True 2(1) [OF True ns _ 2(5)] 2(4) batch_ok_restart [of l counts i] fits n by simp
  next
    case False
    then show ?thesis
      using 2(2) [OF False ns _ 2(5)] batch_ok_add_item [OF 2(4), of i] fits n by simp
  qed
qed simp

text \<open>Packing is greedy: a batch was closed because its successor's first item did not fit.\<close>

lemma pack_items_nonempty: "indices b \<noteq> [] \<or> ns \<noteq> [] \<Longrightarrow> pack_items l b i ns \<noteq> []"
  by (induction l b i ns rule: pack_items.induct) (auto simp: add_item_def)

lemma pack_items_first:
  assumes "indices b \<noteq> []"
  shows "hd (indices (hd (pack_items l b i ns))) = hd (indices b)"
  using assms by (induction l b i ns rule: pack_items.induct) (auto simp: add_item_def)

lemma pack_items_greedy:
  assumes "ns = drop i counts" and "Suc k < length (pack_items l b i ns)"
  shows "must_flush l (pack_items l b i ns ! k)
           (counts ! hd (indices (pack_items l b i ns ! Suc k)))"
  using assms
proof (induction l b i ns arbitrary: k rule: pack_items.induct)
  case (2 l b i n ns)
  have n: "n = counts ! i" and ns: "ns = drop (Suc i) counts"
    using drop_eq_Cons [OF 2(3)] by auto
  let ?rest = "pack_items l (add_item empty_batch i n) (Suc i) ns"
  show ?case
  proof (cases "must_flush l b n")
    case flush: True
    show ?thesis
    proof (cases k)
      case 0
      have "?rest \<noteq> []" by (rule pack_items_nonempty) (simp add: add_item_def)
      then have "hd (indices (?rest ! 0)) = i"
        using pack_items_first [of "add_item empty_batch i n" l "Suc i" ns]
        by (simp add: add_item_def empty_batch_def hd_conv_nth)
      then show ?thesis using flush 0 n by simp
    next
      case (Suc k')
      then show ?thesis using 2(1) [OF flush ns, of k'] 2(4) flush by simp
    qed
  next
    case False
    then show ?thesis using 2(2) [OF False ns, of k] 2(4) by simp
  qed
qed (auto split: if_splits)

lemma plan_batches_Inr:
  "plan_batches texts p = Inr bs \<longleftrightarrow>
     \<not> list_ex (oversized (provider_limits p)) (token_counts p texts)
     \<and> bs = pack_items (provider_limits p) empty_batch 0 (token_counts p texts)"
  by (auto simp: plan_batches_def Let_def list_ex_iff find_None_iff find_Some_iff
      split: option.splits)

lemma plan_indices: "plan_batches texts p = Inr bs \<Longrightarrow> concat (map indices bs) = [0..<length texts]"
  by (simp add: plan_batches_Inr pack_items_positions empty_batch_def token_counts_def)

lemma plan_batch_ok: "plan_batches texts p = Inr bs \<Longrightarrow> b \<in> set bs \<Longrightarrow>
    batch_ok (provider_limits p) (token_counts p texts) b \<and> indices b \<noteq> []"
  using pack_items_ok [OF _ batch_ok_empty, of "token_counts p texts" 0 "token_counts p texts"
      "provider_limits p"]
  by (auto simp: plan_batches_Inr)

section \<open>Lemmas on the embedding loop\<close>

lemma length_assign_vectors [simp]: "length (assign_vectors ixs vs vecs) = length vecs"
proof -
  have "length (fold (\<lambda>(i, v) acc. acc[i := Some v]) ps vecs) = length vecs" for ps
    by (induction ps arbitrary: vecs) auto
  then show ?thesis by (simp add: assign_vectors_def)
qed

text \<open>An assigned position holds a vector of its batch, any other position is unchanged.\<close>

lemma assign_vectors_nth:
  assumes "length vs = length ixs" and "k < length vecs"
  shows "(k \<notin> set ixs \<and> assign_vectors ixs vs vecs ! k = vecs ! k)
    \<or> (\<exists>j < length ixs. ixs ! j = k \<and> assign_vectors ixs vs vecs ! k = Some (vs ! j))"
  using assms
proof (induction ixs vs arbitrary: vecs rule: list_induct2')
  case (4 i ixs v vs)
  have "assign_vectors (i # ixs) (v # vs) vecs = assign_vectors ixs vs (vecs[i := Some v])"
    by (simp add: assign_vectors_def)
  then show ?case
    using 4(1) [of "vecs[i := Some v]"] 4(2,3) by (cases "k = i") (fastforce simp: nth_list_update)+
qed (simp_all add: assign_vectors_def)

definition queued :: "(nat list \<times> nat) list \<Rightarrow> nat set" where
  "queued q = (\<Union>(ixs, d) \<in> set q. set ixs)"

lemma queued_simps [simp]:
  "queued [] = {}" "queued ((ixs, d) # q) = set ixs \<union> queued q"
  by (auto simp: queued_def)

lemma queued_split: "queued ((take n ixs, d) # (drop n ixs, d') # q) = set ixs \<union> queued q"
  by (metis queued_simps(2) append_take_drop_id set_append sup_assoc)

text \<open>One turn of the loop, by what the provider answered.\<close>

lemma embed_loop_answered:
  assumes "provider_embed_documents p s (map ((!) texts) ixs) = (Inr vs, s1)"
    and "length vs = length ixs" and "\<forall>i \<in> set ixs. i < length texts"
  shows "embed_loop p texts ((ixs, d) # q) vecs m s =
    embed_loop p texts q (assign_vectors ixs vs vecs) (record_embedding (length ixs) None m) s1"
  using assms by (subst embed_loop.simps(2)) (auto simp: list_ex_iff Let_def)

lemma embed_loop_split:
  assumes "provider_embed_documents p s (map ((!) texts) ixs) = (Inl (EmbeddingFailureErr f), s1)"
    and "is_capacity_failure f" and "d < max_capacity_retry_depth"
    and "length ixs \<noteq> 1" and "\<forall>i \<in> set ixs. i < length texts"
  shows "embed_loop p texts ((ixs, d) # q) vecs m s =
    embed_loop p texts
      ((take (length ixs div 2) ixs, Suc d) # (drop (length ixs div 2) ixs, Suc d) # q) vecs
      (record_capacity_retry (1 < length ixs) (record_embedding (length ixs) None m)) s1"
  using assms by (subst embed_loop.simps(2)) (auto simp: list_ex_iff Let_def)

lemma embed_loop_failed:
  assumes "provider_embed_documents p s (map ((!) texts) ixs) = (Inl e, s1)"
    and "\<forall>i \<in> set ixs. i < length texts"
    and "\<not> (\<exists>f. e = EmbeddingFailureErr f \<and> is_capacity_failure f
           \<and> d < max_capacity_retry_depth)"
  shows "\<exists>m'. embed_loop p texts ((ixs, d) # q) vecs m s = (Inl (Fatal e), m', s1)
    \<and> embedding_calls m' = fetch_add (embedding_calls m) 1"
  using assms
  by (subst embed_loop.simps(2))
    (auto simp: list_ex_iff Let_def record_terminal_capacity_failure_def record_embedding_def
      split: cortex_error.splits)

lemma embed_loop_single:
  assumes "provider_embed_documents p s [texts ! i] = (Inl (EmbeddingFailureErr f), s1)"
    and "is_capacity_failure f" and "d < max_capacity_retry_depth" and "i < length texts"
  shows "\<exists>m'. embed_loop p texts (([i], d) # q) vecs m s =
      (Inl (NeedsSmallerInput (tokens (count_tokens p (prepare_document_input p (texts ! i))))), m', s1)
    \<and> embedding_calls m' = fetch_add (embedding_calls m) 1"
  using assms
  by (subst embed_loop.simps(2))
    (auto simp: Let_def record_capacity_retry_def record_embedding_def)

text \<open>
  A client of \<open>embedding_service\<close>: the loop over a provider that answers every input.  The
  induction follows the loop, with one case per kind of turn.
\<close>

lemma fetch_add_0: "c \<le> usize_max \<Longrightarrow> fetch_add c 0 = c"
  by (simp add: fetch_add_def)

lemma fetch_add_le: "fetch_add c n \<le> usize_max"
  by (simp add: fetch_add_def flip: less_Suc_eq_le)

lemma fetch_add_assoc: "fetch_add (fetch_add c a) b = fetch_add c (a + b)"
  by (simp add: fetch_add_def mod_add_left_eq add.assoc)

lemma calls_record_embedding:
  "embedding_calls (record_embedding n b m) = fetch_add (embedding_calls m) 1"
  by (simp add: record_embedding_def Let_def)

lemma calls_record_capacity_retry:
  "embedding_calls (record_capacity_retry b m) = embedding_calls m"
  by (simp add: record_capacity_retry_def Let_def)

context embedding_service
begin

lemma embed_loop_induct [consumes 1, case_names finished answered halved single failed]:
  assumes "\<forall>i \<in> queued q. i < length texts"
    and "\<And>vecs m s. P [] vecs m s"
    and "\<And>ixs d q vecs m s vs s1. \<lbrakk>embed s (map ((!) texts) ixs) = (Inr vs, s1);
       length vs = length ixs; \<forall>i \<in> set ixs. i < length texts;
       P q (assign_vectors ixs vs vecs) (record_embedding (length ixs) None m) s1\<rbrakk>
       \<Longrightarrow> P ((ixs, d) # q) vecs m s"
    and "\<And>ixs d q vecs m s f s1. \<lbrakk>embed s (map ((!) texts) ixs) = (Inl (EmbeddingFailureErr f), s1);
       is_capacity_failure f; d < max_capacity_retry_depth; length ixs \<noteq> 1;
       \<forall>i \<in> set ixs. i < length texts;
       P ((take (length ixs div 2) ixs, Suc d) # (drop (length ixs div 2) ixs, Suc d) # q) vecs
         (record_capacity_retry (1 < length ixs) (record_embedding (length ixs) None m)) s1\<rbrakk>
       \<Longrightarrow> P ((ixs, d) # q) vecs m s"
    and "\<And>i d q vecs m s f s1. \<lbrakk>embed s [texts ! i] = (Inl (EmbeddingFailureErr f), s1);
       is_capacity_failure f; d < max_capacity_retry_depth; i < length texts\<rbrakk>
       \<Longrightarrow> P (([i], d) # q) vecs m s"
    and "\<And>ixs d q vecs m s e s1. \<lbrakk>embed s (map ((!) texts) ixs) = (Inl e, s1);
       \<forall>i \<in> set ixs. i < length texts;
       \<not> (\<exists>f. e = EmbeddingFailureErr f \<and> is_capacity_failure f \<and> d < max_capacity_retry_depth)\<rbrakk>
       \<Longrightarrow> P ((ixs, d) # q) vecs m s"
  shows "P q vecs m s"
  using assms(1)
proof (induction q arbitrary: vecs m s rule: measure_induct_rule [where f = queue_measure])
  case (less q vecs m s)
  show ?case
  proof (cases q)
    case Nil
    then show ?thesis using assms(2) by simp
  next
    case (Cons x q')
    obtain ixs d where x: "x = (ixs, d)" by fastforce
    have range: "\<forall>i \<in> set ixs. i < length texts" and range': "\<forall>i \<in> queued q'. i < length texts"
      using less.prems Cons x by auto
    obtain r s1 where r: "embed s (map ((!) texts) ixs) = (r, s1)" by fastforce
    show ?thesis
    proof (cases r)
      case (Inr vs)
      have "length vs = length ixs" using embed_length [of s "map ((!) texts) ixs"] r Inr by simp
      moreover have "queue_measure q' < queue_measure q"
        using Cons x by (simp add: queue_measure_def)
      ultimately show ?thesis
        using assms(3) [of s ixs vs s1] less.IH range range' r Inr Cons x by blast
    next
      case (Inl e)
      show ?thesis
      proof (cases "\<exists>f. e = EmbeddingFailureErr f \<and> is_capacity_failure f \<and> d < max_capacity_retry_depth")
        case False
        then show ?thesis using assms(6) [of s ixs e s1] range r Inl Cons x by blast
      next
        case True
        then obtain f where f: "e = EmbeddingFailureErr f" "is_capacity_failure f"
          "d < max_capacity_retry_depth" by blast
        let ?q = "(take (length ixs div 2) ixs, Suc d) # (drop (length ixs div 2) ixs, Suc d) # q'"
        have "queue_measure ?q < queue_measure q"
          using f(3) Cons x queue_measure_split [of d] by (simp add: queue_measure_def)
        moreover have "\<forall>i \<in> queued ?q. i < length texts"
          using range range' unfolding queued_split by blast
        ultimately have IH: "P ?q vecs' m' s'" for vecs' m' s'
          by (rule less.IH)
        show ?thesis
        proof (cases "length ixs = 1")
          case True
          then obtain i where "ixs = [i]" by (auto simp: length_Suc_conv)
          then show ?thesis using assms(5) [of s i f s1] range r Inl f Cons x by simp
        next
          case False
          then show ?thesis using assms(4) [of s ixs f s1] IH range r Inl f Cons x by blast
        qed
      qed
    qed
  qed
qed


text \<open>What a run may end with: vectors of the provider, an item to split, or its own error.\<close>

lemma embed_loop_result:
  assumes "provider_embed_documents p = embed" and "\<forall>i \<in> queued q. i < length texts"
    and "length vecs = length texts"
    and "\<And>s t vs s'. embed s t = (Inr vs, s') \<Longrightarrow> (\<forall>j < length t. Q (t ! j) (vs ! j))"
    and "\<forall>i < length texts. i \<notin> queued q \<longrightarrow> (\<exists>v. vecs ! i = Some v \<and> Q (texts ! i) v)"
  shows "case fst (embed_loop p texts q vecs m s) of
      Inr out \<Rightarrow> length out = length texts
        \<and> (\<forall>i < length texts. \<exists>v. out ! i = Some v \<and> Q (texts ! i) v)
    | Inl (NeedsSmallerInput n) \<Rightarrow>
        \<exists>t \<in> set texts. n = tokens (count_tokens p (prepare_document_input p t))
    | Inl (Fatal e) \<Rightarrow> \<exists>s t s'. embed s t = (Inl e, s')"
  using assms(2,3,5)
proof (induction q vecs m s rule: embed_loop_induct)
  case (finished vecs m s)
  then show ?case by auto
next
  case (answered ixs d q vecs m s vs s1)
  have "\<exists>v. assign_vectors ixs vs vecs ! i = Some v \<and> Q (texts ! i) v"
    if i: "i < length texts" "i \<notin> queued q" for i
  proof -
    have "Q (texts ! (ixs ! j)) (vs ! j)" if "j < length ixs" for j
      using assms(4) [OF answered(1)] that by simp
    then show ?thesis
      using assign_vectors_nth [OF answered(2), of i vecs] answered(5,6) i by auto
  qed
  then show ?case
    using answered embed_loop_answered [of p s texts ixs vs s1 d q vecs m] assms(1) by simp
next
  case (halved ixs d q vecs m s f s1)
  then show ?case
    using embed_loop_split [of p s texts ixs f s1 d q vecs m] assms(1)
    by (simp add: queued_split del: queued_simps(2)) simp
next
  case (single i d q vecs m s f s1)
  then show ?case
    using embed_loop_single [of p s texts i f s1 d q vecs m] assms(1)
    by (auto intro!: bexI [of _ "texts ! i"])
next
  case (failed ixs d q vecs m s e s1)
  then show ?case
    using embed_loop_failed [of p s texts ixs e s1 d q vecs m] assms(1) failed(1) by fastforce
qed

text \<open>The number of provider calls: a batch of \<open>n\<close> items is at worst the root of a binary
  tree with \<open>n\<close> leaves.\<close>

lemma embed_loop_calls:
  assumes "provider_embed_documents p = embed" and "\<forall>i \<in> queued q. i < length texts"
    and "\<forall>(ixs, d) \<in> set q. ixs \<noteq> []" and "embedding_calls m \<le> usize_max"
  shows "\<exists>k \<le> (\<Sum>(ixs, d) \<leftarrow> q. 2 * length ixs - 1).
    embedding_calls (fst (snd (embed_loop p texts q vecs m s))) = fetch_add (embedding_calls m) k"
  using assms(2,3,4)
proof (induction q vecs m s rule: embed_loop_induct)
  case (finished vecs m s)
  then show ?case by (simp add: fetch_add_0)
next
  case (answered ixs d q vecs m s vs s1)
  let ?m = "record_embedding (length ixs) None m"
  obtain k where k: "k \<le> (\<Sum>(ixs, d) \<leftarrow> q. 2 * length ixs - 1)"
    "embedding_calls (fst (snd (embed_loop p texts q (assign_vectors ixs vs vecs) ?m s1)))
      = fetch_add (embedding_calls ?m) k"
    using answered by (auto simp: calls_record_embedding fetch_add_le)
  then have "Suc k \<le> (\<Sum>(ixs, d) \<leftarrow> (ixs, d) # q. 2 * length ixs - 1)"
    using answered(5) by (cases ixs) auto
  then show ?case
    using embed_loop_answered [of p s texts ixs vs s1 d q vecs m] answered k assms(1)
    by (intro exI [of _ "Suc k"]) (simp add: calls_record_embedding fetch_add_assoc)
next
  case (halved ixs d q vecs m s f s1)
  let ?n = "length ixs"
  let ?q = "(take (?n div 2) ixs, Suc d) # (drop (?n div 2) ixs, Suc d) # q"
  let ?m = "record_capacity_retry (1 < ?n) (record_embedding ?n None m)"
  have n: "2 \<le> ?n" using halved(4,7) by (cases ixs) (auto simp: Suc_le_eq)
  then have "\<forall>(ixs, d) \<in> set ?q. ixs \<noteq> []" using halved(7) by auto
  then obtain k where k: "k \<le> (\<Sum>(ixs, d) \<leftarrow> ?q. 2 * length ixs - 1)"
    "embedding_calls (fst (snd (embed_loop p texts ?q vecs ?m s1))) = fetch_add (embedding_calls ?m) k"
    using halved(6) by (auto simp: calls_record_embedding calls_record_capacity_retry fetch_add_le)
  then have "Suc k \<le> (\<Sum>(ixs, d) \<leftarrow> (ixs, d) # q. 2 * length ixs - 1)"
    using n by auto
  then show ?case
    using embed_loop_split [of p s texts ixs f s1 d q vecs m] halved k assms(1)
    by (intro exI [of _ "Suc k"]) (simp add: calls_record_embedding calls_record_capacity_retry fetch_add_assoc)
next
  case (single i d q vecs m s f s1)
  then show ?case
    using embed_loop_single [of p s texts i f s1 d q vecs m] assms(1)
    by (intro exI [of _ 1]) auto
next
  case (failed ixs d q vecs m s e s1)
  then show ?case
    using embed_loop_failed [of p s texts ixs e s1 d q vecs m] assms(1)
    by (intro exI [of _ 1]) (cases ixs; auto)
qed

text \<open>Depth 8 is enough to reach single items from a batch of at most 256.\<close>

lemma embed_loop_succeeds:
  assumes "provider_embed_documents p = embed" and "\<forall>i \<in> queued q. i < length texts"
    and "\<forall>(ixs, d) \<in> set q. ixs \<noteq> [] \<and> length ixs \<le> 2 ^ (8 - d)"
    and "\<And>s t. \<exists>v s'. embed s [t] = (Inr v, s')"
    and "\<And>s ts e s'. embed s ts = (Inl e, s') \<Longrightarrow>
      \<exists>f. e = EmbeddingFailureErr f \<and> is_capacity_failure f"
  shows "\<exists>out. fst (embed_loop p texts q vecs m s) = Inr out"
  using assms(2,3)
proof (induction q vecs m s rule: embed_loop_induct)
  case (finished vecs m s)
  then show ?case by simp
next
  case (answered ixs d q vecs m s vs s1)
  then show ?case
    using embed_loop_answered [of p s texts ixs vs s1 d q vecs m] assms(1) by simp
next
  case (halved ixs d q vecs m s f s1)
  have d: "8 - d = Suc (8 - Suc d)"
    using halved(3) by (simp add: max_capacity_retry_depth_def)
  have "2 \<le> length ixs" using halved(4,7) by (cases ixs) (auto simp: Suc_le_eq)
  moreover have "length ixs \<le> 2 * 2 ^ (8 - Suc d)"
    using halved(7) d by simp
  ultimately have "length ixs div 2 \<le> 2 ^ (8 - Suc d)" "0 < length ixs div 2"
    "length ixs - length ixs div 2 \<le> 2 ^ (8 - Suc d)" "length ixs div 2 < length ixs"
    by linarith+
  then have "\<exists>out. fst (embed_loop p texts ((take (length ixs div 2) ixs, Suc d)
      # (drop (length ixs div 2) ixs, Suc d) # q) vecs
      (record_capacity_retry (1 < length ixs) (record_embedding (length ixs) None m)) s1) = Inr out"
    using halved(7) by (intro halved(6)) auto
  then show ?case
    using embed_loop_split [of p s texts ixs f s1 d q vecs m] halved assms(1) by auto
next
  case (single i d q vecs m s f s1)
  then show ?case using assms(4) [of s "texts ! i"] by auto
next
  case (failed ixs d q vecs m s e s1)
  then have "max_capacity_retry_depth \<le> d" using assms(5) by (meson not_le)
  then have "length ixs = 1"
    using failed(4) by (cases ixs) (auto simp: max_capacity_retry_depth_def)
  then obtain i where "ixs = [i]" by (auto simp: length_Suc_conv)
  then show ?case using assms(4) [of s "texts ! i"] failed(1) by auto
qed

end

lemma collect_vectors_Some:
  "\<forall>i < length vecs. vecs ! i = Some (f i) \<Longrightarrow> collect_vectors k vecs = Inr (map f [0..<length vecs])"
proof (induction vecs arbitrary: k f)
  case (Cons v vecs)
  have "collect_vectors (Suc k) vecs = Inr (map (\<lambda>i. f (Suc i)) [0..<length vecs])"
    using Cons.prems by (intro Cons.IH) auto
  moreover have "v = Some (f 0)" using Cons.prems by auto
  ultimately show ?case
    by (simp add: map_upt_Suc del: upt_Suc)
qed simp

lemma queued_plan: "queued (map (\<lambda>b. (indices b, 0)) bs) = set (concat (map indices bs))"
  by (auto simp: queued_def)

text \<open>The whole operation, over any provider that answers every input.\<close>

lemma embed_documents_result:
  assumes "embedding_service (provider_embed_documents p)"
    and "\<And>s t vs s'. provider_embed_documents p s t = (Inr vs, s') \<Longrightarrow>
      \<forall>j < length t. Q (t ! j) (vs ! j)"
  shows "case fst (embed_documents texts p m s) of
      Inr vs \<Rightarrow> length vs = length texts \<and> (\<forall>i < length texts. Q (texts ! i) (vs ! i))
    | Inl (NeedsSmallerInput n) \<Rightarrow>
        \<exists>t \<in> set texts. n = tokens (count_tokens p (prepare_document_input p t))
    | Inl (Fatal e) \<Rightarrow> \<exists>s t s'. provider_embed_documents p s t = (Inl e, s')"
proof (cases "texts = []")
  case True
  then show ?thesis by (simp add: embed_documents_def)
next
  case False
  show ?thesis
  proof (cases "plan_batches texts p")
    case (Inl e)
    then show ?thesis
      using False by (auto simp: embed_documents_def plan_batches_def Let_def token_counts_def
          dest!: find_SomeD split: option.splits)
  next
    case (Inr bs)
    let ?q = "map (\<lambda>b. (indices b, 0)) bs"
    let ?loop = "embed_loop p texts ?q (replicate (length texts) None) m s"
    have "queued ?q = {..<length texts}"
      using plan_indices [OF Inr] by (auto simp: queued_plan simp del: set_concat)
    then have r: "case fst ?loop of
      Inr out \<Rightarrow> length out = length texts
        \<and> (\<forall>i < length texts. \<exists>v. out ! i = Some v \<and> Q (texts ! i) v)
    | Inl (NeedsSmallerInput n) \<Rightarrow>
        \<exists>t \<in> set texts. n = tokens (count_tokens p (prepare_document_input p t))
    | Inl (Fatal e) \<Rightarrow> \<exists>s t s'. provider_embed_documents p s t = (Inl e, s')"
      by (intro embedding_service.embed_loop_result [OF assms(1) refl] assms(2)) auto
    show ?thesis
    proof (cases "fst ?loop")
      case (Inl e)
      then show ?thesis
        using r False Inr
        by (cases e) (fastforce simp: embed_documents_def split: prod.splits sum.splits)+
    next
      case out: (Inr out)
      then obtain f where "\<forall>i < length texts. out ! i = Some (f i) \<and> Q (texts ! i) (f i)"
        using r by (auto; metis)
      moreover have "length out = length texts" using r out by simp
      ultimately show ?thesis
        using collect_vectors_Some [of out f 0] False Inr out
        by (auto simp: embed_documents_def split: prod.splits sum.splits)
    qed
  qed
qed

section \<open>Properties\<close>

text \<open>C9. A plan partitions the inputs in order: its batches, one after the other, hold the
  positions 0, 1, 2, ... of the texts exactly once; no batch is empty, has more items than
  \<open>max_batch_items\<close> (at least one), or more tokens than \<open>max_batch_tokens\<close>; its token count is
  the (saturated) sum of its items' counts and its largest item their maximum; and it is greedy:
  the first item of a batch did not fit the batch before it.\<close>

theorem plan_batches_partition:
  assumes "plan_batches texts p = Inr bs"
  shows "concat (map indices bs) = [0..<length texts]
    \<and> list_all (\<lambda>b. indices b \<noteq> [] \<and> batch_ok (provider_limits p) (token_counts p texts) b) bs
    \<and> (\<forall>k. Suc k < length bs \<longrightarrow>
          must_flush (provider_limits p) (bs ! k) (token_counts p texts ! hd (indices (bs ! Suc k))))"
  using plan_indices [OF assms] plan_batch_ok [OF assms]
    pack_items_greedy [of "token_counts p texts" 0 "token_counts p texts" _ "provider_limits p" empty_batch]
    assms by (auto simp: list_all_iff plan_batches_Inr)

definition demo_provider :: "(nat, string) embedding_provider" where
  "demo_provider =
     \<lparr>provider_limits = \<lparr>max_input_tokens = Some 8, max_batch_tokens = Some 12,
        max_batch_items = 3, reserved_tokens = 0\<rparr>,
      count_tokens = conservative_byte_count, prepare_document_input = (\<lambda>t. t),
      provider_embed_documents = (\<lambda>s ts.
        if 1 < length ts \<and> 10 < length (concat ts)
        then (Inl (EmbeddingFailureErr (new_failure BatchTooLarge ''strict'')), Suc s)
        else (Inr ts, Suc s))\<rparr>"

definition demo_texts :: "string list" where
  "demo_texts = [''123456'', ''123456'', ''12'']"

definition zero_metrics :: runtime_metrics where
  "zero_metrics = \<lparr>embedding_calls = 0, embedding_inputs = 0, embedding_batches = 0,
     capacity_retries = 0, batch_repacks = 0, terminal_capacity_failures = 0\<rparr>"

lemma demo_plan:
  "plan_batches demo_texts demo_provider =
     Inr [\<lparr>indices = [0, 1], token_total = 12, largest_item_tokens = 6\<rparr>,
          \<lparr>indices = [2], token_total = 2, largest_item_tokens = 2\<rparr>]"
  by code_simp

theorem plan_batches_partition_witness:
  "concat (map indices [\<lparr>indices = [0, 1], token_total = 12, largest_item_tokens = 6\<rparr>,
          \<lparr>indices = [2], token_total = 2, largest_item_tokens = 2\<rparr>])
     = [0..<length demo_texts]"
  by (rule plan_batches_partition [OF demo_plan, THEN conjunct1])

text \<open>What the provider's limits say of one text, apart from the planner: \<open>measured_size\<close> is the
  size the provider counts for it, and the text is \<open>too_large\<close> when that size together with the
  reserved tokens is over the input limit, or the size alone is over the batch token limit.  (A
  text of size 0 is never over the input limit: the subtraction in the budget saturates.)\<close>

definition measured_size :: "('s, 'v) embedding_provider \<Rightarrow> string \<Rightarrow> nat" where
  "measured_size p t = tokens (count_tokens p (prepare_document_input p t))"

definition too_large :: "('s, 'v) embedding_provider \<Rightarrow> string \<Rightarrow> bool" where
  "too_large p t \<longleftrightarrow>
     0 < measured_size p t
     \<and> ((\<exists>most. max_input_tokens (provider_limits p) = Some most
            \<and> most < measured_size p t + reserved_tokens (provider_limits p))
        \<or> (\<exists>most. max_batch_tokens (provider_limits p) = Some most \<and> most < measured_size p t))"

lemma oversized_too_large: "oversized (provider_limits p) (measured_size p t) \<longleftrightarrow> too_large p t"
  by (auto simp: oversized_def too_large_def input_budget_def split: option.splits)

lemma find_too_large:
  "find (oversized (provider_limits p)) (token_counts p texts) =
     map_option (measured_size p) (find (too_large p) texts)"
  by (induction texts) (auto simp: token_counts_def oversized_too_large measured_size_def [symmetric])

lemma plan_batches_first:
  "plan_batches texts p = Inl e \<longleftrightarrow>
     (\<exists>t. find (too_large p) texts = Some t \<and> e = NeedsSmallerInput (measured_size p t))"
  by (cases "find (too_large p) texts") (auto simp: plan_batches_def Let_def find_too_large)

text \<open>C19. Planning fails exactly when some text alone is over the input limit (less the reserved
  tokens) or over the batch token limit of the provider.  The error then carries the measured size
  of the first such text, and embedding the texts ends with that error before the provider is
  called once and before any counter moves.\<close>

theorem plan_batches_rejects:
  "(plan_batches texts p = Inl e \<longleftrightarrow>
      (\<exists>i < length texts. too_large p (texts ! i) \<and> (\<forall>j < i. \<not> too_large p (texts ! j))
         \<and> e = NeedsSmallerInput (measured_size p (texts ! i))))
   \<and> (plan_batches texts p = Inl e \<longrightarrow> embed_documents texts p m s = (Inl e, m, s))"
proof
  show "plan_batches texts p = Inl e \<longleftrightarrow>
      (\<exists>i < length texts. too_large p (texts ! i) \<and> (\<forall>j < i. \<not> too_large p (texts ! j))
         \<and> e = NeedsSmallerInput (measured_size p (texts ! i)))"
    unfolding plan_batches_first find_Some_iff by blast
  show "plan_batches texts p = Inl e \<longrightarrow> embed_documents texts p m s = (Inl e, m, s)"
  proof
    assume e: "plan_batches texts p = Inl e"
    then have "texts \<noteq> []"
      by (auto simp: plan_batches_first)
    with e show "embed_documents texts p m s = (Inl e, m, s)"
      by (simp add: embed_documents_def)
  qed
qed

theorem plan_batches_rejects_witness:
  "embed_documents [''ab'', ''123456789''] demo_provider zero_metrics 0
     = (Inl (NeedsSmallerInput 9), zero_metrics, 0)"
proof -
  have "too_large demo_provider ([''ab'', ''123456789''] ! 1)"
    "\<forall>j < 1. \<not> too_large demo_provider ([''ab'', ''123456789''] ! j)"
    "measured_size demo_provider ([''ab'', ''123456789''] ! 1) = 9"
    by (simp_all add: too_large_def measured_size_def demo_provider_def conservative_byte_count_def)
  then have "plan_batches [''ab'', ''123456789''] demo_provider = Inl (NeedsSmallerInput 9)"
    by (intro plan_batches_rejects [THEN conjunct1, THEN iffD2] exI [of _ 1]) simp
  then show ?thesis
    by (rule plan_batches_rejects [THEN conjunct2, THEN mp])
qed

text \<open>C20. Embedding through a deterministic provider that computes \<open>vec\<close> on each text returns, on
  success, the vector of every text at its own position, whatever repacking the provider's
  rejections forced.\<close>

theorem embed_documents_in_order:
  assumes "\<And>s t vs s'. provider_embed_documents p s t = (Inr vs, s') \<Longrightarrow> vs = map vec t"
    and "embed_documents texts p m s = (Inr vs, m', s')"
  shows "vs = map vec texts"
proof -
  have "embedding_service (provider_embed_documents p)"
    by unfold_locales (metis assms(1) length_map)
  moreover have "\<forall>j < length t. vs ! j = vec (t ! j)"
    if "provider_embed_documents p s t = (Inr vs, s')" for s t vs s'
    using assms(1) [OF that] by simp
  ultimately show ?thesis
    using embed_documents_result [of p "\<lambda>t v. v = vec t" texts m s] assms(2)
    by (auto intro: nth_equalityI)
qed

lemma demo_run:
  "embed_documents demo_texts demo_provider zero_metrics 0 =
     (Inr demo_texts, \<lparr>embedding_calls = 4, embedding_inputs = 5, embedding_batches = 4,
        capacity_retries = 1, batch_repacks = 1, terminal_capacity_failures = 0\<rparr>, 4)"
  by code_simp

theorem embed_documents_in_order_witness:
  "fst (embed_documents demo_texts demo_provider zero_metrics 0) = Inr demo_texts"
proof -
  have "\<And>s t vs s'. provider_embed_documents demo_provider s t = (Inr vs, s') \<Longrightarrow> vs = map (\<lambda>x. x) t"
    by (auto simp: demo_provider_def split: if_splits)
  then have "demo_texts = map (\<lambda>x. x) demo_texts"
    by (rule embed_documents_in_order [OF _ demo_run])
  then show ?thesis by (simp add: demo_run)
qed

text \<open>C21. Through the OpenAI-compatible provider with a positive batch size, embedding never
  invents a failure of its own: it returns one valid (non-empty, finite, correctly dimensioned)
  vector per text, or asks to split a text of that measured size, or passes on an error of the
  provider; it neither panics nor loses a vector.\<close>

theorem embed_documents_openai:
  assumes "provider_embed_documents p = openai_embed_documents post cfg"
    and "0 < config_batch_size cfg"
  shows "case fst (embed_documents texts p m s) of
      Inr vs \<Rightarrow> length vs = length texts \<and> list_all (valid_vector (config_dimension cfg)) vs
    | Inl (NeedsSmallerInput n) \<Rightarrow>
        list_ex (\<lambda>t. n = tokens (count_tokens p (prepare_document_input p t))) texts
    | Inl (Fatal e) \<Rightarrow> (\<exists>s t s'. openai_embed_documents post cfg s t = (Inl e, s'))
        \<and> (\<forall>msg. e \<noteq> Panicked msg)"
proof -
  have "valid_vector (config_dimension cfg) (vs ! j)"
    if "provider_embed_documents p s t = (Inr vs, s')" and "j < length t" for s t vs s' j
    using openai_embed_valid [of post cfg s t vs s'] openai.embed_length [of post cfg s t vs s']
      that assms(1) by simp
  then show ?thesis
    using embed_documents_result [of p "\<lambda>t v. valid_vector (config_dimension cfg) v" texts m s]
      openai_embed_no_panic [OF assms(2)] openai.embedding_service_axioms [of post cfg] assms(1)
    by (fastforce simp: list_all_length list_ex_iff split: sum.splits batch_error.splits)
qed

text \<open>A server that answers each text with the one-dimensional vector 1.0, model name withheld.\<close>

definition demo_post :: "nat \<Rightarrow> string list \<Rightarrow> http_outcome \<times> nat" where
  "demo_post s ts = (Answered \<lparr>response_data = map (\<lambda>i. \<lparr>datum_index = i, datum_embedding = [f32_one]\<rparr>)
     (rev [0..<length ts]), response_model = None\<rparr>, Suc s)"

definition demo_config :: openai_config where
  "demo_config = \<lparr>config_model = ''m'', config_dimension = Some 1, config_batch_size = 2,
     config_document_prefix = []\<rparr>"

definition demo_openai :: "(nat, f32 list) embedding_provider" where
  "demo_openai = \<lparr>provider_limits = provider_limits demo_provider,
     count_tokens = conservative_byte_count, prepare_document_input = (\<lambda>t. t),
     provider_embed_documents = openai_embed_documents demo_post demo_config\<rparr>"

theorem embed_documents_openai_witness:
  "case fst (embed_documents demo_texts demo_openai zero_metrics 0) of
      Inr vs \<Rightarrow> length vs = length demo_texts
        \<and> list_all (valid_vector (config_dimension demo_config)) vs
    | Inl (NeedsSmallerInput n) \<Rightarrow> list_ex (\<lambda>t. n = tokens (count_tokens demo_openai
        (prepare_document_input demo_openai t))) demo_texts
    | Inl (Fatal e) \<Rightarrow> (\<exists>s t s'. openai_embed_documents demo_post demo_config s t = (Inl e, s'))
        \<and> (\<forall>msg. e \<noteq> Panicked msg)"
proof (rule embed_documents_openai)
  show "provider_embed_documents demo_openai = openai_embed_documents demo_post demo_config"
    by (simp add: demo_openai_def)
  show "0 < config_batch_size demo_config"
    by (simp add: demo_config_def)
qed

text \<open>Embedding makes fewer than two provider calls per text: splitting rejected batches in
  halves costs at most one call per node of a binary tree over the texts.\<close>

theorem embed_documents_calls:
  assumes "\<And>s t vs s'. provider_embed_documents p s t = (Inr vs, s') \<Longrightarrow> length vs = length t"
    and "embedding_calls m \<le> usize_max"
  shows "\<exists>k \<le> 2 * length texts - 1. embedding_calls (fst (snd (embed_documents texts p m s)))
           = fetch_add (embedding_calls m) k"
proof (cases "texts = [] \<or> (\<exists>e. plan_batches texts p = Inl e)")
  case True
  then show ?thesis
    using assms(2) by (intro exI [of _ 0]) (auto simp: embed_documents_def fetch_add_0)
next
  case False
  then obtain bs where bs: "plan_batches texts p = Inr bs" by (metis sumE)
  let ?q = "map (\<lambda>b. (indices b, 0::nat)) bs"
  have srv: "embedding_service (provider_embed_documents p)"
    by unfold_locales (rule assms(1))
  have range: "\<forall>i \<in> queued ?q. i < length texts"
    using plan_indices [OF bs] by (simp add: queued_plan del: set_concat)
  have "\<forall>(ixs, d) \<in> set ?q. ixs \<noteq> []"
    using plan_batch_ok [OF bs] by auto
  then obtain k where k: "k \<le> (\<Sum>(ixs, d) \<leftarrow> ?q. 2 * length ixs - 1)"
    "embedding_calls (fst (snd (embed_loop p texts ?q (replicate (length texts) None) m s)))
       = fetch_add (embedding_calls m) k"
    using embedding_service.embed_loop_calls [OF srv refl range _ assms(2)] by blast
  have "(\<Sum>(ixs, d) \<leftarrow> map (\<lambda>b. (indices b, 0::nat)) cs. 2 * length ixs - 1)
      \<le> 2 * length (concat (map indices cs)) - 1" for cs
    by (induction cs) auto
  then have "k \<le> 2 * length texts - 1"
    using k(1) plan_indices [OF bs] order_trans by (fastforce simp del: length_concat)
  moreover have "embedding_calls (fst (snd (embed_documents texts p m s))) = fetch_add (embedding_calls m) k"
    using k(2) bs False by (auto simp: embed_documents_def split: prod.splits sum.splits)
  ultimately show ?thesis by blast
qed

theorem embed_documents_calls_witness:
  "\<exists>k \<le> 5. embedding_calls (fst (snd (embed_documents demo_texts demo_provider zero_metrics 0)))
     = fetch_add 0 k"
proof -
  have "length vs = length t" if "provider_embed_documents demo_provider s t = (Inr vs, s')" for s t vs s'
    using that by (auto simp: demo_provider_def split: if_splits)
  then show ?thesis
    using embed_documents_calls [of demo_provider zero_metrics demo_texts 0]
    by (simp add: zero_metrics_def demo_texts_def)
qed

text \<open>C22. Repacking is enough: with batches of at most 256 items, a provider that only ever fails
  with a capacity error, and never on a single text, is always brought to success.\<close>

theorem embed_documents_succeeds:
  assumes "\<And>s t vs s'. provider_embed_documents p s t = (Inr vs, s') \<Longrightarrow> length vs = length t"
    and "\<And>s t. \<exists>v s'. provider_embed_documents p s [t] = (Inr v, s')"
    and "\<And>s ts e s'. provider_embed_documents p s ts = (Inl e, s') \<Longrightarrow>
      \<exists>f. e = EmbeddingFailureErr f \<and> is_capacity_failure f"
    and "max_batch_items (provider_limits p) \<le> 256"
    and "\<not> list_ex (oversized (provider_limits p)) (token_counts p texts)"
  shows "\<exists>vs. fst (embed_documents texts p m s) = Inr vs \<and> length vs = length texts"
proof -
  obtain bs where bs: "plan_batches texts p = Inr bs" using assms(5) by (simp add: plan_batches_Inr)
  let ?q = "map (\<lambda>b. (indices b, 0::nat)) bs"
  let ?loop = "embed_loop p texts ?q (replicate (length texts) None) m s"
  have srv: "embedding_service (provider_embed_documents p)"
    by unfold_locales (rule assms(1))
  have q: "queued ?q = {..<length texts}"
    using plan_indices [OF bs] by (auto simp: queued_plan simp del: set_concat)
  have "length ixs \<le> 2 ^ (8 - d) \<and> ixs \<noteq> []" if "(ixs, d) \<in> set ?q" for ixs d
    using plan_batch_ok [OF bs] assms(4) that by (fastforce simp: batch_ok_def)
  then have small: "\<forall>(ixs, d) \<in> set ?q. ixs \<noteq> [] \<and> length ixs \<le> 2 ^ (8 - d)"
    by blast
  obtain out where out: "fst ?loop = Inr out"
    using embedding_service.embed_loop_succeeds [OF srv refl _ small assms(2), of texts] assms(3) q
    by blast
  have "length out = length texts \<and> (\<forall>i < length texts. \<exists>v. out ! i = Some v \<and> True)"
    using embedding_service.embed_loop_result [OF srv refl, of ?q texts "replicate (length texts) None"
        "\<lambda>_ _. True" m s] out q by simp
  then obtain f where "\<forall>i < length out. out ! i = Some (f i)" by metis
  then have "\<exists>vs. fst (embed_documents texts p m s) = Inr vs"
    using collect_vectors_Some [of out f 0] out bs
    by (auto simp: embed_documents_def split: prod.splits sum.splits)
  then show ?thesis
    using embed_documents_result [OF srv, of "\<lambda>_ _. True" texts m s] by auto
qed

theorem embed_documents_succeeds_witness:
  "\<exists>vs. fst (embed_documents demo_texts demo_provider zero_metrics 0) = Inr vs
     \<and> length vs = length demo_texts"
proof (rule embed_documents_succeeds)
  show "length vs = length t" if "provider_embed_documents demo_provider s t = (Inr vs, s')" for s t vs s'
    using that by (auto simp: demo_provider_def split: if_splits)
  show "\<exists>v s'. provider_embed_documents demo_provider s [t] = (Inr v, s')" for s t
    by (simp add: demo_provider_def)
  show "\<exists>f. e = EmbeddingFailureErr f \<and> is_capacity_failure f"
    if "provider_embed_documents demo_provider s ts = (Inl e, s')" for s ts e s'
    using that by (auto simp: demo_provider_def is_capacity_failure_def new_failure_def split: if_splits)
  show "max_batch_items (provider_limits demo_provider) \<le> 256"
    by (simp add: demo_provider_def)
  show "\<not> list_ex (oversized (provider_limits demo_provider)) (token_counts demo_provider demo_texts)"
    by code_simp
qed

end
