(* ===== verification/EvidenceDomain.thy ===== *)
theory EvidenceDomain
  imports CortexError
begin

text \<open>
  The evidence data model: \<open>src/domain/evidence.rs\<close>, \<open>src/domain/test_evidence.rs\<close>, the event
  type of \<open>src/domain/models.rs\<close> and \<open>serde_json::Value\<close>.  Timestamps are integers; bounded
  integers that the modelled code only compares or counts within checked bounds are \<open>nat\<close> and
  \<open>int\<close>.  Field names carry a prefix where two structs of the source share one.
\<close>

section \<open>JSON values\<close>

datatype json_number = PosInt nat | NegInt int | FloatNumber string

datatype json =
    JNull
  | JBool bool
  | JNumber json_number
  | JString string
  | JArray "json list"
  | JObject "(string \<times> json) list"

section \<open>Events\<close>

datatype event_type =
    FileCreated | FileModified | FileRemoved | FileRenamed | MemoryRecorded | SessionStarted
  | SessionEnded | TaskStarted | TaskUpdated | TaskCompleted | ExternalToolStarted
  | ExternalToolFinished | CompilerResult | TestResult | UserAcceptanceEvent
  | ContextHydrationOverride | OtherEvent string

definition reserved_events :: "(string \<times> event_type) list" where
  "reserved_events =
     [(''file_created'', FileCreated), (''file_modified'', FileModified),
      (''file_removed'', FileRemoved), (''file_renamed'', FileRenamed),
      (''memory_recorded'', MemoryRecorded), (''session_started'', SessionStarted),
      (''session_ended'', SessionEnded), (''task_started'', TaskStarted),
      (''task_updated'', TaskUpdated), (''task_completed'', TaskCompleted),
      (''external_tool_started'', ExternalToolStarted),
      (''external_tool_finished'', ExternalToolFinished),
      (''compiler_result'', CompilerResult), (''test_result'', TestResult),
      (''user_acceptance'', UserAcceptanceEvent),
      (''context_hydration_override'', ContextHydrationOverride)]"

definition event_storage_name :: "event_type \<Rightarrow> string" where
  "event_storage_name t =
     (case t of OtherEvent v \<Rightarrow> v
      | _ \<Rightarrow> (case find (\<lambda>(n, u). u = t) reserved_events of
               Some (n, u) \<Rightarrow> n | None \<Rightarrow> ''other''))"

definition event_from_storage :: "string \<Rightarrow> event_type" where
  "event_from_storage v =
     (case map_of reserved_events v of Some t \<Rightarrow> t | None \<Rightarrow> OtherEvent v)"

record cortex_event =
  event_id :: string
  event_workspace_id :: string
  event_session_id :: "string option"
  event_task_id :: "string option"
  event_type_of :: event_type
  event_payload :: json
  event_created_at :: int

section \<open>Evidence contracts\<close>

definition max_evidence_payload_bytes :: nat where "max_evidence_payload_bytes = 64 * 1024"
definition max_evidence_text_bytes :: nat where "max_evidence_text_bytes = 4 * 1024"
definition max_evidence_identifier_bytes :: nat where "max_evidence_identifier_bytes = 256"
definition max_rust_diagnostics :: nat where "max_rust_diagnostics = 64"
definition max_test_failures :: nat where "max_test_failures = 64"
definition max_test_cases :: nat where "max_test_cases = 256"
definition max_test_child_observations :: nat where "max_test_child_observations = 256"
definition max_test_namespace_components :: nat where "max_test_namespace_components = 16"
definition max_test_run_errors :: nat where "max_test_run_errors = 64"
definition max_test_verification_inputs :: nat where "max_test_verification_inputs = 32"
definition max_test_artifacts :: nat where "max_test_artifacts = 16"

datatype evidence_contract =
    ExternalToolCompletionContract | RustCompilerResultContract | CargoTestResultContract
  | TestRunResultContract | GenericVerifierResultContract | SourceChangeObservationContract
  | UserAcceptanceContract

fun contract_id :: "evidence_contract \<Rightarrow> string" where
  "contract_id ExternalToolCompletionContract = ''cortexweave.external_tool_completion''"
| "contract_id RustCompilerResultContract = ''cortexweave.rust_compiler_result''"
| "contract_id CargoTestResultContract = ''cortexweave.cargo_test_result''"
| "contract_id TestRunResultContract = ''cortexweave.test_run_result''"
| "contract_id GenericVerifierResultContract = ''cortexweave.generic_verifier_result''"
| "contract_id SourceChangeObservationContract = ''cortexweave.source_change_observation''"
| "contract_id UserAcceptanceContract = ''cortexweave.user_acceptance''"

definition contract_from_id :: "string \<Rightarrow> evidence_contract option" where
  "contract_from_id v =
     (if v = ''cortexweave.external_tool_completion'' then Some ExternalToolCompletionContract
      else if v = ''cortexweave.rust_compiler_result'' then Some RustCompilerResultContract
      else if v = ''cortexweave.cargo_test_result'' then Some CargoTestResultContract
      else if v = ''cortexweave.test_run_result'' then Some TestRunResultContract
      else if v = ''cortexweave.generic_verifier_result'' then Some GenericVerifierResultContract
      else if v = ''cortexweave.source_change_observation'' then Some SourceChangeObservationContract
      else if v = ''cortexweave.user_acceptance'' then Some UserAcceptanceContract
      else None)"

record evidence_envelope =
  env_event_id :: string
  env_workspace_id :: string
  env_session_id :: string
  env_task_id :: "string option"
  env_occurred_at :: int
  env_contract :: evidence_contract
  env_version :: nat

section \<open>Observations\<close>

datatype process_outcome = ExitedZero | ExitedNonzero
datatype diagnostic_level = ErrorLevel | WarningLevel | NoteLevel | HelpLevel
datatype verification_result = VerificationPassed | VerificationFailed
datatype subject_kind = WorkspaceSubject | PackageSubject | TargetSubject | TestSubject | PathSubject
datatype source_change_kind = Created | Modified | Removed | Renamed

record tool_completion =
  tc_tool :: string
  tc_operation :: string
  tc_exit_code :: int
  tc_error_class :: "string option"
  tc_message :: "string option"

record evidence_subject =
  es_kind :: subject_kind
  es_value :: string

record rust_diagnostic =
  rd_level :: diagnostic_level
  rd_code :: "string option"
  rd_message :: string
  rd_expected_type :: "string option"
  rd_actual_type :: "string option"
  rd_path :: "string option"
  rd_start_line :: "nat option"
  rd_start_column :: "nat option"

record rust_compiler_result =
  rc_subject :: evidence_subject
  rc_process_outcome :: process_outcome
  rc_exit_code :: int
  rc_diagnostics :: "rust_diagnostic list"

record test_failure =
  tf_test_name :: "string option"
  tf_assertion_class :: "string option"
  tf_message :: "string option"

record cargo_test_result =
  ct_subject :: evidence_subject
  ct_process_outcome :: process_outcome
  ct_exit_code :: int
  ct_executed_test_count :: nat
  ct_failures :: "test_failure list"

record generic_verifier_result =
  gv_verifier_id :: string
  gv_verifier_version :: string
  gv_tool :: string
  gv_operation :: string
  gv_reported_result :: verification_result
  gv_process_outcome :: process_outcome
  gv_exit_code :: int
  gv_subject :: evidence_subject

record source_change =
  sc_change :: source_change_kind
  sc_path :: string
  sc_previous_path :: "string option"
  sc_workspace_revision :: int
  sc_document_revision :: int
  sc_content_hash :: "string option"

record user_acceptance =
  ua_actor :: string
  ua_subject :: evidence_subject

section \<open>Test runs\<close>

record versioned_component =
  vc_id :: string
  vc_version :: string

datatype test_selection_kind = FileSelection | ModuleSelection | ClassSelection

datatype test_case_status =
    Passed | AssertionFailed | Errored | Skipped | Todo | Pending | ExpectedFailed
  | UnexpectedSuccessful

fun was_executed :: "test_case_status \<Rightarrow> bool" where
  "was_executed Skipped = False"
| "was_executed Todo = False"
| "was_executed Pending = False"
| "was_executed _ = True"

record test_case_identity =
  ti_namespace :: "string list"
  ti_name :: string

record test_case =
  case_identity :: test_case_identity
  case_status :: test_case_status
  case_error_class :: "string option"
  retry_configured :: bool
  retry_count :: nat
  repeat_configured :: bool
  repeat_count :: nat
  flaky :: bool

record test_child =
  child_parent :: test_case_identity
  child_ordinal :: nat
  child_description :: "string option"
  child_status :: test_case_status
  child_error_class :: "string option"

datatype test_run_error_phase =
  Discovery | ImportPhase | Setup | Teardown | Cleanup | Runtime

record test_run_error =
  tre_phase :: test_run_error_phase
  tre_error_class :: string
  tre_message :: "string option"

datatype execution_origin = CurrentOrigin | Cached | Replayed
datatype snapshot_mode = NotApplicable | SnapshotDisabled | CreateMissing | UpdateAll

record test_run_settings =
  focused_only :: bool
  name_filter :: bool
  sharded :: bool
  bail :: bool
  watch :: bool
  snapshot_mode_of :: snapshot_mode
  pass_with_no_tests :: bool
  execution_origin_of :: execution_origin

datatype verification_input_kind = TestFileInput | ConfigurationInput | DependencyInput

datatype verification_input_state =
    Present (before_digest: string) (after_digest: string)
  | Absent

record test_verification_input =
  vi_kind :: verification_input_kind
  vi_path :: string
  vi_observed :: verification_input_state

record test_artifact =
  ta_kind :: string
  ta_digest :: string
  ta_reference :: string

record parent_counts =
  discovered :: nat
  executed :: nat
  p_passed :: nat
  p_assertion_failed :: nat
  p_errored :: nat
  p_skipped :: nat
  p_todo :: nat
  p_pending :: nat
  p_expected_failed :: nat
  p_unexpected_successful :: nat

record child_counts =
  observed :: nat
  c_passed :: nat
  c_assertion_failed :: nat
  c_errored :: nat
  c_skipped :: nat
  c_todo :: nat
  c_pending :: nat
  c_expected_failed :: nat
  c_unexpected_successful :: nat

record test_run_counts =
  parents :: parent_counts
  children_counts :: child_counts

record test_run_selection =
  project_root :: string
  import_root :: string
  test_file :: string
  selection_kind :: test_selection_kind
  selection_value :: string
  settings_digest :: string
  inventory_complete :: bool

record test_run_result =
  tr_producer :: versioned_component
  tr_runner :: versioned_component
  tr_runtime :: versioned_component
  tr_profile :: versioned_component
  tr_run_id :: string
  tr_operation :: string
  tr_completed :: bool
  tr_process_outcome :: "process_outcome option"
  tr_exit_code :: "int option"
  tr_language :: "string option"
  tr_environment_fingerprint :: string
  tr_selection :: test_run_selection
  tr_cases :: "test_case list"
  tr_children :: "test_child list"
  tr_counts :: test_run_counts
  tr_errors :: "test_run_error list"
  tr_settings :: test_run_settings
  tr_verification_inputs :: "test_verification_input list"
  tr_artifacts :: "test_artifact list"

section \<open>Decoded evidence\<close>

datatype evidence_observation =
    ExternalToolCompletion tool_completion
  | RustCompilerResult rust_compiler_result
  | CargoTestResult cargo_test_result
  | TestRunResult test_run_result
  | GenericVerifierResult generic_verifier_result
  | SourceChange source_change
  | UserAcceptance user_acceptance

record decoded_evidence =
  envelope :: evidence_envelope
  observation :: evidence_observation

record decode_issue =
  issue_code :: string
  issue_field :: "string option"
  issue_message :: string

datatype unsupported_evidence_reason =
    LegacyUnversionedPayload
  | UnknownContract string
  | UnsupportedVersion evidence_contract nat

datatype decode_result =
    Decoded decoded_evidence
  | Unsupported unsupported_evidence_reason
  | Invalid decode_issue

fun decoded :: "decode_result \<Rightarrow> decoded_evidence option" where
  "decoded (Decoded e) = Some e"
| "decoded (Unsupported _) = None"
| "decoded (Invalid _) = None"

section \<open>Profiles and eligibility\<close>

record test_evidence_profile =
  tp_id :: string
  tp_version :: string
  tp_producer :: versioned_component
  tp_runner :: versioned_component
  tp_runtime :: versioned_component
  tp_operation :: string
  tp_selection_kinds :: "test_selection_kind list"
  tp_languages :: "string list"

definition component :: "string \<Rightarrow> string \<Rightarrow> versioned_component" where
  "component i v = \<lparr>vc_id = i, vc_version = v\<rparr>"

definition vitest_profile :: test_evidence_profile where
  "vitest_profile =
     \<lparr>tp_id = ''cortexweave.vitest.file'', tp_version = ''1'',
      tp_producer = component ''cortexweave.vitest_capture'' ''1'',
      tp_runner = component ''vitest'' ''4.1.10'',
      tp_runtime = component ''node'' ''24.19.0'',
      tp_operation = ''test'',
      tp_selection_kinds = [FileSelection],
      tp_languages = [''javascript'', ''typescript'']\<rparr>"

definition unittest_profile :: test_evidence_profile where
  "unittest_profile =
     \<lparr>tp_id = ''cortexweave.unittest.module_or_class'', tp_version = ''1'',
      tp_producer = component ''cortexweave.unittest_capture'' ''1'',
      tp_runner = component ''python.unittest'' ''3.14.7'',
      tp_runtime = component ''python'' ''3.14.7'',
      tp_operation = ''test'',
      tp_selection_kinds = [ModuleSelection, ClassSelection],
      tp_languages = [''python'']\<rparr>"

datatype eligibility_status = EligiblePassed | EligibleFailed | Ineligible

record eligibility_issue =
  ei_code :: string
  ei_message :: string

record test_run_eligibility =
  el_status :: eligibility_status
  el_profile_id :: "string option"
  el_profile_version :: "string option"
  el_issues :: "eligibility_issue list"

section \<open>Lemmas\<close>

lemma contract_from_id_iff: "contract_from_id v = Some c \<longleftrightarrow> v = contract_id c"
  by (cases c) (auto simp: contract_from_id_def)

lemma contract_id_inject [simp]: "contract_id a = contract_id b \<longleftrightarrow> a = b"
  by (metis contract_from_id_iff option.inject)

end
