(* ===== verification/Registry.thy ===== *)
theory Registry
  imports CortexError "HOL-Library.Multiset"
begin

text \<open>
  The registries of the program.  Evidence decoders, failure normalizers, verifier rules and test
  profiles are each collected by a loop that inserts into a \<open>BTreeMap\<close> and rejects a key that is
  already there.  \<open>build_registry\<close> is that loop; the locale \<open>registry\<close> states what a client of
  a registry relies on and proves the consequences once.
\<close>

section \<open>The registration loop\<close>

definition register :: "('a \<Rightarrow> cortex_error + unit) \<Rightarrow> ('a \<Rightarrow> 'k::linorder) \<Rightarrow> ('k \<Rightarrow> cortex_error)
    \<Rightarrow> ('k \<times> 'a) list \<Rightarrow> 'a \<Rightarrow> cortex_error + ('k \<times> 'a) list" where
  "register check key clash m x =
     and_then (check x) (\<lambda>_.
     if map_of m (key x) \<noteq> None then Inl (clash (key x)) else Inr (btree_insert (key x) x m))"

definition build_registry :: "('a \<Rightarrow> cortex_error + unit) \<Rightarrow> ('a \<Rightarrow> 'k::linorder)
    \<Rightarrow> ('k \<Rightarrow> cortex_error) \<Rightarrow> 'a list \<Rightarrow> cortex_error + ('k \<times> 'a) list" where
  "build_registry check key clash xs = try_fold (register check key clash) [] xs"

section \<open>The contract\<close>

locale registry =
  fixes build :: "'a list \<Rightarrow> cortex_error + ('k::linorder \<times> 'a) list"
    and key :: "'a \<Rightarrow> 'k" and accepted :: "'a \<Rightarrow> bool"
  assumes build_Inr: "build xs = Inr m \<longleftrightarrow>
      distinct (map key xs) \<and> list_all accepted xs
      \<and> ordered_keys m \<and> set m = (\<lambda>x. (key x, x)) ` set xs"
begin

lemma lookup:
  assumes "build xs = Inr m"
  shows "map_of m k = Some x \<longleftrightarrow> x \<in> set xs \<and> key x = k"
proof -
  have d: "distinct (map fst m)" and m: "set m = (\<lambda>x. (key x, x)) ` set xs"
    using assms by (simp_all add: build_Inr ordered_distinct)
  have "map_of m k = Some x \<longleftrightarrow> (k, x) \<in> set m"
    using d by (rule map_of_eq_Some_iff)
  then show ?thesis by (auto simp: m)
qed

lemma lookup_sound: "build xs = Inr m \<Longrightarrow> map_of m k = Some x \<Longrightarrow> accepted x \<and> key x = k"
  using lookup [of xs m k x] by (auto simp: build_Inr list_all_iff)

text \<open>The order of registration does not matter, neither for the map nor for its rejection.\<close>

lemma order_irrelevant:
  assumes "mset ys = mset xs"
  shows "build ys = Inr m \<longleftrightarrow> build xs = Inr m"
proof -
  have "distinct (map key ys) \<longleftrightarrow> distinct (map key xs)"
    using assms by (metis mset_eq_imp_distinct_iff mset_map)
  moreover have "set ys = set xs"
    using assms by (rule mset_eq_setD)
  ultimately show ?thesis by (simp add: build_Inr list_all_iff)
qed

lemma unambiguous: "build xs = Inr m \<Longrightarrow> x \<in> set xs \<Longrightarrow> y \<in> set xs \<Longrightarrow> key x = key y \<Longrightarrow> x = y"
  by (auto simp: build_Inr distinct_map inj_on_def)

lemma build_total:
  assumes "distinct (map key xs)" and "list_all accepted xs"
  shows "\<exists>m. build xs = Inr m"
proof -
  let ?m = "sort_key fst (map (\<lambda>x. (key x, x)) xs)"
  have "sorted (map fst ?m)" by simp
  moreover have "distinct (map fst ?m)"
    using assms(1) by (simp add: distinct_map inj_on_def)
  ultimately show ?thesis
    using assms by (intro exI [of _ ?m]) (simp add: build_Inr strict_sorted_iff)
qed

lemma duplicate_rejected: "\<not> distinct (map key xs) \<Longrightarrow> \<exists>e. build xs = Inl e"
  using build_Inr [of xs] by (cases "build xs") auto

end

section \<open>The loop meets the contract\<close>

lemma set_btree_insert_fresh:
  "map_of m k = None \<Longrightarrow> set (btree_insert k v m) = insert (k, v) (set m)"
  by (induction k v m rule: btree_insert.induct) (auto split: if_splits)

lemma try_fold_register:
  assumes "ordered_keys m"
  shows "try_fold (register check key clash) m xs = Inr n \<longleftrightarrow>
      distinct (map key xs) \<and> (\<forall>x \<in> set xs. check x = Inr () \<and> map_of m (key x) = None)
      \<and> ordered_keys n \<and> set n = set m \<union> (\<lambda>x. (key x, x)) ` set xs"
  using assms
proof (induction xs arbitrary: m)
  case Nil
  have "m = n" if "ordered_keys n" "set n = set m"
    using that Nil by (metis map_of_inject_set ordered_distinct ordered_map_eqI)
  with Nil show ?case by auto
next
  case (Cons x xs)
  show ?case
  proof (cases "check x = Inr () \<and> map_of m (key x) = None")
    case True
    then have step: "register check key clash m x = Inr (btree_insert (key x) x m)"
      by (simp add: register_def)
    have ord: "ordered_keys (btree_insert (key x) x m)"
      using Cons.prems by (rule ordered_btree_insert)
    from True show ?thesis
      using Cons.IH [OF ord] by (simp add: step set_btree_insert_fresh) (auto simp: image_iff)
  next
    case False
    then have "\<exists>e. register check key clash m x = Inl e"
      by (cases "check x") (auto simp: register_def)
    with False show ?thesis by auto
  qed
qed

lemma build_registry_Inr:
  "build_registry check key clash xs = Inr m \<longleftrightarrow>
     distinct (map key xs) \<and> list_all (\<lambda>x. check x = Inr ()) xs
     \<and> ordered_keys m \<and> set m = (\<lambda>x. (key x, x)) ` set xs"
  by (auto simp: build_registry_def try_fold_register list_all_iff)

interpretation built: registry "build_registry check key clash" key "\<lambda>x. check x = Inr ()"
  by unfold_locales (rule build_registry_Inr)

end
