(* ===== verification/EvidenceDecode.thy ===== *)
theory EvidenceDecode
  imports EvidenceDomain Registry
begin

text \<open>
  Typed evidence: \<open>src/service/evidence.rs\<close>.  An event's JSON payload is dispatched by its
  declared contract and version to one decoder, which parses and validates it.  \<open>serde_json\<close> is
  a parameter, the record \<open>serde\<close>: one parser per payload struct and the serialized size of a
  value.  A failed \<open>expect\<close> is the outcome \<open>Expect\<close>, so that absence of panics is a theorem.
\<close>

section \<open>Outcomes\<close>

datatype decode_stop = Issue decode_issue | Expect string

type_synonym 'a decode = "decode_stop + 'a"

definition issue :: "string \<Rightarrow> string option \<Rightarrow> string \<Rightarrow> decode_stop" where
  "issue c f m = Issue \<lparr>issue_code = c, issue_field = f, issue_message = m\<rparr>"

definition invalid :: "string \<Rightarrow> string option \<Rightarrow> string \<Rightarrow> decode_result" where
  "invalid c f m = Invalid \<lparr>issue_code = c, issue_field = f, issue_message = m\<rparr>"

definition expect :: "'a option \<Rightarrow> string \<Rightarrow> 'a decode" where
  "expect x m = ok_or x (Expect m)"

section \<open>Field validation\<close>

definition evidence_bounded_message :: "string \<Rightarrow> nat \<Rightarrow> string" where
  "evidence_bounded_message field n = field @ '' must be non-empty, contain no NUL, and be at most ''
     @ digits n @ '' bytes''"

definition identifier_field :: "string \<Rightarrow> string \<Rightarrow> unit decode" where
  "identifier_field v field =
     (if blank v \<or> max_evidence_identifier_bytes < length v \<or> nul \<in> set v
      then Inl (issue ''invalid_identifier'' (Some field)
             (evidence_bounded_message field max_evidence_identifier_bytes))
      else Inr ())"

definition optional_identifier_field :: "string option \<Rightarrow> string \<Rightarrow> unit decode" where
  "optional_identifier_field v field = (case v of Some x \<Rightarrow> identifier_field x field | None \<Rightarrow> Inr ())"

definition text_field :: "string \<Rightarrow> string \<Rightarrow> unit decode" where
  "text_field v field =
     (if blank v \<or> max_evidence_text_bytes < length v \<or> nul \<in> set v
      then Inl (issue ''invalid_text'' (Some field) (evidence_bounded_message field max_evidence_text_bytes))
      else Inr ())"

definition optional_text_field :: "string option \<Rightarrow> string \<Rightarrow> unit decode" where
  "optional_text_field v field = (case v of Some x \<Rightarrow> text_field x field | None \<Rightarrow> Inr ())"

definition bad_relative_path :: "string \<Rightarrow> bool" where
  "bad_relative_path v \<longleftrightarrow>
     max_evidence_text_bytes < length v \<or> v = [] \<or> starts_with v ''/''
     \<or> CHR 0x5C \<in> set v \<or> CHR '':'' \<in> set v
     \<or> (\<exists>part \<in> set (split_on CHR ''/'' v). part = [] \<or> part = ''.'' \<or> part = ''..'')"

definition workspace_relative_path :: "string \<Rightarrow> string \<Rightarrow> unit decode" where
  "workspace_relative_path v field =
     (if bad_relative_path v
      then Inl (issue ''invalid_workspace_relative_path'' (Some field)
             ''path must be a normalized slash-separated workspace-relative path'')
      else Inr ())"

definition workspace_relative_root :: "string \<Rightarrow> string \<Rightarrow> unit decode" where
  "workspace_relative_root v field =
     (if v = ''.'' then Inr () else workspace_relative_path v field)"

definition hex_digest :: "string \<Rightarrow> bool" where
  "hex_digest v \<longleftrightarrow> length v = 64
     \<and> list_all (\<lambda>c. is_ascii_digit c \<or> (97 \<le> code c \<and> code c \<le> 102)) v"

definition blake3_hash :: "string \<Rightarrow> string \<Rightarrow> unit decode" where
  "blake3_hash v field =
     (if \<not> hex_digest v
      then Inl (issue ''invalid_blake3_hash'' (Some field)
             ''content_hash must be a lowercase 64-character BLAKE3 hexadecimal digest'')
      else Inr ())"

definition process_outcome_of :: "int \<Rightarrow> process_outcome" where
  "process_outcome_of exit_code = (if exit_code = 0 then ExitedZero else ExitedNonzero)"

definition verifier_exit_consistency :: "verification_result \<Rightarrow> int \<Rightarrow> unit decode" where
  "verifier_exit_consistency result exit_code =
     (if (case result of VerificationPassed \<Rightarrow> exit_code = 0 | VerificationFailed \<Rightarrow> exit_code \<noteq> 0)
      then Inr ()
      else Inl (issue ''conflicting_result_and_exit_code'' (Some ''result'')
             ''result conflicts with exit_code''))"

definition validate_contract_fields ::
    "string \<Rightarrow> nat \<Rightarrow> evidence_contract \<Rightarrow> nat \<Rightarrow> unit decode" where
  "validate_contract_fields contract version expected_contract expected_version =
     (if contract \<noteq> contract_id expected_contract
      then Inl (issue ''conflicting_contract'' (Some ''contract'')
             (''payload must declare '' @ contract_id expected_contract))
      else if version \<noteq> expected_version
      then Inl (issue ''conflicting_version'' (Some ''version'')
             (''payload must declare version '' @ digits expected_version))
      else Inr ())"

definition required_field :: "json \<Rightarrow> string \<Rightarrow> unit decode" where
  "required_field payload field =
     (if (case payload of JObject kvs \<Rightarrow> map_of kvs field \<noteq> None | _ \<Rightarrow> False)
      then Inr ()
      else Inl (issue ''missing_required_field'' (Some field) (''payload requires '' @ field)))"

section \<open>Payloads\<close>

text \<open>The payload structs of subjects, diagnostics and test failures have the fields of the
  evidence they become.\<close>

record payload_header =
  ph_contract :: string
  ph_version :: nat

record external_tool_payload = payload_header +
  et_tool :: string
  et_operation :: string
  et_exit_code :: int
  et_error_class :: "string option"
  et_message :: "string option"

record rust_compiler_payload = payload_header +
  rp_subject :: evidence_subject
  rp_exit_code :: int
  rp_diagnostics :: "rust_diagnostic list"

record cargo_test_payload = payload_header +
  cp_subject :: evidence_subject
  cp_exit_code :: int
  cp_executed_test_count :: nat
  cp_failures :: "test_failure list"

record test_run_payload = payload_header +
  pl_producer :: versioned_component
  pl_runner :: versioned_component
  pl_runtime :: versioned_component
  pl_profile :: versioned_component
  pl_run_id :: string
  pl_operation :: string
  pl_completed :: bool
  pl_exit_code :: "int option"
  pl_language :: "string option"
  pl_environment_fingerprint :: string
  pl_selection :: test_run_selection
  pl_cases :: "test_case list"
  pl_children :: "test_child list"
  pl_counts :: test_run_counts
  pl_errors :: "test_run_error list"
  pl_settings :: test_run_settings
  pl_verification_inputs :: "test_verification_input list"
  pl_artifacts :: "test_artifact list"

record generic_verifier_payload = payload_header +
  gp_verifier_id :: string
  gp_verifier_version :: string
  gp_tool :: string
  gp_operation :: string
  gp_result :: verification_result
  gp_exit_code :: int
  gp_subject :: evidence_subject

record source_change_payload = payload_header +
  sp_change :: source_change_kind
  sp_path :: string
  sp_previous_path :: "string option"
  sp_workspace_revision :: int
  sp_document_revision :: int
  sp_content_hash :: "string option"

record user_acceptance_payload = payload_header +
  up_accepted :: bool
  up_accepted_by :: string
  up_subject :: evidence_subject

text \<open>What the code uses of \<open>serde_json\<close>: each parser returns the error text or the payload.\<close>

record serde =
  to_vec_len :: "json \<Rightarrow> string + nat"
  external_tool_of :: "json \<Rightarrow> string + external_tool_payload"
  rust_compiler_of :: "json \<Rightarrow> string + rust_compiler_payload"
  cargo_test_of :: "json \<Rightarrow> string + cargo_test_payload"
  test_run_of :: "json \<Rightarrow> string + test_run_payload"
  generic_verifier_of :: "json \<Rightarrow> string + generic_verifier_payload"
  source_change_of :: "json \<Rightarrow> string + source_change_payload"
  user_acceptance_of :: "json \<Rightarrow> string + user_acceptance_payload"

definition parse_payload :: "(json \<Rightarrow> string + 'a) \<Rightarrow> json \<Rightarrow> 'a decode" where
  "parse_payload parser payload =
     (case parser payload of
        Inr p \<Rightarrow> Inr p
      | Inl e \<Rightarrow> Inl (issue ''invalid_payload_shape'' None
          (''payload does not match the registered contract schema: '' @ e)))"


section \<open>Subjects, diagnostics and failures\<close>

definition validate_subject :: "evidence_subject \<Rightarrow> evidence_subject decode" where
  "validate_subject p =
     and_then (case es_kind p of
         PathSubject \<Rightarrow> workspace_relative_path (es_value p) ''subject.value''
       | _ \<Rightarrow> text_field (es_value p) ''subject.value'') (\<lambda>_.
     Inr \<lparr>es_kind = es_kind p, es_value = es_value p\<rparr>)"

definition validate_compiler_subject :: "evidence_subject \<Rightarrow> evidence_subject decode" where
  "validate_compiler_subject p =
     (if es_kind p = TestSubject \<or> es_kind p = PathSubject
      then Inl (issue ''invalid_compiler_subject'' (Some ''subject.kind'')
             ''a Rust compiler subject must be a workspace, package, or target'')
      else validate_subject p)"

definition validate_test_subject :: "evidence_subject \<Rightarrow> evidence_subject decode" where
  "validate_test_subject p =
     (if es_kind p = PathSubject
      then Inl (issue ''invalid_test_subject'' (Some ''subject.kind'')
             ''a Cargo test subject must be a workspace, package, target, or test'')
      else validate_subject p)"

definition validate_rust_diagnostic :: "rust_diagnostic \<Rightarrow> rust_diagnostic decode" where
  "validate_rust_diagnostic p =
     and_then (optional_identifier_field (rd_code p) ''diagnostics[].code'') (\<lambda>_.
     and_then (text_field (rd_message p) ''diagnostics[].message'') (\<lambda>_.
     and_then (optional_text_field (rd_expected_type p) ''diagnostics[].expected_type'') (\<lambda>_.
     and_then (optional_text_field (rd_actual_type p) ''diagnostics[].actual_type'') (\<lambda>_.
     if (rd_expected_type p \<noteq> None) \<noteq> (rd_actual_type p \<noteq> None)
     then Inl (issue ''incomplete_type_distinction'' (Some ''diagnostics[]'')
            ''expected_type and actual_type must be provided together'')
     else and_then (case rd_path p of
         Some path \<Rightarrow> workspace_relative_path path ''diagnostics[].path''
       | None \<Rightarrow> Inr ()) (\<lambda>_.
     if rd_start_column p \<noteq> None \<and> rd_start_line p = None
     then Inl (issue ''incomplete_location'' (Some ''diagnostics[].start_column'')
            ''start_column requires start_line'')
     else if rd_start_line p = Some 0 \<or> rd_start_column p = Some 0
     then Inl (issue ''invalid_location'' (Some ''diagnostics[]'')
            ''source lines and columns are one-based'')
     else Inr p)))))"

definition validate_test_failure :: "test_failure \<Rightarrow> test_failure decode" where
  "validate_test_failure p =
     and_then (optional_text_field (tf_test_name p) ''failures[].test_name'') (\<lambda>_.
     and_then (optional_identifier_field (tf_assertion_class p) ''failures[].assertion_class'') (\<lambda>_.
     and_then (optional_text_field (tf_message p) ''failures[].message'') (\<lambda>_.
     if tf_test_name p = None \<and> tf_message p = None
     then Inl (issue ''empty_test_failure'' (Some ''failures[]'')
            ''a test failure requires a test name or bounded message'')
     else Inr p)))"

section \<open>Test runs\<close>

definition validate_versioned_component :: "versioned_component \<Rightarrow> string \<Rightarrow> unit decode" where
  "validate_versioned_component c field =
     and_then (identifier_field (vc_id c) (field @ ''.id'')) (\<lambda>_.
     identifier_field (vc_version c) (field @ ''.version''))"

definition validate_test_selection :: "test_run_selection \<Rightarrow> unit decode" where
  "validate_test_selection s =
     and_then (workspace_relative_root (project_root s) ''selection.project_root'') (\<lambda>_.
     and_then (workspace_relative_root (import_root s) ''selection.import_root'') (\<lambda>_.
     and_then (workspace_relative_path (test_file s) ''selection.test_file'') (\<lambda>_.
     and_then (text_field (selection_value s) ''selection.value'') (\<lambda>_.
     blake3_hash (settings_digest s) ''selection.settings_digest''))))"

definition validate_test_identity :: "test_case_identity \<Rightarrow> string \<Rightarrow> unit decode" where
  "validate_test_identity t field =
     (if max_test_namespace_components < length (ti_namespace t)
      then Inl (issue ''too_many_test_namespace_components'' (Some field)
             (''test identities allow at most '' @ digits max_test_namespace_components
              @ '' namespace components''))
      else and_then (try_each (\<lambda>c. text_field c field) (ti_namespace t)) (\<lambda>_.
           text_field (ti_name t) field))"

fun requires_error :: "test_case_status \<Rightarrow> bool" where
  "requires_error AssertionFailed = True"
| "requires_error Errored = True"
| "requires_error ExpectedFailed = True"
| "requires_error _ = False"

definition validate_case_outcome ::
    "test_case_status \<Rightarrow> string option \<Rightarrow> string \<Rightarrow> unit decode" where
  "validate_case_outcome status error_class field =
     and_then (optional_identifier_field error_class (field @ ''.error_class'')) (\<lambda>_.
     if requires_error status \<noteq> (error_class \<noteq> None)
     then Inl (issue ''test_error_class_mismatch'' (Some (field @ ''.error_class''))
            ''assertion_failed, errored, and expected_failed require an error class; other statuses forbid one'')
     else Inr ())"

definition validate_parent_case ::
    "test_case_identity set \<Rightarrow> test_case \<Rightarrow> test_case_identity set decode" where
  "validate_parent_case seen c =
     and_then (validate_test_identity (case_identity c) ''cases[].identity'') (\<lambda>_.
     and_then (validate_case_outcome (case_status c) (case_error_class c) ''cases[]'') (\<lambda>_.
     if 0 < retry_count c \<and> \<not> retry_configured c
     then Inl (issue ''unconfigured_test_retry'' (Some ''cases[].retry_count'')
            ''an observed retry requires an explicit retry configuration marker'')
     else if 0 < repeat_count c \<and> \<not> repeat_configured c
     then Inl (issue ''unconfigured_test_repeat'' (Some ''cases[].repeat_count'')
            ''an observed repeat requires an explicit repeat configuration marker'')
     else if flaky c \<and> retry_count c = 0
     then Inl (issue ''flaky_without_retry'' (Some ''cases[].flaky'')
            ''a flaky case requires at least one observed retry'')
     else if case_identity c \<in> seen
     then Inl (issue ''duplicate_test_case_identity'' (Some ''cases[].identity'')
            ''parent case identities must be unique within a run'')
     else Inr (insert (case_identity c) seen)))"

definition validate_child :: "test_case_identity set \<Rightarrow> (test_case_identity \<times> nat) set
    \<Rightarrow> test_child \<Rightarrow> (test_case_identity \<times> nat) set decode" where
  "validate_child parents_seen seen c =
     and_then (validate_test_identity (child_parent c) ''children[].parent'') (\<lambda>_.
     if child_parent c \<notin> parents_seen
     then Inl (issue ''unknown_child_parent'' (Some ''children[].parent'')
            ''every child observation must refer to an inventoried parent case'')
     else and_then (optional_text_field (child_description c) ''children[].description'') (\<lambda>_.
     and_then (validate_case_outcome (child_status c) (child_error_class c) ''children[]'') (\<lambda>_.
     if (child_parent c, child_ordinal c) \<in> seen
     then Inl (issue ''duplicate_child_observation'' (Some ''children[].ordinal'')
            ''child ordinals must be unique within each parent case'')
     else Inr (insert (child_parent c, child_ordinal c) seen))))"

subsection \<open>Counts\<close>

definition no_parents :: parent_counts where
  "no_parents = \<lparr>discovered = 0, executed = 0, p_passed = 0, p_assertion_failed = 0, p_errored = 0,
     p_skipped = 0, p_todo = 0, p_pending = 0, p_expected_failed = 0, p_unexpected_successful = 0\<rparr>"

definition no_children :: child_counts where
  "no_children = \<lparr>observed = 0, c_passed = 0, c_assertion_failed = 0, c_errored = 0,
     c_skipped = 0, c_todo = 0, c_pending = 0, c_expected_failed = 0, c_unexpected_successful = 0\<rparr>"

definition checked_increment :: "nat \<Rightarrow> string \<Rightarrow> nat decode" where
  "checked_increment v field =
     ok_or (checked_add v 1) (issue ''test_count_overflow'' (Some field)
       ''test outcome count exceeds the supported range'')"

definition increment_parent_status ::
    "parent_counts \<Rightarrow> test_case_status \<Rightarrow> parent_counts decode" where
  "increment_parent_status n status =
     (let inc = (\<lambda>v. checked_increment v ''counts.parents'') in
      case status of
        Passed \<Rightarrow> and_then (inc (p_passed n)) (\<lambda>v. Inr (n\<lparr>p_passed := v\<rparr>))
      | AssertionFailed \<Rightarrow>
          and_then (inc (p_assertion_failed n)) (\<lambda>v. Inr (n\<lparr>p_assertion_failed := v\<rparr>))
      | Errored \<Rightarrow> and_then (inc (p_errored n)) (\<lambda>v. Inr (n\<lparr>p_errored := v\<rparr>))
      | Skipped \<Rightarrow> and_then (inc (p_skipped n)) (\<lambda>v. Inr (n\<lparr>p_skipped := v\<rparr>))
      | Todo \<Rightarrow> and_then (inc (p_todo n)) (\<lambda>v. Inr (n\<lparr>p_todo := v\<rparr>))
      | Pending \<Rightarrow> and_then (inc (p_pending n)) (\<lambda>v. Inr (n\<lparr>p_pending := v\<rparr>))
      | ExpectedFailed \<Rightarrow>
          and_then (inc (p_expected_failed n)) (\<lambda>v. Inr (n\<lparr>p_expected_failed := v\<rparr>))
      | UnexpectedSuccessful \<Rightarrow>
          and_then (inc (p_unexpected_successful n)) (\<lambda>v. Inr (n\<lparr>p_unexpected_successful := v\<rparr>)))"

definition increment_child_status ::
    "child_counts \<Rightarrow> test_case_status \<Rightarrow> child_counts decode" where
  "increment_child_status n status =
     (let inc = (\<lambda>v. checked_increment v ''counts.children'') in
      case status of
        Passed \<Rightarrow> and_then (inc (c_passed n)) (\<lambda>v. Inr (n\<lparr>c_passed := v\<rparr>))
      | AssertionFailed \<Rightarrow>
          and_then (inc (c_assertion_failed n)) (\<lambda>v. Inr (n\<lparr>c_assertion_failed := v\<rparr>))
      | Errored \<Rightarrow> and_then (inc (c_errored n)) (\<lambda>v. Inr (n\<lparr>c_errored := v\<rparr>))
      | Skipped \<Rightarrow> and_then (inc (c_skipped n)) (\<lambda>v. Inr (n\<lparr>c_skipped := v\<rparr>))
      | Todo \<Rightarrow> and_then (inc (c_todo n)) (\<lambda>v. Inr (n\<lparr>c_todo := v\<rparr>))
      | Pending \<Rightarrow> and_then (inc (c_pending n)) (\<lambda>v. Inr (n\<lparr>c_pending := v\<rparr>))
      | ExpectedFailed \<Rightarrow>
          and_then (inc (c_expected_failed n)) (\<lambda>v. Inr (n\<lparr>c_expected_failed := v\<rparr>))
      | UnexpectedSuccessful \<Rightarrow>
          and_then (inc (c_unexpected_successful n)) (\<lambda>v. Inr (n\<lparr>c_unexpected_successful := v\<rparr>)))"

definition count_parent :: "parent_counts \<Rightarrow> test_case \<Rightarrow> parent_counts decode" where
  "count_parent n c =
     and_then (if was_executed (case_status c)
       then and_then (checked_increment (executed n) ''counts.parents.executed'')
              (\<lambda>v. Inr (n\<lparr>executed := v\<rparr>))
       else Inr n) (\<lambda>n. increment_parent_status n (case_status c))"

definition count_child :: "child_counts \<Rightarrow> test_child \<Rightarrow> child_counts decode" where
  "count_child n c = increment_child_status n (child_status c)"

definition derive_test_counts :: "test_case list \<Rightarrow> test_child list \<Rightarrow> test_run_counts decode" where
  "derive_test_counts cases children =
     and_then (try_fold count_parent (no_parents\<lparr>discovered := length cases\<rparr>) cases) (\<lambda>ps.
     and_then (try_fold count_child (no_children\<lparr>observed := length children\<rparr>) children) (\<lambda>cs.
     Inr \<lparr>parents = ps, children_counts = cs\<rparr>))"

subsection \<open>Inputs, artifacts and the exit code\<close>

definition validate_verification_input :: "(verification_input_kind \<times> string) set
    \<Rightarrow> test_verification_input \<Rightarrow> (verification_input_kind \<times> string) set decode" where
  "validate_verification_input seen i =
     and_then (workspace_relative_path (vi_path i) ''verification_inputs[].path'') (\<lambda>_.
     if (vi_kind i, vi_path i) \<in> seen
     then Inl (issue ''duplicate_verification_input'' (Some ''verification_inputs'')
            ''verification input kind and path pairs must be unique'')
     else and_then (case vi_observed i of
         Present b a \<Rightarrow> and_then (blake3_hash b ''verification_inputs[].before_digest'') (\<lambda>_.
           blake3_hash a ''verification_inputs[].after_digest'')
       | Absent \<Rightarrow> Inr ()) (\<lambda>_.
     Inr (insert (vi_kind i, vi_path i) seen)))"

definition validate_verification_inputs :: "test_verification_input list \<Rightarrow> unit decode" where
  "validate_verification_inputs is =
     and_then (try_fold validate_verification_input {} is) (\<lambda>_. Inr ())"

definition validate_test_artifact ::
    "(string \<times> string) set \<Rightarrow> test_artifact \<Rightarrow> (string \<times> string) set decode" where
  "validate_test_artifact seen a =
     and_then (identifier_field (ta_kind a) ''artifacts[].kind'') (\<lambda>_.
     and_then (blake3_hash (ta_digest a) ''artifacts[].digest'') (\<lambda>_.
     and_then (text_field (ta_reference a) ''artifacts[].reference'') (\<lambda>_.
     if (ta_kind a, ta_reference a) \<in> seen
     then Inl (issue ''duplicate_test_artifact'' (Some ''artifacts'')
            ''artifact kind and reference pairs must be unique'')
     else Inr (insert (ta_kind a, ta_reference a) seen))))"

definition validate_test_artifacts :: "test_artifact list \<Rightarrow> unit decode" where
  "validate_test_artifacts as = and_then (try_fold validate_test_artifact {} as) (\<lambda>_. Inr ())"

definition run_failed :: "test_run_counts \<Rightarrow> test_run_error list \<Rightarrow> bool" where
  "run_failed n errors \<longleftrightarrow>
     0 < p_assertion_failed (parents n) \<or> 0 < p_errored (parents n)
     \<or> 0 < p_unexpected_successful (parents n)
     \<or> 0 < c_assertion_failed (children_counts n) \<or> 0 < c_errored (children_counts n)
     \<or> 0 < c_unexpected_successful (children_counts n) \<or> errors \<noteq> []"

definition validate_test_exit_consistency ::
    "int \<Rightarrow> test_run_counts \<Rightarrow> test_run_error list \<Rightarrow> unit decode" where
  "validate_test_exit_consistency exit_code n errors =
     (if (exit_code = 0) = run_failed n errors
      then Inl (issue ''conflicting_test_result_and_exit_code'' (Some ''exit_code'')
             ''the process exit code conflicts with observed failures or run errors'')
      else Inr ())"

definition limited :: "nat \<Rightarrow> nat \<Rightarrow> string \<Rightarrow> string \<Rightarrow> string \<Rightarrow> unit decode" where
  "limited n limit c field what =
     (if limit < n
      then Inl (issue c (Some field) (''at most '' @ digits limit @ '' '' @ what @ '' are allowed''))
      else Inr ())"


section \<open>The decoders\<close>

definition decode_external_tool :: "serde \<Rightarrow> cortex_event \<Rightarrow> evidence_observation decode" where
  "decode_external_tool sd event =
     and_then (parse_payload (external_tool_of sd) (event_payload event)) (\<lambda>p.
     and_then (validate_contract_fields (ph_contract p) (ph_version p)
       ExternalToolCompletionContract 1) (\<lambda>_.
     and_then (identifier_field (et_tool p) ''tool'') (\<lambda>_.
     and_then (identifier_field (et_operation p) ''operation'') (\<lambda>_.
     and_then (optional_identifier_field (et_error_class p) ''error_class'') (\<lambda>_.
     and_then (optional_text_field (et_message p) ''message'') (\<lambda>_.
     Inr (ExternalToolCompletion
       \<lparr>tc_tool = et_tool p, tc_operation = et_operation p, tc_exit_code = et_exit_code p,
        tc_error_class = et_error_class p, tc_message = et_message p\<rparr>)))))))"

definition decode_rust_compiler :: "serde \<Rightarrow> cortex_event \<Rightarrow> evidence_observation decode" where
  "decode_rust_compiler sd event =
     and_then (parse_payload (rust_compiler_of sd) (event_payload event)) (\<lambda>p.
     and_then (validate_contract_fields (ph_contract p) (ph_version p)
       RustCompilerResultContract 1) (\<lambda>_.
     and_then (validate_compiler_subject (rp_subject p)) (\<lambda>subject.
     let outcome = process_outcome_of (rp_exit_code p);
         has_error = (\<exists>d \<in> set (rp_diagnostics p). rd_level d = ErrorLevel) in
     if max_rust_diagnostics < length (rp_diagnostics p)
     then Inl (issue ''too_many_diagnostics'' (Some ''diagnostics'')
            (''at most '' @ digits max_rust_diagnostics @ '' diagnostics are allowed''))
     else if outcome = ExitedNonzero \<and> \<not> has_error
     then Inl (issue ''missing_error_diagnostic'' (Some ''diagnostics'')
            ''a nonzero Rust compiler exit requires an error diagnostic'')
     else if outcome = ExitedZero \<and> has_error
     then Inl (issue ''conflicting_exit_and_diagnostics'' (Some ''diagnostics'')
            ''a zero Rust compiler exit cannot contain an error diagnostic'')
     else and_then (try_map validate_rust_diagnostic (rp_diagnostics p)) (\<lambda>ds.
     Inr (RustCompilerResult
       \<lparr>rc_subject = subject, rc_process_outcome = outcome, rc_exit_code = rp_exit_code p,
        rc_diagnostics = ds\<rparr>)))))"

definition decode_cargo_test :: "serde \<Rightarrow> cortex_event \<Rightarrow> evidence_observation decode" where
  "decode_cargo_test sd event =
     and_then (parse_payload (cargo_test_of sd) (event_payload event)) (\<lambda>p.
     and_then (validate_contract_fields (ph_contract p) (ph_version p)
       CargoTestResultContract 1) (\<lambda>_.
     and_then (validate_test_subject (cp_subject p)) (\<lambda>subject.
     let outcome = process_outcome_of (cp_exit_code p) in
     if max_test_failures < length (cp_failures p)
     then Inl (issue ''too_many_test_failures'' (Some ''failures'')
            (''at most '' @ digits max_test_failures @ '' failures are allowed''))
     else if outcome = ExitedZero \<and> cp_failures p \<noteq> []
     then Inl (issue ''conflicting_exit_and_failures'' (Some ''failures'')
            ''a zero Cargo test exit cannot contain failures'')
     else if outcome = ExitedNonzero \<and> cp_failures p = []
     then Inl (issue ''missing_test_failure'' (Some ''failures'')
            ''a nonzero Cargo test exit requires at least one failure observation'')
     else if 1000000 < cp_executed_test_count p
     then Inl (issue ''too_many_executed_tests'' (Some ''executed_test_count'')
            ''at most 1000000 executed tests are allowed'')
     else and_then (try_map validate_test_failure (cp_failures p)) (\<lambda>fs.
     Inr (CargoTestResult
       \<lparr>ct_subject = subject, ct_process_outcome = outcome, ct_exit_code = cp_exit_code p,
        ct_executed_test_count = cp_executed_test_count p, ct_failures = fs\<rparr>)))))"

definition validate_run_header :: "test_run_payload \<Rightarrow> unit decode" where
  "validate_run_header p =
     and_then (validate_contract_fields (ph_contract p) (ph_version p) TestRunResultContract 1) (\<lambda>_.
     and_then (validate_versioned_component (pl_producer p) ''producer'') (\<lambda>_.
     and_then (validate_versioned_component (pl_runner p) ''runner'') (\<lambda>_.
     and_then (validate_versioned_component (pl_runtime p) ''runtime'') (\<lambda>_.
     and_then (validate_versioned_component (pl_profile p) ''profile'') (\<lambda>_.
     and_then (identifier_field (pl_run_id p) ''run_id'') (\<lambda>_.
     and_then (identifier_field (pl_operation p) ''operation'') (\<lambda>_.
     and_then (optional_identifier_field (pl_language p) ''language'') (\<lambda>_.
     and_then (blake3_hash (pl_environment_fingerprint p) ''environment_fingerprint'') (\<lambda>_.
     validate_test_selection (pl_selection p))))))))))"

definition validate_run_sizes :: "test_run_payload \<Rightarrow> unit decode" where
  "validate_run_sizes p =
     and_then (limited (length (pl_cases p)) max_test_cases
       ''too_many_test_cases'' ''cases'' ''parent cases'') (\<lambda>_.
     and_then (limited (length (pl_children p)) max_test_child_observations
       ''too_many_child_observations'' ''children'' ''child observations'') (\<lambda>_.
     and_then (limited (length (pl_errors p)) max_test_run_errors
       ''too_many_test_run_errors'' ''errors'' ''run errors'') (\<lambda>_.
     and_then (limited (length (pl_verification_inputs p)) max_test_verification_inputs
       ''too_many_verification_inputs'' ''verification_inputs'' ''verification inputs'') (\<lambda>_.
     limited (length (pl_artifacts p)) max_test_artifacts
       ''too_many_test_artifacts'' ''artifacts'' ''artifact references''))))"

definition validate_run_cases :: "test_run_payload \<Rightarrow> unit decode" where
  "validate_run_cases p =
     and_then (try_fold validate_parent_case {} (pl_cases p)) (\<lambda>parent_identities.
     and_then (try_fold (validate_child parent_identities) {} (pl_children p)) (\<lambda>_. Inr ()))"

definition validate_run_errors :: "test_run_error list \<Rightarrow> unit decode" where
  "validate_run_errors errors =
     try_each (\<lambda>e. and_then (identifier_field (tre_error_class e) ''errors[].error_class'') (\<lambda>_.
       optional_text_field (tre_message e) ''errors[].message'')) errors"

definition validate_completed :: "test_run_payload \<Rightarrow> test_run_counts \<Rightarrow> unit decode" where
  "validate_completed p derived =
     (if pl_completed p \<and> pl_exit_code p = None
      then Inl (issue ''missing_completed_exit_code'' (Some ''exit_code'')
             ''a completed test run requires an observed process exit code'')
      else if pl_completed p
      then and_then (expect (pl_exit_code p) ''checked completed exit code'') (\<lambda>e.
           validate_test_exit_consistency e derived (pl_errors p))
      else Inr ())"

definition decode_test_run :: "serde \<Rightarrow> cortex_event \<Rightarrow> evidence_observation decode" where
  "decode_test_run sd event =
     and_then (parse_payload (test_run_of sd) (event_payload event)) (\<lambda>p.
     and_then (validate_run_header p) (\<lambda>_.
     and_then (validate_run_sizes p) (\<lambda>_.
     and_then (validate_run_cases p) (\<lambda>_.
     and_then (derive_test_counts (pl_cases p) (pl_children p)) (\<lambda>derived.
     if pl_counts p \<noteq> derived
     then Inl (issue ''test_count_mismatch'' (Some ''counts'')
            ''reported parent or child counts do not match the bounded observations'')
     else and_then (validate_run_errors (pl_errors p)) (\<lambda>_.
     and_then (validate_verification_inputs (pl_verification_inputs p)) (\<lambda>_.
     and_then (validate_test_artifacts (pl_artifacts p)) (\<lambda>_.
     and_then (validate_completed p derived) (\<lambda>_.
     Inr (TestRunResult
       \<lparr>tr_producer = pl_producer p, tr_runner = pl_runner p, tr_runtime = pl_runtime p,
        tr_profile = pl_profile p, tr_run_id = pl_run_id p, tr_operation = pl_operation p,
        tr_completed = pl_completed p,
        tr_process_outcome = map_option process_outcome_of (pl_exit_code p),
        tr_exit_code = pl_exit_code p, tr_language = pl_language p,
        tr_environment_fingerprint = pl_environment_fingerprint p,
        tr_selection = pl_selection p, tr_cases = pl_cases p, tr_children = pl_children p,
        tr_counts = derived, tr_errors = pl_errors p, tr_settings = pl_settings p,
        tr_verification_inputs = pl_verification_inputs p,
        tr_artifacts = pl_artifacts p\<rparr>))))))))))"

definition decode_generic_verifier :: "serde \<Rightarrow> cortex_event \<Rightarrow> evidence_observation decode" where
  "decode_generic_verifier sd event =
     and_then (parse_payload (generic_verifier_of sd) (event_payload event)) (\<lambda>p.
     and_then (validate_contract_fields (ph_contract p) (ph_version p)
       GenericVerifierResultContract 1) (\<lambda>_.
     and_then (identifier_field (gp_verifier_id p) ''verifier_id'') (\<lambda>_.
     and_then (identifier_field (gp_verifier_version p) ''verifier_version'') (\<lambda>_.
     and_then (identifier_field (gp_tool p) ''tool'') (\<lambda>_.
     and_then (identifier_field (gp_operation p) ''operation'') (\<lambda>_.
     and_then (verifier_exit_consistency (gp_result p) (gp_exit_code p)) (\<lambda>_.
     and_then (validate_subject (gp_subject p)) (\<lambda>subject.
     Inr (GenericVerifierResult
       \<lparr>gv_verifier_id = gp_verifier_id p, gv_verifier_version = gp_verifier_version p,
        gv_tool = gp_tool p, gv_operation = gp_operation p, gv_reported_result = gp_result p,
        gv_process_outcome = process_outcome_of (gp_exit_code p), gv_exit_code = gp_exit_code p,
        gv_subject = subject\<rparr>)))))))))"

fun change_name :: "source_change_kind \<Rightarrow> string" where
  "change_name Created = ''created''"
| "change_name Modified = ''modified''"
| "change_name Removed = ''removed''"
| "change_name Renamed = ''renamed''"

fun change_event :: "source_change_kind \<Rightarrow> event_type" where
  "change_event Created = FileCreated"
| "change_event Modified = FileModified"
| "change_event Removed = FileRemoved"
| "change_event Renamed = FileRenamed"

definition validate_source_change_event_type ::
    "source_change_kind \<Rightarrow> event_type \<Rightarrow> unit decode" where
  "validate_source_change_event_type change t =
     (if t = change_event change then Inr ()
      else Inl (issue ''conflicting_change_and_event_type'' (Some ''change'')
             (''source change '' @ change_name change @ '' requires event type ''
              @ event_storage_name (change_event change))))"

definition validate_previous_path :: "source_change_payload \<Rightarrow> unit decode" where
  "validate_previous_path p =
     (case sp_change p of
        Renamed \<Rightarrow>
          and_then (ok_or (sp_previous_path p) (issue ''missing_previous_path''
            (Some ''previous_path'') ''a rename requires a previous workspace-relative path'')) (\<lambda>prev.
          and_then (workspace_relative_path prev ''previous_path'') (\<lambda>_.
          if prev = sp_path p
          then Inl (issue ''unchanged_rename_path'' (Some ''previous_path'')
                 ''a rename requires a different previous path'')
          else Inr ()))
      | _ \<Rightarrow>
          if sp_previous_path p \<noteq> None
          then Inl (issue ''unexpected_previous_path'' (Some ''previous_path'')
                 ''only a rename may include previous_path'')
          else Inr ())"

definition validate_content_hash :: "source_change_payload \<Rightarrow> unit decode" where
  "validate_content_hash p =
     (case (sp_change p, sp_content_hash p) of
        (Removed, None) \<Rightarrow> Inr ()
      | (Removed, Some _) \<Rightarrow> Inl (issue ''removed_content_hash_present'' (Some ''content_hash'')
          ''a removal requires an explicit null content_hash'')
      | (_, Some hash) \<Rightarrow> blake3_hash hash ''content_hash''
      | (_, None) \<Rightarrow> Inl (issue ''missing_content_hash'' (Some ''content_hash'')
          ''a created, modified, or renamed source change requires a content hash''))"

definition decode_source_change :: "serde \<Rightarrow> cortex_event \<Rightarrow> evidence_observation decode" where
  "decode_source_change sd event =
     and_then (required_field (event_payload event) ''content_hash'') (\<lambda>_.
     and_then (parse_payload (source_change_of sd) (event_payload event)) (\<lambda>p.
     and_then (validate_contract_fields (ph_contract p) (ph_version p)
       SourceChangeObservationContract 1) (\<lambda>_.
     and_then (workspace_relative_path (sp_path p) ''path'') (\<lambda>_.
     if sp_workspace_revision p < 0 \<or> sp_document_revision p < 0
     then Inl (issue ''negative_content_revision'' (Some ''workspace_content_revision'')
            ''content revisions must be non-negative'')
     else and_then (validate_source_change_event_type (sp_change p) (event_type_of event)) (\<lambda>_.
     and_then (validate_previous_path p) (\<lambda>_.
     and_then (validate_content_hash p) (\<lambda>_.
     Inr (SourceChange
       \<lparr>sc_change = sp_change p, sc_path = sp_path p, sc_previous_path = sp_previous_path p,
        sc_workspace_revision = sp_workspace_revision p,
        sc_document_revision = sp_document_revision p,
        sc_content_hash = sp_content_hash p\<rparr>))))))))"

definition decode_user_acceptance :: "serde \<Rightarrow> cortex_event \<Rightarrow> evidence_observation decode" where
  "decode_user_acceptance sd event =
     and_then (parse_payload (user_acceptance_of sd) (event_payload event)) (\<lambda>p.
     and_then (validate_contract_fields (ph_contract p) (ph_version p)
       UserAcceptanceContract 1) (\<lambda>_.
     if \<not> up_accepted p
     then Inl (issue ''acceptance_not_granted'' (Some ''accepted'')
            ''a user acceptance event requires accepted to be true'')
     else and_then (identifier_field (up_accepted_by p) ''accepted_by'') (\<lambda>_.
     and_then (validate_subject (up_subject p)) (\<lambda>subject.
     Inr (UserAcceptance \<lparr>ua_actor = up_accepted_by p, ua_subject = subject\<rparr>)))))"

section \<open>The registry of decoders\<close>

record decoder =
  dec_contract :: evidence_contract
  dec_version :: nat
  supports_event_type :: "event_type \<Rightarrow> bool"
  decode_observation :: "cortex_event \<Rightarrow> evidence_observation decode"

type_synonym decoder_registry = "((string \<times> nat) \<times> decoder) list"

definition decoder_key :: "decoder \<Rightarrow> string \<times> nat" where
  "decoder_key d = (contract_id (dec_contract d), dec_version d)"

definition decoder_clash :: "string \<times> nat \<Rightarrow> cortex_error" where
  "decoder_clash k = ConfigurationErr (''ambiguous evidence decoder registration for '' @ fst k
     @ '' v'' @ digits (snd k))"

definition decoder_registry_new :: "decoder list \<Rightarrow> cortex_error + decoder_registry" where
  "decoder_registry_new ds = build_registry (\<lambda>_. Inr ()) decoder_key decoder_clash ds"

definition standard_decoders :: "serde \<Rightarrow> decoder list" where
  "standard_decoders sd =
     [\<lparr>dec_contract = ExternalToolCompletionContract, dec_version = 1,
       supports_event_type = (\<lambda>t. t = ExternalToolFinished),
       decode_observation = decode_external_tool sd\<rparr>,
      \<lparr>dec_contract = RustCompilerResultContract, dec_version = 1,
       supports_event_type = (\<lambda>t. t = CompilerResult),
       decode_observation = decode_rust_compiler sd\<rparr>,
      \<lparr>dec_contract = CargoTestResultContract, dec_version = 1,
       supports_event_type = (\<lambda>t. t = TestResult),
       decode_observation = decode_cargo_test sd\<rparr>,
      \<lparr>dec_contract = TestRunResultContract, dec_version = 1,
       supports_event_type = (\<lambda>t. t = TestResult),
       decode_observation = decode_test_run sd\<rparr>,
      \<lparr>dec_contract = GenericVerifierResultContract, dec_version = 1,
       supports_event_type = (\<lambda>t. t = ExternalToolFinished),
       decode_observation = decode_generic_verifier sd\<rparr>,
      \<lparr>dec_contract = SourceChangeObservationContract, dec_version = 1,
       supports_event_type = (\<lambda>t. t \<in> {FileCreated, FileModified, FileRemoved, FileRenamed}),
       decode_observation = decode_source_change sd\<rparr>,
      \<lparr>dec_contract = UserAcceptanceContract, dec_version = 1,
       supports_event_type = (\<lambda>t. t = UserAcceptanceEvent),
       decode_observation = decode_user_acceptance sd\<rparr>]"

definition decoder_registry_standard :: "serde \<Rightarrow> cortex_error + decoder_registry" where
  "decoder_registry_standard sd = decoder_registry_new (standard_decoders sd)"

section \<open>Dispatch\<close>

definition header :: "json \<Rightarrow> decode_result + (string \<times> nat)" where
  "header payload =
     (case payload of
        JObject object \<Rightarrow>
          (case (map_of object ''contract'', map_of object ''version'') of
             (None, None) \<Rightarrow> Inl (Unsupported LegacyUnversionedPayload)
           | (Some c, Some v) \<Rightarrow>
               (case c of
                  JString contract \<Rightarrow>
                    if blank contract \<or> max_evidence_identifier_bytes < length contract
                    then Inl (invalid ''invalid_contract'' (Some ''contract'')
                           (''contract must be non-empty and at most ''
                            @ digits max_evidence_identifier_bytes @ '' bytes''))
                    else (case v of
                        JNumber (PosInt n) \<Rightarrow>
                          if n < 2 ^ 16 then Inr (contract, n)
                          else Inl (invalid ''invalid_version'' (Some ''version'')
                                 ''version exceeds the supported unsigned-16-bit range'')
                      | _ \<Rightarrow> Inl (invalid ''invalid_version'' (Some ''version'')
                               ''version must be an unsigned integer''))
                | _ \<Rightarrow> Inl (invalid ''invalid_contract'' (Some ''contract'')
                         ''contract must be a string''))
           | (None, Some _) \<Rightarrow> Inl (invalid ''missing_contract'' (Some ''contract'')
               ''versioned evidence payloads require contract'')
           | (Some _, None) \<Rightarrow> Inl (invalid ''missing_version'' (Some ''version'')
               ''versioned evidence payloads require version''))
      | _ \<Rightarrow> Inl (invalid ''payload_not_object'' None
               ''a versioned evidence payload must be a JSON object''))"

definition validate_event_provenance :: "cortex_event \<Rightarrow> unit decode" where
  "validate_event_provenance event =
     and_then (identifier_field (event_workspace_id event) ''workspace_id'') (\<lambda>_.
     and_then (ok_or (event_session_id event) (issue ''missing_session_provenance''
       (Some ''session_id'') ''typed evidence requires explicit session provenance'')) (\<lambda>s.
     and_then (identifier_field s ''session_id'') (\<lambda>_.
     optional_identifier_field (event_task_id event) ''task_id'')))"

text \<open>\<open>Inl m\<close> is a panic with message \<open>m\<close>.\<close>

definition stop_result :: "decode_stop \<Rightarrow> string + decode_result" where
  "stop_result s = (case s of Issue i \<Rightarrow> Inr (Invalid i) | Expect m \<Rightarrow> Inl m)"

definition run_decoder :: "decoder \<Rightarrow> evidence_contract \<Rightarrow> nat \<Rightarrow> cortex_event
    \<Rightarrow> string + decode_result" where
  "run_decoder d contract version event =
     (case validate_event_provenance event of
        Inl s \<Rightarrow> stop_result s
      | Inr _ \<Rightarrow>
          if \<not> supports_event_type d (event_type_of event)
          then Inr (invalid ''event_type_mismatch'' (Some ''event_type'')
                 (contract_id contract @ '' v'' @ digits version
                  @ '' does not support event type '' @ event_storage_name (event_type_of event)))
          else (case decode_observation d event of
              Inl s \<Rightarrow> stop_result s
            | Inr obs \<Rightarrow>
                (case expect (event_session_id event) ''validated evidence session provenance'' of
                   Inl s \<Rightarrow> stop_result s
                 | Inr session \<Rightarrow> Inr (Decoded
                     \<lparr>envelope =
                        \<lparr>env_event_id = event_id event, env_workspace_id = event_workspace_id event,
                         env_session_id = session, env_task_id = event_task_id event,
                         env_occurred_at = event_created_at event,
                         env_contract = contract, env_version = version\<rparr>,
                      observation = obs\<rparr>))))"

definition decode :: "decoder_registry \<Rightarrow> serde \<Rightarrow> cortex_event \<Rightarrow> string + decode_result" where
  "decode reg sd event =
     (case to_vec_len sd (event_payload event) of
        Inl e \<Rightarrow> Inr (invalid ''payload_serialization_failed'' None e)
      | Inr payload_size \<Rightarrow>
          if max_evidence_payload_bytes < payload_size
          then Inr (invalid ''payload_too_large'' None
                 (''evidence payload is '' @ digits payload_size @ '' bytes; maximum is ''
                  @ digits max_evidence_payload_bytes))
          else (case header (event_payload event) of
              Inl r \<Rightarrow> Inr r
            | Inr (contract_text, version) \<Rightarrow>
                (case contract_from_id contract_text of
                   None \<Rightarrow> Inr (Unsupported (UnknownContract contract_text))
                 | Some contract \<Rightarrow>
                     (case map_of reg (contract_id contract, version) of
                        None \<Rightarrow> Inr (Unsupported (UnsupportedVersion contract version))
                      | Some d \<Rightarrow> run_decoder d contract version event))))"


section \<open>No panic\<close>

definition no_expect :: "'a decode \<Rightarrow> bool" where
  "no_expect r \<longleftrightarrow> (\<forall>m. r \<noteq> Inl (Expect m))"

named_theorems no_panic "computations that never reach a failed expect"

lemma no_expect_Inr [simp, no_panic]: "no_expect (Inr x)"
  by (simp add: no_expect_def)

lemma no_expect_issue [simp, no_panic]: "no_expect (Inl (issue c f m))"
  by (simp add: no_expect_def issue_def)

lemma no_expect_and_then [no_panic]:
  "no_expect r \<Longrightarrow> (\<And>x. r = Inr x \<Longrightarrow> no_expect (f x)) \<Longrightarrow> no_expect (and_then r f)"
  by (cases r) (auto simp: no_expect_def)

lemma no_expect_ok_or [no_panic]: "no_expect (ok_or x (issue c f m))"
  by (cases x) simp_all

lemma no_expect_if [no_panic]:
  "(b \<Longrightarrow> no_expect r) \<Longrightarrow> (\<not> b \<Longrightarrow> no_expect s) \<Longrightarrow> no_expect (if b then r else s)"
  by simp

lemma no_expect_option [no_panic]:
  "(x = None \<Longrightarrow> no_expect r) \<Longrightarrow> (\<And>y. x = Some y \<Longrightarrow> no_expect (f y))
   \<Longrightarrow> no_expect (case x of None \<Rightarrow> r | Some y \<Rightarrow> f y)"
  by (cases x) simp_all

lemma no_expect_input_state [no_panic]:
  "(\<And>b a. no_expect (f b a)) \<Longrightarrow> no_expect r
   \<Longrightarrow> no_expect (case x of Present b a \<Rightarrow> f b a | Absent \<Rightarrow> r)"
  by (cases x) simp_all

lemma no_expect_try_each [no_panic]: "(\<And>x. no_expect (f x)) \<Longrightarrow> no_expect (try_each f xs)"
  by (induction xs) (auto intro!: no_panic)

lemma no_expect_try_map [no_panic]: "(\<And>x. no_expect (f x)) \<Longrightarrow> no_expect (try_map f xs)"
  by (induction xs) (auto intro!: no_panic)

lemma no_expect_try_fold [no_panic]: "(\<And>s x. no_expect (f s x)) \<Longrightarrow> no_expect (try_fold f s xs)"
  by (induction xs arbitrary: s) (auto intro!: no_panic)

lemma fields_no_expect [no_panic]:
  "no_expect (identifier_field v g)" "no_expect (optional_identifier_field w g)"
  "no_expect (text_field v g)" "no_expect (optional_text_field w g)"
  "no_expect (workspace_relative_path v g)" "no_expect (workspace_relative_root v g)"
  "no_expect (blake3_hash v g)" "no_expect (verifier_exit_consistency r x)"
  "no_expect (validate_contract_fields c n ec en)" "no_expect (required_field p g)"
  "no_expect (limited n m c g what)"
  by (auto simp: identifier_field_def optional_identifier_field_def text_field_def
      optional_text_field_def workspace_relative_path_def workspace_relative_root_def
      blake3_hash_def verifier_exit_consistency_def validate_contract_fields_def
      required_field_def limited_def split: option.splits)

lemma parse_no_expect [no_panic]: "no_expect (parse_payload f p)"
  by (auto simp: parse_payload_def split: sum.splits)

lemma subjects_no_expect [no_panic]:
  "no_expect (validate_subject s)" "no_expect (validate_compiler_subject s)"
  "no_expect (validate_test_subject s)"
  by (auto simp: validate_subject_def validate_compiler_subject_def validate_test_subject_def
      intro!: no_panic split: subject_kind.splits)

lemma items_no_expect [no_panic]:
  "no_expect (validate_rust_diagnostic d)" "no_expect (validate_test_failure tf)"
  unfolding validate_rust_diagnostic_def validate_test_failure_def by (intro no_panic)+

lemma run_parts_no_expect [no_panic]:
  "no_expect (validate_versioned_component c g)" "no_expect (validate_test_selection sel)"
  "no_expect (validate_test_identity t g)" "no_expect (validate_case_outcome st ec g)"
  unfolding validate_versioned_component_def validate_test_selection_def
    validate_test_identity_def validate_case_outcome_def by (intro no_panic)+

lemma cases_no_expect [no_panic]:
  "no_expect (validate_parent_case seen c)" "no_expect (validate_child ps seen' ch)"
  unfolding validate_parent_case_def validate_child_def by (intro no_panic)+

lemma counts_no_expect [no_panic]:
  "no_expect (checked_increment v g)" "no_expect (increment_parent_status pn st)"
  "no_expect (increment_child_status cn st)" "no_expect (count_parent pn c)"
  "no_expect (count_child cn ch)" "no_expect (derive_test_counts cs chs)"
proof -
  show inc: "no_expect (checked_increment v g)" for v g
    unfolding checked_increment_def by (rule no_panic)
  show p: "no_expect (increment_parent_status pn st)" for pn st
    unfolding increment_parent_status_def Let_def by (cases st) (auto intro!: no_panic inc)
  show q: "no_expect (increment_child_status cn st)" for cn st
    unfolding increment_child_status_def Let_def by (cases st) (auto intro!: no_panic inc)
  show r: "no_expect (count_parent pn c)" for pn c
    unfolding count_parent_def by (intro no_panic inc p)
  show s: "no_expect (count_child cn ch)" for cn ch
    unfolding count_child_def by (rule q)
  show "no_expect (derive_test_counts cs chs)"
    unfolding derive_test_counts_def by (intro no_panic r s)
qed

lemma inputs_no_expect [no_panic]:
  "no_expect (validate_verification_inputs is)" "no_expect (validate_test_artifacts as)"
  unfolding validate_verification_inputs_def validate_verification_input_def
    validate_test_artifacts_def validate_test_artifact_def
  by (intro no_panic)+

lemma exit_no_expect [no_panic]: "no_expect (validate_test_exit_consistency e n errs)"
  unfolding validate_test_exit_consistency_def by (intro no_panic)

text \<open>The first of the two expects: a completed run without an exit code was rejected before.\<close>

lemma completed_no_expect [no_panic]: "no_expect (validate_completed p n)"
  by (cases "pl_exit_code p") (auto simp: validate_completed_def expect_def intro!: no_panic)

lemma decoders_no_expect:
  "d \<in> set (standard_decoders sd) \<Longrightarrow> no_expect (decode_observation d event)"
  by (auto simp: standard_decoders_def decode_external_tool_def decode_rust_compiler_def
      decode_cargo_test_def decode_test_run_def decode_generic_verifier_def
      decode_source_change_def decode_user_acceptance_def Let_def validate_run_header_def
      validate_run_sizes_def validate_run_cases_def validate_run_errors_def
      validate_source_change_event_type_def validate_previous_path_def
      validate_content_hash_def intro!: no_panic split: source_change_kind.splits option.splits)


section \<open>What a decoded test run looks like\<close>

definition count_status :: "test_case_status \<Rightarrow> test_case_status list \<Rightarrow> nat" where
  "count_status st xs = length (filter (\<lambda>x. x = st) xs)"

text \<open>The reference: each count is the number of observations with that status.\<close>

definition parents_of :: "parent_counts \<Rightarrow> test_case_status list \<Rightarrow> parent_counts" where
  "parents_of n xs =
     \<lparr>discovered = discovered n, executed = executed n + length (filter was_executed xs),
      p_passed = p_passed n + count_status Passed xs,
      p_assertion_failed = p_assertion_failed n + count_status AssertionFailed xs,
      p_errored = p_errored n + count_status Errored xs,
      p_skipped = p_skipped n + count_status Skipped xs,
      p_todo = p_todo n + count_status Todo xs,
      p_pending = p_pending n + count_status Pending xs,
      p_expected_failed = p_expected_failed n + count_status ExpectedFailed xs,
      p_unexpected_successful =
        p_unexpected_successful n + count_status UnexpectedSuccessful xs\<rparr>"

definition children_of :: "child_counts \<Rightarrow> test_case_status list \<Rightarrow> child_counts" where
  "children_of n xs =
     \<lparr>observed = observed n,
      c_passed = c_passed n + count_status Passed xs,
      c_assertion_failed = c_assertion_failed n + count_status AssertionFailed xs,
      c_errored = c_errored n + count_status Errored xs,
      c_skipped = c_skipped n + count_status Skipped xs,
      c_todo = c_todo n + count_status Todo xs,
      c_pending = c_pending n + count_status Pending xs,
      c_expected_failed = c_expected_failed n + count_status ExpectedFailed xs,
      c_unexpected_successful =
        c_unexpected_successful n + count_status UnexpectedSuccessful xs\<rparr>"

definition counts_of :: "test_case list \<Rightarrow> test_child list \<Rightarrow> test_run_counts" where
  "counts_of cases children =
     \<lparr>parents = parents_of (no_parents\<lparr>discovered := length cases\<rparr>) (map case_status cases),
      children_counts =
        children_of (no_children\<lparr>observed := length children\<rparr>) (map child_status children)\<rparr>"

definition parents_below :: "nat \<Rightarrow> parent_counts \<Rightarrow> bool" where
  "parents_below k n \<longleftrightarrow>
     list_all (\<lambda>v. v \<le> k) [executed n, p_passed n, p_assertion_failed n, p_errored n, p_skipped n,
       p_todo n, p_pending n, p_expected_failed n, p_unexpected_successful n]"

definition children_below :: "nat \<Rightarrow> child_counts \<Rightarrow> bool" where
  "children_below k n \<longleftrightarrow>
     list_all (\<lambda>v. v \<le> k) [c_passed n, c_assertion_failed n, c_errored n, c_skipped n,
       c_todo n, c_pending n, c_expected_failed n, c_unexpected_successful n]"

lemma checked_increment_below: "v \<le> k \<Longrightarrow> k < usize_max \<Longrightarrow> checked_increment v g = Inr (v + 1)"
  by (simp add: checked_increment_def checked_add_def)

lemma count_parent_step:
  assumes "parents_below k n" and "k < usize_max"
  shows "count_parent n c = Inr (parents_of n [case_status c])
    \<and> parents_below (Suc k) (parents_of n [case_status c])"
proof -
  have inc: "v \<le> k \<Longrightarrow> checked_increment v g = Inr (Suc v)" for v g
    using assms(2) by (simp add: checked_increment_below)
  have le: "executed n \<le> k" "p_passed n \<le> k" "p_assertion_failed n \<le> k" "p_errored n \<le> k"
    "p_skipped n \<le> k" "p_todo n \<le> k" "p_pending n \<le> k" "p_expected_failed n \<le> k"
    "p_unexpected_successful n \<le> k"
    using assms(1) by (simp_all add: parents_below_def)
  show ?thesis
    by (cases "case_status c") (simp_all add: le inc count_parent_def increment_parent_status_def
        parents_below_def parents_of_def count_status_def le_SucI)
qed

lemma count_child_step:
  assumes "children_below k n" and "k < usize_max"
  shows "count_child n c = Inr (children_of n [child_status c])
    \<and> children_below (Suc k) (children_of n [child_status c])"
proof -
  have inc: "v \<le> k \<Longrightarrow> checked_increment v g = Inr (Suc v)" for v g
    using assms(2) by (simp add: checked_increment_below)
  have le: "c_passed n \<le> k" "c_assertion_failed n \<le> k" "c_errored n \<le> k"
    "c_skipped n \<le> k" "c_todo n \<le> k" "c_pending n \<le> k" "c_expected_failed n \<le> k"
    "c_unexpected_successful n \<le> k"
    using assms(1) by (simp_all add: children_below_def)
  show ?thesis
    by (cases "child_status c") (simp_all add: le inc count_child_def increment_child_status_def
        children_below_def children_of_def count_status_def le_SucI)
qed

lemma parents_of_Cons: "parents_of n (x # xs) = parents_of (parents_of n [x]) xs"
  by (simp add: parents_of_def count_status_def)

lemma children_of_Cons: "children_of n (x # xs) = children_of (children_of n [x]) xs"
  by (simp add: children_of_def count_status_def)

lemma count_parents_fold:
  "parents_below k n \<Longrightarrow> k + length cs \<le> usize_max
   \<Longrightarrow> try_fold count_parent n cs = Inr (parents_of n (map case_status cs))"
proof (induction cs arbitrary: n k)
  case Nil
  then show ?case by (simp add: parents_of_def count_status_def)
next
  case (Cons c cs)
  then have "k < usize_max" by simp
  note step = count_parent_step [OF Cons.prems(1) this]
  show ?case
    using Cons.IH [OF conjunct2 [OF step]] Cons.prems(2)
    by (simp add: step parents_of_Cons [of n _ "map case_status cs"])
qed

lemma count_children_fold:
  "children_below k n \<Longrightarrow> k + length cs \<le> usize_max
   \<Longrightarrow> try_fold count_child n cs = Inr (children_of n (map child_status cs))"
proof (induction cs arbitrary: n k)
  case Nil
  then show ?case by (simp add: children_of_def count_status_def)
next
  case (Cons c cs)
  then have "k < usize_max" by simp
  note step = count_child_step [OF Cons.prems(1) this]
  show ?case
    using Cons.IH [OF conjunct2 [OF step]] Cons.prems(2)
    by (simp add: step children_of_Cons [of n _ "map child_status cs"])
qed

lemma derive_counts_of:
  assumes "length cases \<le> usize_max" and "length children \<le> usize_max"
  shows "derive_test_counts cases children = Inr (counts_of cases children)"
proof -
  have "parents_below 0 (no_parents\<lparr>discovered := length cases\<rparr>)"
    and "children_below 0 (no_children\<lparr>observed := length children\<rparr>)"
    by (simp_all add: parents_below_def children_below_def no_parents_def no_children_def)
  then show ?thesis
    using assms
    by (simp add: derive_test_counts_def counts_of_def count_parents_fold count_children_fold)
qed

lemma status_partition:
  "length xs = count_status Passed xs + count_status AssertionFailed xs + count_status Errored xs
     + count_status Skipped xs + count_status Todo xs + count_status Pending xs
     + count_status ExpectedFailed xs + count_status UnexpectedSuccessful xs"
proof (induction xs)
  case (Cons x xs)
  then show ?case by (cases x) (simp_all add: count_status_def)
qed (simp add: count_status_def)

lemma executed_partition:
  "length (filter was_executed xs) = count_status Passed xs + count_status AssertionFailed xs
     + count_status Errored xs + count_status ExpectedFailed xs
     + count_status UnexpectedSuccessful xs"
proof (induction xs)
  case (Cons x xs)
  then show ?case by (cases x) (simp_all add: count_status_def)
qed (simp add: count_status_def)

text \<open>One case, one child, and the run.\<close>

definition identifier_ok :: "string \<Rightarrow> bool" where
  "identifier_ok v \<longleftrightarrow> \<not> blank v \<and> length v \<le> max_evidence_identifier_bytes \<and> nul \<notin> set v"

definition text_ok :: "string \<Rightarrow> bool" where
  "text_ok v \<longleftrightarrow> \<not> blank v \<and> length v \<le> max_evidence_text_bytes \<and> nul \<notin> set v"

definition identity_ok :: "test_case_identity \<Rightarrow> bool" where
  "identity_ok t \<longleftrightarrow> length (ti_namespace t) \<le> max_test_namespace_components
     \<and> list_all text_ok (ti_namespace t) \<and> text_ok (ti_name t)"

definition outcome_ok :: "test_case_status \<Rightarrow> string option \<Rightarrow> bool" where
  "outcome_ok st ec \<longleftrightarrow> pred_option identifier_ok ec \<and> requires_error st = (ec \<noteq> None)"

definition case_ok :: "test_case \<Rightarrow> bool" where
  "case_ok c \<longleftrightarrow> identity_ok (case_identity c) \<and> outcome_ok (case_status c) (case_error_class c)
     \<and> (0 < retry_count c \<longrightarrow> retry_configured c) \<and> (0 < repeat_count c \<longrightarrow> repeat_configured c)
     \<and> (flaky c \<longrightarrow> 0 < retry_count c)"

definition child_ok :: "test_case_identity set \<Rightarrow> test_child \<Rightarrow> bool" where
  "child_ok ps c \<longleftrightarrow> child_parent c \<in> ps \<and> identity_ok (child_parent c)
     \<and> pred_option text_ok (child_description c) \<and> outcome_ok (child_status c) (child_error_class c)"

lemma fields_Inr [result_simps]:
  "identifier_field v g = Inr u \<longleftrightarrow> identifier_ok v"
  "text_field v g = Inr u \<longleftrightarrow> text_ok v"
  "optional_identifier_field w g = Inr u \<longleftrightarrow> pred_option identifier_ok w"
  "optional_text_field w g = Inr u \<longleftrightarrow> pred_option text_ok w"
  "workspace_relative_path v g = Inr u \<longleftrightarrow> \<not> bad_relative_path v"
  "blake3_hash v g = Inr u \<longleftrightarrow> hex_digest v"
  by (auto simp: identifier_field_def text_field_def optional_identifier_field_def
      optional_text_field_def identifier_ok_def text_ok_def workspace_relative_path_def
      blake3_hash_def split: option.splits)

lemma identity_Inr [result_simps]: "validate_test_identity t g = Inr u \<longleftrightarrow> identity_ok t"
  by (auto simp: validate_test_identity_def identity_ok_def result_simps list_all_iff)

lemma outcome_Inr [result_simps]: "validate_case_outcome st ec g = Inr u \<longleftrightarrow> outcome_ok st ec"
  by (auto simp: validate_case_outcome_def outcome_ok_def result_simps)

lemma parent_case_Inr:
  "validate_parent_case seen c = Inr t \<longleftrightarrow>
     case_ok c \<and> case_identity c \<notin> seen \<and> t = insert (case_identity c) seen"
  by (auto simp: validate_parent_case_def case_ok_def result_simps)

lemma child_Inr:
  "validate_child ps seen c = Inr t \<longleftrightarrow>
     child_ok ps c \<and> (child_parent c, child_ordinal c) \<notin> seen
     \<and> t = insert (child_parent c, child_ordinal c) seen"
  by (auto simp: validate_child_def child_ok_def result_simps)

lemma run_cases_Inr [result_simps]:
  "validate_run_cases p = Inr u \<longleftrightarrow>
     list_all case_ok (pl_cases p) \<and> distinct (map case_identity (pl_cases p))
     \<and> list_all (child_ok (case_identity ` set (pl_cases p))) (pl_children p)
     \<and> distinct (map (\<lambda>c. (child_parent c, child_ordinal c)) (pl_children p))"
  by (auto simp: validate_run_cases_def and_then_eq_Inr list_all_iff
      try_fold_seen [where f = validate_parent_case, OF parent_case_Inr]
      try_fold_seen [where f = "validate_child ps" and ok = "child_ok ps"
        and key = "\<lambda>c. (child_parent c, child_ordinal c)" for ps, OF child_Inr])

lemma limited_Inr [result_simps]: "limited n m c g w = Inr u \<longleftrightarrow> n \<le> m"
  by (auto simp: limited_def)

lemma completed_Inr [result_simps]:
  "validate_completed p n = Inr u \<longleftrightarrow>
     (pl_completed p \<longrightarrow> (\<exists>e. pl_exit_code p = Some e \<and> (e = 0) = (\<not> run_failed n (pl_errors p))))"
  by (cases "pl_exit_code p")
    (auto simp: validate_completed_def expect_def validate_test_exit_consistency_def)


section \<open>What each decoder guarantees\<close>

definition subject_ok :: "evidence_subject \<Rightarrow> bool" where
  "subject_ok s \<longleftrightarrow>
     (if es_kind s = PathSubject then \<not> bad_relative_path (es_value s) else text_ok (es_value s))"

definition diagnostic_ok :: "rust_diagnostic \<Rightarrow> bool" where
  "diagnostic_ok d \<longleftrightarrow> pred_option identifier_ok (rd_code d) \<and> text_ok (rd_message d)
     \<and> pred_option text_ok (rd_expected_type d) \<and> pred_option text_ok (rd_actual_type d)
     \<and> (rd_expected_type d = None) = (rd_actual_type d = None)
     \<and> pred_option (\<lambda>p. \<not> bad_relative_path p) (rd_path d)
     \<and> (rd_start_column d \<noteq> None \<longrightarrow> rd_start_line d \<noteq> None)
     \<and> rd_start_line d \<noteq> Some 0 \<and> rd_start_column d \<noteq> Some 0"

definition failure_ok :: "test_failure \<Rightarrow> bool" where
  "failure_ok t \<longleftrightarrow> pred_option text_ok (tf_test_name t)
     \<and> pred_option identifier_ok (tf_assertion_class t) \<and> pred_option text_ok (tf_message t)
     \<and> (tf_test_name t \<noteq> None \<or> tf_message t \<noteq> None)"

definition component_ok :: "versioned_component \<Rightarrow> bool" where
  "component_ok c \<longleftrightarrow> identifier_ok (vc_id c) \<and> identifier_ok (vc_version c)"

definition selection_ok :: "test_run_selection \<Rightarrow> bool" where
  "selection_ok s \<longleftrightarrow>
     list_all (\<lambda>root. root = ''.'' \<or> \<not> bad_relative_path root) [project_root s, import_root s]
     \<and> \<not> bad_relative_path (test_file s) \<and> text_ok (selection_value s)
     \<and> hex_digest (settings_digest s)"

definition run_error_ok :: "test_run_error \<Rightarrow> bool" where
  "run_error_ok e \<longleftrightarrow> identifier_ok (tre_error_class e) \<and> pred_option text_ok (tre_message e)"

definition input_ok :: "test_verification_input \<Rightarrow> bool" where
  "input_ok i \<longleftrightarrow> \<not> bad_relative_path (vi_path i)
     \<and> (\<forall>b a. vi_observed i = Present b a \<longrightarrow> hex_digest b \<and> hex_digest a)"

definition artifact_ok :: "test_artifact \<Rightarrow> bool" where
  "artifact_ok a \<longleftrightarrow> identifier_ok (ta_kind a) \<and> hex_digest (ta_digest a) \<and> text_ok (ta_reference a)"

text \<open>All that a decoded test run obeys, part by part: its origin, its cases and children with
  their counts, its errors, inputs and artifacts, and the way its process ended.\<close>

definition run_ok :: "test_run_result \<Rightarrow> bool" where
  "run_ok r \<longleftrightarrow>
     list_all component_ok [tr_producer r, tr_runner r, tr_runtime r, tr_profile r]
     \<and> identifier_ok (tr_run_id r) \<and> identifier_ok (tr_operation r)
     \<and> pred_option identifier_ok (tr_language r)
     \<and> hex_digest (tr_environment_fingerprint r) \<and> selection_ok (tr_selection r)
     \<and> length (tr_cases r) \<le> max_test_cases
     \<and> length (tr_children r) \<le> max_test_child_observations
     \<and> list_all case_ok (tr_cases r) \<and> distinct (map case_identity (tr_cases r))
     \<and> list_all (child_ok (case_identity ` set (tr_cases r))) (tr_children r)
     \<and> distinct (map (\<lambda>c. (child_parent c, child_ordinal c)) (tr_children r))
     \<and> tr_counts r = counts_of (tr_cases r) (tr_children r)
     \<and> length (tr_errors r) \<le> max_test_run_errors \<and> list_all run_error_ok (tr_errors r)
     \<and> length (tr_verification_inputs r) \<le> max_test_verification_inputs
     \<and> list_all input_ok (tr_verification_inputs r)
     \<and> distinct (map (\<lambda>i. (vi_kind i, vi_path i)) (tr_verification_inputs r))
     \<and> length (tr_artifacts r) \<le> max_test_artifacts \<and> list_all artifact_ok (tr_artifacts r)
     \<and> distinct (map (\<lambda>a. (ta_kind a, ta_reference a)) (tr_artifacts r))
     \<and> tr_process_outcome r = map_option process_outcome_of (tr_exit_code r)
     \<and> (tr_completed r \<longrightarrow>
          (\<exists>e. tr_exit_code r = Some e \<and> (e = 0) = (\<not> run_failed (tr_counts r) (tr_errors r))))"

fun observation_ok :: "evidence_observation \<Rightarrow> bool" where
  "observation_ok (ExternalToolCompletion t) \<longleftrightarrow>
     identifier_ok (tc_tool t) \<and> identifier_ok (tc_operation t)
     \<and> pred_option identifier_ok (tc_error_class t) \<and> pred_option text_ok (tc_message t)"
| "observation_ok (RustCompilerResult r) \<longleftrightarrow>
     subject_ok (rc_subject r) \<and> es_kind (rc_subject r) \<notin> {TestSubject, PathSubject}
     \<and> rc_process_outcome r = process_outcome_of (rc_exit_code r)
     \<and> (rc_exit_code r \<noteq> 0) = (\<exists>d \<in> set (rc_diagnostics r). rd_level d = ErrorLevel)
     \<and> length (rc_diagnostics r) \<le> max_rust_diagnostics
     \<and> list_all diagnostic_ok (rc_diagnostics r)"
| "observation_ok (CargoTestResult r) \<longleftrightarrow>
     subject_ok (ct_subject r) \<and> es_kind (ct_subject r) \<noteq> PathSubject
     \<and> ct_process_outcome r = process_outcome_of (ct_exit_code r)
     \<and> (ct_exit_code r \<noteq> 0) = (ct_failures r \<noteq> [])
     \<and> length (ct_failures r) \<le> max_test_failures
     \<and> ct_executed_test_count r \<le> 1000000 \<and> list_all failure_ok (ct_failures r)"
| "observation_ok (TestRunResult r) \<longleftrightarrow> run_ok r"
| "observation_ok (GenericVerifierResult r) \<longleftrightarrow>
     identifier_ok (gv_verifier_id r) \<and> identifier_ok (gv_verifier_version r)
     \<and> identifier_ok (gv_tool r) \<and> identifier_ok (gv_operation r) \<and> subject_ok (gv_subject r)
     \<and> gv_process_outcome r = process_outcome_of (gv_exit_code r)
     \<and> (gv_reported_result r = VerificationPassed) = (gv_exit_code r = 0)"
| "observation_ok (SourceChange c) \<longleftrightarrow>
     \<not> bad_relative_path (sc_path c) \<and> 0 \<le> sc_workspace_revision c \<and> 0 \<le> sc_document_revision c
     \<and> (sc_change c = Renamed) = (sc_previous_path c \<noteq> None)
     \<and> pred_option (\<lambda>p. \<not> bad_relative_path p \<and> p \<noteq> sc_path c) (sc_previous_path c)
     \<and> (sc_change c = Removed) = (sc_content_hash c = None)
     \<and> pred_option hex_digest (sc_content_hash c)"
| "observation_ok (UserAcceptance a) \<longleftrightarrow> identifier_ok (ua_actor a) \<and> subject_ok (ua_subject a)"

fun contract_of :: "evidence_observation \<Rightarrow> evidence_contract" where
  "contract_of (ExternalToolCompletion _) = ExternalToolCompletionContract"
| "contract_of (RustCompilerResult _) = RustCompilerResultContract"
| "contract_of (CargoTestResult _) = CargoTestResultContract"
| "contract_of (TestRunResult _) = TestRunResultContract"
| "contract_of (GenericVerifierResult _) = GenericVerifierResultContract"
| "contract_of (SourceChange _) = SourceChangeObservationContract"
| "contract_of (UserAcceptance _) = UserAcceptanceContract"

text \<open>An observation repeats the payload its parser returned, field by field, and comes from an
  event of the right type; a source change from the event of its own kind.\<close>

fun payload_of :: "serde \<Rightarrow> json \<Rightarrow> evidence_observation \<Rightarrow> bool" where
  "payload_of sd j (ExternalToolCompletion t) \<longleftrightarrow>
     external_tool_of sd j = Inr
       \<lparr>ph_contract = contract_id ExternalToolCompletionContract, ph_version = 1,
        et_tool = tc_tool t, et_operation = tc_operation t, et_exit_code = tc_exit_code t,
        et_error_class = tc_error_class t, et_message = tc_message t\<rparr>"
| "payload_of sd j (RustCompilerResult r) \<longleftrightarrow>
     rust_compiler_of sd j = Inr
       \<lparr>ph_contract = contract_id RustCompilerResultContract, ph_version = 1,
        rp_subject = rc_subject r, rp_exit_code = rc_exit_code r,
        rp_diagnostics = rc_diagnostics r\<rparr>"
| "payload_of sd j (CargoTestResult r) \<longleftrightarrow>
     cargo_test_of sd j = Inr
       \<lparr>ph_contract = contract_id CargoTestResultContract, ph_version = 1,
        cp_subject = ct_subject r, cp_exit_code = ct_exit_code r,
        cp_executed_test_count = ct_executed_test_count r, cp_failures = ct_failures r\<rparr>"
| "payload_of sd j (TestRunResult r) \<longleftrightarrow>
     test_run_of sd j = Inr
       \<lparr>ph_contract = contract_id TestRunResultContract, ph_version = 1,
        pl_producer = tr_producer r, pl_runner = tr_runner r, pl_runtime = tr_runtime r,
        pl_profile = tr_profile r, pl_run_id = tr_run_id r, pl_operation = tr_operation r,
        pl_completed = tr_completed r, pl_exit_code = tr_exit_code r,
        pl_language = tr_language r,
        pl_environment_fingerprint = tr_environment_fingerprint r,
        pl_selection = tr_selection r, pl_cases = tr_cases r, pl_children = tr_children r,
        pl_counts = tr_counts r, pl_errors = tr_errors r, pl_settings = tr_settings r,
        pl_verification_inputs = tr_verification_inputs r, pl_artifacts = tr_artifacts r\<rparr>"
| "payload_of sd j (GenericVerifierResult r) \<longleftrightarrow>
     generic_verifier_of sd j = Inr
       \<lparr>ph_contract = contract_id GenericVerifierResultContract, ph_version = 1,
        gp_verifier_id = gv_verifier_id r, gp_verifier_version = gv_verifier_version r,
        gp_tool = gv_tool r, gp_operation = gv_operation r, gp_result = gv_reported_result r,
        gp_exit_code = gv_exit_code r, gp_subject = gv_subject r\<rparr>"
| "payload_of sd j (SourceChange c) \<longleftrightarrow>
     source_change_of sd j = Inr
       \<lparr>ph_contract = contract_id SourceChangeObservationContract, ph_version = 1,
        sp_change = sc_change c, sp_path = sc_path c, sp_previous_path = sc_previous_path c,
        sp_workspace_revision = sc_workspace_revision c,
        sp_document_revision = sc_document_revision c, sp_content_hash = sc_content_hash c\<rparr>
     \<and> (\<exists>object. j = JObject object \<and> ''content_hash'' \<in> fst ` set object)"
| "payload_of sd j (UserAcceptance a) \<longleftrightarrow>
     user_acceptance_of sd j = Inr
       \<lparr>ph_contract = contract_id UserAcceptanceContract, ph_version = 1,
        up_accepted = True, up_accepted_by = ua_actor a, up_subject = ua_subject a\<rparr>"

fun event_types_of :: "evidence_observation \<Rightarrow> event_type set" where
  "event_types_of (ExternalToolCompletion _) = {ExternalToolFinished}"
| "event_types_of (RustCompilerResult _) = {CompilerResult}"
| "event_types_of (CargoTestResult _) = {TestResult}"
| "event_types_of (TestRunResult _) = {TestResult}"
| "event_types_of (GenericVerifierResult _) = {ExternalToolFinished}"
| "event_types_of (SourceChange c) =
     (case sc_change c of Created \<Rightarrow> {FileCreated} | Modified \<Rightarrow> {FileModified}
      | Removed \<Rightarrow> {FileRemoved} | Renamed \<Rightarrow> {FileRenamed})"
| "event_types_of (UserAcceptance _) = {UserAcceptanceEvent}"

lemma subject_Inr [result_simps]: "validate_subject s = Inr t \<longleftrightarrow> subject_ok s \<and> t = s"
  by (cases "es_kind s") (auto simp: validate_subject_def subject_ok_def result_simps)

lemma special_subject_Inr [result_simps]:
  "validate_compiler_subject s = Inr t \<longleftrightarrow>
     es_kind s \<notin> {TestSubject, PathSubject} \<and> subject_ok s \<and> t = s"
  "validate_test_subject s = Inr t \<longleftrightarrow> es_kind s \<noteq> PathSubject \<and> subject_ok s \<and> t = s"
  by (auto simp: validate_compiler_subject_def validate_test_subject_def result_simps)

lemma optional_path_ok [result_simps]:
  "(case x of None \<Rightarrow> Inr () | Some p \<Rightarrow> workspace_relative_path p g) = Inr u
   \<longleftrightarrow> pred_option (\<lambda>p. \<not> bad_relative_path p) x"
  by (cases x) (simp_all add: result_simps)

lemma diagnostic_Inr: "validate_rust_diagnostic d = Inr e \<longleftrightarrow> diagnostic_ok d \<and> e = d"
  by (auto simp: validate_rust_diagnostic_def diagnostic_ok_def result_simps)

lemma failure_Inr: "validate_test_failure t = Inr u \<longleftrightarrow> failure_ok t \<and> u = t"
  by (auto simp: validate_test_failure_def failure_ok_def result_simps)

lemma lists_Inr [result_simps]:
  "try_map validate_rust_diagnostic ds = Inr es \<longleftrightarrow> list_all diagnostic_ok ds \<and> es = ds"
  "try_map validate_test_failure ts = Inr us \<longleftrightarrow> list_all failure_ok ts \<and> us = ts"
  by (rule try_map_check diagnostic_Inr failure_Inr)+

lemma component_Inr [result_simps]:
  "validate_versioned_component c g = Inr u \<longleftrightarrow> component_ok c"
  by (auto simp: validate_versioned_component_def component_ok_def result_simps)

lemma contract_fields_Inr [result_simps]:
  "validate_contract_fields c n ec en = Inr u \<longleftrightarrow> c = contract_id ec \<and> n = en"
  by (auto simp: validate_contract_fields_def)

lemma exit_consistency_Inr [result_simps]:
  "verifier_exit_consistency r e = Inr u \<longleftrightarrow> (r = VerificationPassed) = (e = 0)"
  by (cases r) (auto simp: verifier_exit_consistency_def)

lemma process_outcome_iff [simp]:
  "process_outcome_of e = ExitedZero \<longleftrightarrow> e = 0" "process_outcome_of e = ExitedNonzero \<longleftrightarrow> e \<noteq> 0"
  by (simp_all add: process_outcome_of_def)

lemma previous_path_Inr [result_simps]:
  "validate_previous_path p = Inr u \<longleftrightarrow>
     (sp_change p = Renamed) = (sp_previous_path p \<noteq> None)
     \<and> pred_option (\<lambda>q. \<not> bad_relative_path q \<and> q \<noteq> sp_path p) (sp_previous_path p)"
  by (cases "sp_change p"; cases "sp_previous_path p")
    (auto simp: validate_previous_path_def result_simps)

lemma content_hash_Inr [result_simps]:
  "validate_content_hash p = Inr u \<longleftrightarrow>
     (sp_change p = Removed) = (sp_content_hash p = None)
     \<and> pred_option hex_digest (sp_content_hash p)"
  by (cases "sp_change p"; cases "sp_content_hash p")
    (auto simp: validate_content_hash_def result_simps)

lemma parse_Inr [result_simps]: "parse_payload f j = Inr p \<longleftrightarrow> f j = Inr p"
  by (simp add: parse_payload_def split: sum.splits)

lemma required_Inr [result_simps]:
  "required_field j g = Inr u \<longleftrightarrow> (\<exists>object. j = JObject object \<and> g \<in> fst ` set object)"
  by (cases j) (simp_all add: required_field_def map_of_eq_None_iff)

lemma root_Inr [result_simps]:
  "workspace_relative_root v g = Inr u \<longleftrightarrow> v = ''.'' \<or> \<not> bad_relative_path v"
  by (simp add: workspace_relative_root_def result_simps)

lemma selection_Inr [result_simps]: "validate_test_selection s = Inr u \<longleftrightarrow> selection_ok s"
  by (auto simp: validate_test_selection_def selection_ok_def result_simps)

lemma run_errors_Inr [result_simps]: "validate_run_errors es = Inr u \<longleftrightarrow> list_all run_error_ok es"
  by (auto simp: validate_run_errors_def run_error_ok_def list_all_iff result_simps)

lemma input_Inr:
  "validate_verification_input seen i = Inr t \<longleftrightarrow>
     input_ok i \<and> (vi_kind i, vi_path i) \<notin> seen \<and> t = insert (vi_kind i, vi_path i) seen"
  by (cases "vi_observed i") (auto simp: validate_verification_input_def input_ok_def result_simps)

lemma artifact_Inr:
  "validate_test_artifact seen a = Inr t \<longleftrightarrow>
     artifact_ok a \<and> (ta_kind a, ta_reference a) \<notin> seen
     \<and> t = insert (ta_kind a, ta_reference a) seen"
  by (auto simp: validate_test_artifact_def artifact_ok_def result_simps)

lemma inputs_Inr [result_simps]:
  "validate_verification_inputs is = Inr u \<longleftrightarrow>
     list_all input_ok is \<and> distinct (map (\<lambda>i. (vi_kind i, vi_path i)) is)"
  "validate_test_artifacts as = Inr u \<longleftrightarrow>
     list_all artifact_ok as \<and> distinct (map (\<lambda>a. (ta_kind a, ta_reference a)) as)"
  by (auto simp: validate_verification_inputs_def validate_test_artifacts_def and_then_eq_Inr
      list_all_iff try_fold_seen [where f = validate_verification_input
        and key = "\<lambda>i. (vi_kind i, vi_path i)", OF input_Inr]
      try_fold_seen [where f = validate_test_artifact
        and key = "\<lambda>a. (ta_kind a, ta_reference a)", OF artifact_Inr])

lemma source_event_Inr [result_simps]:
  "validate_source_change_event_type k t = Inr u \<longleftrightarrow> t = change_event k"
  by (auto simp: validate_source_change_event_type_def)

lemma event_types_source: "event_types_of (SourceChange c) = {change_event (sc_change c)}"
  by (cases "sc_change c") simp_all

lemma if_fails_Inr: "(if b then Inl e else r) = Inr x \<longleftrightarrow> \<not> b \<and> r = Inr x"
  by simp

text \<open>The counts of a run within the size limits can be derived, and the run is what its payload
  says.\<close>

lemma sizes_Inr [result_simps]:
  "validate_run_sizes p = Inr u \<longleftrightarrow>
     length (pl_cases p) \<le> max_test_cases
     \<and> length (pl_children p) \<le> max_test_child_observations
     \<and> length (pl_errors p) \<le> max_test_run_errors
     \<and> length (pl_verification_inputs p) \<le> max_test_verification_inputs
     \<and> length (pl_artifacts p) \<le> max_test_artifacts"
  by (auto simp: validate_run_sizes_def result_simps)

lemma run_header_Inr [result_simps]:
  "validate_run_header p = Inr u \<longleftrightarrow>
     ph_contract p = contract_id TestRunResultContract \<and> ph_version p = 1
     \<and> list_all component_ok [pl_producer p, pl_runner p, pl_runtime p, pl_profile p]
     \<and> identifier_ok (pl_run_id p) \<and> identifier_ok (pl_operation p)
     \<and> pred_option identifier_ok (pl_language p)
     \<and> hex_digest (pl_environment_fingerprint p) \<and> selection_ok (pl_selection p)"
  by (auto simp: validate_run_header_def result_simps)

lemma sized_counts:
  "length cases \<le> max_test_cases \<Longrightarrow> length children \<le> max_test_child_observations
   \<Longrightarrow> derive_test_counts cases children = Inr (counts_of cases children)"
  by (rule derive_counts_of)
    (simp_all add: max_test_cases_def max_test_child_observations_def usize_max_def)

lemma decode_test_run_iff:
  "decode_test_run sd event = Inr obs \<longleftrightarrow>
     (\<exists>r. obs = TestRunResult r \<and> payload_of sd (event_payload event) obs \<and> run_ok r)"
proof
  assume "decode_test_run sd event = Inr obs"
  then obtain p where p: "test_run_of sd (event_payload event) = Inr p"
      "validate_run_header p = Inr ()" "validate_run_sizes p = Inr ()"
      "validate_run_cases p = Inr ()" "validate_run_errors (pl_errors p) = Inr ()"
      "validate_verification_inputs (pl_verification_inputs p) = Inr ()"
      "validate_test_artifacts (pl_artifacts p) = Inr ()"
      "validate_completed p (pl_counts p) = Inr ()"
      "derive_test_counts (pl_cases p) (pl_children p) = Inr (pl_counts p)"
    and obs: "obs = TestRunResult
       \<lparr>tr_producer = pl_producer p, tr_runner = pl_runner p, tr_runtime = pl_runtime p,
        tr_profile = pl_profile p, tr_run_id = pl_run_id p, tr_operation = pl_operation p,
        tr_completed = pl_completed p,
        tr_process_outcome = map_option process_outcome_of (pl_exit_code p),
        tr_exit_code = pl_exit_code p, tr_language = pl_language p,
        tr_environment_fingerprint = pl_environment_fingerprint p,
        tr_selection = pl_selection p, tr_cases = pl_cases p, tr_children = pl_children p,
        tr_counts = pl_counts p, tr_errors = pl_errors p, tr_settings = pl_settings p,
        tr_verification_inputs = pl_verification_inputs p,
        tr_artifacts = pl_artifacts p\<rparr>"
    by (auto simp: decode_test_run_def result_simps and_then_eq_Inr split: if_splits)
  then have "pl_counts p = counts_of (pl_cases p) (pl_children p)"
    by (simp add: result_simps sized_counts)
  with p show "\<exists>r. obs = TestRunResult r \<and> payload_of sd (event_payload event) obs \<and> run_ok r"
    by (simp add: obs run_ok_def result_simps)
next
  assume "\<exists>r. obs = TestRunResult r \<and> payload_of sd (event_payload event) obs \<and> run_ok r"
  then obtain r where "obs = TestRunResult r" "payload_of sd (event_payload event) obs" "run_ok r"
    by blast
  then show "decode_test_run sd event = Inr obs"
    by (cases r) (simp add: decode_test_run_def run_ok_def result_simps sized_counts)
qed

text \<open>Each decoder returns an observation exactly when the payload is one, the observation obeys
  every rule, and the decoder is that of its contract; the source change decoder also checks the
  event type.\<close>

lemma external_tool_iff:
  "decode_external_tool sd event = Inr obs \<longleftrightarrow> contract_of obs = ExternalToolCompletionContract
     \<and> payload_of sd (event_payload event) obs \<and> observation_ok obs"
  by (cases obs) (auto simp: decode_external_tool_def result_simps)

lemma generic_verifier_iff:
  "decode_generic_verifier sd event = Inr obs \<longleftrightarrow> contract_of obs = GenericVerifierResultContract
     \<and> payload_of sd (event_payload event) obs \<and> observation_ok obs"
  by (cases obs) (auto simp: decode_generic_verifier_def result_simps)

lemma user_acceptance_iff:
  "decode_user_acceptance sd event = Inr obs \<longleftrightarrow> contract_of obs = UserAcceptanceContract
     \<and> payload_of sd (event_payload event) obs \<and> observation_ok obs"
  by (cases obs) (auto simp: decode_user_acceptance_def result_simps if_fails_Inr)

lemma rust_compiler_iff:
  "decode_rust_compiler sd event = Inr obs \<longleftrightarrow> contract_of obs = RustCompilerResultContract
     \<and> payload_of sd (event_payload event) obs \<and> observation_ok obs"
  by (cases obs) (auto simp: decode_rust_compiler_def result_simps Let_def if_fails_Inr)

lemma cargo_test_iff:
  "decode_cargo_test sd event = Inr obs \<longleftrightarrow> contract_of obs = CargoTestResultContract
     \<and> payload_of sd (event_payload event) obs \<and> observation_ok obs"
  by (cases obs) (auto simp: decode_cargo_test_def result_simps Let_def if_fails_Inr)

lemma source_change_iff:
  "decode_source_change sd event = Inr obs \<longleftrightarrow> contract_of obs = SourceChangeObservationContract
     \<and> payload_of sd (event_payload event) obs \<and> observation_ok obs
     \<and> event_type_of event \<in> event_types_of obs"
  by (cases obs) (auto simp: decode_source_change_def result_simps if_fails_Inr
      event_types_source simp del: event_types_of.simps)

lemma decode_observation_iff:
  assumes "d \<in> set (standard_decoders sd)"
  shows "supports_event_type d (event_type_of event) \<and> decode_observation d event = Inr obs
    \<longleftrightarrow> contract_of obs = dec_contract d \<and> payload_of sd (event_payload event) obs
      \<and> observation_ok obs \<and> event_type_of event \<in> event_types_of obs"
proof -
  have source: "event_type_of event \<in> event_types_of obs
      \<Longrightarrow> event_type_of event \<in> {FileCreated, FileModified, FileRemoved, FileRenamed}"
    if "contract_of obs = SourceChangeObservationContract"
    using that by (cases obs) (auto split: source_change_kind.splits)
  have run: "decode_test_run sd event = Inr obs \<longleftrightarrow> contract_of obs = TestRunResultContract
      \<and> payload_of sd (event_payload event) obs \<and> observation_ok obs"
    by (cases obs) (auto simp: decode_test_run_iff)
  have other: "event_types_of obs = {ExternalToolFinished}"
    if "contract_of obs \<in> {ExternalToolCompletionContract, GenericVerifierResultContract}"
    using that by (cases obs) auto
  have rest: "contract_of obs = RustCompilerResultContract \<Longrightarrow> event_types_of obs = {CompilerResult}"
    "contract_of obs \<in> {CargoTestResultContract, TestRunResultContract}
      \<Longrightarrow> event_types_of obs = {TestResult}"
    "contract_of obs = UserAcceptanceContract \<Longrightarrow> event_types_of obs = {UserAcceptanceEvent}"
    by (cases obs; simp)+
  show ?thesis
    using assms source other rest
    by (auto simp: standard_decoders_def external_tool_iff rust_compiler_iff cargo_test_iff run
        generic_verifier_iff source_change_iff user_acceptance_iff)
qed

lemma standard_contracts:
  "\<exists>d \<in> set (standard_decoders sd). dec_contract d = c"
  "d \<in> set (standard_decoders sd) \<Longrightarrow> dec_version d = 1"
  by (cases c) (auto simp: standard_decoders_def)


section \<open>The registry and the dispatch\<close>

interpretation decoders: registry decoder_registry_new decoder_key "\<lambda>_. True"
  by unfold_locales (simp add: decoder_registry_new_def build_registry_Inr list_all_iff)

lemma standard_registry_exists: "\<exists>reg. decoder_registry_standard sd = Inr reg"
proof -
  have keys: "map decoder_key (standard_decoders sd) = map (\<lambda>c. (contract_id c, 1))
      [ExternalToolCompletionContract, RustCompilerResultContract, CargoTestResultContract,
       TestRunResultContract, GenericVerifierResultContract, SourceChangeObservationContract,
       UserAcceptanceContract]"
    by (simp add: standard_decoders_def decoder_key_def)
  have "distinct (map decoder_key (standard_decoders sd))"
    unfolding keys by simp
  then show ?thesis
    using decoders.build_total [of "standard_decoders sd"]
    by (simp add: decoder_registry_standard_def list_all_iff)
qed

lemma standard_lookup:
  assumes "decoder_registry_standard sd = Inr reg" and "map_of reg k = Some d"
  shows "d \<in> set (standard_decoders sd)" and "decoder_key d = k"
  using decoders.lookup [OF assms(1) [unfolded decoder_registry_standard_def]] assms(2) by auto

text \<open>The second expect: the provenance check has seen a session.\<close>

lemma run_decoder_no_panic:
  assumes "no_expect (decode_observation d event)"
  shows "\<exists>r. run_decoder d c n event = Inr r"
proof -
  have prov: "no_expect (validate_event_provenance event)"
    unfolding validate_event_provenance_def by (intro no_panic)
  have session: "event_session_id event \<noteq> None" if "validate_event_provenance event = Inr u" for u
    using that by (auto simp: validate_event_provenance_def result_simps)
  show ?thesis
    using assms prov session unfolding run_decoder_def stop_result_def no_expect_def expect_def
    by (auto split: sum.split decode_stop.split)
qed

lemma header_never_decodes [simp]: "header p \<noteq> Inl (Decoded e)"
  by (auto simp: header_def invalid_def split: json.splits option.splits json_number.splits)

lemma decode_Decoded:
  assumes "decode reg sd event = Inr (Decoded e)"
  obtains c n d where "header (event_payload event) = Inr (contract_id c, n)"
    "map_of reg (contract_id c, n) = Some d" "validate_event_provenance event = Inr ()"
    "supports_event_type d (event_type_of event)"
    "decode_observation d event = Inr (observation e)"
    "envelope e = \<lparr>env_event_id = event_id event, env_workspace_id = event_workspace_id event,
       env_session_id = the (event_session_id event), env_task_id = event_task_id event,
       env_occurred_at = event_created_at event, env_contract = c, env_version = n\<rparr>"
    "event_session_id event \<noteq> None"
    "\<exists>k \<le> max_evidence_payload_bytes. to_vec_len sd (event_payload event) = Inr k"
  using assms unfolding decode_def run_decoder_def
  by (auto simp: stop_result_def invalid_def expect_def contract_from_id_iff
      split: sum.splits if_splits prod.splits option.splits decode_stop.splits)


text \<open>What an event must be to be read as an observation: named by its header, small enough, with
  its provenance, of the right type and with the payload of that observation, which obeys every
  rule of its contract.\<close>

definition reads_as :: "serde \<Rightarrow> cortex_event \<Rightarrow> evidence_observation \<Rightarrow> bool" where
  "reads_as sd event obs \<longleftrightarrow>
     header (event_payload event) = Inr (contract_id (contract_of obs), 1)
     \<and> (\<exists>size \<le> max_evidence_payload_bytes. to_vec_len sd (event_payload event) = Inr size)
     \<and> identifier_ok (event_workspace_id event)
     \<and> (\<exists>session. event_session_id event = Some session \<and> identifier_ok session)
     \<and> pred_option identifier_ok (event_task_id event)
     \<and> event_type_of event \<in> event_types_of obs
     \<and> payload_of sd (event_payload event) obs \<and> observation_ok obs"

definition provenance_of :: "cortex_event \<Rightarrow> evidence_contract \<Rightarrow> evidence_envelope" where
  "provenance_of event c =
     \<lparr>env_event_id = event_id event, env_workspace_id = event_workspace_id event,
      env_session_id = the (event_session_id event), env_task_id = event_task_id event,
      env_occurred_at = event_created_at event, env_contract = c, env_version = 1\<rparr>"

lemma provenance_Inr:
  "validate_event_provenance event = Inr u \<longleftrightarrow>
     identifier_ok (event_workspace_id event)
     \<and> (\<exists>session. event_session_id event = Some session \<and> identifier_ok session)
     \<and> pred_option identifier_ok (event_task_id event)"
  by (auto simp: validate_event_provenance_def result_simps)

lemma decoded_reads_as:
  assumes "decoder_registry_standard sd = Inr reg" and "decode reg sd event = Inr (Decoded e)"
  shows "reads_as sd event (observation e)
    \<and> envelope e = provenance_of event (contract_of (observation e))"
  using assms(2)
proof (rule decode_Decoded)
  fix c n d
  assume head: "header (event_payload event) = Inr (contract_id c, n)"
    and d: "map_of reg (contract_id c, n) = Some d"
    and prov: "validate_event_provenance event = Inr ()"
    and sup: "supports_event_type d (event_type_of event)"
    and obs: "decode_observation d event = Inr (observation e)"
    and env: "envelope e = \<lparr>env_event_id = event_id event, env_workspace_id = event_workspace_id event,
       env_session_id = the (event_session_id event), env_task_id = event_task_id event,
       env_occurred_at = event_created_at event, env_contract = c, env_version = n\<rparr>"
    and size: "\<exists>k \<le> max_evidence_payload_bytes. to_vec_len sd (event_payload event) = Inr k"
  note mem = standard_lookup(1) [OF assms(1) d]
  have "dec_contract d = c" and "dec_version d = n"
    using standard_lookup(2) [OF assms(1) d] by (simp_all add: decoder_key_def)
  then show ?thesis
    using decode_observation_iff [OF mem, of event "observation e"] sup obs head env size prov
      standard_contracts(2) [OF mem]
    by (simp add: reads_as_def provenance_of_def provenance_Inr)
qed

lemma reads_as_decoded:
  assumes "decoder_registry_standard sd = Inr reg" and "reads_as sd event (observation e)"
    and "envelope e = provenance_of event (contract_of (observation e))"
  shows "decode reg sd event = Inr (Decoded e)"
proof -
  obtain d where d: "d \<in> set (standard_decoders sd)" "dec_contract d = contract_of (observation e)"
    using standard_contracts(1) by blast
  have "decoder_key d = (contract_id (contract_of (observation e)), 1)"
    using d standard_contracts(2) by (simp add: decoder_key_def)
  then have look: "map_of reg (contract_id (contract_of (observation e)), 1) = Some d"
    using decoders.lookup [OF assms(1) [unfolded decoder_registry_standard_def]] d(1) by simp
  have sup: "supports_event_type d (event_type_of event)"
    "decode_observation d event = Inr (observation e)"
    using decode_observation_iff [OF d(1), of event "observation e"] assms(2) d(2)
    by (simp_all add: reads_as_def)
  obtain session where session: "event_session_id event = Some session"
    using assms(2) by (auto simp: reads_as_def)
  have "validate_event_provenance event = Inr ()"
    using assms(2) by (simp add: reads_as_def provenance_Inr)
  then have "run_decoder d (contract_of (observation e)) 1 event = Inr (Decoded e)"
    using sup session assms(3)
    by (cases e) (simp add: run_decoder_def expect_def provenance_of_def)
  moreover have "contract_from_id (contract_id (contract_of (observation e)))
      = Some (contract_of (observation e))"
    by (simp add: contract_from_id_iff)
  ultimately show ?thesis
    using assms(2) look by (auto simp: decode_def reads_as_def)
qed

lemma decoded_evidence_ok:
  assumes "decoder_registry_standard sd = Inr reg" and "decode reg sd event = Inr (Decoded e)"
  shows "observation_ok (observation e)"
  using decoded_reads_as [OF assms] by (simp add: reads_as_def)

section \<open>A concrete run\<close>

definition demo_identity :: "string \<Rightarrow> test_case_identity" where
  "demo_identity n = \<lparr>ti_namespace = [''suite''], ti_name = n\<rparr>"

definition demo_case :: "string \<Rightarrow> test_case_status \<Rightarrow> string option \<Rightarrow> test_case" where
  "demo_case n st ec =
     \<lparr>case_identity = demo_identity n, case_status = st, case_error_class = ec,
      retry_configured = False, retry_count = 0, repeat_configured = False, repeat_count = 0,
      flaky = False\<rparr>"

definition demo_digest :: string where "demo_digest = replicate 64 CHR ''a''"

definition demo_cases :: "bool \<Rightarrow> test_case list" where
  "demo_cases failing = [demo_case ''adds'' Passed None,
     (if failing then demo_case ''subtracts'' AssertionFailed (Some ''AssertionError'')
      else demo_case ''subtracts'' Passed None)]"

definition demo_payload :: "bool \<Rightarrow> test_run_payload" where
  "demo_payload failing =
     \<lparr>ph_contract = ''cortexweave.test_run_result'', ph_version = 1,
      pl_producer = component ''cortexweave.unittest_capture'' ''1'',
      pl_runner = component ''python.unittest'' ''3.14.7'',
      pl_runtime = component ''python'' ''3.14.7'',
      pl_profile = component ''cortexweave.unittest.module_or_class'' ''1'',
      pl_run_id = ''run'', pl_operation = ''test'', pl_completed = True,
      pl_exit_code = Some (if failing then 1 else 0), pl_language = Some ''python'',
      pl_environment_fingerprint = demo_digest,
      pl_selection = \<lparr>project_root = ''.'', import_root = ''.'', test_file = ''tests/t.py'',
        selection_kind = ModuleSelection, selection_value = ''tests.t'',
        settings_digest = demo_digest, inventory_complete = True\<rparr>,
      pl_cases = demo_cases failing, pl_children = [],
      pl_counts = counts_of (demo_cases failing) [],
      pl_errors = [],
      pl_settings = \<lparr>focused_only = False, name_filter = False, sharded = False, bail = False,
        watch = False, snapshot_mode_of = NotApplicable, pass_with_no_tests = False,
        execution_origin_of = CurrentOrigin\<rparr>,
      pl_verification_inputs = [\<lparr>vi_kind = TestFileInput, vi_path = ''tests/t.py'',
        vi_observed = Present demo_digest demo_digest\<rparr>],
      pl_artifacts = [\<lparr>ta_kind = ''log'', ta_digest = demo_digest, ta_reference = ''run.log''\<rparr>]\<rparr>"

definition demo_serde :: "bool \<Rightarrow> serde" where
  "demo_serde failing =
     \<lparr>to_vec_len = (\<lambda>_. Inr 2048), external_tool_of = (\<lambda>_. Inl ''''),
      rust_compiler_of = (\<lambda>_. Inl ''''), cargo_test_of = (\<lambda>_. Inl ''''),
      test_run_of = (\<lambda>_. Inr (demo_payload failing)), generic_verifier_of = (\<lambda>_. Inl ''''),
      source_change_of = (\<lambda>_. Inl ''''), user_acceptance_of = (\<lambda>_. Inl '''')\<rparr>"

definition demo_event :: cortex_event where
  "demo_event =
     \<lparr>event_id = ''e'', event_workspace_id = ''w'', event_session_id = Some ''s'',
      event_task_id = None, event_type_of = TestResult,
      event_payload = JObject [(''contract'', JString ''cortexweave.test_run_result''),
        (''version'', JNumber (PosInt 1))],
      event_created_at = 0\<rparr>"

definition demo_registry :: "bool \<Rightarrow> decoder_registry" where
  "demo_registry b = projr (decoder_registry_standard (demo_serde b))"

definition demo_report :: "bool \<Rightarrow> test_run_result" where
  "demo_report b =
     \<lparr>tr_producer = pl_producer (demo_payload b), tr_runner = pl_runner (demo_payload b),
      tr_runtime = pl_runtime (demo_payload b), tr_profile = pl_profile (demo_payload b),
      tr_run_id = pl_run_id (demo_payload b), tr_operation = pl_operation (demo_payload b),
      tr_completed = True, tr_process_outcome = Some (if b then ExitedNonzero else ExitedZero),
      tr_exit_code = Some (if b then 1 else 0),
      tr_language = pl_language (demo_payload b),
      tr_environment_fingerprint = pl_environment_fingerprint (demo_payload b),
      tr_selection = pl_selection (demo_payload b), tr_cases = (demo_cases b), tr_children = [],
      tr_counts = counts_of (demo_cases b) [], tr_errors = [],
      tr_settings = pl_settings (demo_payload b),
      tr_verification_inputs = pl_verification_inputs (demo_payload b),
      tr_artifacts = pl_artifacts (demo_payload b)\<rparr>"

definition demo_evidence :: "bool \<Rightarrow> decoded_evidence" where
  "demo_evidence b =
     \<lparr>envelope = \<lparr>env_event_id = ''e'', env_workspace_id = ''w'', env_session_id = ''s'',
        env_task_id = None, env_occurred_at = 0, env_contract = TestRunResultContract,
        env_version = 1\<rparr>,
      observation = TestRunResult (demo_report b)\<rparr>"

lemma demo_registry_ok: "decoder_registry_standard (demo_serde b) = Inr (demo_registry b)"
  using standard_registry_exists [of "demo_serde b"] by (auto simp: demo_registry_def)

lemma demo_run_texts_ok:
  "list_all identifier_ok [''cortexweave.unittest_capture'', ''1'', ''python.unittest'', ''3.14.7'',
     ''python'', ''cortexweave.unittest.module_or_class'', ''run'', ''test'', ''AssertionError'', ''log'']"
  "list_all text_ok [''suite'', ''adds'', ''subtracts'', ''tests.t'', ''run.log'']"
  "\<not> bad_relative_path ''tests/t.py''" "hex_digest demo_digest"
  by code_simp+

lemma demo_parts:
  "validate_run_header (demo_payload b) = Inr ()" "validate_run_sizes (demo_payload b) = Inr ()"
  "validate_run_cases (demo_payload b) = Inr ()"
  "validate_verification_inputs (pl_verification_inputs (demo_payload b)) = Inr ()"
  "validate_test_artifacts (pl_artifacts (demo_payload b)) = Inr ()"
  "validate_completed (demo_payload b) (pl_counts (demo_payload b)) = Inr ()"
proof -
  note ok = demo_run_texts_ok [simplified]
  note defs = demo_payload_def demo_cases_def demo_case_def demo_identity_def component_def
  show "validate_run_header (demo_payload b) = Inr ()"
    using ok by (simp add: validate_run_header_def validate_test_selection_def
        workspace_relative_root_def component_ok_def result_simps defs)
  show "validate_run_sizes (demo_payload b) = Inr ()"
    by (simp add: validate_run_sizes_def result_simps max_test_cases_def max_test_run_errors_def
        max_test_child_observations_def max_test_verification_inputs_def max_test_artifacts_def defs)
  show "validate_run_cases (demo_payload b) = Inr ()"
    using ok by (simp add: result_simps case_ok_def identity_ok_def outcome_ok_def
        max_test_namespace_components_def defs)
  show "validate_verification_inputs (pl_verification_inputs (demo_payload b)) = Inr ()"
    using ok by (simp add: validate_verification_inputs_def validate_verification_input_def
        result_simps defs)
  show "validate_test_artifacts (pl_artifacts (demo_payload b)) = Inr ()"
    using ok by (simp add: validate_test_artifacts_def validate_test_artifact_def result_simps defs)
  show "validate_completed (demo_payload b) (pl_counts (demo_payload b)) = Inr ()"
    by (simp add: result_simps run_failed_def counts_of_def parents_of_def children_of_def
        no_parents_def no_children_def count_status_def defs)
qed

lemma demo_provenance: "validate_event_provenance demo_event = Inr ()"
  by code_simp

lemma demo_fields:
  "pl_cases (demo_payload b) = (demo_cases b)" "pl_children (demo_payload b) = []" "pl_errors (demo_payload b) = []"
  "pl_completed (demo_payload b)" "pl_exit_code (demo_payload b) = Some (if b then 1 else 0)"
  "pl_counts (demo_payload b) = counts_of (demo_cases b) []"
  by (simp_all add: demo_payload_def)

lemma demo_derived: "derive_test_counts (demo_cases b) [] = Inr (counts_of (demo_cases b) [])"
  by (rule derive_counts_of) (simp_all add: demo_cases_def usize_max_def)

lemma demo_observation: "decode_test_run (demo_serde b) demo_event = Inr (TestRunResult (demo_report b))"
  using demo_parts
  by (simp add: decode_test_run_def parse_payload_def demo_serde_def demo_fields demo_derived
      validate_run_errors_def demo_report_def process_outcome_of_def)

lemma demo_lookup:
  "map_of (demo_registry b) (''cortexweave.test_run_result'', 1) = Some (standard_decoders (demo_serde b) ! 3)"
  using decoders.lookup [OF demo_registry_ok [unfolded decoder_registry_standard_def]]
  by (simp add: standard_decoders_def decoder_key_def)

lemma demo_header: "header (event_payload demo_event) = Inr (''cortexweave.test_run_result'', 1)"
  by code_simp

lemma demo_contract: "contract_from_id ''cortexweave.test_run_result'' = Some TestRunResultContract"
  by (simp add: contract_from_id_iff)

lemma demo_decoded: "decode (demo_registry b) (demo_serde b) demo_event = Inr (Decoded (demo_evidence b))"
proof -
  have size: "to_vec_len (demo_serde b) (event_payload demo_event) = Inr 2048"
    by (simp add: demo_serde_def)
  have "run_decoder (standard_decoders (demo_serde b) ! 3) TestRunResultContract 1 demo_event
      = Inr (Decoded (demo_evidence b))"
    using demo_provenance demo_observation
    by (simp add: run_decoder_def standard_decoders_def demo_evidence_def expect_def demo_event_def)
  then show ?thesis
    by (simp add: decode_def size max_evidence_payload_bytes_def demo_header demo_contract demo_lookup [simplified])
qed

lemma decode_total:
  assumes "decoder_registry_standard sd = Inr reg"
  shows "\<exists>r. decode reg sd event = Inr r"
proof -
  have "\<exists>r. run_decoder d c n event = Inr r" if "map_of reg k = Some d" for d c n k
    using standard_lookup(1) [OF assms that] by (intro run_decoder_no_panic decoders_no_expect)
  then show ?thesis
    by (simp add: decode_def split: sum.split option.split prod.split)
qed

section \<open>Properties\<close>

text \<open>C23. Decoding an event never panics: the standard registry can be built, and whatever the
  event, its payload and the parsers, the two \<open>expect\<close> calls on the decoding path, that of the
  session and that of the exit code of a completed test run, are reached only with a value.\<close>

theorem decode_never_panics:
  "\<exists>reg. decoder_registry_standard sd = Inr reg \<and> (\<forall>event. \<exists>r. decode reg sd event = Inr r)"
  using standard_registry_exists decode_total by blast

text \<open>C24. Evidence gets the meaning its payload declares, and no other: the standard registry
  decodes an event to a piece of evidence exactly when the header names the contract of that
  observation at version 1, the payload is within the size limit and is the observation, field by
  field, the observation meets every validation rule of its decoder (for a test run: those on its
  components, run id, operation, language, environment, selection, cases, children, counts, run
  errors, inputs, artifacts, sizes and exit code), the event has its type and its workspace,
  session and task, and the envelope repeats the event's own identity, workspace, session, task
  and time.\<close>

theorem decoded_evidence_sound:
  assumes "decoder_registry_standard sd = Inr reg"
  shows "decode reg sd event = Inr (Decoded e) \<longleftrightarrow>
     reads_as sd event (observation e) \<and> envelope e = provenance_of event (contract_of (observation e))"
  using decoded_reads_as [OF assms] reads_as_decoded [OF assms] by blast

theorem decoded_evidence_sound_witness:
  "reads_as (demo_serde True) demo_event (TestRunResult (demo_report True))
   \<and> run_ok (demo_report True)
   \<and> envelope (demo_evidence True) = provenance_of demo_event TestRunResultContract"
proof -
  have "observation (demo_evidence True) = TestRunResult (demo_report True)"
    by (simp add: demo_evidence_def)
  with decoded_evidence_sound [OF demo_registry_ok [of True], of demo_event "demo_evidence True"]
    demo_decoded [of True]
  have "reads_as (demo_serde True) demo_event (TestRunResult (demo_report True))
      \<and> envelope (demo_evidence True) = provenance_of demo_event TestRunResultContract"
    by simp
  then show ?thesis by (simp add: reads_as_def)
qed

text \<open>C25. A decoded test run is internally consistent: the parent cases have distinct identities,
  the children refer to those cases with distinct ordinals, the statuses of the parents partition
  the discovered cases and those of the executed ones, exactly the failing statuses carry an error
  class, and a completed run's exit code is zero just when nothing failed.\<close>

theorem decoded_test_run_consistent:
  assumes "decoder_registry_standard sd = Inr reg" and "decode reg sd event = Inr (Decoded e)"
    and "observation e = TestRunResult r"
  shows "distinct (map case_identity (tr_cases r))
    \<and> (\<forall>c \<in> set (tr_children r). child_parent c \<in> case_identity ` set (tr_cases r))
    \<and> distinct (map (\<lambda>c. (child_parent c, child_ordinal c)) (tr_children r))
    \<and> (\<forall>c \<in> set (tr_cases r). requires_error (case_status c) = (case_error_class c \<noteq> None))
    \<and> (let n = parents (tr_counts r) in
        discovered n = length (tr_cases r)
        \<and> discovered n = executed n + p_skipped n + p_todo n + p_pending n
        \<and> executed n = p_passed n + p_assertion_failed n + p_errored n + p_expected_failed n
                       + p_unexpected_successful n
        \<and> p_assertion_failed n
            = length (filter (\<lambda>c. case_status c = AssertionFailed) (tr_cases r)))
    \<and> (tr_completed r \<longrightarrow> (\<exists>x. tr_exit_code r = Some x
        \<and> (x = 0) = (\<not> run_failed (tr_counts r) (tr_errors r))))"
proof -
  have ok: "run_ok r"
    using decoded_evidence_ok [OF assms(1,2)] assms(3) by simp
  have counts: "parents (tr_counts r)
      = parents_of (no_parents\<lparr>discovered := length (tr_cases r)\<rparr>) (map case_status (tr_cases r))"
    using ok by (simp add: run_ok_def counts_of_def)
  define n where "n = parents (tr_counts r)"
  have "discovered n = length (tr_cases r)"
    "discovered n = executed n + p_skipped n + p_todo n + p_pending n"
    "executed n = p_passed n + p_assertion_failed n + p_errored n + p_expected_failed n
       + p_unexpected_successful n"
    "p_assertion_failed n = length (filter (\<lambda>c. case_status c = AssertionFailed) (tr_cases r))"
    using status_partition [of "map case_status (tr_cases r)"]
      executed_partition [of "map case_status (tr_cases r)"]
    by (simp_all add: n_def counts parents_of_def no_parents_def count_status_def filter_map comp_def)
  moreover have "distinct (map case_identity (tr_cases r))"
    "distinct (map (\<lambda>c. (child_parent c, child_ordinal c)) (tr_children r))"
    "\<forall>c \<in> set (tr_children r). child_parent c \<in> case_identity ` set (tr_cases r)"
    "\<forall>c \<in> set (tr_cases r). requires_error (case_status c) = (case_error_class c \<noteq> None)"
    "tr_completed r \<longrightarrow> (\<exists>x. tr_exit_code r = Some x
        \<and> (x = 0) = (\<not> run_failed (tr_counts r) (tr_errors r)))"
    using ok unfolding run_ok_def list_all_iff child_ok_def case_ok_def outcome_ok_def by blast+
  ultimately show ?thesis
    unfolding n_def [symmetric] Let_def by blast
qed

theorem decoded_test_run_consistent_witness:
  "distinct (map case_identity (demo_cases True))
   \<and> p_assertion_failed (parents (counts_of (demo_cases True) [])) = 1
   \<and> run_failed (counts_of (demo_cases True) []) []"
proof -
  have "observation (demo_evidence True) = TestRunResult (demo_report True)"
    by (simp add: demo_evidence_def)
  from decoded_test_run_consistent [OF demo_registry_ok [of True] demo_decoded [of True] this] show ?thesis
    by (simp add: demo_report_def Let_def) (simp add: demo_cases_def demo_case_def)
qed

text \<open>Counting: on any case and child lists that fit in memory the checked increments do not
  overflow, and the derived counts are the numbers of cases and children with each status.\<close>

theorem derived_counts_reference:
  assumes "length cases \<le> usize_max" and "length children \<le> usize_max"
  shows "derive_test_counts cases children = Inr (counts_of cases children)"
  using assms by (rule derive_counts_of)

theorem derived_counts_reference_witness:
  "derive_test_counts (demo_cases True) [] = Inr (counts_of (demo_cases True) [])
   \<and> executed (parents (counts_of (demo_cases True) [])) = 2"
  using derived_counts_reference [of "demo_cases True" "[]"]
  by (simp add: demo_cases_def usize_max_def) (simp add: counts_of_def parents_of_def
      no_parents_def demo_case_def)

text \<open>The order in which decoders are registered has no effect: any reordering of a list of
  decoders builds the same registry, so it decodes every event alike, and a list is rejected in
  one order exactly when it is rejected in every order.\<close>

theorem decoder_order_irrelevant:
  assumes "mset ds' = mset ds"
  shows "decoder_registry_new ds' = Inr reg \<longleftrightarrow> decoder_registry_new ds = Inr reg"
  using assms by (rule decoders.order_irrelevant)

theorem decoder_order_irrelevant_witness:
  "decoder_registry_new (rev (standard_decoders (demo_serde True))) = Inr (demo_registry True)"
  using decoder_order_irrelevant [of "rev (standard_decoders (demo_serde True))" "standard_decoders (demo_serde True)"]
    demo_registry_ok [of True] by (simp add: decoder_registry_standard_def)

lemma decoder_duplicates_rejected:
  "\<not> distinct (map decoder_key ds) \<Longrightarrow> \<exists>e. decoder_registry_new ds = Inl e"
  by (rule decoders.duplicate_rejected)

end
