(* ===== verification/Codec.thy ===== *)
theory Codec
  imports Prelude
begin

text \<open>
  Length-delimited text encodings.  Two places of the program write \<open>len:bytes\<close> into an identity
  string: the fields of a failure signature and the components of a test namespace.  The
  interface is a code that can be read back from the front of any string; lists of such codes
  are then unambiguous.
\<close>

section \<open>Self-delimiting codes\<close>

locale self_delimiting =
  fixes enc :: "'a \<Rightarrow> string" and valid :: "'a \<Rightarrow> bool"
  assumes enc_append_inject:
    "valid a \<Longrightarrow> valid b \<Longrightarrow> enc a @ r = enc b @ s \<Longrightarrow> a = b \<and> r = s"
    and enc_nonempty: "enc a \<noteq> []"
begin

lemma enc_inject: "valid a \<Longrightarrow> valid b \<Longrightarrow> enc a = enc b \<longleftrightarrow> a = b"
  using enc_append_inject [of a b "[]" "[]"] by auto

text \<open>Lists of codes of equal length cannot be confused, whatever follows them.\<close>

lemma concat_append_inject:
  assumes "list_all valid xs" and "list_all valid ys" and "length xs = length ys"
    and "concat (map enc xs) @ r = concat (map enc ys) @ s"
  shows "xs = ys \<and> r = s"
  using assms(3,1,2,4)
proof (induction xs ys rule: list_induct2)
  case (Cons x xs y ys)
  then show ?case
    using enc_append_inject [of x y "concat (map enc xs) @ r" "concat (map enc ys) @ s"] by auto
qed simp

text \<open>At the end of the string, lists of any lengths cannot be confused.\<close>

lemma concat_inject:
  assumes "list_all valid xs" and "list_all valid ys"
    and "concat (map enc xs) = concat (map enc ys)"
  shows "xs = ys"
  using assms
proof (induction xs arbitrary: ys)
  case Nil
  then show ?case using enc_nonempty by (cases ys) auto
next
  case (Cons x xs)
  from Cons.prems(3) enc_nonempty [of x] obtain y zs where ys: "ys = y # zs"
    by (cases ys) auto
  have heads: "valid x" "valid y" "enc x @ concat (map enc xs) = enc y @ concat (map enc zs)"
    using Cons.prems ys by simp_all
  from enc_append_inject [OF heads] show ?case
    using Cons.IH [of zs] Cons.prems ys by simp
qed

end

section \<open>Reading up to a delimiter\<close>

lemma until_inject:
  assumes "c \<notin> set a" and "c \<notin> set b" and "a @ c # r = b @ c # s"
  shows "a = b \<and> r = s"
  using assms
proof (induction a arbitrary: b)
  case Nil
  then show ?case by (cases b) auto
next
  case (Cons x a)
  then show ?case by (cases b) auto
qed

lemma append_same_length: "length a = length b \<Longrightarrow> a @ r = b @ s \<Longrightarrow> a = b \<and> r = s"
  by simp

lemma not_in_digits: "\<not> is_ascii_digit c \<Longrightarrow> c \<notin> set (digits n)"
  using digits_are_digits by blast

lemma delimiters_not_digits [simp]: "\<not> is_ascii_digit CHR '':''" "\<not> is_ascii_digit CHR ''=''"
  by (simp_all add: is_ascii_digit_def)

section \<open>The length-prefixed value\<close>

text \<open>\<open>len:value\<close>, the shape \<open>encode_test_namespace\<close> writes for each component.\<close>

definition length_prefixed :: "string \<Rightarrow> string" where
  "length_prefixed v = digits (length v) @ '':'' @ v"

lemma length_prefixed_inject:
  assumes "length_prefixed v @ r = length_prefixed w @ s"
  shows "v = w \<and> r = s"
proof -
  have "digits (length v) @ CHR '':'' # (v @ r) = digits (length w) @ CHR '':'' # (w @ s)"
    using assms by (simp add: length_prefixed_def)
  then have "digits (length v) = digits (length w) \<and> v @ r = w @ s"
    by (rule until_inject [rotated 2]) (simp_all add: not_in_digits)
  then show ?thesis by (metis digits_inject append_same_length)
qed

interpretation value_code: self_delimiting length_prefixed "\<lambda>_. True"
proof
  show "a = b \<and> r = s" if "length_prefixed a @ r = length_prefixed b @ s" for a b r s
    using that by (rule length_prefixed_inject)
  show "length_prefixed a \<noteq> []" for a
    by (simp add: length_prefixed_def)
qed

section \<open>Named fields\<close>

text \<open>\<open>append_field\<close> of \<open>src/domain/failure.rs\<close>: \<open>name=len:value;\<close>.\<close>

definition field_text :: "string \<times> string \<Rightarrow> string" where
  "field_text nv = fst nv @ ''='' @ digits (length (snd nv)) @ '':'' @ snd nv @ '';''"

definition plain_name :: "string \<times> string \<Rightarrow> bool" where
  "plain_name nv \<longleftrightarrow> CHR ''='' \<notin> set (fst nv)"

lemma field_text_inject:
  assumes "plain_name a" and "plain_name b" and "field_text a @ r = field_text b @ s"
  shows "a = b \<and> r = s"
proof -
  have shape: "field_text x @ t = fst x @ CHR ''='' # (length_prefixed (snd x) @ CHR '';'' # t)" for x t
    by (simp add: field_text_def length_prefixed_def)
  have "fst a = fst b \<and>
      length_prefixed (snd a) @ CHR '';'' # r = length_prefixed (snd b) @ CHR '';'' # s"
    using assms unfolding shape plain_name_def by (intro until_inject)
  then show ?thesis
    using length_prefixed_inject [of "snd a" "CHR '';'' # r" "snd b" "CHR '';'' # s"]
    by (auto simp: prod_eq_iff)
qed

interpretation field_code: self_delimiting field_text plain_name
proof
  show "a = b \<and> r = s"
    if "plain_name a" "plain_name b" "field_text a @ r = field_text b @ s" for a b r s
    using that by (rule field_text_inject)
  show "field_text a \<noteq> []" for a
    by (simp add: field_text_def)
qed

end
