(* ===== verification/FailureSignature.thy ===== *)
theory FailureSignature
  imports Codec EvidenceDomain
begin

text \<open>
  Failure identities: \<open>src/domain/failure.rs\<close>.  A signature is built only by
  \<open>signature_new\<close> (\<open>FailureSignature::new\<close>), which validates every field, writes the canonical
  encoding and hashes it.  The BLAKE3 hash is a parameter.  The property of interest is that the
  encoding loses nothing: two signatures with one encoding are the same signature.
\<close>

section \<open>Data\<close>

definition failure_signature_encoding_version :: nat where
  "failure_signature_encoding_version = 2"

definition max_failure_components :: nat where "max_failure_components = 16"

definition max_failure_component_bytes :: nat where "max_failure_component_bytes = 512"

datatype failure_domain = RustCompilerDomain | CargoTestDomain | TestRunDomain | RegisteredToolDomain

fun domain_as_str :: "failure_domain \<Rightarrow> string" where
  "domain_as_str RustCompilerDomain = ''rust_compiler''"
| "domain_as_str CargoTestDomain = ''cargo_test''"
| "domain_as_str TestRunDomain = ''test_run''"
| "domain_as_str RegisteredToolDomain = ''registered_tool''"

datatype failure_identity_capability = Exact | CompatibleOnly

fun capability_as_str :: "failure_identity_capability \<Rightarrow> string" where
  "capability_as_str Exact = ''exact''"
| "capability_as_str CompatibleOnly = ''compatible_only''"

record failure_scope =
  fs_workspace_id :: string
  fs_language :: "string option"
  fs_tool :: string
  fs_target :: "string option"
  fs_path :: "string option"
  fs_symbol_key :: "string option"

record failure_signature =
  sig_domain :: failure_domain
  identity_capability :: failure_identity_capability
  sig_components :: "(string \<times> string) list"
  normalizer_id :: string
  normalizer_version :: string
  sig_scope :: failure_scope
  encoding_version :: nat
  sig_canonical_encoding :: string
  normalized_key :: string

definition is_exact_capable :: "failure_signature \<Rightarrow> bool" where
  "is_exact_capable s \<longleftrightarrow> identity_capability s = Exact"

section \<open>Validation\<close>

definition bounded_text :: "string \<Rightarrow> bool" where
  "bounded_text v \<longleftrightarrow> \<not> blank v \<and> length v \<le> max_failure_component_bytes \<and> nul \<notin> set v"

definition bounded_message :: "string \<Rightarrow> string" where
  "bounded_message label = label @ '' must be non-empty, contain no NUL, and be at most ''
     @ digits max_failure_component_bytes @ '' bytes''"

definition validate_identifier :: "string \<Rightarrow> string \<Rightarrow> cortex_error + unit" where
  "validate_identifier v label =
     (if blank v \<or> max_failure_component_bytes < length v \<or> nul \<in> set v
      then Inl (AnalysisErr (bounded_message label)) else Inr ())"

definition validate_component :: "string \<Rightarrow> string \<Rightarrow> cortex_error + unit" where
  "validate_component v label =
     (if blank v \<or> max_failure_component_bytes < length v \<or> nul \<in> set v
      then Inl (AnalysisErr (bounded_message label)) else Inr ())"

definition unsafe_path :: "string \<Rightarrow> bool" where
  "unsafe_path p \<longleftrightarrow>
     blank p \<or> max_failure_component_bytes < length p \<or> nul \<in> set p
     \<or> starts_with p ''/'' \<or> starts_with p [CHR 0x5C] \<or> CHR '':'' \<in> set p
     \<or> (\<exists>part \<in> set (split_on CHR ''/'' p). part = [] \<or> part = ''..'')"

definition validate_workspace_relative_path :: "string \<Rightarrow> cortex_error + unit" where
  "validate_workspace_relative_path p =
     (if unsafe_path p
      then Inl (AnalysisErr ''failure signature paths must be bounded workspace-relative paths'')
      else Inr ())"

definition validate_scope :: "failure_scope \<Rightarrow> cortex_error + unit" where
  "validate_scope s =
     and_then (validate_identifier (fs_workspace_id s) ''workspace ID'') (\<lambda>_.
     and_then (validate_identifier (fs_tool s) ''tool'') (\<lambda>_.
     and_then (try_each
         (\<lambda>(label, value). case value of None \<Rightarrow> Inr () | Some v \<Rightarrow> validate_component v label)
         [(''language'', fs_language s), (''target'', fs_target s),
          (''symbol key'', fs_symbol_key s)]) (\<lambda>_.
     case fs_path s of None \<Rightarrow> Inr () | Some p \<Rightarrow> validate_workspace_relative_path p)))"

definition component_name :: "string \<Rightarrow> bool" where
  "component_name n \<longleftrightarrow>
     list_all (\<lambda>c. is_ascii_lowercase c \<or> is_ascii_digit c \<or> c = CHR ''_'') n"

definition validate_components :: "(string \<times> string) list \<Rightarrow> cortex_error + unit" where
  "validate_components cs =
     and_then (if cs = [] \<or> max_failure_components < length cs
       then Inl (AnalysisErr (''failure signatures require between 1 and ''
              @ digits max_failure_components @ '' components'')) else Inr ()) (\<lambda>_.
     try_each (\<lambda>(name, value).
       if \<not> component_name name
       then Inl (AnalysisErr
         ''failure component names use lowercase ASCII letters, digits, and underscores'')
       else validate_component value ''failure component'') cs)"

section \<open>The canonical encoding\<close>

definition append_field :: "string \<Rightarrow> string \<Rightarrow> string \<Rightarrow> string" where
  "append_field encoded name value =
     encoded @ name @ ''='' @ digits (length value) @ '':'' @ value @ '';''"

definition append_optional_field :: "string \<Rightarrow> string \<Rightarrow> string option \<Rightarrow> string" where
  "append_optional_field encoded name value =
     (case value of Some v \<Rightarrow> append_field encoded name v | None \<Rightarrow> append_field encoded name '''')"

definition canonical_encoding :: "failure_domain \<Rightarrow> failure_identity_capability
    \<Rightarrow> (string \<times> string) list \<Rightarrow> string \<Rightarrow> string \<Rightarrow> failure_scope \<Rightarrow> string" where
  "canonical_encoding d cap components nid nver sc =
     (let e = ''cortexweave.failure_signature.v'' @ digits failure_signature_encoding_version @ '';'';
          e = append_field e ''domain'' (domain_as_str d);
          e = append_field e ''identity_capability'' (capability_as_str cap);
          e = append_field e ''normalizer_id'' nid;
          e = append_field e ''normalizer_version'' nver;
          e = append_field e ''workspace_id'' (fs_workspace_id sc);
          e = append_optional_field e ''language'' (fs_language sc);
          e = append_field e ''tool'' (fs_tool sc);
          e = append_optional_field e ''target'' (fs_target sc);
          e = append_optional_field e ''path'' (fs_path sc);
          e = append_optional_field e ''symbol_key'' (fs_symbol_key sc)
      in foldl (\<lambda>e (name, value). append_field e (''component.'' @ name) value) e components)"

definition signature_key_input :: "string \<Rightarrow> string" where
  "signature_key_input encoding = ''cortexweave.failure_signature.key.v2'' @ [nul] @ encoding"

definition signature_new :: "(string \<Rightarrow> string) \<Rightarrow> failure_domain \<Rightarrow> failure_identity_capability
    \<Rightarrow> (string \<times> string) list \<Rightarrow> string \<Rightarrow> string \<Rightarrow> failure_scope
    \<Rightarrow> cortex_error + failure_signature" where
  "signature_new blake3 d cap components nid nver sc =
     and_then (validate_identifier nid ''normalizer ID'') (\<lambda>_.
     and_then (validate_identifier nver ''normalizer version'') (\<lambda>_.
     and_then (validate_scope sc) (\<lambda>_.
     and_then (validate_components components) (\<lambda>_.
     let encoding = canonical_encoding d cap components nid nver sc
     in Inr \<lparr>sig_domain = d, identity_capability = cap, sig_components = components,
             normalizer_id = nid, normalizer_version = nver, sig_scope = sc,
             encoding_version = failure_signature_encoding_version,
             sig_canonical_encoding = encoding,
             normalized_key = blake3 (signature_key_input encoding)\<rparr>))))"

section \<open>Verifier rules\<close>

record verifier_rule =
  vr_id :: string
  vr_version :: string
  vr_evidence_contract :: evidence_contract
  vr_declared_verifier_id :: string
  vr_declared_verifier_version :: string
  vr_required_tool :: string
  vr_required_operation :: string
  vr_language :: "string option"
  vr_allowed_subject_kinds :: "subject_kind list"

definition cargo_check_v1 :: verifier_rule where
  "cargo_check_v1 =
     \<lparr>vr_id = ''cortexweave.cargo_check'', vr_version = ''1'',
      vr_evidence_contract = GenericVerifierResultContract,
      vr_declared_verifier_id = ''cargo.check'', vr_declared_verifier_version = ''1'',
      vr_required_tool = ''cargo'', vr_required_operation = ''check'',
      vr_language = Some ''rust'',
      vr_allowed_subject_kinds = [WorkspaceSubject, PackageSubject, TargetSubject]\<rparr>"

definition validate_rule :: "verifier_rule \<Rightarrow> cortex_error + unit" where
  "validate_rule r =
     and_then (try_each (\<lambda>(label, value). validate_identifier value label)
       [(''verifier rule ID'', vr_id r), (''verifier rule version'', vr_version r),
        (''declared verifier ID'', vr_declared_verifier_id r),
        (''declared verifier version'', vr_declared_verifier_version r),
        (''required tool'', vr_required_tool r),
        (''required operation'', vr_required_operation r)]) (\<lambda>_.
     if vr_evidence_contract r \<noteq> GenericVerifierResultContract
     then Inl (ConfigurationErr ''v1 verifier rules support generic verifier evidence only'')
     else if (case vr_language r of None \<Rightarrow> False
              | Some v \<Rightarrow> blank v \<or> max_failure_component_bytes < length v)
     then Inl (ConfigurationErr
       ''verifier-rule language must be a bounded non-empty value when present'')
     else if vr_allowed_subject_kinds r = []
     then Inl (ConfigurationErr ''verifier rules require at least one subject kind'')
     else Inr ())"

section \<open>What validation establishes\<close>

definition valid_scope :: "failure_scope \<Rightarrow> bool" where
  "valid_scope s \<longleftrightarrow>
     bounded_text (fs_workspace_id s) \<and> bounded_text (fs_tool s)
     \<and> pred_option bounded_text (fs_language s) \<and> pred_option bounded_text (fs_target s)
     \<and> pred_option bounded_text (fs_symbol_key s)
     \<and> pred_option (\<lambda>p. \<not> unsafe_path p) (fs_path s)"

definition valid_components :: "(string \<times> string) list \<Rightarrow> bool" where
  "valid_components cs \<longleftrightarrow>
     cs \<noteq> [] \<and> length cs \<le> max_failure_components
     \<and> list_all (\<lambda>(n, v). component_name n \<and> bounded_text v) cs"

lemma validate_identifier_Inr [result_simps]:
  "validate_identifier v l = Inr u \<longleftrightarrow> bounded_text v"
  by (auto simp: validate_identifier_def bounded_text_def)

lemma validate_component_Inr [result_simps]:
  "validate_component v l = Inr u \<longleftrightarrow> bounded_text v"
  by (auto simp: validate_component_def bounded_text_def)

lemma validate_path_Inr [result_simps]:
  "validate_workspace_relative_path p = Inr u \<longleftrightarrow> \<not> unsafe_path p"
  by (simp add: validate_workspace_relative_path_def)

lemma optional_component_Inr [result_simps]:
  "(case v of None \<Rightarrow> Inr () | Some x \<Rightarrow> validate_component x l) = Inr u
   \<longleftrightarrow> pred_option bounded_text v"
  by (cases v) (simp_all add: result_simps)

lemma optional_path_Inr [result_simps]:
  "(case v of None \<Rightarrow> Inr () | Some x \<Rightarrow> validate_workspace_relative_path x) = Inr u
   \<longleftrightarrow> pred_option (\<lambda>p. \<not> unsafe_path p) v"
  by (cases v) (simp_all add: result_simps)

lemma validate_scope_Inr [result_simps]: "validate_scope s = Inr u \<longleftrightarrow> valid_scope s"
  by (auto simp: validate_scope_def valid_scope_def result_simps)

lemma validate_components_Inr [result_simps]:
  "validate_components cs = Inr u \<longleftrightarrow> valid_components cs"
  by (auto simp: validate_components_def valid_components_def result_simps list_all_iff
      split: if_splits prod.splits)

lemma validate_identifier_Inl [result_simps]:
  "validate_identifier v l = Inl e \<longleftrightarrow> \<not> bounded_text v \<and> e = AnalysisErr (bounded_message l)"
  by (auto simp: validate_identifier_def bounded_text_def)

lemma validate_rule_Inr [result_simps]:
  "validate_rule r = Inr u \<longleftrightarrow>
     list_all bounded_text [vr_id r, vr_version r, vr_declared_verifier_id r,
       vr_declared_verifier_version r, vr_required_tool r, vr_required_operation r]
     \<and> vr_evidence_contract r = GenericVerifierResultContract
     \<and> pred_option (\<lambda>v. \<not> blank v \<and> length v \<le> max_failure_component_bytes) (vr_language r)
     \<and> vr_allowed_subject_kinds r \<noteq> []"
  by (auto simp: validate_rule_def result_simps split: option.splits if_splits)

section \<open>The encoding is injective\<close>

definition optional_text :: "string option \<Rightarrow> string" where
  "optional_text v = (case v of Some x \<Rightarrow> x | None \<Rightarrow> '''')"

definition canonical_fields :: "failure_domain \<Rightarrow> failure_identity_capability
    \<Rightarrow> (string \<times> string) list \<Rightarrow> string \<Rightarrow> string \<Rightarrow> failure_scope \<Rightarrow> (string \<times> string) list" where
  "canonical_fields d cap components nid nver sc =
     [(''domain'', domain_as_str d), (''identity_capability'', capability_as_str cap),
      (''normalizer_id'', nid), (''normalizer_version'', nver),
      (''workspace_id'', fs_workspace_id sc), (''language'', optional_text (fs_language sc)),
      (''tool'', fs_tool sc), (''target'', optional_text (fs_target sc)),
      (''path'', optional_text (fs_path sc)),
      (''symbol_key'', optional_text (fs_symbol_key sc))]
     @ map (\<lambda>(n, v). (''component.'' @ n, v)) components"

lemma append_field_text: "append_field e n v = e @ field_text (n, v)"
  by (simp add: append_field_def field_text_def)

lemma append_optional_field_text:
  "append_optional_field e n v = e @ field_text (n, optional_text v)"
  by (cases v) (simp_all add: append_optional_field_def optional_text_def append_field_text)

lemma foldl_append_fields:
  "foldl (\<lambda>e (n, v). append_field e (p @ n) v) e cs
   = e @ concat (map field_text (map (\<lambda>(n, v). (p @ n, v)) cs))"
  by (induction cs arbitrary: e) (auto simp: append_field_text)

lemma canonical_encoding_fields:
  "canonical_encoding d cap cs nid nver sc =
     (''cortexweave.failure_signature.v'' @ digits failure_signature_encoding_version @ '';'')
     @ concat (map field_text (canonical_fields d cap cs nid nver sc))"
  unfolding canonical_encoding_def Let_def append_field_text append_optional_field_text
    foldl_append_fields canonical_fields_def
  by simp

lemma component_name_plain:
  assumes "component_name n"
  shows "CHR ''='' \<notin> set n"
proof
  assume "CHR ''='' \<in> set n"
  with assms have "is_ascii_lowercase CHR ''='' \<or> is_ascii_digit CHR ''='' \<or> CHR ''='' = CHR ''_''"
    unfolding component_name_def list_all_iff by blast
  then show False by (simp add: is_ascii_lowercase_def is_ascii_digit_def)
qed

lemma canonical_fields_plain:
  "valid_components cs \<Longrightarrow> list_all plain_name (canonical_fields d cap cs nid nver sc)"
  by (auto simp: canonical_fields_def plain_name_def valid_components_def list_all_iff
      component_name_plain)

lemma bounded_text_nonempty: "bounded_text v \<Longrightarrow> v \<noteq> []"
  by (auto simp: bounded_text_def)

lemma safe_path_nonempty: "\<not> unsafe_path p \<Longrightarrow> p \<noteq> []"
  unfolding unsafe_path_def by (metis blank_Nil)

lemma optional_text_inject:
  assumes "pred_option (\<lambda>x. x \<noteq> []) v" and "pred_option (\<lambda>x. x \<noteq> []) w"
    and "optional_text v = optional_text w"
  shows "v = w"
  using assms by (cases v; cases w) (auto simp: optional_text_def)

lemma domain_as_str_inject [simp]: "domain_as_str a = domain_as_str b \<longleftrightarrow> a = b"
  by (cases a; cases b) simp_all

lemma capability_as_str_inject [simp]: "capability_as_str a = capability_as_str b \<longleftrightarrow> a = b"
  by (cases a; cases b) simp_all

lemma valid_scope_nonempty:
  assumes "valid_scope s"
  shows "pred_option (\<lambda>x. x \<noteq> []) (fs_language s)" "pred_option (\<lambda>x. x \<noteq> []) (fs_target s)"
    "pred_option (\<lambda>x. x \<noteq> []) (fs_path s)" "pred_option (\<lambda>x. x \<noteq> []) (fs_symbol_key s)"
  using assms unfolding valid_scope_def
  by (auto elim!: option.pred_mono_strong dest: bounded_text_nonempty safe_path_nonempty)

lemma map_prefixed_inject:
  "map (\<lambda>(n, v). (p @ n, v)) xs = map (\<lambda>(n, v). (p @ n, v)) ys \<longleftrightarrow> xs = ys"
  by (rule inj_map_eq_map) (auto intro!: injI)

lemma canonical_fields_inject:
  assumes "valid_scope sc" and "valid_scope sc'"
    and "canonical_fields d cap cs nid nver sc = canonical_fields d' cap' cs' nid' nver' sc'"
  shows "d = d' \<and> cap = cap' \<and> cs = cs' \<and> nid = nid' \<and> nver = nver' \<and> sc = sc'"
proof -
  have same: "d = d'" "cap = cap'" "nid = nid'" "nver = nver'" "cs = cs'"
    "fs_workspace_id sc = fs_workspace_id sc'" "fs_tool sc = fs_tool sc'"
    "optional_text (fs_language sc) = optional_text (fs_language sc')"
    "optional_text (fs_target sc) = optional_text (fs_target sc')"
    "optional_text (fs_path sc) = optional_text (fs_path sc')"
    "optional_text (fs_symbol_key sc) = optional_text (fs_symbol_key sc')"
    using assms(3)
    by (simp_all add: canonical_fields_def map_prefixed_inject [of "''component.''", simplified])
  note ne = valid_scope_nonempty [OF assms(1)] valid_scope_nonempty [OF assms(2)]
  have "sc = sc'"
    using same(6-7) optional_text_inject [OF ne(1) ne(5) same(8)]
      optional_text_inject [OF ne(2) ne(6) same(9)] optional_text_inject [OF ne(3) ne(7) same(10)]
      optional_text_inject [OF ne(4) ne(8) same(11)]
    by simp
  with same show ?thesis by simp
qed

text \<open>What a signature that was built looks like.\<close>

definition well_formed_signature :: "failure_signature \<Rightarrow> bool" where
  "well_formed_signature s \<longleftrightarrow>
     bounded_text (normalizer_id s) \<and> bounded_text (normalizer_version s)
     \<and> valid_scope (sig_scope s) \<and> valid_components (sig_components s)
     \<and> encoding_version s = failure_signature_encoding_version
     \<and> sig_canonical_encoding s =
         canonical_encoding (sig_domain s) (identity_capability s) (sig_components s)
           (normalizer_id s) (normalizer_version s) (sig_scope s)"

lemma signature_new_Inr:
  "signature_new blake3 d cap cs nid nver sc = Inr s \<longleftrightarrow>
     well_formed_signature s
     \<and> normalized_key s = blake3 (signature_key_input (sig_canonical_encoding s))
     \<and> sig_domain s = d \<and> identity_capability s = cap \<and> sig_components s = cs
     \<and> normalizer_id s = nid \<and> normalizer_version s = nver \<and> sig_scope s = sc"
  by (auto simp: signature_new_def well_formed_signature_def result_simps Let_def)

lemma signature_new_accepts:
  assumes "bounded_text nid" and "bounded_text nver" and "valid_scope sc" and "valid_components cs"
  shows "\<exists>s. signature_new blake3 d cap cs nid nver sc = Inr s"
  using assms by (auto simp: signature_new_def result_simps Let_def)

lemma well_formed_encoding_inject:
  assumes "well_formed_signature s" and "well_formed_signature t"
    and "sig_canonical_encoding s = sig_canonical_encoding t"
  shows "sig_domain s = sig_domain t \<and> identity_capability s = identity_capability t
    \<and> sig_components s = sig_components t \<and> normalizer_id s = normalizer_id t
    \<and> normalizer_version s = normalizer_version t \<and> sig_scope s = sig_scope t
    \<and> encoding_version s = encoding_version t"
proof -
  let ?f = "\<lambda>x. canonical_fields (sig_domain x) (identity_capability x) (sig_components x)
    (normalizer_id x) (normalizer_version x) (sig_scope x)"
  have "concat (map field_text (?f s)) = concat (map field_text (?f t))"
    using assms by (simp add: well_formed_signature_def canonical_encoding_fields)
  then have "?f s = ?f t"
    using assms(1,2)
    by (intro field_code.concat_inject) (auto simp: well_formed_signature_def canonical_fields_plain)
  then show ?thesis
    using assms canonical_fields_inject [of "sig_scope s" "sig_scope t"]
    by (auto simp: well_formed_signature_def)
qed

lemma signature_new_determines:
  assumes "signature_new blake3 d cap cs nid nver sc = Inr s"
    and "signature_new blake3 d' cap' cs' nid' nver' sc' = Inr t"
    and "sig_canonical_encoding s = sig_canonical_encoding t"
  shows "d = d' \<and> cap = cap' \<and> cs = cs' \<and> nid = nid' \<and> nver = nver' \<and> sc = sc'"
  using well_formed_encoding_inject [of s t] assms by (auto simp: signature_new_Inr)

lemma signature_key_input_inject [simp]:
  "signature_key_input a = signature_key_input b \<longleftrightarrow> a = b"
  by (simp add: signature_key_input_def)


section \<open>Properties\<close>

definition demo_hash :: "string \<Rightarrow> string" where
  "demo_hash s = ''00''"

definition demo_scope :: failure_scope where
  "demo_scope =
     \<lparr>fs_workspace_id = ''w'', fs_language = Some ''rust'', fs_tool = ''rustc'',
      fs_target = Some ''core'', fs_path = Some ''src/lib.rs'', fs_symbol_key = None\<rparr>"

definition demo_signature :: "(string \<times> string) list \<Rightarrow> cortex_error + failure_signature" where
  "demo_signature cs = signature_new demo_hash RustCompilerDomain CompatibleOnly
     (btree_of cs) ''n'' ''2'' demo_scope"

definition demo_built :: "(string \<times> string) list \<Rightarrow> failure_signature" where
  "demo_built cs = projr (demo_signature cs)"

definition demo_cs :: "string \<Rightarrow> (string \<times> string) list" where
  "demo_cs v = [(''code'', v), (''subject'', ''core'')]"

lemma demo_same_components: "btree_of (rev (demo_cs ''E0001'')) = btree_of (demo_cs ''E0001'')"
  "btree_of (demo_cs ''E0001'') = demo_cs ''E0001''" "btree_of (demo_cs ''E0002'') = demo_cs ''E0002''"
  by code_simp+

lemma demo_signature_texts_ok:
  "list_all bounded_text [''n'', ''2'', ''w'', ''rust'', ''rustc'', ''core'', ''E0001'', ''E0002'']"
  "\<not> unsafe_path ''src/lib.rs''" "list_all component_name [''code'', ''subject'']"
  by code_simp+

lemma demo_accepted:
  "v \<in> {''E0001'', ''E0002''} \<Longrightarrow> \<exists>s. signature_new demo_hash RustCompilerDomain CompatibleOnly
     (demo_cs v) ''n'' ''2'' demo_scope = Inr s"
  by (rule signature_new_accepts) (use demo_signature_texts_ok in \<open>auto simp: valid_scope_def demo_scope_def
      valid_components_def demo_cs_def max_failure_components_def\<close>)

lemma demo_valid: "\<not> isl (demo_signature (demo_cs ''E0001''))"
  "\<not> isl (demo_signature (demo_cs ''E0002''))"
  using demo_accepted [of "''E0001''"] demo_accepted [of "''E0002''"]
  by (auto simp: demo_signature_def demo_same_components)

lemma demo_built_rev: "demo_signature (rev (demo_cs ''E0001'')) = demo_signature (demo_cs ''E0001'')"
  by (simp add: demo_signature_def demo_same_components)

lemma demo_signature_ok:
  "signature_new demo_hash RustCompilerDomain CompatibleOnly (btree_of (demo_cs ''E0001''))
     ''n'' ''2'' demo_scope = Inr (demo_built (demo_cs ''E0001''))"
  "signature_new demo_hash RustCompilerDomain CompatibleOnly (btree_of (demo_cs ''E0002''))
     ''n'' ''2'' demo_scope = Inr (demo_built (demo_cs ''E0002''))"
  "signature_new demo_hash RustCompilerDomain CompatibleOnly (btree_of (rev (demo_cs ''E0001'')))
     ''n'' ''2'' demo_scope = Inr (demo_built (rev (demo_cs ''E0001'')))"
  using demo_valid demo_built_rev unfolding demo_built_def demo_signature_def [symmetric]
  by (simp_all add: sum.collapse)

text \<open>C26. The canonical encoding of a failure signature identifies it: two signatures built
  by \<open>FailureSignature::new\<close> with one hash function that have the same canonical encoding are
  equal in every field, although the encoding writes an absent optional field as the empty
  string and concatenates a variable number of components.\<close>

theorem signature_encoding_injective:
  assumes "signature_new blake3 d cap cs nid nver sc = Inr s"
    and "signature_new blake3 d' cap' cs' nid' nver' sc' = Inr t"
    and "sig_canonical_encoding s = sig_canonical_encoding t"
  shows "s = t"
proof -
  have wf: "well_formed_signature s" "well_formed_signature t"
    and keys: "normalized_key s = normalized_key t"
    using assms by (auto simp: signature_new_Inr)
  show ?thesis
    using well_formed_encoding_inject [OF wf assms(3)] keys assms(3) by simp
qed

theorem signature_encoding_injective_witness:
  "demo_built (rev (demo_cs ''E0001'')) = demo_built (demo_cs ''E0001'')"
  by (rule signature_encoding_injective [OF demo_signature_ok(3) demo_signature_ok(1)])
    (simp add: demo_built_def demo_built_rev)

text \<open>The normalized key compares failures up to a collision of the hash: two signatures
  with the same key are the same signature, or else their two distinct canonical encodings,
  behind the domain-separation prefix, are a collision of the hash function.\<close>

theorem normalized_key_identifies:
  assumes "signature_new blake3 d cap cs nid nver sc = Inr s"
    and "signature_new blake3 d' cap' cs' nid' nver' sc' = Inr t"
    and "normalized_key s = normalized_key t"
  shows "s = t \<or> (signature_key_input (sig_canonical_encoding s)
                    \<noteq> signature_key_input (sig_canonical_encoding t)
      \<and> blake3 (signature_key_input (sig_canonical_encoding s))
          = blake3 (signature_key_input (sig_canonical_encoding t)))"
proof (cases "sig_canonical_encoding s = sig_canonical_encoding t")
  case True
  have wf: "well_formed_signature s" "well_formed_signature t"
    using assms(1,2) by (simp_all add: signature_new_Inr)
  show ?thesis
    using well_formed_encoding_inject [OF wf True] True assms(3)
    by (intro disjI1 failure_signature.equality) simp_all
next
  case False
  then show ?thesis using assms by (simp add: signature_new_Inr)
qed


theorem normalized_key_identifies_witness:
  "signature_key_input (sig_canonical_encoding (demo_built (demo_cs ''E0001'')))
     \<noteq> signature_key_input (sig_canonical_encoding (demo_built (demo_cs ''E0002'')))
   \<and> demo_hash (signature_key_input (sig_canonical_encoding (demo_built (demo_cs ''E0001''))))
     = demo_hash (signature_key_input (sig_canonical_encoding (demo_built (demo_cs ''E0002''))))"
proof -
  have "normalized_key (demo_built (demo_cs ''E0001''))
      = normalized_key (demo_built (demo_cs ''E0002''))"
    using demo_signature_ok(1,2) by (simp add: signature_new_Inr demo_hash_def)
  note id = normalized_key_identifies [OF demo_signature_ok(1,2) this]
  have "sig_components (demo_built (demo_cs ''E0001'')) = demo_cs ''E0001''"
    "sig_components (demo_built (demo_cs ''E0002'')) = demo_cs ''E0002''"
    using demo_signature_ok(1,2) by (simp_all add: signature_new_Inr demo_same_components)
  then have "demo_built (demo_cs ''E0001'') \<noteq> demo_built (demo_cs ''E0002'')"
    by (auto simp: demo_cs_def)
  then show ?thesis by (rule disjE [OF id notE])
qed

end
