(* ===== verification/TestEligibility.thy ===== *)
theory TestEligibility
  imports EvidenceDecode FailureSignature
begin

text \<open>
  Verification authority of a test run: \<open>src/service/test_evidence.rs\<close>.  A run is eligible when it
  matches a registered profile exactly and nothing disqualifies it; every disqualification is an
  issue of the assessment, in the order the code pushes them.
\<close>

section \<open>The profile registry\<close>

type_synonym profile_registry = "((string \<times> string) \<times> test_evidence_profile) list"

definition profile_check :: "test_evidence_profile \<Rightarrow> cortex_error + unit" where
  "profile_check p =
     (if blank (tp_id p) \<or> blank (tp_version p) \<or> blank (tp_operation p)
         \<or> tp_selection_kinds p = [] \<or> tp_languages p = []
      then Inl (ConfigurationErr ''test evidence profiles require IDs, versions, an operation, selection kinds, and languages'')
      else Inr ())"

definition profile_key :: "test_evidence_profile \<Rightarrow> string \<times> string" where
  "profile_key p = (tp_id p, tp_version p)"

definition profile_clash :: "string \<times> string \<Rightarrow> cortex_error" where
  "profile_clash k = ConfigurationErr (''ambiguous test evidence profile registration for ''
     @ fst k @ '' v'' @ snd k)"

definition profile_registry_new :: "test_evidence_profile list \<Rightarrow> cortex_error + profile_registry" where
  "profile_registry_new ps = build_registry profile_check profile_key profile_clash ps"

definition profile_registry_standard :: "cortex_error + profile_registry" where
  "profile_registry_standard = profile_registry_new [vitest_profile, unittest_profile]"

definition profile_find :: "profile_registry \<Rightarrow> string \<Rightarrow> string \<Rightarrow> test_evidence_profile option" where
  "profile_find reg i v = map_of reg (i, v)"

section \<open>The namespace text\<close>

text \<open>Written twice in the source, in \<open>validate_failure_identity_bounds\<close> and in
  \<open>encode_test_namespace\<close> of \<open>src/service/failure.rs\<close>.\<close>

definition encode_test_namespace :: "string list \<Rightarrow> string" where
  "encode_test_namespace namespace =
     digits (length namespace) @ '':''
     @ concat (map (\<lambda>c. digits (length c) @ '':'' @ c) namespace)"

lemma encode_test_namespace_inject [simp]:
  "encode_test_namespace a = encode_test_namespace b \<longleftrightarrow> a = b"
proof
  assume "encode_test_namespace a = encode_test_namespace b"
  then have eq: "digits (length a) @ CHR '':'' # concat (map length_prefixed a)
      = digits (length b) @ CHR '':'' # concat (map length_prefixed b)"
    by (simp add: encode_test_namespace_def length_prefixed_def [abs_def])
  have "concat (map length_prefixed a) = concat (map length_prefixed b)"
    using until_inject [OF not_in_digits not_in_digits eq] by simp
  then show "a = b"
    by (rule value_code.concat_inject [rotated 2]) (simp_all add: list_all_iff)
qed simp

section \<open>Assessment\<close>

definition eligibility_note :: "string \<Rightarrow> string \<Rightarrow> eligibility_issue" where
  "eligibility_note c m = \<lparr>ei_code = c, ei_message = m\<rparr>"

definition note_if :: "bool \<Rightarrow> string \<Rightarrow> string \<Rightarrow> eligibility_issue list" where
  "note_if b c m = (if b then [eligibility_note c m] else [])"

definition ineligible :: "(string \<times> string) option \<Rightarrow> eligibility_issue list \<Rightarrow> test_run_eligibility" where
  "ineligible profile issues =
     \<lparr>el_status = Ineligible, el_profile_id = map_option fst profile,
      el_profile_version = map_option snd profile, el_issues = issues\<rparr>"

definition identity_oversize :: "test_run_result \<Rightarrow> bool" where
  "identity_oversize r =
     (let namespace = map_option (\<lambda>c. encode_test_namespace (ti_namespace (case_identity c)))
            (find (\<lambda>c. case_status c = AssertionFailed) (tr_cases r));
          oversize = (\<exists>v \<in> set ([vc_id (tr_profile r), vc_version (tr_profile r),
              vc_id (tr_runner r), vc_version (tr_runner r),
              project_root (tr_selection r), import_root (tr_selection r),
              selection_value (tr_selection r), test_file (tr_selection r)]
              @ (case namespace of Some n \<Rightarrow> [n] | None \<Rightarrow> [])).
            max_failure_component_bytes < length v);
          failed_case_oversize = (\<exists>c \<in> set (tr_cases r).
            case_status c = AssertionFailed
            \<and> (max_failure_component_bytes < length (ti_name (case_identity c))
               \<or> (case case_error_class c of None \<Rightarrow> False
                  | Some v \<Rightarrow> max_failure_component_bytes < length v)))
      in oversize \<or> failed_case_oversize)"

definition failure_identity_issues :: "test_run_result \<Rightarrow> eligibility_issue list" where
  "failure_identity_issues r = note_if (identity_oversize r) ''test_failure_identity_too_large''
     ''runner, selection, path, or failed-case identity exceeds the canonical failure-signature bound''"

definition supported_file :: "test_evidence_profile \<Rightarrow> string \<Rightarrow> bool" where
  "supported_file profile file =
     (let path = to_ascii_lowercase file in
      if vc_id (tp_runner profile) = ''vitest''
      then (\<exists>e \<in> set [''.js'', ''.jsx'', ''.mjs'', ''.cjs'', ''.ts'', ''.tsx'', ''.mts'', ''.cts''].
              ends_with path e)
      else if vc_id (tp_runner profile) = ''python.unittest'' then ends_with path ''.py''
      else False)"

definition profile_file_issues ::
    "test_evidence_profile \<Rightarrow> test_run_result \<Rightarrow> eligibility_issue list" where
  "profile_file_issues profile r =
     note_if (\<not> supported_file profile (test_file (tr_selection r))) ''unsupported_test_file''
       ''the selected test file extension is not supported by the qualified runner profile''
     @ note_if (selection_kind (tr_selection r) = FileSelection
                \<and> selection_value (tr_selection r) \<noteq> test_file (tr_selection r))
       ''file_selection_mismatch''
       ''a file selection value must equal the normalized selected test file''"

definition selected_file_input :: "test_run_result \<Rightarrow> test_verification_input \<Rightarrow> bool" where
  "selected_file_input r i \<longleftrightarrow>
     vi_kind i = TestFileInput \<and> vi_path i = test_file (tr_selection r)"

definition input_issues :: "test_run_result \<Rightarrow> test_verification_input \<Rightarrow> eligibility_issue list" where
  "input_issues r i =
     (case vi_observed i of
        Present b a \<Rightarrow> note_if (b \<noteq> a) ''verification_input_changed''
          ''test, configuration, and dependency inputs must remain unchanged during capture''
      | Absent \<Rightarrow> note_if (selected_file_input r i) ''selected_test_file_absent''
          ''the selected test file cannot be represented by an absence marker'')"

definition verification_input_issues :: "test_run_result \<Rightarrow> eligibility_issue list" where
  "verification_input_issues r =
     concat (map (input_issues r) (tr_verification_inputs r))
     @ note_if (\<not> (\<exists>i \<in> set (tr_verification_inputs r).
                   selected_file_input r i \<and> vi_observed i \<noteq> Absent))
       ''missing_test_file_fingerprint''
       ''verification inputs must include an unchanged digest for the selected test file''"

definition component_issues ::
    "test_evidence_profile \<Rightarrow> test_run_result \<Rightarrow> eligibility_issue list" where
  "component_issues profile r =
     note_if (tr_producer r \<noteq> tp_producer profile \<or> tr_runner r \<noteq> tp_runner profile
              \<or> tr_runtime r \<noteq> tp_runtime profile \<or> tr_operation r \<noteq> tp_operation profile)
       ''test_profile_component_mismatch''
       ''producer, runner, runtime, and operation must exactly match the qualified profile''
     @ note_if (selection_kind (tr_selection r) \<notin> set (tp_selection_kinds profile))
       ''unsupported_test_selection''
       ''the selected file, module, or class scope is not allowed by this profile''
     @ note_if (case tr_language r of None \<Rightarrow> False | Some l \<Rightarrow> l \<notin> set (tp_languages profile))
       ''unsupported_test_language''
       ''the reported language is not qualified for this runner profile''"

definition inventory_issues :: "test_run_result \<Rightarrow> eligibility_issue list" where
  "inventory_issues r =
     note_if (\<not> tr_completed r \<or> tr_process_outcome r = None \<or> tr_exit_code r = None)
       ''incomplete_test_run''
       ''automatic verification requires a completed process with an observed exit''
     @ note_if (\<not> inventory_complete (tr_selection r)) ''incomplete_test_inventory''
       ''the selected scope does not carry a complete case inventory''
     @ note_if (discovered (parents (tr_counts r)) = 0 \<or> executed (parents (tr_counts r)) = 0)
       ''empty_test_run''
       ''automatic verification requires a nonempty executed parent inventory''
     @ note_if (tr_errors r \<noteq> []) ''test_run_errors''
       ''discovery, import, setup, teardown, cleanup, or runtime errors are ineligible''
     @ note_if (tr_children r \<noteq> []) ''child_observations_unsupported''
       ''the initial profiles preserve child observations but do not verify subtest identity''"

definition count_issues :: "parent_counts \<Rightarrow> eligibility_issue list" where
  "count_issues n = concat (map (\<lambda>(count, c, m). note_if (0 < count) c m)
     [(p_skipped n, ''skipped_tests'',
       ''skipped cases make the selected inventory incomplete for automatic verification''),
      (p_todo n, ''todo_tests'', ''todo cases are not executed verification evidence''),
      (p_pending n, ''pending_tests'', ''pending cases are not completed verification evidence''),
      (p_expected_failed n, ''expected_failures'',
       ''expected failures remain distinct and are ineligible in the initial profile''),
      (p_unexpected_successful n, ''unexpected_successes'',
       ''unexpected successes remain distinct and are ineligible in the initial profile''),
      (p_errored n, ''test_execution_errors'',
       ''execution errors are not assertion failures or verified passes'')])"

definition repetition_issues :: "test_case list \<Rightarrow> eligibility_issue list" where
  "repetition_issues cases =
     note_if (\<exists>c \<in> set cases. retry_configured c \<or> 0 < retry_count c \<or> flaky c)
       ''test_retries_unsupported''
       ''retried or flaky case results are ineligible in the initial profile''
     @ note_if (\<exists>c \<in> set cases. repeat_configured c \<or> 0 < repeat_count c)
       ''test_repeats_unsupported''
       ''repeated case results are ineligible in the initial profile''"

definition settings_issues :: "test_run_settings \<Rightarrow> eligibility_issue list" where
  "settings_issues s = concat (map (\<lambda>(active, c, m). note_if active c m)
     [(focused_only s, ''focused_selection_unsupported'',
       ''focused-only execution cannot prove a complete selected inventory''),
      (name_filter s, ''name_filter_unsupported'',
       ''case-name filtering cannot prove a complete selected inventory''),
      (sharded s, ''sharded_execution_unsupported'',
       ''one shard cannot prove the complete selected inventory''),
      (bail s, ''bail_execution_unsupported'', ''bail execution can omit later cases''),
      (watch s, ''watch_execution_unsupported'',
       ''watch reruns are outside the initial completed-run profile''),
      (pass_with_no_tests s, ''pass_with_no_tests_unsupported'',
       ''profiles that permit empty success are outside the initial qualification'')])
     @ note_if (snapshot_mode_of s = CreateMissing \<or> snapshot_mode_of s = UpdateAll)
       ''snapshot_update_unsupported''
       ''snapshot-writing runs can change their own verification inputs''
     @ note_if (execution_origin_of s \<noteq> CurrentOrigin) ''non_current_test_execution''
       ''cached or replayed results are not fresh verification evidence''"

definition candidate_status :: "test_run_result \<Rightarrow> eligibility_status" where
  "candidate_status r =
     (let n = parents (tr_counts r) in
      case tr_process_outcome r of
        Some ExitedZero \<Rightarrow>
          if p_assertion_failed n = 0 \<and> p_passed n = executed n then EligiblePassed else Ineligible
      | Some ExitedNonzero \<Rightarrow> if p_assertion_failed n = 1 then EligibleFailed else Ineligible
      | None \<Rightarrow> Ineligible)"

definition outcome_issues :: "test_run_result \<Rightarrow> eligibility_issue list" where
  "outcome_issues r =
     note_if (tr_artifacts r = []) ''missing_capture_artifact''
       ''a qualified run requires at least one digest-bound capture artifact''
     @ note_if (1 < p_assertion_failed (parents (tr_counts r))) ''multiple_test_failures''
       ''the initial profile normalizes exactly one failed parent case''
     @ note_if (candidate_status r = Ineligible) ''unsupported_test_outcome''
       ''the initial profile supports all-pass runs or exactly one assertion-failed parent''"

definition all_issues :: "test_evidence_profile \<Rightarrow> test_run_result \<Rightarrow> eligibility_issue list" where
  "all_issues profile r =
     component_issues profile r @ profile_file_issues profile r @ failure_identity_issues r
     @ inventory_issues r @ count_issues (parents (tr_counts r)) @ repetition_issues (tr_cases r)
     @ settings_issues (tr_settings r) @ verification_input_issues r @ outcome_issues r"

definition assess_report :: "profile_registry \<Rightarrow> test_run_result \<Rightarrow> test_run_eligibility" where
  "assess_report reg r =
     (case profile_find reg (vc_id (tr_profile r)) (vc_version (tr_profile r)) of
        None \<Rightarrow> ineligible None [eligibility_note ''unsupported_test_profile''
          ''no exact qualified test evidence profile matches the report'']
      | Some profile \<Rightarrow>
          (let issues = all_issues profile r in
           if issues = []
           then \<lparr>el_status = candidate_status r, el_profile_id = Some (tp_id profile),
                 el_profile_version = Some (tp_version profile), el_issues = issues\<rparr>
           else ineligible (Some (tp_id profile, tp_version profile)) issues))"

definition assess :: "profile_registry \<Rightarrow> decoded_evidence \<Rightarrow> test_run_eligibility" where
  "assess reg evidence =
     (case observation evidence of
        TestRunResult r \<Rightarrow> assess_report reg r
      | _ \<Rightarrow> ineligible None [eligibility_note ''not_test_run_evidence''
          ''the decoded observation is not a normalized test run''])"


section \<open>Lemmas\<close>

interpretation profiles: registry profile_registry_new profile_key "\<lambda>p. profile_check p = Inr ()"
  by unfold_locales (simp add: profile_registry_new_def build_registry_Inr)

lemma note_if_Nil [simp]: "note_if b c m = [] \<longleftrightarrow> \<not> b"
  by (simp add: note_if_def)

lemmas issue_defs = all_issues_def component_issues_def profile_file_issues_def
  failure_identity_issues_def inventory_issues_def count_issues_def repetition_issues_def
  settings_issues_def verification_input_issues_def outcome_issues_def

lemma assess_report_eligible:
  "el_status (assess_report reg r) = s \<and> s \<noteq> Ineligible \<longleftrightarrow>
     s \<noteq> Ineligible \<and> candidate_status r = s
     \<and> (\<exists>p. profile_find reg (vc_id (tr_profile r)) (vc_version (tr_profile r)) = Some p
          \<and> all_issues p r = [])"
  by (auto simp: assess_report_def ineligible_def Let_def split: option.splits if_splits)

lemma candidate_passed:
  "candidate_status r = EligiblePassed \<longleftrightarrow>
     tr_process_outcome r = Some ExitedZero \<and> p_assertion_failed (parents (tr_counts r)) = 0
     \<and> p_passed (parents (tr_counts r)) = executed (parents (tr_counts r))"
  by (auto simp: candidate_status_def Let_def split: option.splits process_outcome.splits)

lemma candidate_failed:
  "candidate_status r = EligibleFailed \<longleftrightarrow>
     tr_process_outcome r = Some ExitedNonzero \<and> p_assertion_failed (parents (tr_counts r)) = 1"
  by (auto simp: candidate_status_def Let_def split: option.splits process_outcome.splits)

lemma no_issues_counts:
  assumes "all_issues p r = []"
  shows "p_skipped (parents (tr_counts r)) = 0" "p_todo (parents (tr_counts r)) = 0"
    "p_pending (parents (tr_counts r)) = 0" "p_expected_failed (parents (tr_counts r)) = 0"
    "p_unexpected_successful (parents (tr_counts r)) = 0" "p_errored (parents (tr_counts r)) = 0"
    "0 < executed (parents (tr_counts r))"
  using assms by (simp_all add: issue_defs)

lemma run_counts:
  assumes "run_ok r"
  shows "parents (tr_counts r)
    = parents_of (no_parents\<lparr>discovered := length (tr_cases r)\<rparr>) (map case_status (tr_cases r))"
  using assms by (simp add: run_ok_def counts_of_def)

lemma count_status_0: "count_status st xs = 0 \<longleftrightarrow> st \<notin> set xs"
  by (auto simp: count_status_def filter_empty_conv)

text \<open>Without disqualifying counts, a parent either passed or failed an assertion.\<close>

lemma eligible_statuses:
  assumes "run_ok r" and "all_issues p r = []" and "c \<in> set (tr_cases r)"
  shows "case_status c = Passed \<or> case_status c = AssertionFailed"
proof -
  have mem: "case_status c \<in> set (map case_status (tr_cases r))"
    using assms(3) by simp
  have "count_status st (map case_status (tr_cases r)) = 0"
    if "st \<in> {Skipped, Todo, Pending, ExpectedFailed, UnexpectedSuccessful, Errored}" for st
    using no_issues_counts [OF assms(2)] that
    by (auto simp: run_counts [OF assms(1)] parents_of_def no_parents_def)
  then have "case_status c \<notin> {Skipped, Todo, Pending, ExpectedFailed, UnexpectedSuccessful, Errored}"
    using mem count_status_0 by metis
  then show ?thesis by (cases "case_status c") simp_all
qed

lemma eligible_nonempty: "run_ok r \<Longrightarrow> all_issues p r = [] \<Longrightarrow> tr_cases r \<noteq> []"
  using no_issues_counts(7) [of p r] by (auto simp: run_counts parents_of_def no_parents_def)

lemma eligible_passed_statuses:
  assumes "run_ok r" and "el_status (assess_report reg r) = EligiblePassed"
  shows "tr_cases r \<noteq> [] \<and> (\<forall>c \<in> set (tr_cases r). case_status c = Passed)"
proof -
  obtain p where p: "all_issues p r = []" and cand: "candidate_status r = EligiblePassed"
    using assess_report_eligible [of reg r EligiblePassed] assms(2) by auto
  have "count_status AssertionFailed (map case_status (tr_cases r)) = 0"
    using cand by (simp add: candidate_passed run_counts [OF assms(1)] parents_of_def no_parents_def)
  then have "\<forall>c \<in> set (tr_cases r). case_status c \<noteq> AssertionFailed"
    by (force simp: count_status_0)
  with eligible_statuses [OF assms(1) p] eligible_nonempty [OF assms(1) p] show ?thesis by blast
qed

lemma eligible_failed_case:
  assumes "run_ok r" and "el_status (assess_report reg r) = EligibleFailed"
  shows "\<exists>c ec. filter (\<lambda>c. case_status c = AssertionFailed) (tr_cases r) = [c]
    \<and> case_error_class c = Some ec \<and> identifier_ok ec \<and> identity_ok (case_identity c)
    \<and> (\<forall>d \<in> set (tr_cases r). d \<noteq> c \<longrightarrow> case_status d = Passed)"
proof -
  obtain p where p: "all_issues p r = []" and cand: "candidate_status r = EligibleFailed"
    using assess_report_eligible [of reg r EligibleFailed] assms(2) by auto
  let ?failed = "filter (\<lambda>c. case_status c = AssertionFailed) (tr_cases r)"
  have "length ?failed = 1"
    using cand by (simp add: candidate_failed run_counts [OF assms(1)] parents_of_def no_parents_def
        count_status_def filter_map comp_def)
  then obtain c where c: "?failed = [c]"
    by (auto simp: length_Suc_conv)
  then have "c \<in> set ?failed" by simp
  then have mem: "c \<in> set (tr_cases r)" and st: "case_status c = AssertionFailed" by auto
  have "case_ok c"
    using assms(1) mem by (simp add: run_ok_def list_all_iff)
  then have ok: "identity_ok (case_identity c)" "\<exists>ec. case_error_class c = Some ec \<and> identifier_ok ec"
    using st by (auto simp: case_ok_def outcome_ok_def)
  have "case_status d = Passed" if "d \<in> set (tr_cases r)" "d \<noteq> c" for d
  proof -
    have "d \<notin> set ?failed" using c that(2) by simp
    then show ?thesis using eligible_statuses [OF assms(1) p that(1)] that(1) by auto
  qed
  with c ok show ?thesis by blast
qed

section \<open>The concrete run assessed\<close>

definition demo_profiles :: profile_registry where
  "demo_profiles = projr profile_registry_standard"

lemma demo_profiles_ok: "profile_registry_new [vitest_profile, unittest_profile] = Inr demo_profiles"
proof -
  have "list_all (\<lambda>p. profile_check p = Inr ()) [vitest_profile, unittest_profile]"
    by code_simp
  moreover have "distinct (map profile_key [vitest_profile, unittest_profile])"
    by (simp add: profile_key_def vitest_profile_def unittest_profile_def)
  ultimately show ?thesis
    using profiles.build_total
    by (fastforce simp: demo_profiles_def profile_registry_standard_def)
qed

lemma demo_find:
  "profile_find demo_profiles (vc_id (tr_profile (demo_report b))) (vc_version (tr_profile (demo_report b)))
   = Some unittest_profile"
  using profiles.lookup [OF demo_profiles_ok]
  by (simp add: profile_find_def profile_key_def demo_report_def demo_payload_def component_def
      unittest_profile_def)

lemmas demo_run_defs = demo_report_def demo_payload_def demo_cases_def demo_case_def
  demo_identity_def component_def

lemma demo_file: "supported_file unittest_profile ''tests/t.py''"
  by code_simp

lemma demo_namespace: "length (encode_test_namespace [''suite'']) = 9"
  by code_simp

lemma demo_profile_issues:
  "component_issues unittest_profile (demo_report b) = []"
  "profile_file_issues unittest_profile (demo_report b) = []"
  by (simp_all add: component_issues_def profile_file_issues_def demo_file demo_run_defs
      unittest_profile_def [unfolded component_def] component_def
      demo_file [unfolded unittest_profile_def component_def])

lemma demo_identity_issues: "failure_identity_issues (demo_report b) = []"
  by (cases b; simp add: failure_identity_issues_def identity_oversize_def Let_def demo_namespace
      demo_run_defs max_failure_component_bytes_def)

lemma demo_inventory_issues:
  "inventory_issues (demo_report b) = []"
  "count_issues (parents (tr_counts (demo_report b))) = []"
  by (cases b; simp add: inventory_issues_def count_issues_def demo_report_def demo_payload_def
      demo_cases_def demo_case_def counts_of_def parents_of_def no_parents_def count_status_def)+

lemma demo_settings_issues:
  "repetition_issues (tr_cases (demo_report b)) = []"
  "settings_issues (tr_settings (demo_report b)) = []"
  by (simp_all add: repetition_issues_def settings_issues_def demo_run_defs)

lemma demo_input_issues: "verification_input_issues (demo_report b) = []"
  by (simp add: verification_input_issues_def input_issues_def selected_file_input_def demo_run_defs)

lemma demo_outcome:
  "outcome_issues (demo_report b) = []"
  "candidate_status (demo_report b) = (if b then EligibleFailed else EligiblePassed)"
  by (cases b; simp add: outcome_issues_def candidate_status_def Let_def counts_of_def parents_of_def
      no_parents_def count_status_def demo_run_defs)+

lemma demo_assessed:
  "el_status (assess_report demo_profiles (demo_report b)) = (if b then EligibleFailed else EligiblePassed)"
  "el_status (assess demo_profiles (demo_evidence b)) = (if b then EligibleFailed else EligiblePassed)"
  "observation (demo_evidence b) = TestRunResult (demo_report b)"
  by (simp_all add: assess_def assess_report_def demo_find all_issues_def demo_profile_issues
      demo_identity_issues demo_inventory_issues demo_settings_issues demo_input_issues
      demo_outcome demo_evidence_def)

section \<open>Properties\<close>

text \<open>A run is declared ineligible exactly when its assessment lists an issue, so a caller that
  reads either the status or the issue list reaches the same decision.\<close>

theorem ineligible_iff_issues:
  "el_status (assess reg evidence) = Ineligible \<longleftrightarrow> el_issues (assess reg evidence) \<noteq> []"
proof -
  have cand: "all_issues p r = [] \<Longrightarrow> candidate_status r \<noteq> Ineligible" for p r
    by (simp add: all_issues_def outcome_issues_def)
  have "el_status (assess_report reg r) = Ineligible \<longleftrightarrow> el_issues (assess_report reg r) \<noteq> []" for r
    using cand by (auto simp: assess_report_def ineligible_def Let_def split: option.split)
  then show ?thesis
    by (simp add: assess_def ineligible_def split: evidence_observation.split)
qed

text \<open>Authority needs a qualified profile and an undisturbed run: an eligible run matches the
  producer, runner, runtime, operation, selection kind and language of the registered profile it
  names, is complete with an exit code, has no run errors, children, retries or repeats, was not
  focused, filtered, sharded, cached or allowed to be empty, keeps every verification input
  unchanged and carries a present digest of the selected test file and a capture artifact.\<close>

theorem eligible_run_requirements:
  assumes "el_status (assess_report reg r) \<noteq> Ineligible"
  shows "\<exists>p. profile_find reg (vc_id (tr_profile r)) (vc_version (tr_profile r)) = Some p
    \<and> tr_producer r = tp_producer p \<and> tr_runner r = tp_runner p \<and> tr_runtime r = tp_runtime p
    \<and> tr_operation r = tp_operation p
    \<and> selection_kind (tr_selection r) \<in> set (tp_selection_kinds p)
    \<and> pred_option (\<lambda>l. l \<in> set (tp_languages p)) (tr_language r)
    \<and> tr_completed r \<and> tr_exit_code r \<noteq> None \<and> inventory_complete (tr_selection r)
    \<and> tr_errors r = [] \<and> tr_children r = [] \<and> tr_artifacts r \<noteq> []
    \<and> (\<forall>c \<in> set (tr_cases r). retry_count c = 0 \<and> repeat_count c = 0 \<and> \<not> flaky c)
    \<and> \<not> focused_only (tr_settings r) \<and> \<not> name_filter (tr_settings r) \<and> \<not> sharded (tr_settings r)
    \<and> \<not> bail (tr_settings r) \<and> \<not> watch (tr_settings r) \<and> \<not> pass_with_no_tests (tr_settings r)
    \<and> execution_origin_of (tr_settings r) = CurrentOrigin
    \<and> (\<forall>i \<in> set (tr_verification_inputs r).
         \<forall>b a. vi_observed i = Present b a \<longrightarrow> b = a)
    \<and> (\<exists>i \<in> set (tr_verification_inputs r). vi_kind i = TestFileInput
         \<and> vi_path i = test_file (tr_selection r) \<and> vi_observed i \<noteq> Absent)"
proof -
  obtain p where find: "profile_find reg (vc_id (tr_profile r)) (vc_version (tr_profile r)) = Some p"
    and none: "all_issues p r = []"
    using assess_report_eligible [of reg r "el_status (assess_report reg r)"] assms by auto
  have inputs: "\<forall>i \<in> set (tr_verification_inputs r). input_issues r i = []"
    and selected: "\<exists>i \<in> set (tr_verification_inputs r). selected_file_input r i \<and> vi_observed i \<noteq> Absent"
    using none by (auto simp: all_issues_def verification_input_issues_def)
  have unchanged: "\<forall>i \<in> set (tr_verification_inputs r). \<forall>b a. vi_observed i = Present b a \<longrightarrow> b = a"
    using inputs by (auto simp: input_issues_def)
  have language: "pred_option (\<lambda>l. l \<in> set (tp_languages p)) (tr_language r)"
    using none by (cases "tr_language r") (simp_all add: all_issues_def component_issues_def)
  show ?thesis
    using find none unchanged language selected
    by (intro exI [of _ p]) (simp add: issue_defs selected_file_input_def)
qed

theorem eligible_run_requirements_witness:
  "\<exists>p. profile_find demo_profiles ''cortexweave.unittest.module_or_class'' ''1'' = Some p
    \<and> tr_runner (demo_report True) = tp_runner p \<and> tr_completed (demo_report True)"
proof -
  have "el_status (assess_report demo_profiles (demo_report True)) \<noteq> Ineligible"
    by (simp add: demo_assessed)
  from eligible_run_requirements [OF this] show ?thesis
    by (auto simp: demo_report_def demo_payload_def component_def)
qed

text \<open>C27. A verified pass is a pass: when a decoded test run is eligible as passed, its inventory
  is not empty and every parent case in it has the status passed.\<close>

theorem eligible_passed_all_passed:
  assumes "decoder_registry_standard sd = Inr dreg" and "decode dreg sd event = Inr (Decoded e)"
    and "observation e = TestRunResult r" and "el_status (assess reg e) = EligiblePassed"
  shows "tr_cases r \<noteq> [] \<and> (\<forall>c \<in> set (tr_cases r). case_status c = Passed)"
proof (rule eligible_passed_statuses)
  show "run_ok r" using decoded_evidence_ok [OF assms(1,2)] assms(3) by simp
  show "el_status (assess_report reg r) = EligiblePassed" using assms(3,4) by (simp add: assess_def)
qed

theorem eligible_passed_all_passed_witness:
  "demo_cases False \<noteq> [] \<and> list_all (\<lambda>c. case_status c = Passed) (demo_cases False)"
  using eligible_passed_all_passed [OF demo_registry_ok [of False] demo_decoded [of False]
      demo_assessed(3) [of False], of demo_profiles]
  by (simp add: demo_assessed) (simp add: demo_report_def list_all_iff)

text \<open>A verified failure is one failure: when a decoded test run is eligible as failed, exactly
  one parent case failed an assertion, it carries an error class, and all others passed.\<close>

theorem eligible_failed_one_failure:
  assumes "decoder_registry_standard sd = Inr dreg" and "decode dreg sd event = Inr (Decoded e)"
    and "observation e = TestRunResult r" and "el_status (assess reg e) = EligibleFailed"
  shows "\<exists>c ec. filter (\<lambda>c. case_status c = AssertionFailed) (tr_cases r) = [c]
    \<and> case_error_class c = Some ec
    \<and> (\<forall>d \<in> set (tr_cases r). d \<noteq> c \<longrightarrow> case_status d = Passed)"
proof -
  have "run_ok r" using decoded_evidence_ok [OF assms(1,2)] assms(3) by simp
  moreover have "el_status (assess_report reg r) = EligibleFailed"
    using assms(3,4) by (simp add: assess_def)
  ultimately show ?thesis using eligible_failed_case [of r reg] by blast
qed

theorem eligible_failed_one_failure_witness:
  "\<exists>c ec. filter (\<lambda>c. case_status c = AssertionFailed) (demo_cases True) = [c]
    \<and> case_error_class c = Some ec"
proof -
  have "el_status (assess demo_profiles (demo_evidence True)) = EligibleFailed"
    by (simp add: demo_assessed)
  from eligible_failed_one_failure [OF demo_registry_ok [of True] demo_decoded [of True]
      demo_assessed(3) [of True] this]
  show ?thesis by (auto simp: demo_report_def)
qed

text \<open>The namespace text identifies the namespace: two component lists with one encoding are
  the same list, whatever separators or digits the components contain.\<close>

theorem test_namespace_injective: "encode_test_namespace a = encode_test_namespace b \<longleftrightarrow> a = b"
  by (rule encode_test_namespace_inject)

end
