(* ===== verification/FailureNormalize.thy ===== *)
theory FailureNormalize
  imports TestEligibility
begin

text \<open>
  Failure normalization: \<open>src/service/failure.rs\<close>.  Decoded evidence of a failure becomes a
  \<open>failure_signature\<close>, or is refused with a reason.  The hash of the signature is a parameter.  A
  normalizer returns \<open>Inl m\<close> when the code panics with \<open>m\<close>.
\<close>

section \<open>Results\<close>

record norm_note =
  note_code :: string
  note_message :: string

record failure_normalization =
  nf_signature :: failure_signature
  nf_diagnostics :: "norm_note list"

datatype normalization_result = Normalized failure_normalization | Refused norm_note

definition unsupported :: "string \<Rightarrow> string \<Rightarrow> normalization_result" where
  "unsupported c m = Refused \<lparr>note_code = c, note_message = m\<rparr>"

definition diagnostic_note :: "string \<Rightarrow> string \<Rightarrow> norm_note" where
  "diagnostic_note c m = \<lparr>note_code = c, note_message = m\<rparr>"

section \<open>Verifier rules\<close>

type_synonym rule_registry = "((string \<times> string) \<times> verifier_rule) list"

definition rule_key :: "verifier_rule \<Rightarrow> string \<times> string" where
  "rule_key r = (vr_declared_verifier_id r, vr_declared_verifier_version r)"

definition rule_clash :: "string \<times> string \<Rightarrow> cortex_error" where
  "rule_clash k = ConfigurationErr (''ambiguous verifier rule registration for ''
     @ fst k @ '' v'' @ snd k)"

definition rule_registry_new :: "verifier_rule list \<Rightarrow> cortex_error + rule_registry" where
  "rule_registry_new rs = build_registry validate_rule rule_key rule_clash rs"

definition rule_registry_standard :: "cortex_error + rule_registry" where
  "rule_registry_standard = rule_registry_new [cargo_check_v1]"

definition rule_find :: "rule_registry \<Rightarrow> string \<Rightarrow> string \<Rightarrow> verifier_rule option" where
  "rule_find reg i v = map_of reg (i, v)"

section \<open>Text classes\<close>

definition stable_component :: "string \<Rightarrow> bool" where
  "stable_component v \<longleftrightarrow> v \<noteq> [] \<and> length v \<le> 512
     \<and> list_all (\<lambda>c. is_ascii_alphanumeric c \<or> c \<in> set ''_-.:<>, &'') v"

definition diagnostic_path_ok :: "string \<Rightarrow> bool" where
  "diagnostic_path_ok v \<longleftrightarrow> v \<noteq> [] \<and> length v \<le> 512 \<and> \<not> starts_with v ''/''
     \<and> \<not> starts_with v [CHR 0x5C] \<and> CHR '':'' \<notin> set v
     \<and> \<not> (\<exists>part \<in> set (split_on CHR ''/'' v). part = ''..'' \<or> part = [])
     \<and> list_all (\<lambda>c. is_ascii_alphanumeric c \<or> c \<in> set ''_-./'') v"

definition is_rust_error_code :: "string \<Rightarrow> bool" where
  "is_rust_error_code v \<longleftrightarrow> 1 < length v \<and> starts_with v ''E'' \<and> list_all is_ascii_digit (tl v)"

fun subject_kind_name :: "subject_kind \<Rightarrow> string" where
  "subject_kind_name WorkspaceSubject = ''workspace''"
| "subject_kind_name PackageSubject = ''package''"
| "subject_kind_name TargetSubject = ''target''"
| "subject_kind_name TestSubject = ''test''"
| "subject_kind_name PathSubject = ''path''"

fun test_selection_kind_name :: "test_selection_kind \<Rightarrow> string" where
  "test_selection_kind_name FileSelection = ''file''"
| "test_selection_kind_name ModuleSelection = ''module''"
| "test_selection_kind_name ClassSelection = ''class''"

definition verification_subject :: "evidence_subject \<Rightarrow> normalization_result + evidence_subject" where
  "verification_subject s =
     (if \<not> stable_component (es_value s)
      then Inl (unsupported ''invalid_verification_subject''
             ''verification subject must be a bounded stable identifier'')
      else Inr s)"

definition scope_of :: "string \<Rightarrow> string option \<Rightarrow> string \<Rightarrow> string option \<Rightarrow> string option
    \<Rightarrow> failure_scope" where
  "scope_of workspace language tool target path =
     \<lparr>fs_workspace_id = workspace, fs_language = language, fs_tool = tool, fs_target = target,
      fs_path = path, fs_symbol_key = None\<rparr>"

definition signature :: "(string \<Rightarrow> string) \<Rightarrow> failure_domain \<Rightarrow> failure_identity_capability
    \<Rightarrow> (string \<times> string) list \<Rightarrow> string \<Rightarrow> string \<Rightarrow> failure_scope \<Rightarrow> norm_note list
    \<Rightarrow> normalization_result" where
  "signature blake3 d cap components nid nver sc notes =
     (case signature_new blake3 d cap components nid nver sc of
        Inr s \<Rightarrow> Normalized \<lparr>nf_signature = s, nf_diagnostics = notes\<rparr>
      | Inl e \<Rightarrow> unsupported ''invalid_normalization_input'' (error_display e))"

definition finish :: "normalization_result + normalization_result \<Rightarrow> normalization_result" where
  "finish r = (case r of Inl x \<Rightarrow> x | Inr x \<Rightarrow> x)"

section \<open>Rust compiler failures\<close>

definition rust_error :: "rust_compiler_result \<Rightarrow> normalization_result + rust_diagnostic" where
  "rust_error r =
     (if rc_process_outcome r \<noteq> ExitedNonzero
      then Inl (unsupported ''not_a_failure''
             ''a zero-exit compiler report has no failure signature'')
      else (case filter (\<lambda>d. rd_level d = ErrorLevel) (rc_diagnostics r) of
          [d] \<Rightarrow> Inr d
        | _ \<Rightarrow> Inl (unsupported ''ambiguous_compiler_diagnostics''
                 ''exactly one compiler error is required for a v2 normalized class'')))"

definition rust_code :: "rust_diagnostic \<Rightarrow> normalization_result + string" where
  "rust_code d =
     (case rd_code d of
        Some c \<Rightarrow> if is_rust_error_code c then Inr c
          else Inl (unsupported ''missing_structured_diagnostic_code''
                 ''a Rust error code is required; message text is not guessed'')
      | None \<Rightarrow> Inl (unsupported ''missing_structured_diagnostic_code''
                 ''a Rust error code is required; message text is not guessed''))"

definition rust_path :: "rust_diagnostic \<Rightarrow> normalization_result + string" where
  "rust_path d =
     (case rd_path d of
        Some p \<Rightarrow> if diagnostic_path_ok p then Inr p
          else Inl (unsupported ''unsafe_diagnostic_path''
                 ''diagnostic paths must be workspace-relative'')
      | None \<Rightarrow> Inl (unsupported ''missing_failure_scope_path''
          ''Rust compiler signatures require a workspace-relative path while no deterministic symbol mapping exists''))"

definition rust_identity :: "string \<Rightarrow> rust_diagnostic \<Rightarrow> (string \<times> string) list
    \<Rightarrow> normalization_result + failure_identity_capability \<times> (string \<times> string) list \<times> norm_note list" where
  "rust_identity c d components =
     (let diagnostics = [diagnostic_note ''missing_deterministic_symbol''
            ''no deterministic diagnostic-to-symbol mapping was available; no symbol was inferred''] in
      if c = ''E0308''
      then (case (rd_expected_type d, rd_actual_type d) of
          (Some expected, Some actual) \<Rightarrow>
            if \<not> stable_component expected \<or> \<not> stable_component actual
            then Inl (unsupported ''unsafe_e0308_type_distinction''
                   ''E0308 type fields must use bounded stable type-class text'')
            else Inr (Exact,
                   btree_insert ''actual_type'' actual
                     (btree_insert ''expected_type'' expected components),
                   diagnostics)
        | _ \<Rightarrow> Inl (unsupported ''missing_e0308_type_distinction''
            ''E0308 requires structured expected_type and actual_type fields; message text is not parsed''))
      else Inr (CompatibleOnly, components,
             diagnostics @ [diagnostic_note ''compatible_only_identity''
               ''this diagnostic code has no registered structured discriminator, so its normalized class cannot support exact equality'']))"

definition normalize_rust :: "(string \<Rightarrow> string) \<Rightarrow> decoded_evidence \<Rightarrow> normalization_result" where
  "normalize_rust blake3 e =
     (case observation e of
        RustCompilerResult r \<Rightarrow> finish (
          and_then (rust_error r) (\<lambda>d.
          and_then (rust_code d) (\<lambda>c.
          and_then (verification_subject (rc_subject r)) (\<lambda>subject.
          and_then (rust_path d) (\<lambda>path.
          and_then (rust_identity c d (btree_of
            [(''diagnostic_code'', c), (''subject_kind'', subject_kind_name (es_kind subject)),
             (''subject_value'', es_value subject)])) (\<lambda>(cap, components, notes).
          Inr (signature blake3 RustCompilerDomain cap components
            ''cortexweave.rust_compiler_failure'' ''2''
            (scope_of (env_workspace_id (envelope e)) (Some ''rust'') ''rustc''
               (Some (es_value subject)) (Some path)) notes)))))))
      | _ \<Rightarrow> unsupported ''evidence_contract_mismatch''
               ''Rust compiler normalizer received another observation'')"

section \<open>Cargo test failures\<close>

definition stable_option :: "string option \<Rightarrow> string option" where
  "stable_option v = (case v of Some x \<Rightarrow> if stable_component x then Some x else None | None \<Rightarrow> None)"

definition insert_option :: "string \<Rightarrow> string option \<Rightarrow> (string \<times> string) list
    \<Rightarrow> (string \<times> string) list" where
  "insert_option k v m = (case v of Some x \<Rightarrow> btree_insert k x m | None \<Rightarrow> m)"

definition cargo_failure :: "cargo_test_result \<Rightarrow> normalization_result + test_failure" where
  "cargo_failure r =
     (if ct_process_outcome r \<noteq> ExitedNonzero
      then Inl (unsupported ''not_a_failure'' ''a zero-exit test report has no failure signature'')
      else (case ct_failures r of
          [f] \<Rightarrow> Inr f
        | _ \<Rightarrow> Inl (unsupported ''ambiguous_test_failures''
                 ''exactly one test failure is required for a v2 normalized class'')))"

definition normalize_cargo :: "(string \<Rightarrow> string) \<Rightarrow> decoded_evidence \<Rightarrow> normalization_result" where
  "normalize_cargo blake3 e =
     (case observation e of
        CargoTestResult r \<Rightarrow> finish (
          and_then (cargo_failure r) (\<lambda>f.
          and_then (verification_subject (ct_subject r)) (\<lambda>subject.
          let components = insert_option ''assertion_class'' (stable_option (tf_assertion_class f))
                (insert_option ''test_name'' (stable_option (tf_test_name f))
                  (btree_of [(''subject_kind'', subject_kind_name (es_kind subject)),
                             (''subject_value'', es_value subject)])) in
          if length components = 2
          then Inl (unsupported ''missing_test_identity''
                 ''a stable test name or assertion class is required; failure prose is excluded'')
          else Inr (signature blake3 CargoTestDomain CompatibleOnly components
            ''cortexweave.cargo_test_failure'' ''2''
            (scope_of (env_workspace_id (envelope e)) (Some ''rust'') ''cargo''
               (Some (es_value subject)) None)
            [diagnostic_note ''raw_failure_message_excluded''
               ''failure message text is intentionally excluded from the canonical signature'',
             diagnostic_note ''compatible_only_identity''
               ''a test name and assertion class do not identify one stable failing assertion or case, so this normalized class cannot support exact equality'']))))
      | _ \<Rightarrow> unsupported ''evidence_contract_mismatch''
               ''Cargo test normalizer received another observation'')"

section \<open>Test-run failures\<close>

definition test_run_components :: "test_run_result \<Rightarrow> test_case \<Rightarrow> string \<Rightarrow> (string \<times> string) list" where
  "test_run_components r failed ec = btree_of
     [(''profile_id'', vc_id (tr_profile r)), (''profile_version'', vc_version (tr_profile r)),
      (''runner_id'', vc_id (tr_runner r)), (''runner_version'', vc_version (tr_runner r)),
      (''project_root'', project_root (tr_selection r)),
      (''import_root'', import_root (tr_selection r)),
      (''selection_kind'', test_selection_kind_name (selection_kind (tr_selection r))),
      (''selection_value'', selection_value (tr_selection r)),
      (''case_namespace'', encode_test_namespace (ti_namespace (case_identity failed))),
      (''case_name'', ti_name (case_identity failed)), (''error_class'', ec)]"

definition normalize_test_run :: "(string \<Rightarrow> string) \<Rightarrow> profile_registry \<Rightarrow> decoded_evidence
    \<Rightarrow> string + normalization_result" where
  "normalize_test_run blake3 profiles e =
     (case observation e of
        TestRunResult r \<Rightarrow>
          (let assessment = assess_report profiles r in
           if el_status assessment \<noteq> EligibleFailed
           then Inr (unsupported ''ineligible_test_run_failure''
                  (case el_issues assessment of
                     i # _ \<Rightarrow> ei_message i
                   | [] \<Rightarrow> ''a passing test run has no failure signature''))
           else (case filter (\<lambda>c. case_status c = AssertionFailed) (tr_cases r) of
               [failed] \<Rightarrow>
                 and_then (ok_or (case_error_class failed)
                   ''eligible assertion failure has an error class'') (\<lambda>ec.
                 Inr (signature blake3 TestRunDomain CompatibleOnly (test_run_components r failed ec)
                   ''cortexweave.test_run_failure'' ''1''
                   (scope_of (env_workspace_id (envelope e)) (tr_language r) (vc_id (tr_runner r))
                      (Some (selection_value (tr_selection r))) (Some (test_file (tr_selection r))))
                   [diagnostic_note ''compatible_only_identity''
                      ''runner-qualified case identity does not identify one stable failing assertion, so it cannot support exact recurrence'']))
             | _ \<Rightarrow> Inr (unsupported ''ambiguous_test_run_failure''
                 ''exactly one assertion-failed parent case is required'')))
      | _ \<Rightarrow> Inr (unsupported ''evidence_contract_mismatch''
               ''test-run normalizer received another observation''))"

section \<open>Registered tools\<close>

definition tool_rule :: "rule_registry \<Rightarrow> generic_verifier_result \<Rightarrow> normalization_result + verifier_rule" where
  "tool_rule rules r =
     (if gv_process_outcome r \<noteq> ExitedNonzero \<or> gv_reported_result r \<noteq> VerificationFailed
      then Inl (unsupported ''not_a_failure''
             ''generic verification requires an explicit failed result and nonzero exit'')
      else (case rule_find rules (gv_verifier_id r) (gv_verifier_version r) of
          None \<Rightarrow> Inl (unsupported ''unregistered_verifier_rule''
                 ''generic verifier reports require an exact registered rule'')
        | Some rule \<Rightarrow>
            if gv_tool r \<noteq> vr_required_tool rule \<or> gv_operation r \<noteq> vr_required_operation rule
            then Inl (unsupported ''verifier_rule_mismatch''
                   ''reported tool or operation does not match its registered verifier rule'')
            else Inr rule))"

definition normalize_tool :: "(string \<Rightarrow> string) \<Rightarrow> rule_registry \<Rightarrow> decoded_evidence
    \<Rightarrow> normalization_result" where
  "normalize_tool blake3 rules e =
     (case observation e of
        GenericVerifierResult r \<Rightarrow> finish (
          and_then (tool_rule rules r) (\<lambda>rule.
          and_then (verification_subject (gv_subject r)) (\<lambda>subject.
          if es_kind subject \<notin> set (vr_allowed_subject_kinds rule)
          then Inl (unsupported ''verifier_subject_not_allowed''
                 ''registered verifier rule does not allow this subject kind'')
          else Inr (signature blake3 RegisteredToolDomain CompatibleOnly
            (btree_of [(''rule_id'', vr_id rule), (''rule_version'', vr_version rule),
               (''subject_kind'', subject_kind_name (es_kind subject)),
               (''subject_value'', es_value subject), (''exit_class'', ''nonzero'')])
            ''cortexweave.registered_tool_failure'' ''2''
            (scope_of (env_workspace_id (envelope e)) (vr_language rule) (gv_tool r)
               (Some (es_value subject)) None)
            [diagnostic_note ''compatible_only_identity''
               ''the registered rule's generic nonzero exit class has no structured failure discriminator and cannot support exact equality'']))))
      | _ \<Rightarrow> unsupported ''evidence_contract_mismatch''
               ''registered-tool normalizer received another observation'')"

section \<open>The registry of normalizers\<close>

record normalizer =
  nz_id :: string
  nz_version :: string
  nz_contract :: evidence_contract
  nz_normalize :: "decoded_evidence \<Rightarrow> string + normalization_result"

type_synonym normalizer_registry = "(string \<times> normalizer) list"

definition normalizer_key :: "normalizer \<Rightarrow> string" where
  "normalizer_key n = contract_id (nz_contract n)"

definition normalizer_clash :: "string \<Rightarrow> cortex_error" where
  "normalizer_clash k = ConfigurationErr (''ambiguous failure normalizer registration for '' @ k)"

definition normalizer_registry_new :: "normalizer list \<Rightarrow> cortex_error + normalizer_registry" where
  "normalizer_registry_new ns = build_registry (\<lambda>_. Inr ()) normalizer_key normalizer_clash ns"

definition standard_normalizers :: "(string \<Rightarrow> string) \<Rightarrow> profile_registry \<Rightarrow> rule_registry
    \<Rightarrow> normalizer list" where
  "standard_normalizers blake3 profiles rules =
     [\<lparr>nz_id = ''cortexweave.rust_compiler_failure'', nz_version = ''2'',
       nz_contract = RustCompilerResultContract,
       nz_normalize = (\<lambda>e. Inr (normalize_rust blake3 e))\<rparr>,
      \<lparr>nz_id = ''cortexweave.cargo_test_failure'', nz_version = ''2'',
       nz_contract = CargoTestResultContract,
       nz_normalize = (\<lambda>e. Inr (normalize_cargo blake3 e))\<rparr>,
      \<lparr>nz_id = ''cortexweave.test_run_failure'', nz_version = ''1'',
       nz_contract = TestRunResultContract,
       nz_normalize = normalize_test_run blake3 profiles\<rparr>,
      \<lparr>nz_id = ''cortexweave.registered_tool_failure'', nz_version = ''2'',
       nz_contract = GenericVerifierResultContract,
       nz_normalize = (\<lambda>e. Inr (normalize_tool blake3 rules e))\<rparr>]"

definition normalizer_registry_standard :: "(string \<Rightarrow> string) \<Rightarrow> rule_registry
    \<Rightarrow> cortex_error + normalizer_registry" where
  "normalizer_registry_standard blake3 rules =
     and_then profile_registry_standard (\<lambda>profiles.
     normalizer_registry_new (standard_normalizers blake3 profiles rules))"

definition normalize :: "normalizer_registry \<Rightarrow> decoded_evidence \<Rightarrow> string + normalization_result" where
  "normalize reg e =
     (case map_of reg (contract_id (env_contract (envelope e))) of
        Some n \<Rightarrow> nz_normalize n e
      | None \<Rightarrow> Inr (unsupported ''unsupported_evidence_contract''
          ''no failure normalizer is registered for this evidence contract''))"

definition normalization_standard :: "(string \<Rightarrow> string) \<Rightarrow> cortex_error + normalizer_registry" where
  "normalization_standard blake3 =
     and_then rule_registry_standard (normalizer_registry_standard blake3)"


section \<open>Lemmas\<close>

interpretation rules: registry rule_registry_new rule_key "\<lambda>r. validate_rule r = Inr ()"
  by unfold_locales (simp add: rule_registry_new_def build_registry_Inr)

interpretation normalizers: registry normalizer_registry_new normalizer_key "\<lambda>_. True"
  by unfold_locales (simp add: normalizer_registry_new_def build_registry_Inr list_all_iff)

lemma standard_normalizers_distinct:
  "distinct (map normalizer_key (standard_normalizers blake3 profiles rules))"
  by (simp add: standard_normalizers_def normalizer_key_def)

lemma standard_rules_exist: "\<exists>rules. rule_registry_standard = Inr rules"
proof -
  have "list_all (\<lambda>r. validate_rule r = Inr ()) [cargo_check_v1]" by code_simp
  then show ?thesis
    unfolding rule_registry_standard_def by (intro rules.build_total) simp_all
qed

lemma standard_profiles: "profile_registry_standard = Inr demo_profiles"
  using demo_profiles_ok by (simp add: profile_registry_standard_def)

lemma normalization_standard_Inr:
  "normalization_standard blake3 = Inr reg \<longleftrightarrow>
     (\<exists>rules. rule_registry_standard = Inr rules
       \<and> normalizer_registry_new (standard_normalizers blake3 demo_profiles rules) = Inr reg)"
  by (auto simp: normalization_standard_def normalizer_registry_standard_def standard_profiles
      and_then_eq_Inr)

lemma normalization_standard_exists: "\<exists>reg. normalization_standard blake3 = Inr reg"
  using standard_rules_exist normalizers.build_total [OF standard_normalizers_distinct]
  by (fastforce simp: normalization_standard_Inr list_all_iff)

lemma standard_normalizer_lookup:
  assumes "normalization_standard blake3 = Inr reg" and "map_of reg k = Some n"
  obtains rules where "rule_registry_standard = Inr rules"
    and "n \<in> set (standard_normalizers blake3 demo_profiles rules)" and "normalizer_key n = k"
proof -
  obtain rules where r: "rule_registry_standard = Inr rules"
    and m: "normalizer_registry_new (standard_normalizers blake3 demo_profiles rules) = Inr reg"
    using assms(1) by (auto simp: normalization_standard_Inr)
  show ?thesis
    using that [OF r] normalizers.lookup [OF m] assms(2) by blast
qed

text \<open>A refusal never carries a signature.\<close>

definition refuses :: "normalization_result + 'a \<Rightarrow> bool" where
  "refuses r \<longleftrightarrow> (\<forall>x. r = Inl x \<longrightarrow> (\<exists>m. x = Refused m))"

lemma refuses_basic [simp]: "refuses (Inr x)" "refuses (Inl (unsupported c m))"
  by (simp_all add: refuses_def unsupported_def)

lemma refusing_steps [simp]:
  "refuses (rust_error r)" "refuses (rust_code d)" "refuses (rust_path d)"
  "refuses (rust_identity c d cs)" "refuses (verification_subject s)" "refuses (cargo_failure t)"
  "refuses (tool_rule rules g)"
  by (simp_all add: rust_error_def rust_code_def rust_path_def rust_identity_def Let_def
      verification_subject_def cargo_failure_def tool_rule_def
      split: list.split option.split)

lemma finish_simps [simp]: "finish (Inl x) = x" "finish (Inr x) = x"
  by (simp_all add: finish_def)

lemma finish_and_then:
  "refuses r \<Longrightarrow> finish (and_then r f) = Normalized n \<longleftrightarrow> (\<exists>x. r = Inr x \<and> finish (f x) = Normalized n)"
  by (cases r) (auto simp: refuses_def)

lemma unsupported_not_normalized [simp]: "unsupported c m \<noteq> Normalized n"
  by (simp add: unsupported_def)

lemma signature_Normalized:
  "signature blake3 d cap cs nid nver sc notes = Normalized n \<longleftrightarrow>
     signature_new blake3 d cap cs nid nver sc = Inr (nf_signature n) \<and> nf_diagnostics n = notes"
  by (cases n) (auto simp: signature_def split: sum.split)

lemma subject_step [simp]: "verification_subject s = Inr t \<longleftrightarrow> stable_component (es_value s) \<and> t = s"
  by (auto simp: verification_subject_def)

lemma rust_error_Inr [simp]:
  "rust_error r = Inr d \<longleftrightarrow> rc_process_outcome r = ExitedNonzero
     \<and> filter (\<lambda>d. rd_level d = ErrorLevel) (rc_diagnostics r) = [d]"
  by (auto simp: rust_error_def split: list.split)

lemma rust_code_Inr [simp]: "rust_code d = Inr c \<longleftrightarrow> rd_code d = Some c \<and> is_rust_error_code c"
  by (auto simp: rust_code_def split: option.split)

lemma rust_path_Inr [simp]: "rust_path d = Inr p \<longleftrightarrow> rd_path d = Some p \<and> diagnostic_path_ok p"
  by (auto simp: rust_path_def split: option.split)

lemma rust_identity_Exact:
  "rust_identity c d cs = Inr (Exact, cs', notes) \<Longrightarrow>
     c = ''E0308'' \<and> (\<exists>x a. rd_expected_type d = Some x \<and> rd_actual_type d = Some a
       \<and> cs' = btree_insert ''actual_type'' a (btree_insert ''expected_type'' x cs))"
  by (auto simp: rust_identity_def Let_def split: if_splits option.splits)

text \<open>A rust signature, taken apart.\<close>

lemma normalize_rust_Normalized:
  assumes "normalize_rust blake3 e = Normalized n"
  obtains r d c p cap cs where "observation e = RustCompilerResult r"
    "rc_process_outcome r = ExitedNonzero"
    "filter (\<lambda>d. rd_level d = ErrorLevel) (rc_diagnostics r) = [d]"
    "rd_code d = Some c" "rd_path d = Some p"
    "rust_identity c d (btree_of [(''diagnostic_code'', c),
       (''subject_kind'', subject_kind_name (es_kind (rc_subject r))),
       (''subject_value'', es_value (rc_subject r))]) = Inr (cap, cs, nf_diagnostics n)"
    "signature_new blake3 RustCompilerDomain cap cs ''cortexweave.rust_compiler_failure'' ''2''
       (scope_of (env_workspace_id (envelope e)) (Some ''rust'') ''rustc''
          (Some (es_value (rc_subject r))) (Some p)) = Inr (nf_signature n)"
proof -
  obtain r where obs: "observation e = RustCompilerResult r"
    using assms by (cases "observation e") (simp_all add: normalize_rust_def)
  show ?thesis
    using assms that obs
    by (fastforce simp: normalize_rust_def finish_and_then signature_Normalized split: prod.splits)
qed


lemma normalize_cargo_Normalized:
  assumes "normalize_cargo blake3 e = Normalized n"
  obtains r f where "observation e = CargoTestResult r" "ct_process_outcome r = ExitedNonzero"
    "ct_failures r = [f]" "identity_capability (nf_signature n) = CompatibleOnly"
    "sig_domain (nf_signature n) = CargoTestDomain"
proof -
  obtain r where obs: "observation e = CargoTestResult r"
    using assms by (cases "observation e") (simp_all add: normalize_cargo_def)
  have step: "cargo_failure r = Inr f \<longleftrightarrow> ct_process_outcome r = ExitedNonzero \<and> ct_failures r = [f]" for f
    by (auto simp: cargo_failure_def split: list.split)
  show ?thesis
    using assms that obs
    by (auto simp: normalize_cargo_def finish_and_then step signature_Normalized signature_new_Inr
        Let_def split: if_splits)
qed

lemma normalize_tool_Normalized:
  assumes "normalize_tool blake3 rules e = Normalized n"
  obtains r rule where "observation e = GenericVerifierResult r"
    "gv_process_outcome r = ExitedNonzero" "gv_reported_result r = VerificationFailed"
    "rule_find rules (gv_verifier_id r) (gv_verifier_version r) = Some rule"
    "gv_tool r = vr_required_tool rule" "gv_operation r = vr_required_operation rule"
    "es_kind (gv_subject r) \<in> set (vr_allowed_subject_kinds rule)"
    "identity_capability (nf_signature n) = CompatibleOnly"
    "sig_domain (nf_signature n) = RegisteredToolDomain"
proof -
  obtain r where obs: "observation e = GenericVerifierResult r"
    using assms by (cases "observation e") (simp_all add: normalize_tool_def)
  have step: "tool_rule rules r = Inr rule \<longleftrightarrow> gv_process_outcome r = ExitedNonzero
      \<and> gv_reported_result r = VerificationFailed
      \<and> rule_find rules (gv_verifier_id r) (gv_verifier_version r) = Some rule
      \<and> gv_tool r = vr_required_tool rule \<and> gv_operation r = vr_required_operation rule" for rule
    by (auto simp: tool_rule_def split: option.split)
  show ?thesis
    using assms that obs
    by (auto simp: normalize_tool_def finish_and_then step signature_Normalized signature_new_Inr
        split: if_splits)
qed

lemma normalize_test_run_Normalized:
  assumes "normalize_test_run blake3 profiles e = Inr (Normalized n)"
  obtains r c ec where "observation e = TestRunResult r"
    "el_status (assess_report profiles r) = EligibleFailed"
    "filter (\<lambda>c. case_status c = AssertionFailed) (tr_cases r) = [c]"
    "case_error_class c = Some ec"
    "signature_new blake3 TestRunDomain CompatibleOnly (test_run_components r c ec)
       ''cortexweave.test_run_failure'' ''1''
       (scope_of (env_workspace_id (envelope e)) (tr_language r) (vc_id (tr_runner r))
          (Some (selection_value (tr_selection r))) (Some (test_file (tr_selection r))))
     = Inr (nf_signature n)"
proof -
  obtain r where obs: "observation e = TestRunResult r"
    using assms by (cases "observation e") (simp_all add: normalize_test_run_def)
  show ?thesis
    using assms that obs
    by (auto simp: normalize_test_run_def and_then_eq_Inr signature_Normalized Let_def
        split: if_splits list.splits)
qed

text \<open>Only the test-run normalizer can panic, and not on evidence that was decoded.\<close>

lemma normalize_test_run_no_panic:
  assumes "\<And>r. observation e = TestRunResult r \<Longrightarrow> run_ok r"
  shows "\<exists>x. normalize_test_run blake3 profiles e = Inr x"
proof (cases "observation e")
  case (TestRunResult r)
  show ?thesis
  proof (cases "el_status (assess_report profiles r) = EligibleFailed")
    case True
    then obtain c ec where "filter (\<lambda>c. case_status c = AssertionFailed) (tr_cases r) = [c]"
      and "case_error_class c = Some ec"
      using eligible_failed_case [OF assms [OF TestRunResult]] by blast
    with TestRunResult True show ?thesis by (simp add: normalize_test_run_def Let_def)
  qed (simp add: normalize_test_run_def TestRunResult Let_def)
qed (simp_all add: normalize_test_run_def)

lemma map_of_btree_of: "map_of (btree_of kvs) k = map_of (rev kvs) k"
  by (induction kvs rule: rev_induct) (auto simp: btree_of_def)

text \<open>What the signatures of two failures share when their encodings are equal.\<close>

lemma rust_components_of:
  assumes "rust_identity c d (btree_of [(''diagnostic_code'', c), (''subject_kind'', k),
      (''subject_value'', v)]) = Inr (Exact, cs, notes)"
  shows "map_of cs ''expected_type'' = rd_expected_type d \<and> map_of cs ''actual_type'' = rd_actual_type d
    \<and> map_of cs ''diagnostic_code'' = Some ''E0308'' \<and> map_of cs ''subject_kind'' = Some k
    \<and> map_of cs ''subject_value'' = Some v \<and> c = ''E0308''"
  using rust_identity_Exact [OF assms] by (auto simp: map_of_btree_of)

lemma subject_kind_name_inject [simp]: "subject_kind_name a = subject_kind_name b \<longleftrightarrow> a = b"
  by (cases a; cases b) simp_all

lemma test_selection_kind_name_inject [simp]:
  "test_selection_kind_name a = test_selection_kind_name b \<longleftrightarrow> a = b"
  by (cases a; cases b) simp_all

lemma subject_eqI: "es_kind a = es_kind b \<Longrightarrow> es_value a = es_value b \<Longrightarrow> a = (b::evidence_subject)"
  by (cases a; cases b) simp

lemma test_run_components_of:
  "map_of (test_run_components r c ec) ''profile_id'' = Some (vc_id (tr_profile r))"
  "map_of (test_run_components r c ec) ''profile_version'' = Some (vc_version (tr_profile r))"
  "map_of (test_run_components r c ec) ''runner_id'' = Some (vc_id (tr_runner r))"
  "map_of (test_run_components r c ec) ''runner_version'' = Some (vc_version (tr_runner r))"
  "map_of (test_run_components r c ec) ''selection_kind''
     = Some (test_selection_kind_name (selection_kind (tr_selection r)))"
  "map_of (test_run_components r c ec) ''selection_value'' = Some (selection_value (tr_selection r))"
  "map_of (test_run_components r c ec) ''case_namespace''
     = Some (encode_test_namespace (ti_namespace (case_identity c)))"
  "map_of (test_run_components r c ec) ''case_name'' = Some (ti_name (case_identity c))"
  "map_of (test_run_components r c ec) ''error_class'' = Some ec"
  by (simp_all add: test_run_components_def map_of_btree_of)

section \<open>A concrete compiler failure\<close>

definition demo_diagnostic :: "string \<Rightarrow> rust_diagnostic" where
  "demo_diagnostic message =
     \<lparr>rd_level = ErrorLevel, rd_code = Some ''E0308'', rd_message = message,
      rd_expected_type = Some ''u8'', rd_actual_type = Some ''bool'', rd_path = Some ''a.rs'',
      rd_start_line = Some 3, rd_start_column = None\<rparr>"

definition demo_rust :: "string \<Rightarrow> decoded_evidence" where
  "demo_rust message =
     \<lparr>envelope = \<lparr>env_event_id = message, env_workspace_id = ''w'', env_session_id = ''s'',
        env_task_id = None, env_occurred_at = 0, env_contract = RustCompilerResultContract,
        env_version = 1\<rparr>,
      observation = RustCompilerResult
        \<lparr>rc_subject = \<lparr>es_kind = PackageSubject, es_value = ''core''\<rparr>,
         rc_process_outcome = ExitedNonzero, rc_exit_code = 101,
         rc_diagnostics = [demo_diagnostic message]\<rparr>\<rparr>"

definition demo_rust_components :: "(string \<times> string) list" where
  "demo_rust_components = btree_insert ''actual_type'' ''bool''
     (btree_insert ''expected_type'' ''u8''
       (btree_of [(''diagnostic_code'', ''E0308''), (''subject_kind'', ''package''),
                  (''subject_value'', ''core'')]))"

definition demo_rust_scope :: failure_scope where
  "demo_rust_scope = scope_of ''w'' (Some ''rust'') ''rustc'' (Some ''core'') (Some ''a.rs'')"

lemma demo_rust_texts:
  "list_all bounded_text [''cortexweave.rust_compiler_failure'', ''2'', ''w'', ''rust'', ''rustc'',
     ''core'', ''E0308'', ''u8'', ''bool'', ''package'']"
  "\<not> unsafe_path ''a.rs''" "diagnostic_path_ok ''a.rs''" "is_rust_error_code ''E0308''"
  "list_all stable_component [''core'', ''u8'', ''bool'']"
  "list_all (\<lambda>kv. component_name (fst kv)) demo_rust_components"
  "map snd demo_rust_components = [''bool'', ''E0308'', ''u8'', ''package'', ''core'']"
  by code_simp+

lemma demo_rust_valid:
  "\<exists>s. signature_new blake3 RustCompilerDomain Exact demo_rust_components
     ''cortexweave.rust_compiler_failure'' ''2'' demo_rust_scope = Inr s"
proof (rule signature_new_accepts)
  have texts: "list_all (\<lambda>kv. bounded_text (snd kv)) demo_rust_components"
    using demo_rust_texts(1,7) by (simp flip: list.pred_map [of bounded_text snd, unfolded comp_def])
  have "length (map snd demo_rust_components) = 5"
    unfolding demo_rust_texts(7) by simp
  then show "valid_components demo_rust_components"
    using texts demo_rust_texts(6)
    by (auto simp: valid_components_def max_failure_components_def list_all_iff)
  show "valid_scope demo_rust_scope"
    using demo_rust_texts by (simp add: valid_scope_def demo_rust_scope_def scope_of_def)
qed (use demo_rust_texts in simp_all)

definition demo_rust_normal :: "string \<Rightarrow> failure_normalization" where
  "demo_rust_normal message =
     (case normalize_rust demo_hash (demo_rust message) of Normalized n \<Rightarrow> n)"

lemma demo_rust_normalized:
  "normalize_rust demo_hash (demo_rust message) = Normalized (demo_rust_normal message)"
  "identity_capability (nf_signature (demo_rust_normal message)) = Exact"
  "sig_components (nf_signature (demo_rust_normal message)) = demo_rust_components"
proof -
  obtain s where s: "signature_new demo_hash RustCompilerDomain Exact demo_rust_components
     ''cortexweave.rust_compiler_failure'' ''2'' demo_rust_scope = Inr s"
    using demo_rust_valid by blast
  have n: "normalize_rust demo_hash (demo_rust message) = Normalized
      \<lparr>nf_signature = s, nf_diagnostics = [diagnostic_note ''missing_deterministic_symbol''
         ''no deterministic diagnostic-to-symbol mapping was available; no symbol was inferred'']\<rparr>"
    using demo_rust_texts s
    by (simp add: normalize_rust_def demo_rust_def rust_error_def rust_code_def rust_path_def
        verification_subject_def rust_identity_def demo_diagnostic_def signature_def
        demo_rust_components_def demo_rust_scope_def)
  then show "normalize_rust demo_hash (demo_rust message) = Normalized (demo_rust_normal message)"
    by (simp add: demo_rust_normal_def)
  show "identity_capability (nf_signature (demo_rust_normal message)) = Exact"
    "sig_components (nf_signature (demo_rust_normal message)) = demo_rust_components"
    using s by (simp_all add: demo_rust_normal_def n signature_new_Inr)
qed

lemma demo_rust_registered:
  assumes "normalization_standard demo_hash = Inr reg"
  shows "normalize reg (demo_rust message) = Inr (Normalized (demo_rust_normal message))"
proof -
  obtain rules where m: "normalizer_registry_new (standard_normalizers demo_hash demo_profiles rules) = Inr reg"
    using assms by (auto simp: normalization_standard_Inr)
  have "map_of reg (contract_id RustCompilerResultContract)
      = Some (standard_normalizers demo_hash demo_profiles rules ! 0)"
    using normalizers.lookup [OF m] by (simp add: standard_normalizers_def normalizer_key_def)
  then show ?thesis
    by (simp add: normalize_def demo_rust_normalized(1)
        demo_rust_def [THEN arg_cong, of "\<lambda>e. env_contract (envelope e)"] standard_normalizers_def)
qed

definition demo_run_components :: "(string \<times> string) list" where
  "demo_run_components = test_run_components (demo_report True)
     (demo_case ''subtracts'' AssertionFailed (Some ''AssertionError'')) ''AssertionError''"

definition demo_run_scope :: failure_scope where
  "demo_run_scope = scope_of ''w'' (Some ''python'') ''python.unittest'' (Some ''tests.t'')
     (Some ''tests/t.py'')"

lemma demo_run_components_eq:
  "demo_run_components = btree_of
     [(''profile_id'', ''cortexweave.unittest.module_or_class''), (''profile_version'', ''1''),
      (''runner_id'', ''python.unittest''), (''runner_version'', ''3.14.7''),
      (''project_root'', ''.''), (''import_root'', ''.''), (''selection_kind'', ''module''),
      (''selection_value'', ''tests.t''), (''case_namespace'', encode_test_namespace [''suite'']),
      (''case_name'', ''subtracts''), (''error_class'', ''AssertionError'')]"
  by (simp add: demo_run_components_def test_run_components_def demo_run_defs)

lemma demo_run_texts:
  "list_all bounded_text [''cortexweave.test_run_failure'', ''1'', ''w'', ''python'',
     ''python.unittest'', ''tests.t'']"
  "\<not> unsafe_path ''tests/t.py''" "length demo_run_components = 11"
  "list_all (\<lambda>kv. component_name (fst kv)) demo_run_components"
  unfolding demo_run_components_eq by code_simp+

lemma demo_run_values: "list_all (\<lambda>kv. bounded_text (snd kv)) demo_run_components"
  unfolding demo_run_components_eq by code_simp

lemma demo_run_valid:
  "\<exists>s. signature_new blake3 TestRunDomain CompatibleOnly demo_run_components
     ''cortexweave.test_run_failure'' ''1'' demo_run_scope = Inr s"
proof (rule signature_new_accepts)
  show "valid_components demo_run_components"
    using demo_run_texts(3,4) demo_run_values
    by (auto simp: valid_components_def max_failure_components_def list_all_iff)
  show "valid_scope demo_run_scope"
    using demo_run_texts(1,2) by (simp add: valid_scope_def demo_run_scope_def scope_of_def)
qed (use demo_run_texts in simp_all)

definition demo_rerun :: "string \<Rightarrow> decoded_evidence" where
  "demo_rerun event = (demo_evidence True)
     \<lparr>envelope := (envelope (demo_evidence True))\<lparr>env_event_id := event\<rparr>\<rparr>"

definition demo_run_normal :: "string \<Rightarrow> failure_normalization" where
  "demo_run_normal event =
     (case projr (normalize_test_run demo_hash demo_profiles (demo_rerun event)) of Normalized n \<Rightarrow> n)"

lemma demo_failed_case:
  "filter (\<lambda>c. case_status c = AssertionFailed) (tr_cases (demo_report True))
   = [demo_case ''subtracts'' AssertionFailed (Some ''AssertionError'')]"
  by (simp add: demo_report_def demo_cases_def demo_case_def)

lemma demo_run_normalized:
  "normalize_test_run demo_hash demo_profiles (demo_rerun event) = Inr (Normalized (demo_run_normal event))"
  "sig_canonical_encoding (nf_signature (demo_run_normal event))
     = canonical_encoding TestRunDomain CompatibleOnly demo_run_components
         ''cortexweave.test_run_failure'' ''1'' demo_run_scope"
proof -
  obtain s where s: "signature_new demo_hash TestRunDomain CompatibleOnly demo_run_components
     ''cortexweave.test_run_failure'' ''1'' demo_run_scope = Inr s"
    using demo_run_valid by blast
  have obs: "observation (demo_rerun event) = TestRunResult (demo_report True)"
    "env_workspace_id (envelope (demo_rerun event)) = ''w''"
    by (simp_all add: demo_rerun_def demo_evidence_def)
  have sc: "scope_of ''w'' (tr_language (demo_report True)) (vc_id (tr_runner (demo_report True)))
      (Some (selection_value (tr_selection (demo_report True))))
      (Some (test_file (tr_selection (demo_report True)))) = demo_run_scope"
    by (simp add: demo_run_scope_def demo_run_defs)
  have err: "case_error_class (demo_case ''subtracts'' AssertionFailed (Some ''AssertionError''))
      = Some ''AssertionError''"
    by (simp add: demo_case_def)
  have "\<exists>n. normalize_test_run demo_hash demo_profiles (demo_rerun event) = Inr (Normalized n)
      \<and> nf_signature n = s"
    by (simp add: normalize_test_run_def obs demo_assessed Let_def demo_failed_case err sc
        demo_run_components_def [symmetric] signature_def s)
  then obtain n where n: "normalize_test_run demo_hash demo_profiles (demo_rerun event) = Inr (Normalized n)"
    "nf_signature n = s"
    by blast
  then have "demo_run_normal event = n"
    by (simp add: demo_run_normal_def)
  with n s show "normalize_test_run demo_hash demo_profiles (demo_rerun event) = Inr (Normalized (demo_run_normal event))"
    "sig_canonical_encoding (nf_signature (demo_run_normal event))
     = canonical_encoding TestRunDomain CompatibleOnly demo_run_components
         ''cortexweave.test_run_failure'' ''1'' demo_run_scope"
    by (simp_all add: signature_new_Inr well_formed_signature_def)
qed

section \<open>Properties\<close>

lemma normalize_total:
  assumes "decoder_registry_standard sd = Inr dreg" and "decode dreg sd event = Inr (Decoded e)"
    and "normalization_standard blake3 = Inr reg"
  shows "\<exists>x. normalize reg e = Inr x"
proof (cases "map_of reg (contract_id (env_contract (envelope e)))")
  case None
  then show ?thesis by (simp add: normalize_def)
next
  case (Some n)
  have ok: "observation_ok (observation e)"
    by (rule decoded_evidence_ok [OF assms(1,2)])
  have run: "\<exists>x. normalize_test_run blake3 demo_profiles e = Inr x"
    by (rule normalize_test_run_no_panic) (use ok in simp)
  obtain rules where "n \<in> set (standard_normalizers blake3 demo_profiles rules)"
    using standard_normalizer_lookup [OF assms(3) Some] .
  then have "\<exists>x. nz_normalize n e = Inr x"
    using run by (auto simp: standard_normalizers_def)
  with Some show ?thesis by (simp add: normalize_def)
qed

text \<open>From decoding to normalization nothing panics: whenever the standard registry decodes an
  event, the standard normalizer of its evidence returns a signature or a refusal.  The one
  \<open>expect\<close> on the way, that an eligible failed test run has an error class, cannot fail, because
  the decoder demands an error class of every assertion failure.\<close>

theorem normalization_never_panics:
  assumes "decoder_registry_standard sd = Inr dreg" and "decode dreg sd event = Inr (Decoded e)"
    and "normalization_standard blake3 = Inr reg"
  shows "\<exists>x. normalize reg e = Inr x"
  using assms by (rule normalize_total)

theorem normalization_never_panics_witness:
  "\<exists>reg x. normalization_standard demo_hash = Inr reg
     \<and> normalize reg (demo_evidence True) = Inr x"
proof -
  obtain reg where "normalization_standard demo_hash = Inr reg"
    using normalization_standard_exists by blast
  with normalization_never_panics [OF demo_registry_ok [of True] demo_decoded [of True]]
  show ?thesis by blast
qed

text \<open>C28. Exact identity is reserved: a signature that supports exact equality comes from a Rust
  compiler report with exactly one error diagnostic, whose code is E0308 and whose expected and
  actual types are both present and are both components of the signature.\<close>

theorem exact_identity_reserved:
  assumes "normalization_standard blake3 = Inr reg" and "normalize reg e = Inr (Normalized n)"
    and "is_exact_capable (nf_signature n)"
  shows "\<exists>r d x a. observation e = RustCompilerResult r \<and> rc_process_outcome r = ExitedNonzero
    \<and> filter (\<lambda>d. rd_level d = ErrorLevel) (rc_diagnostics r) = [d]
    \<and> rd_code d = Some ''E0308'' \<and> rd_expected_type d = Some x \<and> rd_actual_type d = Some a
    \<and> map_of (sig_components (nf_signature n)) ''expected_type'' = Some x
    \<and> map_of (sig_components (nf_signature n)) ''actual_type'' = Some a"
proof -
  obtain z where z: "map_of reg (contract_id (env_contract (envelope e))) = Some z"
    and norm: "nz_normalize z e = Inr (Normalized n)"
    using assms(2) by (auto simp: normalize_def split: option.splits)
  obtain rules where mem: "z \<in> set (standard_normalizers blake3 demo_profiles rules)"
    using standard_normalizer_lookup [OF assms(1) z] by blast
  have exact: "identity_capability (nf_signature n) = Exact"
    using assms(3) by (simp add: is_exact_capable_def)
  have cargo: "normalize_cargo blake3 e \<noteq> Normalized n"
    using exact by (auto elim: normalize_cargo_Normalized)
  have tool: "normalize_tool blake3 rules e \<noteq> Normalized n"
    using exact by (auto elim: normalize_tool_Normalized)
  have run: "normalize_test_run blake3 demo_profiles e \<noteq> Inr (Normalized n)"
    using exact by (auto elim!: normalize_test_run_Normalized simp: signature_new_Inr)
  have "normalize_rust blake3 e = Normalized n"
    using mem norm cargo tool run by (auto simp: standard_normalizers_def)
  then show ?thesis
  proof (rule normalize_rust_Normalized)
    fix r d c p cap cs
    assume obs: "observation e = RustCompilerResult r" "rc_process_outcome r = ExitedNonzero"
        "filter (\<lambda>d. rd_level d = ErrorLevel) (rc_diagnostics r) = [d]" "rd_code d = Some c"
      and id: "rust_identity c d (btree_of [(''diagnostic_code'', c),
         (''subject_kind'', subject_kind_name (es_kind (rc_subject r))),
         (''subject_value'', es_value (rc_subject r))]) = Inr (cap, cs, nf_diagnostics n)"
      and sig: "signature_new blake3 RustCompilerDomain cap cs
         ''cortexweave.rust_compiler_failure'' ''2''
         (scope_of (env_workspace_id (envelope e)) (Some ''rust'') ''rustc''
            (Some (es_value (rc_subject r))) (Some p)) = Inr (nf_signature n)"
    have "cap = Exact" "sig_components (nf_signature n) = cs"
      using sig exact by (simp_all add: signature_new_Inr)
    with rust_identity_Exact [of c d] id obs show ?thesis
      by fastforce
  qed
qed


theorem exact_identity_reserved_witness:
  "is_exact_capable (nf_signature (demo_rust_normal ''mismatched types''))
   \<and> map_of (sig_components (nf_signature (demo_rust_normal ''mismatched types''))) ''expected_type''
       = Some ''u8''"
proof -
  obtain reg where reg: "normalization_standard demo_hash = Inr reg"
    using normalization_standard_exists by blast
  have exact: "is_exact_capable (nf_signature (demo_rust_normal ''mismatched types''))"
    by (simp add: is_exact_capable_def demo_rust_normalized)
  from exact_identity_reserved [OF reg demo_rust_registered [OF reg] exact] exact show ?thesis
    by (auto simp: demo_rust_def demo_diagnostic_def)
qed

text \<open>Only failures are normalized: a signature is produced only for a compiler or Cargo report
  with a nonzero exit, for a test run assessed as eligible and failed, or for a verifier report
  that declares failure with a nonzero exit and matches the tool, operation and subject kind of
  the registered rule for its exact verifier version.\<close>

theorem only_failures_normalized:
  assumes "normalization_standard blake3 = Inr reg" and "normalize reg e = Inr (Normalized n)"
  shows "case observation e of
      RustCompilerResult r \<Rightarrow> rc_process_outcome r = ExitedNonzero
    | CargoTestResult r \<Rightarrow> ct_process_outcome r = ExitedNonzero
    | TestRunResult r \<Rightarrow> el_status (assess_report demo_profiles r) = EligibleFailed
    | GenericVerifierResult r \<Rightarrow> gv_process_outcome r = ExitedNonzero
        \<and> gv_reported_result r = VerificationFailed
        \<and> (\<exists>rules rule. rule_registry_standard = Inr rules
             \<and> rule_find rules (gv_verifier_id r) (gv_verifier_version r) = Some rule
             \<and> gv_tool r = vr_required_tool rule \<and> gv_operation r = vr_required_operation rule
             \<and> es_kind (gv_subject r) \<in> set (vr_allowed_subject_kinds rule))
    | _ \<Rightarrow> False"
proof -
  obtain z where z: "map_of reg (contract_id (env_contract (envelope e))) = Some z"
    and norm: "nz_normalize z e = Inr (Normalized n)"
    using assms(2) by (auto simp: normalize_def split: option.splits)
  obtain rules where rules: "rule_registry_standard = Inr rules"
    and mem: "z \<in> set (standard_normalizers blake3 demo_profiles rules)"
    using standard_normalizer_lookup [OF assms(1) z] by blast
  consider "normalize_rust blake3 e = Normalized n" | "normalize_cargo blake3 e = Normalized n"
    | "normalize_test_run blake3 demo_profiles e = Inr (Normalized n)"
    | "normalize_tool blake3 rules e = Normalized n"
    using mem norm by (auto simp: standard_normalizers_def)
  then show ?thesis
  proof cases
    case 1 then show ?thesis by (rule normalize_rust_Normalized) simp
  next
    case 2 then show ?thesis by (rule normalize_cargo_Normalized) simp
  next
    case 3 then show ?thesis by (rule normalize_test_run_Normalized) simp
  next
    case 4 then show ?thesis using rules by (elim normalize_tool_Normalized) auto
  qed
qed

theorem only_failures_normalized_witness:
  "\<exists>reg. normalization_standard demo_hash = Inr reg
    \<and> normalize reg (demo_rust ''m'') = Inr (Normalized (demo_rust_normal ''m''))
    \<and> (case observation (demo_rust ''m'') of
        RustCompilerResult r \<Rightarrow> rc_process_outcome r = ExitedNonzero | _ \<Rightarrow> False)"
proof -
  obtain reg where reg: "normalization_standard demo_hash = Inr reg"
    using normalization_standard_exists by blast
  from only_failures_normalized [OF reg demo_rust_registered [OF reg], of "''m''"]
  show ?thesis
    using reg demo_rust_registered [OF reg, of "''m''"] by (auto simp: demo_rust_def)
qed

text \<open>C29. Exact equality means the same type error in the same place: two compiler signatures that
  support exact identity and have one canonical encoding come from reports of the same workspace
  with the same subject, the same diagnostic path, and the same expected and actual types.\<close>

theorem exact_signature_identifies:
  assumes "normalize_rust blake3 e = Normalized n" and "normalize_rust blake3 e' = Normalized n'"
    and "is_exact_capable (nf_signature n)"
    and "sig_canonical_encoding (nf_signature n) = sig_canonical_encoding (nf_signature n')"
  shows "env_workspace_id (envelope e) = env_workspace_id (envelope e')
    \<and> (\<exists>r r' d d'. observation e = RustCompilerResult r \<and> observation e' = RustCompilerResult r'
        \<and> filter (\<lambda>d. rd_level d = ErrorLevel) (rc_diagnostics r) = [d]
        \<and> filter (\<lambda>d. rd_level d = ErrorLevel) (rc_diagnostics r') = [d']
        \<and> rc_subject r = rc_subject r' \<and> rd_code d = Some ''E0308'' \<and> rd_code d' = Some ''E0308''
        \<and> rd_path d = rd_path d' \<and> rd_expected_type d = rd_expected_type d'
        \<and> rd_actual_type d = rd_actual_type d')"
proof -
  obtain r d c p cap cs where a: "observation e = RustCompilerResult r"
      "filter (\<lambda>d. rd_level d = ErrorLevel) (rc_diagnostics r) = [d]"
      "rd_code d = Some c" "rd_path d = Some p"
    and ia: "rust_identity c d (btree_of [(''diagnostic_code'', c),
       (''subject_kind'', subject_kind_name (es_kind (rc_subject r))),
       (''subject_value'', es_value (rc_subject r))]) = Inr (cap, cs, nf_diagnostics n)"
    and sa: "signature_new blake3 RustCompilerDomain cap cs ''cortexweave.rust_compiler_failure'' ''2''
       (scope_of (env_workspace_id (envelope e)) (Some ''rust'') ''rustc''
          (Some (es_value (rc_subject r))) (Some p)) = Inr (nf_signature n)"
    using assms(1) by (rule normalize_rust_Normalized)
  obtain r' d' c' p' cap' cs' where b: "observation e' = RustCompilerResult r'"
      "filter (\<lambda>d. rd_level d = ErrorLevel) (rc_diagnostics r') = [d']"
      "rd_code d' = Some c'" "rd_path d' = Some p'"
    and ib: "rust_identity c' d' (btree_of [(''diagnostic_code'', c'),
       (''subject_kind'', subject_kind_name (es_kind (rc_subject r'))),
       (''subject_value'', es_value (rc_subject r'))]) = Inr (cap', cs', nf_diagnostics n')"
    and sb: "signature_new blake3 RustCompilerDomain cap' cs' ''cortexweave.rust_compiler_failure'' ''2''
       (scope_of (env_workspace_id (envelope e')) (Some ''rust'') ''rustc''
          (Some (es_value (rc_subject r'))) (Some p')) = Inr (nf_signature n')"
    using assms(2) by (rule normalize_rust_Normalized)
  have same: "cap = cap'" "cs = cs'" "env_workspace_id (envelope e) = env_workspace_id (envelope e')"
    "p = p'"
    using signature_new_determines [OF sa sb assms(4)] by (simp_all add: scope_of_def)
  have "cap = Exact"
    using sa assms(3) by (simp add: signature_new_Inr is_exact_capable_def)
  with ia ib same
  have ca: "map_of cs ''expected_type'' = rd_expected_type d \<and> map_of cs ''actual_type'' = rd_actual_type d
      \<and> map_of cs ''subject_kind'' = Some (subject_kind_name (es_kind (rc_subject r)))
      \<and> map_of cs ''subject_value'' = Some (es_value (rc_subject r)) \<and> c = ''E0308''"
    and cb: "map_of cs ''expected_type'' = rd_expected_type d' \<and> map_of cs ''actual_type'' = rd_actual_type d'
      \<and> map_of cs ''subject_kind'' = Some (subject_kind_name (es_kind (rc_subject r')))
      \<and> map_of cs ''subject_value'' = Some (es_value (rc_subject r')) \<and> c' = ''E0308''"
    using rust_components_of by blast+
  then have "rc_subject r = rc_subject r'"
    by (intro subject_eqI) auto
  with a b same ca cb show ?thesis
    by (intro conjI exI [of _ r] exI [of _ r'] exI [of _ d] exI [of _ d']) auto
qed

theorem exact_signature_identifies_witness:
  "env_workspace_id (envelope (demo_rust ''first wording''))
     = env_workspace_id (envelope (demo_rust ''second wording''))"
proof -
  have enc: "sig_canonical_encoding (nf_signature (demo_rust_normal m))
      = canonical_encoding RustCompilerDomain Exact demo_rust_components
          ''cortexweave.rust_compiler_failure'' ''2'' demo_rust_scope" for m
    using demo_rust_normalized(1) [of m] demo_rust_normalized(2,3) [of m]
    by (elim normalize_rust_Normalized)
      (auto simp: signature_new_Inr well_formed_signature_def demo_rust_def demo_diagnostic_def
        demo_rust_scope_def)
  show ?thesis
    using exact_signature_identifies [OF demo_rust_normalized(1) demo_rust_normalized(1),
        of "''first wording''" "''second wording''"] enc
    by (simp add: is_exact_capable_def demo_rust_normalized)
qed

text \<open>A test-run signature identifies the failing case: two of them with one canonical encoding
  come from the same workspace, profile, runner, selection and test file, and from a case with the
  same namespace, name and error class.\<close>

theorem test_run_signature_identifies:
  assumes "normalize_test_run blake3 ps e = Inr (Normalized n)"
    and "normalize_test_run blake3 ps e' = Inr (Normalized n')"
    and "sig_canonical_encoding (nf_signature n) = sig_canonical_encoding (nf_signature n')"
  shows "\<exists>r r' c c'. observation e = TestRunResult r \<and> observation e' = TestRunResult r'
    \<and> filter (\<lambda>c. case_status c = AssertionFailed) (tr_cases r) = [c]
    \<and> filter (\<lambda>c. case_status c = AssertionFailed) (tr_cases r') = [c']
    \<and> case_identity c = case_identity c' \<and> case_error_class c = case_error_class c'
    \<and> tr_profile r = tr_profile r' \<and> tr_runner r = tr_runner r'
    \<and> selection_kind (tr_selection r) = selection_kind (tr_selection r')
    \<and> selection_value (tr_selection r) = selection_value (tr_selection r')
    \<and> test_file (tr_selection r) = test_file (tr_selection r')
    \<and> env_workspace_id (envelope e) = env_workspace_id (envelope e')"
proof -
  obtain r c ec where a: "observation e = TestRunResult r"
      "filter (\<lambda>c. case_status c = AssertionFailed) (tr_cases r) = [c]" "case_error_class c = Some ec"
    and sa: "signature_new blake3 TestRunDomain CompatibleOnly (test_run_components r c ec)
       ''cortexweave.test_run_failure'' ''1''
       (scope_of (env_workspace_id (envelope e)) (tr_language r) (vc_id (tr_runner r))
          (Some (selection_value (tr_selection r))) (Some (test_file (tr_selection r))))
     = Inr (nf_signature n)"
    using assms(1) by (rule normalize_test_run_Normalized)
  obtain r' c' ec' where b: "observation e' = TestRunResult r'"
      "filter (\<lambda>c. case_status c = AssertionFailed) (tr_cases r') = [c']" "case_error_class c' = Some ec'"
    and sb: "signature_new blake3 TestRunDomain CompatibleOnly (test_run_components r' c' ec')
       ''cortexweave.test_run_failure'' ''1''
       (scope_of (env_workspace_id (envelope e')) (tr_language r') (vc_id (tr_runner r'))
          (Some (selection_value (tr_selection r'))) (Some (test_file (tr_selection r'))))
     = Inr (nf_signature n')"
    using assms(2) by (rule normalize_test_run_Normalized)
  have cs: "test_run_components r c ec = test_run_components r' c' ec'"
    and sc: "env_workspace_id (envelope e) = env_workspace_id (envelope e')"
      "test_file (tr_selection r) = test_file (tr_selection r')"
    using signature_new_determines [OF sa sb assms(3)] by (simp_all add: scope_of_def)
  note cs_a = test_run_components_of [of r c ec, unfolded cs, unfolded test_run_components_of]
  have "case_identity c = case_identity c'" "tr_profile r = tr_profile r'" "tr_runner r = tr_runner r'"
    using cs_a by (auto intro!: test_case_identity.equality versioned_component.equality)
  with a b sc cs_a show ?thesis
    by (intro exI [of _ r] exI [of _ r'] exI [of _ c] exI [of _ c']) auto
qed


theorem test_run_signature_identifies_witness:
  "\<exists>r c. observation (demo_rerun ''first'') = TestRunResult r
    \<and> filter (\<lambda>c. case_status c = AssertionFailed) (tr_cases r) = [c]"
  using test_run_signature_identifies [OF demo_run_normalized(1) demo_run_normalized(1),
      of "''first''" "''second''"]
  by (fastforce simp: demo_run_normalized(2))

text \<open>Prose never matters: changing the message of every diagnostic of a compiler report, or of
  every failure of a Cargo report, leaves the result of normalization unchanged.\<close>

theorem normalization_ignores_prose:
  "(case observation e of
      RustCompilerResult r \<Rightarrow>
        normalize_rust blake3 (e\<lparr>observation := RustCompilerResult
          (r\<lparr>rc_diagnostics := map (\<lambda>d. d\<lparr>rd_message := f (rd_message d)\<rparr>) (rc_diagnostics r)\<rparr>)\<rparr>)
        = normalize_rust blake3 e
    | CargoTestResult r \<Rightarrow>
        normalize_cargo blake3 (e\<lparr>observation := CargoTestResult
          (r\<lparr>ct_failures := map (\<lambda>t. t\<lparr>tf_message := g (tf_message t)\<rparr>) (ct_failures r)\<rparr>)\<rparr>)
        = normalize_cargo blake3 e
    | _ \<Rightarrow> True)"
proof -
  have step: "and_then (rust_error (r\<lparr>rc_diagnostics := map (\<lambda>d. d\<lparr>rd_message := f (rd_message d)\<rparr>)
        (rc_diagnostics r)\<rparr>)) k = and_then (rust_error r) k"
    if k: "\<And>d. k (d\<lparr>rd_message := f (rd_message d)\<rparr>) = k d" for r k
  proof -
    have filtered: "filter (\<lambda>d. rd_level d = ErrorLevel) (map (\<lambda>d. d\<lparr>rd_message := f (rd_message d)\<rparr>)
        (rc_diagnostics r)) = map (\<lambda>d. d\<lparr>rd_message := f (rd_message d)\<rparr>)
        (filter (\<lambda>d. rd_level d = ErrorLevel) (rc_diagnostics r))"
      by (simp add: filter_map comp_def)
    show ?thesis
      using k by (simp add: rust_error_def filtered split: list.split)
  qed
  have cargo: "and_then (cargo_failure (r\<lparr>ct_failures := map (\<lambda>t. t\<lparr>tf_message := g (tf_message t)\<rparr>)
        (ct_failures r)\<rparr>)) k = and_then (cargo_failure r) k"
    if k: "\<And>t. k (t\<lparr>tf_message := g (tf_message t)\<rparr>) = k t" for r k
    using k by (simp add: cargo_failure_def split: list.split)
  have prose: "rust_code (d\<lparr>rd_message := m\<rparr>) = rust_code d"
      "rust_path (d\<lparr>rd_message := m\<rparr>) = rust_path d"
      "rust_identity c (d\<lparr>rd_message := m\<rparr>) cs = rust_identity c d cs" for c d m cs
    by (simp_all add: rust_code_def rust_path_def rust_identity_def Let_def)
  have rust: "normalize_rust blake3 (e\<lparr>observation := RustCompilerResult
        (r\<lparr>rc_diagnostics := map (\<lambda>d. d\<lparr>rd_message := f (rd_message d)\<rparr>) (rc_diagnostics r)\<rparr>)\<rparr>)
      = normalize_rust blake3 e" if "observation e = RustCompilerResult r" for r
    unfolding normalize_rust_def that
    by (simp, rule arg_cong [where f = finish], rule step) (simp add: prose)
  have cargo: "normalize_cargo blake3 (e\<lparr>observation := CargoTestResult
        (r\<lparr>ct_failures := map (\<lambda>t. t\<lparr>tf_message := g (tf_message t)\<rparr>) (ct_failures r)\<rparr>)\<rparr>)
      = normalize_cargo blake3 e" if "observation e = CargoTestResult r" for r
    unfolding normalize_cargo_def that
    by (simp add: Let_def cong: if_cong, rule arg_cong [where f = finish], rule cargo) (simp cong: if_cong)
  show ?thesis
    by (simp add: rust cargo split: evidence_observation.split)
qed

end
