(* ===== verification/GraphDomain.thy ===== *)
theory GraphDomain
  imports EvidenceDomain Float32
begin

text \<open>
  The structural graph's data model: \<open>src/domain/graph.rs\<close>, \<open>src/domain/structural.rs\<close> and
  the parts of \<open>src/domain/models.rs\<close>, \<open>src/domain/chunk.rs\<close> and \<open>src/domain/repair.rs\<close> that
  it uses.  Timestamps and \<open>i64\<close> columns are integers, \<open>f32\<close> is its bit pattern.  An
  enumeration with an open variant is stored as a name; the locale \<open>stored_enum\<close> states what
  makes the stored name readable and is interpreted for the three such enumerations.
\<close>

section \<open>Stored names of open enumerations\<close>

text \<open>\<open>storage_name\<close> and \<open>from_storage\<close>: \<open>serde\<close> renders a unit variant as its name and the open
  variant as an object, for which the code falls back to the prefix \<open>other:\<close>.\<close>

definition other_prefix :: string where "other_prefix = ''other:''"

definition stored_name :: "(string \<times> 'a) list \<Rightarrow> ('a \<Rightarrow> string option) \<Rightarrow> 'a \<Rightarrow> string" where
  "stored_name table other_of x =
     (case other_of x of
        Some v \<Rightarrow> other_prefix @ v
      | None \<Rightarrow> (case find (\<lambda>(n, y). y = x) table of Some (n, y) \<Rightarrow> n | None \<Rightarrow> ''other''))"

definition read_name :: "(string \<times> 'a) list \<Rightarrow> (string \<Rightarrow> 'a) \<Rightarrow> string \<Rightarrow> 'a" where
  "read_name table other v =
     (case map_of table v of
        Some x \<Rightarrow> x
      | None \<Rightarrow> other (case strip_prefix_str other_prefix v of Some r \<Rightarrow> r | None \<Rightarrow> v))"

locale stored_enum =
  fixes table :: "(string \<times> 'a) list" and other :: "string \<Rightarrow> 'a"
    and other_of :: "'a \<Rightarrow> string option"
  assumes names_distinct: "distinct (map fst table)"
    and names_plain: "list_all (\<lambda>(n, x). \<not> prefix other_prefix n \<and> other_of x = None) table"
    and other_of_other: "other_of x = Some v \<longleftrightarrow> x = other v"
    and table_complete: "other_of x = None \<Longrightarrow> x \<in> snd ` set table"
begin

lemma other_not_named: "map_of table (other_prefix @ v) = None"
  using names_plain by (fastforce simp: map_of_eq_None_iff list_all_iff)

lemma read_stored: "read_name table other (stored_name table other_of x) = x"
proof (cases "other_of x")
  case None
  then obtain m where m: "(m, x) \<in> set table"
    using table_complete [of x] by force
  then have "find (\<lambda>(n, y). y = x) table \<noteq> None"
    by (auto simp: find_None_iff)
  then obtain n y where found: "find (\<lambda>(n, y). y = x) table = Some (n, y)"
    by auto
  then have "(n, y) \<in> set table \<and> y = x" by (auto dest: find_SomeD)
  then have "map_of table n = Some x"
    using names_distinct by (auto intro: map_of_is_SomeI)
  with None found show ?thesis
    by (simp add: stored_name_def read_name_def)
next
  case (Some v)
  then have "x = other v" by (simp add: other_of_other)
  with Some show ?thesis
    by (simp add: stored_name_def read_name_def other_not_named strip_prefix_str_def)
qed

lemma stored_inject: "stored_name table other_of x = stored_name table other_of y \<longleftrightarrow> x = y"
  by (metis read_stored)

end

section \<open>Enumerations\<close>

datatype graph_node_type =
    WorkspaceNode | ModuleNode | NamespaceNode | PackageNode | FileNode | ClassNode | StructNode
  | EnumNode | TraitNode | InterfaceNode | FunctionNode | MethodNode | ConstructorNode | TypeNode
  | ConstantNode | TestNode | UnknownSymbolNode | OtherNode string

definition node_type_names :: "(string \<times> graph_node_type) list" where
  "node_type_names =
     [(''workspace'', WorkspaceNode), (''module'', ModuleNode), (''namespace'', NamespaceNode),
      (''package'', PackageNode), (''file'', FileNode), (''class'', ClassNode),
      (''struct'', StructNode), (''enum'', EnumNode), (''trait'', TraitNode),
      (''interface'', InterfaceNode), (''function'', FunctionNode), (''method'', MethodNode),
      (''constructor'', ConstructorNode), (''type'', TypeNode), (''constant'', ConstantNode),
      (''test'', TestNode), (''unknown_symbol'', UnknownSymbolNode)]"

fun other_node_type :: "graph_node_type \<Rightarrow> string option" where
  "other_node_type (OtherNode v) = Some v"
| "other_node_type _ = None"

definition node_type_storage_name :: "graph_node_type \<Rightarrow> string" where
  "node_type_storage_name = stored_name node_type_names other_node_type"

definition node_type_from_storage :: "string \<Rightarrow> graph_node_type" where
  "node_type_from_storage = read_name node_type_names OtherNode"

datatype graph_edge_type =
    Contains | Imports | Exports | Calls | References | Implements | Extends | UsesType
  | Constructs | Overrides | Tests | DeclaredIn | DependsOn | OtherEdge string

definition edge_type_names :: "(string \<times> graph_edge_type) list" where
  "edge_type_names =
     [(''contains'', Contains), (''imports'', Imports), (''exports'', Exports),
      (''calls'', Calls), (''references'', References), (''implements'', Implements),
      (''extends'', Extends), (''uses_type'', UsesType), (''constructs'', Constructs),
      (''overrides'', Overrides), (''tests'', Tests), (''declared_in'', DeclaredIn),
      (''depends_on'', DependsOn)]"

fun other_edge_type :: "graph_edge_type \<Rightarrow> string option" where
  "other_edge_type (OtherEdge v) = Some v"
| "other_edge_type _ = None"

definition edge_type_storage_name :: "graph_edge_type \<Rightarrow> string" where
  "edge_type_storage_name = stored_name edge_type_names other_edge_type"

definition edge_type_from_storage :: "string \<Rightarrow> graph_edge_type" where
  "edge_type_from_storage = read_name edge_type_names OtherEdge"

datatype relationship_target_kind =
    LocalStableKeyKind | QualifiedSymbolKind | ModulePathKind | ExternalKind | UnresolvedKind
  | OtherKind string

definition target_kind_names :: "(string \<times> relationship_target_kind) list" where
  "target_kind_names =
     [(''local_stable_key'', LocalStableKeyKind), (''qualified_symbol'', QualifiedSymbolKind),
      (''module_path'', ModulePathKind), (''external'', ExternalKind),
      (''unresolved'', UnresolvedKind)]"

fun other_target_kind :: "relationship_target_kind \<Rightarrow> string option" where
  "other_target_kind (OtherKind v) = Some v"
| "other_target_kind _ = None"

definition target_kind_storage_name :: "relationship_target_kind \<Rightarrow> string" where
  "target_kind_storage_name = stored_name target_kind_names other_target_kind"

definition target_kind_from_storage :: "string \<Rightarrow> relationship_target_kind" where
  "target_kind_from_storage = read_name target_kind_names OtherKind"

datatype symbol_kind =
    FunctionSymbol | MethodSymbol | ClassSymbol | StructSymbol | EnumSymbol | TraitSymbol
  | InterfaceSymbol | ModuleSymbol | NamespaceSymbol | TypeSymbol | ConstantSymbol
  | VariableSymbol | ImplementationSymbol | OtherSymbol string

definition symbol_kind_names :: "(string \<times> symbol_kind) list" where
  "symbol_kind_names =
     [(''function'', FunctionSymbol), (''method'', MethodSymbol), (''class'', ClassSymbol),
      (''struct'', StructSymbol), (''enum'', EnumSymbol), (''trait'', TraitSymbol),
      (''interface'', InterfaceSymbol), (''module'', ModuleSymbol),
      (''namespace'', NamespaceSymbol), (''type'', TypeSymbol), (''constant'', ConstantSymbol),
      (''variable'', VariableSymbol), (''implementation'', ImplementationSymbol)]"

fun other_symbol_kind :: "symbol_kind \<Rightarrow> string option" where
  "other_symbol_kind (OtherSymbol v) = Some v"
| "other_symbol_kind _ = None"

definition symbol_kind_storage_name :: "symbol_kind \<Rightarrow> string" where
  "symbol_kind_storage_name = stored_name symbol_kind_names other_symbol_kind"

definition symbol_kind_from_storage :: "string \<Rightarrow> symbol_kind" where
  "symbol_kind_from_storage = read_name symbol_kind_names OtherSymbol"

interpretation symbol_kinds: stored_enum symbol_kind_names OtherSymbol other_symbol_kind
proof
  fix x :: symbol_kind
  show "other_symbol_kind x = None \<Longrightarrow> x \<in> snd ` set symbol_kind_names"
    by (cases x) (simp_all add: symbol_kind_names_def)
  show "other_symbol_kind x = Some v \<longleftrightarrow> x = OtherSymbol v" for v
    by (cases x) auto
qed (simp_all add: symbol_kind_names_def other_prefix_def)

interpretation node_types: stored_enum node_type_names OtherNode other_node_type
proof
  fix x :: graph_node_type
  show "other_node_type x = None \<Longrightarrow> x \<in> snd ` set node_type_names"
    by (cases x) (simp_all add: node_type_names_def)
  show "other_node_type x = Some v \<longleftrightarrow> x = OtherNode v" for v
    by (cases x) auto
qed (simp_all add: node_type_names_def other_prefix_def)

interpretation edge_types: stored_enum edge_type_names OtherEdge other_edge_type
proof
  fix x :: graph_edge_type
  show "other_edge_type x = None \<Longrightarrow> x \<in> snd ` set edge_type_names"
    by (cases x) (simp_all add: edge_type_names_def)
  show "other_edge_type x = Some v \<longleftrightarrow> x = OtherEdge v" for v
    by (cases x) auto
qed (simp_all add: edge_type_names_def other_prefix_def)

interpretation target_kinds: stored_enum target_kind_names OtherKind other_target_kind
proof
  fix x :: relationship_target_kind
  show "other_target_kind x = None \<Longrightarrow> x \<in> snd ` set target_kind_names"
    by (cases x) (simp_all add: target_kind_names_def)
  show "other_target_kind x = Some v \<longleftrightarrow> x = OtherKind v" for v
    by (cases x) auto
qed (simp_all add: target_kind_names_def other_prefix_def)

text \<open>The closed enumerations read any unknown name as a default.\<close>

datatype graph_state = CurrentGraph | UpdatingGraph | StaleGraph | ErrorGraph

fun graph_state_storage_name :: "graph_state \<Rightarrow> string" where
  "graph_state_storage_name CurrentGraph = ''current''"
| "graph_state_storage_name UpdatingGraph = ''updating''"
| "graph_state_storage_name StaleGraph = ''stale''"
| "graph_state_storage_name ErrorGraph = ''error''"

definition graph_state_from_storage :: "string \<Rightarrow> graph_state" where
  "graph_state_from_storage v =
     (if v = ''current'' then CurrentGraph
      else if v = ''updating'' then UpdatingGraph
      else if v = ''error'' then ErrorGraph
      else StaleGraph)"

datatype graph_repair_mode = IfNeeded | Force

fun repair_mode_storage_name :: "graph_repair_mode \<Rightarrow> string" where
  "repair_mode_storage_name IfNeeded = ''if_needed''"
| "repair_mode_storage_name Force = ''force''"

definition repair_mode_from_storage :: "string \<Rightarrow> graph_repair_mode" where
  "repair_mode_from_storage v = (if v = ''force'' then Force else IfNeeded)"

datatype graph_repair_state = RepairActive | RepairFailed | RepairInterrupted | RepairCompleted

fun repair_state_storage_name :: "graph_repair_state \<Rightarrow> string" where
  "repair_state_storage_name RepairActive = ''active''"
| "repair_state_storage_name RepairFailed = ''failed''"
| "repair_state_storage_name RepairInterrupted = ''interrupted''"
| "repair_state_storage_name RepairCompleted = ''completed''"

definition repair_state_from_storage :: "string \<Rightarrow> graph_repair_state" where
  "repair_state_from_storage v =
     (if v = ''active'' then RepairActive
      else if v = ''failed'' then RepairFailed
      else if v = ''completed'' then RepairCompleted
      else RepairInterrupted)"

definition blocks_structural_reads :: "graph_repair_state \<Rightarrow> bool" where
  "blocks_structural_reads s \<longleftrightarrow> s \<noteq> RepairCompleted"

section \<open>Nodes, edges and revisions\<close>

type_synonym timestamp = int

record source_segment =
  segment_source :: string
  segment_start_byte :: nat
  segment_end_byte :: nat

record graph_node =
  node_id :: string
  node_workspace_id :: string
  node_type_of :: graph_node_type
  node_stable_key :: string
  node_language :: "string option"
  node_name :: string
  node_qualified_name :: "string option"
  node_document_id :: "string option"
  node_chunk_id :: "string option"
  node_source_segment :: "source_segment option"
  node_analyzer_id :: string
  node_analyzer_version :: string
  node_structure_version :: string
  node_content_revision :: int
  node_metadata :: json
  node_created_at :: timestamp
  node_updated_at :: timestamp

record graph_edge =
  edge_id :: string
  edge_workspace_id :: string
  edge_relationship_key :: string
  edge_relationship_fact_id :: "string option"
  edge_from_node :: string
  edge_to_node :: string
  edge_type_of :: graph_edge_type
  edge_confidence :: f32
  edge_analyzer_id :: string
  edge_analyzer_version :: string
  edge_structure_version :: string
  edge_source_document_id :: "string option"
  edge_source_segment :: "source_segment option"
  edge_content_revision :: int
  edge_metadata :: json
  edge_created_at :: timestamp

record workspace_graph_revision =
  revision_workspace_id :: string
  revision_content_revision :: int
  revision_graph_content_revision :: int
  revision_graph_schema_version :: int
  revision_graph_state :: graph_state
  revision_update_started_at :: "timestamp option"
  revision_failed_target :: "int option"
  revision_last_error :: "string option"
  revision_updated_at :: timestamp

definition is_current :: "workspace_graph_revision \<Rightarrow> bool" where
  "is_current r \<longleftrightarrow> revision_graph_state r = CurrentGraph
     \<and> revision_content_revision r = revision_graph_content_revision r
     \<and> revision_last_error r = None"

record graph_analysis_state =
  analysis_document_id :: string
  analysis_workspace_id :: string
  analysis_content_revision :: int
  analysis_analyzer_id :: string
  analysis_analyzer_version :: string
  analysis_structure_version :: string
  analysis_last_error :: "string option"
  analysis_analyzed_at :: timestamp

record graph_repair_generation =
  repair_workspace_id :: string
  repair_generation_id :: string
  repair_mode_of :: graph_repair_mode
  repair_target_revision :: int
  repair_state_of :: graph_repair_state
  repair_started_at :: timestamp
  repair_lease_expires_at :: timestamp
  repair_updated_at :: timestamp
  repair_completed_at :: "timestamp option"
  repair_documents_considered :: nat
  repair_documents_repaired :: nat
  repair_documents_failed :: nat
  repair_last_error :: "string option"

record document =
  document_id :: string
  document_workspace_id :: string
  document_relative_path :: string
  document_language :: string
  document_analyzer_id :: string
  document_analyzer_version :: string
  document_segmentation_id :: string
  document_content_revision :: int
  document_content_hash :: string
  document_size_bytes :: int
  document_modified_at_ns :: "int option"
  document_indexed_at :: timestamp

section \<open>What analyzers return\<close>

datatype relationship_target =
    LocalStableKey string
  | QualifiedSymbol string
  | ModulePath string
  | ExternalTarget string
  | UnresolvedTarget string

record analyzed_relationship =
  relationship_key :: string
  relationship_from_key :: string
  relationship_target_of :: relationship_target
  relationship_type :: graph_edge_type
  relationship_confidence :: f32
  relationship_start_byte :: "nat option"
  relationship_end_byte :: "nat option"
  relationship_start_line :: "nat option"
  relationship_end_line :: "nat option"
  relationship_metadata :: json

record analyzed_chunk =
  chunk_stable_key :: string
  chunk_language :: string
  chunk_symbol :: "string option"
  chunk_qualified_symbol :: "string option"
  chunk_symbol_kind :: "symbol_kind option"
  chunk_start_byte :: nat
  chunk_end_byte :: nat
  chunk_start_line :: nat
  chunk_end_line :: nat
  chunk_content :: string
  chunk_metadata :: json

record analyzed_symbol =
  symbol_stable_key :: string
  symbol_name :: string
  symbol_qualified_name :: "string option"
  symbol_kind_of :: symbol_kind
  symbol_parent_key :: "string option"
  symbol_start_byte :: nat
  symbol_end_byte :: nat
  symbol_start_line :: nat
  symbol_end_line :: nat
  symbol_metadata :: json

record analysis_result =
  result_chunks :: "analyzed_chunk list"
  result_symbols :: "analyzed_symbol list"
  result_relationships :: "analyzed_relationship list"

definition chunks_only :: "analyzed_chunk list \<Rightarrow> analysis_result" where
  "chunks_only cs = \<lparr>result_chunks = cs, result_symbols = [], result_relationships = []\<rparr>"

section \<open>Structural reads\<close>

definition max_structural_nodes :: nat where "max_structural_nodes = 1000"
definition max_structural_edges :: nat where "max_structural_edges = 5000"
definition max_structural_depth :: nat where "max_structural_depth = 8"

datatype structural_direction = Outgoing | Incoming | Both

record structural_read_options =
  allow_stale :: bool
  max_nodes :: nat
  max_edges :: nat
  max_depth :: nat

record structural_path =
  path_node_ids :: "string list"
  path_edges :: "graph_edge list"
  path_confidence :: f32

definition distance :: "structural_path \<Rightarrow> nat" where
  "distance p = length (path_edges p)"

record structural_result =
  result_snapshot :: workspace_graph_revision
  result_limits :: structural_read_options
  result_seeds :: "graph_node list"
  result_nodes :: "graph_node list"
  result_edges :: "graph_edge list"
  result_paths :: "structural_path list"
  result_truncated :: bool

record impact_item =
  impact_node :: graph_node
  impact_path :: structural_path
  impact_confidence :: f32

record impact_report =
  report_snapshot :: workspace_graph_revision
  report_limits :: structural_read_options
  report_seeds :: "graph_node list"
  report_impacts :: "impact_item list"
  report_truncated :: bool

section \<open>Resolution requests\<close>

record resolution_alias =
  alias_name :: string
  alias_target :: string

record resolution_request =
  request_workspace_id :: string
  request_target :: relationship_target
  request_source_document_id :: "string option"
  request_source_node_id :: "string option"
  request_language :: "string option"
  request_aliases :: "resolution_alias list"
  request_external_module_roots :: "string list"

datatype resolution_basis =
    ByLocalStableKey | ByAlias | ByEnclosingContainer | ByQualifiedName | BySourceDocument
  | ByWorkspaceName | ByModule

datatype resolution_outcome =
    Resolved graph_node resolution_basis
  | Ambiguous "graph_node list" "string list" resolution_basis
  | External string
  | Unresolved string

definition resolved_node :: "resolution_outcome \<Rightarrow> graph_node option" where
  "resolved_node r = (case r of Resolved n b \<Rightarrow> Some n | _ \<Rightarrow> None)"

section \<open>Properties\<close>

text \<open>What the graph stores under a type name it reads back: node types, edge types, target
  kinds, graph states, repair modes and repair states all survive being written and read,
  whatever text an open variant carries.\<close>

theorem graph_names_roundtrip:
  "node_type_from_storage (node_type_storage_name n) = n
   \<and> edge_type_from_storage (edge_type_storage_name e) = e
   \<and> target_kind_from_storage (target_kind_storage_name k) = k
   \<and> symbol_kind_from_storage (symbol_kind_storage_name y) = y
   \<and> graph_state_from_storage (graph_state_storage_name s) = s
   \<and> repair_mode_from_storage (repair_mode_storage_name m) = m
   \<and> repair_state_from_storage (repair_state_storage_name r) = r"
  by (cases s; cases m; cases r)
    (simp_all add: node_type_from_storage_def node_type_storage_name_def
      edge_type_from_storage_def edge_type_storage_name_def target_kind_from_storage_def
      target_kind_storage_name_def node_types.read_stored edge_types.read_stored
      target_kinds.read_stored symbol_kind_from_storage_def symbol_kind_storage_name_def
      symbol_kinds.read_stored graph_state_from_storage_def repair_mode_from_storage_def
      repair_state_from_storage_def)

lemma edge_type_storage_name_inject [simp]:
  "edge_type_storage_name a = edge_type_storage_name b \<longleftrightarrow> a = b"
  by (simp add: edge_type_storage_name_def edge_types.stored_inject)

end
