(* ===== verification/ExperienceDomain.thy ===== *)
theory ExperienceDomain
  imports FailureNormalize GraphDomain
begin

text \<open>
  The data model of consolidated experiences: \<open>src/domain/experience.rs\<close>.  An experience is the
  immutable record of one episode; assessments are appended to it and decide its lifecycle.  The
  locale \<open>named_enum\<close> states when a stored name of a closed enumeration reads back, and is
  interpreted for each of them.  Ids and the clock are arguments of what draws them.
\<close>

section \<open>Stored names of closed enumerations\<close>

text \<open>\<open>as_str\<close> and \<open>from_storage\<close>, which falls back to one variant.\<close>

definition enum_name :: "(string \<times> 'a) list \<Rightarrow> 'a \<Rightarrow> string" where
  "enum_name table x = (case find (\<lambda>(n, y). y = x) table of Some (n, y) \<Rightarrow> n | None \<Rightarrow> [])"

definition enum_read :: "(string \<times> 'a) list \<Rightarrow> 'a \<Rightarrow> string \<Rightarrow> 'a" where
  "enum_read table fallback v = (case map_of table v of Some x \<Rightarrow> x | None \<Rightarrow> fallback)"

locale named_enum =
  fixes table :: "(string \<times> 'a) list"
  assumes names_distinct: "distinct (map fst table)"
    and complete: "x \<in> snd ` set table"
begin

lemma read_name: "enum_read table fallback (enum_name table x) = x"
proof -
  obtain m where "(m, x) \<in> set table" using complete [of x] by force
  then have "find (\<lambda>(n, y). y = x) table \<noteq> None" by (auto simp: find_None_iff)
  then obtain n y where found: "find (\<lambda>(n, y). y = x) table = Some (n, y)" by auto
  then have "(n, y) \<in> set table \<and> y = x" by (auto dest: find_SomeD)
  then have "map_of table n = Some x" using names_distinct by (auto intro: map_of_is_SomeI)
  with found show ?thesis by (simp add: enum_name_def enum_read_def)
qed

lemma name_inject: "enum_name table x = enum_name table y \<longleftrightarrow> x = y"
  by (metis read_name)

end

section \<open>Enumerations\<close>

definition max_experience_assessment_evidence :: nat where "max_experience_assessment_evidence = 64"
definition max_experience_assessment_page_limit :: nat where
  "max_experience_assessment_page_limit = 50"
definition max_experience_search_limit :: nat where "max_experience_search_limit = 50"
definition max_experience_search_candidates :: nat where "max_experience_search_candidates = 200"
definition experience_summary_renderer_version :: string where
  "experience_summary_renderer_version = ''2''"
definition experience_canonicalization_version :: string where
  "experience_canonicalization_version = ''1''"

datatype experience_outcome =
  SuccessOutcome | FailureOutcome | PartialSuccessOutcome | InconclusiveOutcome | AbandonedOutcome

definition outcome_names :: "(string \<times> experience_outcome) list" where
  "outcome_names = [(''success'', SuccessOutcome), (''failure'', FailureOutcome),
     (''partial_success'', PartialSuccessOutcome), (''inconclusive'', InconclusiveOutcome),
     (''abandoned'', AbandonedOutcome)]"

definition outcome_as_str :: "experience_outcome \<Rightarrow> string" where
  "outcome_as_str = enum_name outcome_names"

definition outcome_from_storage :: "string \<Rightarrow> experience_outcome" where
  "outcome_from_storage = enum_read outcome_names InconclusiveOutcome"

datatype attempt_result =
  StillFailing | AttemptPassed | AttemptFailed | ChangedFailure | InconclusiveAttempt

definition attempt_result_names :: "(string \<times> attempt_result) list" where
  "attempt_result_names = [(''still_failing'', StillFailing), (''verification_passed'', AttemptPassed),
     (''verification_failed'', AttemptFailed), (''verification_changed_failure'', ChangedFailure),
     (''inconclusive'', InconclusiveAttempt)]"

definition attempt_result_as_str :: "attempt_result \<Rightarrow> string" where
  "attempt_result_as_str = enum_name attempt_result_names"

definition attempt_result_from_storage :: "string \<Rightarrow> attempt_result" where
  "attempt_result_from_storage = enum_read attempt_result_names InconclusiveAttempt"

datatype verification_status =
  VerifiedPassed | VerifiedFailed | ExplicitlyAccepted | ConflictingStatus | MissingStatus
  | UnsupportedStatus

definition status_names :: "(string \<times> verification_status) list" where
  "status_names = [(''verified_passed'', VerifiedPassed), (''verified_failed'', VerifiedFailed),
     (''explicitly_accepted'', ExplicitlyAccepted), (''conflicting'', ConflictingStatus),
     (''missing'', MissingStatus), (''unsupported'', UnsupportedStatus)]"

definition status_as_str :: "verification_status \<Rightarrow> string" where
  "status_as_str = enum_name status_names"

definition status_from_storage :: "string \<Rightarrow> verification_status" where
  "status_from_storage = enum_read status_names UnsupportedStatus"

datatype verification_kind =
  RustCompilerKind | CargoTestKind | TestRunKind | RegisteredToolKind | UserAcceptanceKind | NoKind

definition kind_names :: "(string \<times> verification_kind) list" where
  "kind_names = [(''rust_compiler'', RustCompilerKind), (''cargo_test'', CargoTestKind),
     (''test_run'', TestRunKind), (''registered_tool'', RegisteredToolKind),
     (''user_acceptance'', UserAcceptanceKind), (''none'', NoKind)]"

definition kind_as_str :: "verification_kind \<Rightarrow> string" where
  "kind_as_str = enum_name kind_names"

definition kind_from_storage :: "string \<Rightarrow> verification_kind" where
  "kind_from_storage = enum_read kind_names NoKind"

datatype evidence_strength = Strong | Moderate | Weak | UnsupportedStrength

definition strength_names :: "(string \<times> evidence_strength) list" where
  "strength_names = [(''strong'', Strong), (''moderate'', Moderate), (''weak'', Weak),
     (''unsupported'', UnsupportedStrength)]"

definition strength_as_str :: "evidence_strength \<Rightarrow> string" where
  "strength_as_str = enum_name strength_names"

definition strength_from_storage :: "string \<Rightarrow> evidence_strength" where
  "strength_from_storage = enum_read strength_names UnsupportedStrength"

datatype evidence_basis =
  DeterministicVerifier | RepeatedDeterministicEvidence | ExplicitUserAcceptance
  | ExplicitHarnessAssertion | TemporalAssociation | StructuralAssociation

definition basis_names :: "(string \<times> evidence_basis) list" where
  "basis_names = [(''deterministic_verifier'', DeterministicVerifier),
     (''repeated_deterministic_evidence'', RepeatedDeterministicEvidence),
     (''explicit_user_acceptance'', ExplicitUserAcceptance),
     (''explicit_harness_assertion'', ExplicitHarnessAssertion),
     (''temporal_association'', TemporalAssociation),
     (''structural_association'', StructuralAssociation)]"

definition basis_as_str :: "evidence_basis \<Rightarrow> string" where
  "basis_as_str = enum_name basis_names"

definition basis_from_storage :: "string \<Rightarrow> evidence_basis" where
  "basis_from_storage = enum_read basis_names StructuralAssociation"

datatype evidence_relation =
  InitialFailure | AttemptChange | AttemptVerification | TerminalVerification | Supporting

definition relation_names :: "(string \<times> evidence_relation) list" where
  "relation_names = [(''initial_failure'', InitialFailure), (''attempt_change'', AttemptChange),
     (''attempt_verification'', AttemptVerification),
     (''terminal_verification'', TerminalVerification), (''supporting'', Supporting)]"

definition relation_as_str :: "evidence_relation \<Rightarrow> string" where
  "relation_as_str = enum_name relation_names"

definition relation_from_storage :: "string \<Rightarrow> evidence_relation" where
  "relation_from_storage = enum_read relation_names Supporting"

datatype assessment_kind =
  DisputedAssessment | RefutedAssessment | SupersededAssessment | ConfirmedAssessment

definition assessment_names :: "(string \<times> assessment_kind) list" where
  "assessment_names = [(''disputed'', DisputedAssessment), (''refuted'', RefutedAssessment),
     (''superseded'', SupersededAssessment), (''confirmed'', ConfirmedAssessment)]"

definition assessment_as_str :: "assessment_kind \<Rightarrow> string" where
  "assessment_as_str = enum_name assessment_names"

definition assessment_from_storage :: "string \<Rightarrow> assessment_kind" where
  "assessment_from_storage = enum_read assessment_names ConfirmedAssessment"

datatype experience_lifecycle =
  ActiveLifecycle | DisputedLifecycle | RefutedLifecycle | SupersededLifecycle

interpretation outcome_enum: named_enum outcome_names
proof unfold_locales
  show "x \<in> snd ` set outcome_names" for x by (cases x) (simp_all add: outcome_names_def)
qed (simp add: outcome_names_def)

interpretation attempt_result_enum: named_enum attempt_result_names
proof unfold_locales
  show "x \<in> snd ` set attempt_result_names" for x
    by (cases x) (simp_all add: attempt_result_names_def)
qed (simp add: attempt_result_names_def)

interpretation status_enum: named_enum status_names
proof unfold_locales
  show "x \<in> snd ` set status_names" for x by (cases x) (simp_all add: status_names_def)
qed (simp add: status_names_def)

interpretation kind_enum: named_enum kind_names
proof unfold_locales
  show "x \<in> snd ` set kind_names" for x by (cases x) (simp_all add: kind_names_def)
qed (simp add: kind_names_def)

interpretation strength_enum: named_enum strength_names
proof unfold_locales
  show "x \<in> snd ` set strength_names" for x by (cases x) (simp_all add: strength_names_def)
qed (simp add: strength_names_def)

interpretation basis_enum: named_enum basis_names
proof unfold_locales
  show "x \<in> snd ` set basis_names" for x by (cases x) (simp_all add: basis_names_def)
qed (simp add: basis_names_def)

interpretation relation_enum: named_enum relation_names
proof unfold_locales
  show "x \<in> snd ` set relation_names" for x by (cases x) (simp_all add: relation_names_def)
qed (simp add: relation_names_def)

interpretation assessment_enum: named_enum assessment_names
proof unfold_locales
  show "x \<in> snd ` set assessment_names" for x by (cases x) (simp_all add: assessment_names_def)
qed (simp add: assessment_names_def)

section \<open>Experiences\<close>

text \<open>\<open>VerificationSubject\<close> has the fields of \<open>evidence_subject\<close>.\<close>

record verification_observation =
  vo_ordinal :: nat
  vo_status :: verification_status
  vo_kind :: verification_kind
  vo_subject :: evidence_subject
  vo_evidence_event_id :: string
  vo_rule_id :: string
  vo_rule_version :: string

record experience_verification =
  ev_status :: verification_status
  ev_observations :: "verification_observation list"
  ev_reasons :: "string list"

record strength_assessment =
  sa_strength :: evidence_strength
  sa_bases :: "evidence_basis list"

record experience =
  exp_id :: string
  exp_workspace_id :: string
  exp_session_id :: string
  exp_task_id :: "string option"
  exp_episode_id :: string
  exp_failure_signature :: "failure_signature option"
  exp_outcome :: experience_outcome
  exp_verification :: experience_verification
  exp_summary :: string
  exp_evidence_strength :: strength_assessment
  exp_extractor_id :: string
  exp_extractor_version :: string
  exp_summary_renderer_version :: string
  exp_canonicalization_version :: string
  exp_consolidation_fingerprint :: string
  exp_proposal_hash :: string
  exp_created_at :: timestamp

record experience_draft =
  draft_workspace_id :: string
  draft_session_id :: string
  draft_task_id :: "string option"
  draft_episode_id :: string
  draft_failure_signature :: "failure_signature option"
  draft_outcome :: experience_outcome
  draft_verification :: experience_verification
  draft_evidence_strength :: strength_assessment
  draft_extractor_id :: string
  draft_extractor_version :: string
  draft_canonicalization_version :: string
  draft_consolidation_fingerprint :: string
  draft_proposal_hash :: string
  draft_attempts :: nat

record experience_attempt =
  attempt_id :: string
  attempt_workspace_id :: string
  attempt_experience_id :: string
  attempt_ordinal :: nat
  attempt_result_of :: attempt_result
  attempt_change_ordinals :: "nat list"
  attempt_following_ordinal :: "nat option"

record evidence_link =
  link_ordinal :: nat
  link_relation :: evidence_relation
  link_event_id :: string

record code_snapshot =
  snap_ordinal :: nat
  snap_source_event_id :: string
  snap_relative_path :: string
  snap_workspace_content_revision :: int
  snap_document_content_revision :: int
  snap_document_content_hash :: string
  snap_content :: string
  snap_chunk_stable_key :: "string option"
  snap_chunk_content_hash :: "string option"
  snap_symbol_logical_key :: "string option"
  snap_symbol_label :: "string option"
  snap_source_start_byte :: "int option"
  snap_source_end_byte :: "int option"

record experience_graph_snapshot =
  gs_ordinal :: nat
  gs_code_snapshot_ordinal :: nat
  gs_graph_content_revision :: int
  gs_graph_schema_version :: int
  gs_graph_state :: graph_state
  gs_analyzer_id :: string
  gs_analyzer_version :: string
  gs_structure_version :: string
  gs_node_stable_key :: string
  gs_node_type :: graph_node_type
  gs_resolution_provenance :: json

record experience_record =
  er_experience :: experience
  er_attempts :: "experience_attempt list"
  er_evidence :: "evidence_link list"
  er_code_snapshots :: "code_snapshot list"
  er_graph_snapshots :: "experience_graph_snapshot list"

text \<open>\<open>render_summary\<close>: a bounded sentence over the fields of the draft.\<close>

definition verified_subject :: "verification_observation \<Rightarrow> string" where
  "verified_subject o' =
     subject_kind_name (es_kind (vo_subject o')) @ '' '' @ es_value (vo_subject o')"

definition render_summary ::
    "failure_signature option \<Rightarrow> experience_outcome \<Rightarrow> experience_verification \<Rightarrow> nat \<Rightarrow> string" where
  "render_summary sg outcome v attempts =
     (let observed = (case sg of
            Some s \<Rightarrow> ''Observed '' @ domain_as_str (sig_domain s) @ '' failure''
          | None \<Rightarrow> ''Observed no supported failure signature'');
          place = (case sg of None \<Rightarrow> None
            | Some s \<Rightarrow> (case fs_target (sig_scope s) of
                 Some t \<Rightarrow> Some t | None \<Rightarrow> fs_path (sig_scope s)));
          scope = (case place of Some t \<Rightarrow> '' in '' @ t | None \<Rightarrow> []);
          verified = (if ev_observations v = [] then []
            else '' for '' @ join_with '', '' (map verified_subject (ev_observations v)))
      in observed @ scope @ ''. '' @ digits attempts
         @ '' associated attempt(s) were recorded. Terminal evidence observed ''
         @ status_as_str (ev_status v) @ verified @ ''. The episode interpretation is ''
         @ outcome_as_str outcome
         @ '' within those stated scopes. This records a verified-after relationship; it ''
         @ ''establishes neither a dependency on any action nor the current state.'')"

definition experience_from_draft :: "string \<Rightarrow> timestamp \<Rightarrow> experience_draft \<Rightarrow> experience" where
  "experience_from_draft i now d =
     \<lparr>exp_id = i, exp_workspace_id = draft_workspace_id d, exp_session_id = draft_session_id d,
      exp_task_id = draft_task_id d, exp_episode_id = draft_episode_id d,
      exp_failure_signature = draft_failure_signature d, exp_outcome = draft_outcome d,
      exp_verification = draft_verification d,
      exp_summary = render_summary (draft_failure_signature d) (draft_outcome d)
        (draft_verification d) (draft_attempts d),
      exp_evidence_strength = draft_evidence_strength d, exp_extractor_id = draft_extractor_id d,
      exp_extractor_version = draft_extractor_version d,
      exp_summary_renderer_version = experience_summary_renderer_version,
      exp_canonicalization_version = draft_canonicalization_version d,
      exp_consolidation_fingerprint = draft_consolidation_fingerprint d,
      exp_proposal_hash = draft_proposal_hash d, exp_created_at = now\<rparr>"


section \<open>Assessments\<close>

record assessment =
  as_id :: string
  as_workspace_id :: string
  as_experience_id :: string
  as_kind :: assessment_kind
  as_actor :: string
  as_reason :: string
  as_replacement :: "string option"
  as_evidence_event_ids :: "string list"
  as_created_at :: timestamp

record assessment_cursor =
  cursor_created_at :: timestamp
  cursor_id :: string

record assessment_page =
  page_assessments :: "assessment list"
  page_next_cursor :: "assessment_cursor option"

record review_request =
  rq_workspace_id :: string
  rq_experience_id :: string
  rq_kind :: assessment_kind
  rq_reviewed_by :: string
  rq_request_key :: string
  rq_reason :: string
  rq_replacement :: "string option"
  rq_evidence_event_ids :: "string list"

definition lifecycle_of :: "assessment_kind list \<Rightarrow> experience_lifecycle" where
  "lifecycle_of kinds =
     (if SupersededAssessment \<in> set kinds then SupersededLifecycle
      else if RefutedAssessment \<in> set kinds then RefutedLifecycle
      else if DisputedAssessment \<in> set kinds then DisputedLifecycle else ActiveLifecycle)"

section \<open>Episodes\<close>

definition max_episode_events :: nat where "max_episode_events = 100"

datatype episode_type =
  ImplementationEpisode | DebuggingEpisode | VerificationEpisode | InvestigationEpisode
  | RefactorEpisode | ConfigurationEpisode | DependencyChangeEpisode | ArchitectureDecisionEpisode
  | DocumentationEpisode | OtherEpisode

definition episode_type_names :: "(string \<times> episode_type) list" where
  "episode_type_names = [(''implementation'', ImplementationEpisode),
     (''debugging'', DebuggingEpisode), (''verification'', VerificationEpisode),
     (''investigation'', InvestigationEpisode), (''refactor'', RefactorEpisode),
     (''configuration'', ConfigurationEpisode), (''dependency_change'', DependencyChangeEpisode),
     (''architecture_decision'', ArchitectureDecisionEpisode),
     (''documentation'', DocumentationEpisode), (''other'', OtherEpisode)]"

definition episode_type_as_str :: "episode_type \<Rightarrow> string" where
  "episode_type_as_str = enum_name episode_type_names"

definition episode_type_from_storage :: "string \<Rightarrow> episode_type" where
  "episode_type_from_storage = enum_read episode_type_names OtherEpisode"

datatype episode_status = OpenEpisode | ClosedEpisode | AbandonedEpisode | InvalidEpisode

definition episode_status_names :: "(string \<times> episode_status) list" where
  "episode_status_names = [(''open'', OpenEpisode), (''closed'', ClosedEpisode),
     (''abandoned'', AbandonedEpisode), (''invalid'', InvalidEpisode)]"

definition episode_status_as_str :: "episode_status \<Rightarrow> string" where
  "episode_status_as_str = enum_name episode_status_names"

definition episode_status_from_storage :: "string \<Rightarrow> episode_status" where
  "episode_status_from_storage = enum_read episode_status_names OpenEpisode"

datatype episode_creator = UserCreator | NativeHarnessCreator

definition episode_creator_names :: "(string \<times> episode_creator) list" where
  "episode_creator_names = [(''user'', UserCreator), (''native_harness'', NativeHarnessCreator)]"

definition episode_creator_as_str :: "episode_creator \<Rightarrow> string" where
  "episode_creator_as_str = enum_name episode_creator_names"

definition episode_creator_from_storage :: "string \<Rightarrow> episode_creator" where
  "episode_creator_from_storage = enum_read episode_creator_names UserCreator"

record episode =
  ep_id :: string
  ep_workspace_id :: string
  ep_session_id :: string
  ep_task_id :: "string option"
  ep_type :: episode_type
  ep_status :: episode_status
  ep_title :: "string option"
  ep_created_by :: episode_creator
  ep_version :: nat
  ep_started_at :: timestamp
  ep_ended_at :: "timestamp option"
  ep_created_at :: timestamp

interpretation episode_type_enum: named_enum episode_type_names
proof unfold_locales
  show "x \<in> snd ` set episode_type_names" for x by (cases x) (simp_all add: episode_type_names_def)
qed (simp add: episode_type_names_def)

interpretation episode_status_enum: named_enum episode_status_names
proof unfold_locales
  show "x \<in> snd ` set episode_status_names" for x
    by (cases x) (simp_all add: episode_status_names_def)
qed (simp add: episode_status_names_def)

interpretation episode_creator_enum: named_enum episode_creator_names
proof unfold_locales
  show "x \<in> snd ` set episode_creator_names" for x
    by (cases x) (simp_all add: episode_creator_names_def)
qed (simp add: episode_creator_names_def)

text \<open>The names under which the closed enumerations of experiences and episodes are stored
  read back to the values they were written from, although reading falls back to a variant of
  its own for a name it does not know.\<close>

lemma experience_names_roundtrip:
  "outcome_from_storage (outcome_as_str o') = o'
   \<and> attempt_result_from_storage (attempt_result_as_str a) = a
   \<and> status_from_storage (status_as_str s) = s \<and> kind_from_storage (kind_as_str k) = k
   \<and> strength_from_storage (strength_as_str g) = g \<and> basis_from_storage (basis_as_str b) = b
   \<and> relation_from_storage (relation_as_str r) = r
   \<and> assessment_from_storage (assessment_as_str t) = t
   \<and> episode_type_from_storage (episode_type_as_str y) = y
   \<and> episode_status_from_storage (episode_status_as_str z) = z
   \<and> episode_creator_from_storage (episode_creator_as_str c) = c"
  unfolding outcome_from_storage_def outcome_as_str_def attempt_result_from_storage_def
    attempt_result_as_str_def status_from_storage_def status_as_str_def kind_from_storage_def
    kind_as_str_def strength_from_storage_def strength_as_str_def basis_from_storage_def
    basis_as_str_def relation_from_storage_def relation_as_str_def assessment_from_storage_def
    assessment_as_str_def episode_type_from_storage_def episode_type_as_str_def
    episode_status_from_storage_def episode_status_as_str_def episode_creator_from_storage_def
    episode_creator_as_str_def
    outcome_enum.read_name attempt_result_enum.read_name status_enum.read_name kind_enum.read_name
    strength_enum.read_name basis_enum.read_name relation_enum.read_name
    assessment_enum.read_name episode_type_enum.read_name episode_status_enum.read_name
    episode_creator_enum.read_name
  by blast


end
