(* ===== verification/Consolidation.thy ===== *)
theory Consolidation
  imports ExperienceDomain
begin

text \<open>
  Consolidation: \<open>src/service/consolidation.rs\<close> and \<open>src/domain/consolidation.rs\<close>.  A closed or
  abandoned episode becomes a proposal for an experience: its events are decoded, classified as
  actions or verifier results, and arranged as an initial failure, attempts with the result that
  follows each, and the terminal results.  The hashes of the input, of the proposal and of a test
  scope are parameters, and so are the ids and the clock that the record draws.
\<close>

section \<open>Results\<close>

definition extractor_id :: string where "extractor_id = ''cortexweave.failure_to_verification''"
definition extractor_version :: string where "extractor_version = ''2''"

datatype no_result_reason =
  AlreadyConsolidated | EpisodeNotClosed | EpisodeIneligible | StaleEpisodeVersion | EpisodeEmpty
  | EvidenceLimitExceeded | UnsupportedPayloadContract | InvalidPayloadContract
  | NoSupportedFailure | AmbiguousInitialFailure | NoAttemptEvidence | NoVerificationEvidence
  | AmbiguousVerificationScope | ConflictingResults | EmptyVerificationRun | FingerprintMismatch
  | ProposalHashMismatch | ReviewRequiredReason

record consolidation_diagnostic =
  cd_code :: string
  cd_message :: string
  cd_membership_ordinal :: "nat option"
  cd_event_id :: "string option"

datatype proposal_disposition = Automatic | ReviewRequired "string list"

record experience_proposal =
  pr_record :: experience_record
  pr_fingerprint :: string
  pr_hash :: string
  pr_diagnostics :: "consolidation_diagnostic list"

datatype consolidation_preview =
    Proposal experience_proposal proposal_disposition
  | NoResult no_result_reason "consolidation_diagnostic list"

definition diag :: "string \<Rightarrow> string \<Rightarrow> nat option \<Rightarrow> string option \<Rightarrow> consolidation_diagnostic" where
  "diag c m k i = \<lparr>cd_code = c, cd_message = m, cd_membership_ordinal = k, cd_event_id = i\<rparr>"

definition no_result ::
    "no_result_reason \<Rightarrow> string \<Rightarrow> string \<Rightarrow> nat option \<Rightarrow> string option \<Rightarrow> consolidation_preview" where
  "no_result r c m k i = NoResult r [diag c m k i]"

section \<open>Verifier results\<close>

record scope_key =
  sk_rule_id :: string
  sk_rule_version :: string
  sk_subject :: evidence_subject
  sk_detail_fingerprint :: "string option"

record verification_fact =
  vf_event_index :: nat
  vf_status :: verification_status
  vf_kind :: verification_kind
  vf_scope :: scope_key
  vf_failure :: "failure_signature option"

definition is_positive :: "verification_fact \<Rightarrow> bool" where
  "is_positive f \<longleftrightarrow> vf_status f = VerifiedPassed \<or> vf_status f = ExplicitlyAccepted"

definition is_user_acceptance :: "verification_fact \<Rightarrow> bool" where
  "is_user_acceptance f \<longleftrightarrow> vf_status f = ExplicitlyAccepted"

record built_attempt =
  ba_changes :: "nat list"
  ba_following :: "verification_fact option"
  ba_additional :: "verification_fact list"
  ba_result :: attempt_result

datatype classified_observation =
    AttemptAction (source_change: bool)
  | VerificationObserved verification_fact

section \<open>The services\<close>

record consolidation_service =
  cs_decoders :: decoder_registry
  cs_serde :: serde
  cs_profiles :: profile_registry
  cs_scope_fingerprint :: "test_run_result \<Rightarrow> cortex_error + string"
  cs_rules :: rule_registry
  cs_normalizers :: normalizer_registry

text \<open>A panic of a component below becomes a panic here.\<close>

definition no_panic :: "string + 'a \<Rightarrow> cortex_error + 'a" where
  "no_panic r = (case r of Inl m \<Rightarrow> Inl (Panicked m) | Inr x \<Rightarrow> Inr x)"

definition normalized_failure ::
    "consolidation_service \<Rightarrow> decoded_evidence \<Rightarrow> cortex_error + failure_signature option" where
  "normalized_failure svc e =
     and_then (no_panic (normalize (cs_normalizers svc) e)) (\<lambda>r.
     Inr (case r of Normalized n \<Rightarrow> Some (nf_signature n) | Refused _ \<Rightarrow> None))"

definition exact_failure_equals :: "failure_signature \<Rightarrow> failure_signature \<Rightarrow> bool" where
  "exact_failure_equals candidate initial \<longleftrightarrow> is_exact_capable candidate
     \<and> is_exact_capable initial \<and> normalized_key candidate = normalized_key initial"

definition supports_initial_scope :: "verification_fact \<Rightarrow> verification_fact \<Rightarrow> bool" where
  "supports_initial_scope f initial =
     (if is_user_acceptance f then sk_subject (vf_scope f) = sk_subject (vf_scope initial)
      else vf_scope f = vf_scope initial)"

definition eligible_terminal_fact :: "verification_fact \<Rightarrow> verification_fact \<Rightarrow> bool" where
  "eligible_terminal_fact f initial =
     (if is_user_acceptance f then sk_subject (vf_scope f) = sk_subject (vf_scope initial)
      else sk_rule_id (vf_scope f) = sk_rule_id (vf_scope initial)
        \<and> sk_rule_version (vf_scope f) = sk_rule_version (vf_scope initial)
        \<and> (sk_detail_fingerprint (vf_scope initial) = None \<or> vf_scope f = vf_scope initial))"

definition attempt_result_for :: "verification_fact \<Rightarrow> verification_fact \<Rightarrow> attempt_result option" where
  "attempt_result_for f initial =
     (if is_positive f then Some AttemptPassed
      else case vf_failure f of
        None \<Rightarrow> None
      | Some failure \<Rightarrow> (case vf_failure initial of
          None \<Rightarrow> None
        | Some initial_failure \<Rightarrow>
            Some (if exact_failure_equals failure initial_failure then StillFailing
              else if is_exact_capable failure \<and> is_exact_capable initial_failure
              then ChangedFailure else AttemptFailed)))"

definition exact_repeat :: "verification_fact \<Rightarrow> verification_fact \<Rightarrow> bool" where
  "exact_repeat f initial \<longleftrightarrow> vf_status f = VerifiedFailed \<and> vf_scope f = vf_scope initial
     \<and> (case (vf_failure f, vf_failure initial) of
          (Some c, Some i) \<Rightarrow> exact_failure_equals c i | _ \<Rightarrow> False)"

definition material_event :: "cortex_event \<Rightarrow> bool" where
  "material_event e \<longleftrightarrow> event_type_of e \<in> {CompilerResult, TestResult, ExternalToolFinished,
     FileCreated, FileModified, FileRemoved, FileRenamed, UserAcceptanceEvent}"

section \<open>Classification\<close>

text \<open>\<open>Inl\<close> is a refusal of the whole episode: its reason, code and message.\<close>

type_synonym refusal = "no_result_reason \<times> string \<times> string"

definition mk_fact :: "nat \<Rightarrow> verification_status \<Rightarrow> verification_kind \<Rightarrow> string \<Rightarrow> string
    \<Rightarrow> evidence_subject \<Rightarrow> string option \<Rightarrow> verification_fact" where
  "mk_fact i status kind rule version subject detail =
     \<lparr>vf_event_index = i, vf_status = status, vf_kind = kind,
      vf_scope = \<lparr>sk_rule_id = rule, sk_rule_version = version, sk_subject = subject,
        sk_detail_fingerprint = detail\<rparr>,
      vf_failure = None\<rparr>"

definition exit_status :: "process_outcome \<Rightarrow> verification_status" where
  "exit_status p = (if p = ExitedZero then VerifiedPassed else VerifiedFailed)"

definition test_run_fact ::
    "consolidation_service \<Rightarrow> nat \<Rightarrow> test_run_result
      \<Rightarrow> refusal + verification_fact" where
  "test_run_fact svc i r =
     (let assessment = assess_report (cs_profiles svc) r
      in and_then (case el_status assessment of
           EligiblePassed \<Rightarrow> Inr VerifiedPassed
         | EligibleFailed \<Rightarrow> Inr VerifiedFailed
         | Ineligible \<Rightarrow> Inl (NoSupportedFailure, ''ineligible_test_run'',
             (case el_issues assessment of
                [] \<Rightarrow> ''test-run evidence is not eligible for automatic verification''
              | x # _ \<Rightarrow> ei_code x @ '': '' @ ei_message x))) (\<lambda>status.
         and_then (case cs_scope_fingerprint svc r of
           Inl e \<Rightarrow> Inl (NoSupportedFailure, ''invalid_test_scope'', error_display e)
         | Inr s \<Rightarrow> Inr s) (\<lambda>fingerprint.
         Inr (mk_fact i status TestRunKind (vc_id (tr_profile r)) (vc_version (tr_profile r))
           \<lparr>es_kind = (if selection_kind (tr_selection r) = FileSelection then PathSubject else TestSubject),
            es_value = selection_value (tr_selection r)\<rparr> (Some fingerprint)))))"

definition verifier_fact ::
    "consolidation_service \<Rightarrow> nat \<Rightarrow> generic_verifier_result
      \<Rightarrow> refusal + verification_fact" where
  "verifier_fact svc i r =
     (case rule_find (cs_rules svc) (gv_verifier_id r) (gv_verifier_version r) of
        None \<Rightarrow> Inl (NoSupportedFailure, ''unregistered_verifier_rule'',
          ''generic verifier evidence has no exact registered rule'')
      | Some rule \<Rightarrow>
          if gv_tool r \<noteq> vr_required_tool rule \<or> gv_operation r \<noteq> vr_required_operation rule
            \<or> es_kind (gv_subject r) \<notin> set (vr_allowed_subject_kinds rule)
          then Inl (NoSupportedFailure, ''verifier_rule_mismatch'', ''generic verifier evidence does ''
            @ ''not satisfy its registered tool, operation, and subject rule'')
          else Inr (mk_fact i (case gv_reported_result r of VerificationPassed \<Rightarrow> VerifiedPassed
                | VerificationFailed \<Rightarrow> VerifiedFailed)
              RegisteredToolKind (vr_id rule) (vr_version rule) (gv_subject r) None))"

text \<open>What an observation is, before the failure it reports is normalized.\<close>

definition observed_fact ::
    "consolidation_service \<Rightarrow> nat \<Rightarrow> evidence_observation
      \<Rightarrow> refusal + classified_observation" where
  "observed_fact svc i obs =
     (case obs of
        ExternalToolCompletion _ \<Rightarrow> Inr (AttemptAction False)
      | SourceChange _ \<Rightarrow> Inr (AttemptAction True)
      | RustCompilerResult r \<Rightarrow> Inr (VerificationObserved (mk_fact i (exit_status (rc_process_outcome r))
          RustCompilerKind ''cortexweave.rust_compiler'' ''1'' (rc_subject r) None))
      | CargoTestResult r \<Rightarrow>
          if ct_process_outcome r = ExitedZero \<and> ct_executed_test_count r = 0
          then Inl (EmptyVerificationRun, ''empty_verification_run'',
            ''a successful Cargo test report executed zero tests'')
          else Inr (VerificationObserved (mk_fact i (exit_status (ct_process_outcome r)) CargoTestKind
            ''cortexweave.cargo_test'' ''1'' (ct_subject r) None))
      | TestRunResult r \<Rightarrow> and_then (test_run_fact svc i r) (\<lambda>f. Inr (VerificationObserved f))
      | GenericVerifierResult r \<Rightarrow>
          and_then (verifier_fact svc i r) (\<lambda>f. Inr (VerificationObserved f))
      | UserAcceptance r \<Rightarrow> Inr (VerificationObserved (mk_fact i ExplicitlyAccepted UserAcceptanceKind
          ''cortexweave.user_acceptance'' ''1'' (ua_subject r) None)))"

text \<open>The outer \<open>Inl\<close> is a panic, the inner one a refusal.\<close>

definition refused_failure ::
    "consolidation_service \<Rightarrow> decoded_evidence \<Rightarrow> cortex_error + refusal" where
  "refused_failure svc e =
     and_then (no_panic (normalize (cs_normalizers svc) e)) (\<lambda>r.
     Inr (NoSupportedFailure, ''unsupported_failed_verifier_result'', (case r of
         Refused m \<Rightarrow> note_message m
       | Normalized _ \<Rightarrow> ''failed verifier result lost normalized failure material'')))"

definition classify_observation :: "consolidation_service \<Rightarrow> decoded_evidence \<Rightarrow> nat
    \<Rightarrow> cortex_error + refusal + classified_observation" where
  "classify_observation svc e i =
     (case observed_fact svc i (observation e) of
        Inl r \<Rightarrow> Inr (Inl r)
      | Inr (AttemptAction s) \<Rightarrow> Inr (Inr (AttemptAction s))
      | Inr (VerificationObserved f) \<Rightarrow>
          if is_user_acceptance f then Inr (Inr (VerificationObserved f))
          else and_then (normalized_failure svc e) (\<lambda>failure.
            if vf_status f = VerifiedFailed \<and> failure = None
            then and_then (refused_failure svc e) (\<lambda>r. Inr (Inl r))
            else Inr (Inr (VerificationObserved (f\<lparr>vf_failure := failure\<rparr>)))))"

section \<open>The observed sequence\<close>

record extraction =
  ex_initial :: "verification_fact option"
  ex_supporting :: "nat list"
  ex_attempts :: "built_attempt list"
  ex_pending :: "nat list"
  ex_snapshot_required :: bool
  ex_diagnostics :: "consolidation_diagnostic list"

text \<open>A step ends the extraction with an error or a preview, or goes on.\<close>

type_synonym 'a extracting = "(cortex_error + consolidation_preview) + 'a"

abbreviation refuse ::
    "no_result_reason \<Rightarrow> string \<Rightarrow> string \<Rightarrow> nat option \<Rightarrow> string option \<Rightarrow> 'a extracting" where
  "refuse r c m k i \<equiv> Inl (Inr (no_result r c m k i))"

abbreviation stop_with :: "cortex_error \<Rightarrow> 'a extracting" where
  "stop_with e \<equiv> Inl (Inl e)"

definition note_excluded ::
    "string \<Rightarrow> string \<Rightarrow> nat \<Rightarrow> cortex_event \<Rightarrow> extraction \<Rightarrow> extraction" where
  "note_excluded c m k event w =
     w\<lparr>ex_diagnostics := ex_diagnostics w @ [diag c m (Some k) (Some (event_id event))]\<rparr>"

definition action_step :: "nat \<Rightarrow> nat \<Rightarrow> cortex_event \<Rightarrow> bool \<Rightarrow> extraction \<Rightarrow> extraction" where
  "action_step i k event changes w =
     (if ex_initial w \<noteq> None
      then w\<lparr>ex_snapshot_required := (ex_snapshot_required w \<or> changes),
             ex_pending := ex_pending w @ [i]\<rparr>
      else note_excluded ''prelude_action_excluded'' (''an action observed before the initial ''
        @ ''failure is outside the associated attempt sequence'') k event w)"

definition first_result_step ::
    "nat \<Rightarrow> cortex_event \<Rightarrow> verification_fact \<Rightarrow> extraction \<Rightarrow> extraction extracting" where
  "first_result_step k event f w =
     (if vf_status f = VerifiedFailed
      then if vf_failure f = None
           then refuse NoSupportedFailure ''unsupported_initial_failure'' (''the first mechanically ''
             @ ''failed verifier result has no supported normalized signature'')
             (Some k) (Some (event_id event))
           else Inr (w\<lparr>ex_initial := Some f\<rparr>)
      else Inr (note_excluded ''prelude_positive_result_excluded'' (''a positive result before the ''
        @ ''initial failure is not resolution evidence for this episode interpretation'') k event w))"

definition attempt_step ::
    "nat \<Rightarrow> cortex_event \<Rightarrow> verification_fact \<Rightarrow> verification_fact \<Rightarrow> extraction
      \<Rightarrow> extraction extracting" where
  "attempt_step k event f f0 w =
     (if \<not> supports_initial_scope f f0
      then refuse AmbiguousVerificationScope ''following_verification_scope_mismatch''
        (''the first result after an associated attempt does not cover the initial failure''
         @ [CHR 0x27] @ ''s exact verifier scope'') (Some k) (Some (event_id event))
      else case attempt_result_for f f0 of
        None \<Rightarrow> stop_with (AnalysisErr
          ''classified failed verification lost normalized failure material'')
      | Some result \<Rightarrow> Inr (w\<lparr>ex_pending := [],
          ex_attempts := ex_attempts w @ [\<lparr>ba_changes = ex_pending w, ba_following = Some f,
            ba_additional = [], ba_result = result\<rparr>]\<rparr>))"

definition extend_last :: "verification_fact \<Rightarrow> built_attempt list \<Rightarrow> built_attempt list" where
  "extend_last f attempts =
     butlast attempts @ [(last attempts)\<lparr>ba_additional := ba_additional (last attempts) @ [f]\<rparr>]"

definition terminal_step ::
    "nat \<Rightarrow> cortex_event \<Rightarrow> verification_fact \<Rightarrow> verification_fact \<Rightarrow> extraction
      \<Rightarrow> extraction extracting" where
  "terminal_step k event f f0 w =
     (if \<not> eligible_terminal_fact f f0
      then refuse AmbiguousVerificationScope ''terminal_verification_scope_mismatch''
        ''a terminal result belongs to a different verifier family or unsupported subject''
        (Some k) (Some (event_id event))
      else if ex_attempts w = []
      then stop_with (Panicked ''an attempt exists when extending a result batch'')
      else Inr (w\<lparr>ex_attempts := extend_last f (ex_attempts w)\<rparr>))"

definition result_step ::
    "nat \<Rightarrow> nat \<Rightarrow> cortex_event \<Rightarrow> verification_fact \<Rightarrow> extraction \<Rightarrow> extraction extracting" where
  "result_step i k event f w =
     (case ex_initial w of
        None \<Rightarrow> first_result_step k event f w
      | Some f0 \<Rightarrow>
          if ex_pending w = [] \<and> ex_attempts w = []
          then if exact_repeat f f0 then Inr (w\<lparr>ex_supporting := ex_supporting w @ [i]\<rparr>)
               else refuse AmbiguousInitialFailure ''ambiguous_pre_attempt_result''
                 ''a distinct verifier result was observed before the first associated attempt''
                 (Some k) (Some (event_id event))
          else if ex_pending w \<noteq> [] then attempt_step k event f f0 w
          else terminal_step k event f f0 w)"

definition observation_step ::
    "consolidation_service \<Rightarrow> nat \<Rightarrow> nat \<Rightarrow> cortex_event \<Rightarrow> decoded_evidence \<Rightarrow> extraction
      \<Rightarrow> extraction extracting" where
  "observation_step svc i k event e w =
     (case classify_observation svc e i of
        Inl err \<Rightarrow> stop_with err
      | Inr (Inl (reason, c, m)) \<Rightarrow> refuse reason c m (Some k) (Some (event_id event))
      | Inr (Inr (AttemptAction s)) \<Rightarrow> Inr (action_step i k event s w)
      | Inr (Inr (VerificationObserved f)) \<Rightarrow> result_step i k event f w)"

definition event_step ::
    "consolidation_service \<Rightarrow> nat \<Rightarrow> nat \<times> cortex_event \<Rightarrow> extraction \<Rightarrow> extraction extracting" where
  "event_step svc i = (\<lambda>(k, event) w.
     (case decode (cs_decoders svc) (cs_serde svc) event of
        Inl m \<Rightarrow> stop_with (Panicked m)
      | Inr (Decoded e) \<Rightarrow> observation_step svc i k event e w
      | Inr (Unsupported u) \<Rightarrow>
          if material_event event
          then refuse UnsupportedPayloadContract ''unsupported_payload_contract''
            ''a material evidence event uses an unsupported contract''
            (Some k) (Some (event_id event))
          else Inr (note_excluded ''nonmaterial_event_excluded''
            ''event does not participate in the v1 observed sequence'' k event w)
      | Inr (Invalid x) \<Rightarrow>
          if material_event event
          then refuse InvalidPayloadContract (issue_code x) (issue_message x)
            (Some k) (Some (event_id event))
          else Inr (note_excluded ''nonmaterial_event_excluded''
            ''event does not participate in the v1 observed sequence'' k event w)))"

fun event_steps :: "consolidation_service \<Rightarrow> nat \<Rightarrow> (nat \<times> cortex_event) list \<Rightarrow> extraction
    \<Rightarrow> extraction extracting" where
  "event_steps svc i [] w = Inr w"
| "event_steps svc i (e # es) w = and_then (event_step svc i e w) (event_steps svc (Suc i) es)"

definition no_extraction :: extraction where
  "no_extraction = \<lparr>ex_initial = None, ex_supporting = [], ex_attempts = [], ex_pending = [],
     ex_snapshot_required = False, ex_diagnostics = []\<rparr>"

section \<open>The terminal results\<close>

definition conflicting :: "verification_fact list \<Rightarrow> bool" where
  "conflicting facts \<longleftrightarrow> list_ex (\<lambda>f. is_positive f \<and> list_ex (\<lambda>g. \<not> is_positive g
     \<and> sk_subject (vf_scope g) = sk_subject (vf_scope f)) facts) facts"

definition terminal_outcome ::
    "verification_fact list \<Rightarrow> verification_fact
      \<Rightarrow> refusal + (experience_outcome \<times> verification_status)" where
  "terminal_outcome facts f0 =
     (if facts = []
      then Inl (NoVerificationEvidence, ''missing_terminal_frontier'',
        ''the closed episode has no terminal verifier frontier'')
      else if \<not> list_ex (\<lambda>f. supports_initial_scope f f0) facts
      then Inl (AmbiguousVerificationScope, ''initial_scope_not_covered'',
        ''the terminal verifier frontier does not cover the initial failure scope'')
      else if conflicting facts
      then Inl (ConflictingResults, ''conflicting_terminal_results'',
        ''opposing terminal results were observed for the same exact subject'')
      else case (list_ex is_positive facts, list_ex (\<lambda>f. vf_status f = VerifiedFailed) facts) of
          (True, False) \<Rightarrow> Inr (SuccessOutcome,
            if list_all is_user_acceptance facts then ExplicitlyAccepted else VerifiedPassed)
        | (False, True) \<Rightarrow> Inr (FailureOutcome, VerifiedFailed)
        | (True, True) \<Rightarrow> Inr (PartialSuccessOutcome, ConflictingStatus)
        | (False, False) \<Rightarrow> Inl (NoVerificationEvidence, ''inconclusive_terminal_frontier'',
            ''the terminal verifier frontier has no conclusive result''))"

definition repeated_facts :: "verification_fact list \<Rightarrow> bool" where
  "repeated_facts facts \<longleftrightarrow> facts \<noteq> [] \<and> \<not> list_ex is_user_acceptance facts
     \<and> list_all (\<lambda>f. 2 \<le> length (filter (\<lambda>g. vf_status g = vf_status f \<and> vf_scope g = vf_scope f)
         facts)) facts"

definition strength_of :: "bool \<Rightarrow> verification_fact list \<Rightarrow> strength_assessment" where
  "strength_of abandoned facts =
     \<lparr>sa_strength = (if abandoned then Weak else if repeated_facts facts then Strong else Moderate),
      sa_bases = [TemporalAssociation]
        @ (if list_ex (\<lambda>f. \<not> is_user_acceptance f) facts then [DeterministicVerifier] else [])
        @ (if list_ex is_user_acceptance facts then [ExplicitUserAcceptance] else [])
        @ (if repeated_facts facts then [RepeatedDeterministicEvidence] else [])\<rparr>"

section \<open>The record\<close>

text \<open>The relations in the order the code inserts them, and the map they make, ordered by event.\<close>

definition attempt_entries :: "bool \<Rightarrow> nat \<Rightarrow> nat \<times> built_attempt \<Rightarrow> (nat \<times> evidence_relation) list" where
  "attempt_entries abandoned n = (\<lambda>(k, a).
     map (\<lambda>i. (i, AttemptChange)) (ba_changes a)
     @ (case ba_following a of None \<Rightarrow> [] | Some f \<Rightarrow> [(vf_event_index f, AttemptVerification)])
     @ map (\<lambda>f. (vf_event_index f,
         if \<not> abandoned \<and> k + 1 = n then TerminalVerification else Supporting)) (ba_additional a))"

definition relation_entries ::
    "bool \<Rightarrow> verification_fact \<Rightarrow> nat list \<Rightarrow> built_attempt list \<Rightarrow> (nat \<times> evidence_relation) list" where
  "relation_entries abandoned f0 supporting attempts =
     (vf_event_index f0, InitialFailure) # map (\<lambda>i. (i, Supporting)) supporting
     @ concat (map (attempt_entries abandoned (length attempts)) (enumerate 0 attempts))"

definition relations_of ::
    "bool \<Rightarrow> verification_fact \<Rightarrow> nat list \<Rightarrow> built_attempt list \<Rightarrow> (nat \<times> evidence_relation) list" where
  "relations_of abandoned f0 supporting attempts =
     btree_of (relation_entries abandoned f0 supporting attempts)"

definition event_id_at :: "(nat \<times> cortex_event) list \<Rightarrow> nat \<Rightarrow> cortex_error + string" where
  "event_id_at events i =
     (if i < length events then Inr (event_id (snd (events ! i)))
      else Inl (Panicked ''index out of bounds''))"

definition relation_ordinal :: "(nat \<times> evidence_relation) list \<Rightarrow> nat \<Rightarrow> cortex_error + nat" where
  "relation_ordinal relations i =
     ok_or (map_of (zip (map fst relations) [0..<length relations]) i)
       (Panicked ''no entry found for key'')"

definition evidence_link_of ::
    "(nat \<times> cortex_event) list \<Rightarrow> nat \<times> nat \<times> evidence_relation \<Rightarrow> cortex_error + evidence_link" where
  "evidence_link_of events = (\<lambda>(k, i, r).
     and_then (event_id_at events i) (\<lambda>e.
     Inr \<lparr>link_ordinal = k, link_relation = r, link_event_id = e\<rparr>))"

definition observation_of ::
    "(nat \<times> cortex_event) list \<Rightarrow> nat \<times> verification_fact \<Rightarrow> cortex_error + verification_observation" where
  "observation_of events = (\<lambda>(k, f).
     and_then (event_id_at events (vf_event_index f)) (\<lambda>e.
     Inr \<lparr>vo_ordinal = k, vo_status = vf_status f, vo_kind = vf_kind f,
       vo_subject = sk_subject (vf_scope f), vo_evidence_event_id = e,
       vo_rule_id = sk_rule_id (vf_scope f), vo_rule_version = sk_rule_version (vf_scope f)\<rparr>))"

definition experience_attempt_of ::
    "(nat \<Rightarrow> string) \<Rightarrow> string \<Rightarrow> string \<Rightarrow> (nat \<times> evidence_relation) list \<Rightarrow> nat \<times> built_attempt
      \<Rightarrow> cortex_error + experience_attempt" where
  "experience_attempt_of new_id workspace experience relations = (\<lambda>(k, a).
     and_then (try_map (relation_ordinal relations) (ba_changes a)) (\<lambda>changes.
     and_then (case ba_following a of None \<Rightarrow> Inr None
       | Some f \<Rightarrow> and_then (relation_ordinal relations (vf_event_index f)) (\<lambda>o'. Inr (Some o')))
       (\<lambda>following.
     Inr \<lparr>attempt_id = new_id (Suc k), attempt_workspace_id = workspace,
       attempt_experience_id = experience, attempt_ordinal = k, attempt_result_of = ba_result a,
       attempt_change_ordinals = changes, attempt_following_ordinal = following\<rparr>)))"

text \<open>\<open>proposal_hash\<close> hashes the record without its ids, times and hashes.\<close>

definition hashed_material :: "experience_record \<Rightarrow> experience_record" where
  "hashed_material r =
     r\<lparr>er_experience := (er_experience r)\<lparr>exp_id := [], exp_created_at := 0,
         exp_consolidation_fingerprint := [], exp_proposal_hash := []\<rparr>,
       er_attempts := map (\<lambda>a. a\<lparr>attempt_id := [], attempt_experience_id := []\<rparr>) (er_attempts r)\<rparr>"

definition build_record ::
    "(nat \<Rightarrow> string) \<Rightarrow> timestamp \<Rightarrow> episode \<Rightarrow> (nat \<times> cortex_event) list \<Rightarrow> string
      \<Rightarrow> verification_fact \<Rightarrow> nat list \<Rightarrow> built_attempt list \<Rightarrow> verification_fact list
      \<Rightarrow> experience_outcome \<times> verification_status \<Rightarrow> cortex_error + experience_record" where
  "build_record new_id now ep events fingerprint f0 supporting attempts facts outcome =
     (let abandoned = (ep_status ep = AbandonedEpisode);
          relations = relations_of abandoned f0 supporting attempts
      in and_then (try_map (observation_of events) (enumerate 0 facts)) (\<lambda>observations.
         and_then (try_map (evidence_link_of events) (enumerate 0 relations)) (\<lambda>links.
         let experience = experience_from_draft (new_id 0) now
               \<lparr>draft_workspace_id = ep_workspace_id ep, draft_session_id = ep_session_id ep,
                draft_task_id = ep_task_id ep, draft_episode_id = ep_id ep,
                draft_failure_signature = vf_failure f0, draft_outcome = fst outcome,
                draft_verification = \<lparr>ev_status = snd outcome, ev_observations = observations,
                  ev_reasons = []\<rparr>,
                draft_evidence_strength = strength_of abandoned facts,
                draft_extractor_id = extractor_id, draft_extractor_version = extractor_version,
                draft_canonicalization_version = experience_canonicalization_version,
                draft_consolidation_fingerprint = fingerprint, draft_proposal_hash = [],
                draft_attempts = length attempts\<rparr>
         in and_then (try_map (experience_attempt_of new_id (ep_workspace_id ep) (exp_id experience)
              relations) (enumerate 0 attempts)) (\<lambda>built.
            Inr \<lparr>er_experience = experience, er_attempts = built, er_evidence = links,
              er_code_snapshots = [], er_graph_snapshots = []\<rparr>))))"

definition review_reasons :: "bool \<Rightarrow> bool \<Rightarrow> bool \<Rightarrow> string list" where
  "review_reasons snapshot acceptance abandoned =
     (if snapshot then [''historical_snapshot_unavailable''] else [])
     @ (if acceptance then [''unauthenticated_user_acceptance''] else [])
     @ (if abandoned then [''abandoned_episode''] else [])"

definition disposition_of :: "string list \<Rightarrow> proposal_disposition" where
  "disposition_of reasons = (if reasons = [] then Automatic else ReviewRequired reasons)"

text \<open>What follows the loop.  The attempts get the pending actions of an abandoned episode, the
  terminal facts are those of the last attempt of a closed one.\<close>

definition final_attempts :: "extraction \<Rightarrow> built_attempt list" where
  "final_attempts w =
     (if ex_pending w = [] then ex_attempts w
      else ex_attempts w @ [\<lparr>ba_changes = ex_pending w, ba_following = None, ba_additional = [],
        ba_result = InconclusiveAttempt\<rparr>])"

definition terminal_facts :: "bool \<Rightarrow> built_attempt list \<Rightarrow> cortex_error + verification_fact list" where
  "terminal_facts abandoned attempts =
     (if abandoned then Inr []
      else and_then (ok_or (ba_following (last attempts))
        (Panicked ''a closed final attempt has following verification'')) (\<lambda>f.
        Inr (f # ba_additional (last attempts))))"

definition outcome_for ::
    "bool \<Rightarrow> verification_fact list \<Rightarrow> verification_fact
      \<Rightarrow> refusal + (experience_outcome \<times> verification_status)" where
  "outcome_for abandoned facts f0 =
     (if abandoned then Inr (AbandonedOutcome, MissingStatus) else terminal_outcome facts f0)"

definition propose ::
    "(experience_record \<Rightarrow> cortex_error + string) \<Rightarrow> (nat \<Rightarrow> string) \<Rightarrow> timestamp \<Rightarrow> episode
      \<Rightarrow> (nat \<times> cortex_event) list \<Rightarrow> string \<Rightarrow> verification_fact \<Rightarrow> extraction \<Rightarrow> verification_fact list
      \<Rightarrow> experience_outcome \<times> verification_status \<Rightarrow> cortex_error + consolidation_preview" where
  "propose hash new_id now ep events fingerprint f0 w facts outcome =
     and_then (build_record new_id now ep events fingerprint f0 (ex_supporting w) (final_attempts w)
       facts outcome) (\<lambda>r.
     and_then (hash (hashed_material r)) (\<lambda>h.
     Inr (Proposal
       \<lparr>pr_record = r\<lparr>er_experience := (er_experience r)\<lparr>exp_proposal_hash := h\<rparr>\<rparr>,
        pr_fingerprint = fingerprint, pr_hash = h, pr_diagnostics = ex_diagnostics w\<rparr>
       (disposition_of (review_reasons (ex_snapshot_required w)
          (list_ex is_user_acceptance facts) (ep_status ep = AbandonedEpisode))))))"

definition finish_extraction ::
    "(experience_record \<Rightarrow> cortex_error + string) \<Rightarrow> (nat \<Rightarrow> string) \<Rightarrow> timestamp \<Rightarrow> episode
      \<Rightarrow> (nat \<times> cortex_event) list \<Rightarrow> string \<Rightarrow> extraction \<Rightarrow> cortex_error + consolidation_preview" where
  "finish_extraction hash new_id now ep events fingerprint w =
     (case ex_initial w of
        None \<Rightarrow> Inr (no_result NoSupportedFailure ''no_supported_failure''
          ''no normalized mechanically failed verifier result was observed'' None None)
      | Some f0 \<Rightarrow>
          and_then (ok_or (vf_failure f0) (Panicked ''initial failure is normalized'')) (\<lambda>_.
          if ex_pending w \<noteq> [] \<and> ep_status ep = ClosedEpisode
          then Inr (no_result NoVerificationEvidence ''pending_attempt_has_no_verification''
            ''the final associated attempt has no following verifier evidence'' None None)
          else if final_attempts w = []
          then Inr (no_result NoAttemptEvidence ''no_attempt_evidence''
            ''the initial failure was not followed by an associated attempt'' None None)
          else let abandoned = (ep_status ep = AbandonedEpisode) in
               and_then (terminal_facts abandoned (final_attempts w)) (\<lambda>facts.
               case outcome_for abandoned facts f0 of
                 Inl (reason, c, m) \<Rightarrow> Inr (no_result reason c m None None)
               | Inr outcome \<Rightarrow> propose hash new_id now ep events fingerprint f0 w facts outcome)))"

definition extract_proposal ::
    "consolidation_service \<Rightarrow> (experience_record \<Rightarrow> cortex_error + string) \<Rightarrow> (nat \<Rightarrow> string)
      \<Rightarrow> timestamp \<Rightarrow> episode \<Rightarrow> (nat \<times> cortex_event) list \<Rightarrow> string
      \<Rightarrow> cortex_error + consolidation_preview" where
  "extract_proposal svc hash new_id now ep events fingerprint =
     (case event_steps svc 0 events no_extraction of
        Inl r \<Rightarrow> r
      | Inr w \<Rightarrow> finish_extraction hash new_id now ep events fingerprint w)"

text \<open>The services as \<open>main\<close> builds them.\<close>

definition standard_services :: "(string \<Rightarrow> string) \<Rightarrow> consolidation_service \<Rightarrow> bool" where
  "standard_services blake3 svc \<longleftrightarrow>
     decoder_registry_standard (cs_serde svc) = Inr (cs_decoders svc)
     \<and> normalization_standard blake3 = Inr (cs_normalizers svc)"

end
