(* ===== verification/ExperienceValidation.thy ===== *)
theory ExperienceValidation
  imports ExperienceDomain
begin

text \<open>
  What storage checks of an experience before it writes it: \<open>validate_experience_record\<close>,
  \<open>validate_verification_semantics\<close> and \<open>validate_assessment\<close> of \<open>src/storage/repositories.rs\<close>.
  BLAKE3 and the JSON serializer, whose output length is bounded, are parameters.
\<close>

section \<open>Values\<close>

definition max_experience_attempts :: nat where "max_experience_attempts = 32"
definition max_experience_evidence :: nat where "max_experience_evidence = 256"
definition max_experience_snapshots :: nat where "max_experience_snapshots = 64"

definition stable_experience_component :: "string \<Rightarrow> nat \<Rightarrow> bool" where
  "stable_experience_component v max_bytes \<longleftrightarrow> v \<noteq> [] \<and> length v \<le> max_bytes \<and> trim v = v
     \<and> list_all (\<lambda>c. is_ascii_alphanumeric c \<or> c \<in> set ''_-.:<>, &/'') v"

definition valid_blake3_hash :: "string \<Rightarrow> bool" where
  "valid_blake3_hash v \<longleftrightarrow> length v = 64
     \<and> list_all (\<lambda>c. is_ascii_digit c \<or> 97 \<le> code c \<and> code c \<le> 102) v"

text \<open>\<open>char::is_control\<close>: the code points below U+0020, U+007F, and U+0080 to U+009F, whose UTF-8
  encodings are \<open>C2 80\<close> to \<open>C2 9F\<close>.\<close>

fun has_control :: "string \<Rightarrow> bool" where
  "has_control [] \<longleftrightarrow> False"
| "has_control (c # cs) \<longleftrightarrow> code c < 32 \<or> code c = 127
     \<or> code c = 194 \<and> cs \<noteq> [] \<and> 128 \<le> code (hd cs) \<and> code (hd cs) \<le> 159 \<or> has_control cs"

definition bounded_experience_key :: "string \<Rightarrow> nat \<Rightarrow> bool" where
  "bounded_experience_key v max_bytes \<longleftrightarrow>
     v \<noteq> [] \<and> length v \<le> max_bytes \<and> trim v = v \<and> \<not> has_control v"

definition workspace_relative_experience_path :: "string \<Rightarrow> bool" where
  "workspace_relative_experience_path v \<longleftrightarrow> v \<noteq> [] \<and> length v \<le> 512
     \<and> \<not> starts_with v ''/'' \<and> \<not> starts_with v [CHR 0x5C] \<and> CHR '':'' \<notin> set v
     \<and> \<not> list_ex (\<lambda>part. part = [] \<or> part = ''..'') (split_on CHR ''/'' v)"

definition validate_ordinals :: "nat list \<Rightarrow> string \<Rightarrow> cortex_error + unit" where
  "validate_ordinals values_of label =
     ensure (list_all (\<lambda>(expected, actual). expected = actual) (enumerate 0 values_of))
       (AnalysisErr (label @ '' ordinals must begin at zero and be contiguous''))"

section \<open>Verification semantics\<close>

text \<open>The counters of the loop and the sets of subjects it collects.\<close>

definition with_status_of :: "verification_status \<Rightarrow> verification_observation list
    \<Rightarrow> verification_observation list" where
  "with_status_of s obs = filter (\<lambda>v. vo_status v = s) obs"

definition kind_compatible :: "verification_observation \<Rightarrow> bool" where
  "kind_compatible v \<longleftrightarrow> vo_kind v \<noteq> NoKind
     \<and> (vo_status v = ExplicitlyAccepted \<longrightarrow> vo_kind v = UserAcceptanceKind)
     \<and> (vo_status v \<noteq> ExplicitlyAccepted \<longrightarrow> vo_kind v \<noteq> UserAcceptanceKind)"

definition storable_scope :: "verification_observation \<Rightarrow> bool" where
  "storable_scope v \<longleftrightarrow> stable_experience_component (es_value (vo_subject v)) 512
     \<and> stable_experience_component (vo_rule_id v) 256
     \<and> stable_experience_component (vo_rule_version v) 256
     \<and> (es_kind (vo_subject v) = PathSubject
          \<longrightarrow> workspace_relative_experience_path (es_value (vo_subject v)))"

definition check_observation ::
    "evidence_link list \<Rightarrow> verification_observation \<Rightarrow> cortex_error + unit" where
  "check_observation evidence v =
     and_then (ensure (vo_status v \<in> {VerifiedPassed, VerifiedFailed, ExplicitlyAccepted})
       (AnalysisErr (''individual verification observations must be passed, failed, or ''
          @ ''explicitly accepted''))) (\<lambda>_.
     and_then (ensure (kind_compatible v)
       (AnalysisErr ''verification status and kind are incompatible'')) (\<lambda>_.
     and_then (ensure (storable_scope v)
       (AnalysisErr ''verification observations require subject and rule identity'')) (\<lambda>_.
     and_then (ok_or (find (\<lambda>l. link_event_id l = vo_evidence_event_id v) evidence)
       (AnalysisErr ''verification observation must reference exact experience evidence'')) (\<lambda>l.
     ensure (link_relation l \<in> {AttemptVerification, TerminalVerification})
       (AnalysisErr ''verification observation uses an invalid evidence relation'')))))"

definition outcome_supported :: "experience_outcome \<Rightarrow> experience_verification \<Rightarrow> bool" where
  "outcome_supported outcome v =
     (let obs = ev_observations v;
          passed = length (with_status_of VerifiedPassed obs);
          failed = length (with_status_of VerifiedFailed obs);
          accepted = length (with_status_of ExplicitlyAccepted obs);
          positive_subjects = map vo_subject (with_status_of VerifiedPassed obs
            @ with_status_of ExplicitlyAccepted obs);
          failed_subjects = map vo_subject (with_status_of VerifiedFailed obs)
      in case outcome of
           SuccessOutcome \<Rightarrow> failed = 0
             \<and> (ev_status v = VerifiedPassed \<and> 0 < passed
                \<or> ev_status v = ExplicitlyAccepted \<and> 0 < accepted)
         | FailureOutcome \<Rightarrow> 0 < failed \<and> passed + accepted = 0 \<and> ev_status v = VerifiedFailed
         | PartialSuccessOutcome \<Rightarrow> 0 < failed \<and> 0 < passed + accepted
             \<and> ev_status v = ConflictingStatus
             \<and> list_ex (\<lambda>s. list_ex (\<lambda>f. f \<noteq> s) failed_subjects) positive_subjects
         | InconclusiveOutcome \<Rightarrow> ev_status v \<in> {ConflictingStatus, MissingStatus, UnsupportedStatus}
         | AbandonedOutcome \<Rightarrow> ev_status v \<in> {MissingStatus, UnsupportedStatus})"

definition check_strength ::
    "experience_outcome \<Rightarrow> strength_assessment \<Rightarrow> nat \<Rightarrow> nat \<Rightarrow> cortex_error + unit" where
  "check_strength outcome sa verified accepted =
     and_then (ensure (distinct (sa_bases sa) \<and> sa_bases sa \<noteq> [])
       (AnalysisErr ''evidence strength bases must be non-empty and unique'')) (\<lambda>_.
     and_then (ensure (outcome \<in> {SuccessOutcome, FailureOutcome, PartialSuccessOutcome}
         \<longrightarrow> sa_strength sa \<in> {Strong, Moderate})
       (AnalysisErr ''a conclusive outcome requires at least moderate structured evidence'')) (\<lambda>_.
     and_then (ensure (sa_strength sa \<in> {Strong, Moderate} \<longrightarrow> list_ex (\<lambda>b. b \<in>
           {DeterministicVerifier, RepeatedDeterministicEvidence, ExplicitUserAcceptance,
            ExplicitHarnessAssertion}) (sa_bases sa))
       (AnalysisErr ''moderate or strong evidence requires an explicit authoritative basis'')) (\<lambda>_.
     and_then (ensure (0 < accepted \<longrightarrow> ExplicitUserAcceptance \<in> set (sa_bases sa))
       (AnalysisErr ''explicit acceptance requires an explicit user acceptance evidence basis'')) (\<lambda>_.
     and_then (ensure (0 < verified \<longrightarrow> list_ex (\<lambda>b. b \<in>
           {DeterministicVerifier, RepeatedDeterministicEvidence, ExplicitHarnessAssertion})
         (sa_bases sa))
       (AnalysisErr ''verifier observations require a deterministic or harness evidence basis'')) (\<lambda>_.
     ensure (RepeatedDeterministicEvidence \<in> set (sa_bases sa) \<longrightarrow> 2 \<le> verified)
       (AnalysisErr (''repeated deterministic evidence requires at least two verifier ''
          @ ''observations'')))))))"

definition validate_verification_semantics ::
    "experience \<Rightarrow> evidence_link list \<Rightarrow> cortex_error + unit" where
  "validate_verification_semantics e evidence =
     (let v = exp_verification e; obs = ev_observations v;
          passed = length (with_status_of VerifiedPassed obs);
          failed = length (with_status_of VerifiedFailed obs);
          accepted = length (with_status_of ExplicitlyAccepted obs)
      in and_then (ensure (length obs \<le> 16 \<and> length (ev_reasons v) \<le> 16
             \<and> list_all (\<lambda>r. \<not> blank r \<and> length r \<le> 4096) (ev_reasons v))
           (AnalysisErr ''verification observations and reasons must be bounded'')) (\<lambda>_.
         and_then (validate_ordinals (map vo_ordinal obs) ''verification observation'') (\<lambda>_.
         and_then (try_each (check_observation evidence) obs) (\<lambda>_.
         and_then (ensure (\<not> (ev_status v = ConflictingStatus
               \<and> (failed = 0 \<or> passed + accepted = 0)))
           (AnalysisErr (''conflicting verification requires both positive and failed ''
              @ ''observations''))) (\<lambda>_.
         and_then (ensure (outcome_supported (exp_outcome e) v)
           (AnalysisErr (''experience outcome is not supported by its scoped verification ''
              @ ''observations''))) (\<lambda>_.
         and_then (check_strength (exp_outcome e) (exp_evidence_strength e) (passed + failed) accepted)
           (\<lambda>_.
         ensure (ev_status v \<in> {MissingStatus, UnsupportedStatus} \<longrightarrow> obs = [])
           (AnalysisErr (''missing or unsupported verification cannot contain ''
              @ ''observations'')))))))))"

section \<open>The record\<close>

definition check_id :: "string \<times> string \<Rightarrow> cortex_error + unit" where
  "check_id = (\<lambda>(label, v). ensure (\<not> blank v \<and> length v \<le> 256)
     (AnalysisErr (label @ '' must be non-empty and bounded'')))"

definition check_signature ::
    "(string \<Rightarrow> string) \<Rightarrow> string \<Rightarrow> failure_signature \<Rightarrow> cortex_error + unit" where
  "check_signature blake3 workspace s =
     and_then (ensure (fs_workspace_id (sig_scope s) = workspace)
       (AnalysisErr ''failure signature workspace does not match experience workspace'')) (\<lambda>_.
     and_then (signature_new blake3 (sig_domain s) (identity_capability s) (sig_components s)
       (normalizer_id s) (normalizer_version s) (sig_scope s)) (\<lambda>rebuilt.
     ensure (rebuilt = s)
       (AnalysisErr ''failure signature does not match its canonical normalized fields'')))"

text \<open>The three sets of the loop over the attempts.\<close>

record attempt_claims =
  ac_ids :: "string list"
  ac_changes :: "nat list"
  ac_verifications :: "nat list"

definition claim :: "string \<Rightarrow> nat list \<Rightarrow> nat \<Rightarrow> cortex_error + nat list" where
  "claim message xs x = (if x \<in> set xs then Inl (AnalysisErr message) else Inr (xs @ [x]))"

definition relation_at :: "evidence_link list \<Rightarrow> nat \<Rightarrow> evidence_relation \<Rightarrow> bool" where
  "relation_at evidence k r \<longleftrightarrow> k < length evidence \<and> link_relation (evidence ! k) = r"

definition check_attempt ::
    "experience \<Rightarrow> evidence_link list \<Rightarrow> attempt_claims \<Rightarrow> experience_attempt
      \<Rightarrow> cortex_error + attempt_claims" where
  "check_attempt e evidence c a =
     and_then (ensure (\<not> blank (attempt_id a) \<and> length (attempt_id a) \<le> 256
         \<and> attempt_id a \<notin> set (ac_ids c) \<and> attempt_workspace_id a = exp_workspace_id e
         \<and> attempt_experience_id a = exp_id e)
       (AnalysisErr ''attempt identity and ownership must be unique and match the experience'')) (\<lambda>_.
     and_then (ensure (attempt_change_ordinals a \<noteq> [])
       (AnalysisErr ''every attempt requires change or tool evidence'')) (\<lambda>_.
     and_then (try_fold (claim ''attempt change evidence must belong to exactly one attempt'')
       (ac_changes c) (attempt_change_ordinals a)) (\<lambda>changes.
     and_then (case attempt_following_ordinal a of
         None \<Rightarrow> Inr (ac_verifications c)
       | Some k \<Rightarrow> claim ''following verification evidence must belong to exactly one attempt''
           (ac_verifications c) k) (\<lambda>verifications.
     and_then (ensure (list_all (\<lambda>k. k \<in> link_ordinal ` set evidence) (attempt_change_ordinals a)
         \<and> pred_option (\<lambda>k. k \<in> link_ordinal ` set evidence) (attempt_following_ordinal a))
       (AnalysisErr ''attempt references an absent evidence link'')) (\<lambda>_.
     and_then (ensure (list_all (\<lambda>k. relation_at evidence k AttemptChange) (attempt_change_ordinals a))
       (AnalysisErr ''attempt change ordinals must reference attempt_change evidence'')) (\<lambda>_.
     and_then (ensure (pred_option (\<lambda>k. relation_at evidence k AttemptVerification)
         (attempt_following_ordinal a))
       (AnalysisErr ''following verification must reference attempt_verification evidence'')) (\<lambda>_.
     and_then (ensure (attempt_result_of a = InconclusiveAttempt
         \<or> attempt_following_ordinal a \<noteq> None)
       (AnalysisErr ''a conclusive attempt result requires following verification evidence'')) (\<lambda>_.
     Inr \<lparr>ac_ids = ac_ids c @ [attempt_id a], ac_changes = changes,
          ac_verifications = verifications\<rparr>))))))))"

definition check_link ::
    "verification_observation list \<Rightarrow> attempt_claims \<Rightarrow> evidence_link \<Rightarrow> cortex_error + unit" where
  "check_link obs c l =
     (case link_relation l of
        AttemptChange \<Rightarrow> ensure (link_ordinal l \<in> set (ac_changes c))
          (AnalysisErr ''attempt_change evidence must belong to exactly one attempt'')
      | AttemptVerification \<Rightarrow> ensure (link_ordinal l \<in> set (ac_verifications c))
          (AnalysisErr ''attempt_verification evidence must follow exactly one attempt'')
      | TerminalVerification \<Rightarrow> ensure
          (list_ex (\<lambda>v. vo_evidence_event_id v = link_event_id l) obs)
          (AnalysisErr ''terminal_verification evidence requires a scoped observation'')
      | _ \<Rightarrow> Inr ())"

definition check_code_snapshot ::
    "(string \<Rightarrow> string) \<Rightarrow> evidence_link list \<Rightarrow> code_snapshot \<Rightarrow> cortex_error + unit" where
  "check_code_snapshot blake3 evidence s =
     ensure (workspace_relative_experience_path (snap_relative_path s)
         \<and> 0 \<le> snap_workspace_content_revision s \<and> 0 \<le> snap_document_content_revision s
         \<and> valid_blake3_hash (snap_document_content_hash s)
         \<and> blake3 (snap_content s) = snap_document_content_hash s
         \<and> length (snap_content s) \<le> 65536
         \<and> pred_option (\<lambda>v. bounded_experience_key v 512) (snap_chunk_stable_key s)
         \<and> pred_option valid_blake3_hash (snap_chunk_content_hash s)
         \<and> (snap_chunk_stable_key s \<noteq> None \<longleftrightarrow> snap_chunk_content_hash s \<noteq> None)
         \<and> pred_option (\<lambda>v. bounded_experience_key v 512) (snap_symbol_logical_key s)
         \<and> pred_option (\<lambda>v. bounded_experience_key v 512) (snap_symbol_label s)
         \<and> (case (snap_source_start_byte s, snap_source_end_byte s) of
              (None, None) \<Rightarrow> True
            | (Some a, Some b) \<Rightarrow> 0 \<le> a \<and> a \<le> b \<and> nat b \<le> length (snap_content s)
            | _ \<Rightarrow> False)
         \<and> list_ex (\<lambda>l. link_event_id l = snap_source_event_id s
              \<and> link_relation l = AttemptChange) evidence)
       (AnalysisErr ''code snapshots require self-consistent bounded historical content'')"

definition check_graph_snapshot ::
    "(json \<Rightarrow> cortex_error + string) \<Rightarrow> code_snapshot list \<Rightarrow> experience_graph_snapshot \<Rightarrow> cortex_error + unit" where
  "check_graph_snapshot to_vec code_snapshots g =
     (let refused = AnalysisErr ''graph snapshots require bounded stable historical material'';
          k = gs_code_snapshot_ordinal g
      in and_then (ensure (k < length code_snapshots \<and> snap_ordinal (code_snapshots ! k) = k
             \<and> snap_workspace_content_revision (code_snapshots ! k) = gs_graph_content_revision g
             \<and> 0 \<le> gs_graph_content_revision g \<and> 0 \<le> gs_graph_schema_version g
             \<and> bounded_experience_key (gs_analyzer_id g) 256
             \<and> bounded_experience_key (gs_analyzer_version g) 256
             \<and> bounded_experience_key (gs_structure_version g) 256
             \<and> bounded_experience_key (gs_node_stable_key g) 512) refused) (\<lambda>_.
         and_then (to_vec (gs_resolution_provenance g)) (\<lambda>bytes.
         ensure (length bytes \<le> 65536) refused)))"

definition validate_experience_record ::
    "(string \<Rightarrow> string) \<Rightarrow> (json \<Rightarrow> cortex_error + string) \<Rightarrow> experience_record
      \<Rightarrow> cortex_error + unit" where
  "validate_experience_record blake3 to_vec r =
     (let e = er_experience r
      in and_then (try_each check_id
           [(''experience ID'', exp_id e), (''workspace ID'', exp_workspace_id e),
            (''session ID'', exp_session_id e), (''episode ID'', exp_episode_id e),
            (''extractor ID'', exp_extractor_id e), (''extractor version'', exp_extractor_version e)])
           (\<lambda>_.
         and_then (ensure (valid_blake3_hash (exp_consolidation_fingerprint e)
             \<and> valid_blake3_hash (exp_proposal_hash e))
           (AnalysisErr ''experience fingerprints must be lowercase BLAKE3 hashes'')) (\<lambda>_.
         and_then (ensure (\<not> blank (exp_summary e) \<and> length (exp_summary e) \<le> 4096)
           (AnalysisErr ''experience summary must be non-empty and bounded'')) (\<lambda>_.
         and_then (ensure (exp_summary_renderer_version e = experience_summary_renderer_version)
           (AnalysisErr ''experience uses an unsupported deterministic summary renderer version'')) (\<lambda>_.
         and_then (ensure (exp_canonicalization_version e = experience_canonicalization_version)
           (AnalysisErr ''experience uses an unsupported canonicalization version'')) (\<lambda>_.
         and_then (ensure (exp_summary e = render_summary (exp_failure_signature e) (exp_outcome e)
             (exp_verification e) (length (er_attempts r)))
           (AnalysisErr ''experience summary does not match the deterministic renderer'')) (\<lambda>_.
         and_then (case exp_failure_signature e of None \<Rightarrow> Inr ()
           | Some s \<Rightarrow> check_signature blake3 (exp_workspace_id e) s) (\<lambda>_.
         and_then (ensure (er_attempts r \<noteq> [] \<and> er_evidence r \<noteq> [])
           (AnalysisErr ''an experience requires at least one attempt and one evidence link'')) (\<lambda>_.
         and_then (ensure (length (er_attempts r) \<le> max_experience_attempts
             \<and> length (er_evidence r) \<le> max_experience_evidence
             \<and> length (er_code_snapshots r) \<le> max_experience_snapshots
             \<and> length (er_graph_snapshots r) \<le> max_experience_snapshots)
           (AnalysisErr ''experience relation limit exceeded'')) (\<lambda>_.
         and_then (validate_verification_semantics e (er_evidence r)) (\<lambda>_.
         and_then (validate_ordinals (map attempt_ordinal (er_attempts r)) ''attempt'') (\<lambda>_.
         and_then (validate_ordinals (map link_ordinal (er_evidence r)) ''evidence'') (\<lambda>_.
         and_then (validate_ordinals (map snap_ordinal (er_code_snapshots r)) ''code snapshot'') (\<lambda>_.
         and_then (validate_ordinals (map gs_ordinal (er_graph_snapshots r)) ''graph snapshot'') (\<lambda>_.
         and_then (ensure (distinct (map link_event_id (er_evidence r)))
           (AnalysisErr ''each event may have only one unambiguous relation in an experience'')) (\<lambda>_.
         and_then (try_fold (check_attempt e (er_evidence r))
           \<lparr>ac_ids = [], ac_changes = [], ac_verifications = []\<rparr> (er_attempts r)) (\<lambda>claims.
         and_then (try_each (check_link (ev_observations (exp_verification e)) claims)
           (er_evidence r)) (\<lambda>_.
         and_then (try_each (check_code_snapshot blake3 (er_evidence r)) (er_code_snapshots r)) (\<lambda>_.
         try_each (check_graph_snapshot to_vec (er_code_snapshots r))
           (er_graph_snapshots r))))))))))))))))))))"

section \<open>Assessments\<close>

definition validate_assessment :: "assessment \<Rightarrow> cortex_error + unit" where
  "validate_assessment a =
     and_then (ensure (\<not> blank (as_id a) \<and> \<not> blank (as_workspace_id a)
         \<and> \<not> blank (as_experience_id a) \<and> \<not> blank (as_actor a) \<and> \<not> blank (as_reason a))
       (AnalysisErr ''experience assessment requires identity, actor, and reason'')) (\<lambda>_.
     and_then (ensure (length (as_reason a) \<le> 4096
         \<and> length (as_evidence_event_ids a) \<le> max_experience_assessment_evidence)
       (AnalysisErr ''experience assessment exceeds a hard bound'')) (\<lambda>_.
     and_then (ensure ((as_kind a = SupersededAssessment \<longleftrightarrow> as_replacement a \<noteq> None)
         \<and> as_replacement a \<noteq> Some (as_experience_id a))
       (AnalysisErr (''only a superseded assessment may name a distinct replacement ''
          @ ''experience''))) (\<lambda>_.
     ensure (distinct (as_evidence_event_ids a))
       (AnalysisErr ''assessment evidence event IDs must be unique''))))"

section \<open>What a valid record is\<close>

lemma validate_ordinals_Inr [simp]:
  "validate_ordinals xs label = Inr u \<longleftrightarrow> xs = [0..<length xs]"
proof -
  have "list_all (\<lambda>(a, b). a = b) (zip [0..<length xs] xs) \<longleftrightarrow> list_all2 (=) [0..<length xs] xs"
    by (simp add: list_all2_iff list_all_iff)
  then show ?thesis by (auto simp: validate_ordinals_def enumerate_eq_zip list.rel_eq)
qed

lemma claim_Inr: "claim m xs x = Inr ys \<longleftrightarrow> x \<notin> set xs \<and> ys = xs @ [x]"
  by (auto simp: claim_def)

lemma claims_Inr:
  "try_fold (claim m) xs ys = Inr zs \<longleftrightarrow> distinct ys \<and> set xs \<inter> set ys = {} \<and> zs = xs @ ys"
  by (induction ys arbitrary: xs) (auto simp: claim_Inr and_then_eq_Inr)

definition attempt_fine :: "experience \<Rightarrow> evidence_link list \<Rightarrow> experience_attempt \<Rightarrow> bool" where
  "attempt_fine e evidence a \<longleftrightarrow> \<not> blank (attempt_id a) \<and> length (attempt_id a) \<le> 256
     \<and> attempt_workspace_id a = exp_workspace_id e \<and> attempt_experience_id a = exp_id e
     \<and> attempt_change_ordinals a \<noteq> []
     \<and> list_all (\<lambda>k. k \<in> link_ordinal ` set evidence \<and> relation_at evidence k AttemptChange)
         (attempt_change_ordinals a)
     \<and> pred_option (\<lambda>k. k \<in> link_ordinal ` set evidence
         \<and> relation_at evidence k AttemptVerification) (attempt_following_ordinal a)
     \<and> (attempt_result_of a = InconclusiveAttempt \<or> attempt_following_ordinal a \<noteq> None)"

definition following_ordinals :: "experience_attempt \<Rightarrow> nat list" where
  "following_ordinals a = (case attempt_following_ordinal a of None \<Rightarrow> [] | Some k \<Rightarrow> [k])"

lemma check_attempt_Inr:
  "check_attempt e evidence c a = Inr d \<longleftrightarrow> attempt_fine e evidence a
     \<and> attempt_id a \<notin> set (ac_ids c)
     \<and> distinct (attempt_change_ordinals a)
     \<and> set (ac_changes c) \<inter> set (attempt_change_ordinals a) = {}
     \<and> set (ac_verifications c) \<inter> set (following_ordinals a) = {}
     \<and> d = \<lparr>ac_ids = ac_ids c @ [attempt_id a], ac_changes = ac_changes c @ attempt_change_ordinals a,
           ac_verifications = ac_verifications c @ following_ordinals a\<rparr>"
  by (cases "attempt_following_ordinal a")
    (auto simp: check_attempt_def and_then_eq_Inr claims_Inr claim_Inr attempt_fine_def
      following_ordinals_def list_all_iff)

lemma check_attempts_Inr:
  "try_fold (check_attempt e evidence) c as = Inr d \<longleftrightarrow>
     list_all (attempt_fine e evidence) as
     \<and> distinct (map attempt_id as) \<and> set (ac_ids c) \<inter> attempt_id ` set as = {}
     \<and> distinct (concat (map attempt_change_ordinals as))
     \<and> set (ac_changes c) \<inter> set (concat (map attempt_change_ordinals as)) = {}
     \<and> distinct (concat (map following_ordinals as))
     \<and> set (ac_verifications c) \<inter> set (concat (map following_ordinals as)) = {}
     \<and> d = \<lparr>ac_ids = ac_ids c @ map attempt_id as,
           ac_changes = ac_changes c @ concat (map attempt_change_ordinals as),
           ac_verifications = ac_verifications c @ concat (map following_ordinals as)\<rparr>"
proof (induction as arbitrary: c)
  case Nil
  then show ?case by (cases c) auto
next
  case (Cons a as)
  have "distinct (following_ordinals a)" by (simp add: following_ordinals_def split: option.split)
  then show ?case
    unfolding try_fold.simps and_then_eq_Inr check_attempt_Inr Cons.IH by auto
qed

text \<open>The claims of the attempts, all of them together.\<close>

definition claims_of :: "experience_attempt list \<Rightarrow> attempt_claims" where
  "claims_of as = \<lparr>ac_ids = map attempt_id as,
     ac_changes = concat (map attempt_change_ordinals as),
     ac_verifications = concat (map following_ordinals as)\<rparr>"

definition attempts_fine :: "experience \<Rightarrow> evidence_link list \<Rightarrow> experience_attempt list \<Rightarrow> bool" where
  "attempts_fine e evidence as \<longleftrightarrow> list_all (attempt_fine e evidence) as
     \<and> distinct (map attempt_id as) \<and> distinct (concat (map attempt_change_ordinals as))
     \<and> distinct (concat (map following_ordinals as))"

lemma attempts_checked:
  "try_fold (check_attempt e evidence) \<lparr>ac_ids = [], ac_changes = [], ac_verifications = []\<rparr> as = Inr c
     \<longleftrightarrow> attempts_fine e evidence as \<and> c = claims_of as"
  by (auto simp: check_attempts_Inr attempts_fine_def claims_of_def)

definition valid_head :: "experience \<Rightarrow> nat \<Rightarrow> bool" where
  "valid_head e n \<longleftrightarrow> list_all (\<lambda>v. \<not> blank v \<and> length v \<le> 256)
       [exp_id e, exp_workspace_id e, exp_session_id e, exp_episode_id e, exp_extractor_id e,
        exp_extractor_version e]
     \<and> valid_blake3_hash (exp_consolidation_fingerprint e)
     \<and> valid_blake3_hash (exp_proposal_hash e)
     \<and> \<not> blank (exp_summary e) \<and> length (exp_summary e) \<le> 4096
     \<and> exp_summary_renderer_version e = experience_summary_renderer_version
     \<and> exp_canonicalization_version e = experience_canonicalization_version
     \<and> exp_summary e = render_summary (exp_failure_signature e) (exp_outcome e)
         (exp_verification e) n"

lemma validate_experience_record_Inr:
  "validate_experience_record blake3 to_vec r = Inr u \<longleftrightarrow>
     valid_head (er_experience r) (length (er_attempts r))
     \<and> pred_option (\<lambda>s. check_signature blake3 (exp_workspace_id (er_experience r)) s = Inr ())
         (exp_failure_signature (er_experience r))
     \<and> er_attempts r \<noteq> [] \<and> er_evidence r \<noteq> []
     \<and> length (er_attempts r) \<le> max_experience_attempts
     \<and> length (er_evidence r) \<le> max_experience_evidence
     \<and> length (er_code_snapshots r) \<le> max_experience_snapshots
     \<and> length (er_graph_snapshots r) \<le> max_experience_snapshots
     \<and> validate_verification_semantics (er_experience r) (er_evidence r) = Inr ()
     \<and> map attempt_ordinal (er_attempts r) = [0..<length (er_attempts r)]
     \<and> map link_ordinal (er_evidence r) = [0..<length (er_evidence r)]
     \<and> map snap_ordinal (er_code_snapshots r) = [0..<length (er_code_snapshots r)]
     \<and> map gs_ordinal (er_graph_snapshots r) = [0..<length (er_graph_snapshots r)]
     \<and> distinct (map link_event_id (er_evidence r))
     \<and> attempts_fine (er_experience r) (er_evidence r) (er_attempts r)
     \<and> (\<forall>l \<in> set (er_evidence r). check_link (ev_observations (exp_verification (er_experience r)))
         (claims_of (er_attempts r)) l = Inr ())
     \<and> (\<forall>s \<in> set (er_code_snapshots r). check_code_snapshot blake3 (er_evidence r) s = Inr ())
     \<and> (\<forall>g \<in> set (er_graph_snapshots r).
         check_graph_snapshot to_vec (er_code_snapshots r) g = Inr ())"
  by (cases "exp_failure_signature (er_experience r)")
    (simp_all add: validate_experience_record_def Let_def and_then_eq_Inr try_each_eq_Inr check_id_def
      attempts_checked valid_head_def conj_assoc)


end
