(* ===== verification/GraphStore.thy ===== *)
theory GraphStore
  imports GraphDomain
begin

text \<open>
  The graph tables and the queries on them: the graph part of \<open>src/storage/repositories.rs\<close>.  A
  table is the list of its rows, and a \<open>SELECT\<close> is the filter, order and limit that its text
  states.  \<open>serde_json::from_str\<close> is a parameter.  A statement of the service sees the database as
  it is when the statement runs, or fails with the driver's error: \<open>storage\<close> gives that outcome
  for each point in time, so that other writers may act between two statements of one request.
\<close>

section \<open>Rows\<close>

record graph_node_row =
  nr_id :: string
  nr_workspace_id :: string
  nr_node_type :: string
  nr_stable_key :: string
  nr_language :: "string option"
  nr_name :: string
  nr_qualified_name :: "string option"
  nr_document_id :: "string option"
  nr_chunk_id :: "string option"
  nr_source_path :: "string option"
  nr_source_start_byte :: "int option"
  nr_source_end_byte :: "int option"
  nr_analyzer_id :: string
  nr_analyzer_version :: string
  nr_structure_version :: string
  nr_content_revision :: int
  nr_metadata_json :: string
  nr_created_at :: timestamp
  nr_updated_at :: timestamp

record graph_edge_row =
  er_id :: string
  er_workspace_id :: string
  er_relationship_key :: string
  er_relationship_fact_id :: "string option"
  er_from_node :: string
  er_to_node :: string
  er_edge_type :: string
  er_confidence :: f32
  er_analyzer_id :: string
  er_analyzer_version :: string
  er_structure_version :: string
  er_source_document_id :: "string option"
  er_source_path :: "string option"
  er_source_start_byte :: "int option"
  er_source_end_byte :: "int option"
  er_content_revision :: int
  er_metadata_json :: string
  er_created_at :: timestamp

record graph_revision_row =
  vr_workspace_id :: string
  vr_content_revision :: int
  vr_graph_content_revision :: int
  vr_graph_schema_version :: int
  vr_graph_state :: string
  vr_update_started_at :: "timestamp option"
  vr_failed_target :: "int option"
  vr_last_error :: "string option"
  vr_updated_at :: timestamp

record graph_repair_row =
  rr_workspace_id :: string
  rr_generation_id :: string
  rr_mode :: string
  rr_target_revision :: int
  rr_state :: string
  rr_started_at :: timestamp
  rr_lease_expires_at :: timestamp
  rr_updated_at :: timestamp
  rr_completed_at :: "timestamp option"
  rr_documents_considered :: int
  rr_documents_repaired :: int
  rr_documents_failed :: int
  rr_last_error :: "string option"

record relationship_row =
  fr_id :: string
  fr_workspace_id :: string
  fr_source_document_id :: string
  fr_relationship_key :: string
  fr_from_node :: "string option"
  fr_from_stable_key :: string
  fr_edge_type :: string
  fr_target_kind :: string
  fr_target_value :: string
  fr_confidence :: f32
  fr_analyzer_id :: string
  fr_analyzer_version :: string
  fr_structure_version :: string
  fr_source_path :: "string option"
  fr_source_start_byte :: "int option"
  fr_source_end_byte :: "int option"
  fr_content_revision :: int
  fr_metadata_json :: string
  fr_created_at :: timestamp
  fr_updated_at :: timestamp

record projection_row =
  pr_document_id :: string
  pr_workspace_id :: string
  pr_content_revision :: int
  pr_analyzer_id :: string
  pr_analyzer_version :: string
  pr_structure_version :: string
  pr_node_count :: int
  pr_fact_count :: int
  pr_edge_count :: int
  pr_unresolved_count :: int
  pr_projected_at :: timestamp

record chunk_range =
  cr_id :: string
  cr_document_id :: string
  cr_start_byte :: int
  cr_end_byte :: int

record candidate_row =
  ur_relationship_id :: string
  ur_workspace_id :: string
  ur_node_id :: string
  ur_created_at :: timestamp

record graph_db =
  db_documents :: "document list"
  db_chunks :: "chunk_range list"
  db_analysis :: "graph_analysis_state list"
  db_revisions :: "graph_revision_row list"
  db_repairs :: "graph_repair_row list"
  db_nodes :: "graph_node_row list"
  db_edges :: "graph_edge_row list"
  db_facts :: "relationship_row list"
  db_unresolved :: "relationship_row list"
  db_projections :: "projection_row list"
  db_candidates :: "candidate_row list"

type_synonym json_parser = "string \<Rightarrow> string + json"
type_synonym storage = "nat \<Rightarrow> cortex_error + graph_db"

section \<open>Statements\<close>

text \<open>\<open>UPDATE ... WHERE\<close>: the number of affected rows and the new table.\<close>

definition update_where :: "('r \<Rightarrow> bool) \<Rightarrow> ('r \<Rightarrow> 'r) \<Rightarrow> 'r list \<Rightarrow> nat \<times> 'r list" where
  "update_where P f rows = (length (filter P rows), map (\<lambda>r. if P r then f r else r) rows)"

text \<open>\<open>SELECT COUNT(*)\<close>.\<close>

definition row_count :: "('r \<Rightarrow> bool) \<Rightarrow> 'r list \<Rightarrow> int" where
  "row_count P rows = int (length (filter P rows))"

definition constraint_failed :: "string \<Rightarrow> cortex_error" where
  "constraint_failed what = StorageErr (what @ '' constraint failed'')"

section \<open>Reading rows\<close>

definition u64_column :: "string \<Rightarrow> int \<Rightarrow> cortex_error + nat" where
  "u64_column what v = (if v < 0 then Inl (AnalysisErr what) else Inr (nat v))"

definition graph_source_segment_from_columns ::
    "string option \<Rightarrow> int option \<Rightarrow> int option \<Rightarrow> cortex_error + source_segment option" where
  "graph_source_segment_from_columns path start e =
     (case (path, start, e) of
        (None, None, None) \<Rightarrow> Inr None
      | (Some source, Some s, Some t) \<Rightarrow>
          and_then (u64_column ''negative graph source segment start'' s) (\<lambda>s.
          and_then (u64_column ''negative graph source segment end'' t) (\<lambda>t.
          and_then (ensure (s \<le> t) (AnalysisErr ''graph source segment ends before it starts'')) (\<lambda>_.
          Inr (Some \<lparr>segment_source = source, segment_start_byte = s, segment_end_byte = t\<rparr>))))
      | _ \<Rightarrow> Inl (AnalysisErr ''incomplete graph source segment columns''))"

definition metadata_column :: "json_parser \<Rightarrow> string \<Rightarrow> cortex_error + json" where
  "metadata_column parse text =
     (case parse text of Inl e \<Rightarrow> Inl (SerializationErr e) | Inr j \<Rightarrow> Inr j)"

definition graph_node_of_row :: "json_parser \<Rightarrow> graph_node_row \<Rightarrow> cortex_error + graph_node" where
  "graph_node_of_row parse r =
     and_then (graph_source_segment_from_columns (nr_source_path r) (nr_source_start_byte r)
       (nr_source_end_byte r)) (\<lambda>segment.
     and_then (metadata_column parse (nr_metadata_json r)) (\<lambda>metadata.
     Inr \<lparr>node_id = nr_id r, node_workspace_id = nr_workspace_id r,
       node_type_of = node_type_from_storage (nr_node_type r), node_stable_key = nr_stable_key r,
       node_language = nr_language r, node_name = nr_name r,
       node_qualified_name = nr_qualified_name r, node_document_id = nr_document_id r,
       node_chunk_id = nr_chunk_id r, node_source_segment = segment,
       node_analyzer_id = nr_analyzer_id r, node_analyzer_version = nr_analyzer_version r,
       node_structure_version = nr_structure_version r,
       node_content_revision = nr_content_revision r, node_metadata = metadata,
       node_created_at = nr_created_at r, node_updated_at = nr_updated_at r\<rparr>))"

definition graph_edge_of_row :: "json_parser \<Rightarrow> graph_edge_row \<Rightarrow> cortex_error + graph_edge" where
  "graph_edge_of_row parse r =
     and_then (graph_source_segment_from_columns (er_source_path r) (er_source_start_byte r)
       (er_source_end_byte r)) (\<lambda>segment.
     and_then (metadata_column parse (er_metadata_json r)) (\<lambda>metadata.
     Inr \<lparr>edge_id = er_id r, edge_workspace_id = er_workspace_id r,
       edge_relationship_key = er_relationship_key r,
       edge_relationship_fact_id = er_relationship_fact_id r,
       edge_from_node = er_from_node r, edge_to_node = er_to_node r,
       edge_type_of = edge_type_from_storage (er_edge_type r), edge_confidence = er_confidence r,
       edge_analyzer_id = er_analyzer_id r, edge_analyzer_version = er_analyzer_version r,
       edge_structure_version = er_structure_version r,
       edge_source_document_id = er_source_document_id r, edge_source_segment = segment,
       edge_content_revision = er_content_revision r, edge_metadata = metadata,
       edge_created_at = er_created_at r\<rparr>))"

definition graph_revision_of_row :: "graph_revision_row \<Rightarrow> cortex_error + workspace_graph_revision" where
  "graph_revision_of_row r =
     (if vr_content_revision r < 0 \<or> vr_graph_content_revision r < 0
         \<or> vr_graph_content_revision r > vr_content_revision r \<or> vr_graph_schema_version r \<le> 0
      then Inl (AnalysisErr ''invalid persisted workspace graph revision'')
      else Inr \<lparr>revision_workspace_id = vr_workspace_id r,
        revision_content_revision = vr_content_revision r,
        revision_graph_content_revision = vr_graph_content_revision r,
        revision_graph_schema_version = vr_graph_schema_version r,
        revision_graph_state = graph_state_from_storage (vr_graph_state r),
        revision_update_started_at = vr_update_started_at r,
        revision_failed_target = vr_failed_target r, revision_last_error = vr_last_error r,
        revision_updated_at = vr_updated_at r\<rparr>)"

definition repair_count :: "int \<Rightarrow> cortex_error + nat" where
  "repair_count v =
     (if v < 0 then Inl (AnalysisErr ''invalid persisted graph repair document count'')
      else Inr (nat v))"

definition graph_repair_of_row :: "graph_repair_row \<Rightarrow> cortex_error + graph_repair_generation" where
  "graph_repair_of_row r =
     and_then (repair_count (rr_documents_considered r)) (\<lambda>considered.
     and_then (repair_count (rr_documents_repaired r)) (\<lambda>repaired.
     and_then (repair_count (rr_documents_failed r)) (\<lambda>failed.
     Inr \<lparr>repair_workspace_id = rr_workspace_id r, repair_generation_id = rr_generation_id r,
       repair_mode_of = repair_mode_from_storage (rr_mode r),
       repair_target_revision = rr_target_revision r,
       repair_state_of = repair_state_from_storage (rr_state r),
       repair_started_at = rr_started_at r, repair_lease_expires_at = rr_lease_expires_at r,
       repair_updated_at = rr_updated_at r, repair_completed_at = rr_completed_at r,
       repair_documents_considered = considered, repair_documents_repaired = repaired,
       repair_documents_failed = failed, repair_last_error = rr_last_error r\<rparr>)))"

section \<open>Queries\<close>

text \<open>\<open>fetch_optional\<close> of a converted row.\<close>

definition transpose_row :: "('r \<Rightarrow> cortex_error + 'a) \<Rightarrow> 'r option \<Rightarrow> cortex_error + 'a option" where
  "transpose_row conv r =
     (case r of None \<Rightarrow> Inr None | Some x \<Rightarrow> and_then (conv x) (\<lambda>y. Inr (Some y)))"

definition i64_max :: nat where "i64_max = 2 ^ 63 - 1"

definition memory_limit :: "nat \<Rightarrow> cortex_error + nat" where
  "memory_limit limit =
     (if limit \<le> i64_max then Inr limit
      else Inl (AnalysisErr ''memory limit exceeds SQLite integer range''))"

definition list_documents :: "string \<Rightarrow> graph_db \<Rightarrow> document list" where
  "list_documents workspace db =
     sort_key document_relative_path
       (filter (\<lambda>d. document_workspace_id d = workspace) (db_documents db))"

definition graph_analysis_state_of :: "string \<Rightarrow> graph_db \<Rightarrow> graph_analysis_state option" where
  "graph_analysis_state_of document db =
     find (\<lambda>s. analysis_document_id s = document) (db_analysis db)"

definition workspace_graph_revision_of ::
    "string \<Rightarrow> graph_db \<Rightarrow> cortex_error + workspace_graph_revision option" where
  "workspace_graph_revision_of workspace db =
     transpose_row graph_revision_of_row
       (find (\<lambda>r. vr_workspace_id r = workspace) (db_revisions db))"

definition workspace_graph_repair_of ::
    "string \<Rightarrow> graph_db \<Rightarrow> cortex_error + graph_repair_generation option" where
  "workspace_graph_repair_of workspace db =
     transpose_row graph_repair_of_row
       (find (\<lambda>r. rr_workspace_id r = workspace) (db_repairs db))"

definition graph_nodes :: "json_parser \<Rightarrow> string \<Rightarrow> graph_db \<Rightarrow> cortex_error + graph_node list" where
  "graph_nodes parse workspace db =
     try_map (graph_node_of_row parse)
       (sort_key nr_stable_key (filter (\<lambda>r. nr_workspace_id r = workspace) (db_nodes db)))"

definition graph_node_by_id ::
    "json_parser \<Rightarrow> string \<Rightarrow> string \<Rightarrow> graph_db \<Rightarrow> cortex_error + graph_node option" where
  "graph_node_by_id parse workspace nid db =
     transpose_row (graph_node_of_row parse)
       (find (\<lambda>r. nr_workspace_id r = workspace \<and> nr_id r = nid) (db_nodes db))"

definition match_rank :: "string \<Rightarrow> graph_node_row \<Rightarrow> nat" where
  "match_rank query r =
     (if nr_stable_key r = query then 0
      else if nr_qualified_name r = Some query then 1
      else if nr_source_path r = Some query then 2
      else 3)"

definition node_matches :: "string \<Rightarrow> string \<Rightarrow> graph_node_row \<Rightarrow> bool" where
  "node_matches workspace query r \<longleftrightarrow> nr_workspace_id r = workspace
     \<and> (nr_stable_key r = query \<or> nr_qualified_name r = Some query \<or> nr_name r = query
        \<or> nr_source_path r = Some query)"

definition graph_nodes_matching ::
    "json_parser \<Rightarrow> string \<Rightarrow> string \<Rightarrow> nat \<Rightarrow> graph_db \<Rightarrow> cortex_error + graph_node list" where
  "graph_nodes_matching parse workspace query limit db =
     (if limit = 0 \<or> blank query then Inr []
      else let query = to_slashes (trim query)
        in and_then (memory_limit limit) (\<lambda>n.
           try_map (graph_node_of_row parse)
             (take n (sort_key (\<lambda>r. (match_rank query r, nr_stable_key r))
               (filter (node_matches workspace query) (db_nodes db))))))"

text \<open>The rows of nodes that overlap a chunk: the three-way join of the query.\<close>

definition overlaps_chunk :: "graph_node_row \<Rightarrow> chunk_range \<Rightarrow> bool" where
  "overlaps_chunk n c =
     (case (nr_source_start_byte n, nr_source_end_byte n) of
        (Some s, Some e) \<Rightarrow> s \<le> cr_end_byte c \<and> e \<ge> cr_start_byte c
      | _ \<Rightarrow> False)"

definition chunk_node_rows :: "string \<Rightarrow> string \<Rightarrow> graph_db \<Rightarrow> graph_node_row list" where
  "chunk_node_rows workspace chunk db =
     concat (map (\<lambda>n. concat (map (\<lambda>c. map (\<lambda>d. n)
         (filter (\<lambda>d. document_id d = cr_document_id c
            \<and> document_workspace_id d = nr_workspace_id n) (db_documents db)))
         (filter (\<lambda>c. nr_document_id n = Some (cr_document_id c) \<and> cr_id c = chunk
            \<and> overlaps_chunk n c) (db_chunks db))))
       (filter (\<lambda>n. nr_workspace_id n = workspace) (db_nodes db)))"

definition graph_nodes_for_chunk ::
    "json_parser \<Rightarrow> string \<Rightarrow> string \<Rightarrow> nat \<Rightarrow> graph_db \<Rightarrow> cortex_error + graph_node list" where
  "graph_nodes_for_chunk parse workspace chunk limit db =
     (if limit = 0 then Inr []
      else and_then (memory_limit limit) (\<lambda>n.
        try_map (graph_node_of_row parse)
          (take n (sort_key (\<lambda>r. (if nr_node_type r = ''file'' then 1 else 0 :: nat,
                the (nr_source_end_byte r) - the (nr_source_start_byte r), nr_stable_key r))
            (chunk_node_rows workspace chunk db)))))"

definition edge_row_selected ::
    "string \<Rightarrow> string \<Rightarrow> bool \<Rightarrow> graph_edge_type list \<Rightarrow> graph_edge_row \<Rightarrow> bool" where
  "edge_row_selected workspace node incoming types r \<longleftrightarrow> er_workspace_id r = workspace
     \<and> (if incoming then er_to_node r else er_from_node r) = node
     \<and> (types = [] \<or> er_edge_type r \<in> set (map edge_type_storage_name types))"

definition graph_edges_for_node ::
    "json_parser \<Rightarrow> string \<Rightarrow> string \<Rightarrow> bool \<Rightarrow> graph_edge_type list \<Rightarrow> nat \<Rightarrow> graph_db
      \<Rightarrow> cortex_error + graph_edge list" where
  "graph_edges_for_node parse workspace node incoming types limit db =
     (if limit = 0 then Inr []
      else and_then (memory_limit limit) (\<lambda>n.
        try_map (graph_edge_of_row parse)
          (take n (sort_key (\<lambda>r. (er_edge_type r, er_relationship_key r))
            (filter (edge_row_selected workspace node incoming types) (db_edges db))))))"

section \<open>What the queries return\<close>

lemma transpose_row_Inr [result_simps]: "transpose_row conv r = Inr y \<longleftrightarrow>
    (case r of None \<Rightarrow> y = None | Some x \<Rightarrow> \<exists>z. conv x = Inr z \<and> y = Some z)"
  by (auto simp: transpose_row_def and_then_eq_Inr split: option.splits)

lemma node_of_row_fields:
  assumes "graph_node_of_row parse r = Inr n"
  shows "node_id n = nr_id r" and "node_workspace_id n = nr_workspace_id r"
    and "node_stable_key n = nr_stable_key r"
  using assms by (auto simp: graph_node_of_row_def and_then_eq_Inr)

lemma edge_of_row_fields:
  assumes "graph_edge_of_row parse r = Inr e"
  shows "edge_id e = er_id r" and "edge_from_node e = er_from_node r"
    and "edge_to_node e = er_to_node r" and "edge_confidence e = er_confidence r"
    and "edge_type_of e = edge_type_from_storage (er_edge_type r)"
    and "edge_relationship_key e = er_relationship_key r" and "edge_workspace_id e = er_workspace_id r"
  using assms by (auto simp: graph_edge_of_row_def and_then_eq_Inr)

lemma node_by_id_Some:
  assumes "graph_node_by_id parse workspace nid db = Inr (Some n)"
  shows "node_id n = nid"
  using assms
  by (auto simp: graph_node_by_id_def result_simps node_of_row_fields split: option.splits
      dest!: find_SomeD)

lemma try_map_member:
  assumes "try_map f xs = Inr ys" and "y \<in> set ys"
  shows "\<exists>x \<in> set xs. f x = Inr y"
  using assms
  by (auto simp: try_map_eq_Inr list_all2_conv_all_nth in_set_conv_nth) (metis nth_mem)

lemma edges_for_node_length:
  assumes "graph_edges_for_node parse workspace node incoming types limit db = Inr es"
  shows "length es \<le> limit"
  using assms try_map_length
  by (fastforce simp: graph_edges_for_node_def memory_limit_def and_then_eq_Inr split: if_splits)

lemma edges_for_node_row:
  assumes "graph_edges_for_node parse workspace node incoming types limit db = Inr es"
    and "e \<in> set es"
  shows "\<exists>r \<in> set (db_edges db). graph_edge_of_row parse r = Inr e
    \<and> edge_row_selected workspace node incoming types r"
proof -
  obtain n where es: "try_map (graph_edge_of_row parse)
      (take n (sort_key (\<lambda>r. (er_edge_type r, er_relationship_key r))
        (filter (edge_row_selected workspace node incoming types) (db_edges db)))) = Inr es"
    using assms by (auto simp: graph_edges_for_node_def and_then_eq_Inr split: if_splits)
  from try_map_member [OF es assms(2)] show ?thesis
    by (fastforce dest: in_set_takeD)
qed

lemma edge_row_selected_type:
  assumes "edge_row_selected workspace node incoming types r" and "types \<noteq> []"
  shows "edge_type_from_storage (er_edge_type r) \<in> set types"
  using assms edge_types.read_stored
  by (auto simp: edge_row_selected_def edge_type_from_storage_def edge_type_storage_name_def)

end
