(* ===== verification/HistoryTables.thy ===== *)
theory HistoryTables
  imports ExperienceValidation GraphStore
begin

text \<open>
  The tables of the historical record of a workspace: sessions and tasks as far as other rows
  refer to them, events, episodes with their members and mutation requests, the write order,
  experiences with their parts and seals, and assessments.  A table is the list of its rows in the
  order of insertion.  The rows are those of \<open>src/storage/repositories.rs\<close>, the constraints and
  triggers those of the migrations 0001, 0007, 0008, 0010, 0011, 0012 and 0014, which make all of
  these tables but the episodes append-only.

  A transaction is a function from the database to an error or a result with the new database, so
  that an error leaves the database as it was.  JSON serialization is a parameter.
\<close>

section \<open>Rows\<close>

record session_row =
  sn_id :: string
  sn_workspace_id :: string
  sn_ended_at :: "timestamp option"

record task_row =
  tk_id :: string
  tk_workspace_id :: string
  tk_session_id :: "string option"

record event_row =
  evr_id :: string
  evr_workspace_id :: string
  evr_session_id :: "string option"
  evr_task_id :: "string option"
  evr_event_type :: string
  evr_payload_json :: string
  evr_created_at :: timestamp

record episode_row =
  epr_id :: string
  epr_workspace_id :: string
  epr_session_id :: string
  epr_task_id :: "string option"
  epr_episode_type :: string
  epr_status :: string
  epr_title :: "string option"
  epr_created_by :: string
  epr_version :: int
  epr_started_at :: timestamp
  epr_ended_at :: "timestamp option"
  epr_created_at :: timestamp

record episode_event_row =
  mbr_workspace_id :: string
  mbr_episode_id :: string
  mbr_event_id :: string
  mbr_ordinal :: int
  mbr_associated_at :: timestamp

record mutation_row =
  mur_workspace_id :: string
  mur_episode_id :: string
  mur_operation :: string
  mur_request_key :: string
  mur_request_hash :: string
  mur_resulting_version :: int
  mur_created_at :: timestamp

record order_row =
  odr_sequence :: int
  odr_workspace_id :: string
  odr_entity_kind :: string
  odr_entity_id :: string

record experience_row =
  xr_id :: string
  xr_workspace_id :: string
  xr_session_id :: string
  xr_task_id :: "string option"
  xr_episode_id :: string
  xr_failure_signature_json :: "string option"
  xr_failure_key :: "string option"
  xr_failure_components :: string
  xr_failure_path :: "string option"
  xr_failure_symbol_key :: "string option"
  xr_outcome :: string
  xr_verification_status :: string
  xr_verification_reasons_json :: string
  xr_evidence_strength :: string
  xr_summary :: string
  xr_extractor_id :: string
  xr_extractor_version :: string
  xr_summary_renderer_version :: string
  xr_canonicalization_version :: string
  xr_consolidation_fingerprint :: string
  xr_proposal_hash :: string
  xr_created_at :: timestamp

text \<open>The parts of an experience are keyed by the experience and an ordinal.\<close>

record part_row =
  prt_workspace_id :: string
  prt_experience_id :: string
  prt_ordinal :: int

record evidence_row = part_row +
  lkr_relation :: string
  lkr_event_id :: string

record verification_row = part_row +
  vrr_status :: string
  vrr_kind :: string
  vrr_subject_kind :: string
  vrr_subject_value :: string
  vrr_evidence_event_id :: string
  vrr_rule_id :: string
  vrr_rule_version :: string

record attempt_row = part_row +
  atr_id :: string
  atr_result :: string
  atr_change_evidence_ordinals_json :: string
  atr_following_verification_ordinal :: "int option"

record code_snapshot_row = part_row +
  csr_source_event_id :: string
  csr_relative_path :: string
  csr_workspace_content_revision :: int
  csr_document_content_revision :: int
  csr_document_content_hash :: string
  csr_content :: string
  csr_chunk_stable_key :: "string option"
  csr_chunk_content_hash :: "string option"
  csr_symbol_logical_key :: "string option"
  csr_symbol_label :: "string option"
  csr_source_start_byte :: "int option"
  csr_source_end_byte :: "int option"

record graph_snapshot_row = part_row +
  gsr_code_snapshot_ordinal :: int
  gsr_graph_content_revision :: int
  gsr_graph_schema_version :: int
  gsr_graph_state :: string
  gsr_analyzer_id :: string
  gsr_analyzer_version :: string
  gsr_structure_version :: string
  gsr_node_stable_key :: string
  gsr_node_type :: string
  gsr_resolution_provenance_json :: string

record basis_row = part_row +
  bsr_basis :: string

record seal_row =
  slr_workspace_id :: string
  slr_experience_id :: string
  slr_acceptance_order :: "int option"

record assessment_row =
  asr_id :: string
  asr_workspace_id :: string
  asr_experience_id :: string
  asr_kind :: string
  asr_actor :: string
  asr_reason :: string
  asr_replacement :: "string option"
  asr_created_at :: timestamp
  asr_request_key :: "string option"
  asr_request_hash :: "string option"

record assessment_evidence_row =
  aer_workspace_id :: string
  aer_assessment_id :: string
  aer_ordinal :: int
  aer_event_id :: string

record history_db =
  hd_workspaces :: "string list"
  hd_sessions :: "session_row list"
  hd_tasks :: "task_row list"
  hd_events :: "event_row list"
  hd_episodes :: "episode_row list"
  hd_members :: "episode_event_row list"
  hd_requests :: "mutation_row list"
  hd_last_sequence :: int
  hd_order :: "order_row list"
  hd_experiences :: "experience_row list"
  hd_evidence :: "evidence_row list"
  hd_verifications :: "verification_row list"
  hd_attempts :: "attempt_row list"
  hd_code_snapshots :: "code_snapshot_row list"
  hd_graph_snapshots :: "graph_snapshot_row list"
  hd_bases :: "basis_row list"
  hd_seals :: "seal_row list"
  hd_assessments :: "assessment_row list"
  hd_assessment_evidence :: "assessment_evidence_row list"

definition empty_history :: history_db where
  "empty_history = \<lparr>hd_workspaces = [], hd_sessions = [], hd_tasks = [], hd_events = [],
     hd_episodes = [], hd_members = [], hd_requests = [], hd_last_sequence = 0, hd_order = [],
     hd_experiences = [], hd_evidence = [], hd_verifications = [], hd_attempts = [],
     hd_code_snapshots = [], hd_graph_snapshots = [], hd_bases = [], hd_seals = [],
     hd_assessments = [], hd_assessment_evidence = []\<rparr>"

type_synonym 'a tx = "history_db \<Rightarrow> cortex_error + 'a \<times> history_db"

section \<open>SQL\<close>

text \<open>SQLite's \<open>trim\<close> removes spaces only, and its \<open>length\<close> counts the code points before the
  first NUL.\<close>

definition sql_trim :: "string \<Rightarrow> string" where
  "sql_trim s = rev (dropWhile (\<lambda>c. c = CHR '' '') (rev (dropWhile (\<lambda>c. c = CHR '' '') s)))"

definition sql_length :: "string \<Rightarrow> nat" where
  "sql_length s = length (filter (\<lambda>c. \<not> (128 \<le> code c \<and> code c < 192)) (takeWhile (\<lambda>c. c \<noteq> nul) s))"

definition sql_bounded :: "nat \<Rightarrow> string \<Rightarrow> bool" where
  "sql_bounded n s \<longleftrightarrow> 0 < sql_length (sql_trim s) \<and> sql_length s \<le> n"

text \<open>A constraint or a trigger of the table that a statement writes.\<close>

definition checked :: "bool \<Rightarrow> string \<Rightarrow> 'a \<Rightarrow> cortex_error + 'a" where
  "checked ok what x = and_then (ensure ok (constraint_failed what)) (\<lambda>_. Inr x)"

lemma checked_eq_Inr [simp, result_simps]: "checked ok what x = Inr y \<longleftrightarrow> ok \<and> y = x"
  by (auto simp: checked_def result_simps)

lemma checked_eq_Inl [simp, result_simps]:
  "checked ok what x = Inl e \<longleftrightarrow> \<not> ok \<and> e = constraint_failed what"
  by (auto simp: checked_def result_simps)

definition session_exists :: "string \<Rightarrow> string \<Rightarrow> history_db \<Rightarrow> bool" where
  "session_exists workspace i db \<longleftrightarrow>
     (\<exists>s \<in> set (hd_sessions db). sn_id s = i \<and> sn_workspace_id s = workspace)"

definition task_exists :: "string \<Rightarrow> string \<Rightarrow> history_db \<Rightarrow> bool" where
  "task_exists workspace i db \<longleftrightarrow>
     (\<exists>t \<in> set (hd_tasks db). tk_id t = i \<and> tk_workspace_id t = workspace)"

text \<open>\<open>tasks(id, workspace_id, session_id)\<close>; a key with a NULL in it refers to nothing and holds.\<close>

definition task_of_session :: "string \<Rightarrow> string option \<Rightarrow> string \<Rightarrow> history_db \<Rightarrow> bool" where
  "task_of_session workspace task session db \<longleftrightarrow> (case task of None \<Rightarrow> True
     | Some i \<Rightarrow> \<exists>t \<in> set (hd_tasks db). tk_id t = i \<and> tk_workspace_id t = workspace
         \<and> tk_session_id t = Some session)"

definition event_row_of :: "string \<Rightarrow> string \<Rightarrow> history_db \<Rightarrow> event_row option" where
  "event_row_of workspace i db =
     find (\<lambda>r. evr_workspace_id r = workspace \<and> evr_id r = i) (hd_events db)"

definition episode_row_of :: "string \<Rightarrow> string \<Rightarrow> history_db \<Rightarrow> episode_row option" where
  "episode_row_of workspace i db =
     find (\<lambda>r. epr_workspace_id r = workspace \<and> epr_id r = i) (hd_episodes db)"

definition experience_row_of :: "string \<Rightarrow> string \<Rightarrow> history_db \<Rightarrow> experience_row option" where
  "experience_row_of workspace i db =
     find (\<lambda>r. xr_workspace_id r = workspace \<and> xr_id r = i) (hd_experiences db)"

section \<open>JSON columns\<close>

text \<open>\<open>serde_json::to_string\<close> and \<open>from_str\<close> at the types of the columns.\<close>

record history_codec =
  write_json :: "json \<Rightarrow> cortex_error + string"
  read_json :: "string \<Rightarrow> cortex_error + json"
  write_signature :: "failure_signature \<Rightarrow> cortex_error + string"
  read_signature :: "string \<Rightarrow> cortex_error + failure_signature"
  write_reasons :: "string list \<Rightarrow> cortex_error + string"
  read_reasons :: "string \<Rightarrow> cortex_error + string list"
  write_ordinals :: "nat list \<Rightarrow> cortex_error + string"
  read_ordinals :: "string \<Rightarrow> cortex_error + nat list"

definition ordinal_from_u64 :: "nat \<Rightarrow> cortex_error + int" where
  "ordinal_from_u64 n =
     (if n \<le> i64_max then Inr (int n) else Inl (AnalysisErr ''ordinal exceeds SQLite range''))"

definition ordinal_from_i64 :: "int \<Rightarrow> cortex_error + nat" where
  "ordinal_from_i64 v = (if v < 0 then Inl (StorageErr ''negative ordinal'') else Inr (nat v))"

lemma ordinal_from_u64_Inr [simp]: "ordinal_from_u64 n = Inr v \<longleftrightarrow> n \<le> i64_max \<and> v = int n"
  by (auto simp: ordinal_from_u64_def)

lemma ordinal_from_i64_of_nat [simp]: "ordinal_from_i64 (int n) = Inr n"
  by (simp add: ordinal_from_i64_def)

section \<open>The write order and events\<close>

text \<open>\<open>insert_historical_write_order\<close>: the sequence is an \<open>AUTOINCREMENT\<close> key, one more than the
  largest ever used, and the trigger asks for the row it stands for.\<close>

definition insert_historical_write_order :: "string \<Rightarrow> string \<Rightarrow> string \<Rightarrow> int tx" where
  "insert_historical_write_order workspace kind entity db =
     (let n = hd_last_sequence db + 1 in
      checked (n \<le> int i64_max \<and> workspace \<in> set (hd_workspaces db)
          \<and> kind \<in> {''event'', ''experience_acceptance''} \<and> sql_bounded 256 entity
          \<and> (kind = ''event'' \<longrightarrow> event_row_of workspace entity db \<noteq> None)
          \<and> (kind = ''experience_acceptance'' \<longrightarrow> experience_row_of workspace entity db \<noteq> None)
          \<and> \<not> list_ex (\<lambda>r. odr_workspace_id r = workspace \<and> odr_entity_kind r = kind
                 \<and> odr_entity_id r = entity) (hd_order db))
        ''historical_write_order''
        (n, db\<lparr>hd_last_sequence := n, hd_order := hd_order db @
          [\<lparr>odr_sequence = n, odr_workspace_id = workspace, odr_entity_kind = kind,
            odr_entity_id = entity\<rparr>]\<rparr>))"

definition insert_event_row :: "event_row \<Rightarrow> unit tx" where
  "insert_event_row r db =
     checked (evr_id r \<notin> evr_id ` set (hd_events db) \<and> evr_workspace_id r \<in> set (hd_workspaces db)
         \<and> pred_option (\<lambda>s. session_exists (evr_workspace_id r) s db) (evr_session_id r)
         \<and> pred_option (\<lambda>t. task_exists (evr_workspace_id r) t db) (evr_task_id r))
       ''events'' ((), db\<lparr>hd_events := hd_events db @ [r]\<rparr>)"

definition insert_event_in_transaction :: "history_codec \<Rightarrow> cortex_event \<Rightarrow> unit tx" where
  "insert_event_in_transaction cd e db =
     and_then (write_json cd (event_payload e)) (\<lambda>payload.
     and_then (insert_event_row
       \<lparr>evr_id = event_id e, evr_workspace_id = event_workspace_id e,
        evr_session_id = event_session_id e, evr_task_id = event_task_id e,
        evr_event_type = event_storage_name (event_type_of e), evr_payload_json = payload,
        evr_created_at = event_created_at e\<rparr> db) (\<lambda>(_, db).
     and_then (insert_historical_write_order (event_workspace_id e) ''event'' (event_id e) db)
       (\<lambda>(_, db). Inr ((), db))))"

definition is_normalized_test_run_payload :: "json \<Rightarrow> bool" where
  "is_normalized_test_run_payload payload \<longleftrightarrow>
     (case payload of JObject kvs \<Rightarrow>
        map_of kvs ''contract'' = Some (JString ''cortexweave.test_run_result'') | _ \<Rightarrow> False)"

definition insert_event :: "history_codec \<Rightarrow> cortex_event \<Rightarrow> unit tx" where
  "insert_event cd e db =
     and_then (ensure (\<not> is_normalized_test_run_payload (event_payload e))
       (AnalysisErr ''normalized test-run evidence requires the capture-specific importer'')) (\<lambda>_.
     insert_event_in_transaction cd e db)"

definition event_of_row :: "history_codec \<Rightarrow> event_row \<Rightarrow> cortex_error + cortex_event" where
  "event_of_row cd r =
     and_then (read_json cd (evr_payload_json r)) (\<lambda>payload.
     Inr \<lparr>event_id = evr_id r, event_workspace_id = evr_workspace_id r,
       event_session_id = evr_session_id r, event_task_id = evr_task_id r,
       event_type_of = event_from_storage (evr_event_type r), event_payload = payload,
       event_created_at = evr_created_at r\<rparr>)"

definition stored_event ::
    "history_codec \<Rightarrow> string \<Rightarrow> string \<Rightarrow> history_db \<Rightarrow> cortex_error + cortex_event option" where
  "stored_event cd workspace i db = transpose_row (event_of_row cd) (event_row_of workspace i db)"

end
