(* ===== verification/EpisodeStore.thy ===== *)
theory EpisodeStore
  imports HistoryTables
begin

text \<open>
  Episodes: the statements of \<open>src/storage/repositories.rs\<close> that write the tables \<open>episodes\<close>,
  \<open>episode_events\<close> and \<open>episode_mutation_requests\<close>, and the episode operations of
  \<open>src/service/cortex.rs\<close> over them.  An episode is changed under its version, each change is
  recorded under the key of its request, and a closed or abandoned episode changes no more.
\<close>

section \<open>Reading episodes\<close>

definition episode_of_row :: "episode_row \<Rightarrow> cortex_error + episode" where
  "episode_of_row r =
     and_then (ensure (0 \<le> epr_version r) (StorageErr ''episode version is negative'')) (\<lambda>_.
     Inr \<lparr>ep_id = epr_id r, ep_workspace_id = epr_workspace_id r, ep_session_id = epr_session_id r,
       ep_task_id = epr_task_id r, ep_type = episode_type_from_storage (epr_episode_type r),
       ep_status = episode_status_from_storage (epr_status r), ep_title = epr_title r,
       ep_created_by = episode_creator_from_storage (epr_created_by r),
       ep_version = nat (epr_version r), ep_started_at = epr_started_at r,
       ep_ended_at = epr_ended_at r, ep_created_at = epr_created_at r\<rparr>)"

definition stored_episode :: "string \<Rightarrow> string \<Rightarrow> history_db \<Rightarrow> cortex_error + episode option" where
  "stored_episode workspace i db = transpose_row episode_of_row (episode_row_of workspace i db)"

record episode_event =
  mb_workspace_id :: string
  mb_episode_id :: string
  mb_event_id :: string
  mb_ordinal :: nat
  mb_associated_at :: timestamp

definition episode_event_of_row :: "episode_event_row \<Rightarrow> cortex_error + episode_event" where
  "episode_event_of_row r =
     and_then (ensure (0 \<le> mbr_ordinal r) (StorageErr ''episode event ordinal is negative'')) (\<lambda>_.
     Inr \<lparr>mb_workspace_id = mbr_workspace_id r, mb_episode_id = mbr_episode_id r,
       mb_event_id = mbr_event_id r, mb_ordinal = nat (mbr_ordinal r),
       mb_associated_at = mbr_associated_at r\<rparr>)"

definition members_of :: "string \<Rightarrow> string \<Rightarrow> history_db \<Rightarrow> episode_event_row list" where
  "members_of workspace i db = sort_key mbr_ordinal
     (filter (\<lambda>r. mbr_workspace_id r = workspace \<and> mbr_episode_id r = i) (hd_members db))"

definition episode_events ::
    "string \<Rightarrow> string \<Rightarrow> nat \<Rightarrow> history_db \<Rightarrow> cortex_error + episode_event list" where
  "episode_events workspace i limit db =
     and_then (memory_limit limit) (\<lambda>n.
     try_map episode_event_of_row (take n (members_of workspace i db)))"

section \<open>Writing episodes\<close>

definition episode_new ::
    "string \<Rightarrow> timestamp \<Rightarrow> string \<Rightarrow> string \<Rightarrow> string option \<Rightarrow> episode_type \<Rightarrow> string option
      \<Rightarrow> episode_creator \<Rightarrow> episode" where
  "episode_new i now workspace session task ty title creator =
     \<lparr>ep_id = i, ep_workspace_id = workspace, ep_session_id = session, ep_task_id = task,
      ep_type = ty, ep_status = OpenEpisode, ep_title = title, ep_created_by = creator,
      ep_version = 0, ep_started_at = now, ep_ended_at = None, ep_created_at = now\<rparr>"

definition i64_checked_add :: "int \<Rightarrow> int \<Rightarrow> int option" where
  "i64_checked_add a b = (if a + b \<le> int i64_max then Some (a + b) else None)"

definition episode_version :: "nat \<Rightarrow> cortex_error + int" where
  "episode_version v = (if v \<le> i64_max then Inr (int v)
     else Inl (ConflictErr ''episode version exceeds SQLite integer range''))"

definition insert_episode :: "episode \<Rightarrow> unit tx" where
  "insert_episode e db =
     and_then (episode_version (ep_version e)) (\<lambda>version.
     checked (ep_id e \<notin> epr_id ` set (hd_episodes db)
         \<and> ep_workspace_id e \<in> set (hd_workspaces db)
         \<and> session_exists (ep_workspace_id e) (ep_session_id e) db
         \<and> task_of_session (ep_workspace_id e) (ep_task_id e) (ep_session_id e) db
         \<and> pred_option (sql_bounded 512) (ep_title e)
         \<and> (ep_status e = OpenEpisode \<longleftrightarrow> ep_ended_at e = None))
       ''episodes''
       ((), db\<lparr>hd_episodes := hd_episodes db @
         [\<lparr>epr_id = ep_id e, epr_workspace_id = ep_workspace_id e,
           epr_session_id = ep_session_id e, epr_task_id = ep_task_id e,
           epr_episode_type = episode_type_as_str (ep_type e),
           epr_status = episode_status_as_str (ep_status e), epr_title = ep_title e,
           epr_created_by = episode_creator_as_str (ep_created_by e), epr_version = version,
           epr_started_at = ep_started_at e, epr_ended_at = ep_ended_at e,
           epr_created_at = ep_created_at e\<rparr>]\<rparr>))"

record episode_mutation =
  mt_workspace_id :: string
  mt_episode_id :: string
  mt_expected_version :: nat
  mt_request_key :: string
  mt_operation :: string
  mt_request_hash :: string
  mt_event_ids :: "string list option"
  mt_terminal_status :: "episode_status option"
  mt_occurred_at :: timestamp

definition episode_mutation_request ::
    "string \<Rightarrow> string \<Rightarrow> string \<Rightarrow> history_db \<Rightarrow> mutation_row option" where
  "episode_mutation_request workspace i key db =
     find (\<lambda>r. mur_workspace_id r = workspace \<and> mur_episode_id r = i \<and> mur_request_key r = key)
       (hd_requests db)"

definition episode_result_version :: "int \<Rightarrow> cortex_error + nat" where
  "episode_result_version v = (if v < 0
     then Inl (StorageErr ''episode mutation result version is negative'') else Inr (nat v))"

definition require_stored_episode ::
    "string \<Rightarrow> string \<Rightarrow> history_db \<Rightarrow> cortex_error + episode" where
  "require_stored_episode workspace i db =
     and_then (stored_episode workspace i db) (\<lambda>e. ok_or e (NotFoundErr (''episode '' @ i)))"

text \<open>A request whose key is known: the same content is answered with the episode as it is now,
  another is refused.\<close>

definition replay_mutation :: "episode_mutation \<Rightarrow> mutation_row \<Rightarrow> episode tx" where
  "replay_mutation m r db =
     and_then (ensure (mur_operation r = mt_operation m \<and> mur_request_hash r = mt_request_hash m)
       (ConflictErr (''episode mutation request key '' @ mt_request_key m
          @ '' was already used with different content''))) (\<lambda>_.
     and_then (require_stored_episode (mt_workspace_id m) (mt_episode_id m) db) (\<lambda>e.
     and_then (episode_result_version (mur_resulting_version r)) (\<lambda>v.
     and_then (ensure (v \<le> ep_version e)
       (StorageErr ''episode mutation result version exceeds episode version'')) (\<lambda>_.
     Inr (e, db)))))"

definition reserve_mutation :: "episode_mutation \<Rightarrow> int \<Rightarrow> unit tx" where
  "reserve_mutation m version db =
     checked (episode_mutation_request (mt_workspace_id m) (mt_episode_id m) (mt_request_key m) db
           = None
         \<and> mt_operation m \<in> {''add_events'', ''close'', ''abandon''}
         \<and> sql_bounded 256 (mt_request_key m) \<and> sql_length (mt_request_hash m) = 64 \<and> 0 \<le> version
         \<and> episode_row_of (mt_workspace_id m) (mt_episode_id m) db \<noteq> None)
       ''episode_mutation_requests''
       ((), db\<lparr>hd_requests := hd_requests db @
         [\<lparr>mur_workspace_id = mt_workspace_id m, mur_episode_id = mt_episode_id m,
           mur_operation = mt_operation m, mur_request_key = mt_request_key m,
           mur_request_hash = mt_request_hash m, mur_resulting_version = version,
           mur_created_at = mt_occurred_at m\<rparr>]\<rparr>)"

text \<open>The \<open>UPDATE\<close> of the episode, under its version and as long as it is open.\<close>

definition mutable_episode :: "episode_mutation \<Rightarrow> int \<Rightarrow> episode_row \<Rightarrow> bool" where
  "mutable_episode m expected r \<longleftrightarrow> epr_workspace_id r = mt_workspace_id m
     \<and> epr_id r = mt_episode_id m \<and> epr_status r = ''open'' \<and> epr_version r = expected"

definition mutate_row :: "episode_mutation \<Rightarrow> int \<Rightarrow> episode_row \<Rightarrow> episode_row" where
  "mutate_row m version r =
     (case mt_terminal_status m of
        Some s \<Rightarrow> r\<lparr>epr_status := episode_status_as_str s, epr_ended_at := Some (mt_occurred_at m),
          epr_version := version\<rparr>
      | None \<Rightarrow> r\<lparr>epr_version := version\<rparr>)"

definition is_terminal :: "episode_status \<Rightarrow> bool" where
  "is_terminal s \<longleftrightarrow> s \<noteq> OpenEpisode"

definition episode_mutation_conflict ::
    "string \<Rightarrow> string \<Rightarrow> int \<Rightarrow> history_db \<Rightarrow> cortex_error" where
  "episode_mutation_conflict workspace i expected db =
     (case require_stored_episode workspace i db of
        Inl e \<Rightarrow> e
      | Inr e \<Rightarrow> ConflictErr (''episode '' @ i @
          (if is_terminal (ep_status e) then '' is terminal''
           else '' version '' @ digits (ep_version e) @ '' does not match expected version ''
             @ digits (nat expected))))"

text \<open>The triggers of \<open>episode_events\<close> run before the keys are checked: the episode is open and
  the event has exactly its session and task.\<close>

definition member_allowed :: "string \<Rightarrow> string \<Rightarrow> string \<Rightarrow> history_db \<Rightarrow> bool" where
  "member_allowed workspace i event db \<longleftrightarrow>
     (case (episode_row_of workspace i db, event_row_of workspace event db) of
        (Some e, Some v) \<Rightarrow> epr_status e = ''open'' \<and> evr_session_id v = Some (epr_session_id e)
          \<and> evr_task_id v = epr_task_id e
      | _ \<Rightarrow> False)"

definition insert_episode_event :: "string \<Rightarrow> string \<Rightarrow> timestamp \<Rightarrow> nat \<times> string \<Rightarrow> unit tx" where
  "insert_episode_event workspace i now = (\<lambda>(ordinal, event) db.
     and_then (ensure (member_allowed workspace i event db) (constraint_failed ''episode_events''))
       (\<lambda>_.
     and_then (ensure (\<not> list_ex (\<lambda>r. mbr_workspace_id r = workspace
           \<and> (mbr_event_id r = event \<or> mbr_episode_id r = i \<and> mbr_ordinal r = int ordinal))
           (hd_members db))
       (ConflictErr (''event '' @ event @ '' already has a primary episode membership''))) (\<lambda>_.
     Inr ((), db\<lparr>hd_members := hd_members db @
       [\<lparr>mbr_workspace_id = workspace, mbr_episode_id = i, mbr_event_id = event,
         mbr_ordinal = int ordinal, mbr_associated_at = now\<rparr>]\<rparr>))))"

definition try_tx :: "('a \<Rightarrow> unit tx) \<Rightarrow> 'a list \<Rightarrow> history_db \<Rightarrow> cortex_error + history_db" where
  "try_tx f xs db = try_fold (\<lambda>db x. and_then (f x db) (\<lambda>(_, db). Inr db)) db xs"

text \<open>The bound on the members keeps the sums of the ordinals in range.\<close>

definition add_members :: "string \<Rightarrow> string \<Rightarrow> timestamp \<Rightarrow> string list \<Rightarrow> unit tx" where
  "add_members workspace i now events db =
     (let start = length (members_of workspace i db) in
      and_then (ensure (length events \<le> i64_max \<and> start + length events \<le> i64_max)
        (AnalysisErr ''episode event count exceeds SQLite integer range'')) (\<lambda>_.
      and_then (ensure (start + length events \<le> max_episode_events)
        (AnalysisErr (''episode membership cannot exceed '' @ digits max_episode_events
           @ '' events''))) (\<lambda>_.
      and_then (try_tx (insert_episode_event workspace i now) (enumerate start events) db) (\<lambda>db.
      Inr ((), db)))))"

definition apply_mutation :: "episode_mutation \<Rightarrow> int \<Rightarrow> int \<Rightarrow> episode tx" where
  "apply_mutation m expected version db =
     (let (n, rows) = update_where (mutable_episode m expected) (mutate_row m version)
        (hd_episodes db)
      in if n \<noteq> 1
         then Inl (episode_mutation_conflict (mt_workspace_id m) (mt_episode_id m) expected db)
         else and_then (case mt_event_ids m of
                None \<Rightarrow> Inr ((), db\<lparr>hd_episodes := rows\<rparr>)
              | Some events \<Rightarrow> add_members (mt_workspace_id m) (mt_episode_id m) (mt_occurred_at m)
                  events (db\<lparr>hd_episodes := rows\<rparr>)) (\<lambda>(_, db).
              and_then (require_stored_episode (mt_workspace_id m) (mt_episode_id m) db) (\<lambda>e.
              Inr (e, db))))"

definition mutate_episode :: "episode_mutation \<Rightarrow> episode tx" where
  "mutate_episode m db =
     and_then (episode_version (mt_expected_version m)) (\<lambda>expected.
     and_then (ok_or (i64_checked_add expected 1)
       (ConflictErr ''episode version cannot exceed SQLite integer range'')) (\<lambda>version.
     case episode_mutation_request (mt_workspace_id m) (mt_episode_id m) (mt_request_key m) db of
       Some r \<Rightarrow> replay_mutation m r db
     | None \<Rightarrow>
         (case reserve_mutation m version db of
            Inr (_, db) \<Rightarrow> apply_mutation m expected version db
          | Inl e \<Rightarrow>
              (case episode_mutation_request (mt_workspace_id m) (mt_episode_id m)
                 (mt_request_key m) db of
                 Some r \<Rightarrow> replay_mutation m r db
               | None \<Rightarrow> Inl e))))"

section \<open>Requests\<close>

record episode_event_association_request =
  aq_workspace_id :: string
  aq_episode_id :: string
  aq_expected_version :: nat
  aq_request_key :: string
  aq_event_ids :: "string list"

record episode_terminal_request =
  tq_workspace_id :: string
  tq_episode_id :: string
  tq_expected_version :: nat
  tq_request_key :: string

record episode_start_request =
  sq_workspace_id :: string
  sq_session_id :: string
  sq_task_id :: "string option"
  sq_episode_type :: episode_type
  sq_title :: "string option"
  sq_created_by :: episode_creator

definition associate_episode_events ::
    "episode_event_association_request \<Rightarrow> string \<Rightarrow> timestamp \<Rightarrow> episode tx" where
  "associate_episode_events q request_hash now = mutate_episode
     \<lparr>mt_workspace_id = aq_workspace_id q, mt_episode_id = aq_episode_id q,
      mt_expected_version = aq_expected_version q, mt_request_key = aq_request_key q,
      mt_operation = ''add_events'', mt_request_hash = request_hash,
      mt_event_ids = Some (aq_event_ids q), mt_terminal_status = None, mt_occurred_at = now\<rparr>"

definition terminal_operation :: "episode_status \<Rightarrow> cortex_error + string" where
  "terminal_operation s =
     (if s = ClosedEpisode then Inr ''close'' else if s = AbandonedEpisode then Inr ''abandon''
      else Inl (AnalysisErr ''only close or abandon is supported by the v0.5 episode facade''))"

definition transition_stored_episode ::
    "episode_terminal_request \<Rightarrow> episode_status \<Rightarrow> string \<Rightarrow> timestamp \<Rightarrow> episode tx" where
  "transition_stored_episode q s request_hash now db =
     and_then (terminal_operation s) (\<lambda>operation. mutate_episode
     \<lparr>mt_workspace_id = tq_workspace_id q, mt_episode_id = tq_episode_id q,
      mt_expected_version = tq_expected_version q, mt_request_key = tq_request_key q,
      mt_operation = operation, mt_request_hash = request_hash, mt_event_ids = None,
      mt_terminal_status = Some s, mt_occurred_at = now\<rparr> db)"

definition max_episode_title_bytes :: nat where "max_episode_title_bytes = 512"
definition max_episode_request_key_bytes :: nat where "max_episode_request_key_bytes = 256"

definition bounded_episode_text :: "nat \<Rightarrow> string \<Rightarrow> bool" where
  "bounded_episode_text n s \<longleftrightarrow> \<not> blank s \<and> length s \<le> n \<and> nul \<notin> set s"

definition validate_episode_title :: "string option \<Rightarrow> cortex_error + unit" where
  "validate_episode_title title =
     ensure (pred_option (bounded_episode_text max_episode_title_bytes) title)
       (AnalysisErr (''episode title must be non-empty, contain no NUL, and be at most ''
          @ digits max_episode_title_bytes @ '' bytes''))"

definition validate_episode_request_key :: "string \<Rightarrow> cortex_error + unit" where
  "validate_episode_request_key key =
     ensure (bounded_episode_text max_episode_request_key_bytes key)
       (AnalysisErr (''episode request key must be non-empty, contain no NUL, and be at most ''
          @ digits max_episode_request_key_bytes @ '' bytes''))"

definition validate_episode_event_association_request ::
    "episode_event_association_request \<Rightarrow> cortex_error + unit" where
  "validate_episode_event_association_request q =
     and_then (validate_episode_request_key (aq_request_key q)) (\<lambda>_.
     and_then (ensure (aq_event_ids q \<noteq> [] \<and> length (aq_event_ids q) \<le> max_episode_events)
       (AnalysisErr (''episode event association requires between 1 and ''
          @ digits max_episode_events @ '' event IDs''))) (\<lambda>_.
     and_then (ensure (distinct (aq_event_ids q))
       (AnalysisErr (''episode event association IDs must be unique and preserve caller order'')))
       (\<lambda>_.
     ensure (list_all (bounded_episode_text max_episode_request_key_bytes) (aq_event_ids q))
       (AnalysisErr ''episode event IDs must be bounded non-empty identifiers''))))"

text \<open>\<open>u64::to_le_bytes\<close>, and the text under the hash of a mutation.\<close>

definition le64 :: "nat \<Rightarrow> string" where
  "le64 n = map (\<lambda>k. char_of (n div 256 ^ k)) [0..<8]"

definition sized :: "string \<Rightarrow> string" where
  "sized v = le64 (length v) @ v"

definition episode_mutation_material ::
    "string \<Rightarrow> string \<Rightarrow> string \<Rightarrow> nat \<Rightarrow> string list \<Rightarrow> string" where
  "episode_mutation_material operation workspace i expected events =
     ''cortexweave.episode_mutation.v1'' @ [nul] @ concat (map sized [operation, workspace, i])
     @ le64 expected @ le64 (length events) @ concat (map sized events)"

section \<open>The service\<close>

text \<open>The reads of one request are modelled on the database its transaction runs in: the tables
  they read are append-only, and the triggers check again what they found.\<close>

definition require_workspace :: "string \<Rightarrow> history_db \<Rightarrow> cortex_error + unit" where
  "require_workspace workspace db =
     ensure (workspace \<in> set (hd_workspaces db)) (NotFoundErr (''workspace '' @ workspace))"

definition require_episode :: "string \<Rightarrow> string \<Rightarrow> history_db \<Rightarrow> cortex_error + episode" where
  "require_episode workspace i db =
     and_then (require_workspace workspace db) (\<lambda>_. require_stored_episode workspace i db)"

definition start_episode ::
    "string \<Rightarrow> timestamp \<Rightarrow> episode_start_request \<Rightarrow> episode tx" where
  "start_episode i now q db =
     and_then (validate_episode_title (sq_title q)) (\<lambda>_.
     and_then (require_workspace (sq_workspace_id q) db) (\<lambda>_.
     and_then (ok_or (find (\<lambda>s. sn_id s = sq_session_id q) (hd_sessions db))
       (NotFoundErr (''session '' @ sq_session_id q))) (\<lambda>s.
     and_then (ensure (sn_workspace_id s = sq_workspace_id q)
       (AnalysisErr ''episode session belongs to a different workspace'')) (\<lambda>_.
     and_then (ensure (sn_ended_at s = None)
       (AnalysisErr ''cannot start an episode on an ended session'')) (\<lambda>_.
     and_then (case sq_task_id q of
         None \<Rightarrow> Inr ()
       | Some t \<Rightarrow>
           and_then (ok_or (find (\<lambda>r. tk_id r = t) (hd_tasks db)) (NotFoundErr (''task '' @ t)))
             (\<lambda>r.
           ensure (tk_workspace_id r = sq_workspace_id q \<and> tk_session_id r = Some (sq_session_id q))
             (AnalysisErr ''episode task must belong to the episode workspace and session''))) (\<lambda>_.
     let e = episode_new i now (sq_workspace_id q) (sq_session_id q) (sq_task_id q)
           (sq_episode_type q) (sq_title q) (sq_created_by q)
     in and_then (insert_episode e db) (\<lambda>(_, db). Inr (e, db))))))))"

definition check_member_event ::
    "history_codec \<Rightarrow> episode \<Rightarrow> string \<Rightarrow> history_db \<Rightarrow> string \<Rightarrow> cortex_error + unit" where
  "check_member_event cd e workspace db i =
     and_then (stored_event cd workspace i db) (\<lambda>v.
     and_then (ok_or v (NotFoundErr (''event '' @ i))) (\<lambda>v.
     ensure (event_session_id v = Some (ep_session_id e) \<and> event_task_id v = ep_task_id e)
       (AnalysisErr (''event '' @ i @ '' does not exactly match episode session/task provenance''))))"

definition add_episode_events ::
    "(string \<Rightarrow> string) \<Rightarrow> history_codec \<Rightarrow> timestamp \<Rightarrow> episode_event_association_request
      \<Rightarrow> episode tx" where
  "add_episode_events blake3 cd now q db =
     and_then (validate_episode_event_association_request q) (\<lambda>_.
     and_then (require_episode (aq_workspace_id q) (aq_episode_id q) db) (\<lambda>e.
     and_then (try_each (check_member_event cd e (aq_workspace_id q) db) (aq_event_ids q)) (\<lambda>_.
     associate_episode_events q
       (blake3 (episode_mutation_material ''add_events'' (aq_workspace_id q) (aq_episode_id q)
          (aq_expected_version q) (aq_event_ids q))) now db)))"

definition transition_episode ::
    "(string \<Rightarrow> string) \<Rightarrow> timestamp \<Rightarrow> episode_terminal_request \<Rightarrow> episode_status
      \<Rightarrow> episode tx" where
  "transition_episode blake3 now q s db =
     and_then (validate_episode_request_key (tq_request_key q)) (\<lambda>_.
     and_then (require_episode (tq_workspace_id q) (tq_episode_id q) db) (\<lambda>_.
     and_then (case terminal_operation s of
         Inr operation \<Rightarrow> Inr operation
       | Inl _ \<Rightarrow> Inl (Panicked ''terminal status required'')) (\<lambda>operation.
     transition_stored_episode q s
       (blake3 (episode_mutation_material operation (tq_workspace_id q) (tq_episode_id q)
          (tq_expected_version q) [])) now db)))"

definition close_episode ::
    "(string \<Rightarrow> string) \<Rightarrow> timestamp \<Rightarrow> episode_terminal_request \<Rightarrow> episode tx" where
  "close_episode blake3 now q = transition_episode blake3 now q ClosedEpisode"

definition abandon_episode ::
    "(string \<Rightarrow> string) \<Rightarrow> timestamp \<Rightarrow> episode_terminal_request \<Rightarrow> episode tx" where
  "abandon_episode blake3 now q = transition_episode blake3 now q AbandonedEpisode"

end
