(* ===== verification/ExperienceStore.thy ===== *)
theory ExperienceStore
  imports EpisodeStore
begin

text \<open>
  Experiences in storage: the writes and reads of the experience tables in
  \<open>src/storage/repositories.rs\<close>.  A record is written in one transaction, part by part, after the
  checks of \<open>ExperienceValidation\<close> and of its episode, under the constraints and triggers of the
  migrations, and sealed; then it is read back from the tables.  The full-text index of summaries
  is left out.
\<close>

section \<open>Constraints\<close>

definition sql_hash :: "string \<Rightarrow> bool" where
  "sql_hash v \<longleftrightarrow> sql_length v = 64
     \<and> list_all (\<lambda>c. is_ascii_digit c \<or> 97 \<le> code c \<and> code c \<le> 102) v"

definition eligible_episode :: "experience_row \<Rightarrow> episode_row \<Rightarrow> bool" where
  "eligible_episode r e \<longleftrightarrow> epr_session_id e = xr_session_id r \<and> epr_task_id e = xr_task_id r
     \<and> (epr_status e = ''closed'' \<and> xr_outcome r \<noteq> ''abandoned''
        \<or> epr_status e = ''abandoned'' \<and> xr_outcome r \<in> {''failure'', ''abandoned''})"

definition experience_row_allowed :: "experience_row \<Rightarrow> history_db \<Rightarrow> bool" where
  "experience_row_allowed r db \<longleftrightarrow> xr_id r \<notin> xr_id ` set (hd_experiences db)
     \<and> xr_workspace_id r \<in> set (hd_workspaces db)
     \<and> \<not> list_ex (\<lambda>x. xr_workspace_id x = xr_workspace_id r
            \<and> xr_consolidation_fingerprint x = xr_consolidation_fingerprint r) (hd_experiences db)
     \<and> pred_option (eligible_episode r) (episode_row_of (xr_workspace_id r) (xr_episode_id r) db)
     \<and> episode_row_of (xr_workspace_id r) (xr_episode_id r) db \<noteq> None
     \<and> session_exists (xr_workspace_id r) (xr_session_id r) db
     \<and> task_of_session (xr_workspace_id r) (xr_task_id r) (xr_session_id r) db
     \<and> xr_outcome r \<in> fst ` set outcome_names
     \<and> xr_verification_status r \<in> fst ` set status_names
     \<and> xr_evidence_strength r \<in> fst ` set strength_names
     \<and> sql_bounded 4096 (xr_summary r) \<and> sql_bounded 256 (xr_extractor_id r)
     \<and> sql_bounded 256 (xr_extractor_version r) \<and> sql_bounded 256 (xr_summary_renderer_version r)
     \<and> sql_bounded 256 (xr_canonicalization_version r)
     \<and> sql_hash (xr_consolidation_fingerprint r) \<and> sql_hash (xr_proposal_hash r)"

definition sealed :: "string \<Rightarrow> string \<Rightarrow> history_db \<Rightarrow> bool" where
  "sealed w i db \<longleftrightarrow>
     (\<exists>s \<in> set (hd_seals db). slr_workspace_id s = w \<and> slr_experience_id s = i)"

text \<open>What holds of every part: its experience is stored and not sealed, and its ordinal is new.\<close>

definition part_allowed :: "'a part_row_scheme \<Rightarrow> 'a part_row_scheme list \<Rightarrow> history_db \<Rightarrow> bool" where
  "part_allowed p rows db \<longleftrightarrow> 0 \<le> prt_ordinal p
     \<and> experience_row_of (prt_workspace_id p) (prt_experience_id p) db \<noteq> None
     \<and> \<not> sealed (prt_workspace_id p) (prt_experience_id p) db
     \<and> \<not> list_ex (\<lambda>x. prt_workspace_id x = prt_workspace_id p
            \<and> prt_experience_id x = prt_experience_id p \<and> prt_ordinal x = prt_ordinal p) rows"

definition relation_fits :: "string \<Rightarrow> string \<Rightarrow> bool" where
  "relation_fits relation ty \<longleftrightarrow> relation = ''supporting''
     \<or> relation = ''initial_failure''
         \<and> ty \<in> {''compiler_result'', ''test_result'', ''external_tool_finished''}
     \<or> relation = ''attempt_change''
         \<and> ty \<in> {''file_created'', ''file_modified'', ''file_removed'', ''file_renamed'',
                  ''external_tool_finished''}
     \<or> relation \<in> {''attempt_verification'', ''terminal_verification''}
         \<and> ty \<in> {''compiler_result'', ''test_result'', ''external_tool_finished'',
                  ''user_acceptance''}"

definition source_episode_member :: "string \<Rightarrow> string \<Rightarrow> string \<Rightarrow> history_db \<Rightarrow> bool" where
  "source_episode_member w i event db \<longleftrightarrow>
     (case experience_row_of w i db of
        None \<Rightarrow> False
      | Some x \<Rightarrow> list_ex (\<lambda>m. mbr_workspace_id m = w \<and> mbr_episode_id m = xr_episode_id x
          \<and> mbr_event_id m = event) (hd_members db))"

definition evidence_allowed :: "evidence_row \<Rightarrow> history_db \<Rightarrow> bool" where
  "evidence_allowed r db \<longleftrightarrow> part_allowed r (hd_evidence db) db
     \<and> lkr_relation r \<in> fst ` set relation_names
     \<and> \<not> list_ex (\<lambda>x. prt_workspace_id x = prt_workspace_id r
            \<and> prt_experience_id x = prt_experience_id r \<and> lkr_event_id x = lkr_event_id r)
          (hd_evidence db)
     \<and> source_episode_member (prt_workspace_id r) (prt_experience_id r) (lkr_event_id r) db
     \<and> event_row_of (prt_workspace_id r) (lkr_event_id r) db \<noteq> None
     \<and> pred_option (\<lambda>v. relation_fits (lkr_relation r) (evr_event_type v))
          (event_row_of (prt_workspace_id r) (lkr_event_id r) db)"

definition linked_as :: "string set \<Rightarrow> string \<Rightarrow> string \<Rightarrow> string \<Rightarrow> history_db \<Rightarrow> bool" where
  "linked_as relations w i event db \<longleftrightarrow>
     (\<exists>l \<in> set (hd_evidence db). prt_workspace_id l = w \<and> prt_experience_id l = i
        \<and> lkr_event_id l = event \<and> lkr_relation l \<in> relations)"

definition verification_allowed :: "verification_row \<Rightarrow> history_db \<Rightarrow> bool" where
  "verification_allowed r db \<longleftrightarrow> part_allowed r (hd_verifications db) db
     \<and> vrr_status r \<in> {''verified_passed'', ''verified_failed'', ''explicitly_accepted''}
     \<and> vrr_kind r \<in> {''rust_compiler'', ''cargo_test'', ''test_run'', ''registered_tool'',
          ''user_acceptance''}
     \<and> vrr_subject_kind r \<in> {''workspace'', ''package'', ''target'', ''test'', ''path''}
     \<and> sql_bounded 512 (vrr_subject_value r) \<and> sql_bounded 256 (vrr_rule_id r)
     \<and> sql_bounded 256 (vrr_rule_version r)
     \<and> linked_as {''attempt_verification'', ''terminal_verification''} (prt_workspace_id r)
          (prt_experience_id r) (vrr_evidence_event_id r) db"

definition attempt_allowed :: "attempt_row \<Rightarrow> history_db \<Rightarrow> bool" where
  "attempt_allowed r db \<longleftrightarrow> part_allowed r (hd_attempts db) db
     \<and> atr_id r \<notin> atr_id ` set (hd_attempts db) \<and> atr_result r \<in> fst ` set attempt_result_names"

definition code_snapshot_allowed :: "code_snapshot_row \<Rightarrow> history_db \<Rightarrow> bool" where
  "code_snapshot_allowed r db \<longleftrightarrow> part_allowed r (hd_code_snapshots db) db
     \<and> linked_as {''attempt_change''} (prt_workspace_id r) (prt_experience_id r)
          (csr_source_event_id r) db
     \<and> sql_bounded 512 (csr_relative_path r) \<and> 0 \<le> csr_workspace_content_revision r
     \<and> 0 \<le> csr_document_content_revision r \<and> sql_hash (csr_document_content_hash r)
     \<and> sql_length (csr_content r) \<le> 65536
     \<and> pred_option (sql_bounded 512) (csr_chunk_stable_key r)
     \<and> pred_option sql_hash (csr_chunk_content_hash r)
     \<and> pred_option (sql_bounded 512) (csr_symbol_logical_key r)
     \<and> pred_option (sql_bounded 512) (csr_symbol_label r)
     \<and> pred_option (\<lambda>n. 0 \<le> n) (csr_source_start_byte r)
     \<and> pred_option (\<lambda>n. 0 \<le> n) (csr_source_end_byte r)
     \<and> (csr_chunk_stable_key r = None \<longleftrightarrow> csr_chunk_content_hash r = None)
     \<and> (csr_source_start_byte r = None \<longleftrightarrow> csr_source_end_byte r = None)
     \<and> (case (csr_source_start_byte r, csr_source_end_byte r) of
          (Some s, Some e) \<Rightarrow> s \<le> e | _ \<Rightarrow> True)"

definition graph_snapshot_allowed :: "graph_snapshot_row \<Rightarrow> history_db \<Rightarrow> bool" where
  "graph_snapshot_allowed r db \<longleftrightarrow> part_allowed r (hd_graph_snapshots db) db
     \<and> list_ex (\<lambda>s. prt_workspace_id s = prt_workspace_id r
          \<and> prt_experience_id s = prt_experience_id r
          \<and> prt_ordinal s = gsr_code_snapshot_ordinal r) (hd_code_snapshots db)
     \<and> 0 \<le> gsr_graph_content_revision r \<and> 0 \<le> gsr_graph_schema_version r
     \<and> gsr_graph_state r \<in> {''current'', ''updating'', ''stale'', ''error''}
     \<and> list_all (sql_bounded 256) [gsr_analyzer_id r, gsr_analyzer_version r,
          gsr_structure_version r, gsr_node_type r]
     \<and> sql_bounded 512 (gsr_node_stable_key r)
     \<and> sql_length (gsr_resolution_provenance_json r) \<le> 65536"

definition basis_allowed :: "basis_row \<Rightarrow> history_db \<Rightarrow> bool" where
  "basis_allowed r db \<longleftrightarrow> part_allowed r (hd_bases db) db \<and> bsr_basis r \<in> fst ` set basis_names
     \<and> \<not> list_ex (\<lambda>x. prt_workspace_id x = prt_workspace_id r
            \<and> prt_experience_id x = prt_experience_id r \<and> bsr_basis x = bsr_basis r) (hd_bases db)"

definition seal_allowed :: "seal_row \<Rightarrow> history_db \<Rightarrow> bool" where
  "seal_allowed r db \<longleftrightarrow> \<not> sealed (slr_workspace_id r) (slr_experience_id r) db
     \<and> experience_row_of (slr_workspace_id r) (slr_experience_id r) db \<noteq> None
     \<and> pred_option (\<lambda>n. Some n \<notin> slr_acceptance_order ` set (hd_seals db)
          \<and> list_ex (\<lambda>o'. odr_sequence o' = n \<and> odr_workspace_id o' = slr_workspace_id r
              \<and> odr_entity_kind o' = ''experience_acceptance''
              \<and> odr_entity_id o' = slr_experience_id r) (hd_order db)) (slr_acceptance_order r)"

section \<open>Writing\<close>

definition experience_row_of_experience ::
    "experience \<Rightarrow> string option \<Rightarrow> string \<Rightarrow> experience_row" where
  "experience_row_of_experience e sg reasons =
     \<lparr>xr_id = exp_id e, xr_workspace_id = exp_workspace_id e,
      xr_session_id = exp_session_id e, xr_task_id = exp_task_id e,
      xr_episode_id = exp_episode_id e, xr_failure_signature_json = sg,
      xr_failure_key = map_option normalized_key (exp_failure_signature e),
      xr_failure_components = (case exp_failure_signature e of None \<Rightarrow> []
      | Some s \<Rightarrow> join_with '' '' (map (\<lambda>(k, v). k @ '':'' @ v) (sig_components s))),
      xr_failure_path = Option.bind (exp_failure_signature e) (\<lambda>s. fs_path (sig_scope s)),
      xr_failure_symbol_key =
      Option.bind (exp_failure_signature e) (\<lambda>s. fs_symbol_key (sig_scope s)),
      xr_outcome = outcome_as_str (exp_outcome e),
      xr_verification_status = status_as_str (ev_status (exp_verification e)),
      xr_verification_reasons_json = reasons,
      xr_evidence_strength = strength_as_str (sa_strength (exp_evidence_strength e)),
      xr_summary = exp_summary e, xr_extractor_id = exp_extractor_id e,
      xr_extractor_version = exp_extractor_version e,
      xr_summary_renderer_version = exp_summary_renderer_version e,
      xr_canonicalization_version = exp_canonicalization_version e,
      xr_consolidation_fingerprint = exp_consolidation_fingerprint e,
      xr_proposal_hash = exp_proposal_hash e, xr_created_at = exp_created_at e\<rparr>"

definition signature_column :: "history_codec \<Rightarrow> experience \<Rightarrow> cortex_error + string option" where
  "signature_column cd e = (case exp_failure_signature e of None \<Rightarrow> Inr None
     | Some s \<Rightarrow> and_then (write_signature cd s) (\<lambda>t. Inr (Some t)))"

definition insert_experience_row :: "history_codec \<Rightarrow> experience \<Rightarrow> unit tx" where
  "insert_experience_row cd e db =
     and_then (signature_column cd e) (\<lambda>sg.
     and_then (write_reasons cd (ev_reasons (exp_verification e))) (\<lambda>reasons.
     let r = experience_row_of_experience e sg reasons
     in checked (experience_row_allowed r db) ''experiences''
          ((), db\<lparr>hd_experiences := hd_experiences db @ [r]\<rparr>)))"

definition link_row :: "string \<Rightarrow> string \<Rightarrow> int \<Rightarrow> evidence_link \<Rightarrow> evidence_row" where
  "link_row w i k l =
     \<lparr>prt_workspace_id = w, prt_experience_id = i, prt_ordinal = k,
      lkr_relation = relation_as_str (link_relation l), lkr_event_id = link_event_id l\<rparr>"

definition insert_experience_evidence :: "string \<Rightarrow> string \<Rightarrow> evidence_link \<Rightarrow> unit tx" where
  "insert_experience_evidence w i l db =
     and_then (ordinal_from_u64 (link_ordinal l)) (\<lambda>k.
     let r = link_row w i k l
     in checked (evidence_allowed r db) ''experience_evidence''
          ((), db\<lparr>hd_evidence := hd_evidence db @ [r]\<rparr>))"

definition verification_row_of :: "string \<Rightarrow> string \<Rightarrow> int \<Rightarrow> verification_observation \<Rightarrow> verification_row" where
  "verification_row_of w i k v =
     \<lparr>prt_workspace_id = w, prt_experience_id = i, prt_ordinal = k,
      vrr_status = status_as_str (vo_status v), vrr_kind = kind_as_str (vo_kind v),
      vrr_subject_kind = subject_kind_name (es_kind (vo_subject v)),
      vrr_subject_value = es_value (vo_subject v),
      vrr_evidence_event_id = vo_evidence_event_id v, vrr_rule_id = vo_rule_id v,
      vrr_rule_version = vo_rule_version v\<rparr>"

definition insert_experience_verification ::
    "string \<Rightarrow> string \<Rightarrow> verification_observation \<Rightarrow> unit tx" where
  "insert_experience_verification w i v db =
     and_then (ordinal_from_u64 (vo_ordinal v)) (\<lambda>k.
     let r = verification_row_of w i k v
     in checked (verification_allowed r db) ''experience_verifications''
          ((), db\<lparr>hd_verifications := hd_verifications db @ [r]\<rparr>))"

definition attempt_row_of :: "experience_attempt \<Rightarrow> int \<Rightarrow> string \<Rightarrow> int option \<Rightarrow> attempt_row" where
  "attempt_row_of a k changes following =
     \<lparr>prt_workspace_id = attempt_workspace_id a, prt_experience_id = attempt_experience_id a,
      prt_ordinal = k, atr_id = attempt_id a,
      atr_result = attempt_result_as_str (attempt_result_of a),
      atr_change_evidence_ordinals_json = changes,
      atr_following_verification_ordinal = following\<rparr>"

definition insert_experience_attempt :: "history_codec \<Rightarrow> experience_attempt \<Rightarrow> unit tx" where
  "insert_experience_attempt cd a db =
     and_then (ordinal_from_u64 (attempt_ordinal a)) (\<lambda>k.
     and_then (write_ordinals cd (attempt_change_ordinals a)) (\<lambda>changes.
     and_then (case attempt_following_ordinal a of None \<Rightarrow> Inr None
       | Some n \<Rightarrow> and_then (ordinal_from_u64 n) (\<lambda>v. Inr (Some v))) (\<lambda>following.
     let r = attempt_row_of a k changes following
     in checked (attempt_allowed r db) ''experience_attempts''
          ((), db\<lparr>hd_attempts := hd_attempts db @ [r]\<rparr>))))"

definition code_snapshot_row_of :: "string \<Rightarrow> string \<Rightarrow> int \<Rightarrow> code_snapshot \<Rightarrow> code_snapshot_row" where
  "code_snapshot_row_of w i k s =
     \<lparr>prt_workspace_id = w, prt_experience_id = i, prt_ordinal = k,
      csr_source_event_id = snap_source_event_id s,
      csr_relative_path = snap_relative_path s,
      csr_workspace_content_revision = snap_workspace_content_revision s,
      csr_document_content_revision = snap_document_content_revision s,
      csr_document_content_hash = snap_document_content_hash s, csr_content = snap_content s,
      csr_chunk_stable_key = snap_chunk_stable_key s,
      csr_chunk_content_hash = snap_chunk_content_hash s,
      csr_symbol_logical_key = snap_symbol_logical_key s,
      csr_symbol_label = snap_symbol_label s,
      csr_source_start_byte = snap_source_start_byte s,
      csr_source_end_byte = snap_source_end_byte s\<rparr>"

definition insert_experience_code_snapshot :: "string \<Rightarrow> string \<Rightarrow> code_snapshot \<Rightarrow> unit tx" where
  "insert_experience_code_snapshot w i s db =
     and_then (ordinal_from_u64 (snap_ordinal s)) (\<lambda>k.
     let r = code_snapshot_row_of w i k s
     in checked (code_snapshot_allowed r db) ''experience_code_snapshots''
          ((), db\<lparr>hd_code_snapshots := hd_code_snapshots db @ [r]\<rparr>))"

definition graph_snapshot_row_of :: "string \<Rightarrow> string \<Rightarrow> int \<Rightarrow> int \<Rightarrow> string \<Rightarrow> experience_graph_snapshot \<Rightarrow> graph_snapshot_row" where
  "graph_snapshot_row_of w i k c provenance s =
     \<lparr>prt_workspace_id = w, prt_experience_id = i, prt_ordinal = k,
      gsr_code_snapshot_ordinal = c,
      gsr_graph_content_revision = gs_graph_content_revision s,
      gsr_graph_schema_version = gs_graph_schema_version s,
      gsr_graph_state = graph_state_storage_name (gs_graph_state s),
      gsr_analyzer_id = gs_analyzer_id s, gsr_analyzer_version = gs_analyzer_version s,
      gsr_structure_version = gs_structure_version s,
      gsr_node_stable_key = gs_node_stable_key s,
      gsr_node_type = node_type_storage_name (gs_node_type s),
      gsr_resolution_provenance_json = provenance\<rparr>"

definition insert_experience_graph_snapshot ::
    "history_codec \<Rightarrow> string \<Rightarrow> string \<Rightarrow> experience_graph_snapshot \<Rightarrow> unit tx" where
  "insert_experience_graph_snapshot cd w i s db =
     and_then (ordinal_from_u64 (gs_ordinal s)) (\<lambda>k.
     and_then (ordinal_from_u64 (gs_code_snapshot_ordinal s)) (\<lambda>c.
     and_then (write_json cd (gs_resolution_provenance s)) (\<lambda>provenance.
     let r = graph_snapshot_row_of w i k c provenance s
     in checked (graph_snapshot_allowed r db) ''experience_graph_snapshots''
          ((), db\<lparr>hd_graph_snapshots := hd_graph_snapshots db @ [r]\<rparr>))))"

definition basis_row_of :: "string \<Rightarrow> string \<Rightarrow> int \<Rightarrow> evidence_basis \<Rightarrow> basis_row" where
  "basis_row_of w i k b = \<lparr>prt_workspace_id = w, prt_experience_id = i, prt_ordinal = k,
     bsr_basis = basis_as_str b\<rparr>"

definition insert_experience_basis :: "string \<Rightarrow> string \<Rightarrow> nat \<times> evidence_basis \<Rightarrow> unit tx" where
  "insert_experience_basis w i = (\<lambda>(n, b) db.
     and_then (ordinal_from_u64 n) (\<lambda>k.
     let r = basis_row_of w i k b
     in checked (basis_allowed r db) ''experience_strength_bases''
          ((), db\<lparr>hd_bases := hd_bases db @ [r]\<rparr>)))"

definition insert_seal :: "string \<Rightarrow> string \<Rightarrow> int \<Rightarrow> unit tx" where
  "insert_seal w i n db =
     (let r = \<lparr>slr_workspace_id = w, slr_experience_id = i, slr_acceptance_order = Some n\<rparr>
      in checked (seal_allowed r db) ''experience_seals''
           ((), db\<lparr>hd_seals := hd_seals db @ [r]\<rparr>))"

definition write_experience_record :: "history_codec \<Rightarrow> experience_record \<Rightarrow> unit tx" where
  "write_experience_record cd r db =
     (let e = er_experience r; w = exp_workspace_id e; i = exp_id e
      in and_then (insert_experience_row cd e db) (\<lambda>(_, db).
         and_then (try_tx (insert_experience_evidence w i) (er_evidence r) db) (\<lambda>db.
         and_then (try_tx (insert_experience_verification w i)
           (ev_observations (exp_verification e)) db) (\<lambda>db.
         and_then (try_tx (insert_experience_attempt cd) (er_attempts r) db) (\<lambda>db.
         and_then (try_tx (insert_experience_code_snapshot w i) (er_code_snapshots r) db) (\<lambda>db.
         and_then (try_tx (insert_experience_graph_snapshot cd w i) (er_graph_snapshots r) db) (\<lambda>db.
         and_then (try_tx (insert_experience_basis w i)
           (enumerate 0 (sa_bases (exp_evidence_strength e))) db) (\<lambda>db.
         and_then (insert_historical_write_order w ''experience_acceptance'' i db) (\<lambda>(n, db).
         insert_seal w i n db)))))))))"

section \<open>Reading\<close>

definition parts_of :: "string \<Rightarrow> string \<Rightarrow> 'a part_row_scheme list \<Rightarrow> 'a part_row_scheme list" where
  "parts_of w i rows =
     sort_key prt_ordinal (filter (\<lambda>r. prt_workspace_id r = w \<and> prt_experience_id r = i) rows)"

definition verification_subject_kind :: "string \<Rightarrow> cortex_error + subject_kind" where
  "verification_subject_kind v =
     (if v = ''workspace'' then Inr WorkspaceSubject else if v = ''package'' then Inr PackageSubject
      else if v = ''target'' then Inr TargetSubject else if v = ''test'' then Inr TestSubject
      else if v = ''path'' then Inr PathSubject
      else Inl (StorageErr ''invalid verification subject kind''))"

definition observation_of_row :: "verification_row \<Rightarrow> cortex_error + verification_observation" where
  "observation_of_row r =
     and_then (ordinal_from_i64 (prt_ordinal r)) (\<lambda>k.
     and_then (verification_subject_kind (vrr_subject_kind r)) (\<lambda>kind.
     Inr \<lparr>vo_ordinal = k, vo_status = status_from_storage (vrr_status r),
       vo_kind = kind_from_storage (vrr_kind r),
       vo_subject = \<lparr>es_kind = kind, es_value = vrr_subject_value r\<rparr>,
       vo_evidence_event_id = vrr_evidence_event_id r, vo_rule_id = vrr_rule_id r,
       vo_rule_version = vrr_rule_version r\<rparr>))"

definition attempt_of_row :: "history_codec \<Rightarrow> attempt_row \<Rightarrow> cortex_error + experience_attempt" where
  "attempt_of_row cd r =
     and_then (ordinal_from_i64 (prt_ordinal r)) (\<lambda>k.
     and_then (read_ordinals cd (atr_change_evidence_ordinals_json r)) (\<lambda>changes.
     and_then (case atr_following_verification_ordinal r of None \<Rightarrow> Inr None
       | Some v \<Rightarrow> and_then (ordinal_from_i64 v) (\<lambda>n. Inr (Some n))) (\<lambda>following.
     Inr \<lparr>attempt_id = atr_id r, attempt_workspace_id = prt_workspace_id r,
       attempt_experience_id = prt_experience_id r, attempt_ordinal = k,
       attempt_result_of = attempt_result_from_storage (atr_result r),
       attempt_change_ordinals = changes, attempt_following_ordinal = following\<rparr>)))"

definition link_of_row :: "evidence_row \<Rightarrow> cortex_error + evidence_link" where
  "link_of_row r =
     and_then (ordinal_from_i64 (prt_ordinal r)) (\<lambda>k.
     Inr \<lparr>link_ordinal = k, link_relation = relation_from_storage (lkr_relation r),
       link_event_id = lkr_event_id r\<rparr>)"

definition code_snapshot_of_row :: "code_snapshot_row \<Rightarrow> cortex_error + code_snapshot" where
  "code_snapshot_of_row r =
     and_then (ordinal_from_i64 (prt_ordinal r)) (\<lambda>k.
     Inr \<lparr>snap_ordinal = k, snap_source_event_id = csr_source_event_id r,
       snap_relative_path = csr_relative_path r,
       snap_workspace_content_revision = csr_workspace_content_revision r,
       snap_document_content_revision = csr_document_content_revision r,
       snap_document_content_hash = csr_document_content_hash r, snap_content = csr_content r,
       snap_chunk_stable_key = csr_chunk_stable_key r,
       snap_chunk_content_hash = csr_chunk_content_hash r,
       snap_symbol_logical_key = csr_symbol_logical_key r,
       snap_symbol_label = csr_symbol_label r, snap_source_start_byte = csr_source_start_byte r,
       snap_source_end_byte = csr_source_end_byte r\<rparr>)"

definition graph_snapshot_of_row ::
    "history_codec \<Rightarrow> graph_snapshot_row \<Rightarrow> cortex_error + experience_graph_snapshot" where
  "graph_snapshot_of_row cd r =
     and_then (ordinal_from_i64 (prt_ordinal r)) (\<lambda>k.
     and_then (ordinal_from_i64 (gsr_code_snapshot_ordinal r)) (\<lambda>c.
     and_then (read_json cd (gsr_resolution_provenance_json r)) (\<lambda>provenance.
     Inr \<lparr>gs_ordinal = k, gs_code_snapshot_ordinal = c,
       gs_graph_content_revision = gsr_graph_content_revision r,
       gs_graph_schema_version = gsr_graph_schema_version r,
       gs_graph_state = graph_state_from_storage (gsr_graph_state r),
       gs_analyzer_id = gsr_analyzer_id r, gs_analyzer_version = gsr_analyzer_version r,
       gs_structure_version = gsr_structure_version r,
       gs_node_stable_key = gsr_node_stable_key r,
       gs_node_type = node_type_from_storage (gsr_node_type r),
       gs_resolution_provenance = provenance\<rparr>)))"

definition experience_record_in :: "history_codec \<Rightarrow> string \<Rightarrow> string \<Rightarrow> history_db
    \<Rightarrow> cortex_error + experience_record option" where
  "experience_record_in cd w i db =
     (case experience_row_of w i db of
        None \<Rightarrow> Inr None
      | Some x \<Rightarrow>
          (let bases = map (\<lambda>b. basis_from_storage (bsr_basis b)) (parts_of w i (hd_bases db)) in
           and_then (case xr_failure_signature_json x of None \<Rightarrow> Inr None
             | Some t \<Rightarrow> and_then (read_signature cd t) (\<lambda>s. Inr (Some s))) (\<lambda>sg.
           and_then (try_map observation_of_row (parts_of w i (hd_verifications db)))
             (\<lambda>observations.
           and_then (read_reasons cd (xr_verification_reasons_json x)) (\<lambda>reasons.
           let e = \<lparr>exp_id = xr_id x, exp_workspace_id = xr_workspace_id x,
                exp_session_id = xr_session_id x, exp_task_id = xr_task_id x,
                exp_episode_id = xr_episode_id x, exp_failure_signature = sg,
                exp_outcome = outcome_from_storage (xr_outcome x),
                exp_verification = \<lparr>ev_status = status_from_storage (xr_verification_status x),
                  ev_observations = observations, ev_reasons = reasons\<rparr>,
                exp_summary = xr_summary x,
                exp_evidence_strength = \<lparr>sa_strength = strength_from_storage (xr_evidence_strength x),
                  sa_bases = bases\<rparr>,
                exp_extractor_id = xr_extractor_id x,
                exp_extractor_version = xr_extractor_version x,
                exp_summary_renderer_version = xr_summary_renderer_version x,
                exp_canonicalization_version = xr_canonicalization_version x,
                exp_consolidation_fingerprint = xr_consolidation_fingerprint x,
                exp_proposal_hash = xr_proposal_hash x, exp_created_at = xr_created_at x\<rparr>
           in and_then (try_map (attempt_of_row cd) (parts_of w i (hd_attempts db))) (\<lambda>attempts.
              and_then (try_map link_of_row (parts_of w i (hd_evidence db))) (\<lambda>evidence.
              and_then (try_map code_snapshot_of_row (parts_of w i (hd_code_snapshots db)))
                (\<lambda>code.
              and_then (try_map (graph_snapshot_of_row cd) (parts_of w i (hd_graph_snapshots db)))
                (\<lambda>graph.
              Inr (Some \<lparr>er_experience = e, er_attempts = attempts, er_evidence = evidence,
                er_code_snapshots = code, er_graph_snapshots = graph\<rparr>))))))))))"

definition experience_by_fingerprint ::
    "string \<Rightarrow> string \<Rightarrow> history_db \<Rightarrow> experience_row option" where
  "experience_by_fingerprint w fingerprint db =
     find (\<lambda>x. xr_workspace_id x = w \<and> xr_consolidation_fingerprint x = fingerprint)
       (hd_experiences db)"

definition experience_by_episode :: "string \<Rightarrow> string \<Rightarrow> history_db \<Rightarrow> experience_row option" where
  "experience_by_episode w episode db =
     (case sort_key (\<lambda>x. (xr_created_at x, xr_id x))
        (filter (\<lambda>x. xr_workspace_id x = w \<and> xr_episode_id x = episode) (hd_experiences db)) of
        [] \<Rightarrow> None | x # _ \<Rightarrow> Some x)"

definition experience_for_episode ::
    "history_codec \<Rightarrow> string \<Rightarrow> string \<Rightarrow> history_db \<Rightarrow> cortex_error + experience_record option" where
  "experience_for_episode cd w episode db =
     (case experience_by_episode w episode db of
        None \<Rightarrow> Inr None | Some x \<Rightarrow> experience_record_in cd w (xr_id x) db)"

section \<open>The checked insertion\<close>

record input_member =
  im_ordinal :: nat
  im_event_id :: string
  im_event_type :: string
  im_payload_hash :: string

record input_identity =
  ii_workspace_id :: string
  ii_episode_id :: string
  ii_members :: "input_member list"

text \<open>The parameters of the insertion: the codec of the columns, \<open>blake3\<close>, the bytes of a JSON
  value and the canonical hash of a payload.\<close>

record history_services =
  hs_codec :: history_codec
  hs_blake3 :: "string \<Rightarrow> string"
  hs_json_bytes :: "json \<Rightarrow> cortex_error + string"
  hs_payload_hash :: "json \<Rightarrow> cortex_error + string"

definition member_events :: "string \<Rightarrow> string \<Rightarrow> history_db \<Rightarrow> (int \<times> event_row) list" where
  "member_events w i db = concat (map (\<lambda>m. case event_row_of w (mbr_event_id m) db of
     None \<Rightarrow> [] | Some v \<Rightarrow> [(mbr_ordinal m, v)]) (members_of w i db))"

definition input_member_of :: "history_services \<Rightarrow> int \<times> event_row \<Rightarrow> cortex_error + input_member" where
  "input_member_of hs = (\<lambda>(ordinal, v).
     and_then (ordinal_from_i64 ordinal) (\<lambda>k.
     and_then (read_json (hs_codec hs) (evr_payload_json v)) (\<lambda>payload.
     and_then (hs_payload_hash hs payload) (\<lambda>h.
     Inr \<lparr>im_ordinal = k, im_event_id = evr_id v, im_event_type = evr_event_type v,
       im_payload_hash = h\<rparr>))))"

definition validate_consolidation_input ::
    "history_services \<Rightarrow> experience \<Rightarrow> input_identity \<Rightarrow> history_db \<Rightarrow> cortex_error + unit" where
  "validate_consolidation_input hs e expected db =
     and_then (ensure (ii_workspace_id expected = exp_workspace_id e
         \<and> ii_episode_id expected = exp_episode_id e)
       (ConflictErr ''consolidation input identity does not match the experience scope'')) (\<lambda>_.
     and_then (try_map (input_member_of hs)
       (member_events (exp_workspace_id e) (exp_episode_id e) db)) (\<lambda>actual.
     ensure (actual = ii_members expected)
       (ConflictErr (''episode membership or event identity changed after consolidation ''
          @ ''preview''))))"

definition check_source_episode :: "experience \<Rightarrow> episode \<Rightarrow> cortex_error + unit" where
  "check_source_episode e ep =
     and_then (ensure (ep_status ep \<in> {ClosedEpisode, AbandonedEpisode})
       (AnalysisErr ''an experience requires a closed or explicitly abandoned episode'')) (\<lambda>_.
     and_then (ensure (ep_session_id ep = exp_session_id e \<and> ep_task_id ep = exp_task_id e)
       (AnalysisErr ''experience scope must exactly match its episode'')) (\<lambda>_.
     and_then (ensure (ep_status ep = AbandonedEpisode
           \<longrightarrow> exp_outcome e \<in> {FailureOutcome, AbandonedOutcome})
       (AnalysisErr ''an abandoned episode may support only a failed or abandoned experience''))
       (\<lambda>_.
     ensure (ep_status ep = ClosedEpisode \<longrightarrow> exp_outcome e \<noteq> AbandonedOutcome)
       (AnalysisErr ''an abandoned experience requires an explicitly abandoned episode''))))"

definition existing_experience ::
    "history_codec \<Rightarrow> experience \<Rightarrow> experience_row \<Rightarrow> experience_record tx" where
  "existing_experience cd e x db =
     and_then (ensure (xr_proposal_hash x = exp_proposal_hash e)
       (ConflictErr ''consolidation fingerprint already has a different material proposal'')) (\<lambda>_.
     and_then (experience_record_in cd (exp_workspace_id e) (xr_id x) db) (\<lambda>found.
     and_then (ok_or found (StorageErr ''experience disappeared during idempotent lookup''))
       (\<lambda>r. Inr (r, db))))"

definition insert_experience_checked ::
    "history_services \<Rightarrow> experience_record \<Rightarrow> nat option \<Rightarrow> input_identity option \<Rightarrow> bool
      \<Rightarrow> experience_record tx" where
  "insert_experience_checked hs r expected_version expected_input single db =
     and_then (validate_experience_record (hs_blake3 hs) (hs_json_bytes hs) r) (\<lambda>_.
     let e = er_experience r in
     and_then (require_stored_episode (exp_workspace_id e) (exp_episode_id e) db) (\<lambda>ep.
     and_then (ensure (pred_option (\<lambda>v. ep_version ep = v) expected_version)
       (ConflictErr ''episode changed after consolidation preview'')) (\<lambda>_.
     and_then (case expected_input of None \<Rightarrow> Inr ()
       | Some expected \<Rightarrow> validate_consolidation_input hs e expected db) (\<lambda>_.
     and_then (check_source_episode e ep) (\<lambda>_.
     case experience_by_fingerprint (exp_workspace_id e) (exp_consolidation_fingerprint e) db of
       Some x \<Rightarrow> existing_experience (hs_codec hs) e x db
     | None \<Rightarrow>
         and_then (ensure (\<not> single
             \<or> experience_by_episode (exp_workspace_id e) (exp_episode_id e) db = None)
           (ConflictErr (''episode '' @ exp_episode_id e
              @ '' already has a consolidated experience''))) (\<lambda>_.
         and_then (write_experience_record (hs_codec hs) r db) (\<lambda>(_, db). Inr (r, db))))))))"

definition insert_consolidated_experience ::
    "history_services \<Rightarrow> experience_record \<Rightarrow> nat \<Rightarrow> input_identity \<Rightarrow> experience_record tx" where
  "insert_consolidated_experience hs r version input =
     insert_experience_checked hs r (Some version) (Some input) True"

text \<open>Whether every event was written after the experience was accepted.\<close>

definition events_ingressed_after_experience ::
    "string \<Rightarrow> string \<Rightarrow> string list \<Rightarrow> history_db \<Rightarrow> bool" where
  "events_ingressed_after_experience w i events db \<longleftrightarrow>
     events \<noteq> [] \<and>
     (case Option.bind (find (\<lambda>s. slr_workspace_id s = w \<and> slr_experience_id s = i) (hd_seals db))
        slr_acceptance_order of
        None \<Rightarrow> False
      | Some accepted \<Rightarrow>
          (let orders = map odr_sequence (filter (\<lambda>o'. odr_workspace_id o' = w
             \<and> odr_entity_kind o' = ''event'' \<and> odr_entity_id o' \<in> set events) (hd_order db))
           in length orders = length events \<and> list_all (\<lambda>n. accepted < n) orders))"

end
