(* ===== verification/ConsolidationService.thy ===== *)
theory ConsolidationService
  imports Consolidation ExperienceStore
begin

text \<open>
  The service operations of \<open>src/service/consolidation.rs\<close>: \<open>preview\<close> and \<open>accept\<close>.  Each call of
  storage is a transaction of its own, so each read sees a database of its own: a read point names
  the call, and the reads of a request map read points to databases.  Only the insertion writes, and
  it checks in its transaction what the reads assumed.

  The fingerprint of the input and the hash of the proposal are parameters, as are the ids and the
  clock.
\<close>

record consolidation_request =
  cq_workspace_id :: string
  cq_episode_id :: string
  cq_expected_version :: nat

record acceptance_request =
  ac_request :: consolidation_request
  ac_fingerprint :: string
  ac_proposal_hash :: string

datatype consolidation_acceptance =
    Accepted experience_record
  | NotAccepted no_result_reason "consolidation_diagnostic list"

record consolidator =
  cn_service :: consolidation_service
  cn_history :: history_services
  cn_input_fingerprint :: "episode \<Rightarrow> (nat \<times> cortex_event) list \<Rightarrow> cortex_error + string"
  cn_proposal_hash :: "experience_record \<Rightarrow> cortex_error + string"

abbreviation cn_codec :: "consolidator \<Rightarrow> history_codec" where
  "cn_codec c \<equiv> hs_codec (cn_history c)"

datatype read_point = ReadEpisode | ReadExperience | ReadMembers | ReadEvent nat

type_synonym reads = "read_point \<Rightarrow> history_db"

section \<open>Preview\<close>

definition member_event :: "history_codec \<Rightarrow> string \<Rightarrow> reads \<Rightarrow> nat \<times> episode_event
    \<Rightarrow> cortex_error + cortex_event" where
  "member_event cd w seen = (\<lambda>(k, m).
     and_then (stored_event cd w (mb_event_id m) (seen (ReadEvent k))) (\<lambda>found.
     ok_or found (StorageErr ''episode member event is missing'')))"

definition scoped_member_event :: "history_codec \<Rightarrow> episode \<Rightarrow> string \<Rightarrow> reads \<Rightarrow> nat \<times> episode_event
    \<Rightarrow> cortex_error + nat \<times> cortex_event" where
  "scoped_member_event cd ep w seen km =
     and_then (member_event cd w seen km) (\<lambda>v.
     and_then (ensure (event_session_id v = Some (ep_session_id ep) \<and> event_task_id v = ep_task_id ep)
       (AnalysisErr ''episode membership contains an event outside the episode scope'')) (\<lambda>_.
     Inr (mb_ordinal (snd km), v)))"

definition preview_members :: "consolidator \<Rightarrow> (nat \<Rightarrow> string) \<Rightarrow> timestamp \<Rightarrow> consolidation_request
    \<Rightarrow> reads \<Rightarrow> episode \<Rightarrow> cortex_error + consolidation_preview" where
  "preview_members c new_id now q seen ep =
     and_then (episode_events (cq_workspace_id q) (cq_episode_id q) (max_episode_events + 1)
       (seen ReadMembers)) (\<lambda>members.
     if max_episode_events < length members
     then Inr (no_result EvidenceLimitExceeded ''episode_event_limit''
       ''episode membership exceeds the deterministic evidence limit'' None None)
     else if members = []
     then Inr (no_result EpisodeEmpty ''episode_empty'' ''the episode has no evidence events'' None None)
     else and_then (try_map (scoped_member_event (cn_codec c) ep (cq_workspace_id q) seen)
            (enumerate 0 members)) (\<lambda>events.
          and_then (cn_input_fingerprint c ep events) (\<lambda>fingerprint.
          extract_proposal (cn_service c) (cn_proposal_hash c) new_id now ep events fingerprint)))"

definition preview :: "consolidator \<Rightarrow> (nat \<Rightarrow> string) \<Rightarrow> timestamp \<Rightarrow> consolidation_request \<Rightarrow> reads
    \<Rightarrow> cortex_error + consolidation_preview" where
  "preview c new_id now q seen =
     and_then (stored_episode (cq_workspace_id q) (cq_episode_id q) (seen ReadEpisode)) (\<lambda>found.
     case found of
       None \<Rightarrow> Inr (no_result EpisodeIneligible ''episode_not_found''
         ''the requested episode does not exist'' None None)
     | Some ep \<Rightarrow>
         if ep_version ep \<noteq> cq_expected_version q
         then Inr (no_result StaleEpisodeVersion ''stale_episode_version''
           ''the episode changed after the supplied version'' None None)
         else if ep_status ep \<notin> {ClosedEpisode, AbandonedEpisode}
         then Inr (no_result EpisodeNotClosed ''episode_not_terminal''
           ''only terminal episodes can be consolidated'' None None)
         else and_then (experience_for_episode (cn_codec c) (cq_workspace_id q) (cq_episode_id q)
             (seen ReadExperience)) (\<lambda>existing.
           case existing of
             Some r \<Rightarrow> Inr (no_result AlreadyConsolidated ''episode_already_consolidated''
               (''episode '' @ cq_episode_id q @ '' was already consolidated as experience ''
                  @ exp_id (er_experience r)) None None)
           | None \<Rightarrow> preview_members c new_id now q seen ep))"

section \<open>Acceptance\<close>

definition no_accept :: "no_result_reason \<Rightarrow> string \<Rightarrow> string \<Rightarrow> consolidation_acceptance" where
  "no_accept reason c m = NotAccepted reason [diag c m None None]"

definition input_member_at :: "consolidator \<Rightarrow> string \<Rightarrow> reads \<Rightarrow> nat \<times> episode_event
    \<Rightarrow> cortex_error + input_member" where
  "input_member_at c w seen km =
     and_then (member_event (cn_codec c) w seen km) (\<lambda>v.
     and_then (hs_payload_hash (cn_history c) (event_payload v)) (\<lambda>h.
     Inr \<lparr>im_ordinal = mb_ordinal (snd km), im_event_id = event_id v,
       im_event_type = event_storage_name (event_type_of v), im_payload_hash = h\<rparr>))"

definition acceptance_input_identity ::
    "consolidator \<Rightarrow> consolidation_request \<Rightarrow> reads \<Rightarrow> cortex_error + input_identity" where
  "acceptance_input_identity c q seen =
     and_then (episode_events (cq_workspace_id q) (cq_episode_id q) (max_episode_events + 1)
       (seen ReadMembers)) (\<lambda>members.
     and_then (ensure (length members \<le> max_episode_events)
       (AnalysisErr ''episode membership exceeds the deterministic evidence limit'')) (\<lambda>_.
     and_then (try_map (input_member_at c (cq_workspace_id q) seen) (enumerate 0 members)) (\<lambda>ms.
     Inr \<lparr>ii_workspace_id = cq_workspace_id q, ii_episode_id = cq_episode_id q, ii_members = ms\<rparr>)))"

text \<open>The reads of an acceptance: the lookup it begins with, those of its preview, the lookup after
  a preview that found an experience, and those of the identity of the input.\<close>

record acceptance_reads =
  ar_first :: history_db
  ar_preview :: reads
  ar_again :: history_db
  ar_identity :: reads

definition wanted :: "acceptance_request \<Rightarrow> experience_record \<Rightarrow> bool" where
  "wanted q r \<longleftrightarrow> exp_consolidation_fingerprint (er_experience r) = ac_fingerprint q
     \<and> exp_proposal_hash (er_experience r) = ac_proposal_hash q"

definition accepted_before ::
    "consolidator \<Rightarrow> acceptance_request \<Rightarrow> history_db \<Rightarrow> cortex_error + experience_record option" where
  "accepted_before c q db =
     experience_for_episode (cn_codec c) (cq_workspace_id (ac_request q)) (cq_episode_id (ac_request q)) db"

text \<open>A preview without a proposal; the guard looks the experience up again only when the reason is
  that there is one.\<close>

definition accept_no_result :: "consolidator \<Rightarrow> acceptance_request \<Rightarrow> acceptance_reads
    \<Rightarrow> no_result_reason \<Rightarrow> consolidation_diagnostic list \<Rightarrow> cortex_error + consolidation_acceptance" where
  "accept_no_result c q seen reason ds =
     (if reason = AlreadyConsolidated
      then and_then (accepted_before c q (ar_again seen)) (\<lambda>found. case found of
          Some r \<Rightarrow> Inr (if wanted q r then Accepted r else NotAccepted reason ds)
        | None \<Rightarrow> Inr (NotAccepted reason ds))
      else Inr (NotAccepted reason ds))"

definition accept_proposal :: "consolidator \<Rightarrow> acceptance_request \<Rightarrow> acceptance_reads
    \<Rightarrow> experience_proposal \<Rightarrow> proposal_disposition \<Rightarrow> consolidation_acceptance tx" where
  "accept_proposal c q seen p disposition db =
     (if disposition \<noteq> Automatic then Inr (NotAccepted ReviewRequiredReason (pr_diagnostics p), db)
      else if pr_fingerprint p \<noteq> ac_fingerprint q
      then Inr (no_accept FingerprintMismatch ''fingerprint_mismatch''
        ''the episode input changed since preview'', db)
      else if pr_hash p \<noteq> ac_proposal_hash q
      then Inr (no_accept ProposalHashMismatch ''proposal_hash_mismatch''
        ''the material proposal changed since preview'', db)
      else and_then (acceptance_input_identity c (ac_request q) (ar_identity seen)) (\<lambda>input.
           and_then (insert_consolidated_experience (cn_history c) (pr_record p)
             (cq_expected_version (ac_request q)) input db) (\<lambda>(r, db).
           Inr (Accepted r, db))))"

definition accept :: "consolidator \<Rightarrow> (nat \<Rightarrow> string) \<Rightarrow> timestamp \<Rightarrow> acceptance_request
    \<Rightarrow> acceptance_reads \<Rightarrow> consolidation_acceptance tx" where
  "accept c new_id now q seen db =
     and_then (accepted_before c q (ar_first seen)) (\<lambda>existing.
     case existing of
       Some r \<Rightarrow> Inr (if wanted q r then Accepted r
         else no_accept AlreadyConsolidated ''episode_already_consolidated''
           ''the episode already has a different consolidated experience'', db)
     | None \<Rightarrow>
         and_then (preview c new_id now (ac_request q) (ar_preview seen)) (\<lambda>result.
         case result of
           NoResult reason ds \<Rightarrow>
             and_then (accept_no_result c q seen reason ds) (\<lambda>answer. Inr (answer, db))
         | Proposal p disposition \<Rightarrow> accept_proposal c q seen p disposition db))"

end
