(* ===== verification/ConsolidationDemo.thy ===== *)
theory ConsolidationDemo
  imports Consolidation
begin

text \<open>
  A small episode for the witnesses of the theorems on consolidation: the compiler reports a type
  error in a package, a tool edits a file, and the compiler passes twice.
\<close>

section \<open>The events\<close>

definition demo_rust_payload :: "bool \<Rightarrow> rust_compiler_payload" where
  "demo_rust_payload failing =
     \<lparr>ph_contract = ''cortexweave.rust_compiler_result'', ph_version = 1,
      rp_subject = \<lparr>es_kind = PackageSubject, es_value = ''core''\<rparr>,
      rp_exit_code = (if failing then 101 else 0),
      rp_diagnostics = (if failing then [demo_diagnostic ''e0''] else [])\<rparr>"

definition demo_tool_payload :: external_tool_payload where
  "demo_tool_payload =
     \<lparr>ph_contract = ''cortexweave.external_tool_completion'', ph_version = 1,
      et_tool = ''sed'', et_operation = ''edit'', et_exit_code = 0, et_error_class = None,
      et_message = None\<rparr>"

definition demo_failed_exit :: "json \<Rightarrow> bool" where
  "demo_failed_exit j = (case j of
     JObject kvs \<Rightarrow> map_of kvs ''exit_code'' = Some (JNumber (PosInt 101)) | _ \<Rightarrow> False)"

definition demo_episode_serde :: serde where
  "demo_episode_serde =
     \<lparr>to_vec_len = (\<lambda>_. Inr 512), external_tool_of = (\<lambda>_. Inr demo_tool_payload),
      rust_compiler_of = (\<lambda>j. Inr (demo_rust_payload (demo_failed_exit j))),
      cargo_test_of = (\<lambda>_. Inl []), test_run_of = (\<lambda>_. Inl []),
      generic_verifier_of = (\<lambda>_. Inl []), source_change_of = (\<lambda>_. Inl []),
      user_acceptance_of = (\<lambda>_. Inl [])\<rparr>"

definition demo_episode_event :: "string \<Rightarrow> event_type \<Rightarrow> string \<Rightarrow> nat \<Rightarrow> cortex_event" where
  "demo_episode_event i t contract exit =
     \<lparr>event_id = i, event_workspace_id = ''w'', event_session_id = Some ''s'',
      event_task_id = None, event_type_of = t,
      event_payload = JObject [(''contract'', JString contract), (''version'', JNumber (PosInt 1)),
        (''exit_code'', JNumber (PosInt exit))],
      event_created_at = 0\<rparr>"

definition demo_e0 :: cortex_event where
  "demo_e0 = demo_episode_event ''e0'' CompilerResult ''cortexweave.rust_compiler_result'' 101"
definition demo_e1 :: cortex_event where
  "demo_e1 = demo_episode_event ''e1'' ExternalToolFinished ''cortexweave.external_tool_completion'' 0"
definition demo_e2 :: cortex_event where
  "demo_e2 = demo_episode_event ''e2'' CompilerResult ''cortexweave.rust_compiler_result'' 0"
definition demo_e3 :: cortex_event where
  "demo_e3 = demo_episode_event ''e3'' CompilerResult ''cortexweave.rust_compiler_result'' 0"

definition demo_events :: "(nat \<times> cortex_event) list" where
  "demo_events = [(0, demo_e0), (1, demo_e1), (2, demo_e2), (3, demo_e3)]"

definition demo_decoders :: decoder_registry where
  "demo_decoders = projr (decoder_registry_standard demo_episode_serde)"

definition demo_normalizers :: normalizer_registry where
  "demo_normalizers = projr (normalization_standard demo_hash)"

definition demo_service :: consolidation_service where
  "demo_service =
     \<lparr>cs_decoders = demo_decoders, cs_serde = demo_episode_serde, cs_profiles = demo_profiles,
      cs_scope_fingerprint = (\<lambda>_. Inr ''scope''), cs_rules = [],
      cs_normalizers = demo_normalizers\<rparr>"

lemma demo_decoders_ok: "decoder_registry_standard demo_episode_serde = Inr demo_decoders"
  using standard_registry_exists [of demo_episode_serde] by (auto simp: demo_decoders_def)

lemma demo_normalizers_ok: "normalization_standard demo_hash = Inr demo_normalizers"
  using normalization_standard_exists [of demo_hash] by (auto simp: demo_normalizers_def)

lemma demo_service_standard: "standard_services demo_hash demo_service"
  using demo_decoders_ok demo_normalizers_ok by (simp add: standard_services_def demo_service_def)

section \<open>Decoded\<close>

definition demo_tool_evidence :: decoded_evidence where
  "demo_tool_evidence =
     \<lparr>envelope = \<lparr>env_event_id = ''e1'', env_workspace_id = ''w'', env_session_id = ''s'',
        env_task_id = None, env_occurred_at = 0, env_contract = ExternalToolCompletionContract,
        env_version = 1\<rparr>,
      observation = ExternalToolCompletion
        \<lparr>tc_tool = ''sed'', tc_operation = ''edit'', tc_exit_code = 0, tc_error_class = None,
         tc_message = None\<rparr>\<rparr>"

definition demo_pass_evidence :: "string \<Rightarrow> decoded_evidence" where
  "demo_pass_evidence i =
     \<lparr>envelope = \<lparr>env_event_id = i, env_workspace_id = ''w'', env_session_id = ''s'',
        env_task_id = None, env_occurred_at = 0, env_contract = RustCompilerResultContract,
        env_version = 1\<rparr>,
      observation = RustCompilerResult
        \<lparr>rc_subject = \<lparr>es_kind = PackageSubject, es_value = ''core''\<rparr>,
         rc_process_outcome = ExitedZero, rc_exit_code = 0, rc_diagnostics = []\<rparr>\<rparr>"

lemma demo_episode_decoded:
  "decode demo_decoders demo_episode_serde demo_e0 = Inr (Decoded (demo_rust ''e0''))"
  "decode demo_decoders demo_episode_serde demo_e1 = Inr (Decoded demo_tool_evidence)"
  "decode demo_decoders demo_episode_serde demo_e2 = Inr (Decoded (demo_pass_evidence ''e2''))"
  "decode demo_decoders demo_episode_serde demo_e3 = Inr (Decoded (demo_pass_evidence ''e3''))"
  by code_simp+

lemma demo_pass_refused: "\<exists>m. normalize demo_normalizers (demo_pass_evidence i) = Inr (Refused m)"
proof -
  obtain rules where m: "normalizer_registry_new (standard_normalizers demo_hash demo_profiles rules)
      = Inr demo_normalizers"
    using demo_normalizers_ok by (auto simp: normalization_standard_Inr)
  have "map_of demo_normalizers (contract_id RustCompilerResultContract)
      = Some (standard_normalizers demo_hash demo_profiles rules ! 0)"
    using normalizers.lookup [OF m] by (simp add: standard_normalizers_def normalizer_key_def)
  then show ?thesis
    by (simp add: FailureNormalize.normalize_def demo_pass_evidence_def standard_normalizers_def
        normalize_rust_def rust_error_def unsupported_def)
qed

definition demo_failed :: verification_fact where
  "demo_failed = (mk_fact 0 VerifiedFailed RustCompilerKind ''cortexweave.rust_compiler'' ''1''
     \<lparr>es_kind = PackageSubject, es_value = ''core''\<rparr> None)
     \<lparr>vf_failure := Some (nf_signature (demo_rust_normal ''e0''))\<rparr>"

definition demo_passed :: "nat \<Rightarrow> verification_fact" where
  "demo_passed n = mk_fact n VerifiedPassed RustCompilerKind ''cortexweave.rust_compiler'' ''1''
     \<lparr>es_kind = PackageSubject, es_value = ''core''\<rparr> None"

lemma demo_classified:
  "classify_observation demo_service (demo_rust ''e0'') 0
     = Inr (Inr (VerificationObserved demo_failed))"
  "classify_observation demo_service demo_tool_evidence 1 = Inr (Inr (AttemptAction False))"
  "classify_observation demo_service (demo_pass_evidence i) n
     = Inr (Inr (VerificationObserved (demo_passed n)))"
proof -
  have "normalize demo_normalizers (demo_rust ''e0'') = Inr (Normalized (demo_rust_normal ''e0''))"
    by (rule demo_rust_registered [OF demo_normalizers_ok])
  then show "classify_observation demo_service (demo_rust ''e0'') 0
      = Inr (Inr (VerificationObserved demo_failed))"
    by (simp add: classify_observation_def normalized_failure_def no_panic_def demo_service_def
        observed_fact_def demo_rust_def demo_failed_def mk_fact_def exit_status_def
        is_user_acceptance_def)
  show "classify_observation demo_service demo_tool_evidence 1 = Inr (Inr (AttemptAction False))"
    by (simp add: classify_observation_def observed_fact_def demo_tool_evidence_def)
  obtain m where "normalize demo_normalizers (demo_pass_evidence i) = Inr (Refused m)"
    using demo_pass_refused by blast
  then show "classify_observation demo_service (demo_pass_evidence i) n
      = Inr (Inr (VerificationObserved (demo_passed n)))"
    by (simp add: classify_observation_def normalized_failure_def no_panic_def demo_service_def
        observed_fact_def demo_pass_evidence_def demo_passed_def mk_fact_def exit_status_def
        is_user_acceptance_def)
qed

section \<open>Consolidated\<close>

definition demo_ids :: "nat \<Rightarrow> string" where "demo_ids k = CHR ''i'' # digits k"

definition demo_episode :: episode where
  "demo_episode =
     \<lparr>ep_id = ''ep'', ep_workspace_id = ''w'', ep_session_id = ''s'', ep_task_id = None,
      ep_type = DebuggingEpisode, ep_status = ClosedEpisode, ep_title = None,
      ep_created_by = UserCreator, ep_version = 2, ep_started_at = 0, ep_ended_at = Some 1,
      ep_created_at = 0\<rparr>"

abbreviation demo_preview :: "cortex_error + consolidation_preview" where
  "demo_preview \<equiv> extract_proposal demo_service (\<lambda>_. Inr demo_digest) demo_ids 0
     demo_episode demo_events demo_digest"

definition demo_extraction :: extraction where
  "demo_extraction =
     \<lparr>ex_initial = Some demo_failed, ex_supporting = [],
      ex_attempts = [\<lparr>ba_changes = [1], ba_following = Some (demo_passed 2),
        ba_additional = [demo_passed 3], ba_result = AttemptPassed\<rparr>],
      ex_pending = [], ex_snapshot_required = False, ex_diagnostics = []\<rparr>"

lemma demo_steps: "event_steps demo_service 0 demo_events no_extraction = Inr demo_extraction"
proof -
  have svc: "cs_decoders demo_service = demo_decoders" "cs_serde demo_service = demo_episode_serde"
    by (simp_all add: demo_service_def)
  have facts: "vf_status demo_failed = VerifiedFailed" "vf_failure demo_failed \<noteq> None"
    "vf_status (demo_passed n) = VerifiedPassed" "vf_scope (demo_passed n) = vf_scope demo_failed" for n
    by (simp_all add: demo_failed_def demo_passed_def mk_fact_def)
  show ?thesis
    by (simp add: demo_events_def event_step_def svc demo_episode_decoded observation_step_def
        demo_classified [unfolded One_nat_def] result_step_def first_result_step_def action_step_def attempt_step_def
        attempt_result_for_def supports_initial_scope_def is_user_acceptance_def is_positive_def
        facts no_extraction_def demo_extraction_def terminal_step_def eligible_terminal_fact_def
        extend_last_def eval_nat_numeral)
qed

abbreviation demo_observed_failure :: failure_signature where
  "demo_observed_failure \<equiv> nf_signature (demo_rust_normal ''e0'')"

definition demo_observation :: "nat \<Rightarrow> string \<Rightarrow> verification_observation" where
  "demo_observation k i =
     \<lparr>vo_ordinal = k, vo_status = VerifiedPassed, vo_kind = RustCompilerKind,
      vo_subject = \<lparr>es_kind = PackageSubject, es_value = ''core''\<rparr>, vo_evidence_event_id = i,
      vo_rule_id = ''cortexweave.rust_compiler'', vo_rule_version = ''1''\<rparr>"

definition demo_verification :: experience_verification where
  "demo_verification =
     \<lparr>ev_status = VerifiedPassed,
      ev_observations = [demo_observation 0 ''e2'', demo_observation 1 ''e3''], ev_reasons = []\<rparr>"

definition demo_attempt :: experience_attempt where
  "demo_attempt =
     \<lparr>attempt_id = ''i1'', attempt_workspace_id = ''w'', attempt_experience_id = ''i0'',
      attempt_ordinal = 0, attempt_result_of = AttemptPassed, attempt_change_ordinals = [1],
      attempt_following_ordinal = Some 2\<rparr>"

definition demo_link :: "nat \<Rightarrow> evidence_relation \<Rightarrow> string \<Rightarrow> evidence_link" where
  "demo_link k r i = \<lparr>link_ordinal = k, link_relation = r, link_event_id = i\<rparr>"

definition demo_experience :: experience where
  "demo_experience =
     \<lparr>exp_id = ''i0'', exp_workspace_id = ''w'', exp_session_id = ''s'', exp_task_id = None,
      exp_episode_id = ''ep'', exp_failure_signature = Some demo_observed_failure,
      exp_outcome = SuccessOutcome, exp_verification = demo_verification,
      exp_summary = render_summary (Some demo_observed_failure) SuccessOutcome demo_verification 1,
      exp_evidence_strength = \<lparr>sa_strength = Strong, sa_bases = [TemporalAssociation,
        DeterministicVerifier, RepeatedDeterministicEvidence]\<rparr>,
      exp_extractor_id = extractor_id, exp_extractor_version = extractor_version,
      exp_summary_renderer_version = experience_summary_renderer_version,
      exp_canonicalization_version = experience_canonicalization_version,
      exp_consolidation_fingerprint = demo_digest, exp_proposal_hash = demo_digest,
      exp_created_at = 0\<rparr>"

definition demo_record :: experience_record where
  "demo_record =
     \<lparr>er_experience = demo_experience, er_attempts = [demo_attempt],
      er_evidence = [demo_link 0 InitialFailure ''e0'', demo_link 1 AttemptChange ''e1'',
        demo_link 2 AttemptVerification ''e2'', demo_link 3 TerminalVerification ''e3''],
      er_code_snapshots = [], er_graph_snapshots = []\<rparr>"

definition demo_proposal :: experience_proposal where
  "demo_proposal =
     \<lparr>pr_record = demo_record, pr_fingerprint = demo_digest, pr_hash = demo_digest,
      pr_diagnostics = []\<rparr>"

lemmas demo_record_defs = demo_record_def demo_experience_def demo_verification_def
  demo_observation_def demo_attempt_def demo_link_def

lemma demo_proposed: "demo_preview = Inr (Proposal demo_proposal Automatic)"
proof -
  have idx: "vf_event_index demo_failed = 0" "vf_event_index (demo_passed n) = n" for n
    by (simp_all add: demo_failed_def demo_passed_def mk_fact_def)
  have rel: "relations_of False demo_failed [] (ex_attempts demo_extraction)
      = [(0, InitialFailure), (1, AttemptChange), (2, AttemptVerification),
         (3, TerminalVerification)]"
    by (simp add: relations_of_def relation_entries_def attempt_entries_def demo_extraction_def idx
        btree_of_def)
  have fin: "final_attempts demo_extraction = ex_attempts demo_extraction"
    by (simp add: final_attempts_def demo_extraction_def)
  have facts: "vf_failure demo_failed = Some (nf_signature (demo_rust_normal ''e0''))"
    "vf_status (demo_passed n) = VerifiedPassed" "vf_kind (demo_passed n) = RustCompilerKind"
    "vf_scope (demo_passed n) = vf_scope demo_failed"
    "vf_scope demo_failed = \<lparr>sk_rule_id = ''cortexweave.rust_compiler'', sk_rule_version = ''1'',
       sk_subject = \<lparr>es_kind = PackageSubject, es_value = ''core''\<rparr>, sk_detail_fingerprint = None\<rparr>" for n
    by (simp_all add: demo_failed_def demo_passed_def mk_fact_def)
  have out: "outcome_for False [demo_passed 2, demo_passed 3] demo_failed = Inr (SuccessOutcome, VerifiedPassed)"
    by (simp add: outcome_for_def terminal_outcome_def supports_initial_scope_def conflicting_def
        is_user_acceptance_def is_positive_def facts)
  have terminal: "terminal_facts False (ex_attempts demo_extraction) = Inr [demo_passed 2, demo_passed 3]"
    by (simp add: terminal_facts_def demo_extraction_def)
  have ids: "event_id_at demo_events 0 = Inr ''e0''" "event_id_at demo_events 1 = Inr ''e1''"
    "event_id_at demo_events 2 = Inr ''e2''" "event_id_at demo_events 3 = Inr ''e3''"
    by (simp_all add: event_id_at_def demo_events_def demo_e0_def demo_e1_def demo_e2_def demo_e3_def
        demo_episode_event_def)
  have ex: "ex_diagnostics demo_extraction = []" "ex_initial demo_extraction = Some demo_failed" "ex_pending demo_extraction = []"
    "ex_supporting demo_extraction = []" "ex_snapshot_required demo_extraction = False"
    "ex_attempts demo_extraction = [\<lparr>ba_changes = [1], ba_following = Some (demo_passed 2),
       ba_additional = [demo_passed 3], ba_result = AttemptPassed\<rparr>]"
    by (simp_all add: demo_extraction_def)
  have ep: "ep_status demo_episode = ClosedEpisode" "ep_workspace_id demo_episode = ''w''"
    "ep_session_id demo_episode = ''s''" "ep_task_id demo_episode = None" "ep_id demo_episode = ''ep''"
    by (simp_all add: demo_episode_def)
  have dg: "digits 0 = ''0''" "digits (Suc 0) = ''1''" by code_simp+
  show ?thesis
    using rel terminal ids
    by (simp add: dg extract_proposal_def demo_steps finish_extraction_def facts fin ex ep out Let_def
        propose_def build_record_def observation_of_def evidence_link_of_def relation_ordinal_def
        experience_attempt_of_def idx demo_proposal_def demo_record_defs experience_from_draft_def review_reasons_def
        disposition_of_def is_user_acceptance_def demo_ids_def strength_of_def repeated_facts_def)
qed

lemma demo_finished:
  "\<exists>p. demo_preview = Inr (Proposal p Automatic) \<and> pr_hash p = demo_digest
    \<and> exp_outcome (er_experience (pr_record p)) = SuccessOutcome
    \<and> exp_summary (er_experience (pr_record p)) = render_summary
        (Some (nf_signature (demo_rust_normal ''e0''))) SuccessOutcome
        (exp_verification (er_experience (pr_record p))) 1
    \<and> ev_status (exp_verification (er_experience (pr_record p))) = VerifiedPassed
    \<and> er_attempts (pr_record p) = [\<lparr>attempt_id = ''i1'', attempt_workspace_id = ''w'',
        attempt_experience_id = ''i0'', attempt_ordinal = 0, attempt_result_of = AttemptPassed,
        attempt_change_ordinals = [1], attempt_following_ordinal = Some 2\<rparr>]
    \<and> ev_observations (exp_verification (er_experience (pr_record p))) =
        [\<lparr>vo_ordinal = 0, vo_status = VerifiedPassed, vo_kind = RustCompilerKind,
          vo_subject = \<lparr>es_kind = PackageSubject, es_value = ''core''\<rparr>,
          vo_evidence_event_id = ''e2'', vo_rule_id = ''cortexweave.rust_compiler'',
          vo_rule_version = ''1''\<rparr>,
         \<lparr>vo_ordinal = 1, vo_status = VerifiedPassed, vo_kind = RustCompilerKind,
          vo_subject = \<lparr>es_kind = PackageSubject, es_value = ''core''\<rparr>,
          vo_evidence_event_id = ''e3'', vo_rule_id = ''cortexweave.rust_compiler'',
          vo_rule_version = ''1''\<rparr>]
    \<and> sa_strength (exp_evidence_strength (er_experience (pr_record p))) = Strong"
  by (simp add: demo_proposed demo_proposal_def demo_record_defs)

lemma demo_failure_fields:
  "sig_domain (nf_signature (demo_rust_normal ''e0'')) = RustCompilerDomain"
  "fs_target (sig_scope (nf_signature (demo_rust_normal ''e0''))) = Some ''core''"
proof -
  have "sig_domain (nf_signature (demo_rust_normal ''e0'')) = RustCompilerDomain
      \<and> fs_target (sig_scope (nf_signature (demo_rust_normal ''e0''))) = Some ''core''"
    using demo_rust_normalized(1) [of "''e0''"]
    by (rule normalize_rust_Normalized) (auto simp: signature_new_Inr demo_rust_def scope_of_def)
  then show "sig_domain (nf_signature (demo_rust_normal ''e0'')) = RustCompilerDomain"
    "fs_target (sig_scope (nf_signature (demo_rust_normal ''e0''))) = Some ''core''" by simp_all
qed

text \<open>The summary is short.\<close>

lemma demo_summary_length:
  assumes "ev_status v = VerifiedPassed"
    and "map verified_subject (ev_observations v) = [''package core'', ''package core'']"
  shows "length (render_summary (Some (nf_signature (demo_rust_normal ''e0''))) SuccessOutcome v 1)
    \<le> 4096"
proof -
  have "length (domain_as_str RustCompilerDomain) \<le> 100" "length (status_as_str VerifiedPassed) \<le> 100"
    "length (outcome_as_str SuccessOutcome) \<le> 100" "length (digits 1) \<le> 100"
    by code_simp+
  moreover have "ev_observations v \<noteq> []" using assms(2) by auto
  ultimately show ?thesis
    using assms by (simp add: render_summary_def demo_failure_fields Let_def)
qed

end
