(* ===== verification/ConsolidationResults.thy ===== *)
theory ConsolidationResults
  imports ConsolidationDemo
begin

text \<open>
  What consolidation promises: it never panics, and the record it proposes is a faithful account of
  the episode in the order of its events, with the event behind every attempt and every result.  The invariant \<open>sequence_inv\<close> of the loop over the events carries all of it.
\<close>

section \<open>Facts come from events\<close>

definition fact_observed ::
    "consolidation_service \<Rightarrow> (nat \<times> cortex_event) list \<Rightarrow> verification_fact \<Rightarrow> bool" where
  "fact_observed svc events f \<longleftrightarrow> vf_event_index f < length events
     \<and> (\<exists>e. decode (cs_decoders svc) (cs_serde svc) (snd (events ! vf_event_index f)) = Inr (Decoded e)
          \<and> classify_observation svc e (vf_event_index f) = Inr (Inr (VerificationObserved f)))"

definition action_observed ::
    "consolidation_service \<Rightarrow> (nat \<times> cortex_event) list \<Rightarrow> nat \<Rightarrow> bool \<Rightarrow> bool" where
  "action_observed svc events i s \<longleftrightarrow> i < length events
     \<and> (\<exists>e. decode (cs_decoders svc) (cs_serde svc) (snd (events ! i)) = Inr (Decoded e)
          \<and> classify_observation svc e i = Inr (Inr (AttemptAction s)))"

lemma mk_fact_simps [simp]:
  "vf_event_index (mk_fact i s k r v su d) = i" "vf_status (mk_fact i s k r v su d) = s"
  "vf_kind (mk_fact i s k r v su d) = k" "vf_failure (mk_fact i s k r v su d) = None"
  by (simp_all add: mk_fact_def)

lemma observed_fact_VerificationObserved:
  assumes "observed_fact svc i obs = Inr (VerificationObserved f)"
  shows "vf_event_index f = i" and "vf_failure f = None"
    and "vf_status f \<in> {VerifiedPassed, VerifiedFailed, ExplicitlyAccepted}"
    and "vf_kind f \<noteq> NoKind"
    and "vf_kind f = UserAcceptanceKind \<longleftrightarrow> vf_status f = ExplicitlyAccepted"
  using assms
  by (auto simp: observed_fact_def test_run_fact_def verifier_fact_def exit_status_def
      result_simps Let_def
      split: evidence_observation.splits if_splits option.splits eligibility_status.splits
        sum.splits verification_result.splits)

lemma observed_fact_action:
  "observed_fact svc i obs = Inr (AttemptAction s) \<longleftrightarrow>
     (s = False \<and> (\<exists>t. obs = ExternalToolCompletion t)) \<or> (s = True \<and> (\<exists>c. obs = SourceChange c))"
  by (cases obs) (auto simp: observed_fact_def result_simps)

lemma classify_VerificationObserved:
  assumes "classify_observation svc e i = Inr (Inr (VerificationObserved f))"
  shows "vf_event_index f = i"
    and "vf_status f \<in> {VerifiedPassed, VerifiedFailed, ExplicitlyAccepted}"
    and "vf_status f = VerifiedFailed \<Longrightarrow> vf_failure f \<noteq> None"
    and "vf_kind f \<noteq> NoKind"
    and "vf_kind f = UserAcceptanceKind \<longleftrightarrow> vf_status f = ExplicitlyAccepted"
proof -
  obtain g where g: "observed_fact svc i (observation e) = Inr (VerificationObserved g)"
    and fg: "f = g \<and> is_user_acceptance g
       \<or> (\<exists>x. f = g\<lparr>vf_failure := x\<rparr> \<and> \<not> (vf_status g = VerifiedFailed \<and> x = None))"
    using assms by (auto simp: classify_observation_def result_simps
        split: sum.splits classified_observation.splits if_splits)
  note g' = observed_fact_VerificationObserved [OF g]
  show "vf_event_index f = i"
    and "vf_status f \<in> {VerifiedPassed, VerifiedFailed, ExplicitlyAccepted}"
    and "vf_kind f \<noteq> NoKind"
    and "vf_kind f = UserAcceptanceKind \<longleftrightarrow> vf_status f = ExplicitlyAccepted"
    using fg g' by auto
  show "vf_failure f \<noteq> None" if "vf_status f = VerifiedFailed"
    using fg that by (auto simp: is_user_acceptance_def)
qed

lemma classify_action:
  "classify_observation svc e i = Inr (Inr (AttemptAction s)) \<longleftrightarrow>
     observed_fact svc i (observation e) = Inr (AttemptAction s)"
  by (auto simp: classify_observation_def result_simps
      split: sum.splits classified_observation.splits if_splits)

lemma positive_or_failed:
  "fact_observed svc events f \<Longrightarrow> is_positive f \<longleftrightarrow> vf_status f \<noteq> VerifiedFailed"
  using classify_VerificationObserved(2) by (fastforce simp: fact_observed_def is_positive_def)

lemma observed_failure:
  "fact_observed svc events f \<Longrightarrow> vf_status f = VerifiedFailed \<Longrightarrow> vf_failure f \<noteq> None"
  using classify_VerificationObserved(3) by (fastforce simp: fact_observed_def)

text \<open>What an event is evidence of: the result of a verifier, or a user's acceptance.\<close>

definition verified_at ::
    "consolidation_service \<Rightarrow> (nat \<times> cortex_event) list \<Rightarrow> nat \<Rightarrow> bool" where
  "verified_at svc events i \<longleftrightarrow> (\<exists>f. fact_observed svc events f \<and> vf_event_index f = i
     \<and> vf_status f \<in> {VerifiedPassed, VerifiedFailed})"

definition accepted_at ::
    "consolidation_service \<Rightarrow> (nat \<times> cortex_event) list \<Rightarrow> nat \<Rightarrow> bool" where
  "accepted_at svc events i \<longleftrightarrow> (\<exists>f. fact_observed svc events f \<and> vf_event_index f = i
     \<and> vf_status f = ExplicitlyAccepted)"

lemma fact_observed_at:
  "fact_observed svc events f \<Longrightarrow> vf_event_index f = i
    \<Longrightarrow> verified_at svc events i \<or> vf_status f = ExplicitlyAccepted \<and> accepted_at svc events i"
  using classify_VerificationObserved(2) unfolding verified_at_def accepted_at_def fact_observed_def
  by blast

section \<open>The invariant of the loop\<close>

definition attempt_indexes :: "built_attempt \<Rightarrow> nat list" where
  "attempt_indexes a = ba_changes a
     @ (case ba_following a of None \<Rightarrow> [] | Some f \<Rightarrow> [vf_event_index f])
     @ map vf_event_index (ba_additional a)"

text \<open>The events that take part, in the order in which they are arranged.\<close>

definition timeline :: "verification_fact \<Rightarrow> nat list \<Rightarrow> built_attempt list \<Rightarrow> nat list" where
  "timeline f0 supporting attempts =
     vf_event_index f0 # supporting @ concat (map attempt_indexes attempts)"

definition attempt_ok ::
    "consolidation_service \<Rightarrow> (nat \<times> cortex_event) list \<Rightarrow> verification_fact \<Rightarrow> built_attempt \<Rightarrow> bool" where
  "attempt_ok svc events f0 a \<longleftrightarrow> ba_changes a \<noteq> []
     \<and> (\<forall>i \<in> set (ba_changes a). \<exists>s. action_observed svc events i s)
     \<and> (case ba_following a of
          None \<Rightarrow> ba_result a = InconclusiveAttempt \<and> ba_additional a = []
        | Some f \<Rightarrow> fact_observed svc events f \<and> supports_initial_scope f f0
            \<and> attempt_result_for f f0 = Some (ba_result a))
     \<and> (\<forall>g \<in> set (ba_additional a). fact_observed svc events g \<and> eligible_terminal_fact g f0)"

definition initial_ok ::
    "consolidation_service \<Rightarrow> (nat \<times> cortex_event) list \<Rightarrow> verification_fact \<Rightarrow> bool" where
  "initial_ok svc events f0 \<longleftrightarrow> fact_observed svc events f0 \<and> vf_status f0 = VerifiedFailed
     \<and> vf_failure f0 \<noteq> None"

definition changed_indexes :: "built_attempt list \<Rightarrow> nat list" where
  "changed_indexes attempts = concat (map ba_changes attempts)"

definition sequence_ok ::
    "consolidation_service \<Rightarrow> (nat \<times> cortex_event) list \<Rightarrow> nat \<Rightarrow> verification_fact \<Rightarrow> extraction \<Rightarrow> bool" where
  "sequence_ok svc events n f0 w \<longleftrightarrow> initial_ok svc events f0
     \<and> sorted_wrt (<) (timeline f0 (ex_supporting w) (ex_attempts w) @ ex_pending w)
     \<and> (\<forall>i \<in> set (timeline f0 (ex_supporting w) (ex_attempts w) @ ex_pending w). i < n)
     \<and> (\<forall>a \<in> set (ex_attempts w). attempt_ok svc events f0 a \<and> ba_following a \<noteq> None)
     \<and> (\<forall>i \<in> set (ex_pending w). \<exists>s. action_observed svc events i s)
     \<and> (\<forall>i \<in> set (ex_supporting w). verified_at svc events i)
     \<and> (ex_snapshot_required w \<longleftrightarrow> (\<exists>i \<in> set (changed_indexes (ex_attempts w) @ ex_pending w).
          action_observed svc events i True))"

definition sequence_inv ::
    "consolidation_service \<Rightarrow> (nat \<times> cortex_event) list \<Rightarrow> nat \<Rightarrow> extraction \<Rightarrow> bool" where
  "sequence_inv svc events n w \<longleftrightarrow> (case ex_initial w of
     None \<Rightarrow> ex_supporting w = [] \<and> ex_attempts w = [] \<and> ex_pending w = []
       \<and> \<not> ex_snapshot_required w
   | Some f0 \<Rightarrow> sequence_ok svc events n f0 w)"

lemma action_observed_unique:
  "action_observed svc events i s \<Longrightarrow> action_observed svc events i t \<Longrightarrow> s = t"
  by (auto simp: action_observed_def)

lemma sequence_inv_note [simp]:
  "sequence_inv svc events n (note_excluded c m k ev w) = sequence_inv svc events n w"
  by (cases "ex_initial w") (simp_all add: sequence_inv_def sequence_ok_def note_excluded_def)

lemma sequence_ok_Suc: "sequence_ok svc events n f0 w \<Longrightarrow> sequence_ok svc events (Suc n) f0 w"
  unfolding sequence_ok_def using less_SucI by blast

lemma sequence_inv_Suc: "sequence_inv svc events n w \<Longrightarrow> sequence_inv svc events (Suc n) w"
  by (cases "ex_initial w") (simp_all add: sequence_inv_def sequence_ok_Suc)

lemma timeline_snoc:
  "timeline f0 supporting (attempts @ [a]) = timeline f0 supporting attempts @ attempt_indexes a"
  by (simp add: timeline_def)

lemma extend_last_snoc:
  "attempts \<noteq> [] \<Longrightarrow> \<exists>as a. attempts = as @ [a]
     \<and> extend_last f attempts = as @ [a\<lparr>ba_additional := ba_additional a @ [f]\<rparr>]"
  by (rule exI [of _ "butlast attempts"], rule exI [of _ "last attempts"]) (simp add: extend_last_def)

lemma sequence_ok_action:
  assumes "sequence_ok svc events n f0 w" and "action_observed svc events n s"
  shows "sequence_ok svc events (Suc n) f0 (w\<lparr>ex_snapshot_required := (ex_snapshot_required w \<or> s),
    ex_pending := ex_pending w @ [n]\<rparr>)"
proof -
  let ?t = "timeline f0 (ex_supporting w) (ex_attempts w) @ ex_pending w"
  have t: "sorted_wrt (<) ?t" "\<forall>i \<in> set ?t. i < n"
    using assms(1) unfolding sequence_ok_def by blast+
  have sorted: "sorted_wrt (<) (?t @ [n])" using t by (simp add: sorted_wrt_append)
  have "ex_snapshot_required w \<longleftrightarrow> (\<exists>i \<in> set (changed_indexes (ex_attempts w) @ ex_pending w).
      action_observed svc events i True)"
    using assms(1) by (simp only: sequence_ok_def)
  moreover have "action_observed svc events n True \<longleftrightarrow> s"
    using action_observed_unique [OF assms(2)] assms(2) by (cases s) auto
  ultimately show ?thesis
    using assms sorted t(2) by (simp add: sequence_ok_def) (blast intro: less_SucI)
qed

lemma sequence_ok_repeat:
  assumes "sequence_ok svc events n f0 w" and "ex_pending w = []" and "ex_attempts w = []"
    and "verified_at svc events n"
  shows "sequence_ok svc events (Suc n) f0 (w\<lparr>ex_supporting := ex_supporting w @ [n]\<rparr>)"
  using assms by (auto simp: sequence_ok_def timeline_def sorted_wrt_append less_Suc_eq)

lemma sequence_ok_attempt:
  assumes "sequence_ok svc events n f0 w" and "ex_pending w \<noteq> []"
    and "fact_observed svc events f" and "vf_event_index f = n"
    and "supports_initial_scope f f0" and "attempt_result_for f f0 = Some r"
  shows "sequence_ok svc events (Suc n) f0 (w\<lparr>ex_pending := [],
    ex_attempts := ex_attempts w @ [\<lparr>ba_changes = ex_pending w, ba_following = Some f,
      ba_additional = [], ba_result = r\<rparr>]\<rparr>)"
  using assms
  by (auto simp: sequence_ok_def timeline_snoc attempt_indexes_def attempt_ok_def
      changed_indexes_def sorted_wrt_append less_Suc_eq)

lemma sequence_ok_terminal:
  assumes "sequence_ok svc events n f0 w" and "ex_pending w = []" and "ex_attempts w \<noteq> []"
    and "fact_observed svc events f" and "vf_event_index f = n" and "eligible_terminal_fact f f0"
  shows "sequence_ok svc events (Suc n) f0 (w\<lparr>ex_attempts := extend_last f (ex_attempts w)\<rparr>)"
proof -
  obtain as a where as: "ex_attempts w = as @ [a]"
    and "extend_last f (ex_attempts w) = as @ [a\<lparr>ba_additional := ba_additional a @ [f]\<rparr>]"
    using extend_last_snoc [OF assms(3)] by blast
  then have ext: "extend_last f (as @ [a]) = as @ [a\<lparr>ba_additional := ba_additional a @ [f]\<rparr>]"
    by simp
  have idx: "attempt_indexes (a\<lparr>ba_additional := ba_additional a @ [f]\<rparr>) = attempt_indexes a @ [n]"
    using assms(5) by (simp add: attempt_indexes_def)
  have changed: "changed_indexes (as @ [a\<lparr>ba_additional := ba_additional a @ [f]\<rparr>])
      = changed_indexes (as @ [a])" by (simp add: changed_indexes_def)
  have ok: "attempt_ok svc events f0 (a\<lparr>ba_additional := ba_additional a @ [f]\<rparr>)"
    if "attempt_ok svc events f0 a" "ba_following a \<noteq> None"
    using that assms(4,6) by (auto simp: attempt_ok_def)
  show ?thesis
    using assms(1,2) ok unfolding sequence_ok_def
    by (auto simp: ext as idx changed timeline_snoc sorted_wrt_append less_Suc_eq)
qed

lemma result_step_inv:
  assumes "sequence_inv svc events n w" and "fact_observed svc events f" and "vf_event_index f = n"
    and "result_step n k ev f w = Inr w'"
  shows "sequence_inv svc events (Suc n) w'"
proof (cases "ex_initial w")
  case None
  then have "ex_supporting w = []" "ex_attempts w = []" "ex_pending w = []"
    "\<not> ex_snapshot_required w"
    using assms(1) by (simp_all add: sequence_inv_def)
  moreover have "w' = w\<lparr>ex_initial := Some f\<rparr> \<and> vf_status f = VerifiedFailed \<and> vf_failure f \<noteq> None
      \<or> (\<exists>c m. w' = note_excluded c m k ev w)"
    using assms(4) None by (auto simp: result_step_def first_result_step_def split: if_splits)
  ultimately show ?thesis
    using assms(2,3) None
    by (auto simp: sequence_inv_def sequence_ok_def initial_ok_def timeline_def note_excluded_def
        changed_indexes_def)
next
  case (Some f0)
  then have inv: "sequence_ok svc events n f0 w" using assms(1) by (simp add: sequence_inv_def)
  have keep: "sequence_inv svc events (Suc n) v"
    if "sequence_ok svc events (Suc n) f0 v" "ex_initial v = Some f0" for v
    using that by (simp add: sequence_inv_def)
  consider (repeat) "ex_pending w = []" "ex_attempts w = []" "exact_repeat f f0"
      "w' = w\<lparr>ex_supporting := ex_supporting w @ [n]\<rparr>"
    | (attempt) r where "ex_pending w \<noteq> []" "supports_initial_scope f f0"
      "attempt_result_for f f0 = Some r"
      "w' = w\<lparr>ex_pending := [], ex_attempts := ex_attempts w @ [\<lparr>ba_changes = ex_pending w,
        ba_following = Some f, ba_additional = [], ba_result = r\<rparr>]\<rparr>"
    | (terminal) "ex_pending w = []" "ex_attempts w \<noteq> []" "eligible_terminal_fact f f0"
      "w' = w\<lparr>ex_attempts := extend_last f (ex_attempts w)\<rparr>"
    using assms(4) Some
    by (auto simp: result_step_def attempt_step_def terminal_step_def
        split: if_splits option.splits)
  then show ?thesis
  proof cases
    case repeat
    then have "verified_at svc events n"
      using assms(2,3) by (auto simp: verified_at_def exact_repeat_def)
    with repeat show ?thesis using sequence_ok_repeat [OF inv] Some by (auto intro!: keep)
  next
    case attempt
    then show ?thesis using sequence_ok_attempt [OF inv _ assms(2,3)] Some by (auto intro!: keep)
  next
    case terminal
    then show ?thesis using sequence_ok_terminal [OF inv _ _ assms(2,3)] Some by (auto intro!: keep)
  qed
qed

lemma event_step_inv:
  assumes "sequence_inv svc events n w" and "n < length events"
    and "event_step svc n (events ! n) w = Inr w'"
  shows "sequence_inv svc events (Suc n) w'"
proof -
  obtain k ev where ev: "events ! n = (k, ev)" by (cases "events ! n")
  consider (excluded) c m where "w' = note_excluded c m k ev w"
    | (observed) e where "decode (cs_decoders svc) (cs_serde svc) ev = Inr (Decoded e)"
      "observation_step svc n k ev e w = Inr w'"
    using assms(3) by (auto simp: event_step_def ev split: sum.splits decode_result.splits if_splits)
  then show ?thesis
  proof cases
    case excluded
    then show ?thesis using assms(1) by (simp add: sequence_inv_Suc)
  next
    case observed
    consider (action) s where "classify_observation svc e n = Inr (Inr (AttemptAction s))"
        "w' = action_step n k ev s w"
      | (result) f where "classify_observation svc e n = Inr (Inr (VerificationObserved f))"
        "result_step n k ev f w = Inr w'"
      using observed(2)
      by (auto simp: observation_step_def split: sum.splits prod.splits classified_observation.splits)
    then show ?thesis
    proof cases
      case action
      have act: "action_observed svc events n s"
        using observed(1) action(1) assms(2) by (auto simp: action_observed_def ev)
      show ?thesis
      proof (cases "ex_initial w")
        case None
        then show ?thesis using action(2) assms(1) by (simp add: action_step_def sequence_inv_Suc)
      next
        case (Some f0)
        then show ?thesis
          using action(2) assms(1) sequence_ok_action [OF _ act]
          by (auto simp: action_step_def sequence_inv_def)
      qed
    next
      case result
      have "vf_event_index f = n" using classify_VerificationObserved(1) [OF result(1)] .
      then have "fact_observed svc events f"
        using observed(1) result(1) assms(2) by (auto simp: fact_observed_def ev)
      then show ?thesis
        using result_step_inv [OF assms(1) _ \<open>vf_event_index f = n\<close> result(2)] by blast
    qed
  qed
qed

lemma event_steps_inv:
  "sequence_inv svc events n w \<Longrightarrow> event_steps svc n (drop n events) w = Inr w'
    \<Longrightarrow> sequence_inv svc events (max n (length events)) w'"
proof (induction "length events - n" arbitrary: n w)
  case 0
  then have "drop n events = []" "max n (length events) = n" by simp_all
  with 0 show ?case by simp
next
  case (Suc d)
  then have n: "n < length events" by simp
  then have "drop n events = events ! n # drop (Suc n) events" by (simp add: Cons_nth_drop_Suc)
  then obtain v where v: "event_step svc n (events ! n) w = Inr v"
    and rest: "event_steps svc (Suc n) (drop (Suc n) events) v = Inr w'"
    using Suc.prems(2) by (auto simp: and_then_eq_Inr)
  have "sequence_inv svc events (max (Suc n) (length events)) w'"
    using Suc.hyps(1) [OF _ event_step_inv [OF Suc.prems(1) n v] rest] Suc.hyps(2) by simp
  then show ?case using n by (simp add: max_def)
qed

lemma extraction_inv:
  "event_steps svc 0 events no_extraction = Inr w \<Longrightarrow> sequence_inv svc events (length events) w"
  using event_steps_inv [of svc events 0 no_extraction w]
  by (simp add: sequence_inv_def no_extraction_def)


section \<open>The record of a sequence\<close>

lemma attempt_entries_indexes: "map fst (attempt_entries abandoned n (k, a)) = attempt_indexes a"
  by (simp add: attempt_entries_def attempt_indexes_def comp_def split: option.split)

lemma relation_entries_indexes:
  "map fst (relation_entries abandoned f0 supporting attempts) = timeline f0 supporting attempts"
proof -
  have "map fst (concat (map (attempt_entries abandoned n) (enumerate k as)))
      = concat (map attempt_indexes as)" for n k as
    by (induction as arbitrary: k) (simp_all add: attempt_entries_indexes)
  then show ?thesis by (simp add: relation_entries_def timeline_def comp_def)
qed

lemma relations_of_sorted:
  "sorted_wrt (<) (timeline f0 supporting attempts)
    \<Longrightarrow> relations_of abandoned f0 supporting attempts = relation_entries abandoned f0 supporting attempts"
  by (simp add: relations_of_def btree_of_ordered relation_entries_indexes)

text \<open>The place of an event in the timeline.\<close>

definition place :: "nat list \<Rightarrow> nat \<Rightarrow> nat" where
  "place ixs i = length (takeWhile (\<lambda>j. j < i) ixs)"

lemma place_nth:
  assumes "sorted_wrt (<) ixs" and "i \<in> set ixs"
  shows "place ixs i < length ixs" and "ixs ! place ixs i = i"
proof -
  have "\<exists>k < length ixs. ixs ! k = i" using assms(2) by (simp add: in_set_conv_nth)
  then obtain k where k: "k < length ixs" "ixs ! k = i" by blast
  have "takeWhile (\<lambda>j. j < i) ixs = take k ixs"
  proof (rule takeWhile_eq_take_P_nth)
    show "ixs ! j < i" if "j < k" "j < length ixs" for j
      using sorted_wrt_nth_less [OF assms(1) that(1)] k by simp
  qed (use k in simp)
  then have "place ixs i = k" using k by (simp add: place_def)
  with k show "place ixs i < length ixs" "ixs ! place ixs i = i" by simp_all
qed

lemma place_less:
  assumes "sorted_wrt (<) ixs" and "i \<in> set ixs" and "j \<in> set ixs"
  shows "place ixs i < place ixs j \<longleftrightarrow> i < j"
  using place_nth [OF assms(1,2)] place_nth [OF assms(1,3)] assms(1)
  by (metis linorder_neqE_nat order_less_asym sorted_wrt_nth_less)

lemma relation_ordinal_place:
  assumes "sorted_wrt (<) (map fst relations)" and "i \<in> set (map fst relations)"
  shows "relation_ordinal relations i = Inr (place (map fst relations) i)"
proof -
  let ?ixs = "map fst relations"
  have "distinct ?ixs" using assms(1) by (rule ordered_distinct)
  then have "map_of (zip ?ixs [0..<length ?ixs]) (?ixs ! place ?ixs i)
      = Some ([0..<length ?ixs] ! place ?ixs i)"
    using place_nth(1) [OF assms] by (intro map_of_zip_nth) simp_all
  then have "map_of (zip ?ixs [0..<length relations]) i = Some (place ?ixs i)"
    using place_nth [OF assms] by simp
  then show ?thesis unfolding relation_ordinal_def by simp
qed

lemma try_map_total: "(\<And>x. x \<in> set xs \<Longrightarrow> f x = Inr (g x)) \<Longrightarrow> try_map f xs = Inr (map g xs)"
  by (induction xs) simp_all

text \<open>The record with its indexes resolved: what \<open>build_record\<close> returns when every event of the
  timeline exists.\<close>

definition observation_at ::
    "(nat \<times> cortex_event) list \<Rightarrow> nat \<times> verification_fact \<Rightarrow> verification_observation" where
  "observation_at events = (\<lambda>(k, f).
     \<lparr>vo_ordinal = k, vo_status = vf_status f, vo_kind = vf_kind f,
      vo_subject = sk_subject (vf_scope f),
      vo_evidence_event_id = event_id (snd (events ! vf_event_index f)),
      vo_rule_id = sk_rule_id (vf_scope f), vo_rule_version = sk_rule_version (vf_scope f)\<rparr>)"

definition link_at :: "(nat \<times> cortex_event) list \<Rightarrow> nat \<times> nat \<times> evidence_relation \<Rightarrow> evidence_link" where
  "link_at events = (\<lambda>(k, i, r).
     \<lparr>link_ordinal = k, link_relation = r, link_event_id = event_id (snd (events ! i))\<rparr>)"

definition attempt_at ::
    "(nat \<Rightarrow> string) \<Rightarrow> string \<Rightarrow> string \<Rightarrow> nat list \<Rightarrow> nat \<times> built_attempt \<Rightarrow> experience_attempt" where
  "attempt_at new_id workspace experience ixs = (\<lambda>(k, a).
     \<lparr>attempt_id = new_id (Suc k), attempt_workspace_id = workspace,
      attempt_experience_id = experience, attempt_ordinal = k, attempt_result_of = ba_result a,
      attempt_change_ordinals = map (place ixs) (ba_changes a),
      attempt_following_ordinal = map_option (\<lambda>f. place ixs (vf_event_index f)) (ba_following a)\<rparr>)"

definition account ::
    "(nat \<Rightarrow> string) \<Rightarrow> timestamp \<Rightarrow> episode \<Rightarrow> (nat \<times> cortex_event) list \<Rightarrow> string
      \<Rightarrow> verification_fact \<Rightarrow> nat list \<Rightarrow> built_attempt list \<Rightarrow> verification_fact list
      \<Rightarrow> experience_outcome \<times> verification_status \<Rightarrow> experience_record" where
  "account new_id now ep events fingerprint f0 supporting attempts facts outcome =
     \<lparr>er_experience = experience_from_draft (new_id 0) now
        \<lparr>draft_workspace_id = ep_workspace_id ep, draft_session_id = ep_session_id ep,
         draft_task_id = ep_task_id ep, draft_episode_id = ep_id ep,
         draft_failure_signature = vf_failure f0, draft_outcome = fst outcome,
         draft_verification = \<lparr>ev_status = snd outcome,
           ev_observations = map (observation_at events) (enumerate 0 facts), ev_reasons = []\<rparr>,
         draft_evidence_strength = strength_of (ep_status ep = AbandonedEpisode) facts,
         draft_extractor_id = extractor_id, draft_extractor_version = extractor_version,
         draft_canonicalization_version = experience_canonicalization_version,
         draft_consolidation_fingerprint = fingerprint, draft_proposal_hash = [],
         draft_attempts = length attempts\<rparr>,
      er_attempts = map (attempt_at new_id (ep_workspace_id ep) (new_id 0)
        (timeline f0 supporting attempts)) (enumerate 0 attempts),
      er_evidence = map (link_at events) (enumerate 0
        (relation_entries (ep_status ep = AbandonedEpisode) f0 supporting attempts)),
      er_code_snapshots = [], er_graph_snapshots = []\<rparr>"

lemma exp_id_from_draft [simp]: "exp_id (experience_from_draft i now d) = i"
  by (simp add: experience_from_draft_def)

lemma build_record_account:
  assumes sorted: "sorted_wrt (<) (timeline f0 supporting attempts)"
    and within: "\<forall>i \<in> set (timeline f0 supporting attempts). i < length events"
    and facts: "\<forall>f \<in> set facts. vf_event_index f < length events"
  shows "build_record new_id now ep events fingerprint f0 supporting attempts facts outcome
    = Inr (account new_id now ep events fingerprint f0 supporting attempts facts outcome)"
proof -
  let ?ab = "ep_status ep = AbandonedEpisode"
  let ?t = "timeline f0 supporting attempts"
  let ?rel = "relation_entries ?ab f0 supporting attempts"
  have rel: "relations_of ?ab f0 supporting attempts = ?rel" using sorted by (rule relations_of_sorted)
  have keys: "map fst ?rel = ?t" by (rule relation_entries_indexes)
  have obs: "try_map (observation_of events) (enumerate 0 facts)
      = Inr (map (observation_at events) (enumerate 0 facts))"
    using facts by (intro try_map_total)
      (auto simp: observation_of_def observation_at_def event_id_at_def in_set_enumerate_eq)
  have "i < length events" if "(i, r) \<in> set ?rel" for i r
    using within keys that by (metis (no_types, lifting) fst_conv image_eqI image_set)
  then have links: "try_map (evidence_link_of events) (enumerate 0 ?rel)
      = Inr (map (link_at events) (enumerate 0 ?rel))"
    by (intro try_map_total)
      (auto simp: evidence_link_of_def link_at_def event_id_at_def in_set_enumerate_eq
        dest!: nth_mem)
  have ord: "relation_ordinal ?rel i = Inr (place ?t i)" if "i \<in> set ?t" for i
    using relation_ordinal_place [of ?rel i] sorted that by (simp add: keys)
  have idx: "set (attempt_indexes a) \<subseteq> set ?t" if "a \<in> set attempts" for a
    using that by (auto simp: timeline_def)
  have attempt: "experience_attempt_of new_id (ep_workspace_id ep) (new_id 0) ?rel (k, a)
      = Inr (attempt_at new_id (ep_workspace_id ep) (new_id 0) ?t (k, a))" if "a \<in> set attempts" for k a
  proof -
    have "try_map (relation_ordinal ?rel) (ba_changes a) = Inr (map (place ?t) (ba_changes a))"
      using idx [OF that] by (intro try_map_total ord) (auto simp: attempt_indexes_def)
    moreover have "relation_ordinal ?rel (vf_event_index f) = Inr (place ?t (vf_event_index f))"
      if "ba_following a = Some f" for f
      using idx [OF \<open>a \<in> set attempts\<close>] that by (intro ord) (auto simp: attempt_indexes_def)
    ultimately show ?thesis
      by (cases "ba_following a") (simp_all add: experience_attempt_of_def attempt_at_def)
  qed
  have built: "try_map (experience_attempt_of new_id (ep_workspace_id ep) (new_id 0) ?rel)
      (enumerate 0 attempts) = Inr (map (attempt_at new_id (ep_workspace_id ep) (new_id 0) ?t)
      (enumerate 0 attempts))"
    by (intro try_map_total) (auto simp: in_set_enumerate_eq intro!: attempt)
  show ?thesis
    unfolding build_record_def account_def Let_def rel obs links
    by (simp add: built)
qed


section \<open>What a proposal accounts for\<close>

definition accounted ::
    "consolidation_service \<Rightarrow> (nat \<times> cortex_event) list \<Rightarrow> bool \<Rightarrow> verification_fact \<Rightarrow> nat list
      \<Rightarrow> built_attempt list \<Rightarrow> verification_fact list \<Rightarrow> bool" where
  "accounted svc events abandoned f0 supporting attempts facts \<longleftrightarrow> initial_ok svc events f0
     \<and> sorted_wrt (<) (timeline f0 supporting attempts)
     \<and> (\<forall>i \<in> set (timeline f0 supporting attempts). i < length events)
     \<and> (\<forall>i \<in> set supporting. verified_at svc events i)
     \<and> attempts \<noteq> [] \<and> (\<forall>a \<in> set attempts. attempt_ok svc events f0 a)
     \<and> (if abandoned then facts = []
        else \<exists>f. ba_following (last attempts) = Some f \<and> facts = f # ba_additional (last attempts))"

lemma final_timeline:
  "timeline f0 (ex_supporting w) (final_attempts w)
    = timeline f0 (ex_supporting w) (ex_attempts w) @ ex_pending w"
  by (simp add: final_attempts_def timeline_def attempt_indexes_def)

lemma final_changes:
  "changed_indexes (final_attempts w) = changed_indexes (ex_attempts w) @ ex_pending w"
  by (simp add: final_attempts_def changed_indexes_def)

lemma sequence_accounted:
  assumes inv: "sequence_ok svc events (length events) f0 w"
    and terminal: "terminal_facts abandoned (final_attempts w) = Inr facts"
    and nonempty: "final_attempts w \<noteq> []"
  shows "accounted svc events abandoned f0 (ex_supporting w) (final_attempts w) facts"
proof -
  have "attempt_ok svc events f0 a" if "a \<in> set (final_attempts w)" for a
    using inv that
    by (auto simp: sequence_ok_def final_attempts_def attempt_ok_def split: if_splits)
  moreover have "initial_ok svc events f0" "\<forall>i \<in> set (ex_supporting w). verified_at svc events i"
    using inv unfolding sequence_ok_def by blast+
  moreover have "sorted_wrt (<) (timeline f0 (ex_supporting w) (final_attempts w))"
    "\<forall>i \<in> set (timeline f0 (ex_supporting w) (final_attempts w)). i < length events"
    using inv unfolding sequence_ok_def final_timeline by blast+
  moreover have "if abandoned then facts = [] else \<exists>f. ba_following (last (final_attempts w)) = Some f
      \<and> facts = f # ba_additional (last (final_attempts w))"
    using terminal by (auto simp: terminal_facts_def result_simps split: if_splits)
  ultimately show ?thesis using nonempty by (simp add: accounted_def)
qed

lemma accounted_facts:
  assumes "accounted svc events abandoned f0 supporting attempts facts" and "f \<in> set facts"
  shows "fact_observed svc events f" and "eligible_terminal_fact f f0"
proof -
  have a: "attempt_ok svc events f0 (last attempts)" "\<not> abandoned"
    "\<exists>g. ba_following (last attempts) = Some g \<and> facts = g # ba_additional (last attempts)"
    using assms by (auto simp: accounted_def split: if_splits)
  then show "fact_observed svc events f" using assms(2) by (auto simp: attempt_ok_def)
  have "eligible_terminal_fact g f0" if "supports_initial_scope g f0" for g
    using that by (auto simp: supports_initial_scope_def eligible_terminal_fact_def)
  then show "eligible_terminal_fact f f0" using a assms(2) by (auto simp: attempt_ok_def)
qed

lemma accounted_within:
  assumes "accounted svc events abandoned f0 supporting attempts facts"
  shows "\<forall>f \<in> set facts. vf_event_index f < length events"
  using accounted_facts(1) [OF assms] by (auto simp: fact_observed_def)

definition proposal_of ::
    "(nat \<Rightarrow> string) \<Rightarrow> timestamp \<Rightarrow> episode \<Rightarrow> (nat \<times> cortex_event) list \<Rightarrow> string
      \<Rightarrow> verification_fact \<Rightarrow> nat list \<Rightarrow> built_attempt list \<Rightarrow> verification_fact list
      \<Rightarrow> experience_outcome \<times> verification_status \<Rightarrow> string \<Rightarrow> experience_record" where
  "proposal_of new_id now ep events fingerprint f0 supporting attempts facts outcome h =
     (let r = account new_id now ep events fingerprint f0 supporting attempts facts outcome
      in r\<lparr>er_experience := (er_experience r)\<lparr>exp_proposal_hash := h\<rparr>\<rparr>)"

lemma event_step_stops:
  assumes "event_step svc i e w = Inl (Inr x)"
  shows "\<exists>r ds. x = NoResult r ds"
  using assms
  by (auto simp: event_step_def observation_step_def result_step_def first_result_step_def
      attempt_step_def terminal_step_def no_result_def
      split: prod.splits sum.splits decode_result.splits classified_observation.splits
        option.splits if_splits)

lemma event_steps_stop: "event_steps svc i es w = Inl (Inr x) \<Longrightarrow> \<exists>r ds. x = NoResult r ds"
  by (induction es arbitrary: i w) (auto simp: and_then_eq_Inl dest: event_step_stops)

lemma extract_Proposal:
  assumes "extract_proposal svc hash new_id now ep events fingerprint = Inr (Proposal p d)"
  obtains f0 supporting attempts facts outcome snapshot where
    "accounted svc events (ep_status ep = AbandonedEpisode) f0 supporting attempts facts"
    and "outcome_for (ep_status ep = AbandonedEpisode) facts f0 = Inr outcome"
    and "pr_record p = proposal_of new_id now ep events fingerprint f0 supporting attempts facts
       outcome (pr_hash p)"
    and "pr_fingerprint p = fingerprint"
    and "d = disposition_of (review_reasons snapshot (list_ex is_user_acceptance facts)
       (ep_status ep = AbandonedEpisode))"
    and "snapshot \<longleftrightarrow> (\<exists>i \<in> set (changed_indexes attempts). action_observed svc events i True)"
proof -
  let ?ab = "ep_status ep = AbandonedEpisode"
  from assms obtain w where w: "event_steps svc 0 events no_extraction = Inr w"
    and fin: "finish_extraction hash new_id now ep events fingerprint w = Inr (Proposal p d)"
    by (auto simp: extract_proposal_def split: sum.splits dest: event_steps_stop)
  from fin obtain f0 where f0: "ex_initial w = Some f0"
    by (auto simp: finish_extraction_def no_result_def split: option.splits)
  have inv: "sequence_ok svc events (length events) f0 w"
    using extraction_inv [OF w] f0 by (simp add: sequence_inv_def)
  have ne: "final_attempts w \<noteq> []"
    using fin f0 by (auto simp: finish_extraction_def no_result_def result_simps split: if_splits)
  then obtain facts where facts: "terminal_facts ?ab (final_attempts w) = Inr facts"
    and decided: "(case outcome_for ?ab facts f0 of
        Inl (reason, c, m) \<Rightarrow> Inr (no_result reason c m None None)
      | Inr outcome \<Rightarrow> propose hash new_id now ep events fingerprint f0 w facts outcome)
      = Inr (Proposal p d)"
    using fin f0
    by (auto simp: finish_extraction_def no_result_def and_then_eq_Inr Let_def
        simp del: split_paired_All split_paired_Ex split: if_splits)
  then obtain outcome where outcome: "outcome_for ?ab facts f0 = Inr outcome"
    and rest: "propose hash new_id now ep events fingerprint f0 w facts outcome = Inr (Proposal p d)"
    by (cases "outcome_for ?ab facts f0") (auto simp: no_result_def)
  have acc: "accounted svc events ?ab f0 (ex_supporting w) (final_attempts w) facts"
    by (rule sequence_accounted [OF inv facts ne])
  then have "build_record new_id now ep events fingerprint f0 (ex_supporting w)
      (final_attempts w) facts outcome = Inr (account new_id now ep events fingerprint f0
        (ex_supporting w) (final_attempts w) facts outcome)"
    using accounted_within [OF acc] unfolding accounted_def by (intro build_record_account) blast+
  then show thesis
    using rest inv unfolding sequence_ok_def final_changes [symmetric]
    by (intro that [OF acc outcome, of "ex_snapshot_required w"])
      (auto simp: propose_def proposal_of_def Let_def and_then_eq_Inr)
qed


section \<open>Nothing panics\<close>

lemma classify_total:
  assumes "standard_services blake3 svc"
    and "decode (cs_decoders svc) (cs_serde svc) ev = Inr (Decoded e)"
  shows "\<exists>r. classify_observation svc e i = Inr r"
proof -
  obtain x where "normalize (cs_normalizers svc) e = Inr x"
    using normalize_total [of "cs_serde svc" "cs_decoders svc" ev e blake3 "cs_normalizers svc"] assms
    by (auto simp: standard_services_def)
  then show ?thesis
    by (auto simp: classify_observation_def normalized_failure_def refused_failure_def no_panic_def
        split: sum.split classified_observation.split)
qed

lemma attempt_result_total:
  assumes "fact_observed svc events f" and "initial_ok svc events f0"
  shows "attempt_result_for f f0 \<noteq> None"
  using observed_failure [OF assms(1)] positive_or_failed [OF assms(1)] assms(2)
  by (auto simp: attempt_result_for_def initial_ok_def)

lemma result_step_no_error:
  assumes "sequence_inv svc events n w" and "fact_observed svc events f"
  shows "result_step i k ev f w \<noteq> Inl (Inl err)"
proof (cases "ex_initial w")
  case (Some f0)
  then have "initial_ok svc events f0" using assms(1) by (simp add: sequence_inv_def sequence_ok_def)
  then obtain y where "attempt_result_for f f0 = Some y"
    using attempt_result_total [OF assms(2)] by blast
  then show ?thesis
    using Some by (auto simp: result_step_def attempt_step_def terminal_step_def)
qed (simp add: result_step_def first_result_step_def)

lemma event_step_no_error:
  assumes "standard_services blake3 svc" and "sequence_inv svc events n w" and "n < length events"
  shows "event_step svc n (events ! n) w \<noteq> Inl (Inl err)"
proof -
  obtain k ev where ev: "events ! n = (k, ev)" by (cases "events ! n")
  obtain r where r: "decode (cs_decoders svc) (cs_serde svc) ev = Inr r"
    using decode_total [of "cs_serde svc" "cs_decoders svc" ev] assms(1)
    unfolding standard_services_def by blast
  show ?thesis
  proof (cases r)
    case (Decoded e)
    obtain c where c: "classify_observation svc e n = Inr c"
      using classify_total [OF assms(1)] r Decoded by blast
    have "result_step n k ev f w \<noteq> Inl (Inl err)"
      if "c = Inr (VerificationObserved f)" for f
    proof (rule result_step_no_error [OF assms(2)])
      have "vf_event_index f = n" using classify_VerificationObserved(1) c that by blast
      then show "fact_observed svc events f"
        using c that r Decoded assms(3) by (auto simp: fact_observed_def ev)
    qed
    then show ?thesis
      using c r Decoded
      by (auto simp: event_step_def ev observation_step_def
          split: sum.split classified_observation.split)
  qed (use r in \<open>simp_all add: event_step_def ev\<close>)
qed

lemma event_steps_no_error:
  assumes "standard_services blake3 svc"
  shows "sequence_inv svc events n w \<Longrightarrow> event_steps svc n (drop n events) w \<noteq> Inl (Inl err)"
proof (induction "length events - n" arbitrary: n w)
  case 0
  then show ?case by simp
next
  case (Suc d)
  then have n: "n < length events" by simp
  then have drop: "drop n events = events ! n # drop (Suc n) events" by (simp add: Cons_nth_drop_Suc)
  have "event_steps svc (Suc n) (drop (Suc n) events) v \<noteq> Inl (Inl err)"
    if "event_step svc n (events ! n) w = Inr v" for v
    using Suc.hyps(1) [OF _ event_step_inv [OF Suc.prems n that]] Suc.hyps(2) by simp
  then show ?case
    using event_step_no_error [OF assms Suc.prems n] by (auto simp: drop and_then_eq_Inl)
qed

lemma finish_no_error:
  assumes inv: "sequence_inv svc events (length events) w"
    and status: "ep_status ep = ClosedEpisode \<or> ep_status ep = AbandonedEpisode"
    and err: "finish_extraction hash new_id now ep events fingerprint w = Inl e"
  shows "\<exists>r. hash r = Inl e"
proof (cases "ex_initial w")
  case None
  then show ?thesis using err by (simp add: finish_extraction_def)
next
  case (Some f0)
  let ?ab = "ep_status ep = AbandonedEpisode"
  have ok: "sequence_ok svc events (length events) f0 w" using inv Some by (simp add: sequence_inv_def)
  then have normalized: "vf_failure f0 \<noteq> None" by (simp add: sequence_ok_def initial_ok_def)
  have closed: "ex_pending w = [] \<or> ?ab" and ne: "final_attempts w \<noteq> []"
    using err Some normalized status by (auto simp: finish_extraction_def split: if_splits)
  have "\<exists>facts. terminal_facts ?ab (final_attempts w) = Inr facts"
  proof (cases ?ab)
    case False
    then have "final_attempts w = ex_attempts w" using closed by (simp add: final_attempts_def)
    then have "ba_following (last (final_attempts w)) \<noteq> None" using ok ne by (simp add: sequence_ok_def)
    then show ?thesis using False by (auto simp: terminal_facts_def)
  qed (simp add: terminal_facts_def)
  then obtain facts where facts: "terminal_facts ?ab (final_attempts w) = Inr facts" by blast
  have acc: "accounted svc events ?ab f0 (ex_supporting w) (final_attempts w) facts"
    by (rule sequence_accounted [OF ok facts ne])
  have built: "build_record new_id now ep events fingerprint f0 (ex_supporting w)
      (final_attempts w) facts outcome = Inr (account new_id now ep events fingerprint f0
        (ex_supporting w) (final_attempts w) facts outcome)" for outcome
    using acc accounted_within [OF acc] unfolding accounted_def
    by (intro build_record_account) blast+
  have guard: "\<not> (ex_pending w \<noteq> [] \<and> ep_status ep = ClosedEpisode)" using closed by auto
  obtain outcome where "propose hash new_id now ep events fingerprint f0 w facts outcome = Inl e"
    using err Some normalized ne facts guard
    by (cases "outcome_for ?ab facts f0")
      (auto simp: finish_extraction_def Let_def split: if_splits)
  then show ?thesis by (auto simp: propose_def built and_then_eq_Inl)
qed

text \<open>C35. Consolidation never panics: with the standard decoders and normalizers, extracting a
  proposal from the events of a closed or abandoned episode gives a preview, whatever the events
  hold.  The five \<open>expect\<close> calls and the indexing of events and ordinals on the way cannot fail,
  and the error for a failed result without a signature is never raised; the one error left is
  that of hashing the record.\<close>

theorem consolidation_never_panics:
  assumes "standard_services blake3 svc"
    and "ep_status ep = ClosedEpisode \<or> ep_status ep = AbandonedEpisode"
  shows "(\<exists>v. extract_proposal svc hash new_id now ep events fingerprint = Inr v)
    \<or> (\<exists>r e. hash r = Inl e \<and> extract_proposal svc hash new_id now ep events fingerprint = Inl e)"
proof (cases "event_steps svc 0 events no_extraction")
  case (Inl r)
  then show ?thesis
    using event_steps_no_error [OF assms(1), of events 0 no_extraction]
    by (cases r) (auto simp: extract_proposal_def sequence_inv_def no_extraction_def)
next
  case (Inr w)
  then show ?thesis
    using finish_no_error [OF extraction_inv [OF Inr] assms(2)]
    by (cases "finish_extraction hash new_id now ep events fingerprint w")
      (auto simp: extract_proposal_def)
qed



theorem consolidation_never_panics_witness:
  "standard_services demo_hash demo_service \<and> ep_status demo_episode = ClosedEpisode
   \<and> (\<exists>v. demo_preview = Inr v)"
  using consolidation_never_panics [OF demo_service_standard, of demo_episode "\<lambda>_. Inr demo_digest"]
    demo_service_standard by (auto simp: demo_episode_def)

end
