(* ===== verification/ConsolidationStored.thy ===== *)
theory ConsolidationStored
  imports ConsolidationResults ExperienceValidation
begin

text \<open>
  What a proposal of \<open>src/service/consolidation.rs\<close> says of its episode, and that storage accepts
  it: a proposed record passes \<open>validate_experience_record\<close> of \<open>src/storage/repositories.rs\<close>
  exactly when its sizes and texts fit.
\<close>

section \<open>Signatures\<close>

lemma signature_checked:
  assumes "signature_new blake3 d cap cs nid nver (scope_of w l t g p) = Inr s"
  shows "check_signature blake3 w s = Inr ()"
proof -
  have "fs_workspace_id (sig_scope s) = w"
    using assms by (auto simp: signature_new_Inr scope_of_def)
  moreover have "signature_new blake3 (sig_domain s) (identity_capability s) (sig_components s)
      (normalizer_id s) (normalizer_version s) (sig_scope s) = Inr s"
    using assms by (simp add: signature_new_Inr)
  ultimately show ?thesis by (simp add: check_signature_def and_then_eq_Inr)
qed

lemma normalized_signature_checked:
  assumes "normalization_standard blake3 = Inr reg" and "normalize reg e = Inr (Normalized n)"
  shows "check_signature blake3 (env_workspace_id (envelope e)) (nf_signature n) = Inr ()"
proof -
  obtain z where z: "map_of reg (contract_id (env_contract (envelope e))) = Some z"
    and norm: "nz_normalize z e = Inr (Normalized n)"
    using assms(2) by (auto simp: FailureNormalize.normalize_def split: option.splits)
  obtain rules where mem: "z \<in> set (standard_normalizers blake3 demo_profiles rules)"
    using standard_normalizer_lookup [OF assms(1) z] by blast
  let ?goal = "check_signature blake3 (env_workspace_id (envelope e)) (nf_signature n) = Inr ()"
  have "?goal" if "normalize_rust blake3 e = Normalized n"
    using that by (rule normalize_rust_Normalized) (rule signature_checked)
  moreover have "?goal" if "normalize_test_run blake3 demo_profiles e = Inr (Normalized n)"
    using that by (rule normalize_test_run_Normalized) (rule signature_checked)
  moreover have "?goal" if "normalize_cargo blake3 e = Normalized n"
    using that
    by (cases "observation e")
      (auto simp: normalize_cargo_def finish_and_then signature_Normalized Let_def
        dest: signature_checked split: if_splits)
  moreover have "?goal" if "normalize_tool blake3 rules e = Normalized n"
    using that
    by (cases "observation e")
      (auto simp: normalize_tool_def finish_and_then signature_Normalized Let_def
        dest: signature_checked split: if_splits)
  ultimately show ?thesis using mem norm by (auto simp: standard_normalizers_def)
qed

text \<open>The failure of an observed result was built for the workspace of its event.\<close>

lemma observed_signature_checked:
  assumes "standard_services blake3 svc" and "fact_observed svc events f" and "vf_failure f = Some s"
  shows "check_signature blake3 (event_workspace_id (snd (events ! vf_event_index f))) s = Inr ()"
proof -
  obtain e where dec: "decode (cs_decoders svc) (cs_serde svc) (snd (events ! vf_event_index f))
      = Inr (Decoded e)"
    and cls: "classify_observation svc e (vf_event_index f) = Inr (Inr (VerificationObserved f))"
    using assms(2) by (auto simp: fact_observed_def)
  obtain n where "normalize (cs_normalizers svc) e = Inr (Normalized n)" and "s = nf_signature n"
    using cls assms(3)
    by (auto simp: classify_observation_def normalized_failure_def no_panic_def result_simps
        dest: observed_fact_VerificationObserved(2)
        split: sum.splits classified_observation.splits if_splits normalization_result.splits)
  moreover have "env_workspace_id (envelope e) = event_workspace_id (snd (events ! vf_event_index f))"
    using decode_Decoded [OF dec] by (metis evidence_envelope.select_convs(2))
  ultimately show ?thesis
    using normalized_signature_checked [of blake3 "cs_normalizers svc" e n] assms(1)
    by (auto simp: standard_services_def)
qed

section \<open>The links of the record\<close>

lemma link_ordinals:
  "map link_ordinal (map (link_at events) (enumerate 0 entries)) = [0..<length entries]"
proof -
  have "map link_ordinal (map (link_at events) (enumerate 0 entries)) = map fst (enumerate 0 entries)"
    by (simp add: link_at_def case_prod_unfold del: map_fst_enumerate)
  then show ?thesis by simp
qed

lemma link_events:
  "map link_event_id (map (link_at events) (enumerate n entries))
     = map (\<lambda>i. event_id (snd (events ! i))) (map fst entries)"
  by (induction entries arbitrary: n) (auto simp: link_at_def)

lemma entry_place:
  assumes "sorted_wrt (<) (map fst entries)" and "(i, r) \<in> set entries"
  shows "place (map fst entries) i < length entries" and "entries ! place (map fst entries) i = (i, r)"
proof -
  let ?ixs = "map fst entries"
  obtain k where k: "k < length entries" "entries ! k = (i, r)"
    using assms(2) by (auto simp: in_set_conv_nth)
  then have "?ixs ! k = i" by simp
  have "i \<in> set ?ixs" using assms(2) by force
  note p = place_nth [OF assms(1) this]
  have "distinct ?ixs" using assms(1) by (rule ordered_distinct)
  then have "place ?ixs i = k"
    using p k \<open>?ixs ! k = i\<close> by (metis length_map nth_eq_iff_index_eq)
  with k show "place ?ixs i < length entries" "entries ! place ?ixs i = (i, r)" by simp_all
qed

lemma relation_at_place:
  assumes "sorted_wrt (<) (map fst entries)" and "(i, r) \<in> set entries"
  shows "relation_at (map (link_at events) (enumerate 0 entries)) (place (map fst entries) i) r"
  using entry_place [OF assms] by (simp add: relation_at_def nth_enumerate_eq link_at_def)

lemma place_inject:
  assumes "sorted_wrt (<) ixs" and "i \<in> set ixs" and "j \<in> set ixs"
  shows "place ixs i = place ixs j \<longleftrightarrow> i = j"
  using place_nth(2) [OF assms(1,2)] place_nth(2) [OF assms(1,3)] by metis

lemma distinct_places:
  assumes "sorted_wrt (<) ixs" and "set xs \<subseteq> set ixs" and "distinct xs"
  shows "distinct (map (place ixs) xs)"
  using assms place_inject [OF assms(1)] by (auto simp: distinct_map inj_on_def)

lemma distinct_concat_part:
  assumes "distinct (concat (map f xs))"
    and "\<And>x. distinct (f x) \<Longrightarrow> distinct (g x)" and "\<And>x. set (g x) \<subseteq> set (f x)"
  shows "distinct (concat (map g xs))"
  using assms(1)
proof (induction xs)
  case (Cons x xs)
  have "set (concat (map g xs)) \<subseteq> set (concat (map f xs))" using assms(3) by fastforce
  moreover have "distinct (f x)" "distinct (concat (map f xs))"
    "set (f x) \<inter> set (concat (map f xs)) = {}"
    using Cons.prems by (simp_all only: list.map concat.simps distinct_append)
  ultimately show ?case
    using Cons.IH assms(2,3) [of x] unfolding list.map concat.simps distinct_append by blast
qed simp

lemma distinct_places_of:
  assumes "sorted_wrt (<) (timeline f0 supporting attempts)"
    and "\<And>a. distinct (attempt_indexes a) \<Longrightarrow> distinct (g a)"
    and "\<And>a. set (g a) \<subseteq> set (attempt_indexes a)"
  shows "distinct (map (place (timeline f0 supporting attempts)) (concat (map g attempts)))"
proof (rule distinct_places [OF assms(1)])
  have "distinct (timeline f0 supporting attempts)" using assms(1) strict_sorted_iff by blast
  then have "distinct (concat (map attempt_indexes attempts))" by (simp add: timeline_def)
  then show "distinct (concat (map g attempts))"
    using assms(2,3) by (rule distinct_concat_part)
  show "set (concat (map g attempts)) \<subseteq> set (timeline f0 supporting attempts)"
    using assms(3) by (fastforce simp: timeline_def)
qed

text \<open>Which relation an event has.\<close>

definition followings :: "built_attempt \<Rightarrow> nat list" where
  "followings a = (case ba_following a of None \<Rightarrow> [] | Some f \<Rightarrow> [vf_event_index f])"

lemma attempt_indexes_followings:
  "attempt_indexes a = ba_changes a @ followings a @ map vf_event_index (ba_additional a)"
  by (simp add: attempt_indexes_def followings_def)

lemma attempt_entries_followings:
  "attempt_entries abandoned n (k, a) = map (\<lambda>i. (i, AttemptChange)) (ba_changes a)
     @ map (\<lambda>i. (i, AttemptVerification)) (followings a)
     @ map (\<lambda>f. (vf_event_index f,
         if \<not> abandoned \<and> k + 1 = n then TerminalVerification else Supporting)) (ba_additional a)"
  by (simp add: attempt_entries_def followings_def split: option.split)

lemma entries_of_attempts:
  "(i, r) \<in> set (relation_entries abandoned f0 supporting attempts) \<longleftrightarrow>
     i = vf_event_index f0 \<and> r = InitialFailure \<or> i \<in> set supporting \<and> r = Supporting
     \<or> (\<exists>k < length attempts. (i, r) \<in> set (attempt_entries abandoned (length attempts) (k, attempts ! k)))"
  by (auto simp: relation_entries_def in_set_enumerate_eq)

lemma in_concat_nth: "i \<in> set (concat (map g xs)) \<longleftrightarrow> (\<exists>k < length xs. i \<in> set (g (xs ! k)))"
  by (force simp: in_set_conv_nth [of _ xs])

lemma changed_entries:
  "(i, AttemptChange) \<in> set (relation_entries abandoned f0 supporting attempts)
     \<longleftrightarrow> i \<in> set (changed_indexes attempts)"
  unfolding changed_indexes_def in_concat_nth
  by (auto simp: entries_of_attempts attempt_entries_followings split: if_splits)

lemma following_entries:
  "(i, AttemptVerification) \<in> set (relation_entries abandoned f0 supporting attempts)
     \<longleftrightarrow> i \<in> set (concat (map followings attempts))"
  unfolding in_concat_nth
  by (auto simp: entries_of_attempts attempt_entries_followings split: if_splits)

lemma terminal_entries:
  "attempts \<noteq> [] \<Longrightarrow> (i, TerminalVerification) \<in> set (relation_entries abandoned f0 supporting attempts)
     \<longleftrightarrow> \<not> abandoned \<and> (\<exists>f \<in> set (ba_additional (last attempts)). i = vf_event_index f)"
  by (auto simp: entries_of_attempts attempt_entries_followings last_conv_nth split: if_splits)
    (metis One_nat_def Suc_eq_plus1 Suc_pred diff_Suc_1 length_greater_0_conv lessI image_eqI)

text \<open>The attempts of the record refer to the places of their events.\<close>

lemma record_changes:
  "concat (map attempt_change_ordinals (map (attempt_at new_id w x ixs) (enumerate n attempts)))
     = map (place ixs) (changed_indexes attempts)"
  by (induction attempts arbitrary: n) (auto simp: attempt_at_def changed_indexes_def)

lemma record_followings:
  "concat (map following_ordinals (map (attempt_at new_id w x ixs) (enumerate n attempts)))
     = map (place ixs) (concat (map followings attempts))"
  by (induction attempts arbitrary: n)
    (auto simp: attempt_at_def following_ordinals_def followings_def split: option.splits)

lemma record_attempt_ids:
  "map attempt_id (map (attempt_at new_id w x ixs) (enumerate n attempts))
     = map (\<lambda>k. new_id (Suc k)) [n..<n + length attempts]"
  by (induction attempts arbitrary: n) (auto simp: attempt_at_def upt_conv_Cons simp del: upt_Suc)

section \<open>The observations of the record\<close>

lemma observations_of_status:
  "map vo_subject (with_status_of s (map (observation_at events) (enumerate n facts)))
     = map (\<lambda>f. sk_subject (vf_scope f)) (filter (\<lambda>f. vf_status f = s) facts)"
  by (induction facts arbitrary: n) (auto simp: with_status_of_def observation_at_def)

lemma count_of_status:
  "length (with_status_of s (map (observation_at events) (enumerate n facts)))
     = length (filter (\<lambda>f. vf_status f = s) facts)"
  using arg_cong [OF observations_of_status, of length s events n facts] by simp

lemma none_of_status:
  "with_status_of s (map (observation_at events) (enumerate n facts)) = []
     \<longleftrightarrow> (\<forall>f \<in> set facts. vf_status f \<noteq> s)"
  using observations_of_status [of s events n facts] by (metis (mono_tags, lifting) Nil_is_map_conv filter_empty_conv)

lemma observation_ordinals:
  "map vo_ordinal (map (observation_at events) (enumerate 0 facts)) = [0..<length facts]"
proof -
  have "map vo_ordinal (map (observation_at events) (enumerate 0 facts)) = map fst (enumerate 0 facts)"
    by (simp add: observation_at_def case_prod_unfold del: map_fst_enumerate)
  then show ?thesis by simp
qed

lemma outcome_for_supported:
  assumes "outcome_for abandoned facts f0 = Inr outcome" and "abandoned \<Longrightarrow> facts = []"
    and "\<forall>f \<in> set facts. vf_status f \<in> {VerifiedPassed, VerifiedFailed, ExplicitlyAccepted}"
  shows "outcome_supported (fst outcome) \<lparr>ev_status = snd outcome,
      ev_observations = map (observation_at events) (enumerate 0 facts), ev_reasons = []\<rparr>"
proof -
  have some: "list_ex P facts \<longleftrightarrow> filter P facts \<noteq> []" for P :: "verification_fact \<Rightarrow> bool"
    by (auto simp: list_ex_iff filter_empty_conv)
  consider (abandoned) "outcome = (AbandonedOutcome, MissingStatus)"
    | (success) "outcome = (SuccessOutcome, ExplicitlyAccepted)" "list_all is_user_acceptance facts"
        "list_ex is_positive facts" "\<not> list_ex (\<lambda>f. vf_status f = VerifiedFailed) facts"
    | (passed) "outcome = (SuccessOutcome, VerifiedPassed)" "\<not> list_all is_user_acceptance facts"
        "list_ex is_positive facts" "\<not> list_ex (\<lambda>f. vf_status f = VerifiedFailed) facts"
    | (failure) "outcome = (FailureOutcome, VerifiedFailed)" "\<not> list_ex is_positive facts"
        "list_ex (\<lambda>f. vf_status f = VerifiedFailed) facts"
    | (partial) "outcome = (PartialSuccessOutcome, ConflictingStatus)" "list_ex is_positive facts"
        "list_ex (\<lambda>f. vf_status f = VerifiedFailed) facts" "\<not> conflicting facts"
    using assms(1) by (auto simp: outcome_for_def terminal_outcome_def split: if_splits bool.splits)
  then show ?thesis
  proof cases
    case abandoned
    then show ?thesis by (simp add: outcome_supported_def)
  next
    case success
    then have "\<exists>f \<in> set facts. vf_status f = ExplicitlyAccepted"
      by (auto simp: list_all_iff list_ex_iff is_user_acceptance_def)
    then show ?thesis
      using success by (auto simp: outcome_supported_def Let_def count_of_status none_of_status list_ex_iff
          filter_empty_conv)
  next
    case passed
    have "\<exists>f \<in> set facts. vf_status f = VerifiedPassed"
      using passed assms(3) by (auto simp: list_all_iff list_ex_iff is_user_acceptance_def)
    then show ?thesis
      using passed by (auto simp: outcome_supported_def Let_def count_of_status none_of_status list_ex_iff filter_empty_conv)
  next
    case failure
    then show ?thesis
      by (auto simp: outcome_supported_def Let_def count_of_status none_of_status list_ex_iff is_positive_def
          filter_empty_conv)
  next
    case partial
    obtain f g where f: "f \<in> set facts" "is_positive f" and g: "g \<in> set facts" "vf_status g = VerifiedFailed"
      using partial(2,3) by (auto simp: list_ex_iff)
    have "\<not> is_positive g" using g by (simp add: is_positive_def)
    then have "sk_subject (vf_scope g) \<noteq> sk_subject (vf_scope f)"
      using partial(4) f g by (auto simp: conflicting_def list_ex_iff)
    moreover have "sk_subject (vf_scope g) \<in> set (map vo_subject (with_status_of VerifiedFailed
        (map (observation_at events) (enumerate 0 facts))))"
      using g unfolding observations_of_status by auto
    moreover have "sk_subject (vf_scope f) \<in> set (map vo_subject (with_status_of VerifiedPassed
          (map (observation_at events) (enumerate 0 facts))
        @ with_status_of ExplicitlyAccepted (map (observation_at events) (enumerate 0 facts))))"
      using f unfolding observations_of_status map_append is_positive_def by auto
    ultimately have "list_ex (\<lambda>s. list_ex (\<lambda>f. f \<noteq> s) (map vo_subject (with_status_of VerifiedFailed
          (map (observation_at events) (enumerate 0 facts)))))
        (map vo_subject (with_status_of VerifiedPassed
          (map (observation_at events) (enumerate 0 facts))
        @ with_status_of ExplicitlyAccepted (map (observation_at events) (enumerate 0 facts))))"
      unfolding list_ex_iff by blast
    moreover have "\<exists>f \<in> set facts. vf_status f = VerifiedPassed \<or> vf_status f = ExplicitlyAccepted"
      using f by (auto simp: is_positive_def)
    ultimately show ?thesis
      using partial(1) g unfolding outcome_supported_def Let_def
      by (auto simp: none_of_status simp del: list_ex_append map_append list.map)
  qed
qed

lemma strength_checked:
  assumes "outcome_for abandoned facts f0 = Inr outcome" and "abandoned \<longleftrightarrow> facts = []"
    and "\<forall>f \<in> set facts. vf_status f \<in> {VerifiedPassed, VerifiedFailed, ExplicitlyAccepted}"
  shows "check_strength (fst outcome) (strength_of abandoned facts)
      (length (filter (\<lambda>f. vf_status f = VerifiedPassed) facts)
        + length (filter (\<lambda>f. vf_status f = VerifiedFailed) facts))
      (length (filter (\<lambda>f. vf_status f = ExplicitlyAccepted) facts)) = Inr ()"
proof (cases abandoned)
  case True
  then show ?thesis
    using assms by (auto simp: check_strength_def strength_of_def outcome_for_def repeated_facts_def
        and_then_eq_Inr)
next
  case False
  then obtain f where f: "f \<in> set facts" using assms(2) by (cases facts) auto
  have verified: "length (filter (\<lambda>f. vf_status f = VerifiedPassed) facts)
      + length (filter (\<lambda>f. vf_status f = VerifiedFailed) facts)
      = length (filter (\<lambda>f. \<not> is_user_acceptance f) facts)"
    using assms(3) by (induction facts) (auto simp: is_user_acceptance_def)
  have twice: "2 \<le> length (filter (\<lambda>f. \<not> is_user_acceptance f) facts)" if "repeated_facts facts"
  proof -
    have "\<forall>g \<in> set facts. \<not> is_user_acceptance g"
      using that by (auto simp: repeated_facts_def list_ex_iff)
    then have "filter (\<lambda>f. \<not> is_user_acceptance f) facts = facts" by (simp add: filter_id_conv)
    moreover have "2 \<le> length facts"
      using that f unfolding repeated_facts_def list_all_iff
      by (meson length_filter_le order_trans)
    ultimately show ?thesis by simp
  qed
  have "(\<exists>f \<in> set facts. is_user_acceptance f) \<or> (\<exists>f \<in> set facts. \<not> is_user_acceptance f)"
    using f by blast
  then show ?thesis
    using False twice
    by (auto simp: check_strength_def strength_of_def and_then_eq_Inr verified list_ex_iff
        filter_empty_conv is_user_acceptance_def)
qed

text \<open>Every rendered summary starts with a letter and ends with a full stop.\<close>

lemma strip_any_other:
  "\<forall>p \<in> set ps. p \<noteq> [] \<longrightarrow> hd p \<noteq> hd s \<Longrightarrow> strip_any ps s = s"
proof -
  assume other: "\<forall>p \<in> set ps. p \<noteq> [] \<longrightarrow> hd p \<noteq> hd s"
  have "\<not> prefix p s" if "p \<in> set ps" "p \<noteq> []" for p
    using other that by (auto simp: prefix_def)
  then have "find (\<lambda>p. p \<noteq> [] \<and> prefix p s) ps = None" by (auto simp: find_None_iff)
  then show "strip_any ps s = s" by (subst strip_any.simps) simp
qed

lemma trim_plain:
  assumes "s \<noteq> []" and "hd s \<notin> hd ` set ws_encodings" and "last s \<notin> last ` set ws_encodings"
  shows "trim s = s"
proof -
  have "strip_any ws_encodings s = s" using assms(2) by (intro strip_any_other) (metis imageI)
  moreover have "strip_any (map rev ws_encodings) (rev s) = rev s"
  proof (rule strip_any_other)
    have "hd (rev q) \<noteq> hd (rev s)" if "q \<in> set ws_encodings" for q
      using assms(1,3) that by (metis hd_rev imageI)
    then show "\<forall>p \<in> set (map rev ws_encodings). p \<noteq> [] \<longrightarrow> hd p \<noteq> hd (rev s)" by auto
  qed
  ultimately show ?thesis by (simp add: trim_def)
qed

lemma summary_not_blank: "\<not> blank (render_summary sg o' v n)"
proof -
  have "hd (render_summary sg o' v n) = CHR ''O''" "last (render_summary sg o' v n) = CHR ''.''"
    "render_summary sg o' v n \<noteq> []"
    by (cases sg; simp add: render_summary_def Let_def)+
  moreover have "CHR ''O'' \<notin> hd ` set ws_encodings" "CHR ''.'' \<notin> last ` set ws_encodings"
    by code_simp+
  ultimately show ?thesis using trim_plain [of "render_summary sg o' v n"] by (simp add: blank_def)
qed


section \<open>Storage accepts what fits\<close>

text \<open>What \<open>preview\<close> passes on: the bounded membership of one episode, each event once and of the
  episode's workspace, under ids that storage gave out.  The ids that \<open>Uuid::new_v4\<close> draws for the
  record and its attempts, of which there are at most as many as events, are bounded and fresh.\<close>

abbreviation bounded_id :: "string \<Rightarrow> bool" where
  "bounded_id v \<equiv> \<not> blank v \<and> length v \<le> 256"

definition episode_input :: "episode \<Rightarrow> (nat \<times> cortex_event) list \<Rightarrow> bool" where
  "episode_input ep events \<longleftrightarrow> length events \<le> max_episode_events
     \<and> distinct (map (\<lambda>x. event_id (snd x)) events)
     \<and> (\<forall>x \<in> set events. event_workspace_id (snd x) = ep_workspace_id ep)
     \<and> bounded_id (ep_id ep) \<and> bounded_id (ep_workspace_id ep) \<and> bounded_id (ep_session_id ep)"

definition fresh_ids :: "(nat \<Rightarrow> string) \<Rightarrow> bool" where
  "fresh_ids new_id \<longleftrightarrow> inj_on new_id {..max_episode_events}
     \<and> (\<forall>k \<le> max_episode_events. bounded_id (new_id k))"

definition within_storage :: "experience_record \<Rightarrow> bool" where
  "within_storage r \<longleftrightarrow> length (exp_summary (er_experience r)) \<le> 4096
     \<and> length (er_attempts r) \<le> max_experience_attempts
     \<and> length (ev_observations (exp_verification (er_experience r))) \<le> 16
     \<and> list_all storable_scope (ev_observations (exp_verification (er_experience r)))"

lemma proposal_of_fields [simp]:
  fixes new_id now ep events fingerprint f0 supporting attempts facts outcome h
  defines "r \<equiv> proposal_of new_id now ep events fingerprint f0 supporting attempts facts outcome h"
  shows "er_attempts r = map (attempt_at new_id (ep_workspace_id ep) (new_id 0)
      (timeline f0 supporting attempts)) (enumerate 0 attempts)"
    and "er_evidence r = map (link_at events) (enumerate 0
      (relation_entries (ep_status ep = AbandonedEpisode) f0 supporting attempts))"
    and "er_code_snapshots r = []" and "er_graph_snapshots r = []"
    and "exp_id (er_experience r) = new_id 0"
    and "exp_workspace_id (er_experience r) = ep_workspace_id ep"
    and "exp_session_id (er_experience r) = ep_session_id ep"
    and "exp_task_id (er_experience r) = ep_task_id ep"
    and "exp_episode_id (er_experience r) = ep_id ep"
    and "exp_failure_signature (er_experience r) = vf_failure f0"
    and "exp_outcome (er_experience r) = fst outcome"
    and "exp_verification (er_experience r) = \<lparr>ev_status = snd outcome,
      ev_observations = map (observation_at events) (enumerate 0 facts), ev_reasons = []\<rparr>"
    and "exp_evidence_strength (er_experience r)
      = strength_of (ep_status ep = AbandonedEpisode) facts"
    and "exp_summary (er_experience r) = render_summary (vf_failure f0) (fst outcome)
      (exp_verification (er_experience r)) (length attempts)"
    and "exp_extractor_id (er_experience r) = extractor_id"
    and "exp_extractor_version (er_experience r) = extractor_version"
    and "exp_summary_renderer_version (er_experience r) = experience_summary_renderer_version"
    and "exp_canonicalization_version (er_experience r) = experience_canonicalization_version"
    and "exp_consolidation_fingerprint (er_experience r) = fingerprint"
    and "exp_proposal_hash (er_experience r) = h"
  by (simp_all add: r_def proposal_of_def Let_def account_def experience_from_draft_def)

lemma timeline_parts:
  "vf_event_index f0 \<in> set (timeline f0 supporting attempts)"
  "a \<in> set attempts \<Longrightarrow> set (attempt_indexes a) \<subseteq> set (timeline f0 supporting attempts)"
  by (auto simp: timeline_def)

lemma distinct_event_ids:
  assumes "distinct (map (\<lambda>x. event_id (snd x)) events)" and "distinct ixs"
    and "\<forall>i \<in> set ixs. i < length events"
  shows "distinct (map (\<lambda>i. event_id (snd (events ! i))) ixs)"
proof -
  have "inj_on (\<lambda>i. event_id (snd (events ! i))) (set ixs)"
    using assms(1,3) by (auto simp: inj_on_def distinct_conv_nth)
  then show ?thesis using assms(2) by (simp add: distinct_map)
qed

lemma find_by_key:
  "distinct (map key xs) \<Longrightarrow> x \<in> set xs \<Longrightarrow> find (\<lambda>y. key y = key x) xs = Some x"
  by (induction xs) (auto simp: image_iff)

lemma timeline_length:
  assumes acc: "accounted svc events abandoned f0 supporting attempts facts"
  shows "length (timeline f0 supporting attempts) \<le> length events"
    and "length attempts \<le> length events"
proof -
  let ?T = "timeline f0 supporting attempts"
  have within: "\<forall>i \<in> set ?T. i < length events" and "sorted_wrt (<) ?T"
    and ok: "\<forall>a \<in> set attempts. attempt_ok svc events f0 a"
    using acc unfolding accounted_def by blast+
  then have "distinct ?T" using strict_sorted_iff by blast
  then show "length ?T \<le> length events"
    using within by (metis card_length card_lessThan card_mono distinct_card
        finite_lessThan lessThan_iff subsetI)
  have "length attempts \<le> length (concat (map attempt_indexes attempts))"
    using ok
  proof (induction attempts)
    case (Cons a as)
    then have "1 \<le> length (attempt_indexes a)"
      by (cases "ba_changes a") (auto simp: attempt_ok_def attempt_indexes_def)
    with Cons show ?case by simp
  qed simp
  also have "\<dots> \<le> length ?T" by (simp add: timeline_def)
  finally show "length attempts \<le> length events"
    using \<open>length ?T \<le> length events\<close> by simp
qed

lemma accounted_attempts_fine:
  assumes acc: "accounted svc events abandoned f0 supporting attempts facts" and "fresh_ids new_id"
    and "exp_workspace_id e = w" and "exp_id e = x" and few: "length attempts \<le> max_episode_events"
  shows "attempts_fine e (map (link_at events) (enumerate 0
      (relation_entries abandoned f0 supporting attempts)))
    (map (attempt_at new_id w x (timeline f0 supporting attempts)) (enumerate 0 attempts))"
proof -
  let ?T = "timeline f0 supporting attempts"
  let ?R = "relation_entries abandoned f0 supporting attempts"
  let ?ev = "map (link_at events) (enumerate 0 ?R)"
  have sorted: "sorted_wrt (<) ?T" using acc by (simp add: accounted_def)
  have T: "map fst ?R = ?T" by (rule relation_entries_indexes)
  have at: "relation_at ?ev (place ?T i) r \<and> place ?T i \<in> link_ordinal ` set ?ev" if "(i, r) \<in> set ?R" for i r
  proof -
    have "relation_at ?ev (place ?T i) r" using relation_at_place [of ?R i r events] sorted that
      by (simp add: T)
    moreover have "place ?T i \<in> set (map link_ordinal ?ev)"
      unfolding link_ordinals using entry_place(1) [of ?R i r] sorted that by (simp add: T)
    ultimately show ?thesis by (simp only: set_map)
  qed
  have "attempt_fine e ?ev (attempt_at new_id w x ?T (k, a))"
    if "a \<in> set attempts" and k: "k < length attempts" for k a
  proof -
    have "bounded_id (new_id (Suc k))" using assms(2) few k by (simp add: fresh_ids_def)
    have ok: "attempt_ok svc events f0 a" using acc that(1) by (simp add: accounted_def)
    have changes: "(i, AttemptChange) \<in> set ?R" if "i \<in> set (ba_changes a)" for i
      unfolding changed_entries changed_indexes_def using that \<open>a \<in> set attempts\<close> by auto
    have following: "(vf_event_index f, AttemptVerification) \<in> set ?R" if "ba_following a = Some f" for f
      unfolding following_entries using that \<open>a \<in> set attempts\<close>
      by (auto simp: followings_def intro!: bexI [of _ a])
    show ?thesis
      using ok assms(3,4) at [OF changes] at [OF following] \<open>bounded_id (new_id (Suc k))\<close>
      unfolding attempt_fine_def attempt_ok_def attempt_at_def
      by (cases "ba_following a") (simp_all add: list_all_iff)
  qed
  moreover have "distinct (map attempt_id (map (attempt_at new_id w x ?T) (enumerate 0 attempts)))"
  proof -
    have "inj_on (\<lambda>k. new_id (Suc k)) {0..<length attempts}"
    proof (rule inj_onI)
      fix i j assume "i \<in> {0..<length attempts}" "j \<in> {0..<length attempts}"
        "new_id (Suc i) = new_id (Suc j)"
      then have "Suc i = Suc j"
        using assms(2) few by (intro inj_onD [of new_id "{..max_episode_events}"]) (auto simp: fresh_ids_def)
      then show "i = j" by simp
    qed
    then show ?thesis unfolding record_attempt_ids by (simp add: distinct_map)
  qed
  moreover have "distinct (concat (map attempt_change_ordinals
      (map (attempt_at new_id w x ?T) (enumerate 0 attempts))))"
    unfolding record_changes changed_indexes_def
    by (rule distinct_places_of [OF sorted]) (auto simp: attempt_indexes_followings)
  moreover have "distinct (concat (map following_ordinals
      (map (attempt_at new_id w x ?T) (enumerate 0 attempts))))"
    unfolding record_followings
    by (rule distinct_places_of [OF sorted]) (auto simp: attempt_indexes_followings)
  ultimately show ?thesis
    unfolding attempts_fine_def by (auto simp: list_all_iff in_set_enumerate_eq)
qed

lemma in_enumerate:
  assumes "x \<in> set xs"
  obtains k where "(k, x) \<in> set (enumerate n xs)"
proof -
  have "x \<in> snd ` set (enumerate n xs)"
    using assms map_snd_enumerate [of n xs] by (metis image_set)
  then show ?thesis using that by force
qed

lemma accounted_links:
  assumes acc: "accounted svc events abandoned f0 supporting attempts facts"
    and l: "l \<in> set (map (link_at events) (enumerate 0
      (relation_entries abandoned f0 supporting attempts)))"
  shows "check_link (map (observation_at events) (enumerate 0 facts)) (claims_of
    (map (attempt_at new_id w x (timeline f0 supporting attempts)) (enumerate 0 attempts))) l = Inr ()"
proof -
  let ?T = "timeline f0 supporting attempts"
  let ?R = "relation_entries abandoned f0 supporting attempts"
  have sorted: "sorted_wrt (<) ?T" using acc by (simp add: accounted_def)
  have T: "map fst ?R = ?T" by (rule relation_entries_indexes)
  obtain k i r where k: "k < length ?R" "?R ! k = (i, r)" and leq: "l = link_at events (k, i, r)"
    using l by (auto simp: in_set_enumerate_eq)
  then have mem: "(i, r) \<in> set ?R" using nth_mem by fastforce
  have "place ?T i = k"
    using entry_place [of ?R i r] sorted mem k ordered_distinct [of ?R]
    by (metis T fst_conv length_map nth_eq_iff_index_eq nth_map)
  then have ord: "link_ordinal l = place ?T i" "link_relation l = r"
    "link_event_id l = event_id (snd (events ! i))"
    by (simp_all add: leq link_at_def)
  show ?thesis
  proof (cases r)
    case AttemptChange
    then show ?thesis
      using mem ord changed_entries [of i abandoned f0 supporting attempts]
      by (simp add: check_link_def claims_of_def record_changes flip: map_map)
  next
    case AttemptVerification
    then show ?thesis
      using mem ord following_entries [of i abandoned f0 supporting attempts]
      by (simp only: check_link_def claims_of_def record_followings) simp
  next
    case TerminalVerification
    have ne: "attempts \<noteq> []" using acc by (simp add: accounted_def)
    obtain f where "f \<in> set (ba_additional (last attempts))" "\<not> abandoned" "i = vf_event_index f"
      using mem TerminalVerification terminal_entries [OF ne] by blast
    then have "f \<in> set facts" using acc by (auto simp: accounted_def)
    then obtain j where "(j, f) \<in> set (enumerate 0 facts)" by (rule in_enumerate)
    then show ?thesis
      using ord TerminalVerification \<open>i = vf_event_index f\<close>
      by (auto simp: check_link_def list_ex_iff observation_at_def intro!: bexI [of _ "(j, f)"])
  qed (simp_all add: check_link_def ord)
qed

text \<open>The relation of a terminal fact.\<close>

lemma fact_entry:
  assumes acc: "accounted svc events abandoned f0 supporting attempts facts" and f: "f \<in> set facts"
  shows "\<exists>r \<in> {AttemptVerification, TerminalVerification}.
    (vf_event_index f, r) \<in> set (relation_entries abandoned f0 supporting attempts)"
proof -
  have ne: "attempts \<noteq> []" and "\<not> abandoned"
    using acc f by (auto simp: accounted_def split: if_splits)
  then obtain g where g: "ba_following (last attempts) = Some g" "facts = g # ba_additional (last attempts)"
    using acc by (auto simp: accounted_def)
  show ?thesis
  proof (cases "f = g")
    case True
    then have "vf_event_index f \<in> set (concat (map followings attempts))"
      using g ne by (auto simp: followings_def intro!: bexI [of _ "last attempts"])
    then show ?thesis using following_entries by blast
  next
    case False
    then show ?thesis using terminal_entries [OF ne] g f \<open>\<not> abandoned\<close> by auto
  qed
qed

lemma accounted_observation:
  assumes acc: "accounted svc events abandoned f0 supporting attempts facts"
    and distinct: "distinct (map link_event_id (map (link_at events) (enumerate 0
      (relation_entries abandoned f0 supporting attempts))))"
    and f: "f \<in> set facts"
  shows "check_observation (map (link_at events) (enumerate 0
      (relation_entries abandoned f0 supporting attempts))) (observation_at events (k, f)) = Inr ()
    \<longleftrightarrow> storable_scope (observation_at events (k, f))"
proof -
  let ?R = "relation_entries abandoned f0 supporting attempts"
  obtain r where r: "r \<in> {AttemptVerification, TerminalVerification}"
    and mem: "(vf_event_index f, r) \<in> set ?R" using fact_entry [OF acc f] by blast
  then obtain j where "(j, vf_event_index f, r) \<in> set (enumerate 0 ?R)"
    using in_enumerate [OF mem] by blast
  then have link: "link_at events (j, vf_event_index f, r) \<in> set (map (link_at events) (enumerate 0 ?R))"
    by simp
  have found: "find (\<lambda>l. link_event_id l = event_id (snd (events ! vf_event_index f)))
      (map (link_at events) (enumerate 0 ?R)) = Some (link_at events (j, vf_event_index f, r))"
    using find_by_key [OF distinct link] by (simp add: link_at_def)
  obtain e where "classify_observation svc e (vf_event_index f) = Inr (Inr (VerificationObserved f))"
    using accounted_facts(1) [OF acc f] by (auto simp: fact_observed_def)
  note c = classify_VerificationObserved [OF this]
  have "kind_compatible (observation_at events (k, f))"
    "vo_status (observation_at events (k, f)) \<in> {VerifiedPassed, VerifiedFailed, ExplicitlyAccepted}"
    using c by (auto simp: kind_compatible_def observation_at_def)
  moreover have "vo_evidence_event_id (observation_at events (k, f))
      = event_id (snd (events ! vf_event_index f))" by (simp add: observation_at_def)
  ultimately show ?thesis
    using r found by (auto simp: check_observation_def and_then_eq_Inr link_at_def)
qed

lemma accounted_semantics:
  assumes acc: "accounted svc events abandoned f0 supporting attempts facts"
    and outcome: "outcome_for abandoned facts f0 = Inr outcome"
    and distinct: "distinct (map link_event_id (map (link_at events) (enumerate 0
      (relation_entries abandoned f0 supporting attempts))))"
    and e: "exp_verification e = \<lparr>ev_status = snd outcome,
        ev_observations = map (observation_at events) (enumerate 0 facts), ev_reasons = []\<rparr>"
      "exp_outcome e = fst outcome" "exp_evidence_strength e = strength_of abandoned facts"
  shows "validate_verification_semantics e (map (link_at events) (enumerate 0
      (relation_entries abandoned f0 supporting attempts))) = Inr ()
    \<longleftrightarrow> length facts \<le> 16
      \<and> list_all storable_scope (map (observation_at events) (enumerate 0 facts))"
proof -
  let ?ev = "map (link_at events) (enumerate 0 (relation_entries abandoned f0 supporting attempts))"
  let ?obs = "map (observation_at events) (enumerate 0 facts)"
  have status: "\<forall>f \<in> set facts. vf_status f \<in> {VerifiedPassed, VerifiedFailed, ExplicitlyAccepted}"
    using accounted_facts(1) [OF acc] classify_VerificationObserved(2) by (fastforce simp: fact_observed_def)
  have none: "abandoned \<longleftrightarrow> facts = []" using acc by (auto simp: accounted_def split: if_splits)
  have support: "outcome_supported (fst outcome) (exp_verification e)"
    unfolding e(1) using outcome_for_supported [OF outcome _ status] none by simp
  have strong: "check_strength (fst outcome) (strength_of abandoned facts)
      (length (with_status_of VerifiedPassed ?obs) + length (with_status_of VerifiedFailed ?obs))
      (length (with_status_of ExplicitlyAccepted ?obs)) = Inr ()"
    unfolding count_of_status using strength_checked [OF outcome none status] .
  have conflict: "\<not> (snd outcome = ConflictingStatus \<and> (length (with_status_of VerifiedFailed ?obs) = 0
      \<or> length (with_status_of VerifiedPassed ?obs) + length (with_status_of ExplicitlyAccepted ?obs) = 0))"
    using outcome by (auto simp: outcome_for_def terminal_outcome_def none_of_status list_ex_iff
        is_positive_def split: if_splits bool.splits)
  have missing: "snd outcome \<in> {MissingStatus, UnsupportedStatus} \<Longrightarrow> facts = []"
    using outcome none by (auto simp: outcome_for_def terminal_outcome_def split: if_splits bool.splits)
  have each: "try_each (check_observation ?ev) ?obs = Inr () \<longleftrightarrow> list_all storable_scope ?obs"
  proof -
    have "check_observation ?ev v = Inr () \<longleftrightarrow> storable_scope v" if v: "v \<in> set ?obs" for v
    proof -
      obtain x where x: "v = observation_at events x" "x \<in> set (enumerate 0 facts)"
        using v by auto
      then obtain k f where "v = observation_at events (k, f)" "f \<in> set facts"
        by (cases x) (auto simp: in_set_enumerate_eq)
      then show ?thesis using accounted_observation [OF acc distinct] by simp
    qed
    then show ?thesis unfolding try_each_eq_Inr list_all_iff by (rule ball_cong [OF refl])
  qed
  show ?thesis
    unfolding validate_verification_semantics_def Let_def and_then_eq_Inr ensure_eq_Inr e
      each observation_ordinals validate_ordinals_Inr experience_verification.simps
    using support strong conflict missing e by (auto simp: each)
qed

lemma accounted_evidence:
  assumes acc: "accounted svc events abandoned f0 supporting attempts facts"
    and input: "episode_input ep events"
  shows "distinct (map link_event_id (map (link_at events) (enumerate 0
      (relation_entries abandoned f0 supporting attempts))))"
    and "length (relation_entries abandoned f0 supporting attempts) \<le> max_experience_evidence"
proof -
  let ?T = "timeline f0 supporting attempts"
  let ?R = "relation_entries abandoned f0 supporting attempts"
  have within: "\<forall>i \<in> set ?T. i < length events" and "sorted_wrt (<) ?T"
    using acc unfolding accounted_def by blast+
  then have "distinct ?T" using strict_sorted_iff by blast
  have T: "map fst ?R = ?T" by (rule relation_entries_indexes)
  show "distinct (map link_event_id (map (link_at events) (enumerate 0 ?R)))"
    unfolding link_events T
    using input within \<open>distinct ?T\<close> by (intro distinct_event_ids) (simp_all add: episode_input_def)
  show "length ?R \<le> max_experience_evidence"
    using timeline_length(1) [OF acc] input arg_cong [OF T, of length]
    by (simp add: episode_input_def max_episode_events_def max_experience_evidence_def)
qed

lemma accounted_signature:
  assumes "standard_services blake3 svc" and "episode_input ep events"
    and "accounted svc events abandoned f0 supporting attempts facts"
  shows "pred_option (\<lambda>s. check_signature blake3 (ep_workspace_id ep) s = Inr ()) (vf_failure f0)"
proof -
  have "fact_observed svc events f0" using assms(3) by (simp add: accounted_def initial_ok_def)
  moreover from this have "event_workspace_id (snd (events ! vf_event_index f0)) = ep_workspace_id ep"
    using assms(2) by (auto simp: episode_input_def fact_observed_def)
  ultimately show ?thesis
    using observed_signature_checked [OF assms(1)] by (cases "vf_failure f0") fastforce+
qed

lemma proposal_validated:
  assumes "standard_services blake3 svc" and "episode_input ep events" and "fresh_ids new_id"
    and "extract_proposal svc hash new_id now ep events fingerprint = Inr (Proposal p d)"
    and "valid_blake3_hash fingerprint" and "valid_blake3_hash (pr_hash p)"
  shows "validate_experience_record blake3 to_vec (pr_record p) = Inr () \<longleftrightarrow> within_storage (pr_record p)"
  using assms(4)
proof (rule extract_Proposal)
  fix f0 supporting attempts facts outcome snapshot
  let ?ab = "ep_status ep = AbandonedEpisode"
  assume acc: "accounted svc events ?ab f0 supporting attempts facts"
    and outcome: "outcome_for ?ab facts f0 = Inr outcome"
    and rec: "pr_record p = proposal_of new_id now ep events fingerprint f0 supporting attempts facts
       outcome (pr_hash p)"
  have ne: "attempts \<noteq> []" using acc by (simp add: accounted_def)
  note ids = accounted_evidence(1) [OF acc assms(2)]
  note sign = accounted_signature [OF assms(1,2) acc]
  have extractor: "bounded_id extractor_id" "bounded_id extractor_version" by code_simp+
  let ?r = "pr_record p"
  have "er_attempts ?r \<noteq> []" "er_evidence ?r \<noteq> []" "er_code_snapshots ?r = []" "er_graph_snapshots ?r = []"
    using ne by (cases attempts; simp add: rec relation_entries_def)+
  moreover have "pred_option (\<lambda>s. check_signature blake3 (exp_workspace_id (er_experience ?r)) s = Inr ())
      (exp_failure_signature (er_experience ?r))"
    using sign by (simp add: rec)
  moreover have "map attempt_ordinal (er_attempts ?r) = [0..<length (er_attempts ?r)]"
  proof -
    have "map attempt_ordinal (er_attempts ?r) = map fst (enumerate 0 attempts)"
      by (simp add: rec attempt_at_def case_prod_unfold del: map_fst_enumerate)
    then show ?thesis by (simp add: rec)
  qed
  moreover have "map link_ordinal (er_evidence ?r) = [0..<length (er_evidence ?r)]"
    unfolding rec proposal_of_fields link_ordinals by simp
  moreover have "distinct (map link_event_id (er_evidence ?r))"
    unfolding rec proposal_of_fields by (rule ids)
  moreover have "length (er_evidence ?r) \<le> max_experience_evidence" using accounted_evidence(2) [OF acc assms(2)] by (simp add: rec)
  moreover have "validate_verification_semantics (er_experience ?r) (er_evidence ?r) = Inr ()
      \<longleftrightarrow> length (ev_observations (exp_verification (er_experience ?r))) \<le> 16
        \<and> list_all storable_scope (ev_observations (exp_verification (er_experience ?r)))"
    unfolding rec proposal_of_fields experience_verification.simps length_map length_enumerate
    by (rule accounted_semantics [OF acc outcome ids]) simp_all
  moreover have "attempts_fine (er_experience ?r) (er_evidence ?r) (er_attempts ?r)"
    unfolding rec proposal_of_fields(1,2)
    using timeline_length(2) [OF acc] assms(2)
    by (intro accounted_attempts_fine [OF acc assms(3)]) (simp_all add: episode_input_def)
  moreover have "\<forall>l \<in> set (er_evidence ?r). check_link (ev_observations (exp_verification
      (er_experience ?r))) (claims_of (er_attempts ?r)) l = Inr ()"
    unfolding rec proposal_of_fields experience_verification.simps using accounted_links [OF acc] by blast
  moreover have "valid_head (er_experience ?r) (length (er_attempts ?r))
      \<longleftrightarrow> length (exp_summary (er_experience ?r)) \<le> 4096"
    using assms(2,3,5,6) extractor summary_not_blank
    by (simp add: valid_head_def rec episode_input_def fresh_ids_def)
  ultimately show ?thesis
    unfolding validate_experience_record_Inr within_storage_def by (auto simp: max_experience_snapshots_def)
qed

text \<open>C8. Storage takes what consolidation proposes: the record proposed for an episode passes
  \<open>validate_experience_record\<close>, whose twenty checks know nothing of how it was built, exactly when
  its summary, attempts and observations are within the bounds of storage and the subjects and
  rules of its observations are plain.  So every check of identity, ordinals, relations, claims,
  outcome and strength always holds of a proposal; it is only sizes and texts that \<open>preview\<close> does
  not look at and \<open>accept\<close> may refuse.\<close>

theorem proposals_are_storable:
  assumes "standard_services blake3 svc" and "episode_input ep events" and "fresh_ids new_id"
    and "extract_proposal svc hash new_id now ep events fingerprint = Inr (Proposal p d)"
    and "valid_blake3_hash fingerprint" and "valid_blake3_hash (pr_hash p)"
  shows "validate_experience_record blake3 to_vec (pr_record p) = Inr () \<longleftrightarrow> within_storage (pr_record p)"
  by (rule proposal_validated [OF assms])

lemma length_digits_le: "length (digits n) \<le> Suc n"
proof (induction n rule: digits.induct)
  case (1 n)
  then show ?case
    by (subst digits.simps) (use div_less_dividend [of 10 n] in \<open>fastforce simp del: digits.simps\<close>)
qed

lemma demo_ids_fresh: "fresh_ids demo_ids"
proof -
  have ws: "\<forall>c \<in> hd ` set ws_encodings \<union> last ` set ws_encodings. \<not> is_ascii_digit c \<and> c \<noteq> CHR ''i''"
    by code_simp
  have "trim (demo_ids k) = demo_ids k" for k
  proof (rule trim_plain)
    have "is_ascii_digit (last (digits k))" by (rule digits_are_digits [of _ k]) simp
    then show "last (demo_ids k) \<notin> last ` set ws_encodings" using ws by (auto simp: demo_ids_def)
    show "hd (demo_ids k) \<notin> hd ` set ws_encodings" using ws by (auto simp: demo_ids_def)
  qed (simp add: demo_ids_def)
  moreover have "demo_ids k \<noteq> []" "length (demo_ids k) \<le> k + 2" for k
    using length_digits_le [of k] by (simp_all add: demo_ids_def)
  moreover have "inj_on demo_ids {..max_episode_events}" by (auto simp: inj_on_def demo_ids_def)
  moreover have "length (demo_ids k) \<le> 256" if "k \<le> max_episode_events" for k
    using calculation(3) [of k] that by (simp add: max_episode_events_def)
  ultimately show ?thesis by (simp add: fresh_ids_def blank_def)
qed

lemma demo_episode_input: "episode_input demo_episode demo_events"
proof -
  have "list_all (\<lambda>v. bounded_id v) [''ep'', ''w'', ''s'']" by code_simp
  then show ?thesis
    by (simp add: episode_input_def demo_events_def max_episode_events_def demo_episode_def
        demo_e0_def demo_e1_def demo_e2_def demo_e3_def demo_episode_event_def)
qed

lemma demo_summary_fits: "length (exp_summary (er_experience demo_record)) \<le> 4096"
proof -
  have "length (render_summary (Some demo_observed_failure) SuccessOutcome demo_verification 1) \<le> 4096"
    by (rule demo_summary_length)
      (simp_all add: demo_verification_def demo_observation_def verified_subject_def)
  then show ?thesis by (simp add: demo_record_def demo_experience_def)
qed

lemma demo_within: "within_storage demo_record"
proof -
  have "list_all (\<lambda>v. stable_experience_component v 256) [''core'', ''cortexweave.rust_compiler'', ''1'']"
    by code_simp
  then show ?thesis
    using demo_summary_fits
    by (simp add: within_storage_def demo_record_defs storable_scope_def max_experience_attempts_def
        stable_experience_component_def)
qed

lemma demo_digest_valid: "valid_blake3_hash demo_digest"
  by code_simp

theorem proposals_are_storable_witness:
  "\<exists>p. demo_preview = Inr (Proposal p Automatic)
     \<and> validate_experience_record demo_hash (\<lambda>_. Inr []) (pr_record p) = Inr ()"
  using proposals_are_storable [OF demo_service_standard demo_episode_input demo_ids_fresh
      demo_proposed] demo_within demo_digest_valid
  by (simp add: demo_proposed demo_proposal_def)

section \<open>The order of events\<close>

lemma sorted_places:
  assumes "sorted_wrt (<) ixs" and "sorted_wrt (<) xs" and "set xs \<subseteq> set ixs"
  shows "sorted_wrt (<) (map (place ixs) xs)"
  unfolding sorted_wrt_map
  using assms(3) by (intro sorted_wrt_mono_rel [OF _ assms(2)]) (metis place_less assms(1) subsetD)

lemma sorted_concat_part:
  assumes "sorted_wrt (<) (concat (map f xs))" and "\<And>x. \<exists>ys. f x = g x @ ys"
  shows "sorted_wrt (<) (concat (map g xs))"
  using assms(1)
proof (induction xs)
  case (Cons x xs)
  obtain ys where "f x = g x @ ys" using assms(2) by blast
  moreover have "set (concat (map g xs)) \<subseteq> set (concat (map f xs))"
  proof -
    have "set (g y) \<subseteq> set (f y)" for y using assms(2) [of y] by auto
    then show ?thesis by auto
  qed
  ultimately show ?case using Cons by (auto simp: sorted_wrt_append subset_iff)
qed simp

definition attempt_span :: "experience_attempt \<Rightarrow> nat list" where
  "attempt_span a = attempt_change_ordinals a @ following_ordinals a"

lemma record_spans:
  "concat (map attempt_span (map (attempt_at new_id w x ixs) (enumerate n attempts)))
     = map (place ixs) (concat (map (\<lambda>a. ba_changes a @ followings a) attempts))"
  by (induction attempts arbitrary: n)
    (auto simp: attempt_at_def attempt_span_def following_ordinals_def followings_def
      split: option.splits)

text \<open>A proposal keeps the order of the episode: its evidence links name distinct events of the
  episode in the order in which they happened, numbered from zero, the first of them the initial
  failure; and going through the attempts in order, the events that changed something and the
  result that followed them only ever move forward, so that each result follows all changes of its
  attempt and precedes those of the next.\<close>

theorem proposal_chronology:
  assumes "extract_proposal svc hash new_id now ep events fingerprint = Inr (Proposal p d)"
  shows "(\<exists>ixs. sorted_wrt (<) ixs \<and> (\<forall>i \<in> set ixs. i < length events)
      \<and> map link_event_id (er_evidence (pr_record p)) = map (\<lambda>i. event_id (snd (events ! i))) ixs)
    \<and> map link_ordinal (er_evidence (pr_record p)) = [0..<length (er_evidence (pr_record p))]
    \<and> relation_at (er_evidence (pr_record p)) 0 InitialFailure
    \<and> sorted_wrt (<) (0 # concat (map attempt_span (er_attempts (pr_record p))))"
  using assms
proof (rule extract_Proposal)
  fix f0 supporting attempts facts outcome snapshot
  let ?ab = "ep_status ep = AbandonedEpisode"
  let ?T = "timeline f0 supporting attempts"
  assume acc: "accounted svc events ?ab f0 supporting attempts facts"
    and rec: "pr_record p = proposal_of new_id now ep events fingerprint f0 supporting attempts facts
       outcome (pr_hash p)"
  have T: "sorted_wrt (<) ?T" "\<forall>i \<in> set ?T. i < length events"
    using acc unfolding accounted_def by blast+
  let ?span = "\<lambda>a. ba_changes a @ followings a"
  have spans: "concat (map attempt_span (er_attempts (pr_record p)))
      = map (place ?T) (concat (map ?span attempts))"
    unfolding rec proposal_of_fields by (rule record_spans)
  have "sorted_wrt (<) (vf_event_index f0 # concat (map attempt_indexes attempts))"
    using T(1) by (auto simp: timeline_def sorted_wrt_append)
  moreover have "\<exists>ys. attempt_indexes a = ?span a @ ys" for a by (simp add: attempt_indexes_followings)
  ultimately have "sorted_wrt (<) (vf_event_index f0 # concat (map ?span attempts))"
    using sorted_concat_part [of attempt_indexes attempts ?span] by (fastforce simp: attempt_indexes_followings)
  moreover have "set (vf_event_index f0 # concat (map ?span attempts)) \<subseteq> set ?T"
    by (auto simp: timeline_def attempt_indexes_followings)
  ultimately have "sorted_wrt (<) (map (place ?T) (vf_event_index f0 # concat (map ?span attempts)))"
    by (rule sorted_places [OF T(1)])
  moreover have "place ?T (vf_event_index f0) = 0" by (simp add: place_def timeline_def)
  ultimately have "sorted_wrt (<) (0 # concat (map attempt_span (er_attempts (pr_record p))))"
    unfolding spans by simp
  moreover have "relation_at (er_evidence (pr_record p)) 0 InitialFailure"
    unfolding rec by (simp add: relation_at_def relation_entries_def link_at_def)
  moreover have "map link_event_id (er_evidence (pr_record p)) = map (\<lambda>i. event_id (snd (events ! i))) ?T"
    unfolding rec proposal_of_fields link_events relation_entries_indexes ..
  moreover have "map link_ordinal (er_evidence (pr_record p)) = [0..<length (er_evidence (pr_record p))]"
    unfolding rec proposal_of_fields link_ordinals by simp
  ultimately show ?thesis using T by blast
qed


theorem proposal_chronology_witness:
  "\<exists>p. demo_preview = Inr (Proposal p Automatic)
     \<and> relation_at (er_evidence (pr_record p)) 0 InitialFailure
     \<and> concat (map attempt_span (er_attempts (pr_record p))) = [1, 2]"
proof -
  obtain p where p: "demo_preview = Inr (Proposal p Automatic)"
    and span: "concat (map attempt_span (er_attempts (pr_record p))) = [1, 2]"
    using demo_finished by (fastforce simp: attempt_span_def following_ordinals_def)
  with proposal_chronology [OF p] show ?thesis by blast
qed

section \<open>What the results establish\<close>

lemma facts_last:
  assumes acc: "accounted svc events abandoned f0 supporting attempts facts" and f: "f \<in> set facts"
  shows "vf_event_index f0 < vf_event_index f"
    and "\<forall>i \<in> set (changed_indexes attempts). i < vf_event_index f"
proof -
  have ne: "attempts \<noteq> []" and "\<not> abandoned" and sorted: "sorted_wrt (<) (timeline f0 supporting attempts)"
    using acc f by (auto simp: accounted_def split: if_splits)
  then obtain g where g: "ba_following (last attempts) = Some g" "facts = g # ba_additional (last attempts)"
    using acc by (auto simp: accounted_def)
  obtain as a where as: "attempts = as @ [a]" using ne by (metis rev_exhaust)
  let ?before = "vf_event_index f0 # supporting @ concat (map attempt_indexes as) @ ba_changes a"
  have "timeline f0 supporting attempts = ?before @ map vf_event_index facts"
    using g by (simp add: timeline_def as attempt_indexes_def)
  then have "\<forall>i \<in> set ?before. i < vf_event_index f"
    using sorted f by (auto simp: sorted_wrt_append)
  then show "vf_event_index f0 < vf_event_index f"
    "\<forall>i \<in> set (changed_indexes attempts). i < vf_event_index f"
    by (auto simp: as changed_indexes_def attempt_indexes_def)
qed

lemma change_link:
  assumes "l \<in> set (map (link_at events) (enumerate 0
      (relation_entries abandoned f0 supporting attempts)))" and "link_relation l = AttemptChange"
  shows "\<exists>i \<in> set (changed_indexes attempts). link_event_id l = event_id (snd (events ! i))"
proof -
  obtain x where x: "x \<in> set (enumerate 0 (relation_entries abandoned f0 supporting attempts))"
    "l = link_at events x" using assms(1) unfolding set_map by blast
  obtain k i r where kir: "x = (k, i, r)" by (cases x)
  then have "(i, r) \<in> set (relation_entries abandoned f0 supporting attempts)"
    using x(1) nth_mem [of k "relation_entries abandoned f0 supporting attempts"]
    by (auto simp: kir in_set_enumerate_eq)
  moreover have "r = AttemptChange" "link_event_id l = event_id (snd (events ! i))"
    using x(2) assms(2) by (simp_all add: kir link_at_def)
  ultimately show ?thesis using changed_entries by blast
qed

text \<open>C36. A success is an observed success: if a proposal says that the episode succeeded, its
  signature is that of a result which the verifiers reported as failed; there is at least one
  terminal observation and each is a result that was reported as passed, or accepted by the user,
  after that failure and after every change of every attempt; and one of them is for the very scope
  of the initial failure.\<close>

theorem success_is_observed:
  assumes "extract_proposal svc hash new_id now ep events fingerprint = Inr (Proposal p d)"
    and "exp_outcome (er_experience (pr_record p)) = SuccessOutcome"
  shows "\<exists>f0 facts. fact_observed svc events f0 \<and> vf_status f0 = VerifiedFailed
    \<and> exp_failure_signature (er_experience (pr_record p)) = vf_failure f0 \<and> vf_failure f0 \<noteq> None
    \<and> ev_observations (exp_verification (er_experience (pr_record p)))
        = map (observation_at events) (enumerate 0 facts)
    \<and> (\<exists>f \<in> set facts. supports_initial_scope f f0)
    \<and> (\<forall>f \<in> set facts. fact_observed svc events f \<and> is_positive f
        \<and> vf_event_index f0 < vf_event_index f
        \<and> (\<forall>l \<in> set (er_evidence (pr_record p)). link_relation l = AttemptChange
             \<longrightarrow> (\<exists>i < vf_event_index f. link_event_id l = event_id (snd (events ! i)))))"
  using assms(1)
proof (rule extract_Proposal)
  fix f0 supporting attempts facts outcome snapshot
  let ?ab = "ep_status ep = AbandonedEpisode"
  assume acc: "accounted svc events ?ab f0 supporting attempts facts"
    and outcome: "outcome_for ?ab facts f0 = Inr outcome"
    and rec: "pr_record p = proposal_of new_id now ep events fingerprint f0 supporting attempts facts
       outcome (pr_hash p)"
  have init: "fact_observed svc events f0" "vf_status f0 = VerifiedFailed" "vf_failure f0 \<noteq> None"
    using acc by (simp_all add: accounted_def initial_ok_def)
  have "fst outcome = SuccessOutcome" using assms(2) by (simp add: rec)
  then have success: "list_ex (\<lambda>f. supports_initial_scope f f0) facts"
    "\<not> list_ex (\<lambda>f. vf_status f = VerifiedFailed) facts"
    using outcome by (auto simp: outcome_for_def terminal_outcome_def split: if_splits bool.splits)
  have each: "fact_observed svc events f \<and> is_positive f \<and> vf_event_index f0 < vf_event_index f
      \<and> (\<forall>l \<in> set (er_evidence (pr_record p)). link_relation l = AttemptChange
           \<longrightarrow> (\<exists>i < vf_event_index f. link_event_id l = event_id (snd (events ! i))))"
    if f: "f \<in> set facts" for f
  proof -
    have "vf_status f \<noteq> VerifiedFailed" using success(2) f by (auto simp: list_ex_iff)
    then have "is_positive f" using positive_or_failed accounted_facts(1) [OF acc f] by blast
    moreover have "\<exists>i < vf_event_index f. link_event_id l = event_id (snd (events ! i))"
      if "l \<in> set (er_evidence (pr_record p))" "link_relation l = AttemptChange" for l
      using change_link [OF that(1) [unfolded rec proposal_of_fields] that(2)] facts_last(2) [OF acc f]
      by blast
    ultimately show ?thesis using accounted_facts(1) [OF acc f] facts_last(1) [OF acc f] by blast
  qed
  have "\<exists>f \<in> set facts. supports_initial_scope f f0" using success(1) by (simp add: list_ex_iff)
  moreover have "exp_failure_signature (er_experience (pr_record p)) = vf_failure f0"
    "ev_observations (exp_verification (er_experience (pr_record p)))
      = map (observation_at events) (enumerate 0 facts)"
    by (simp_all add: rec)
  ultimately show ?thesis using init each by (intro exI [of _ f0] exI [of _ facts]) blast
qed

theorem success_is_observed_witness:
  "\<exists>f0. fact_observed demo_service demo_events f0 \<and> vf_status f0 = VerifiedFailed"
proof -
  obtain p where "demo_preview = Inr (Proposal p Automatic)"
    "exp_outcome (er_experience (pr_record p)) = SuccessOutcome" using demo_finished by blast
  from success_is_observed [OF this] show ?thesis by blast
qed












text \<open>Strong evidence is repeated evidence: if a proposal claims strong evidence, every terminal
  observation has another one with the same status for the same subject under the same rule.\<close>

theorem strong_evidence_is_repeated:
  assumes "extract_proposal svc hash new_id now ep events fingerprint = Inr (Proposal p d)"
    and "sa_strength (exp_evidence_strength (er_experience (pr_record p))) = Strong"
    and "v \<in> set (ev_observations (exp_verification (er_experience (pr_record p))))"
  shows "\<exists>w \<in> set (ev_observations (exp_verification (er_experience (pr_record p)))).
    vo_ordinal w \<noteq> vo_ordinal v \<and> vo_status w = vo_status v \<and> vo_subject w = vo_subject v
    \<and> vo_rule_id w = vo_rule_id v \<and> vo_rule_version w = vo_rule_version v"
  using assms(1)
proof (rule extract_Proposal)
  fix f0 supporting attempts facts outcome snapshot
  assume rec: "pr_record p = proposal_of new_id now ep events fingerprint f0 supporting attempts facts
       outcome (pr_hash p)"
  have repeated: "repeated_facts facts"
    using assms(2) by (simp add: rec strength_of_def split: if_splits)
  have obs: "ev_observations (exp_verification (er_experience (pr_record p)))
      = map (observation_at events) (enumerate 0 facts)" by (simp add: rec)
  obtain k where k: "k < length facts" "v = observation_at events (k, facts ! k)"
    using assms(3) unfolding obs by (auto simp: in_set_enumerate_eq)
  let ?same = "\<lambda>g. vf_status g = vf_status (facts ! k) \<and> vf_scope g = vf_scope (facts ! k)"
  have "2 \<le> length (filter ?same facts)"
    using repeated nth_mem [OF k(1)] by (simp add: repeated_facts_def list_all_iff)
  then have "2 \<le> card {j. j < length facts \<and> ?same (facts ! j)}"
    by (simp add: length_filter_conv_card)
  moreover have "card {j. j < length facts \<and> ?same (facts ! j)} \<le> 1"
    if "\<forall>j. j < length facts \<and> ?same (facts ! j) \<longrightarrow> j = k"
    using card_mono [of "{k}" "{j. j < length facts \<and> ?same (facts ! j)}"] that by auto
  ultimately obtain j where j: "j < length facts" "?same (facts ! j)" "j \<noteq> k" by fastforce
  then have "observation_at events (j, facts ! j) \<in> set (map (observation_at events) (enumerate 0 facts))"
    by (auto simp: in_set_enumerate_eq)
  then show ?thesis
    unfolding obs using j k(2) by (intro bexI) (simp_all add: observation_at_def)
qed

theorem strong_evidence_is_repeated_witness:
  "\<exists>p w. demo_preview = Inr (Proposal p Automatic)
     \<and> w \<in> set (ev_observations (exp_verification (er_experience (pr_record p))))
     \<and> vo_ordinal w \<noteq> 0 \<and> vo_status w = VerifiedPassed"
proof -
  obtain p v where p: "demo_preview = Inr (Proposal p Automatic)"
    and strong: "sa_strength (exp_evidence_strength (er_experience (pr_record p))) = Strong"
    and v: "v \<in> set (ev_observations (exp_verification (er_experience (pr_record p))))"
      "vo_ordinal v = 0" "vo_status v = VerifiedPassed"
    using demo_finished by force
  from strong_evidence_is_repeated [OF p strong v(1)] p v show ?thesis by auto
qed

section \<open>An acceptance that needs no review\<close>

text \<open>The reasons for a review look at the terminal results only.  In this episode the compiler
  fails, a tool edits, the user accepts the package, a tool edits again, and the compiler passes.\<close>

definition demo_review_serde :: serde where
  "demo_review_serde = demo_episode_serde\<lparr>user_acceptance_of := (\<lambda>_. Inr
     \<lparr>ph_contract = ''cortexweave.user_acceptance'', ph_version = 1, up_accepted = True,
      up_accepted_by = ''user'', up_subject = \<lparr>es_kind = PackageSubject, es_value = ''core''\<rparr>\<rparr>)\<rparr>"

definition demo_acceptance_event :: cortex_event where
  "demo_acceptance_event =
     demo_episode_event ''ea'' UserAcceptanceEvent ''cortexweave.user_acceptance'' 0"

definition demo_review_events :: "(nat \<times> cortex_event) list" where
  "demo_review_events =
     [(0, demo_e0), (1, demo_e1), (2, demo_acceptance_event), (3, demo_e1), (4, demo_e2)]"

definition demo_review_decoders :: decoder_registry where
  "demo_review_decoders = projr (decoder_registry_standard demo_review_serde)"

definition demo_review_service :: consolidation_service where
  "demo_review_service =
     demo_service\<lparr>cs_decoders := demo_review_decoders, cs_serde := demo_review_serde\<rparr>"

definition demo_acceptance_evidence :: decoded_evidence where
  "demo_acceptance_evidence =
     \<lparr>envelope = \<lparr>env_event_id = ''ea'', env_workspace_id = ''w'', env_session_id = ''s'',
        env_task_id = None, env_occurred_at = 0, env_contract = UserAcceptanceContract,
        env_version = 1\<rparr>,
      observation = UserAcceptance
        \<lparr>ua_actor = ''user'', ua_subject = \<lparr>es_kind = PackageSubject, es_value = ''core''\<rparr>\<rparr>\<rparr>"

definition demo_acceptance_fact :: verification_fact where
  "demo_acceptance_fact = mk_fact 2 ExplicitlyAccepted UserAcceptanceKind ''cortexweave.user_acceptance''
     ''1'' \<lparr>es_kind = PackageSubject, es_value = ''core''\<rparr> None"

lemma demo_review_decoded:
  "decode demo_review_decoders demo_review_serde demo_e0 = Inr (Decoded (demo_rust ''e0''))"
  "decode demo_review_decoders demo_review_serde demo_e1 = Inr (Decoded demo_tool_evidence)"
  "decode demo_review_decoders demo_review_serde demo_acceptance_event
     = Inr (Decoded demo_acceptance_evidence)"
  "decode demo_review_decoders demo_review_serde demo_e2 = Inr (Decoded (demo_pass_evidence ''e2''))"
  by code_simp+

lemma demo_review_classified:
  "classify_observation demo_review_service (demo_rust ''e0'') 0
     = Inr (Inr (VerificationObserved demo_failed))"
  "classify_observation demo_review_service demo_tool_evidence n = Inr (Inr (AttemptAction False))"
  "classify_observation demo_review_service demo_acceptance_evidence 2
     = Inr (Inr (VerificationObserved demo_acceptance_fact))"
  "classify_observation demo_review_service (demo_pass_evidence i) n
     = Inr (Inr (VerificationObserved (demo_passed n)))"
proof -
  have same: "classify_observation demo_review_service e n = classify_observation demo_service e n" for e n
  proof -
    have parts: "test_run_fact demo_review_service = test_run_fact demo_service"
      "verifier_fact demo_review_service = verifier_fact demo_service"
      "normalized_failure demo_review_service = normalized_failure demo_service"
      "refused_failure demo_review_service = refused_failure demo_service"
      by (simp_all add: fun_eq_iff test_run_fact_def verifier_fact_def normalized_failure_def
          refused_failure_def demo_review_service_def)
    have "observed_fact demo_review_service n obs = observed_fact demo_service n obs" for obs
      unfolding observed_fact_def parts ..
    then show ?thesis unfolding classify_observation_def parts by simp
  qed
  show "classify_observation demo_review_service (demo_rust ''e0'') 0
      = Inr (Inr (VerificationObserved demo_failed))"
    "classify_observation demo_review_service (demo_pass_evidence i) n
      = Inr (Inr (VerificationObserved (demo_passed n)))"
    unfolding same by (rule demo_classified)+
  show "classify_observation demo_review_service demo_tool_evidence n = Inr (Inr (AttemptAction False))"
    by (simp add: classify_observation_def observed_fact_def demo_tool_evidence_def)
  show "classify_observation demo_review_service demo_acceptance_evidence 2
      = Inr (Inr (VerificationObserved demo_acceptance_fact))"
    by (simp add: classify_observation_def observed_fact_def demo_acceptance_evidence_def
        demo_acceptance_fact_def is_user_acceptance_def mk_fact_def)
qed

definition demo_review_extraction :: extraction where
  "demo_review_extraction =
     \<lparr>ex_initial = Some demo_failed, ex_supporting = [],
      ex_attempts = [\<lparr>ba_changes = [1], ba_following = Some demo_acceptance_fact, ba_additional = [],
          ba_result = AttemptPassed\<rparr>,
        \<lparr>ba_changes = [3], ba_following = Some (demo_passed 4), ba_additional = [],
          ba_result = AttemptPassed\<rparr>],
      ex_pending = [], ex_snapshot_required = False, ex_diagnostics = []\<rparr>"

lemma demo_review_steps:
  "event_steps demo_review_service 0 demo_review_events no_extraction = Inr demo_review_extraction"
proof -
  have svc: "cs_decoders demo_review_service = demo_review_decoders"
    "cs_serde demo_review_service = demo_review_serde"
    by (simp_all add: demo_review_service_def)
  have facts: "vf_status demo_failed = VerifiedFailed" "vf_failure demo_failed \<noteq> None"
    "vf_status (demo_passed n) = VerifiedPassed" "vf_scope (demo_passed n) = vf_scope demo_failed"
    "vf_status demo_acceptance_fact = ExplicitlyAccepted"
    "sk_subject (vf_scope demo_acceptance_fact) = sk_subject (vf_scope demo_failed)" for n
    by (simp_all add: demo_failed_def demo_passed_def demo_acceptance_fact_def mk_fact_def)
  show ?thesis
    by (simp add: demo_review_events_def event_step_def svc demo_review_decoded observation_step_def
        demo_review_classified [unfolded One_nat_def] result_step_def first_result_step_def
        action_step_def attempt_step_def attempt_result_for_def supports_initial_scope_def
        is_user_acceptance_def is_positive_def facts no_extraction_def demo_review_extraction_def
        demo_review_classified(3) [unfolded numeral_2_eq_2] eval_nat_numeral)
qed

theorem acceptance_without_review:
  "\<exists>p. extract_proposal demo_review_service (\<lambda>_. Inr demo_digest) demo_ids 0 demo_episode
       demo_review_events demo_digest = Inr (Proposal p Automatic)
     \<and> accepted_at demo_review_service demo_review_events 2
     \<and> er_evidence (pr_record p) ! 2
         = \<lparr>link_ordinal = 2, link_relation = AttemptVerification, link_event_id = ''ea''\<rparr>
     \<and> attempt_result_of (hd (er_attempts (pr_record p))) = AttemptPassed"
proof -
  let ?w = demo_review_extraction and ?svc = demo_review_service and ?events = demo_review_events
  have w: "ex_initial ?w = Some demo_failed" "ex_pending ?w = []" "\<not> ex_snapshot_required ?w"
    "final_attempts ?w = ex_attempts ?w" "ex_supporting ?w = []"
    by (simp_all add: demo_review_extraction_def final_attempts_def)
  have facts: "terminal_facts False (ex_attempts ?w) = Inr [demo_passed 4]"
    by (simp add: terminal_facts_def demo_review_extraction_def)
  have "sequence_ok ?svc ?events (length ?events) demo_failed ?w"
    using extraction_inv [OF demo_review_steps] w(1) by (simp add: sequence_inv_def)
  then have acc: "accounted ?svc ?events False demo_failed [] (ex_attempts ?w) [demo_passed 4]"
    using sequence_accounted [of ?svc ?events demo_failed ?w False] facts w
    by (simp add: demo_review_extraction_def)
  let ?out = "(SuccessOutcome, VerifiedPassed)"
  have out: "outcome_for False [demo_passed 4] demo_failed = Inr ?out"
    by (simp add: outcome_for_def terminal_outcome_def supports_initial_scope_def conflicting_def
        is_user_acceptance_def is_positive_def demo_passed_def demo_failed_def mk_fact_def)
  let ?r = "account demo_ids 0 demo_episode ?events demo_digest demo_failed [] (ex_attempts ?w)
      [demo_passed 4] ?out"
  have open_ep: "ep_status demo_episode = ClosedEpisode" by (simp add: demo_episode_def)
  have "build_record demo_ids 0 demo_episode ?events demo_digest demo_failed [] (ex_attempts ?w)
      [demo_passed 4] ?out = Inr ?r"
    using acc accounted_within [OF acc] unfolding accounted_def by (intro build_record_account) blast+
  then have run: "extract_proposal ?svc (\<lambda>_. Inr demo_digest) demo_ids 0 demo_episode ?events demo_digest
      = Inr (Proposal \<lparr>pr_record = ?r\<lparr>er_experience := (er_experience ?r)\<lparr>exp_proposal_hash := demo_digest\<rparr>\<rparr>,
          pr_fingerprint = demo_digest, pr_hash = demo_digest, pr_diagnostics = ex_diagnostics ?w\<rparr> Automatic)"
    using w facts out open_ep
    by (simp add: extract_proposal_def demo_review_steps finish_extraction_def propose_def
        review_reasons_def disposition_of_def is_user_acceptance_def demo_passed_def mk_fact_def
        demo_failed_def demo_review_extraction_def)
  have "accepted_at ?svc ?events 2"
    using demo_review_classified(3) demo_review_decoded(3)
    by (auto simp: accepted_at_def fact_observed_def demo_review_events_def demo_acceptance_fact_def
        demo_review_service_def mk_fact_def intro!: exI [of _ demo_acceptance_fact])
  then show ?thesis
    unfolding run
    by (simp add: account_def demo_review_extraction_def relation_entries_def attempt_entries_def
        open_ep link_at_def attempt_at_def demo_acceptance_fact_def demo_failed_def mk_fact_def
        demo_review_events_def demo_acceptance_event_def demo_episode_event_def)
qed

end
