(* ===== verification/EpisodeHistory.thy ===== *)
theory EpisodeHistory
  imports EpisodeStore
begin

text \<open>
  What the operations on episodes keep.  \<open>history_later\<close> states how a database may differ from an
  earlier one: rows are only appended, an episode keeps its scope, its version grows, and once it
  is closed or abandoned neither it nor its members change.  \<open>episodes_ok\<close> is the invariant of the
  episode tables.  The locale \<open>keyed_requests\<close> is the contract of an operation that is executed once
  per request key; it is interpreted on the mutation of episodes.
\<close>

section \<open>Requests that are executed once\<close>

locale keyed_requests =
  fixes execute :: "'q \<Rightarrow> 'db \<Rightarrow> cortex_error + 'a \<times> 'db"
    and receipt :: "'db \<Rightarrow> 'k \<Rightarrow> 'c option"
    and key_of :: "'q \<Rightarrow> 'k" and content_of :: "'q \<Rightarrow> 'c"
    and ready :: "'q \<Rightarrow> bool" and good :: "'db \<Rightarrow> bool" and later :: "'db \<Rightarrow> 'db \<Rightarrow> bool"
  assumes recorded: "good db \<Longrightarrow> execute q db = Inr (a, db') \<Longrightarrow>
      receipt db' (key_of q) = Some (content_of q)"
    and replayed: "good db \<Longrightarrow> ready q \<Longrightarrow> receipt db (key_of q) = Some (content_of q) \<Longrightarrow>
      \<exists>a. execute q db = Inr (a, db)"
    and refused: "ready q \<Longrightarrow> receipt db (key_of q) = Some c \<Longrightarrow> c \<noteq> content_of q \<Longrightarrow>
      \<exists>m. execute q db = Inl (ConflictErr m)"
    and ready_if: "execute q db = Inr (a, db') \<Longrightarrow> ready q"
    and kept: "later db db' \<Longrightarrow> receipt db k = Some c \<Longrightarrow> receipt db' k = Some c"
begin

lemma retry:
  assumes "good db" and "execute q db = Inr (a, db1)" and "later db1 db2" and "good db2"
  shows "\<exists>b. execute q db2 = Inr (b, db2)"
  using replayed [OF assms(4) ready_if [OF assms(2)] kept [OF assms(3) recorded [OF assms(1,2)]]] .

lemma other_content:
  assumes "good db" and "execute q db = Inr (a, db1)" and "later db1 db2"
    and "ready p" and "key_of p = key_of q" and "content_of p \<noteq> content_of q"
  shows "\<exists>m. execute p db2 = Inl (ConflictErr m)"
  using refused [of p db2 "content_of q"] kept [OF assms(3) recorded [OF assms(1,2)]] assms(4-6)
  by auto

end

section \<open>Tables that grow\<close>

lemma find_prefix: "prefix xs ys \<Longrightarrow> find P xs = Some x \<Longrightarrow> find P ys = Some x"
  by (induction xs ys rule: list_induct2') (auto split: if_splits)

lemma find_append: "find P (xs @ ys) = (case find P xs of None \<Rightarrow> find P ys | Some x \<Rightarrow> Some x)"
  by (induction xs) auto

definition appended :: "history_db \<Rightarrow> history_db \<Rightarrow> bool" where
  "appended db db' \<longleftrightarrow> set (hd_workspaces db) \<subseteq> set (hd_workspaces db')
     \<and> prefix (hd_events db) (hd_events db') \<and> prefix (hd_members db) (hd_members db')
     \<and> prefix (hd_requests db) (hd_requests db') \<and> prefix (hd_order db) (hd_order db')
     \<and> prefix (hd_experiences db) (hd_experiences db') \<and> prefix (hd_evidence db) (hd_evidence db')
     \<and> prefix (hd_verifications db) (hd_verifications db')
     \<and> prefix (hd_attempts db) (hd_attempts db')
     \<and> prefix (hd_code_snapshots db) (hd_code_snapshots db')
     \<and> prefix (hd_graph_snapshots db) (hd_graph_snapshots db')
     \<and> prefix (hd_bases db) (hd_bases db') \<and> prefix (hd_seals db) (hd_seals db')
     \<and> prefix (hd_assessments db) (hd_assessments db')
     \<and> prefix (hd_assessment_evidence db) (hd_assessment_evidence db')
     \<and> hd_last_sequence db \<le> hd_last_sequence db'"

lemma appended_refl [simp]: "appended db db"
  by (simp add: appended_def)

lemma appended_trans: "appended a b \<Longrightarrow> appended b c \<Longrightarrow> appended a c"
  unfolding appended_def by (meson prefix_order.trans order_trans)

definition episode_later :: "episode_row \<Rightarrow> episode_row \<Rightarrow> bool" where
  "episode_later e e' \<longleftrightarrow> epr_id e' = epr_id e \<and> epr_workspace_id e' = epr_workspace_id e
     \<and> epr_session_id e' = epr_session_id e \<and> epr_task_id e' = epr_task_id e
     \<and> epr_created_by e' = epr_created_by e \<and> epr_version e \<le> epr_version e'
     \<and> (epr_status e \<noteq> ''open'' \<longrightarrow> e' = e)"

definition episodes_later :: "history_db \<Rightarrow> history_db \<Rightarrow> bool" where
  "episodes_later db db' \<longleftrightarrow> (\<forall>w i e. episode_row_of w i db = Some e \<longrightarrow>
     (\<exists>e'. episode_row_of w i db' = Some e' \<and> episode_later e e'
        \<and> (epr_status e \<noteq> ''open'' \<longrightarrow> members_of w i db' = members_of w i db)))"

definition history_later :: "history_db \<Rightarrow> history_db \<Rightarrow> bool" where
  "history_later db db' \<longleftrightarrow> appended db db' \<and> episodes_later db db'"

lemma episode_later_refl [simp]: "episode_later e e"
  by (simp add: episode_later_def)

lemma episode_later_trans: "episode_later a b \<Longrightarrow> episode_later b c \<Longrightarrow> episode_later a c"
  unfolding episode_later_def by auto

lemma episodes_later_refl [simp]: "episodes_later db db"
  by (simp add: episodes_later_def)

lemma episodes_later_trans:
  assumes "episodes_later a b" and "episodes_later b c"
  shows "episodes_later a c"
  unfolding episodes_later_def
proof (intro allI impI)
  fix w i e
  assume "episode_row_of w i a = Some e"
  with assms(1) obtain e' where e': "episode_row_of w i b = Some e'" "episode_later e e'"
      "epr_status e \<noteq> ''open'' \<Longrightarrow> members_of w i b = members_of w i a"
    unfolding episodes_later_def by blast
  with assms(2) obtain e'' where e'': "episode_row_of w i c = Some e''" "episode_later e' e''"
      "epr_status e' \<noteq> ''open'' \<Longrightarrow> members_of w i c = members_of w i b"
    unfolding episodes_later_def by blast
  have "episode_later e e''" using e'(2) e''(2) by (rule episode_later_trans)
  then show "\<exists>e'. episode_row_of w i c = Some e' \<and> episode_later e e'
      \<and> (epr_status e \<noteq> ''open'' \<longrightarrow> members_of w i c = members_of w i a)"
    using e' e'' by (auto simp: episode_later_def)
qed

lemma history_later_refl [simp]: "history_later db db"
  by (simp add: history_later_def)

lemma history_later_trans: "history_later a b \<Longrightarrow> history_later b c \<Longrightarrow> history_later a c"
  unfolding history_later_def by (blast intro: appended_trans episodes_later_trans)

lemma event_row_later:
  "history_later db db' \<Longrightarrow> event_row_of w i db = Some v \<Longrightarrow> event_row_of w i db' = Some v"
  unfolding history_later_def appended_def event_row_of_def by (blast intro: find_prefix)

lemma request_later:
  "history_later db db' \<Longrightarrow> episode_mutation_request w i k db = Some r
    \<Longrightarrow> episode_mutation_request w i k db' = Some r"
  unfolding history_later_def appended_def episode_mutation_request_def by (blast intro: find_prefix)

text \<open>A database that differs only in tables that grow and that episodes do not use.\<close>

lemma history_later_grown:
  assumes "appended db db'" and "hd_episodes db' = hd_episodes db"
    and "hd_members db' = hd_members db"
  shows "history_later db db'"
  using assms by (auto simp: history_later_def episodes_later_def episode_row_of_def members_of_def)

section \<open>The invariant of the episode tables\<close>

definition member_ok :: "history_db \<Rightarrow> episode_event_row \<Rightarrow> bool" where
  "member_ok db m \<longleftrightarrow>
     (case (episode_row_of (mbr_workspace_id m) (mbr_episode_id m) db,
            event_row_of (mbr_workspace_id m) (mbr_event_id m) db) of
        (Some e, Some v) \<Rightarrow> evr_session_id v = Some (epr_session_id e)
          \<and> evr_task_id v = epr_task_id e
      | _ \<Rightarrow> False)"

definition episode_members :: "string \<Rightarrow> string \<Rightarrow> history_db \<Rightarrow> episode_event_row list" where
  "episode_members w i db =
     filter (\<lambda>m. mbr_workspace_id m = w \<and> mbr_episode_id m = i) (hd_members db)"

definition contiguous :: "episode_event_row list \<Rightarrow> bool" where
  "contiguous ms \<longleftrightarrow> map mbr_ordinal ms = map int [0..<length ms]"

definition request_ok :: "history_db \<Rightarrow> mutation_row \<Rightarrow> bool" where
  "request_ok db r \<longleftrightarrow>
     (case episode_row_of (mur_workspace_id r) (mur_episode_id r) db of
        Some e \<Rightarrow> 0 \<le> mur_resulting_version r \<and> mur_resulting_version r \<le> epr_version e
      | None \<Rightarrow> False)"

definition status_ok :: "episode_row \<Rightarrow> bool" where
  "status_ok e \<longleftrightarrow> 0 \<le> epr_version e \<and> epr_status e \<in> {''open'', ''closed'', ''abandoned''}"

definition member_key :: "episode_event_row \<Rightarrow> string \<times> string" where
  "member_key m = (mbr_workspace_id m, mbr_event_id m)"

definition episodes_ok :: "history_db \<Rightarrow> bool" where
  "episodes_ok db \<longleftrightarrow> distinct (map epr_id (hd_episodes db)) \<and> distinct (map evr_id (hd_events db))
     \<and> (\<forall>e \<in> set (hd_episodes db). status_ok e)
     \<and> (\<forall>m \<in> set (hd_members db). member_ok db m)
     \<and> (\<forall>w i. contiguous (episode_members w i db) \<and> length (episode_members w i db) \<le> 100)
     \<and> distinct (map member_key (hd_members db))
     \<and> (\<forall>r \<in> set (hd_requests db). request_ok db r)"

lemma contiguous_sorted: "contiguous ms \<Longrightarrow> sort_key mbr_ordinal ms = ms"
  by (rule sort_key_id_if_sorted) (simp add: contiguous_def sorted_wrt_map sorted_iff_nth_mono)

lemma members_of_ok: "episodes_ok db \<Longrightarrow> members_of w i db = episode_members w i db"
  by (simp add: episodes_ok_def members_of_def episode_members_def [symmetric] contiguous_sorted)

lemma episode_members_eq: "episode_members w i db =
    filter (\<lambda>m. mbr_workspace_id m = w \<and> mbr_episode_id m = i) (hd_members db)"
  by (simp add: episode_members_def)

text \<open>Rows that refer to episodes and events stay right in a later database.\<close>

lemma member_ok_later:
  assumes "history_later db db'" and "member_ok db m"
  shows "member_ok db' m"
proof -
  obtain e v where e: "episode_row_of (mbr_workspace_id m) (mbr_episode_id m) db = Some e"
    and v: "event_row_of (mbr_workspace_id m) (mbr_event_id m) db = Some v"
    and scope: "evr_session_id v = Some (epr_session_id e)" "evr_task_id v = epr_task_id e"
    using assms(2) by (auto simp: member_ok_def split: option.splits)
  obtain e' where "episode_row_of (mbr_workspace_id m) (mbr_episode_id m) db' = Some e'"
    and "episode_later e e'"
    using assms(1) e unfolding history_later_def episodes_later_def by blast
  then show ?thesis
    using event_row_later [OF assms(1) v] scope by (simp add: member_ok_def episode_later_def)
qed

lemma request_ok_later:
  assumes "history_later db db'" and "request_ok db r"
  shows "request_ok db' r"
proof -
  obtain e where e: "episode_row_of (mur_workspace_id r) (mur_episode_id r) db = Some e"
    and v: "0 \<le> mur_resulting_version r" "mur_resulting_version r \<le> epr_version e"
    using assms(2) by (auto simp: request_ok_def split: option.splits)
  obtain e' where "episode_row_of (mur_workspace_id r) (mur_episode_id r) db' = Some e'"
    and "episode_later e e'"
    using assms(1) e unfolding history_later_def episodes_later_def by blast
  then show ?thesis using v by (simp add: request_ok_def episode_later_def)
qed

section \<open>What the operations do\<close>

lemma insert_event_Inr:
  assumes "insert_event_in_transaction cd e db = Inr (u, db')"
  shows "\<exists>r. db' = db\<lparr>hd_events := hd_events db @ [r], hd_last_sequence := hd_last_sequence db + 1,
        hd_order := hd_order db @ [\<lparr>odr_sequence = hd_last_sequence db + 1,
          odr_workspace_id = event_workspace_id e, odr_entity_kind = ''event'',
          odr_entity_id = event_id e\<rparr>]\<rparr>
      \<and> evr_id r = event_id e \<and> evr_workspace_id r = event_workspace_id e
      \<and> evr_id r \<notin> evr_id ` set (hd_events db)
      \<and> (event_workspace_id e, ''event'', event_id e)
          \<notin> (\<lambda>r. (odr_workspace_id r, odr_entity_kind r, odr_entity_id r)) ` set (hd_order db)
      \<and> write_json cd (event_payload e) = Inr (evr_payload_json r)"
proof -
  obtain t where "write_json cd (event_payload e) = Inr t"
    using assms by (auto simp: insert_event_in_transaction_def and_then_eq_Inr)
  then show ?thesis
    using assms
    by (intro exI [of _ "\<lparr>evr_id = event_id e, evr_workspace_id = event_workspace_id e,
        evr_session_id = event_session_id e, evr_task_id = event_task_id e,
        evr_event_type = event_storage_name (event_type_of e), evr_payload_json = t,
        evr_created_at = event_created_at e\<rparr>"])
      (auto simp: insert_event_in_transaction_def insert_event_row_def and_then_eq_Inr
        insert_historical_write_order_def Let_def list_ex_iff)
qed

lemma insert_episode_Inr:
  assumes "insert_episode e db = Inr (u, db')"
  shows "\<exists>r. db' = db\<lparr>hd_episodes := hd_episodes db @ [r]\<rparr>
      \<and> epr_id r = ep_id e \<and> epr_workspace_id r = ep_workspace_id e
      \<and> epr_status r = episode_status_as_str (ep_status e) \<and> epr_version r = int (ep_version e)
      \<and> ep_id e \<notin> epr_id ` set (hd_episodes db)"
  using assms by (auto simp: insert_episode_def and_then_eq_Inr episode_version_def split: if_splits)

definition member_row :: "string \<Rightarrow> string \<Rightarrow> timestamp \<Rightarrow> nat \<times> string \<Rightarrow> episode_event_row" where
  "member_row w i now ke = \<lparr>mbr_workspace_id = w, mbr_episode_id = i, mbr_event_id = snd ke,
     mbr_ordinal = int (fst ke), mbr_associated_at = now\<rparr>"

lemma member_allowed_cong:
  "hd_episodes db' = hd_episodes db \<Longrightarrow> hd_events db' = hd_events db
    \<Longrightarrow> member_allowed w i v db' = member_allowed w i v db"
  by (simp add: member_allowed_def episode_row_of_def event_row_of_def)

lemma insert_episode_events_Inr:
  assumes "try_tx (insert_episode_event w i now) kes db = Inr db'"
  shows "db' = db\<lparr>hd_members := hd_members db @ map (member_row w i now) kes\<rparr>
    \<and> (\<forall>ke \<in> set kes. member_allowed w i (snd ke) db)
    \<and> distinct (map snd kes)
    \<and> (\<forall>m \<in> set (hd_members db). mbr_workspace_id m = w \<longrightarrow> mbr_event_id m \<notin> snd ` set kes)"
  using assms
proof (induction kes arbitrary: db)
  case Nil
  then show ?case by (simp add: try_tx_def)
next
  case (Cons ke kes)
  obtain k v where ke: "ke = (k, v)" by (cases ke)
  let ?db = "db\<lparr>hd_members := hd_members db @ [member_row w i now (k, v)]\<rparr>"
  have head: "member_allowed w i v db"
      "\<forall>m \<in> set (hd_members db). mbr_workspace_id m = w \<longrightarrow> mbr_event_id m \<noteq> v"
    and "try_tx (insert_episode_event w i now) kes ?db = Inr db'"
    using Cons.prems unfolding ke
    by (auto simp: try_tx_def and_then_eq_Inr insert_episode_event_def member_row_def list_ex_iff)
  from Cons.IH [OF this(3)]
  have db': "db' = ?db\<lparr>hd_members := hd_members ?db @ map (member_row w i now) kes\<rparr>"
    and all: "\<forall>ke \<in> set kes. member_allowed w i (snd ke) db" "distinct (map snd kes)"
      "\<forall>m \<in> set (hd_members ?db). mbr_workspace_id m = w \<longrightarrow> mbr_event_id m \<notin> snd ` set kes"
    using member_allowed_cong [of ?db db w i] by simp_all
  have "v \<notin> snd ` set kes" using all(3) by (simp add: member_row_def)
  then show ?case using db' head all by (auto simp: ke)
qed

lemma stored_episode_Inr:
  "stored_episode w i db = Inr (Some e) \<longleftrightarrow>
    (\<exists>r. episode_row_of w i db = Some r \<and> episode_of_row r = Inr e)"
  by (auto simp: stored_episode_def transpose_row_def and_then_eq_Inr split: option.splits)

lemma require_stored_episode_Inr:
  "require_stored_episode w i db = Inr e \<longleftrightarrow>
    (\<exists>r. episode_row_of w i db = Some r \<and> episode_of_row r = Inr e)"
  by (auto simp: require_stored_episode_def and_then_eq_Inr stored_episode_Inr)

lemma episode_of_row_Inr:
  "episode_of_row r = Inr e \<Longrightarrow> 0 \<le> epr_version r \<and> ep_version e = nat (epr_version r)
    \<and> ep_status e = episode_status_from_storage (epr_status r) \<and> ep_id e = epr_id r
    \<and> ep_workspace_id e = epr_workspace_id r \<and> ep_session_id e = epr_session_id r
    \<and> ep_task_id e = epr_task_id r"
  by (auto simp: episode_of_row_def and_then_eq_Inr)

lemma episode_of_row_ok: "status_ok r \<Longrightarrow> \<exists>e. episode_of_row r = Inr e"
  by (simp add: episode_of_row_def status_ok_def result_simps)

text \<open>The row of an episode, when ids are distinct.\<close>

lemma find_key:
  assumes "distinct (map f xs)" and "x \<in> set xs" and "P x" and "\<And>y. P y \<Longrightarrow> f y = f x"
  shows "find P xs = Some x"
  using assms(1,2)
proof (induction xs)
  case (Cons z zs)
  show ?case
  proof (cases "P z")
    case True
    then have "f z = f x" by (rule assms(4))
    with Cons.prems have "z = x" by (auto simp: image_iff)
    with True show ?thesis by simp
  next
    case False
    with assms(3) Cons show ?thesis by auto
  qed
qed simp

lemma episode_row_of_member:
  "distinct (map epr_id (hd_episodes db)) \<Longrightarrow> e \<in> set (hd_episodes db)
    \<Longrightarrow> episode_row_of (epr_workspace_id e) (epr_id e) db = Some e"
  unfolding episode_row_of_def by (rule find_key [of epr_id]) auto

lemma episode_row_of_Some:
  "episode_row_of w i db = Some e \<Longrightarrow> e \<in> set (hd_episodes db) \<and> epr_workspace_id e = w \<and> epr_id e = i"
  unfolding episode_row_of_def by (auto dest: find_SomeD)

lemma event_row_of_Some:
  "event_row_of w i db = Some v \<Longrightarrow> v \<in> set (hd_events db) \<and> evr_workspace_id v = w \<and> evr_id v = i"
  unfolding event_row_of_def by (auto dest: find_SomeD)

lemma find_map_update:
  assumes "\<And>x. P (g x) = P x"
  shows "find P (map (\<lambda>x. if Q x then g x else x) xs) =
    map_option (\<lambda>x. if Q x then g x else x) (find P xs)"
  by (induction xs) (auto simp: assms)


definition mutation_events :: "episode_mutation \<Rightarrow> string list" where
  "mutation_events m = (case mt_event_ids m of None \<Rightarrow> [] | Some es \<Rightarrow> es)"

definition updated_episodes :: "episode_mutation \<Rightarrow> int \<Rightarrow> int \<Rightarrow> history_db \<Rightarrow> history_db" where
  "updated_episodes m v n db = db\<lparr>hd_episodes :=
     map (\<lambda>r. if mutable_episode m v r then mutate_row m n r else r) (hd_episodes db)\<rparr>"

definition mutated :: "episode_mutation \<Rightarrow> int \<Rightarrow> int \<Rightarrow> history_db \<Rightarrow> history_db" where
  "mutated m v n db = (updated_episodes m v n db)\<lparr>hd_members := hd_members db
     @ map (member_row (mt_workspace_id m) (mt_episode_id m) (mt_occurred_at m))
         (enumerate (length (members_of (mt_workspace_id m) (mt_episode_id m) db))
           (mutation_events m))\<rparr>"

lemma add_members_Inr:
  assumes "add_members w i now es db = Inr (u, db')"
  defines "n \<equiv> length (members_of w i db)"
  shows "db' = db\<lparr>hd_members := hd_members db @ map (member_row w i now) (enumerate n es)\<rparr>
    \<and> n + length es \<le> 100 \<and> (\<forall>v \<in> set es. member_allowed w i v db) \<and> distinct es
    \<and> (\<forall>m \<in> set (hd_members db). mbr_workspace_id m = w \<longrightarrow> mbr_event_id m \<notin> set es)"
proof -
  have "try_tx (insert_episode_event w i now) (enumerate n es) db = Inr db'"
    and "n + length es \<le> 100"
    using assms(1) unfolding n_def
    by (auto simp: add_members_def Let_def and_then_eq_Inr max_episode_events_def)
  moreover have "snd ` set (enumerate n es) = set es" and "map snd (enumerate n es) = es"
    by (metis map_snd_enumerate set_map, simp)
  moreover note inserted = insert_episode_events_Inr [OF \<open>try_tx _ _ _ = _\<close>]
  then have "\<forall>v \<in> snd ` set (enumerate n es). member_allowed w i v db" by simp
  ultimately show ?thesis using inserted by simp
qed

lemma mutated_no_events: "mt_event_ids m = None \<Longrightarrow> mutated m v n db = updated_episodes m v n db"
  by (simp add: mutated_def updated_episodes_def mutation_events_def)

lemma apply_mutation_Inr:
  assumes "apply_mutation m v n db = Inr (e, db')"
  shows "db' = mutated m v n db
    \<and> (\<exists>r \<in> set (hd_episodes db). mutable_episode m v r)
    \<and> stored_episode (mt_workspace_id m) (mt_episode_id m) db' = Inr (Some e)
    \<and> (mutation_events m = []
       \<or> length (members_of (mt_workspace_id m) (mt_episode_id m) db) + length (mutation_events m) \<le> 100)
    \<and> (\<forall>x \<in> set (mutation_events m). member_allowed (mt_workspace_id m) (mt_episode_id m) x
         (updated_episodes m v n db))
    \<and> distinct (mutation_events m)
    \<and> (\<forall>x \<in> set (hd_members db). mbr_workspace_id x = mt_workspace_id m
         \<longrightarrow> mbr_event_id x \<notin> set (mutation_events m))"
proof -
  let ?w = "mt_workspace_id m" and ?i = "mt_episode_id m"
  let ?u = "updated_episodes m v n db"
  have one: "length (filter (mutable_episode m v) (hd_episodes db)) = 1"
    and step: "case mt_event_ids m of None \<Rightarrow> db' = ?u
      | Some es \<Rightarrow> add_members ?w ?i (mt_occurred_at m) es ?u = Inr ((), db')"
    and e: "require_stored_episode ?w ?i db' = Inr e"
    using assms by (auto simp: apply_mutation_def update_where_def updated_episodes_def and_then_eq_Inr
        split: if_splits option.splits)
  have "filter (mutable_episode m v) (hd_episodes db) \<noteq> []" using one by auto
  then have some: "\<exists>r \<in> set (hd_episodes db). mutable_episode m v r"
    by (auto simp: filter_empty_conv)
  have stored: "stored_episode ?w ?i db' = Inr (Some e)"
    using e by (simp add: require_stored_episode_Inr stored_episode_Inr)
  show ?thesis
  proof (cases "mt_event_ids m")
    case None
    then show ?thesis using step some stored
      by (simp add: mutated_no_events) (simp add: mutation_events_def)
  next
    case (Some es)
    have len: "members_of ?w ?i ?u = members_of ?w ?i db" and mem: "hd_members ?u = hd_members db"
      by (simp_all add: members_of_def updated_episodes_def)
    have "add_members ?w ?i (mt_occurred_at m) es ?u = Inr ((), db')" using step Some by simp
    from add_members_Inr [OF this] show ?thesis
      using some stored Some by (simp add: mutated_def mutation_events_def len mem)
  qed
qed

lemma mutate_episode_cases:
  assumes "mutate_episode m db = Inr (e, db')"
  obtains
    (replay) r where "episode_mutation_request (mt_workspace_id m) (mt_episode_id m)
        (mt_request_key m) db = Some r" and "replay_mutation m r db = Inr (e, db')"
  | (fresh) db1 v where "episode_mutation_request (mt_workspace_id m) (mt_episode_id m)
        (mt_request_key m) db = None"
      and "v = int (mt_expected_version m)" and "reserve_mutation m (v + 1) db = Inr ((), db1)"
      and "apply_mutation m v (v + 1) db1 = Inr (e, db')"
  using assms that
  by (auto simp: mutate_episode_def and_then_eq_Inr episode_version_def i64_checked_add_def
      split: if_splits option.splits sum.splits)

lemma replay_mutation_Inr:
  "replay_mutation m r db = Inr (e, db') \<Longrightarrow> db' = db
    \<and> (mur_operation r, mur_request_hash r) = (mt_operation m, mt_request_hash m)
    \<and> stored_episode (mt_workspace_id m) (mt_episode_id m) db = Inr (Some e)"
  by (auto simp: replay_mutation_def and_then_eq_Inr require_stored_episode_Inr stored_episode_Inr)

definition mutation_row_of :: "episode_mutation \<Rightarrow> int \<Rightarrow> mutation_row" where
  "mutation_row_of m version =
     \<lparr>mur_workspace_id = mt_workspace_id m, mur_episode_id = mt_episode_id m,
      mur_operation = mt_operation m, mur_request_key = mt_request_key m,
      mur_request_hash = mt_request_hash m, mur_resulting_version = version,
      mur_created_at = mt_occurred_at m\<rparr>"

lemma reserve_mutation_Inr:
  "reserve_mutation m n db = Inr (u, db') \<Longrightarrow>
    db' = db\<lparr>hd_requests := hd_requests db @ [mutation_row_of m n]\<rparr>
    \<and> episode_mutation_request (mt_workspace_id m) (mt_episode_id m) (mt_request_key m) db = None
    \<and> 0 \<le> n"
  by (simp add: reserve_mutation_def mutation_row_of_def)

text \<open>A mutation that is not a replay: the row of the episode, the recorded request, the rows of
  the new members.\<close>

lemma mutate_episode_applied:
  assumes "mutate_episode m db = Inr (e, db')"
    and "episode_mutation_request (mt_workspace_id m) (mt_episode_id m) (mt_request_key m) db = None"
    and "distinct (map epr_id (hd_episodes db))"
  defines "v \<equiv> int (mt_expected_version m)"
  shows "db' = mutated m v (v + 1) (db\<lparr>hd_requests := hd_requests db @ [mutation_row_of m (v + 1)]\<rparr>)
    \<and> (\<exists>r. episode_row_of (mt_workspace_id m) (mt_episode_id m) db = Some r \<and> mutable_episode m v r)
    \<and> stored_episode (mt_workspace_id m) (mt_episode_id m) db' = Inr (Some e)
    \<and> (mutation_events m = []
       \<or> length (members_of (mt_workspace_id m) (mt_episode_id m) db) + length (mutation_events m) \<le> 100)
    \<and> (\<forall>x \<in> set (mutation_events m). member_allowed (mt_workspace_id m) (mt_episode_id m) x
         (updated_episodes m v (v + 1) db))
    \<and> distinct (mutation_events m)
    \<and> (\<forall>x \<in> set (hd_members db). mbr_workspace_id x = mt_workspace_id m
         \<longrightarrow> mbr_event_id x \<notin> set (mutation_events m))"
  using assms(1)
proof (cases rule: mutate_episode_cases)
  case (replay r)
  then show ?thesis using assms(2) by simp
next
  case (fresh db1 v')
  have v': "v' = v" using fresh(2) by (simp add: v_def)
  note db1 = conjunct1 [OF reserve_mutation_Inr [OF fresh(3)], unfolded v']
  note facts = apply_mutation_Inr [OF fresh(4), unfolded v']
  have same: "members_of w i db1 = members_of w i db" "hd_members db1 = hd_members db"
    "hd_episodes db1 = hd_episodes db" for w i
    unfolding db1 by (simp_all add: members_of_def)
  have allowed: "member_allowed w i x (updated_episodes m v (v + 1) db1)
      = member_allowed w i x (updated_episodes m v (v + 1) db)" for w i x
    by (rule member_allowed_cong) (simp_all add: updated_episodes_def db1)
  obtain r where r: "r \<in> set (hd_episodes db)" "mutable_episode m v r"
    using facts same(3) by auto
  have "epr_workspace_id r = mt_workspace_id m \<and> epr_id r = mt_episode_id m"
    using r(2) by (simp add: mutable_episode_def)
  then have "episode_row_of (mt_workspace_id m) (mt_episode_id m) db = Some r"
    using episode_row_of_member [OF assms(3) r(1)] by simp
  then show ?thesis
    using facts r(2) unfolding db1 [symmetric] same allowed by blast
qed

lemma mutate_episode_stored:
  assumes "distinct (map epr_id (hd_episodes db))" and "mutate_episode m db = Inr (e, db')"
  shows "stored_episode (mt_workspace_id m) (mt_episode_id m) db' = Inr (Some e)"
  using assms(2)
proof (cases rule: mutate_episode_cases)
  case (replay r)
  then show ?thesis using replay_mutation_Inr by blast
next
  case (fresh db1 v)
  then show ?thesis using mutate_episode_applied [OF assms(2) _ assms(1)] by blast
qed

section \<open>What the operations keep\<close>

lemma mutated_simps [simp]:
  "hd_episodes (mutated m v n db) =
     map (\<lambda>r. if mutable_episode m v r then mutate_row m n r else r) (hd_episodes db)"
  "hd_events (mutated m v n db) = hd_events db" "hd_requests (mutated m v n db) = hd_requests db"
  "hd_events (updated_episodes m v n db) = hd_events db"
  "hd_members (mutated m v n db) = hd_members db
     @ map (member_row (mt_workspace_id m) (mt_episode_id m) (mt_occurred_at m))
         (enumerate (length (members_of (mt_workspace_id m) (mt_episode_id m) db))
           (mutation_events m))"
  by (simp_all add: mutated_def updated_episodes_def)

lemma mutate_row_simps [simp]:
  "epr_id (mutate_row m n r) = epr_id r" "epr_workspace_id (mutate_row m n r) = epr_workspace_id r"
  "epr_session_id (mutate_row m n r) = epr_session_id r" "epr_task_id (mutate_row m n r) = epr_task_id r"
  "epr_created_by (mutate_row m n r) = epr_created_by r" "epr_version (mutate_row m n r) = n"
  by (simp_all add: mutate_row_def split: option.split)

lemma member_row_simps [simp]:
  "mbr_workspace_id (member_row w i now ke) = w" "mbr_episode_id (member_row w i now ke) = i"
  "mbr_event_id (member_row w i now ke) = snd ke" "mbr_ordinal (member_row w i now ke) = int (fst ke)"
  by (simp_all add: member_row_def)

lemma episode_row_of_mutated:
  "episode_row_of w i (mutated m v n db) =
    map_option (\<lambda>r. if mutable_episode m v r then mutate_row m n r else r) (episode_row_of w i db)"
  unfolding episode_row_of_def by (simp, rule find_map_update) simp

lemma episode_members_mutated:
  "episode_members w i (mutated m v n db) = episode_members w i db
     @ (if w = mt_workspace_id m \<and> i = mt_episode_id m
        then map (member_row w i (mt_occurred_at m)) (enumerate (length (episode_members w i db))
          (mutation_events m)) else [])"
  by (auto simp: episode_members_def members_of_def filter_map o_def)

lemma mutated_appended: "appended db (mutated m v n db)"
  by (simp add: appended_def mutated_def updated_episodes_def)

definition proper_mutation :: "episode_mutation \<Rightarrow> bool" where
  "proper_mutation m \<longleftrightarrow> pred_option (\<lambda>s. s \<in> {ClosedEpisode, AbandonedEpisode}
     \<and> mt_event_ids m = None) (mt_terminal_status m)"

text \<open>The mutation of an open episode.\<close>

lemma mutated_later:
  assumes "episode_row_of (mt_workspace_id m) (mt_episode_id m) db = Some r" and "mutable_episode m v r"
    and "\<And>w i. members_of w i (mutated m v (v + 1) db) = episode_members w i (mutated m v (v + 1) db)"
    and "\<And>w i. members_of w i db = episode_members w i db"
  shows "history_later db (mutated m v (v + 1) db)"
  unfolding history_later_def episodes_later_def
proof (intro conjI allI impI)
  show "appended db (mutated m v (v + 1) db)" by (rule mutated_appended)
next
  fix w i e
  assume e: "episode_row_of w i db = Some e"
  have "members_of w i (mutated m v (v + 1) db) = members_of w i db" if "epr_status e \<noteq> ''open''"
  proof -
    have "epr_status r = ''open''" using assms(2) by (simp add: mutable_episode_def)
    then have "(w, i) \<noteq> (mt_workspace_id m, mt_episode_id m)" using assms(1) e that by auto
    then show ?thesis unfolding assms(3,4) by (auto simp: episode_members_mutated)
  qed
  then show "\<exists>e'. episode_row_of w i (mutated m v (v + 1) db) = Some e' \<and> episode_later e e'
      \<and> (epr_status e \<noteq> ''open'' \<longrightarrow> members_of w i (mutated m v (v + 1) db) = members_of w i db)"
    using e by (auto simp: episode_row_of_mutated episode_later_def mutable_episode_def)
qed

lemma contiguous_extend:
  "contiguous ms \<Longrightarrow> contiguous (ms @ map (member_row w i now) (enumerate (length ms) es))"
proof -
  have "map (mbr_ordinal \<circ> member_row w i now) (enumerate n es) = map int [n..<n + length es]" for n
  proof -
    have "mbr_ordinal \<circ> member_row w i now = int \<circ> fst" by auto
    then show ?thesis by (simp flip: map_map)
  qed
  moreover have "[0..<length ms + length es] = [0..<length ms] @ [length ms..<length ms + length es]"
    by (rule upt_add_eq_append) simp
  ultimately show "contiguous ms \<Longrightarrow> ?thesis" by (simp add: contiguous_def)
qed

lemma in_enumerate_snd: "p \<in> set (enumerate k xs) \<Longrightarrow> snd p \<in> set xs"
  by (metis image_eqI map_snd_enumerate set_map)

lemma member_allowed_ok:
  assumes "member_allowed w i v db" and "hd_episodes db' = hd_episodes db"
    and "hd_events db' = hd_events db"
  shows "member_ok db' (member_row w i now (k, v))"
  using assms by (auto simp: member_allowed_def member_ok_def episode_row_of_def event_row_of_def
      split: option.splits)

lemma members_keep_later:
  "\<forall>x \<in> set ms. member_ok db x \<Longrightarrow> history_later db db' \<Longrightarrow> \<forall>x \<in> set ms. member_ok db' x"
  using member_ok_later by blast

lemma requests_keep_later:
  "\<forall>x \<in> set rs. request_ok db x \<Longrightarrow> history_later db db' \<Longrightarrow> \<forall>x \<in> set rs. request_ok db' x"
  using request_ok_later by blast

lemma mutate_episode_keeps:
  assumes ok: "episodes_ok db" and "proper_mutation m" and result: "mutate_episode m db = Inr (e, db')"
  shows "history_later db db' \<and> episodes_ok db'"
proof (cases "episode_mutation_request (mt_workspace_id m) (mt_episode_id m) (mt_request_key m) db")
  case (Some r)
  then have "db' = db" using result
    by (cases rule: mutate_episode_cases [OF result]) (auto dest: replay_mutation_Inr)
  then show ?thesis using ok by simp
next
  case None
  let ?w = "mt_workspace_id m" and ?i = "mt_episode_id m"
  define v where "v = int (mt_expected_version m)"
  define db1 where "db1 = db\<lparr>hd_requests := hd_requests db @ [mutation_row_of m (v + 1)]\<rparr>"
  have ids: "distinct (map epr_id (hd_episodes db))" using ok by (simp add: episodes_ok_def)
  note facts = mutate_episode_applied [OF result None ids, folded v_def, folded db1_def]
  have db': "db' = mutated m v (v + 1) db1" using facts by blast
  obtain r where r: "episode_row_of ?w ?i db = Some r" "mutable_episode m v r" using facts by blast
  have same: "hd_members db1 = hd_members db" "hd_episodes db1 = hd_episodes db"
      "hd_events db1 = hd_events db" "\<And>w i. members_of w i db1 = members_of w i db"
      "\<And>w i. episode_members w i db1 = episode_members w i db"
      "\<And>w i. episode_row_of w i db1 = episode_row_of w i db"
    unfolding db1_def by (simp_all add: members_of_def episode_members_def episode_row_of_def)
  have members: "members_of w i db = episode_members w i db" for w i
    using ok by (rule members_of_ok)
  have good: "contiguous (episode_members w i db') \<and> length (episode_members w i db') \<le> 100" for w i
    using ok facts unfolding db' episode_members_mutated same
    by (auto simp: episodes_ok_def members intro: contiguous_extend)
  then have members': "members_of w i db' = episode_members w i db'" for w i
    by (simp add: members_of_def episode_members_def [symmetric] contiguous_sorted)
  have "history_later db1 db'" unfolding db'
    by (rule mutated_later [of m _ r]) (use r members members' in \<open>simp_all add: same db'\<close>)
  moreover have "history_later db db1"
    by (rule history_later_grown) (simp_all add: db1_def appended_def)
  ultimately have later: "history_later db db'" by (blast intro: history_later_trans)
  have allowed: "member_ok db' x"
    if x: "x \<in> set (map (member_row ?w ?i (mt_occurred_at m)) (enumerate k (mutation_events m)))" for x k
  proof -
    obtain p where p: "x = member_row ?w ?i (mt_occurred_at m) (fst p, snd p)"
        and "p \<in> set (enumerate k (mutation_events m))"
      using x by auto
    then have "member_allowed ?w ?i (snd p) (updated_episodes m v (v + 1) db)"
      using facts in_enumerate_snd by blast
    then show ?thesis
      unfolding p(1) by (rule member_allowed_ok) (simp_all add: db' updated_episodes_def db1_def)
  qed
  have "\<forall>x \<in> set (hd_members db). member_ok db' x"
    by (rule members_keep_later [OF _ later]) (use ok in \<open>simp add: episodes_ok_def\<close>)
  then have "\<forall>x \<in> set (hd_members db'). member_ok db' x"
    using allowed by (auto simp: db' same)
  moreover have "\<forall>x \<in> set (hd_requests db). request_ok db' x"
    by (rule requests_keep_later [OF _ later]) (use ok in \<open>simp add: episodes_ok_def\<close>)
  moreover have "request_ok db' (mutation_row_of m (v + 1))"
    using r by (simp add: request_ok_def mutation_row_of_def db' episode_row_of_mutated same v_def)
  moreover have "\<forall>x \<in> set (hd_episodes db'). status_ok x"
    using ok \<open>proper_mutation m\<close>
    by (auto simp: db' same episodes_ok_def status_ok_def mutate_row_def v_def proper_mutation_def
        episode_status_as_str_def enum_name_def episode_status_names_def split: option.splits)
  moreover have "distinct (map member_key (hd_members db'))"
  proof -
    have "map (member_key \<circ> member_row ?w ?i now) (enumerate k es) = map (Pair ?w) es" for now k es
    proof -
      have "member_key \<circ> member_row ?w ?i now = Pair ?w \<circ> snd" by (auto simp: member_key_def)
      then show ?thesis by (simp flip: map_map)
    qed
    then have "map member_key (hd_members db')
        = map member_key (hd_members db) @ map (Pair ?w) (mutation_events m)"
      by (simp add: db' same)
    moreover have "distinct (map member_key (hd_members db))" using ok by (simp add: episodes_ok_def)
    moreover have "distinct (map (Pair ?w) (mutation_events m))"
      using facts by (simp add: distinct_map inj_on_def)
    moreover have "set (map member_key (hd_members db)) \<inter> set (map (Pair ?w) (mutation_events m)) = {}"
      using facts by (auto simp: member_key_def)
    ultimately show ?thesis by simp
  qed
  moreover have "map epr_id (hd_episodes db') = map epr_id (hd_episodes db)"
    by (simp add: db' same)
  moreover have "hd_events db' = hd_events db" by (simp add: db' same)
  moreover have "set (hd_requests db') = insert (mutation_row_of m (v + 1)) (set (hd_requests db))"
    by (simp add: db') (simp add: db1_def)
  ultimately have "episodes_ok db'" using ok good unfolding episodes_ok_def by simp
  with later show ?thesis by simp
qed


lemma episodes_ok_grown:
  assumes "episodes_ok db" and "appended db db'" and "hd_episodes db' = hd_episodes db"
    and "hd_members db' = hd_members db" and "hd_requests db' = hd_requests db"
    and "distinct (map evr_id (hd_events db'))"
  shows "history_later db db' \<and> episodes_ok db'"
proof -
  have later: "history_later db db'" using assms(2-4) by (rule history_later_grown)
  have "\<forall>x \<in> set (hd_members db). member_ok db' x"
    by (rule members_keep_later [OF _ later]) (use assms(1) in \<open>simp add: episodes_ok_def\<close>)
  moreover have "\<forall>x \<in> set (hd_requests db). request_ok db' x"
    by (rule requests_keep_later [OF _ later]) (use assms(1) in \<open>simp add: episodes_ok_def\<close>)
  ultimately show ?thesis using assms later by (simp add: episodes_ok_def episode_members_def)
qed

lemma insert_event_keeps:
  assumes "episodes_ok db" and "insert_event_in_transaction cd e db = Inr (u, db')"
  shows "history_later db db' \<and> episodes_ok db'"
proof -
  obtain r where "evr_id r \<notin> evr_id ` set (hd_events db)"
      and db': "db' = db\<lparr>hd_events := hd_events db @ [r], hd_last_sequence := hd_last_sequence db + 1,
        hd_order := hd_order db @ [\<lparr>odr_sequence = hd_last_sequence db + 1,
          odr_workspace_id = event_workspace_id e, odr_entity_kind = ''event'',
          odr_entity_id = event_id e\<rparr>]\<rparr>"
    using insert_event_Inr [OF assms(2)] by blast
  with assms(1) show ?thesis
    by (intro episodes_ok_grown) (simp_all add: appended_def episodes_ok_def)
qed

lemma insert_episode_keeps:
  assumes ok: "episodes_ok db" and "insert_episode e db = Inr (u, db')"
    and "ep_status e = OpenEpisode"
  shows "history_later db db' \<and> episodes_ok db'"
proof -
  obtain r where db': "db' = db\<lparr>hd_episodes := hd_episodes db @ [r]\<rparr>"
      and r: "epr_id r \<notin> epr_id ` set (hd_episodes db)" "epr_status r = ''open''" "0 \<le> epr_version r"
    using insert_episode_Inr [OF assms(2)] assms(3)
    by (auto simp: episode_status_as_str_def enum_name_def episode_status_names_def)
  have row: "episode_row_of w i db = Some x \<Longrightarrow> episode_row_of w i db' = Some x" for w i x
    by (simp add: episode_row_of_def db' find_append)
  have later: "history_later db db'"
    unfolding history_later_def episodes_later_def
    by (auto simp: db' appended_def members_of_def row [unfolded db'])
  have "\<forall>x \<in> set (hd_members db). member_ok db' x"
    by (rule members_keep_later [OF _ later]) (use ok in \<open>simp add: episodes_ok_def\<close>)
  moreover have "\<forall>x \<in> set (hd_requests db). request_ok db' x"
    by (rule requests_keep_later [OF _ later]) (use ok in \<open>simp add: episodes_ok_def\<close>)
  ultimately have "episodes_ok db'" using ok r
    by (simp add: episodes_ok_def episode_members_def status_ok_def) (simp add: db' status_ok_def)
  with later show ?thesis by simp
qed

lemma empty_history_ok: "episodes_ok empty_history"
  by (simp add: episodes_ok_def empty_history_def episode_members_def contiguous_def)

section \<open>Mutations are executed once\<close>

definition mutation_receipt ::
    "history_db \<Rightarrow> string \<times> string \<times> string \<Rightarrow> (string \<times> string) option" where
  "mutation_receipt db = (\<lambda>(w, i, k).
     map_option (\<lambda>r. (mur_operation r, mur_request_hash r)) (episode_mutation_request w i k db))"

definition mutation_key :: "episode_mutation \<Rightarrow> string \<times> string \<times> string" where
  "mutation_key m = (mt_workspace_id m, mt_episode_id m, mt_request_key m)"

definition mutation_content :: "episode_mutation \<Rightarrow> string \<times> string" where
  "mutation_content m = (mt_operation m, mt_request_hash m)"

definition mutation_ready :: "episode_mutation \<Rightarrow> bool" where
  "mutation_ready m \<longleftrightarrow> mt_expected_version m + 1 \<le> i64_max"

lemma request_in: "episode_mutation_request w i k db = Some r \<Longrightarrow> r \<in> set (hd_requests db)
    \<and> mur_workspace_id r = w \<and> mur_episode_id r = i"
  by (auto simp: episode_mutation_request_def dest: find_SomeD)

lemma replay_mutation_ok:
  assumes "episodes_ok db"
    and "episode_mutation_request (mt_workspace_id m) (mt_episode_id m) (mt_request_key m) db = Some r"
    and "mur_operation r = mt_operation m" "mur_request_hash r = mt_request_hash m"
  shows "\<exists>e. replay_mutation m r db = Inr (e, db)"
proof -
  have "request_ok db r" using assms(1) request_in [OF assms(2)] by (simp add: episodes_ok_def)
  then obtain x where x: "episode_row_of (mt_workspace_id m) (mt_episode_id m) db = Some x"
      and v: "0 \<le> mur_resulting_version r" "mur_resulting_version r \<le> epr_version x"
    using request_in [OF assms(2)] by (auto simp: request_ok_def split: option.splits)
  have "status_ok x" using assms(1) episode_row_of_Some [OF x] by (simp add: episodes_ok_def)
  then obtain e where e: "episode_of_row x = Inr e" using episode_of_row_ok by blast
  then have "require_stored_episode (mt_workspace_id m) (mt_episode_id m) db = Inr e"
    using x by (simp add: require_stored_episode_Inr)
  then show ?thesis
    using v assms(3,4) episode_of_row_Inr [OF e]
    by (auto simp: replay_mutation_def episode_result_version_def ensure_def)
qed

lemma mutate_known:
  assumes "episode_mutation_request (mt_workspace_id m) (mt_episode_id m) (mt_request_key m) db = Some r"
    and "mutation_ready m"
  shows "mutate_episode m db = replay_mutation m r db"
  using assms by (simp add: mutate_episode_def episode_version_def i64_checked_add_def mutation_ready_def)

interpretation episode_requests: keyed_requests mutate_episode mutation_receipt mutation_key
  mutation_content mutation_ready episodes_ok history_later
proof
  fix db m e db'
  assume ok: "episodes_ok db" and result: "mutate_episode m db = Inr (e, db')"
  show "mutation_receipt db' (mutation_key m) = Some (mutation_content m)"
  proof (cases "episode_mutation_request (mt_workspace_id m) (mt_episode_id m) (mt_request_key m) db")
    case None
    then show ?thesis
      using mutate_episode_applied [OF result None] ok
      by (auto simp: episodes_ok_def mutation_receipt_def mutation_key_def mutation_content_def
          episode_mutation_request_def find_append mutation_row_of_def)
  next
    case (Some r)
    from result show ?thesis
    proof (cases rule: mutate_episode_cases)
      case (replay r')
      then show ?thesis
        using replay_mutation_Inr [OF replay(2)]
        by (simp add: mutation_receipt_def mutation_key_def mutation_content_def)
    next
      case (fresh db1 v)
      with Some show ?thesis by simp
    qed
  qed
next
  fix db m
  assume "episodes_ok db" and "mutation_ready m"
    and "mutation_receipt db (mutation_key m) = Some (mutation_content m)"
  then show "\<exists>e. mutate_episode m db = Inr (e, db)"
    using replay_mutation_ok
    by (auto simp: mutation_receipt_def mutation_key_def mutation_content_def mutate_known)
next
  fix db m c
  assume "mutation_ready m" and "mutation_receipt db (mutation_key m) = Some c"
    and "c \<noteq> mutation_content m"
  then show "\<exists>t. mutate_episode m db = Inl (ConflictErr t)"
    by (auto simp: mutation_receipt_def mutation_key_def mutation_content_def mutate_episode_def
        episode_version_def i64_checked_add_def replay_mutation_def ensure_def)
next
  fix m db e db'
  assume "mutate_episode m db = Inr (e, db')"
  then show "mutation_ready m"
    by (auto simp: mutate_episode_def and_then_eq_Inr episode_version_def i64_checked_add_def
        mutation_ready_def split: if_splits)
next
  fix db db' k c
  assume "history_later db db'" and "mutation_receipt db k = Some c"
  then show "mutation_receipt db' k = Some c"
    by (auto simp: mutation_receipt_def split: prod.splits dest: request_later)
qed

end
