(* ===== verification/ExperienceHistory.thy ===== *)
theory ExperienceHistory
  imports EpisodeHistory ExperienceStore
begin

text \<open>
  What the insertion of an experience does to the tables, that the record reads back, and that it
  stays as it is: \<open>experiences_ok\<close> is the invariant of the experience tables, \<open>experiences_later\<close>
  states that stored records do not change.
\<close>

section \<open>Rows and what they were written from\<close>

definition reads_back :: "('a \<Rightarrow> cortex_error + string) \<Rightarrow> (string \<Rightarrow> cortex_error + 'a) \<Rightarrow> 'a \<Rightarrow> bool" where
  "reads_back wr rd x \<longleftrightarrow> (\<forall>t. wr x = Inr t \<longrightarrow> rd t = Inr x)"

text \<open>The JSON columns of a record read back to what was written into them.\<close>

definition faithful :: "history_codec \<Rightarrow> experience_record \<Rightarrow> bool" where
  "faithful cd r \<longleftrightarrow>
     pred_option (reads_back (write_signature cd) (read_signature cd))
       (exp_failure_signature (er_experience r))
     \<and> reads_back (write_reasons cd) (read_reasons cd) (ev_reasons (exp_verification (er_experience r)))
     \<and> list_all (\<lambda>a. reads_back (write_ordinals cd) (read_ordinals cd) (attempt_change_ordinals a))
         (er_attempts r)
     \<and> list_all (\<lambda>g. reads_back (write_json cd) (read_json cd) (gs_resolution_provenance g))
         (er_graph_snapshots r)"

definition row_holds :: "history_codec \<Rightarrow> experience \<Rightarrow> experience_row \<Rightarrow> bool" where
  "row_holds cd e x \<longleftrightarrow> xr_id x = exp_id e \<and> xr_workspace_id x = exp_workspace_id e
     \<and> xr_session_id x = exp_session_id e \<and> xr_task_id x = exp_task_id e
     \<and> xr_episode_id x = exp_episode_id e
     \<and> (case exp_failure_signature e of None \<Rightarrow> xr_failure_signature_json x = None
         | Some s \<Rightarrow> \<exists>t. xr_failure_signature_json x = Some t \<and> write_signature cd s = Inr t)
     \<and> xr_outcome x = outcome_as_str (exp_outcome e)
     \<and> xr_verification_status x = status_as_str (ev_status (exp_verification e))
     \<and> write_reasons cd (ev_reasons (exp_verification e)) = Inr (xr_verification_reasons_json x)
     \<and> xr_evidence_strength x = strength_as_str (sa_strength (exp_evidence_strength e))
     \<and> xr_summary x = exp_summary e \<and> xr_extractor_id x = exp_extractor_id e
     \<and> xr_extractor_version x = exp_extractor_version e
     \<and> xr_summary_renderer_version x = exp_summary_renderer_version e
     \<and> xr_canonicalization_version x = exp_canonicalization_version e
     \<and> xr_consolidation_fingerprint x = exp_consolidation_fingerprint e
     \<and> xr_proposal_hash x = exp_proposal_hash e \<and> xr_created_at x = exp_created_at e"

definition part_of :: "string \<Rightarrow> string \<Rightarrow> nat \<Rightarrow> 'a part_row_scheme \<Rightarrow> bool" where
  "part_of w i k r \<longleftrightarrow> prt_workspace_id r = w \<and> prt_experience_id r = i \<and> prt_ordinal r = int k"

lemma insert_experience_row_Inr:
  "insert_experience_row cd e db = Inr (u, db') \<longleftrightarrow>
    (\<exists>sg t. signature_column cd e = Inr sg \<and> write_reasons cd (ev_reasons (exp_verification e)) = Inr t
       \<and> experience_row_allowed (experience_row_of_experience e sg t) db
       \<and> db' = db\<lparr>hd_experiences := hd_experiences db @ [experience_row_of_experience e sg t]\<rparr>)"
  by (auto simp: insert_experience_row_def and_then_eq_Inr Let_def)

lemma row_of_experience_holds:
  "signature_column cd e = Inr sg \<Longrightarrow> write_reasons cd (ev_reasons (exp_verification e)) = Inr t
    \<Longrightarrow> row_holds cd e (experience_row_of_experience e sg t)"
  by (auto simp: signature_column_def and_then_eq_Inr row_holds_def experience_row_of_experience_def
      split: option.split)

text \<open>A table of the database is a field of it: \<open>select\<close> reads it and \<open>put\<close> replaces it.  A
  sequence of insertions appends a row for each element.\<close>

locale table =
  fixes select :: "history_db \<Rightarrow> 'r list" and put :: "'r list \<Rightarrow> history_db \<Rightarrow> history_db"
  assumes select_put: "select (put rs db) = rs" and put_put: "put rs (put rs' db) = put rs db"
    and put_select: "put (select db) db = db"
begin

lemma insert_all:
  assumes "try_tx f xs db = Inr db'"
    and "\<And>a db db'. a \<in> set xs \<Longrightarrow> f a db = Inr ((), db') \<Longrightarrow>
      \<exists>r. R a r \<and> db' = put (select db @ [r]) db"
  shows "\<exists>rs. list_all2 R xs rs \<and> db' = put (select db @ rs) db"
  using assms
proof (induction xs arbitrary: db)
  case Nil
  then show ?case by (auto simp: try_tx_def put_select)
next
  case (Cons a xs)
  from Cons.prems(1) obtain db1 where "f a db = Inr ((), db1)" and rest: "try_tx f xs db1 = Inr db'"
    by (auto simp: try_tx_def and_then_eq_Inr)
  with Cons.prems(2) obtain r where r: "R a r" "db1 = put (select db @ [r]) db" by fastforce
  from Cons.IH [OF rest] Cons.prems(2) obtain rs
    where "list_all2 R xs rs" and "db' = put (select db1 @ rs) db1" by fastforce
  with r show ?case by (intro exI [of _ "r # rs"]) (simp add: select_put put_put)
qed

end

interpretation evidence_table: table hd_evidence "\<lambda>rs. hd_evidence_update (\<lambda>_. rs)"
  by unfold_locales simp_all

interpretation verification_table: table hd_verifications "\<lambda>rs. hd_verifications_update (\<lambda>_. rs)"
  by unfold_locales simp_all

interpretation attempt_table: table hd_attempts "\<lambda>rs. hd_attempts_update (\<lambda>_. rs)"
  by unfold_locales simp_all

interpretation code_table: table hd_code_snapshots "\<lambda>rs. hd_code_snapshots_update (\<lambda>_. rs)"
  by unfold_locales simp_all

interpretation graph_table: table hd_graph_snapshots "\<lambda>rs. hd_graph_snapshots_update (\<lambda>_. rs)"
  by unfold_locales simp_all

interpretation basis_table: table hd_bases "\<lambda>rs. hd_bases_update (\<lambda>_. rs)"
  by unfold_locales simp_all

definition link_holds :: "string \<Rightarrow> string \<Rightarrow> evidence_link \<Rightarrow> evidence_row \<Rightarrow> bool" where
  "link_holds w i l r \<longleftrightarrow> part_of w i (link_ordinal l) r
     \<and> lkr_relation r = relation_as_str (link_relation l) \<and> lkr_event_id r = link_event_id l"

definition observation_holds ::
    "string \<Rightarrow> string \<Rightarrow> verification_observation \<Rightarrow> verification_row \<Rightarrow> bool" where
  "observation_holds w i v r \<longleftrightarrow> part_of w i (vo_ordinal v) r \<and> observation_of_row r = Inr v"

definition attempt_holds :: "history_codec \<Rightarrow> experience_attempt \<Rightarrow> attempt_row \<Rightarrow> bool" where
  "attempt_holds cd a r \<longleftrightarrow>
     part_of (attempt_workspace_id a) (attempt_experience_id a) (attempt_ordinal a) r
     \<and> (reads_back (write_ordinals cd) (read_ordinals cd) (attempt_change_ordinals a)
          \<longrightarrow> attempt_of_row cd r = Inr a)"

definition code_holds :: "string \<Rightarrow> string \<Rightarrow> code_snapshot \<Rightarrow> code_snapshot_row \<Rightarrow> bool" where
  "code_holds w i s r \<longleftrightarrow> part_of w i (snap_ordinal s) r \<and> code_snapshot_of_row r = Inr s"

definition graph_holds ::
    "history_codec \<Rightarrow> string \<Rightarrow> string \<Rightarrow> experience_graph_snapshot \<Rightarrow> graph_snapshot_row \<Rightarrow> bool" where
  "graph_holds cd w i s r \<longleftrightarrow> part_of w i (gs_ordinal s) r
     \<and> (reads_back (write_json cd) (read_json cd) (gs_resolution_provenance s)
          \<longrightarrow> graph_snapshot_of_row cd r = Inr s)"

definition basis_holds :: "string \<Rightarrow> string \<Rightarrow> nat \<times> evidence_basis \<Rightarrow> basis_row \<Rightarrow> bool" where
  "basis_holds w i kb r \<longleftrightarrow> part_of w i (fst kb) r \<and> bsr_basis r = basis_as_str (snd kb)"

lemma read_names [simp]:
  "status_from_storage (status_as_str s) = s" "kind_from_storage (kind_as_str k) = k"
  "relation_from_storage (relation_as_str r) = r" "basis_from_storage (basis_as_str b) = b"
  "outcome_from_storage (outcome_as_str o') = o'" "strength_from_storage (strength_as_str g) = g"
  "attempt_result_from_storage (attempt_result_as_str a) = a"
  "episode_status_from_storage (episode_status_as_str z) = z"
  by (simp_all add: status_from_storage_def status_as_str_def kind_from_storage_def kind_as_str_def
      relation_from_storage_def relation_as_str_def basis_from_storage_def basis_as_str_def
      outcome_from_storage_def outcome_as_str_def strength_from_storage_def strength_as_str_def
      attempt_result_from_storage_def attempt_result_as_str_def episode_status_from_storage_def
      episode_status_as_str_def status_enum.read_name kind_enum.read_name relation_enum.read_name
      basis_enum.read_name outcome_enum.read_name strength_enum.read_name
      attempt_result_enum.read_name episode_status_enum.read_name)

lemma read_subject_kind [simp]: "verification_subject_kind (subject_kind_name k) = Inr k"
  by (cases k) (simp_all add: verification_subject_kind_def)

lemma read_graph_names [simp]:
  "graph_state_from_storage (graph_state_storage_name s) = s"
  "node_type_from_storage (node_type_storage_name n) = n"
  by (cases s; simp add: graph_state_from_storage_def)
    (simp add: node_type_from_storage_def node_type_storage_name_def node_types.read_stored)


section \<open>Writing a record\<close>

lemma insert_link_Inr:
  "insert_experience_evidence w i l db = Inr (u, db') \<longleftrightarrow> link_ordinal l \<le> i64_max
    \<and> evidence_allowed (link_row w i (int (link_ordinal l)) l) db
    \<and> db' = db\<lparr>hd_evidence := hd_evidence db @ [link_row w i (int (link_ordinal l)) l]\<rparr>"
  by (auto simp: insert_experience_evidence_def and_then_eq_Inr Let_def)

lemma insert_verification_Inr:
  "insert_experience_verification w i v db = Inr (u, db') \<longleftrightarrow> vo_ordinal v \<le> i64_max
    \<and> verification_allowed (verification_row_of w i (int (vo_ordinal v)) v) db
    \<and> db' = db\<lparr>hd_verifications := hd_verifications db
        @ [verification_row_of w i (int (vo_ordinal v)) v]\<rparr>"
  by (auto simp: insert_experience_verification_def and_then_eq_Inr Let_def)

lemma following_Inr:
  "(case f of None \<Rightarrow> Inr None | Some n \<Rightarrow> and_then (ordinal_from_u64 n) (\<lambda>v. Inr (Some v))) = Inr y
    \<longleftrightarrow> pred_option (\<lambda>n. n \<le> i64_max) f \<and> y = map_option int f"
  by (auto simp: and_then_eq_Inr split: option.split)

lemma insert_attempt_Inr:
  "insert_experience_attempt cd a db = Inr (u, db') \<longleftrightarrow> attempt_ordinal a \<le> i64_max
    \<and> pred_option (\<lambda>n. n \<le> i64_max) (attempt_following_ordinal a)
    \<and> (\<exists>t. write_ordinals cd (attempt_change_ordinals a) = Inr t
        \<and> attempt_allowed (attempt_row_of a (int (attempt_ordinal a)) t
             (map_option int (attempt_following_ordinal a))) db
        \<and> db' = db\<lparr>hd_attempts := hd_attempts db @ [attempt_row_of a (int (attempt_ordinal a)) t
             (map_option int (attempt_following_ordinal a))]\<rparr>)"
  unfolding insert_experience_attempt_def and_then_eq_Inr Let_def following_Inr by auto

lemma insert_code_Inr:
  "insert_experience_code_snapshot w i s db = Inr (u, db') \<longleftrightarrow> snap_ordinal s \<le> i64_max
    \<and> code_snapshot_allowed (code_snapshot_row_of w i (int (snap_ordinal s)) s) db
    \<and> db' = db\<lparr>hd_code_snapshots := hd_code_snapshots db
        @ [code_snapshot_row_of w i (int (snap_ordinal s)) s]\<rparr>"
  by (auto simp: insert_experience_code_snapshot_def and_then_eq_Inr Let_def)

lemma insert_graph_Inr:
  "insert_experience_graph_snapshot cd w i s db = Inr (u, db') \<longleftrightarrow> gs_ordinal s \<le> i64_max
    \<and> gs_code_snapshot_ordinal s \<le> i64_max
    \<and> (\<exists>t. write_json cd (gs_resolution_provenance s) = Inr t
        \<and> graph_snapshot_allowed (graph_snapshot_row_of w i (int (gs_ordinal s))
             (int (gs_code_snapshot_ordinal s)) t s) db
        \<and> db' = db\<lparr>hd_graph_snapshots := hd_graph_snapshots db @ [graph_snapshot_row_of w i
             (int (gs_ordinal s)) (int (gs_code_snapshot_ordinal s)) t s]\<rparr>)"
  unfolding insert_experience_graph_snapshot_def and_then_eq_Inr Let_def by auto

lemma insert_basis_Inr:
  "insert_experience_basis w i kb db = Inr (u, db') \<longleftrightarrow> fst kb \<le> i64_max
    \<and> basis_allowed (basis_row_of w i (int (fst kb)) (snd kb)) db
    \<and> db' = db\<lparr>hd_bases := hd_bases db @ [basis_row_of w i (int (fst kb)) (snd kb)]\<rparr>"
  by (cases kb) (auto simp: insert_experience_basis_def and_then_eq_Inr Let_def)

lemma rows_of_parts:
  "link_holds w i l (link_row w i (int (link_ordinal l)) l)"
  "observation_holds w i v (verification_row_of w i (int (vo_ordinal v)) v)"
  "code_holds w i s (code_snapshot_row_of w i (int (snap_ordinal s)) s)"
  "basis_holds w i kb (basis_row_of w i (int (fst kb)) (snd kb))"
  "write_ordinals cd (attempt_change_ordinals a) = Inr t \<Longrightarrow> attempt_holds cd a
     (attempt_row_of a (int (attempt_ordinal a)) t (map_option int (attempt_following_ordinal a)))"
  "write_json cd (gs_resolution_provenance g) = Inr t \<Longrightarrow> graph_holds cd w i g
     (graph_snapshot_row_of w i (int (gs_ordinal g)) (int (gs_code_snapshot_ordinal g)) t g)"
  by (simp_all add: link_holds_def link_row_def part_of_def observation_holds_def
      verification_row_of_def observation_of_row_def code_holds_def code_snapshot_row_of_def
      code_snapshot_of_row_def basis_holds_def basis_row_of_def attempt_holds_def attempt_row_of_def
      attempt_of_row_def graph_holds_def graph_snapshot_row_of_def graph_snapshot_of_row_def
      reads_back_def split: option.split)

lemma insert_graph_row:
  assumes "insert_experience_graph_snapshot cd w i s db = Inr (u, db')"
  shows "\<exists>r. graph_holds cd w i s r \<and> db' = db\<lparr>hd_graph_snapshots := hd_graph_snapshots db @ [r]\<rparr>"
proof -
  obtain t where "write_json cd (gs_resolution_provenance s) = Inr t"
    and "db' = db\<lparr>hd_graph_snapshots := hd_graph_snapshots db @ [graph_snapshot_row_of w i
             (int (gs_ordinal s)) (int (gs_code_snapshot_ordinal s)) t s]\<rparr>"
    using assms unfolding insert_graph_Inr by blast
  then show ?thesis using rows_of_parts(6) by blast
qed

text \<open>What a whole insertion appends.\<close>

record written_rows =
  wr_experience :: experience_row
  wr_evidence :: "evidence_row list"
  wr_verifications :: "verification_row list"
  wr_attempts :: "attempt_row list"
  wr_code_snapshots :: "code_snapshot_row list"
  wr_graph_snapshots :: "graph_snapshot_row list"
  wr_bases :: "basis_row list"

definition rows_hold :: "history_codec \<Rightarrow> experience_record \<Rightarrow> written_rows \<Rightarrow> bool" where
  "rows_hold cd r n \<longleftrightarrow> (let e = er_experience r; w = exp_workspace_id e; i = exp_id e in
     row_holds cd e (wr_experience n)
     \<and> list_all2 (link_holds w i) (er_evidence r) (wr_evidence n)
     \<and> list_all2 (observation_holds w i) (ev_observations (exp_verification e)) (wr_verifications n)
     \<and> list_all2 (attempt_holds cd) (er_attempts r) (wr_attempts n)
     \<and> list_all2 (code_holds w i) (er_code_snapshots r) (wr_code_snapshots n)
     \<and> list_all2 (graph_holds cd w i) (er_graph_snapshots r) (wr_graph_snapshots n)
     \<and> list_all2 (basis_holds w i) (enumerate 0 (sa_bases (exp_evidence_strength e))) (wr_bases n))"

definition with_rows :: "written_rows \<Rightarrow> history_db \<Rightarrow> history_db" where
  "with_rows n db = (let s = hd_last_sequence db + 1; x = wr_experience n in
     db\<lparr>hd_last_sequence := s,
        hd_order := hd_order db @ [\<lparr>odr_sequence = s, odr_workspace_id = xr_workspace_id x,
          odr_entity_kind = ''experience_acceptance'', odr_entity_id = xr_id x\<rparr>],
        hd_experiences := hd_experiences db @ [x],
        hd_evidence := hd_evidence db @ wr_evidence n,
        hd_verifications := hd_verifications db @ wr_verifications n,
        hd_attempts := hd_attempts db @ wr_attempts n,
        hd_code_snapshots := hd_code_snapshots db @ wr_code_snapshots n,
        hd_graph_snapshots := hd_graph_snapshots db @ wr_graph_snapshots n,
        hd_bases := hd_bases db @ wr_bases n,
        hd_seals := hd_seals db @ [\<lparr>slr_workspace_id = xr_workspace_id x,
          slr_experience_id = xr_id x, slr_acceptance_order = Some s\<rparr>]\<rparr>)"

lemma write_experience_record_Inr:
  assumes "write_experience_record cd r db = Inr (u, db')"
  shows "\<exists>n. db' = with_rows n db \<and> rows_hold cd r n
    \<and> experience_row_allowed (wr_experience n) db"
proof -
  let ?e = "er_experience r" let ?w = "exp_workspace_id ?e" let ?i = "exp_id ?e"
  obtain d0 d1 d2 d3 d4 d5 d6 s d7 where
      steps: "insert_experience_row cd ?e db = Inr ((), d0)"
      "try_tx (insert_experience_evidence ?w ?i) (er_evidence r) d0 = Inr d1"
      "try_tx (insert_experience_verification ?w ?i) (ev_observations (exp_verification ?e)) d1 = Inr d2"
      "try_tx (insert_experience_attempt cd) (er_attempts r) d2 = Inr d3"
      "try_tx (insert_experience_code_snapshot ?w ?i) (er_code_snapshots r) d3 = Inr d4"
      "try_tx (insert_experience_graph_snapshot cd ?w ?i) (er_graph_snapshots r) d4 = Inr d5"
      "try_tx (insert_experience_basis ?w ?i) (enumerate 0 (sa_bases (exp_evidence_strength ?e))) d5
        = Inr d6"
      "insert_historical_write_order ?w ''experience_acceptance'' ?i d6 = Inr (s, d7)"
      "insert_seal ?w ?i s d7 = Inr ((), db')"
    using assms by (auto simp: write_experience_record_def and_then_eq_Inr Let_def)
  obtain x where x: "d0 = db\<lparr>hd_experiences := hd_experiences db @ [x]\<rparr>"
      "experience_row_allowed x db" "row_holds cd ?e x"
    using steps(1) unfolding insert_experience_row_Inr by (blast intro: row_of_experience_holds)
  obtain evs where evs: "list_all2 (link_holds ?w ?i) (er_evidence r) evs"
      "d1 = d0\<lparr>hd_evidence := hd_evidence d0 @ evs\<rparr>"
    using evidence_table.insert_all [OF steps(2), of "link_holds ?w ?i"] rows_of_parts
    unfolding insert_link_Inr by blast
  obtain vs where vs: "list_all2 (observation_holds ?w ?i) (ev_observations (exp_verification ?e)) vs"
      "d2 = d1\<lparr>hd_verifications := hd_verifications d1 @ vs\<rparr>"
    using verification_table.insert_all [OF steps(3), of "observation_holds ?w ?i"] rows_of_parts
    unfolding insert_verification_Inr by blast
  obtain as where as: "list_all2 (attempt_holds cd) (er_attempts r) as"
      "d3 = d2\<lparr>hd_attempts := hd_attempts d2 @ as\<rparr>"
    using attempt_table.insert_all [OF steps(4), of "attempt_holds cd"] rows_of_parts
    unfolding insert_attempt_Inr by blast
  obtain cs where cs: "list_all2 (code_holds ?w ?i) (er_code_snapshots r) cs"
      "d4 = d3\<lparr>hd_code_snapshots := hd_code_snapshots d3 @ cs\<rparr>"
    using code_table.insert_all [OF steps(5), of "code_holds ?w ?i"] rows_of_parts
    unfolding insert_code_Inr by blast
  obtain gs where gs: "list_all2 (graph_holds cd ?w ?i) (er_graph_snapshots r) gs"
      "d5 = d4\<lparr>hd_graph_snapshots := hd_graph_snapshots d4 @ gs\<rparr>"
    using graph_table.insert_all [OF steps(6), of "graph_holds cd ?w ?i"] insert_graph_row
    by blast
  obtain bs where bs: "list_all2 (basis_holds ?w ?i)
        (enumerate 0 (sa_bases (exp_evidence_strength ?e))) bs"
      "d6 = d5\<lparr>hd_bases := hd_bases d5 @ bs\<rparr>"
    using basis_table.insert_all [OF steps(7), of "basis_holds ?w ?i"] rows_of_parts
    unfolding insert_basis_Inr by blast
  let ?n = "\<lparr>wr_experience = x, wr_evidence = evs, wr_verifications = vs, wr_attempts = as,
    wr_code_snapshots = cs, wr_graph_snapshots = gs, wr_bases = bs\<rparr>"
  have "xr_workspace_id x = ?w" "xr_id x = ?i" using x(3) by (simp_all add: row_holds_def)
  then have "db' = with_rows ?n db"
    using steps(8,9) unfolding bs(2) gs(2) cs(2) as(2) vs(2) evs(2) x(1)
    by (auto simp: insert_historical_write_order_def insert_seal_def Let_def with_rows_def)
  moreover have "rows_hold cd r ?n"
    using x(3) evs(1) vs(1) as(1) cs(1) gs(1) bs(1) by (simp add: rows_hold_def Let_def)
  ultimately show ?thesis using x(2) by (intro exI [of _ ?n]) simp
qed


section \<open>Reading a record back\<close>

definition known_parts :: "'a part_row_scheme list \<Rightarrow> history_db \<Rightarrow> bool" where
  "known_parts rows db \<longleftrightarrow>
     (\<forall>p \<in> set rows. experience_row_of (prt_workspace_id p) (prt_experience_id p) db \<noteq> None)"

definition all_parts_known :: "history_db \<Rightarrow> bool" where
  "all_parts_known db \<longleftrightarrow> known_parts (hd_evidence db) db \<and> known_parts (hd_verifications db) db
     \<and> known_parts (hd_attempts db) db \<and> known_parts (hd_code_snapshots db) db
     \<and> known_parts (hd_graph_snapshots db) db \<and> known_parts (hd_bases db) db"

lemma parts_of_old:
  assumes "\<And>r. r \<in> set rs \<Longrightarrow> (prt_workspace_id r, prt_experience_id r) \<noteq> (w, i)"
  shows "parts_of w i (old @ rs) = parts_of w i old"
proof -
  have "filter (\<lambda>r. prt_workspace_id r = w \<and> prt_experience_id r = i) rs = []"
    using assms by (auto simp: filter_empty_conv)
  then show ?thesis by (simp add: parts_of_def)
qed

lemma parts_of_new:
  assumes "known_parts old db" and "experience_row_of w i db = None"
    and parts: "list_all2 (\<lambda>a r. part_of w i (ord a) r) xs rs" and "map ord xs = [0..<length xs]"
  shows "parts_of w i (old @ rs) = rs"
proof -
  have new: "\<forall>r \<in> set rs. prt_workspace_id r = w \<and> prt_experience_id r = i"
    using parts by (auto simp: list_all2_conv_all_nth in_set_conv_nth part_of_def)
  have "map prt_ordinal rs = map (\<lambda>a. int (ord a)) xs"
    using parts by (auto simp: list_all2_conv_all_nth part_of_def intro: nth_equalityI)
  also have "... = map int (map ord xs)" by simp
  also have "... = map int [0..<length xs]" unfolding assms(4) ..
  finally have "sorted (map prt_ordinal rs)" by (simp add: sorted_iff_nth_mono)
  then have "sort_key prt_ordinal rs = rs" by (rule sort_key_id_if_sorted)
  moreover have "filter (\<lambda>r. prt_workspace_id r = w \<and> prt_experience_id r = i) old = []"
    using assms(1,2) by (auto simp: filter_empty_conv known_parts_def)
  moreover have "filter (\<lambda>r. prt_workspace_id r = w \<and> prt_experience_id r = i) rs = rs"
    using new by simp
  ultimately show ?thesis by (simp add: parts_of_def)
qed

lemma try_map_rows:
  "list_all2 (\<lambda>a r. f r = Inr a) xs rs \<Longrightarrow> try_map f rs = Inr xs"
  by (simp add: try_map_eq_Inr list_all2_conv_all_nth)

text \<open>The laws that reading a part rests on, in the form in which the tables give them.\<close>

lemma read_parts:
  assumes "known_parts old db" and "experience_row_of w i db = None"
    and "list_all2 H xs rs" and "map ord xs = [0..<length xs]"
    and "\<And>a r. a \<in> set xs \<Longrightarrow> H a r \<Longrightarrow> part_of w i (ord a) r \<and> f r = Inr a"
  shows "try_map f (parts_of w i (old @ rs)) = Inr xs"
proof -
  have "list_all2 (\<lambda>a r. part_of w i (ord a) r) xs rs" and "list_all2 (\<lambda>a r. f r = Inr a) xs rs"
    using assms(3,5) by (auto simp: list_all2_conv_all_nth)
  then show ?thesis using parts_of_new [OF assms(1,2) _ assms(4)] by (simp add: try_map_rows)
qed

lemma read_bases:
  assumes "known_parts old db" and "experience_row_of w i db = None"
    and "list_all2 (basis_holds w i) (enumerate 0 bs) rs"
  shows "map (\<lambda>b. basis_from_storage (bsr_basis b)) (parts_of w i (old @ rs)) = bs"
proof -
  have "list_all2 (\<lambda>kb r. part_of w i (fst kb) r) (enumerate 0 bs) rs"
    using assms(3) by (auto simp: list_all2_conv_all_nth basis_holds_def)
  then have "parts_of w i (old @ rs) = rs"
    by (rule parts_of_new [OF assms(1,2)]) simp
  then show ?thesis
    using assms(3) by (auto simp: list_all2_conv_all_nth basis_holds_def nth_enumerate_eq
        intro: nth_equalityI)
qed

lemma verification_ordinals:
  "validate_verification_semantics e links = Inr u \<Longrightarrow>
    map vo_ordinal (ev_observations (exp_verification e))
      = [0..<length (ev_observations (exp_verification e))]"
  by (auto simp: validate_verification_semantics_def Let_def and_then_eq_Inr)

lemma with_rows_simps [simp]:
  "hd_experiences (with_rows n db) = hd_experiences db @ [wr_experience n]"
  "hd_evidence (with_rows n db) = hd_evidence db @ wr_evidence n"
  "hd_verifications (with_rows n db) = hd_verifications db @ wr_verifications n"
  "hd_attempts (with_rows n db) = hd_attempts db @ wr_attempts n"
  "hd_code_snapshots (with_rows n db) = hd_code_snapshots db @ wr_code_snapshots n"
  "hd_graph_snapshots (with_rows n db) = hd_graph_snapshots db @ wr_graph_snapshots n"
  "hd_bases (with_rows n db) = hd_bases db @ wr_bases n"
  "hd_episodes (with_rows n db) = hd_episodes db" "hd_events (with_rows n db) = hd_events db"
  "hd_members (with_rows n db) = hd_members db" "hd_requests (with_rows n db) = hd_requests db"
  "hd_workspaces (with_rows n db) = hd_workspaces db"
  "hd_assessments (with_rows n db) = hd_assessments db"
  "hd_assessment_evidence (with_rows n db) = hd_assessment_evidence db"
  "hd_last_sequence (with_rows n db) = hd_last_sequence db + 1"
  by (simp_all add: with_rows_def Let_def)

lemma experience_row_of_with_rows:
  "experience_row_of w i (with_rows n db) =
    (case experience_row_of w i db of Some y \<Rightarrow> Some y
     | None \<Rightarrow> if xr_workspace_id (wr_experience n) = w \<and> xr_id (wr_experience n) = i
         then Some (wr_experience n) else None)"
  by (simp add: experience_row_of_def find_append split: option.split)


lemma attempt_owner:
  "attempts_fine e links as \<Longrightarrow> a \<in> set as \<Longrightarrow>
    attempt_workspace_id a = exp_workspace_id e \<and> attempt_experience_id a = exp_id e"
  by (auto simp: attempts_fine_def attempt_fine_def list_all_iff)

lemma record_read_back:
  assumes "all_parts_known db"
    and fresh: "experience_row_of (exp_workspace_id (er_experience r)) (exp_id (er_experience r)) db = None"
    and rows: "rows_hold cd r n" and faithful: "faithful cd r"
    and valid: "validate_experience_record blake3 to_vec r = Inr u"
  shows "experience_record_in cd (exp_workspace_id (er_experience r)) (exp_id (er_experience r))
    (with_rows n db) = Inr (Some r)"
proof -
  let ?e = "er_experience r" let ?w = "exp_workspace_id ?e" let ?i = "exp_id ?e"
  have known: "known_parts (hd_evidence db) db" "known_parts (hd_verifications db) db"
      "known_parts (hd_attempts db) db" "known_parts (hd_code_snapshots db) db"
      "known_parts (hd_graph_snapshots db) db" "known_parts (hd_bases db) db"
    using assms(1) by (simp_all add: all_parts_known_def)
  note checks = valid [unfolded validate_experience_record_Inr]
  have holds: "row_holds cd ?e (wr_experience n)"
      "list_all2 (link_holds ?w ?i) (er_evidence r) (wr_evidence n)"
      "list_all2 (observation_holds ?w ?i) (ev_observations (exp_verification ?e)) (wr_verifications n)"
      "list_all2 (attempt_holds cd) (er_attempts r) (wr_attempts n)"
      "list_all2 (code_holds ?w ?i) (er_code_snapshots r) (wr_code_snapshots n)"
      "list_all2 (graph_holds cd ?w ?i) (er_graph_snapshots r) (wr_graph_snapshots n)"
      "list_all2 (basis_holds ?w ?i) (enumerate 0 (sa_bases (exp_evidence_strength ?e))) (wr_bases n)"
    using rows by (simp_all add: rows_hold_def Let_def)
  have row: "experience_row_of ?w ?i (with_rows n db) = Some (wr_experience n)"
    using fresh holds(1) by (simp add: experience_row_of_with_rows row_holds_def)
  have links: "try_map link_of_row (parts_of ?w ?i (hd_evidence db @ wr_evidence n))
      = Inr (er_evidence r)"
    by (rule read_parts [OF known(1) fresh holds(2), of link_ordinal])
      (use checks in \<open>auto simp: link_holds_def part_of_def link_of_row_def\<close>)
  have observations: "try_map observation_of_row (parts_of ?w ?i (hd_verifications db
      @ wr_verifications n)) = Inr (ev_observations (exp_verification ?e))"
    by (rule read_parts [OF known(2) fresh holds(3), of vo_ordinal])
      (use checks verification_ordinals in \<open>auto simp: observation_holds_def\<close>)
  have attempts: "try_map (attempt_of_row cd) (parts_of ?w ?i (hd_attempts db @ wr_attempts n))
      = Inr (er_attempts r)"
    by (rule read_parts [OF known(3) fresh holds(4), of attempt_ordinal])
      (use checks faithful attempt_owner in \<open>auto simp: attempt_holds_def faithful_def list_all_iff\<close>)
  have code: "try_map code_snapshot_of_row (parts_of ?w ?i (hd_code_snapshots db
      @ wr_code_snapshots n)) = Inr (er_code_snapshots r)"
    by (rule read_parts [OF known(4) fresh holds(5), of snap_ordinal])
      (use checks in \<open>auto simp: code_holds_def\<close>)
  have graph: "try_map (graph_snapshot_of_row cd) (parts_of ?w ?i (hd_graph_snapshots db
      @ wr_graph_snapshots n)) = Inr (er_graph_snapshots r)"
    by (rule read_parts [OF known(5) fresh holds(6), of gs_ordinal])
      (use checks faithful in \<open>auto simp: graph_holds_def faithful_def list_all_iff\<close>)
  have bases: "map (\<lambda>b. basis_from_storage (bsr_basis b)) (parts_of ?w ?i (hd_bases db @ wr_bases n))
      = sa_bases (exp_evidence_strength ?e)"
    by (rule read_bases [OF known(6) fresh holds(7)])
  have sg: "(case xr_failure_signature_json (wr_experience n) of None \<Rightarrow> Inr None
      | Some t \<Rightarrow> and_then (read_signature cd t) (\<lambda>s. Inr (Some s))) = Inr (exp_failure_signature ?e)"
    using holds(1) faithful
    by (cases "exp_failure_signature ?e") (auto simp: row_holds_def faithful_def reads_back_def)
  have reasons: "read_reasons cd (xr_verification_reasons_json (wr_experience n))
      = Inr (ev_reasons (exp_verification ?e))"
    using holds(1) faithful by (simp add: row_holds_def faithful_def reads_back_def)
  show ?thesis
    unfolding experience_record_in_def row with_rows_simps links observations attempts code graph bases
    using holds(1)
    by (simp add: sg reasons row_holds_def)
qed


section \<open>Records do not change\<close>

definition record_same :: "string \<Rightarrow> string \<Rightarrow> history_db \<Rightarrow> history_db \<Rightarrow> bool" where
  "record_same w i db db' \<longleftrightarrow> experience_row_of w i db' = experience_row_of w i db
     \<and> parts_of w i (hd_evidence db') = parts_of w i (hd_evidence db)
     \<and> parts_of w i (hd_verifications db') = parts_of w i (hd_verifications db)
     \<and> parts_of w i (hd_attempts db') = parts_of w i (hd_attempts db)
     \<and> parts_of w i (hd_code_snapshots db') = parts_of w i (hd_code_snapshots db)
     \<and> parts_of w i (hd_graph_snapshots db') = parts_of w i (hd_graph_snapshots db)
     \<and> parts_of w i (hd_bases db') = parts_of w i (hd_bases db)"

definition records_later :: "history_db \<Rightarrow> history_db \<Rightarrow> bool" where
  "records_later db db' \<longleftrightarrow>
     (\<forall>w i. experience_row_of w i db \<noteq> None \<longrightarrow> record_same w i db db')
     \<and> (\<exists>ss. hd_seals db' = hd_seals db @ ss
          \<and> (\<forall>s \<in> set ss. \<exists>n. slr_acceptance_order s = Some n \<and> hd_last_sequence db < n))"

definition experiences_ok :: "history_db \<Rightarrow> bool" where
  "experiences_ok db \<longleftrightarrow> distinct (map xr_id (hd_experiences db)) \<and> all_parts_known db
     \<and> distinct (map (\<lambda>x. (xr_workspace_id x, xr_consolidation_fingerprint x)) (hd_experiences db))
     \<and> distinct (map (\<lambda>x. (xr_workspace_id x, xr_episode_id x)) (hd_experiences db))"

lemma record_same_read:
  assumes "record_same w i db db'"
  shows "experience_record_in cd w i db' = experience_record_in cd w i db"
  using assms unfolding experience_record_in_def record_same_def by metis

lemma records_later_refl [simp]: "records_later db db"
  by (simp add: records_later_def record_same_def)

lemma records_later_trans:
  assumes "records_later a b" and "records_later b c" and "hd_last_sequence a \<le> hd_last_sequence b"
  shows "records_later a c"
  unfolding records_later_def
proof (intro conjI allI impI)
  fix w i
  assume "experience_row_of w i a \<noteq> None"
  then have "record_same w i a b" using assms(1) by (simp add: records_later_def)
  moreover from this have "record_same w i b c"
    using assms(2) \<open>experience_row_of w i a \<noteq> None\<close>
    unfolding records_later_def record_same_def by metis
  ultimately show "record_same w i a c" by (simp add: record_same_def)
next
  obtain ss ts where "hd_seals b = hd_seals a @ ss" "hd_seals c = hd_seals b @ ts"
      "\<forall>s \<in> set ss. \<exists>n. slr_acceptance_order s = Some n \<and> hd_last_sequence a < n"
      "\<forall>s \<in> set ts. \<exists>n. slr_acceptance_order s = Some n \<and> hd_last_sequence b < n"
    using assms(1,2) unfolding records_later_def by blast
  then show "\<exists>ss. hd_seals c = hd_seals a @ ss
      \<and> (\<forall>s \<in> set ss. \<exists>n. slr_acceptance_order s = Some n \<and> hd_last_sequence a < n)"
    using assms(3) by (intro exI [of _ "ss @ ts"]) fastforce
qed

lemma record_later:
  assumes "records_later db db'" and "experience_record_in cd w i db = Inr (Some r)"
  shows "experience_record_in cd w i db' = Inr (Some r)"
proof -
  have "experience_row_of w i db \<noteq> None"
  proof
    assume "experience_row_of w i db = None"
    then show False using assms(2) by (simp add: experience_record_in_def)
  qed
  then have "record_same w i db db'" using assms(1) by (simp add: records_later_def)
  then show ?thesis using assms(2) by (simp add: record_same_read)
qed

lemma known_parts_append [simp]:
  "known_parts (xs @ ys) db \<longleftrightarrow> known_parts xs db \<and> known_parts ys db"
  by (auto simp: known_parts_def)

lemma known_parts_later:
  "known_parts rows db \<Longrightarrow> (\<And>w i. experience_row_of w i db \<noteq> None \<Longrightarrow> experience_row_of w i db' \<noteq> None)
    \<Longrightarrow> known_parts rows db'"
  by (auto simp: known_parts_def)

text \<open>An operation that leaves the experience tables alone.\<close>

lemma experiences_same:
  assumes "experiences_ok db" and "hd_experiences db' = hd_experiences db"
    and "hd_evidence db' = hd_evidence db" and "hd_verifications db' = hd_verifications db"
    and "hd_attempts db' = hd_attempts db" and "hd_code_snapshots db' = hd_code_snapshots db"
    and "hd_graph_snapshots db' = hd_graph_snapshots db" and "hd_bases db' = hd_bases db"
    and "hd_seals db' = hd_seals db"
  shows "experiences_ok db' \<and> records_later db db'"
  using assms
  by (simp add: experiences_ok_def all_parts_known_def known_parts_def experience_row_of_def
      records_later_def record_same_def)

text \<open>The parts that an insertion writes belong to its experience.\<close>

definition owned :: "written_rows \<Rightarrow> 'a part_row_scheme list \<Rightarrow> bool" where
  "owned n rows \<longleftrightarrow> (\<forall>p \<in> set rows. prt_workspace_id p = xr_workspace_id (wr_experience n)
     \<and> prt_experience_id p = xr_id (wr_experience n))"

lemma owned_parts:
  assumes "list_all2 H xs rs" and "row_holds cd e (wr_experience n)"
    and "\<And>a r. a \<in> set xs \<Longrightarrow> H a r \<Longrightarrow> part_of (exp_workspace_id e) (exp_id e) (ord a) r"
  shows "owned n rs"
  using assms by (fastforce simp: owned_def list_all2_conv_all_nth in_set_conv_nth part_of_def
      row_holds_def)

lemma rows_owned:
  assumes "rows_hold cd r n" and "validate_experience_record blake3 to_vec r = Inr u"
  shows "owned n (wr_evidence n) \<and> owned n (wr_verifications n) \<and> owned n (wr_attempts n)
    \<and> owned n (wr_code_snapshots n) \<and> owned n (wr_graph_snapshots n) \<and> owned n (wr_bases n)"
proof -
  let ?e = "er_experience r" let ?w = "exp_workspace_id ?e" let ?i = "exp_id ?e"
  have row: "row_holds cd ?e (wr_experience n)" using assms(1) by (simp add: rows_hold_def Let_def)
  have "\<And>a. a \<in> set (er_attempts r) \<Longrightarrow> attempt_workspace_id a = ?w \<and> attempt_experience_id a = ?i"
    using assms(2) attempt_owner unfolding validate_experience_record_Inr by blast
  note owner = this
  have holds: "list_all2 (link_holds ?w ?i) (er_evidence r) (wr_evidence n)"
      "list_all2 (observation_holds ?w ?i) (ev_observations (exp_verification ?e)) (wr_verifications n)"
      "list_all2 (attempt_holds cd) (er_attempts r) (wr_attempts n)"
      "list_all2 (code_holds ?w ?i) (er_code_snapshots r) (wr_code_snapshots n)"
      "list_all2 (graph_holds cd ?w ?i) (er_graph_snapshots r) (wr_graph_snapshots n)"
      "list_all2 (basis_holds ?w ?i) (enumerate 0 (sa_bases (exp_evidence_strength ?e))) (wr_bases n)"
    using assms(1) by (simp_all add: rows_hold_def Let_def)
  show ?thesis
    using owned_parts [OF holds(1) row, of link_ordinal] owned_parts [OF holds(2) row, of vo_ordinal]
      owned_parts [OF holds(3) row, of attempt_ordinal] owned_parts [OF holds(4) row, of snap_ordinal]
      owned_parts [OF holds(5) row, of gs_ordinal] owned_parts [OF holds(6) row, of fst] owner
    by (simp add: link_holds_def observation_holds_def attempt_holds_def code_holds_def
        graph_holds_def basis_holds_def)
qed

lemma sort_key_empty: "sort_key f xs = [] \<longleftrightarrow> xs = []"
  by (metis length_0_conv length_sort)

lemma first_None: "(case xs of [] \<Rightarrow> None | x # _ \<Rightarrow> Some x) = None \<longleftrightarrow> xs = []"
  by (cases xs) auto

lemma experience_by_episode_None:
  "experience_by_episode w i db = None \<longleftrightarrow>
    filter (\<lambda>x. xr_workspace_id x = w \<and> xr_episode_id x = i) (hd_experiences db) = []"
  unfolding experience_by_episode_def first_None sort_key_empty ..

lemma with_rows_keeps:
  assumes ok: "experiences_ok db" and "rows_hold cd r n"
    and allowed: "experience_row_allowed (wr_experience n) db"
    and "validate_experience_record blake3 to_vec r = Inr u"
    and single: "experience_by_episode (xr_workspace_id (wr_experience n))
      (xr_episode_id (wr_experience n)) db = None"
  shows "experiences_ok (with_rows n db) \<and> records_later db (with_rows n db)"
proof -
  let ?x = "wr_experience n"
  note owned = rows_owned [OF assms(2,4)]
  have fresh: "experience_row_of (xr_workspace_id ?x) (xr_id ?x) db = None"
    using allowed unfolding experience_row_allowed_def experience_row_of_def find_None_iff
    by (metis image_eqI)
  have row: "experience_row_of w i (with_rows n db) = experience_row_of w i db"
    if "experience_row_of w i db \<noteq> None" for w i
    using that by (auto simp: experience_row_of_with_rows)
  have parts: "parts_of w i (old @ rs) = parts_of w i old"
    if "experience_row_of w i db \<noteq> None" and "owned n rs"
    for w i and old rs :: "'a part_row_scheme list"
    by (rule parts_of_old) (use that fresh in \<open>auto simp: owned_def\<close>)
  have known: "known_parts (old @ rs) (with_rows n db)"
    if "known_parts old db" and "owned n rs" for old rs :: "'a part_row_scheme list"
  proof -
    have "known_parts old (with_rows n db)"
      by (rule known_parts_later [OF that(1)]) (simp add: row)
    moreover have "known_parts rs (with_rows n db)"
      using that(2) fresh by (simp add: known_parts_def owned_def experience_row_of_with_rows)
    ultimately show ?thesis by simp
  qed
  have "record_same w i db (with_rows n db)" if "experience_row_of w i db \<noteq> None" for w i
    unfolding record_same_def with_rows_simps row [OF that] using owned
    by (intro conjI parts [OF that]) simp_all
  moreover have "hd_seals (with_rows n db) = hd_seals db @ [\<lparr>slr_workspace_id = xr_workspace_id ?x,
      slr_experience_id = xr_id ?x, slr_acceptance_order = Some (hd_last_sequence db + 1)\<rparr>]"
    by (simp add: with_rows_def Let_def)
  ultimately have "records_later db (with_rows n db)" by (simp add: records_later_def)
  moreover have "all_parts_known (with_rows n db)"
    using ok owned unfolding experiences_ok_def all_parts_known_def with_rows_simps
    by (intro conjI known) simp_all
  moreover have "(xr_workspace_id ?x, xr_episode_id ?x)
      \<notin> set (map (\<lambda>x. (xr_workspace_id x, xr_episode_id x)) (hd_experiences db))"
  proof -
    have "filter (\<lambda>x. xr_workspace_id x = xr_workspace_id ?x \<and> xr_episode_id x = xr_episode_id ?x)
        (hd_experiences db) = []"
      using single by (simp add: experience_by_episode_None)
    then show ?thesis by (auto simp: filter_empty_conv)
  qed
  moreover have "xr_id ?x \<notin> xr_id ` set (hd_experiences db)"
    using allowed by (simp add: experience_row_allowed_def)
  moreover have "(xr_workspace_id ?x, xr_consolidation_fingerprint ?x)
      \<notin> set (map (\<lambda>x. (xr_workspace_id x, xr_consolidation_fingerprint x)) (hd_experiences db))"
  proof -
    have "\<not> list_ex (\<lambda>x. xr_workspace_id x = xr_workspace_id ?x
        \<and> xr_consolidation_fingerprint x = xr_consolidation_fingerprint ?x) (hd_experiences db)"
      using allowed by (simp add: experience_row_allowed_def)
    then show ?thesis by (auto simp: list_ex_iff)
  qed
  ultimately show ?thesis using ok by (simp add: experiences_ok_def)
qed

end
