(* ===== verification/ExperienceLedger.thy ===== *)
theory ExperienceLedger
  imports ExperienceStore
begin

text \<open>
  Assessments of experiences: the append-only ledger of \<open>src/storage/repositories.rs\<close> with its
  constraints and the trigger against cycles of supersession, the reviewed operation of
  \<open>src/service/experience_assessment.rs\<close>, the pages of the history, and the lifecycle that the
  ledger implies.
\<close>

section \<open>Supersession\<close>

text \<open>The replacements recorded in a workspace, as edges from an experience to what replaces it.\<close>

definition replacements :: "string \<Rightarrow> history_db \<Rightarrow> (string \<times> string) list" where
  "replacements w db = concat (map (\<lambda>a. case asr_replacement a of None \<Rightarrow> []
     | Some i \<Rightarrow> [(asr_experience_id a, i)])
     (filter (\<lambda>a. asr_workspace_id a = w \<and> asr_kind a = ''superseded'') (hd_assessments db)))"

text \<open>The recursive query of the trigger collects what can be reached along the edges; a path of
  more steps than there are edges repeats one.\<close>

fun reaches :: "nat \<Rightarrow> (string \<times> string) list \<Rightarrow> string \<Rightarrow> string \<Rightarrow> bool" where
  "reaches 0 edges a b \<longleftrightarrow> a = b"
| "reaches (Suc n) edges a b \<longleftrightarrow> a = b \<or> list_ex (\<lambda>(x, y). x = a \<and> reaches n edges y b) edges"

definition supersession_cycle :: "assessment_row \<Rightarrow> history_db \<Rightarrow> bool" where
  "supersession_cycle r db \<longleftrightarrow>
     (let edges = replacements (asr_workspace_id r) db
      in case asr_replacement r of None \<Rightarrow> False
         | Some i \<Rightarrow> reaches (length edges) edges i (asr_experience_id r))"

section \<open>The ledger\<close>

definition assessment_row_allowed :: "assessment_row \<Rightarrow> history_db \<Rightarrow> bool" where
  "assessment_row_allowed r db \<longleftrightarrow> asr_id r \<notin> asr_id ` set (hd_assessments db)
     \<and> experience_row_of (asr_workspace_id r) (asr_experience_id r) db \<noteq> None
     \<and> pred_option (\<lambda>i. experience_row_of (asr_workspace_id r) i db \<noteq> None) (asr_replacement r)
     \<and> asr_kind r \<in> fst ` set assessment_names
     \<and> sql_bounded 256 (asr_actor r) \<and> sql_bounded 4096 (asr_reason r)
     \<and> (asr_kind r = ''superseded'' \<longleftrightarrow> asr_replacement r \<noteq> None)
     \<and> (asr_kind r = ''superseded'' \<longrightarrow> \<not> supersession_cycle r db
          \<and> \<not> list_ex (\<lambda>a. asr_workspace_id a = asr_workspace_id r
                 \<and> asr_experience_id a = asr_experience_id r \<and> asr_kind a = ''superseded'')
               (hd_assessments db))
     \<and> (asr_request_key r \<noteq> None
          \<longrightarrow> \<not> list_ex (\<lambda>a. asr_workspace_id a = asr_workspace_id r
                 \<and> asr_experience_id a = asr_experience_id r
                 \<and> asr_request_key a = asr_request_key r) (hd_assessments db))"

definition assessment_row_of :: "assessment \<Rightarrow> string \<Rightarrow> string \<Rightarrow> assessment_row" where
  "assessment_row_of a key request_hash =
     \<lparr>asr_id = as_id a, asr_workspace_id = as_workspace_id a,
      asr_experience_id = as_experience_id a, asr_kind = assessment_as_str (as_kind a),
      asr_actor = as_actor a, asr_reason = as_reason a, asr_replacement = as_replacement a,
      asr_created_at = as_created_at a, asr_request_key = Some key,
      asr_request_hash = Some request_hash\<rparr>"

definition insert_assessment :: "assessment \<Rightarrow> string \<Rightarrow> string \<Rightarrow> unit tx" where
  "insert_assessment a key request_hash db =
     (let r = assessment_row_of a key request_hash
      in checked (assessment_row_allowed r db) ''experience_assessments''
           ((), db\<lparr>hd_assessments := hd_assessments db @ [r]\<rparr>))"

definition assessment_evidence_row_of ::
    "string \<Rightarrow> string \<Rightarrow> int \<Rightarrow> string \<Rightarrow> assessment_evidence_row" where
  "assessment_evidence_row_of w i k event =
     \<lparr>aer_workspace_id = w, aer_assessment_id = i, aer_ordinal = k, aer_event_id = event\<rparr>"

definition insert_assessment_evidence :: "string \<Rightarrow> string \<Rightarrow> nat \<times> string \<Rightarrow> unit tx" where
  "insert_assessment_evidence w i = (\<lambda>(n, event) db.
     and_then (ordinal_from_u64 n) (\<lambda>k.
     let r = assessment_evidence_row_of w i k event
     in checked (0 \<le> k \<and> event_row_of w event db \<noteq> None
          \<and> list_ex (\<lambda>a. asr_workspace_id a = w \<and> asr_id a = i) (hd_assessments db)
          \<and> \<not> list_ex (\<lambda>x. aer_workspace_id x = w \<and> aer_assessment_id x = i \<and> aer_ordinal x = k)
               (hd_assessment_evidence db))
          ''experience_assessment_evidence''
          ((), db\<lparr>hd_assessment_evidence := hd_assessment_evidence db @ [r]\<rparr>)))"

definition assessment_evidence :: "string \<Rightarrow> string \<Rightarrow> history_db \<Rightarrow> string list" where
  "assessment_evidence w i db = map aer_event_id (sort_key aer_ordinal
     (filter (\<lambda>x. aer_workspace_id x = w \<and> aer_assessment_id x = i) (hd_assessment_evidence db)))"

definition assessment_of_row :: "history_db \<Rightarrow> assessment_row \<Rightarrow> assessment" where
  "assessment_of_row db r =
     \<lparr>as_id = asr_id r, as_workspace_id = asr_workspace_id r,
      as_experience_id = asr_experience_id r, as_kind = assessment_from_storage (asr_kind r),
      as_actor = asr_actor r, as_reason = asr_reason r, as_replacement = asr_replacement r,
      as_evidence_event_ids = assessment_evidence (asr_workspace_id r) (asr_id r) db,
      as_created_at = asr_created_at r\<rparr>"

definition experience_assessment_by_id :: "string \<Rightarrow> string \<Rightarrow> history_db \<Rightarrow> assessment option" where
  "experience_assessment_by_id w i db = map_option (assessment_of_row db)
     (find (\<lambda>a. asr_workspace_id a = w \<and> asr_id a = i) (hd_assessments db))"

definition reviewed_row :: "string \<Rightarrow> string \<Rightarrow> string \<Rightarrow> history_db \<Rightarrow> assessment_row option" where
  "reviewed_row w i key db = find (\<lambda>a. asr_workspace_id a = w \<and> asr_experience_id a = i
     \<and> asr_request_key a = Some key) (hd_assessments db)"

definition append_reviewed_experience_assessment ::
    "assessment \<Rightarrow> string \<Rightarrow> string \<Rightarrow> assessment tx" where
  "append_reviewed_experience_assessment a key request_hash db =
     and_then (validate_assessment a) (\<lambda>_.
     case reviewed_row (as_workspace_id a) (as_experience_id a) key db of
       Some r \<Rightarrow>
         and_then (ensure (asr_request_hash r = Some request_hash)
           (ConflictErr (''experience assessment request key was reused with different review ''
              @ ''content''))) (\<lambda>_.
         and_then (ok_or (experience_assessment_by_id (as_workspace_id a) (asr_id r) db)
           (StorageErr ''no rows returned'')) (\<lambda>found. Inr (found, db)))
     | None \<Rightarrow>
         and_then (insert_assessment a key request_hash db) (\<lambda>(_, db).
         and_then (try_tx (insert_assessment_evidence (as_workspace_id a) (as_id a))
           (enumerate 0 (as_evidence_event_ids a)) db) (\<lambda>db. Inr (a, db))))"

section \<open>Reviews\<close>

definition bounded_audit_text :: "nat \<Rightarrow> string \<Rightarrow> bool" where
  "bounded_audit_text n v \<longleftrightarrow> v \<noteq> [] \<and> length v \<le> n \<and> trim v = v \<and> nul \<notin> set v"

definition validate_evidence_ids :: "string list \<Rightarrow> cortex_error + unit" where
  "validate_evidence_ids ids =
     ensure (ids \<noteq> [] \<and> length ids \<le> max_experience_assessment_evidence
         \<and> list_all (bounded_audit_text 256) ids \<and> distinct ids)
       (AnalysisErr ''experience assessment evidence must be present, unique, and bounded'')"

definition validate_review_request :: "review_request \<Rightarrow> cortex_error + unit" where
  "validate_review_request q =
     and_then (ensure (list_all (bounded_audit_text 256) [rq_workspace_id q, rq_experience_id q,
           rq_reviewed_by q, rq_request_key q] \<and> bounded_audit_text 4096 (rq_reason q))
       (AnalysisErr (''reviewed experience assessment requires bounded identity, reviewer, ''
          @ ''and reason''))) (\<lambda>_.
     and_then (validate_evidence_ids (rq_evidence_event_ids q)) (\<lambda>_.
     ensure ((rq_kind q = SupersededAssessment \<longleftrightarrow> rq_replacement q \<noteq> None)
         \<and> pred_option (\<lambda>v. \<not> blank v \<and> v \<noteq> rq_experience_id q) (rq_replacement q))
       (AnalysisErr ''only supersession review may name a distinct replacement experience'')))"

text \<open>The text under the hash of a request: \<open>len:field|\<close> for each field.\<close>

definition barred :: "string \<Rightarrow> string" where
  "barred v = length_prefixed v @ ''|''"

definition assessment_material :: "assessment \<Rightarrow> string" where
  "assessment_material a =
     concat (map barred [as_workspace_id a, as_experience_id a, assessment_as_str (as_kind a),
       as_actor a, as_reason a, case as_replacement a of None \<Rightarrow> [] | Some i \<Rightarrow> i])
     @ concat (map barred (as_evidence_event_ids a))"

definition assessment_request_hash :: "(string \<Rightarrow> string) \<Rightarrow> assessment \<Rightarrow> string" where
  "assessment_request_hash blake3 a = ''assessment-request-v1:'' @ blake3 (assessment_material a)"

definition reviewed_assessment :: "string \<Rightarrow> timestamp \<Rightarrow> review_request \<Rightarrow> assessment" where
  "reviewed_assessment i now q =
     \<lparr>as_id = i, as_workspace_id = rq_workspace_id q, as_experience_id = rq_experience_id q,
      as_kind = rq_kind q, as_actor = rq_reviewed_by q, as_reason = rq_reason q,
      as_replacement = rq_replacement q, as_evidence_event_ids = rq_evidence_event_ids q,
      as_created_at = now\<rparr>"

definition require_experience ::
    "history_codec \<Rightarrow> string \<Rightarrow> history_db \<Rightarrow> string \<Rightarrow> cortex_error + unit" where
  "require_experience cd w db i =
     and_then (experience_record_in cd w i db) (\<lambda>found.
     ensure (found \<noteq> None) (NotFoundErr (''experience '' @ i)))"

definition require_event ::
    "history_codec \<Rightarrow> string \<Rightarrow> history_db \<Rightarrow> string \<Rightarrow> cortex_error + unit" where
  "require_event cd w db i =
     and_then (stored_event cd w i db) (\<lambda>found.
     ensure (found \<noteq> None) (NotFoundErr (''event '' @ i)))"

text \<open>The reads of \<open>review\<close> are modelled on the database its transaction runs in: what they find
  is immutable.\<close>

definition review ::
    "(string \<Rightarrow> string) \<Rightarrow> history_codec \<Rightarrow> string \<Rightarrow> timestamp \<Rightarrow> review_request \<Rightarrow> assessment tx" where
  "review blake3 cd i now q db =
     and_then (validate_review_request q) (\<lambda>_.
     and_then (require_experience cd (rq_workspace_id q) db (rq_experience_id q)) (\<lambda>_.
     and_then (case rq_replacement q of None \<Rightarrow> Inr ()
       | Some r \<Rightarrow> require_experience cd (rq_workspace_id q) db r) (\<lambda>_.
     and_then (try_each (require_event cd (rq_workspace_id q) db) (rq_evidence_event_ids q)) (\<lambda>_.
     let a = reviewed_assessment i now q
     in append_reviewed_experience_assessment a (rq_request_key q)
          (assessment_request_hash blake3 a) db))))"

section \<open>Reading the ledger\<close>

text \<open>The rows of an experience, the latest first.\<close>

definition assessment_order :: "assessment_row \<Rightarrow> timestamp \<times> string" where
  "assessment_order r = (asr_created_at r, asr_id r)"

definition assessment_rows :: "string \<Rightarrow> string \<Rightarrow> history_db \<Rightarrow> assessment_row list" where
  "assessment_rows w i db = rev (sort_key assessment_order
     (filter (\<lambda>a. asr_workspace_id a = w \<and> asr_experience_id a = i) (hd_assessments db)))"

definition before_cursor :: "assessment_cursor option \<Rightarrow> assessment_row \<Rightarrow> bool" where
  "before_cursor after r \<longleftrightarrow> (case after of None \<Rightarrow> True
     | Some c \<Rightarrow> asr_created_at r < cursor_created_at c
         \<or> asr_created_at r = cursor_created_at c \<and> asr_id r < cursor_id c)"

definition experience_assessment_page ::
    "string \<Rightarrow> string \<Rightarrow> assessment_cursor option \<Rightarrow> nat \<Rightarrow> history_db
      \<Rightarrow> cortex_error + assessment_page" where
  "experience_assessment_page w i after limit db =
     and_then (ensure (0 < limit \<and> limit \<le> max_experience_assessment_page_limit)
       (AnalysisErr (''experience assessment page limit must be between 1 and ''
          @ digits max_experience_assessment_page_limit))) (\<lambda>_.
     let rows = take (limit + 1) (filter (before_cursor after) (assessment_rows w i db));
         assessments = map (assessment_of_row db) (take limit rows)
     in if length rows \<le> limit
        then Inr \<lparr>page_assessments = assessments, page_next_cursor = None\<rparr>
        else if assessments = [] then Inl (Panicked ''non-empty page with a next cursor'')
        else Inr \<lparr>page_assessments = assessments,
          page_next_cursor = Some \<lparr>cursor_created_at = as_created_at (last assessments),
            cursor_id = as_id (last assessments)\<rparr>\<rparr>)"

definition experience_assessments ::
    "string \<Rightarrow> string \<Rightarrow> history_db \<Rightarrow> cortex_error + assessment list" where
  "experience_assessments w i db =
     and_then (experience_assessment_page w i None max_experience_assessment_page_limit db)
       (\<lambda>p. Inr (page_assessments p))"

definition assessed_as :: "string \<Rightarrow> string \<Rightarrow> string \<Rightarrow> history_db \<Rightarrow> bool" where
  "assessed_as kind w i db \<longleftrightarrow> list_ex (\<lambda>a. asr_workspace_id a = w \<and> asr_experience_id a = i
     \<and> asr_kind a = kind) (hd_assessments db)"

definition stored_lifecycle :: "string \<Rightarrow> string \<Rightarrow> history_db \<Rightarrow> experience_lifecycle" where
  "stored_lifecycle w i db =
     (if assessed_as ''superseded'' w i db then SupersededLifecycle
      else if assessed_as ''refuted'' w i db then RefutedLifecycle
      else if assessed_as ''disputed'' w i db then DisputedLifecycle else ActiveLifecycle)"

section \<open>The lifecycle is a function of the ledger\<close>

lemma reaches_relpow:
  "reaches n edges a b \<longleftrightarrow> (\<exists>k \<le> n. (a, b) \<in> set edges ^^ k)"
proof (induction n arbitrary: a)
  case (Suc n)
  have "(\<exists>k \<le> Suc n. (a, b) \<in> set edges ^^ k) \<longleftrightarrow>
      a = b \<or> (\<exists>k \<le> n. (a, b) \<in> set edges ^^ Suc k)"
    by (metis Suc_le_mono le0 old.nat.exhaust relpow_0_E relpow_0_I)
  also have "... \<longleftrightarrow> a = b \<or> (\<exists>y. (a, y) \<in> set edges \<and> (\<exists>k \<le> n. (y, b) \<in> set edges ^^ k))"
    by (metis relpow_Suc_D2 relpow_Suc_I2)
  finally show ?case by (auto simp: Suc.IH list_ex_iff)
qed simp

lemma reaches_rtrancl: "reaches (length edges) edges a b \<longleftrightarrow> (a, b) \<in> (set edges)\<^sup>*"
proof
  assume "(a, b) \<in> (set edges)\<^sup>*"
  then obtain k where "k \<le> card (set edges)" and "(a, b) \<in> set edges ^^ k"
    using rtrancl_finite_eq_relpow [of "set edges"] by auto
  then show "reaches (length edges) edges a b"
    using card_length [of edges] by (auto simp: reaches_relpow intro: exI [of _ k])
qed (auto simp: reaches_relpow rtrancl_power)

lemma kind_of_name:
  "n \<in> fst ` set assessment_names \<Longrightarrow> assessment_from_storage n = k \<longleftrightarrow> n = assessment_as_str k"
  by (cases k) (auto simp: assessment_names_def assessment_from_storage_def enum_read_def
      assessment_as_str_def enum_name_def)

lemma assessed_as_kind:
  assumes "\<forall>a \<in> set (hd_assessments db). asr_kind a \<in> fst ` set assessment_names"
  shows "k \<in> set (map (\<lambda>r. as_kind (assessment_of_row db r)) (assessment_rows w i db))
    \<longleftrightarrow> assessed_as (assessment_as_str k) w i db"
proof -
  have "k \<in> set (map (\<lambda>r. as_kind (assessment_of_row db r)) (assessment_rows w i db)) \<longleftrightarrow>
      (\<exists>a \<in> set (hd_assessments db). asr_workspace_id a = w \<and> asr_experience_id a = i
         \<and> assessment_from_storage (asr_kind a) = k)"
    by (auto simp: assessment_rows_def assessment_of_row_def)
  also have "... \<longleftrightarrow> assessed_as (assessment_as_str k) w i db"
    using assms by (auto simp: assessed_as_def list_ex_iff kind_of_name)
  finally show ?thesis .
qed

lemma lifecycle_of_ledger:
  assumes "\<forall>a \<in> set (hd_assessments db). asr_kind a \<in> fst ` set assessment_names"
  shows "stored_lifecycle w i db = lifecycle_of (map (\<lambda>r. as_kind (assessment_of_row db r))
    (assessment_rows w i db))"
proof -
  have names: "assessment_as_str SupersededAssessment = ''superseded''"
      "assessment_as_str RefutedAssessment = ''refuted''"
      "assessment_as_str DisputedAssessment = ''disputed''"
    by (simp_all add: assessment_as_str_def enum_name_def assessment_names_def)
  show ?thesis
    unfolding lifecycle_of_def stored_lifecycle_def assessed_as_kind [OF assms] names ..
qed

end
