(* ===== verification/LedgerHistory.thy ===== *)
theory LedgerHistory
  imports EpisodeHistory ExperienceHistory ExperienceLedger
begin

text \<open>
  The ledger of assessments over time: what appending does to it, its invariant \<open>ledger_ok\<close>, and
  that an assessment once written stays as it is.  A review is executed once per request key, by the
  same contract as the mutations of episodes.
\<close>

section \<open>Appending\<close>

definition evidence_rows :: "assessment \<Rightarrow> assessment_evidence_row list" where
  "evidence_rows a = map (\<lambda>(k, event). assessment_evidence_row_of (as_workspace_id a) (as_id a)
     (int k) event) (enumerate 0 (as_evidence_event_ids a))"

definition with_assessment :: "assessment \<Rightarrow> string \<Rightarrow> string \<Rightarrow> history_db \<Rightarrow> history_db" where
  "with_assessment a key h db =
     db\<lparr>hd_assessments := hd_assessments db @ [assessment_row_of a key h],
        hd_assessment_evidence := hd_assessment_evidence db @ evidence_rows a\<rparr>"

lemma with_assessment_simps [simp]:
  "hd_assessments (with_assessment a key h db) = hd_assessments db @ [assessment_row_of a key h]"
  "hd_assessment_evidence (with_assessment a key h db) = hd_assessment_evidence db @ evidence_rows a"
  "hd_experiences (with_assessment a key h db) = hd_experiences db"
  "hd_evidence (with_assessment a key h db) = hd_evidence db"
  "hd_verifications (with_assessment a key h db) = hd_verifications db"
  "hd_attempts (with_assessment a key h db) = hd_attempts db"
  "hd_code_snapshots (with_assessment a key h db) = hd_code_snapshots db"
  "hd_graph_snapshots (with_assessment a key h db) = hd_graph_snapshots db"
  "hd_bases (with_assessment a key h db) = hd_bases db"
  "hd_seals (with_assessment a key h db) = hd_seals db"
  "hd_episodes (with_assessment a key h db) = hd_episodes db"
  "hd_members (with_assessment a key h db) = hd_members db"
  "hd_requests (with_assessment a key h db) = hd_requests db"
  "hd_events (with_assessment a key h db) = hd_events db"
  "hd_order (with_assessment a key h db) = hd_order db"
  "hd_workspaces (with_assessment a key h db) = hd_workspaces db"
  "hd_last_sequence (with_assessment a key h db) = hd_last_sequence db"
  by (simp_all add: with_assessment_def)

interpretation assessment_evidence_table:
  table hd_assessment_evidence "\<lambda>rs. hd_assessment_evidence_update (\<lambda>_. rs)"
  by unfold_locales simp_all

lemma insert_assessment_evidence_Inr:
  assumes "insert_assessment_evidence w i ke db = Inr (u, db')"
  shows "db' = db\<lparr>hd_assessment_evidence := hd_assessment_evidence db
    @ [assessment_evidence_row_of w i (int (fst ke)) (snd ke)]\<rparr>"
  using assms by (cases ke) (auto simp: insert_assessment_evidence_def and_then_eq_Inr Let_def)

lemma list_all2_map_eq: "list_all2 (\<lambda>x r. r = f x) xs rs \<Longrightarrow> rs = map f xs"
  by (induction rule: list_all2_induct) auto

lemma append_reviewed_cases:
  assumes "append_reviewed_experience_assessment a key h db = Inr (x, db')"
  obtains
    (replay) r where "reviewed_row (as_workspace_id a) (as_experience_id a) key db = Some r"
      and "asr_request_hash r = Some h" and "db' = db"
      and "experience_assessment_by_id (as_workspace_id a) (asr_id r) db = Some x"
  | (fresh) "reviewed_row (as_workspace_id a) (as_experience_id a) key db = None"
      and "x = a" and "db' = with_assessment a key h db"
      and "assessment_row_allowed (assessment_row_of a key h) db"
proof (cases "reviewed_row (as_workspace_id a) (as_experience_id a) key db")
  case (Some r)
  then have "asr_request_hash r = Some h \<and> db' = db
      \<and> experience_assessment_by_id (as_workspace_id a) (asr_id r) db = Some x"
    using assms by (auto simp: append_reviewed_experience_assessment_def and_then_eq_Inr)
  then show ?thesis by (intro replay [OF Some]) simp_all
next
  case None
  obtain db1 where row: "insert_assessment a key h db = Inr ((), db1)"
    and rest: "try_tx (insert_assessment_evidence (as_workspace_id a) (as_id a))
      (enumerate 0 (as_evidence_event_ids a)) db1 = Inr db'" and "x = a"
    using assms None by (auto simp: append_reviewed_experience_assessment_def and_then_eq_Inr)
  have db1: "db1 = db\<lparr>hd_assessments := hd_assessments db @ [assessment_row_of a key h]\<rparr>"
    and allowed: "assessment_row_allowed (assessment_row_of a key h) db"
    using row by (auto simp: insert_assessment_def Let_def)
  let ?row = "\<lambda>ke. assessment_evidence_row_of (as_workspace_id a) (as_id a) (int (fst ke)) (snd ke)"
  have "\<exists>rs. list_all2 (\<lambda>ke r. r = ?row ke) (enumerate 0 (as_evidence_event_ids a)) rs
      \<and> db' = db1\<lparr>hd_assessment_evidence := hd_assessment_evidence db1 @ rs\<rparr>"
    by (rule assessment_evidence_table.insert_all [OF rest])
      (drule insert_assessment_evidence_Inr, simp)
  then obtain rs where rs: "list_all2 (\<lambda>ke r. r = ?row ke) (enumerate 0 (as_evidence_event_ids a)) rs"
      and db': "db' = db1\<lparr>hd_assessment_evidence := hd_assessment_evidence db1 @ rs\<rparr>" by blast
  have "rs = evidence_rows a"
    unfolding evidence_rows_def case_prod_beta using rs by (rule list_all2_map_eq)
  then have "db' = with_assessment a key h db" by (simp add: db' db1 with_assessment_def)
  then show ?thesis using fresh None \<open>x = a\<close> allowed by blast
qed

section \<open>The invariant of the ledger\<close>

definition request_id :: "assessment_row \<Rightarrow> string \<times> string \<times> string option" where
  "request_id r = (asr_workspace_id r, asr_experience_id r, asr_request_key r)"

definition ledger_ok :: "history_db \<Rightarrow> bool" where
  "ledger_ok db \<longleftrightarrow> distinct (map asr_id (hd_assessments db))
     \<and> distinct (map request_id (hd_assessments db))
     \<and> (\<forall>a \<in> set (hd_assessments db). asr_kind a \<in> fst ` set assessment_names
          \<and> asr_request_key a \<noteq> None)
     \<and> (\<forall>w. acyclic (set (replacements w db)) \<and> distinct (map fst (replacements w db)))
     \<and> (\<forall>e \<in> set (hd_assessment_evidence db). aer_assessment_id e \<in> asr_id ` set (hd_assessments db))"

definition ledger_later :: "history_db \<Rightarrow> history_db \<Rightarrow> bool" where
  "ledger_later db db' \<longleftrightarrow> prefix (hd_assessments db) (hd_assessments db')
     \<and> (\<forall>w i x. experience_assessment_by_id w i db = Some x
          \<longrightarrow> experience_assessment_by_id w i db' = Some x)"

lemma ledger_later_refl [simp]: "ledger_later db db"
  by (simp add: ledger_later_def)

lemma ledger_later_trans: "ledger_later a b \<Longrightarrow> ledger_later b c \<Longrightarrow> ledger_later a c"
  unfolding ledger_later_def by (meson prefix_order.trans)

lemma ledger_same:
  assumes "ledger_ok db" and "hd_assessments db' = hd_assessments db"
    and "hd_assessment_evidence db' = hd_assessment_evidence db"
  shows "ledger_ok db' \<and> ledger_later db db'"
proof -
  have "replacements w db' = replacements w db" for w by (simp add: replacements_def assms(2))
  moreover have "assessment_of_row db' = assessment_of_row db"
    by (rule ext) (simp add: assessment_of_row_def assessment_evidence_def assms(3))
  ultimately show ?thesis
    using assms by (simp add: ledger_ok_def ledger_later_def experience_assessment_by_id_def)
qed

lemma replacements_with_assessment:
  "replacements w (with_assessment a key h db) = replacements w db
     @ (if as_workspace_id a = w \<and> assessment_as_str (as_kind a) = ''superseded''
        then case as_replacement a of None \<Rightarrow> [] | Some i \<Rightarrow> [(as_experience_id a, i)] else [])"
  by (simp add: replacements_def assessment_row_of_def split: option.split)

lemma assessment_row_of_simps [simp]:
  "asr_id (assessment_row_of a key h) = as_id a"
  "asr_workspace_id (assessment_row_of a key h) = as_workspace_id a"
  "asr_experience_id (assessment_row_of a key h) = as_experience_id a"
  "asr_kind (assessment_row_of a key h) = assessment_as_str (as_kind a)"
  "asr_replacement (assessment_row_of a key h) = as_replacement a"
  "asr_request_key (assessment_row_of a key h) = Some key"
  "asr_request_hash (assessment_row_of a key h) = Some h"
  by (simp_all add: assessment_row_of_def)

lemma in_replacements:
  "(x, y) \<in> set (replacements w db) \<Longrightarrow> \<exists>a \<in> set (hd_assessments db). asr_workspace_id a = w
     \<and> asr_experience_id a = x \<and> asr_kind a = ''superseded'' \<and> asr_replacement a = Some y"
  by (auto simp: replacements_def split: option.splits)

lemma replacements_keep:
  assumes "acyclic (set (replacements w db))" and "distinct (map fst (replacements w db))"
    and allowed: "assessment_row_allowed (assessment_row_of a key h) db"
  shows "acyclic (set (replacements w (with_assessment a key h db)))
    \<and> distinct (map fst (replacements w (with_assessment a key h db)))"
proof (cases "as_workspace_id a = w \<and> assessment_as_str (as_kind a) = ''superseded''")
  case True
  then obtain i where i: "as_replacement a = Some i"
    using allowed by (auto simp: assessment_row_allowed_def)
  have "\<not> reaches (length (replacements w db)) (replacements w db) i (as_experience_id a)"
    using allowed True i by (simp add: assessment_row_allowed_def supersession_cycle_def Let_def)
  then have "(i, as_experience_id a) \<notin> (set (replacements w db))\<^sup>*"
    by (simp add: reaches_rtrancl)
  moreover have "as_experience_id a \<notin> fst ` set (replacements w db)"
  proof
    assume "as_experience_id a \<in> fst ` set (replacements w db)"
    then obtain y where "(as_experience_id a, y) \<in> set (replacements w db)" by auto
    with allowed True show False
      by (auto dest!: in_replacements simp: assessment_row_allowed_def list_ex_iff)
  qed
  ultimately show ?thesis
    using assms(1,2) True i by (simp add: replacements_with_assessment acyclic_insert)
next
  case False
  then have "replacements w (with_assessment a key h db) = replacements w db"
    by (auto simp: replacements_with_assessment)
  then show ?thesis using assms(1,2) by simp
qed

section \<open>An assessment reads back and stays\<close>

lemma evidence_reads_back:
  assumes "\<forall>e \<in> set (hd_assessment_evidence db). aer_assessment_id e \<noteq> as_id a"
  shows "assessment_evidence (as_workspace_id a) (as_id a) (with_assessment a key h db)
    = as_evidence_event_ids a"
proof -
  have old: "filter (\<lambda>x. aer_workspace_id x = as_workspace_id a \<and> aer_assessment_id x = as_id a)
      (hd_assessment_evidence db) = []"
    using assms by (auto simp: filter_empty_conv)
  have new: "filter (\<lambda>x. aer_workspace_id x = as_workspace_id a \<and> aer_assessment_id x = as_id a)
      (evidence_rows a) = evidence_rows a"
    by (auto simp: evidence_rows_def assessment_evidence_row_of_def filter_id_conv)
  have "map aer_ordinal (evidence_rows a) = map int (map fst (enumerate 0 (as_evidence_event_ids a)))"
    by (simp add: evidence_rows_def assessment_evidence_row_of_def case_prod_beta del: map_fst_enumerate)
  then have "sorted (map aer_ordinal (evidence_rows a))"
    by (simp add: sorted_iff_nth_mono)
  then have "sort_key aer_ordinal (evidence_rows a) = evidence_rows a"
    by (rule sort_key_id_if_sorted)
  moreover have "map aer_event_id (evidence_rows a) = map snd (enumerate 0 (as_evidence_event_ids a))"
    unfolding evidence_rows_def assessment_evidence_row_of_def map_map
    by (rule map_cong) auto
  ultimately show ?thesis by (simp add: assessment_evidence_def old new)
qed

lemma evidence_stays:
  assumes "i \<noteq> as_id a"
  shows "assessment_evidence w i (with_assessment a key h db) = assessment_evidence w i db"
proof -
  have "filter (\<lambda>x. aer_workspace_id x = w \<and> aer_assessment_id x = i) (evidence_rows a) = []"
    using assms by (auto simp: filter_empty_conv evidence_rows_def assessment_evidence_row_of_def)
  then show ?thesis by (simp add: assessment_evidence_def)
qed

lemma by_id_Some:
  "experience_assessment_by_id w i db = Some x \<longleftrightarrow>
    (\<exists>r. find (\<lambda>a. asr_workspace_id a = w \<and> asr_id a = i) (hd_assessments db) = Some r
       \<and> x = assessment_of_row db r)"
  by (auto simp: experience_assessment_by_id_def)

lemma by_id_new:
  assumes "ledger_ok db" and "assessment_row_allowed (assessment_row_of a key h) db"
  shows "experience_assessment_by_id (as_workspace_id a) (as_id a) (with_assessment a key h db)
    = Some a"
proof -
  have new: "as_id a \<notin> asr_id ` set (hd_assessments db)"
    using assms(2) by (simp add: assessment_row_allowed_def)
  then have "find (\<lambda>r. asr_workspace_id r = as_workspace_id a \<and> asr_id r = as_id a)
      (hd_assessments db) = None"
    unfolding find_None_iff by (metis image_eqI)
  moreover have "\<forall>e \<in> set (hd_assessment_evidence db). aer_assessment_id e \<noteq> as_id a"
    using assms(1) new unfolding ledger_ok_def by metis
  ultimately show ?thesis
    by (simp add: experience_assessment_by_id_def find_append assessment_of_row_def
        evidence_reads_back)
      (simp add: assessment_row_of_def assessment_from_storage_def assessment_as_str_def
        assessment_enum.read_name)
qed

lemma append_reviewed_keeps:
  assumes ok: "ledger_ok db" and "append_reviewed_experience_assessment a key h db = Inr (x, db')"
  shows "ledger_ok db' \<and> ledger_later db db'"
  using assms(2)
proof (cases rule: append_reviewed_cases)
  case (replay r)
  then show ?thesis using ok by simp
next
  case fresh
  let ?r = "assessment_row_of a key h"
  have new: "as_id a \<notin> asr_id ` set (hd_assessments db)"
    using fresh(4) by (simp add: assessment_row_allowed_def)
  have "request_id ?r \<notin> request_id ` set (hd_assessments db)"
    using fresh(4) by (auto simp: assessment_row_allowed_def list_ex_iff request_id_def)
  moreover have "assessment_as_str (as_kind a) \<in> fst ` set assessment_names"
    using fresh(4) by (simp add: assessment_row_allowed_def)
  moreover have "\<forall>e \<in> set (evidence_rows a). aer_assessment_id e = as_id a"
    by (auto simp: evidence_rows_def assessment_evidence_row_of_def)
  ultimately have "ledger_ok db'"
    using ok new replacements_keep [OF _ _ fresh(4)]
    unfolding ledger_ok_def fresh(3) by auto
  moreover have "experience_assessment_by_id w i db' = Some y"
    if y: "experience_assessment_by_id w i db = Some y" for w i y
  proof -
    obtain r where r: "find (\<lambda>a. asr_workspace_id a = w \<and> asr_id a = i) (hd_assessments db) = Some r"
        "y = assessment_of_row db r" using y by (auto simp: by_id_Some)
    then have "asr_id r \<noteq> as_id a" using new by (metis find_SomeD image_eqI)
    then show ?thesis
      using r by (simp add: fresh(3) by_id_Some find_append assessment_of_row_def evidence_stays)
  qed
  ultimately show ?thesis by (simp add: ledger_later_def fresh(3))
qed


section \<open>Reviews are executed once\<close>

type_synonym keyed_review = "assessment \<times> string \<times> string"

definition append_keyed :: "keyed_review \<Rightarrow> assessment tx" where
  "append_keyed = (\<lambda>(a, key, h). append_reviewed_experience_assessment a key h)"

definition review_receipt :: "history_db \<Rightarrow> string \<times> string \<times> string \<Rightarrow> string option option" where
  "review_receipt db = (\<lambda>(w, i, key). map_option asr_request_hash (reviewed_row w i key db))"

definition review_key :: "keyed_review \<Rightarrow> string \<times> string \<times> string" where
  "review_key = (\<lambda>(a, key, h). (as_workspace_id a, as_experience_id a, key))"

definition review_content :: "keyed_review \<Rightarrow> string option" where
  "review_content = (\<lambda>(a, key, h). Some h)"

definition review_ready :: "keyed_review \<Rightarrow> bool" where
  "review_ready = (\<lambda>(a, key, h). validate_assessment a = Inr ())"

lemma reviewed_row_later:
  "ledger_later db db' \<Longrightarrow> reviewed_row w i key db = Some r \<Longrightarrow> reviewed_row w i key db' = Some r"
  unfolding ledger_later_def reviewed_row_def by (blast intro: find_prefix)

lemma reviewed_row_by_id:
  assumes "reviewed_row w i key db = Some r"
  shows "experience_assessment_by_id w (asr_id r) db \<noteq> None"
proof -
  have "r \<in> set (hd_assessments db) \<and> asr_workspace_id r = w"
    using assms by (auto simp: reviewed_row_def dest: find_SomeD)
  then have "find (\<lambda>a. asr_workspace_id a = w \<and> asr_id a = asr_id r) (hd_assessments db) \<noteq> None"
    by (auto simp: find_None_iff)
  then show ?thesis by (simp add: experience_assessment_by_id_def)
qed

lemma append_replays:
  assumes "reviewed_row (as_workspace_id a) (as_experience_id a) key db = Some r"
    and "asr_request_hash r = Some h" and "validate_assessment a = Inr u"
    and "experience_assessment_by_id (as_workspace_id a) (asr_id r) db = Some x"
  shows "append_reviewed_experience_assessment a key h db = Inr (x, db)"
  using assms by (simp add: append_reviewed_experience_assessment_def ensure_def)

text \<open>The row that an append leaves under its key holds the assessment it returned.\<close>

lemma append_recorded:
  assumes "ledger_ok db" and "append_reviewed_experience_assessment a key h db = Inr (x, db')"
  shows "\<exists>r. reviewed_row (as_workspace_id a) (as_experience_id a) key db' = Some r
    \<and> asr_request_hash r = Some h
    \<and> experience_assessment_by_id (as_workspace_id a) (asr_id r) db' = Some x"
  using assms(2)
proof (cases rule: append_reviewed_cases)
  case (replay r)
  then show ?thesis by blast
next
  case fresh
  have "reviewed_row (as_workspace_id a) (as_experience_id a) key db'
      = Some (assessment_row_of a key h)"
    using fresh(1) unfolding fresh(3) reviewed_row_def by (simp add: find_append)
  then show ?thesis using by_id_new [OF assms(1) fresh(4)] by (simp add: fresh(2,3))
qed

lemma append_again:
  assumes "ledger_ok db" and "append_reviewed_experience_assessment a key h db = Inr (x, db1)"
    and later: "ledger_later db1 db2" and "validate_assessment b = Inr u"
    and "as_workspace_id b = as_workspace_id a" and "as_experience_id b = as_experience_id a"
  shows "append_reviewed_experience_assessment b key h db2 = Inr (x, db2)"
proof -
  obtain r where r: "reviewed_row (as_workspace_id a) (as_experience_id a) key db1 = Some r"
      "asr_request_hash r = Some h"
      "experience_assessment_by_id (as_workspace_id a) (asr_id r) db1 = Some x"
    using append_recorded [OF assms(1,2)] by blast
  show ?thesis
  proof (rule append_replays)
    show "reviewed_row (as_workspace_id b) (as_experience_id b) key db2 = Some r"
      unfolding assms(5,6) using later r(1) by (rule reviewed_row_later)
    show "experience_assessment_by_id (as_workspace_id b) (asr_id r) db2 = Some x"
      using later r(3) by (simp add: ledger_later_def assms(5))
  qed (rule r(2), rule assms(4))
qed

interpretation reviews: keyed_requests append_keyed review_receipt review_key review_content
  review_ready ledger_ok ledger_later
proof
  fix db q x db'
  assume "ledger_ok db" and "append_keyed q db = Inr (x, db')"
  then show "review_receipt db' (review_key q) = Some (review_content q)"
    using append_recorded
    by (cases q) (fastforce simp: append_keyed_def review_receipt_def review_key_def
        review_content_def)
next
  fix db q
  assume "ledger_ok db" and "review_ready q"
    and "review_receipt db (review_key q) = Some (review_content q)"
  then show "\<exists>x. append_keyed q db = Inr (x, db)"
    using reviewed_row_by_id append_replays
    by (cases q) (fastforce simp: append_keyed_def review_receipt_def review_key_def
        review_content_def review_ready_def)
next
  fix db q c
  assume "review_ready q" and "review_receipt db (review_key q) = Some c" and "c \<noteq> review_content q"
  then show "\<exists>m. append_keyed q db = Inl (ConflictErr m)"
    by (cases q) (auto simp: append_keyed_def review_receipt_def review_key_def
        review_content_def append_reviewed_experience_assessment_def ensure_def review_ready_def)
next
  fix q db x db'
  assume "append_keyed q db = Inr (x, db')"
  then show "review_ready q"
    by (cases q) (auto simp: append_keyed_def review_ready_def and_then_eq_Inr
        append_reviewed_experience_assessment_def)
next
  fix db db' k c
  assume "ledger_later db db'" and "review_receipt db k = Some c"
  then show "review_receipt db' k = Some c"
    using reviewed_row_later by (cases k) (fastforce simp: review_receipt_def)
qed


section \<open>The lifecycle only advances\<close>

fun lifecycle_rank :: "experience_lifecycle \<Rightarrow> nat" where
  "lifecycle_rank ActiveLifecycle = 0"
| "lifecycle_rank DisputedLifecycle = 1"
| "lifecycle_rank RefutedLifecycle = 2"
| "lifecycle_rank SupersededLifecycle = 3"

instantiation experience_lifecycle :: linorder
begin

definition less_eq_experience_lifecycle :: "experience_lifecycle \<Rightarrow> experience_lifecycle \<Rightarrow> bool" where
  "less_eq_experience_lifecycle a b \<longleftrightarrow> lifecycle_rank a \<le> lifecycle_rank b"

definition less_experience_lifecycle :: "experience_lifecycle \<Rightarrow> experience_lifecycle \<Rightarrow> bool" where
  "less_experience_lifecycle a b \<longleftrightarrow> lifecycle_rank a < lifecycle_rank b"

instance
proof
  fix a b :: experience_lifecycle
  assume "a \<le> b" and "b \<le> a"
  then show "a = b"
    by (cases a; cases b) (simp_all add: less_eq_experience_lifecycle_def)
qed (auto simp: less_eq_experience_lifecycle_def less_experience_lifecycle_def)

end

lemma stored_lifecycle_later:
  assumes "ledger_later db db'"
  shows "stored_lifecycle w i db \<le> stored_lifecycle w i db'"
proof -
  have "assessed_as kind w i db \<Longrightarrow> assessed_as kind w i db'" for kind
    using assms by (auto simp: ledger_later_def assessed_as_def prefix_def)
  then show ?thesis
    by (simp add: stored_lifecycle_def less_eq_experience_lifecycle_def)
qed

section \<open>Pages of the ledger\<close>

lemma sorted_by_order:
  assumes "distinct (map asr_id xs)"
  shows "sorted_wrt (\<lambda>a b. assessment_order b < assessment_order a) (rev (sort_key assessment_order xs))"
proof -
  have "inj_on assessment_order (set xs)"
    using assms by (auto simp: inj_on_def assessment_order_def distinct_map)
  moreover have "distinct xs" using assms by (simp add: distinct_map)
  ultimately have "distinct (map assessment_order (sort_key assessment_order xs))"
    by (simp add: distinct_map)
  then have "sorted_wrt (<) (map assessment_order (sort_key assessment_order xs))"
    by (simp add: strict_sorted_iff)
  then show ?thesis by (simp add: sorted_wrt_rev sorted_wrt_map)
qed

lemma filter_after:
  assumes "sorted_wrt (\<lambda>a b. f b < (f a :: 'b :: linorder)) xs" and "0 < n" and "n < length xs"
  shows "filter (\<lambda>x. f x < f (xs ! (n - 1))) xs = drop n xs"
proof -
  have below: "f x < f (xs ! (n - 1))" if x: "x \<in> set (drop n xs)" for x
  proof -
    obtain k where "k < length xs - n" "x = xs ! (n + k)"
      using x by (auto simp: in_set_conv_nth)
    then show ?thesis using assms by (auto intro: sorted_wrt_nth_less)
  qed
  have above: "\<not> f x < f (xs ! (n - 1))" if x: "x \<in> set (take n xs)" for x
  proof -
    obtain k where k: "k < n" "x = xs ! k" using x assms(3) by (auto simp: in_set_conv_nth)
    show ?thesis
    proof (cases "k = n - 1")
      case False
      then have "f (xs ! (n - 1)) < f (xs ! k)"
        using sorted_wrt_nth_less [OF assms(1), of k "n - 1"] k assms(3) by simp
      then show ?thesis using k by simp
    qed (simp add: k)
  qed
  have "filter (\<lambda>x. f x < f (xs ! (n - 1))) (take n xs @ drop n xs) = drop n xs"
    unfolding filter_append using below above
    by (simp add: filter_empty_conv filter_id_conv)
  then show ?thesis by simp
qed


definition remaining_rows ::
    "string \<Rightarrow> string \<Rightarrow> assessment_cursor option \<Rightarrow> history_db \<Rightarrow> assessment_row list" where
  "remaining_rows w i after db = filter (before_cursor after) (assessment_rows w i db)"

definition cursor_at :: "assessment_row \<Rightarrow> assessment_cursor" where
  "cursor_at r = \<lparr>cursor_created_at = asr_created_at r, cursor_id = asr_id r\<rparr>"

lemma before_cursor_at:
  "before_cursor (Some (cursor_at c)) = (\<lambda>r. assessment_order r < assessment_order c)"
  by (auto simp: fun_eq_iff before_cursor_def cursor_at_def assessment_order_def less_prod_def')

lemma before_cursor_trans:
  "before_cursor after c \<Longrightarrow> assessment_order r < assessment_order c \<Longrightarrow> before_cursor after r"
  by (auto simp: before_cursor_def assessment_order_def less_prod_def' split: option.splits)

lemma remaining_after_page:
  assumes "distinct (map asr_id (hd_assessments db))" and "0 < n"
    and "n < length (remaining_rows w i after db)"
  shows "remaining_rows w i (Some (cursor_at (remaining_rows w i after db ! (n - 1)))) db
    = drop n (remaining_rows w i after db)"
proof -
  let ?rows = "remaining_rows w i after db"
  let ?c = "?rows ! (n - 1)"
  have "distinct (map asr_id (filter (\<lambda>a. asr_workspace_id a = w \<and> asr_experience_id a = i)
      (hd_assessments db)))"
    using assms(1) by (rule distinct_map_filter)
  then have sorted: "sorted_wrt (\<lambda>a b. assessment_order b < assessment_order a) (assessment_rows w i db)"
    unfolding assessment_rows_def by (rule sorted_by_order)
  have c: "before_cursor after ?c"
    using assms(2,3) nth_mem [of "n - 1" ?rows] by (simp add: remaining_rows_def)
  have "filter (\<lambda>r. assessment_order r < assessment_order ?c) (assessment_rows w i db)
      = filter (\<lambda>r. assessment_order r < assessment_order ?c) ?rows"
    unfolding remaining_rows_def filter_filter
    by (rule filter_cong) (use before_cursor_trans [OF c] in \<open>auto simp: remaining_rows_def\<close>)
  also have "... = drop n ?rows"
    by (rule filter_after) (use sorted assms(2,3) in \<open>auto simp: remaining_rows_def sorted_wrt_filter\<close>)
  finally show ?thesis
    by (simp add: remaining_rows_def before_cursor_at)
qed

lemma page_Inr:
  assumes "0 < limit" and "limit \<le> max_experience_assessment_page_limit"
  shows "experience_assessment_page w i after limit db = Inr
    \<lparr>page_assessments = map (assessment_of_row db) (take limit (remaining_rows w i after db)),
     page_next_cursor = (if length (remaining_rows w i after db) \<le> limit then None
       else Some (cursor_at (remaining_rows w i after db ! (limit - 1))))\<rparr>"
proof -
  let ?rows = "remaining_rows w i after db"
  have taken: "take limit (take (limit + 1) ?rows) = take limit ?rows" by (simp add: min_def)
  show ?thesis
  proof (cases "length ?rows \<le> limit")
    case True
    then show ?thesis
      using assms by (simp add: experience_assessment_page_def ensure_def Let_def remaining_rows_def)
  next
    case False
    then have some: "take limit ?rows \<noteq> []" using assms(1) by auto
    have "last (take limit ?rows) = ?rows ! (limit - 1)"
      using False assms(1) by (simp add: last_conv_nth [OF some] min_def)
    then show ?thesis
      using some False assms taken
      by (simp add: experience_assessment_page_def ensure_def Let_def remaining_rows_def last_map
          cursor_at_def assessment_of_row_def)
  qed
qed

end
