(* ===== verification/History.thy ===== *)
theory History
  imports LedgerHistory
begin

text \<open>
  The history of a workspace: every operation that writes the tables of \<open>HistoryTables\<close> is a step of
  \<open>history_step\<close>, and \<open>history_run\<close> is any sequence of them, of any clients.  \<open>history_ok\<close> holds of
  every database that a run reaches from the empty one, and \<open>later\<close> relates it to every database
  that a run reaches from it.
\<close>

section \<open>Inserting an experience\<close>

lemma insert_experience_checked_cases:
  assumes "insert_experience_checked hs r version input single db = Inr (x, db')"
  obtains
    (existing) y where "experience_by_fingerprint (exp_workspace_id (er_experience r))
        (exp_consolidation_fingerprint (er_experience r)) db = Some y"
      and "xr_proposal_hash y = exp_proposal_hash (er_experience r)" and "db' = db"
      and "experience_record_in (hs_codec hs) (exp_workspace_id (er_experience r)) (xr_id y) db
        = Inr (Some x)"
  | (fresh) n where "experience_by_fingerprint (exp_workspace_id (er_experience r))
        (exp_consolidation_fingerprint (er_experience r)) db = None"
      and "x = r" and "db' = with_rows n db" and "rows_hold (hs_codec hs) r n"
      and "experience_row_allowed (wr_experience n) db"
      and "validate_experience_record (hs_blake3 hs) (hs_json_bytes hs) r = Inr ()"
      and "single \<Longrightarrow> experience_by_episode (exp_workspace_id (er_experience r))
        (exp_episode_id (er_experience r)) db = None"
proof (cases "experience_by_fingerprint (exp_workspace_id (er_experience r))
    (exp_consolidation_fingerprint (er_experience r)) db")
  case (Some y)
  then have "xr_proposal_hash y = exp_proposal_hash (er_experience r) \<and> db' = db
      \<and> experience_record_in (hs_codec hs) (exp_workspace_id (er_experience r)) (xr_id y) db
        = Inr (Some x)"
    using assms
    by (auto simp: insert_experience_checked_def Let_def and_then_eq_Inr existing_experience_def)
  then show ?thesis by (intro existing [OF Some]) simp_all
next
  case None
  then have written: "write_experience_record (hs_codec hs) r db = Inr ((), db')" "x = r"
      "validate_experience_record (hs_blake3 hs) (hs_json_bytes hs) r = Inr ()"
      "single \<Longrightarrow> experience_by_episode (exp_workspace_id (er_experience r))
        (exp_episode_id (er_experience r)) db = None"
    using assms by (auto simp: insert_experience_checked_def Let_def and_then_eq_Inr)
  obtain n where "db' = with_rows n db" "rows_hold (hs_codec hs) r n"
      "experience_row_allowed (wr_experience n) db"
    using write_experience_record_Inr [OF written(1)] by blast
  then show ?thesis using written by (intro fresh [OF None]) simp_all
qed

lemma rows_hold_row:
  assumes "rows_hold cd r n"
  shows "xr_id (wr_experience n) = exp_id (er_experience r)
    \<and> xr_workspace_id (wr_experience n) = exp_workspace_id (er_experience r)
    \<and> xr_episode_id (wr_experience n) = exp_episode_id (er_experience r)
    \<and> xr_consolidation_fingerprint (wr_experience n) = exp_consolidation_fingerprint (er_experience r)
    \<and> xr_proposal_hash (wr_experience n) = exp_proposal_hash (er_experience r)"
  using assms by (simp add: rows_hold_def Let_def row_holds_def)

lemma with_rows_order [simp]:
  "hd_order (with_rows n db) = hd_order db @ [\<lparr>odr_sequence = hd_last_sequence db + 1,
     odr_workspace_id = xr_workspace_id (wr_experience n),
     odr_entity_kind = ''experience_acceptance'', odr_entity_id = xr_id (wr_experience n)\<rparr>]"
  "hd_seals (with_rows n db) = hd_seals db @ [\<lparr>slr_workspace_id = xr_workspace_id (wr_experience n),
     slr_experience_id = xr_id (wr_experience n),
     slr_acceptance_order = Some (hd_last_sequence db + 1)\<rparr>]"
  by (simp_all add: with_rows_def Let_def)

lemma with_rows_appended: "appended db (with_rows n db)"
  by (simp add: appended_def)

lemma allowed_fresh:
  assumes "experience_row_allowed x db"
  shows "experience_row_of w (xr_id x) db = None"
  using assms unfolding experience_row_allowed_def experience_row_of_def find_None_iff
  by (metis image_eqI)

section \<open>The order of writing\<close>

definition order_key :: "order_row \<Rightarrow> string \<times> string \<times> string" where
  "order_key r = (odr_workspace_id r, odr_entity_kind r, odr_entity_id r)"

definition order_ok :: "history_db \<Rightarrow> bool" where
  "order_ok db \<longleftrightarrow> (\<forall>r \<in> set (hd_order db). odr_sequence r \<le> hd_last_sequence db)
     \<and> distinct (map order_key (hd_order db))
     \<and> (\<forall>r \<in> set (hd_order db). odr_entity_kind r = ''event''
          \<longrightarrow> event_row_of (odr_workspace_id r) (odr_entity_id r) db \<noteq> None)
     \<and> (\<forall>r \<in> set (hd_order db). odr_entity_kind r = ''experience_acceptance''
          \<longrightarrow> experience_row_of (odr_workspace_id r) (odr_entity_id r) db \<noteq> None)
     \<and> (\<forall>v \<in> set (hd_events db).
          (evr_workspace_id v, ''event'', evr_id v) \<in> order_key ` set (hd_order db))
     \<and> (\<forall>s \<in> set (hd_seals db).
          experience_row_of (slr_workspace_id s) (slr_experience_id s) db \<noteq> None)"

definition order_later :: "history_db \<Rightarrow> history_db \<Rightarrow> bool" where
  "order_later db db' \<longleftrightarrow> hd_last_sequence db \<le> hd_last_sequence db'
     \<and> (\<exists>rs. hd_order db' = hd_order db @ rs \<and> (\<forall>r \<in> set rs. hd_last_sequence db < odr_sequence r))"

lemma order_later_refl [simp]: "order_later db db"
  by (simp add: order_later_def)

lemma order_later_trans:
  assumes "order_later a b" and "order_later b c"
  shows "order_later a c"
proof -
  obtain rs ts where "hd_order b = hd_order a @ rs" "\<forall>r \<in> set rs. hd_last_sequence a < odr_sequence r"
      "hd_order c = hd_order b @ ts" "\<forall>r \<in> set ts. hd_last_sequence b < odr_sequence r"
    using assms unfolding order_later_def by blast
  then show ?thesis
    using assms unfolding order_later_def by (intro conjI exI [of _ "rs @ ts"]) auto
qed

lemma order_same:
  assumes "order_ok db" and "hd_order db' = hd_order db" and "hd_last_sequence db' = hd_last_sequence db"
    and "hd_events db' = hd_events db" and "hd_experiences db' = hd_experiences db"
    and "hd_seals db' = hd_seals db"
  shows "order_ok db' \<and> order_later db db'"
  using assms by (simp add: order_ok_def order_later_def event_row_of_def experience_row_of_def)

lemma insert_event_order:
  assumes ok: "order_ok db" and "insert_event_in_transaction cd e db = Inr (u, db')"
  shows "order_ok db' \<and> order_later db db'"
proof -
  obtain v where v: "evr_id v = event_id e" "evr_workspace_id v = event_workspace_id e"
    and db': "db' = db\<lparr>hd_events := hd_events db @ [v], hd_last_sequence := hd_last_sequence db + 1,
        hd_order := hd_order db @ [\<lparr>odr_sequence = hd_last_sequence db + 1,
          odr_workspace_id = event_workspace_id e, odr_entity_kind = ''event'',
          odr_entity_id = event_id e\<rparr>]\<rparr>"
    and new: "(event_workspace_id e, ''event'', event_id e) \<notin> order_key ` set (hd_order db)"
    using insert_event_Inr [OF assms(2)] unfolding order_key_def by blast
  have kept: "event_row_of w i db \<noteq> None \<Longrightarrow> event_row_of w i db' \<noteq> None" for w i
    by (auto simp: event_row_of_def db' find_append)
  have "event_row_of (event_workspace_id e) (event_id e) db' \<noteq> None"
    by (simp add: event_row_of_def db' find_append v split: option.split)
  moreover have "experience_row_of w i db' = experience_row_of w i db" for w i
    by (simp add: experience_row_of_def db')
  ultimately have "order_ok db'"
    using ok kept new unfolding order_ok_def
    by (simp add: db' order_key_def v) (meson order_trans less_add_one less_imp_le)
  then show ?thesis by (simp add: order_later_def db')
qed

lemma with_rows_order_ok:
  assumes ok: "order_ok db" and allowed: "experience_row_allowed (wr_experience n) db"
  shows "order_ok (with_rows n db) \<and> order_later db (with_rows n db)"
proof -
  let ?x = "wr_experience n"
  have fresh: "experience_row_of w (xr_id ?x) db = None" for w
    using allowed by (rule allowed_fresh)
  have kept: "experience_row_of w i db \<noteq> None \<Longrightarrow> experience_row_of w i (with_rows n db) \<noteq> None" for w i
    by (auto simp: experience_row_of_with_rows)
  have events: "event_row_of w i (with_rows n db) = event_row_of w i db" for w i
    by (simp add: event_row_of_def)
  have "experience_row_of (xr_workspace_id ?x) (xr_id ?x) (with_rows n db) \<noteq> None"
    by (simp add: experience_row_of_with_rows fresh)
  moreover have "(xr_workspace_id ?x, ''experience_acceptance'', xr_id ?x) \<notin> order_key ` set (hd_order db)"
    using ok fresh by (auto simp: order_ok_def order_key_def)
  ultimately have "order_ok (with_rows n db)"
    using ok kept unfolding order_ok_def
    by (simp add: order_key_def events) (meson order_trans less_add_one less_imp_le)
  then show ?thesis by (simp add: order_later_def)
qed

section \<open>Steps and runs\<close>

definition history_ok :: "history_db \<Rightarrow> bool" where
  "history_ok db \<longleftrightarrow> episodes_ok db \<and> experiences_ok db \<and> ledger_ok db \<and> order_ok db"

definition later :: "history_db \<Rightarrow> history_db \<Rightarrow> bool" where
  "later db db' \<longleftrightarrow> history_later db db' \<and> records_later db db' \<and> ledger_later db db'
     \<and> order_later db db'"

lemma later_same [simp]: "later db db"
  by (simp add: later_def)

lemma later_trans: "later a b \<Longrightarrow> later b c \<Longrightarrow> later a c"
  unfolding later_def
  by (meson history_later_trans records_later_trans ledger_later_trans order_later_trans order_later_def)

text \<open>Workspaces, sessions and tasks change in ways of their own, but no workspace goes away: its
  deregistration deletes all that it holds, and is left out.\<close>

inductive history_step :: "history_services \<Rightarrow> history_db \<Rightarrow> history_db \<Rightarrow> bool" for hs where
  owners: "set (hd_workspaces db) \<subseteq> set ws \<Longrightarrow>
    history_step hs db (db\<lparr>hd_workspaces := ws, hd_sessions := ss, hd_tasks := ts\<rparr>)"
| event: "insert_event_in_transaction (hs_codec hs) e db = Inr (u, db') \<Longrightarrow> history_step hs db db'"
| start: "insert_episode (episode_new i now w s t ty title creator) db = Inr (u, db')
    \<Longrightarrow> history_step hs db db'"
| mutation: "proper_mutation m \<Longrightarrow> mutate_episode m db = Inr (e, db') \<Longrightarrow> history_step hs db db'"
| experience: "insert_consolidated_experience hs r version input db = Inr (x, db')
    \<Longrightarrow> history_step hs db db'"
| assessment: "append_reviewed_experience_assessment a key h db = Inr (y, db')
    \<Longrightarrow> history_step hs db db'"

definition history_run :: "history_services \<Rightarrow> history_db \<Rightarrow> history_db \<Rightarrow> bool" where
  "history_run hs = (history_step hs)\<^sup>*\<^sup>*"

lemma owners_keep:
  assumes "history_ok db" and "set (hd_workspaces db) \<subseteq> set ws"
    and "db' = db\<lparr>hd_workspaces := ws, hd_sessions := ss, hd_tasks := ts\<rparr>"
  shows "history_ok db' \<and> later db db'"
proof -
  have "history_later db db' \<and> episodes_ok db'"
    using assms by (intro episodes_ok_grown) (simp_all add: history_ok_def appended_def episodes_ok_def)
  moreover have "experiences_ok db' \<and> records_later db db'"
    using assms by (intro experiences_same) (simp_all add: history_ok_def)
  moreover have "ledger_ok db' \<and> ledger_later db db'"
    using assms by (intro ledger_same) (simp_all add: history_ok_def)
  moreover have "order_ok db' \<and> order_later db db'"
    using assms by (intro order_same) (simp_all add: history_ok_def)
  ultimately show ?thesis by (simp add: history_ok_def later_def)
qed

lemma insert_event_history:
  assumes "history_ok db" and event: "insert_event_in_transaction cd e db = Inr (u, db')"
  shows "history_ok db' \<and> later db db'"
proof -
  obtain r where db': "db' = db\<lparr>hd_events := hd_events db @ [r],
        hd_last_sequence := hd_last_sequence db + 1,
        hd_order := hd_order db @ [\<lparr>odr_sequence = hd_last_sequence db + 1,
          odr_workspace_id = event_workspace_id e, odr_entity_kind = ''event'',
          odr_entity_id = event_id e\<rparr>]\<rparr>"
    using insert_event_Inr [OF event] by blast
  have "experiences_ok db' \<and> records_later db db'"
    using assms(1) by (intro experiences_same) (simp_all add: history_ok_def db')
  moreover have "ledger_ok db' \<and> ledger_later db db'"
    using assms(1) by (intro ledger_same) (simp_all add: history_ok_def db')
  ultimately show ?thesis
    using assms(1) insert_event_keeps [OF _ event] insert_event_order [OF _ event]
    by (simp add: history_ok_def later_def)
qed

text \<open>A step on the episodes alone.\<close>

definition episodes_only :: "history_db \<Rightarrow> history_db \<Rightarrow> bool" where
  "episodes_only db db' \<longleftrightarrow>
     db' = db\<lparr>hd_episodes := hd_episodes db', hd_members := hd_members db', hd_requests := hd_requests db'\<rparr>"

lemma episodes_only_keep:
  assumes "history_ok db" and "episodes_only db db'" and "history_later db db' \<and> episodes_ok db'"
  shows "history_ok db' \<and> later db db'"
proof -
  obtain es ms rs where db': "db' = db\<lparr>hd_episodes := es, hd_members := ms, hd_requests := rs\<rparr>"
    using assms(2) unfolding episodes_only_def by blast
  have "experiences_ok db' \<and> records_later db db'"
    using assms(1) by (intro experiences_same) (simp_all add: history_ok_def db')
  moreover have "ledger_ok db' \<and> ledger_later db db'"
    using assms(1) by (intro ledger_same) (simp_all add: history_ok_def db')
  moreover have "order_ok db' \<and> order_later db db'"
    using assms(1) by (intro order_same) (simp_all add: history_ok_def db')
  ultimately show ?thesis using assms(3) by (simp add: history_ok_def later_def)
qed

lemma insert_episode_only: "insert_episode e db = Inr (u, db') \<Longrightarrow> episodes_only db db'"
  by (drule insert_episode_Inr) (auto simp: episodes_only_def)

lemma mutate_episode_only:
  assumes "mutate_episode m db = Inr (e, db')"
  shows "episodes_only db db'"
  using assms
proof (cases rule: mutate_episode_cases)
  case (replay r)
  then have "db' = db" using replay_mutation_Inr by blast
  then show ?thesis by (simp add: episodes_only_def)
next
  case (fresh db1 v)
  have "db' = mutated m v (v + 1) db1" using apply_mutation_Inr [OF fresh(4)] by blast
  moreover have "db1 = db\<lparr>hd_requests := hd_requests db @ [mutation_row_of m (v + 1)]\<rparr>"
    using reserve_mutation_Inr [OF fresh(3)] by blast
  ultimately show ?thesis
    by (simp add: episodes_only_def mutated_def updated_episodes_def)
qed

lemma insert_experience_history:
  assumes ok: "history_ok db"
    and insert: "insert_consolidated_experience hs r version input db = Inr (x, db')"
  shows "history_ok db' \<and> later db db'"
  using insert unfolding insert_consolidated_experience_def
proof (cases rule: insert_experience_checked_cases)
  case (existing y)
  then show ?thesis using ok by simp
next
  case (fresh n)
  have "experience_by_episode (xr_workspace_id (wr_experience n)) (xr_episode_id (wr_experience n)) db
      = None"
    using fresh(7) rows_hold_row [OF fresh(4)] by simp
  then have "experiences_ok db' \<and> records_later db db'"
    unfolding fresh(3) using ok
    by (intro with_rows_keeps [OF _ fresh(4,5,6)]) (simp_all add: history_ok_def)
  moreover have "history_later db db' \<and> episodes_ok db'"
    unfolding fresh(3) using ok with_rows_appended [of db n]
    by (intro episodes_ok_grown) (simp_all add: history_ok_def episodes_ok_def)
  moreover have "ledger_ok db' \<and> ledger_later db db'"
    unfolding fresh(3) using ok by (intro ledger_same) (simp_all add: history_ok_def)
  moreover have "order_ok db' \<and> order_later db db'"
    unfolding fresh(3) using ok fresh(5)
    by (intro with_rows_order_ok) (simp_all add: history_ok_def)
  ultimately show ?thesis by (simp add: history_ok_def later_def)
qed

lemma append_reviewed_history:
  assumes ok: "history_ok db" and append: "append_reviewed_experience_assessment a key h db = Inr (x, db')"
  shows "history_ok db' \<and> later db db'"
  using append
proof (cases rule: append_reviewed_cases)
  case (replay r)
  then show ?thesis using ok by simp
next
  case fresh
  have "experiences_ok db' \<and> records_later db db'"
    using ok by (intro experiences_same) (simp_all add: history_ok_def fresh(3))
  moreover have "history_later db db' \<and> episodes_ok db'"
    using ok by (intro episodes_ok_grown)
      (simp_all add: history_ok_def fresh(3) appended_def episodes_ok_def)
  moreover have "order_ok db' \<and> order_later db db'"
    using ok by (intro order_same) (simp_all add: history_ok_def fresh(3))
  ultimately show ?thesis
    using ok append_reviewed_keeps [OF _ append] by (simp add: history_ok_def later_def)
qed

lemma history_step_keeps:
  assumes "history_step hs db db'" and ok: "history_ok db"
  shows "history_ok db' \<and> later db db'"
  using assms(1)
proof cases
  case (owners ws ss ts)
  then show ?thesis using owners_keep [OF ok] by blast
next
  case (event e u)
  then show ?thesis using insert_event_history [OF ok] by blast
next
  case (start i now w s t ty title creator u)
  have "history_later db db' \<and> episodes_ok db'"
    by (rule insert_episode_keeps [OF _ start]) (use ok in \<open>simp_all add: history_ok_def episode_new_def\<close>)
  then show ?thesis using episodes_only_keep [OF ok insert_episode_only [OF start]] by blast
next
  case (mutation m e)
  have "history_later db db' \<and> episodes_ok db'"
    by (rule mutate_episode_keeps [OF _ mutation]) (use ok in \<open>simp add: history_ok_def\<close>)
  then show ?thesis using episodes_only_keep [OF ok mutate_episode_only [OF mutation(2)]] by blast
next
  case (experience r version input x)
  then show ?thesis using insert_experience_history [OF ok] by blast
next
  case (assessment a key h y)
  then show ?thesis using append_reviewed_history [OF ok] by blast
qed

lemma history_run_keeps:
  assumes "history_run hs db db'" and "history_ok db"
  shows "history_ok db' \<and> later db db'"
  using assms unfolding history_run_def
proof (induction rule: rtranclp_induct)
  case (step b c)
  then show ?case using history_step_keeps later_trans by blast
qed simp

lemma history_run_refl [simp]: "history_run hs db db"
  by (simp add: history_run_def)

lemma history_run_step: "history_step hs a b \<Longrightarrow> history_run hs b c \<Longrightarrow> history_run hs a c"
  by (simp add: history_run_def converse_rtranclp_into_rtranclp)

lemma history_run_trans: "history_run hs a b \<Longrightarrow> history_run hs b c \<Longrightarrow> history_run hs a c"
  by (simp add: history_run_def)

lemma empty_ok: "history_ok empty_history"
proof -
  have "experiences_ok empty_history"
    by (simp add: experiences_ok_def all_parts_known_def known_parts_def empty_history_def)
  moreover have "ledger_ok empty_history"
    by (simp add: ledger_ok_def empty_history_def replacements_def acyclic_def)
  moreover have "order_ok empty_history"
    by (simp add: order_ok_def empty_history_def)
  ultimately show ?thesis by (simp add: history_ok_def empty_history_ok)
qed

lemma reachable_ok: "history_run hs empty_history db \<Longrightarrow> history_ok db"
  using history_run_keeps empty_ok by blast

section \<open>Closing\<close>

text \<open>The mutation that closes an episode.\<close>

definition closing :: "(string \<Rightarrow> string) \<Rightarrow> timestamp \<Rightarrow> episode_terminal_request \<Rightarrow> episode_mutation" where
  "closing blake3 t q =
     \<lparr>mt_workspace_id = tq_workspace_id q, mt_episode_id = tq_episode_id q,
      mt_expected_version = tq_expected_version q, mt_request_key = tq_request_key q,
      mt_operation = ''close'', mt_request_hash = blake3 (episode_mutation_material ''close''
        (tq_workspace_id q) (tq_episode_id q) (tq_expected_version q) []),
      mt_event_ids = None, mt_terminal_status = Some ClosedEpisode, mt_occurred_at = t\<rparr>"

lemma closing_simps [simp]:
  "mt_workspace_id (closing blake3 t q) = tq_workspace_id q"
  "mt_episode_id (closing blake3 t q) = tq_episode_id q"
  "mt_expected_version (closing blake3 t q) = tq_expected_version q"
  "mt_request_key (closing blake3 t q) = tq_request_key q"
  "mutation_key (closing blake3 t q) = (tq_workspace_id q, tq_episode_id q, tq_request_key q)"
  "mutation_content (closing blake3 t q) = (''close'', blake3 (episode_mutation_material ''close''
     (tq_workspace_id q) (tq_episode_id q) (tq_expected_version q) []))"
  "proper_mutation (closing blake3 t q)"
  by (simp_all add: closing_def mutation_key_def mutation_content_def proper_mutation_def)

lemma close_episode_closing:
  "close_episode blake3 t q db =
     and_then (validate_episode_request_key (tq_request_key q)) (\<lambda>_.
     and_then (require_episode (tq_workspace_id q) (tq_episode_id q) db) (\<lambda>_.
     mutate_episode (closing blake3 t q) db))"
  by (simp add: close_episode_def transition_episode_def transition_stored_episode_def
      terminal_operation_def closing_def)

end
