(* ===== verification/HistoryDemo.thy ===== *)
theory HistoryDemo
  imports ConsolidationService ConsolidationStored History
begin

text \<open>
  A small history for the witnesses of the theorems on histories: a workspace with a session, the four
  events of \<open>ConsolidationDemo\<close>, an episode that takes them and is closed, the experience that is
  consolidated from it, a later event, and a review.
\<close>

section \<open>Parameters\<close>

definition demo_write_json :: "json \<Rightarrow> cortex_error + string" where
  "demo_write_json j = (case j of
     JObject [(_, JString c), _, (_, JNumber (PosInt n))] \<Rightarrow>
       Inr ((if n = 101 then CHR ''F'' else CHR ''P'') # c)
   | _ \<Rightarrow> Inr [])"

definition demo_read_json :: "string \<Rightarrow> cortex_error + json" where
  "demo_read_json t = Inr (JObject [(''contract'', JString (tl t)), (''version'', JNumber (PosInt 1)),
     (''exit_code'', JNumber (PosInt (if hd t = CHR ''F'' then 101 else 0)))])"

definition demo_codec :: history_codec where
  "demo_codec = \<lparr>write_json = demo_write_json, read_json = demo_read_json,
     write_signature = (\<lambda>_. Inr ''signature''), read_signature = (\<lambda>_. Inr (nf_signature (demo_rust_normal ''e0''))),
     write_reasons = (\<lambda>_. Inr ''reasons''), read_reasons = (\<lambda>_. Inr []),
     write_ordinals = (\<lambda>_. Inr ''ordinals''), read_ordinals = (\<lambda>_. Inr [1])\<rparr>"

definition demo_history_services :: history_services where
  "demo_history_services = \<lparr>hs_codec = demo_codec, hs_blake3 = demo_hash,
     hs_json_bytes = (\<lambda>_. Inr []), hs_payload_hash = (\<lambda>_. Inr demo_digest)\<rparr>"

definition demo_consolidator :: consolidator where
  "demo_consolidator = \<lparr>cn_service = demo_service, cn_history = demo_history_services,
     cn_input_fingerprint = (\<lambda>_ _. Inr demo_digest), cn_proposal_hash = (\<lambda>_. Inr demo_digest)\<rparr>"

section \<open>The databases\<close>

definition demo_begun :: history_db where
  "demo_begun = empty_history\<lparr>hd_workspaces := [''w''],
     hd_sessions := [\<lparr>sn_id = ''s'', sn_workspace_id = ''w'', sn_ended_at = None\<rparr>], hd_tasks := []\<rparr>"

definition demo_event_row :: "string \<Rightarrow> string \<Rightarrow> string \<Rightarrow> event_row" where
  "demo_event_row i t payload = \<lparr>evr_id = i, evr_workspace_id = ''w'', evr_session_id = Some ''s'',
     evr_task_id = None, evr_event_type = t, evr_payload_json = payload, evr_created_at = 0\<rparr>"

definition demo_with_event :: "string \<Rightarrow> string \<Rightarrow> string \<Rightarrow> history_db \<Rightarrow> history_db" where
  "demo_with_event i t payload db = (let n = hd_last_sequence db + 1 in
     db\<lparr>hd_events := hd_events db @ [demo_event_row i t payload], hd_last_sequence := n,
        hd_order := hd_order db @ [\<lparr>odr_sequence = n, odr_workspace_id = ''w'',
          odr_entity_kind = ''event'', odr_entity_id = i\<rparr>]\<rparr>)"

definition demo_observed :: history_db where
  "demo_observed =
     demo_with_event ''e3'' ''compiler_result'' ''Pcortexweave.rust_compiler_result''
     (demo_with_event ''e2'' ''compiler_result'' ''Pcortexweave.rust_compiler_result''
     (demo_with_event ''e1'' ''external_tool_finished'' ''Pcortexweave.external_tool_completion''
     (demo_with_event ''e0'' ''compiler_result'' ''Fcortexweave.rust_compiler_result'' demo_begun)))"

definition demo_episode_row :: "string \<Rightarrow> int \<Rightarrow> timestamp option \<Rightarrow> episode_row" where
  "demo_episode_row status version ended =
     \<lparr>epr_id = ''ep'', epr_workspace_id = ''w'', epr_session_id = ''s'', epr_task_id = None,
      epr_episode_type = ''debugging'', epr_status = status, epr_title = None,
      epr_created_by = ''user'', epr_version = version, epr_started_at = 0, epr_ended_at = ended,
      epr_created_at = 0\<rparr>"

definition demo_open :: history_db where
  "demo_open = demo_observed\<lparr>hd_episodes := [demo_episode_row ''open'' 0 None]\<rparr>"

definition demo_adding :: episode_mutation where
  "demo_adding = \<lparr>mt_workspace_id = ''w'', mt_episode_id = ''ep'', mt_expected_version = 0,
     mt_request_key = ''add'', mt_operation = ''add_events'', mt_request_hash = demo_digest,
     mt_event_ids = Some [''e0'', ''e1'', ''e2'', ''e3''], mt_terminal_status = None,
     mt_occurred_at = 1\<rparr>"

definition demo_grown :: history_db where
  "demo_grown = demo_observed\<lparr>hd_episodes := [demo_episode_row ''open'' 1 None],
     hd_members := map (member_row ''w'' ''ep'' 1) (enumerate 0 [''e0'', ''e1'', ''e2'', ''e3'']),
     hd_requests := [mutation_row_of demo_adding 1]\<rparr>"

definition demo_close_request :: episode_terminal_request where
  "demo_close_request = \<lparr>tq_workspace_id = ''w'', tq_episode_id = ''ep'', tq_expected_version = 1,
     tq_request_key = ''close''\<rparr>"

definition demo_closed :: history_db where
  "demo_closed = demo_grown\<lparr>hd_episodes := [demo_episode_row ''closed'' 2 (Some 1)],
     hd_requests := hd_requests demo_grown @ [\<lparr>mur_workspace_id = ''w'', mur_episode_id = ''ep'',
       mur_operation = ''close'', mur_request_key = ''close'', mur_request_hash = demo_digest,
       mur_resulting_version = 2, mur_created_at = 1\<rparr>]\<rparr>"

lemma pred_option_code [code]:
  "pred_option P x = (case x of None \<Rightarrow> True | Some y \<Rightarrow> P y)"
  by (cases x) simp_all

definition demo_accepts_event :: "string \<Rightarrow> history_db \<Rightarrow> bool" where
  "demo_accepts_event i db \<longleftrightarrow> hd_workspaces db = [''w'']
     \<and> hd_sessions db = [\<lparr>sn_id = ''s'', sn_workspace_id = ''w'', sn_ended_at = None\<rparr>]
     \<and> hd_last_sequence db \<le> 10 \<and> i \<notin> evr_id ` set (hd_events db)
     \<and> i \<notin> odr_entity_id ` set (hd_order db) \<and> sql_bounded 256 i"

lemma demo_event_step:
  assumes "demo_accepts_event i db" and "demo_write_json (event_payload (demo_episode_event i t c n)) = Inr payload"
    and "event_storage_name t = name"
  shows "insert_event_in_transaction demo_codec (demo_episode_event i t c n) db
    = Inr ((), demo_with_event i name payload db)"
proof -
  have "\<not> list_ex (\<lambda>r. odr_workspace_id r = ''w'' \<and> odr_entity_kind r = ''event'' \<and> odr_entity_id r = i)
      (hd_order db)"
    using assms(1) by (auto simp: demo_accepts_event_def list_ex_iff)
  then show ?thesis
    using assms
    by (simp add: insert_event_in_transaction_def demo_codec_def insert_event_row_def checked_def ensure_def
        insert_historical_write_order_def Let_def demo_with_event_def demo_event_row_def
        demo_accepts_event_def session_exists_def event_row_of_def find_append i64_max_def
        split: option.split)
      (simp add: demo_episode_event_def)
qed

lemma demo_started:
  "insert_episode (episode_new ''ep'' 0 ''w'' ''s'' None DebuggingEpisode None UserCreator) demo_observed
     = Inr ((), demo_open)"
  by code_simp

lemma demo_added: "mutate_episode demo_adding demo_open = Inr (demo_episode\<lparr>ep_status := OpenEpisode,
     ep_version := 1, ep_ended_at := None\<rparr>, demo_grown)"
  by code_simp

lemma demo_close:
  "close_episode (\<lambda>_. demo_digest) 1 demo_close_request demo_grown = Inr (demo_episode, demo_closed)"
  by code_simp


section \<open>The experience\<close>

definition demo_experience_row :: experience_row where
  "demo_experience_row = experience_row_of_experience demo_experience (Some ''signature'') ''reasons''"

lemma demo_tables:
  "hd_workspaces demo_closed = [''w'']" "hd_experiences demo_closed = []" "hd_evidence demo_closed = []"
  "hd_verifications demo_closed = []" "hd_attempts demo_closed = []" "hd_code_snapshots demo_closed = []"
  "hd_graph_snapshots demo_closed = []" "hd_bases demo_closed = []" "hd_seals demo_closed = []"
  "hd_last_sequence demo_closed = 4"
  "hd_sessions demo_closed = [\<lparr>sn_id = ''s'', sn_workspace_id = ''w'', sn_ended_at = None\<rparr>]"
  "hd_tasks demo_closed = []" "hd_episodes demo_closed = [demo_episode_row ''closed'' 2 (Some 1)]"
  "hd_members demo_closed = [member_row ''w'' ''ep'' 1 (0, ''e0''), member_row ''w'' ''ep'' 1 (1, ''e1''),
     member_row ''w'' ''ep'' 1 (2, ''e2''), member_row ''w'' ''ep'' 1 (3, ''e3'')]"
  "hd_events demo_closed = [demo_event_row ''e0'' ''compiler_result'' ''Fcortexweave.rust_compiler_result'',
     demo_event_row ''e1'' ''external_tool_finished'' ''Pcortexweave.external_tool_completion'',
     demo_event_row ''e2'' ''compiler_result'' ''Pcortexweave.rust_compiler_result'',
     demo_event_row ''e3'' ''compiler_result'' ''Pcortexweave.rust_compiler_result'']"
  "map odr_entity_kind (hd_order demo_closed) = [''event'', ''event'', ''event'', ''event'']"
  "map odr_entity_id (hd_order demo_closed) = [''e0'', ''e1'', ''e2'', ''e3'']"
  by (simp_all add: demo_closed_def demo_grown_def demo_observed_def demo_with_event_def demo_begun_def
      empty_history_def Let_def numeral_2_eq_2 numeral_3_eq_3)

lemma demo_row_fields [simp]:
  "xr_id demo_experience_row = ''i0''" "xr_workspace_id demo_experience_row = ''w''"
  "xr_session_id demo_experience_row = ''s''" "xr_task_id demo_experience_row = None"
  "xr_episode_id demo_experience_row = ''ep''" "xr_outcome demo_experience_row = ''success''"
  by (simp_all add: demo_experience_row_def experience_row_of_experience_def demo_experience_def
      outcome_as_str_def enum_name_def outcome_names_def)

lemma try_tx_Nil [simp]: "try_tx f [] db = Inr db"
  by (simp add: try_tx_def)

lemma demo_evidence_written:
  assumes "hd_experiences db = [demo_experience_row]" and "hd_evidence db = []" and "hd_seals db = []"
    and "hd_members db = hd_members demo_closed" and "hd_events db = hd_events demo_closed"
  shows "try_tx (insert_experience_evidence ''w'' ''i0'') (er_evidence demo_record) db =
    Inr (db\<lparr>hd_evidence := [link_row ''w'' ''i0'' 0 (demo_link 0 InitialFailure ''e0''),
       link_row ''w'' ''i0'' 1 (demo_link 1 AttemptChange ''e1''),
       link_row ''w'' ''i0'' 2 (demo_link 2 AttemptVerification ''e2''),
       link_row ''w'' ''i0'' 3 (demo_link 3 TerminalVerification ''e3'')]\<rparr>)"
  using assms
  by (simp add: try_tx_def demo_record_def insert_experience_evidence_def demo_link_def
      ordinal_from_u64_def i64_max_def Let_def checked_def ensure_def evidence_allowed_def
      part_allowed_def experience_row_of_def sealed_def link_row_def relation_as_str_def enum_name_def
      relation_names_def source_episode_member_def event_row_of_def demo_tables demo_event_row_def
      relation_fits_def)


lemma demo_verifications_written:
  assumes "hd_experiences db = [demo_experience_row]" and "hd_verifications db = []" and "hd_seals db = []"
    and "hd_evidence db = [link_row ''w'' ''i0'' 0 (demo_link 0 InitialFailure ''e0''),
       link_row ''w'' ''i0'' 1 (demo_link 1 AttemptChange ''e1''),
       link_row ''w'' ''i0'' 2 (demo_link 2 AttemptVerification ''e2''),
       link_row ''w'' ''i0'' 3 (demo_link 3 TerminalVerification ''e3'')]"
  shows "try_tx (insert_experience_verification ''w'' ''i0'') (ev_observations demo_verification) db =
    Inr (db\<lparr>hd_verifications := [verification_row_of ''w'' ''i0'' 0 (demo_observation 0 ''e2''),
       verification_row_of ''w'' ''i0'' 1 (demo_observation 1 ''e3'')]\<rparr>)"
proof -
  have texts: "sql_bounded 512 ''core''" "sql_bounded 256 ''cortexweave.rust_compiler''" "sql_bounded 256 ''1''"
    by code_simp+
  show ?thesis
    using assms
    by (simp add: try_tx_def demo_verification_def demo_observation_def insert_experience_verification_def
        ordinal_from_u64_def i64_max_def Let_def checked_def ensure_def verification_allowed_def
        part_allowed_def experience_row_of_def sealed_def verification_row_of_def status_as_str_def
        kind_as_str_def enum_name_def status_names_def kind_names_def linked_as_def texts link_row_def
        demo_link_def relation_as_str_def relation_names_def)
qed

lemma demo_attempts_written:
  assumes "hd_experiences db = [demo_experience_row]" and "hd_attempts db = []" and "hd_seals db = []"
  shows "try_tx (insert_experience_attempt demo_codec) [demo_attempt] db =
    Inr (db\<lparr>hd_attempts := [attempt_row_of demo_attempt 0 ''ordinals'' (Some 2)]\<rparr>)"
  using assms
  by (simp add: try_tx_def demo_attempt_def insert_experience_attempt_def demo_codec_def
      ordinal_from_u64_def i64_max_def Let_def checked_def ensure_def attempt_allowed_def
      part_allowed_def experience_row_of_def sealed_def attempt_row_of_def attempt_result_as_str_def
      enum_name_def attempt_result_names_def)

lemma demo_bases_written:
  assumes "hd_experiences db = [demo_experience_row]" and "hd_bases db = []" and "hd_seals db = []"
  shows "try_tx (insert_experience_basis ''w'' ''i0'') (enumerate 0 [TemporalAssociation,
        DeterministicVerifier, RepeatedDeterministicEvidence]) db =
    Inr (db\<lparr>hd_bases := [basis_row_of ''w'' ''i0'' 0 TemporalAssociation,
       basis_row_of ''w'' ''i0'' 1 DeterministicVerifier,
       basis_row_of ''w'' ''i0'' 2 RepeatedDeterministicEvidence]\<rparr>)"
  using assms
  by (simp add: try_tx_def insert_experience_basis_def ordinal_from_u64_def i64_max_def Let_def
      checked_def ensure_def basis_allowed_def part_allowed_def experience_row_of_def sealed_def
      basis_row_of_def basis_as_str_def enum_name_def basis_names_def)

lemma sql_bounded_plain:
  assumes "s = c # t" and "c \<noteq> CHR '' ''" and "c \<noteq> nul" and "code c < 128" and "length s \<le> n"
  shows "sql_bounded n s"
proof -
  have "\<exists>u. sql_trim s = c # u"
  proof -
    have "dropWhile (\<lambda>c. c = CHR '' '') (rev t @ [c]) = dropWhile (\<lambda>c. c = CHR '' '') (rev t) @ [c]"
      using assms(2) by (simp add: dropWhile_append3)
    then show ?thesis using assms(1,2) by (simp add: sql_trim_def)
  qed
  then have "0 < sql_length (sql_trim s)" using assms(3,4) by (auto simp: sql_length_def)
  moreover have "sql_length s \<le> length s"
    unfolding sql_length_def by (meson length_filter_le length_takeWhile_le order_trans)
  ultimately show ?thesis using assms(5) by (simp add: sql_bounded_def)
qed

lemma demo_row_allowed: "experience_row_allowed demo_experience_row demo_closed"
proof -
  have "sql_bounded 4096 (exp_summary demo_experience)"
  proof -
    obtain t where t: "exp_summary demo_experience = CHR ''O'' # t"
      by (simp add: demo_experience_def render_summary_def Let_def)
    have plain: "CHR ''O'' \<noteq> CHR '' ''" "CHR ''O'' \<noteq> nul" "code CHR ''O'' < 128" by code_simp+
    have "length (exp_summary demo_experience) \<le> 4096"
      using demo_summary_fits by (simp add: demo_record_def)
    then show ?thesis by (rule sql_bounded_plain [OF t plain])
  qed
  moreover have "sql_bounded 256 extractor_id" "sql_bounded 256 extractor_version"
      "sql_bounded 256 experience_summary_renderer_version"
      "sql_bounded 256 experience_canonicalization_version" "sql_hash demo_digest"
    by code_simp+
  ultimately show ?thesis
    by (simp add: experience_row_allowed_def demo_tables eligible_episode_def episode_row_of_def
        session_exists_def task_of_session_def demo_episode_row_def)
      (simp add: demo_experience_row_def experience_row_of_experience_def demo_experience_def
        outcome_as_str_def status_as_str_def strength_as_str_def enum_name_def outcome_names_def
        status_names_def strength_names_def demo_verification_def)
qed


definition demo_rows :: written_rows where
  "demo_rows =
     \<lparr>wr_experience = demo_experience_row,
      wr_evidence = [link_row ''w'' ''i0'' 0 (demo_link 0 InitialFailure ''e0''),
        link_row ''w'' ''i0'' 1 (demo_link 1 AttemptChange ''e1''),
        link_row ''w'' ''i0'' 2 (demo_link 2 AttemptVerification ''e2''),
        link_row ''w'' ''i0'' 3 (demo_link 3 TerminalVerification ''e3'')],
      wr_verifications = [verification_row_of ''w'' ''i0'' 0 (demo_observation 0 ''e2''),
        verification_row_of ''w'' ''i0'' 1 (demo_observation 1 ''e3'')],
      wr_attempts = [attempt_row_of demo_attempt 0 ''ordinals'' (Some 2)],
      wr_code_snapshots = [], wr_graph_snapshots = [],
      wr_bases = [basis_row_of ''w'' ''i0'' 0 TemporalAssociation,
        basis_row_of ''w'' ''i0'' 1 DeterministicVerifier,
        basis_row_of ''w'' ''i0'' 2 RepeatedDeterministicEvidence]\<rparr>"

definition demo_accepted :: history_db where
  "demo_accepted = with_rows demo_rows demo_closed"

lemma demo_record_fields:
  "er_experience demo_record = demo_experience" "er_attempts demo_record = [demo_attempt]"
  "er_code_snapshots demo_record = []" "er_graph_snapshots demo_record = []"
  "exp_id demo_experience = ''i0''" "exp_workspace_id demo_experience = ''w''"
  "exp_episode_id demo_experience = ''ep''" "exp_session_id demo_experience = ''s''"
  "exp_task_id demo_experience = None" "exp_outcome demo_experience = SuccessOutcome"
  "exp_verification demo_experience = demo_verification"
  "exp_consolidation_fingerprint demo_experience = demo_digest"
  "exp_proposal_hash demo_experience = demo_digest"
  "sa_bases (exp_evidence_strength demo_experience)
     = [TemporalAssociation, DeterministicVerifier, RepeatedDeterministicEvidence]"
  by (simp_all add: demo_record_def demo_experience_def)

lemma demo_row_inserted:
  "insert_experience_row demo_codec demo_experience demo_closed
    = Inr ((), demo_closed\<lparr>hd_experiences := [demo_experience_row]\<rparr>)"
  using demo_row_allowed
  by (simp add: insert_experience_row_def signature_column_def demo_experience_def [symmetric] demo_codec_def
      demo_experience_row_def demo_tables)
    (simp add: demo_experience_def)

lemma demo_written: "write_experience_record demo_codec demo_record demo_closed = Inr ((), demo_accepted)"
proof -
  have "list_all (\<lambda>o'. odr_entity_kind o' = ''event'') (hd_order demo_closed)" by code_simp
  then have "\<not> list_ex (\<lambda>r. odr_workspace_id r = ''w'' \<and> odr_entity_kind r = ''experience_acceptance''
      \<and> odr_entity_id r = ''i0'') (hd_order demo_closed)"
    by (auto simp: list_all_iff list_ex_iff)
  moreover have "sql_bounded 256 ''i0''" by code_simp
  ultimately show ?thesis
    unfolding write_experience_record_def demo_record_fields Let_def
    by (simp add: demo_row_inserted demo_evidence_written demo_verifications_written
        demo_attempts_written demo_bases_written demo_tables del: enumerate_simps)
      (simp add: insert_historical_write_order_def insert_seal_def Let_def checked_def
        ensure_def seal_allowed_def sealed_def demo_tables experience_row_of_def demo_accepted_def
        with_rows_def demo_rows_def i64_max_def)
qed


section \<open>Acceptance\<close>

definition demo_input :: input_identity where
  "demo_input = \<lparr>ii_workspace_id = ''w'', ii_episode_id = ''ep'', ii_members =
     [\<lparr>im_ordinal = 0, im_event_id = ''e0'', im_event_type = ''compiler_result'', im_payload_hash = demo_digest\<rparr>,
      \<lparr>im_ordinal = 1, im_event_id = ''e1'', im_event_type = ''external_tool_finished'', im_payload_hash = demo_digest\<rparr>,
      \<lparr>im_ordinal = 2, im_event_id = ''e2'', im_event_type = ''compiler_result'', im_payload_hash = demo_digest\<rparr>,
      \<lparr>im_ordinal = 3, im_event_id = ''e3'', im_event_type = ''compiler_result'', im_payload_hash = demo_digest\<rparr>]\<rparr>"

lemma demo_record_valid: "validate_experience_record demo_hash (\<lambda>_. Inr []) demo_record = Inr ()"
proof -
  have "pr_record demo_proposal = demo_record" and "pr_hash demo_proposal = demo_digest"
    by (simp_all add: demo_proposal_def)
  then show ?thesis
    using proposal_validated [OF demo_service_standard demo_episode_input demo_ids_fresh demo_proposed]
      demo_within demo_digest_valid by metis
qed

lemma demo_inserted:
  "insert_consolidated_experience demo_history_services demo_record 2 demo_input demo_closed
    = Inr (demo_record, demo_accepted)"
proof -
  have "require_stored_episode ''w'' ''ep'' demo_closed = Inr demo_episode" by code_simp
  moreover have "members_of ''w'' ''ep'' demo_closed = hd_members demo_closed"
    by (simp add: members_of_def demo_tables)
  then have "try_map (input_member_of demo_history_services) (member_events ''w'' ''ep'' demo_closed)
      = Inr (ii_members demo_input)"
    by (simp add: member_events_def demo_tables event_row_of_def demo_event_row_def input_member_of_def
        demo_history_services_def demo_codec_def demo_read_json_def demo_input_def
        ordinal_from_i64_def)
  moreover have "check_source_episode demo_experience demo_episode = Inr ()"
    by (simp add: check_source_episode_def demo_record_fields demo_episode_def ensure_def)
  moreover have "ep_version demo_episode = 2" by (simp add: demo_episode_def)
  ultimately show ?thesis
    using demo_record_valid demo_written
    by (simp add: insert_consolidated_experience_def insert_experience_checked_def demo_record_fields
        ensure_def validate_consolidation_input_def demo_input_def experience_by_fingerprint_def
        experience_by_episode_def demo_tables demo_history_services_def)
qed

definition demo_request :: acceptance_request where
  "demo_request = \<lparr>ac_request = \<lparr>cq_workspace_id = ''w'', cq_episode_id = ''ep'',
     cq_expected_version = 2\<rparr>, ac_fingerprint = demo_digest, ac_proposal_hash = demo_digest\<rparr>"

definition demo_reads :: acceptance_reads where
  "demo_reads = \<lparr>ar_first = demo_grown, ar_preview = (\<lambda>_. demo_closed), ar_again = demo_closed,
     ar_identity = (\<lambda>_. demo_closed)\<rparr>"

lemma demo_no_experience:
  "hd_experiences db = [] \<Longrightarrow> experience_for_episode cd w i db = Inr None"
  by (simp add: experience_for_episode_def experience_by_episode_def)

definition demo_membership :: "episode_event list" where
  "demo_membership = map (\<lambda>(k, i). \<lparr>mb_workspace_id = ''w'', mb_episode_id = ''ep'',
     mb_event_id = i, mb_ordinal = k, mb_associated_at = 1\<rparr>)
     [(0, ''e0''), (1, ''e1''), (2, ''e2''), (3, ''e3'')]"

lemma demo_members:
  "episode_events ''w'' ''ep'' (Suc max_episode_events) demo_closed = Inr demo_membership"
  "length demo_membership = 4"
  by code_simp+

lemma demo_stored_events:
  "stored_event demo_codec ''w'' ''e0'' demo_closed = Inr (Some demo_e0)"
  "stored_event demo_codec ''w'' ''e1'' demo_closed = Inr (Some demo_e1)"
  "stored_event demo_codec ''w'' ''e2'' demo_closed = Inr (Some demo_e2)"
  "stored_event demo_codec ''w'' ''e3'' demo_closed = Inr (Some demo_e3)"
proof -
  have types: "event_from_storage ''compiler_result'' = CompilerResult"
      "event_from_storage ''external_tool_finished'' = ExternalToolFinished"
    by code_simp+
  note defs = stored_event_def event_row_of_def transpose_row_def demo_tables demo_event_row_def
    event_of_row_def demo_codec_def demo_read_json_def types demo_episode_event_def
  show "stored_event demo_codec ''w'' ''e0'' demo_closed = Inr (Some demo_e0)"
    by (simp add: defs demo_e0_def)
  show "stored_event demo_codec ''w'' ''e1'' demo_closed = Inr (Some demo_e1)"
    by (simp add: defs demo_e1_def)
  show "stored_event demo_codec ''w'' ''e2'' demo_closed = Inr (Some demo_e2)"
    by (simp add: defs demo_e2_def)
  show "stored_event demo_codec ''w'' ''e3'' demo_closed = Inr (Some demo_e3)"
    by (simp add: defs demo_e3_def)
qed

lemma demo_event_fields:
  "event_id demo_e0 = ''e0''" "event_storage_name (event_type_of demo_e0) = ''compiler_result''"
  "event_id demo_e1 = ''e1''" "event_storage_name (event_type_of demo_e1) = ''external_tool_finished''"
  "event_id demo_e2 = ''e2''" "event_storage_name (event_type_of demo_e2) = ''compiler_result''"
  "event_id demo_e3 = ''e3''" "event_storage_name (event_type_of demo_e3) = ''compiler_result''"
  by code_simp+

lemma demo_previewed:
  "preview demo_consolidator demo_ids 0 (ac_request demo_request) (\<lambda>_. demo_closed)
    = Inr (Proposal demo_proposal Automatic)"
proof -
  have "stored_episode ''w'' ''ep'' demo_closed = Inr (Some demo_episode)" by code_simp
  moreover have "try_map (scoped_member_event demo_codec demo_episode ''w'' (\<lambda>_. demo_closed))
      (enumerate 0 demo_membership) = Inr demo_events"
    by (simp add: demo_membership_def scoped_member_event_def member_event_def demo_stored_events
        ensure_def demo_events_def)
      (simp add: demo_e0_def demo_e1_def demo_e2_def demo_e3_def demo_episode_event_def
        demo_episode_def)
  moreover have "ep_version demo_episode = 2" "ep_status demo_episode = ClosedEpisode"
    by (simp_all add: demo_episode_def)
  ultimately show ?thesis
    using demo_proposed demo_no_experience [OF demo_tables(2)] demo_members
    by (auto simp: preview_def preview_members_def demo_request_def demo_consolidator_def
        demo_history_services_def max_episode_events_def)
qed

lemma demo_accepts:
  "accept demo_consolidator demo_ids 0 demo_request demo_reads demo_closed
    = Inr (Accepted demo_record, demo_accepted)"
proof -
  have "hd_experiences demo_grown = []" by code_simp
  then have none: "accepted_before demo_consolidator demo_request demo_grown = Inr None"
    by (simp add: accepted_before_def demo_no_experience)
  have services: "cn_history demo_consolidator = demo_history_services"
    by (simp add: demo_consolidator_def)
  have identity: "acceptance_input_identity demo_consolidator (ac_request demo_request) (\<lambda>_. demo_closed)
      = Inr demo_input"
    using demo_members
    by (simp add: acceptance_input_identity_def demo_request_def ensure_def max_episode_events_def)
      (simp add: demo_membership_def input_member_at_def member_event_def demo_stored_events services
        demo_history_services_def demo_input_def demo_event_fields)
  show ?thesis
    using services none identity demo_previewed demo_inserted
    by (simp add: accept_def demo_reads_def accept_proposal_def demo_proposal_def)
      (simp add: demo_request_def)
qed

section \<open>The run\<close>

abbreviation demo_run :: "history_db \<Rightarrow> history_db \<Rightarrow> bool" where
  "demo_run \<equiv> history_run demo_history_services"

lemma demo_event_run:
  assumes "demo_accepts_event i db" and "demo_write_json (event_payload (demo_episode_event i t c n)) = Inr payload"
    and "event_storage_name t = name"
  shows "demo_run db (demo_with_event i name payload db)"
proof -
  have "history_step demo_history_services db (demo_with_event i name payload db)"
    by (rule history_step.event [of _ "demo_episode_event i t c n"])
      (use demo_event_step [OF assms] in \<open>simp add: demo_history_services_def\<close>)
  then show ?thesis by (simp add: history_run_def)
qed

lemma demo_begun_run: "demo_run empty_history demo_begun"
proof -
  have "history_step demo_history_services empty_history demo_begun"
    unfolding demo_begun_def by (rule history_step.owners) (simp add: empty_history_def)
  then show ?thesis by (simp add: history_run_def)
qed

lemma demo_observed_run: "demo_run demo_begun demo_observed"
proof -
  let ?d1 = "demo_with_event ''e0'' ''compiler_result'' ''Fcortexweave.rust_compiler_result'' demo_begun"
  let ?d2 = "demo_with_event ''e1'' ''external_tool_finished'' ''Pcortexweave.external_tool_completion'' ?d1"
  let ?d3 = "demo_with_event ''e2'' ''compiler_result'' ''Pcortexweave.rust_compiler_result'' ?d2"
  have texts: "sql_bounded 256 ''e0''" "sql_bounded 256 ''e1''" "sql_bounded 256 ''e2''"
      "sql_bounded 256 ''e3''" "event_storage_name CompilerResult = ''compiler_result''"
      "event_storage_name ExternalToolFinished = ''external_tool_finished''"
    by code_simp+
  note defs = demo_accepts_event_def demo_with_event_def demo_begun_def empty_history_def Let_def
    demo_event_row_def texts demo_write_json_def demo_episode_event_def
  have "demo_run demo_begun ?d1"
    by (rule demo_event_run [of _ _ CompilerResult "''cortexweave.rust_compiler_result''" 101])
      (simp_all add: defs)
  moreover have "demo_run ?d1 ?d2"
    by (rule demo_event_run [of _ _ ExternalToolFinished "''cortexweave.external_tool_completion''" 0])
      (simp_all add: defs)
  moreover have "demo_run ?d2 ?d3"
    by (rule demo_event_run [of _ _ CompilerResult "''cortexweave.rust_compiler_result''" 0])
      (simp_all add: defs)
  moreover have "demo_run ?d3 demo_observed"
    unfolding demo_observed_def
    by (rule demo_event_run [of _ _ CompilerResult "''cortexweave.rust_compiler_result''" 0])
      (simp_all add: defs)
  ultimately show ?thesis by (meson history_run_trans)
qed

lemma demo_open_run: "demo_run empty_history demo_open"
proof -
  have "history_step demo_history_services demo_observed demo_open"
    using demo_started by (rule history_step.start)
  then have "demo_run demo_observed demo_open" by (simp add: history_run_def)
  then show ?thesis using demo_begun_run demo_observed_run by (meson history_run_trans)
qed

lemma demo_adding_proper: "proper_mutation demo_adding"
  by (simp add: proper_mutation_def demo_adding_def)

lemma demo_grown_run: "demo_run demo_open demo_grown"
proof -
  have "history_step demo_history_services demo_open demo_grown"
    using demo_adding_proper demo_added by (rule history_step.mutation)
  then show ?thesis by (simp add: history_run_def)
qed


lemma demo_closed_mutation:
  "mutate_episode (closing (\<lambda>_. demo_digest) 1 demo_close_request) demo_grown
    = Inr (demo_episode, demo_closed)"
  using demo_close by (auto simp: close_episode_closing and_then_eq_Inr)

lemma demo_closed_run: "demo_run demo_grown demo_closed"
proof -
  have "history_step demo_history_services demo_grown demo_closed"
    by (rule history_step.mutation [OF _ demo_closed_mutation]) simp
  then show ?thesis by (simp add: history_run_def)
qed

lemma demo_accepted_run: "demo_run demo_closed demo_accepted"
proof -
  have "history_step demo_history_services demo_closed demo_accepted"
    using demo_inserted by (rule history_step.experience)
  then show ?thesis by (simp add: history_run_def)
qed

lemma demo_reach:
  "demo_run empty_history demo_grown" "demo_run empty_history demo_closed"
  "demo_run empty_history demo_accepted"
  using demo_open_run demo_grown_run demo_closed_run demo_accepted_run by (meson history_run_trans)+

lemma demo_faithful: "faithful demo_codec demo_record"
  by (simp add: faithful_def demo_record_fields reads_back_def demo_codec_def demo_experience_def
      demo_verification_def demo_attempt_def)

lemma demo_stored: "experience_record_in demo_codec ''w'' ''i0'' demo_accepted = Inr (Some demo_record)"
proof -
  obtain n where "demo_accepted = with_rows n demo_closed" and "rows_hold demo_codec demo_record n"
    using write_experience_record_Inr [OF demo_written] by blast
  moreover have "all_parts_known demo_closed"
    by (simp add: all_parts_known_def known_parts_def demo_tables)
  moreover have "experience_row_of ''w'' ''i0'' demo_closed = None"
    by (simp add: experience_row_of_def demo_tables)
  ultimately show ?thesis
    using record_read_back [OF _ _ _ demo_faithful demo_record_valid] unfolding demo_record_fields by metis
qed

section \<open>Afterwards\<close>

definition demo_recurred :: history_db where
  "demo_recurred = demo_with_event ''e4'' ''compiler_result'' ''Fcortexweave.rust_compiler_result'' demo_accepted"

lemma demo_recurred_run: "demo_run demo_accepted demo_recurred"
  unfolding demo_recurred_def
proof (rule demo_event_run [of _ _ CompilerResult "''cortexweave.rust_compiler_result''" 101])
  have "sql_bounded 256 ''e4''" by code_simp
  moreover have "odr_entity_id ` set (hd_order demo_closed) = {''e0'', ''e1'', ''e2'', ''e3''}"
    by (metis demo_tables(17) list.set_map list.simps(15) empty_set)
  ultimately show "demo_accepts_event ''e4'' demo_accepted"
    by (simp add: demo_accepts_event_def demo_accepted_def demo_tables demo_event_row_def demo_rows_def)
      (simp add: with_rows_def Let_def demo_tables)
  show "event_storage_name CompilerResult = ''compiler_result''" by code_simp
qed (simp add: demo_write_json_def demo_episode_event_def)

definition demo_review_request :: review_request where
  "demo_review_request = \<lparr>rq_workspace_id = ''w'', rq_experience_id = ''i0'',
     rq_kind = DisputedAssessment, rq_reviewed_by = ''reviewer'',
     rq_request_key = ''review'', rq_reason = ''flaky'', rq_replacement = None,
     rq_evidence_event_ids = [''e0'']\<rparr>"

definition demo_assessment :: "string \<Rightarrow> assessment" where
  "demo_assessment i = reviewed_assessment i 5 demo_review_request"

definition demo_reviewed :: history_db where
  "demo_reviewed = with_assessment (demo_assessment ''a0'') ''review''
     (assessment_request_hash demo_hash (demo_assessment ''a0'')) demo_accepted"

lemma demo_review:
  "review demo_hash demo_codec ''a0'' 5 demo_review_request demo_accepted
    = Inr (demo_assessment ''a0'', demo_reviewed)"
proof -
  have "validate_review_request demo_review_request = Inr ()"
      "validate_assessment (demo_assessment ''a0'') = Inr ()" by code_simp+
  moreover have "sql_bounded 256 ''reviewer''" "sql_bounded 4096 ''flaky''"
      "assessment_as_str DisputedAssessment = ''disputed''" "''disputed'' \<in> fst ` set assessment_names"
    by code_simp+
  moreover have tables: "hd_events demo_accepted = hd_events demo_closed"
      "hd_experiences demo_accepted = [demo_experience_row]" "hd_assessments demo_accepted = []"
      "hd_assessment_evidence demo_accepted = []"
    by (simp_all add: demo_accepted_def demo_tables demo_rows_def)
      (simp_all add: demo_closed_def demo_grown_def demo_observed_def demo_with_event_def
        demo_begun_def empty_history_def Let_def)
  moreover have "stored_event demo_codec ''w'' ''e0'' demo_accepted = Inr (Some demo_e0)"
    using demo_stored_events(1) by (simp add: stored_event_def event_row_of_def tables)
  ultimately show ?thesis
    using demo_stored
    by (simp add: review_def require_experience_def require_event_def ensure_def demo_review_request_def
        append_reviewed_experience_assessment_def reviewed_row_def insert_assessment_def checked_def
        assessment_row_allowed_def experience_row_of_def assessment_row_of_def demo_assessment_def
        reviewed_assessment_def Let_def insert_assessment_evidence_def ordinal_from_u64_def try_tx_def
        event_row_of_def demo_tables demo_event_row_def demo_reviewed_def with_assessment_def
        evidence_rows_def assessment_evidence_row_of_def)
qed

lemma demo_reviewed_run: "demo_run demo_accepted demo_reviewed"
proof -
  have "append_reviewed_experience_assessment (demo_assessment ''a0'') ''review''
      (assessment_request_hash demo_hash (demo_assessment ''a0'')) demo_accepted
      = Inr (demo_assessment ''a0'', demo_reviewed)"
    using demo_review
    by (auto simp: review_def and_then_eq_Inr Let_def demo_assessment_def demo_review_request_def)
  then have "history_step demo_history_services demo_accepted demo_reviewed"
    by (rule history_step.assessment)
  then show ?thesis by (simp add: history_run_def)
qed


lemma demo_differ: "demo_closed \<noteq> demo_grown" "demo_accepted \<noteq> demo_closed"
proof -
  have "hd_requests demo_closed \<noteq> hd_requests demo_grown" by (simp add: demo_closed_def)
  then show "demo_closed \<noteq> demo_grown" by metis
  have "hd_experiences demo_accepted \<noteq> hd_experiences demo_closed" by (simp add: demo_accepted_def)
  then show "demo_accepted \<noteq> demo_closed" by metis
qed

lemma demo_episode_stored: "stored_episode ''w'' ''ep'' demo_closed = Inr (Some demo_episode)"
  by code_simp

end
