(* ===== verification/ConsolidationAccepted.thy ===== *)
theory ConsolidationAccepted
  imports HistoryDemo
begin

text \<open>
  Acceptance over time.  The reads of a request see databases of their own; since an episode that is
  closed or abandoned changes no more, and neither do its members and their events, a proposal that
  is inserted is the one that would be made of the database it is inserted into.
\<close>

section \<open>What does not change\<close>

lemma terminal_frozen:
  assumes "later d db" and "stored_episode w i d = Inr (Some ep)"
    and "ep_status ep \<in> {ClosedEpisode, AbandonedEpisode}"
  shows "stored_episode w i db = Inr (Some ep) \<and> members_of w i db = members_of w i d"
proof -
  obtain r where r: "episode_row_of w i d = Some r" "episode_of_row r = Inr ep"
    using assms(2) by (auto simp: stored_episode_Inr)
  have "epr_status r \<noteq> ''open''"
  proof
    assume "epr_status r = ''open''"
    then have "ep_status ep = OpenEpisode"
      using episode_of_row_Inr [OF r(2)]
      by (simp add: episode_status_from_storage_def enum_read_def episode_status_names_def)
    with assms(3) show False by simp
  qed
  then have "episode_row_of w i db = Some r \<and> members_of w i db = members_of w i d"
    using assms(1) r(1) by (auto simp: later_def history_later_def episodes_later_def episode_later_def)
  then show ?thesis using r(2) by (auto simp: stored_episode_Inr)
qed

lemma stored_event_later:
  assumes "later d db" and "stored_event cd w i d = Inr (Some v)"
  shows "stored_event cd w i db = Inr (Some v)"
proof -
  obtain r where r: "event_row_of w i d = Some r" "event_of_row cd r = Inr v"
    using assms(2) by (auto simp: stored_event_def transpose_row_def and_then_eq_Inr split: option.splits)
  have "event_row_of w i db = Some r"
    by (rule event_row_later [OF _ r(1)]) (use assms(1) in \<open>simp add: later_def\<close>)
  then show ?thesis using r(2) by (simp add: stored_event_def transpose_row_def)
qed

lemma record_in_row:
  assumes "experience_record_in cd w i db = Inr (Some r)"
  obtains x where "experience_row_of w i db = Some x" and "xr_id x = exp_id (er_experience r)"
    and "xr_workspace_id x = exp_workspace_id (er_experience r)"
    and "xr_episode_id x = exp_episode_id (er_experience r)"
    and "xr_consolidation_fingerprint x = exp_consolidation_fingerprint (er_experience r)"
    and "xr_proposal_hash x = exp_proposal_hash (er_experience r)"
  using assms
  by (auto simp: experience_record_in_def Let_def and_then_eq_Inr split: option.splits)

lemma experience_row_of_Some:
  "experience_row_of w i db = Some x \<Longrightarrow> x \<in> set (hd_experiences db) \<and> xr_workspace_id x = w \<and> xr_id x = i"
  unfolding experience_row_of_def by (auto dest: find_SomeD)

lemma distinct_singleton:
  assumes "distinct xs" and "set xs = {x}"
  shows "xs = [x]"
proof (cases xs)
  case (Cons a ys)
  then have "a = x" and "set ys \<subseteq> {x}" and "x \<notin> set ys" using assms by auto
  then have "set ys = {}" by (metis singletonD subset_singletonD insertI1)
  then show ?thesis using Cons \<open>a = x\<close> by simp
qed (use assms in simp)

lemma by_episode_only:
  assumes "experiences_ok db" and "x \<in> set (hd_experiences db)"
  shows "experience_by_episode (xr_workspace_id x) (xr_episode_id x) db = Some x"
proof -
  let ?P = "\<lambda>y. xr_workspace_id y = xr_workspace_id x \<and> xr_episode_id y = xr_episode_id x"
  have "inj_on (\<lambda>y. (xr_workspace_id y, xr_episode_id y)) (set (hd_experiences db))"
    and "distinct (hd_experiences db)"
    using assms(1) by (simp_all add: experiences_ok_def distinct_map)
  then have "distinct (filter ?P (hd_experiences db))" and "set (filter ?P (hd_experiences db)) = {x}"
    using assms(2) by (auto simp: inj_on_def)
  then have "filter ?P (hd_experiences db) = [x]"
    by (rule distinct_singleton)
  then show ?thesis by (simp add: experience_by_episode_def)
qed

lemma by_episode_Some:
  assumes "experience_by_episode w i db = Some x"
  shows "x \<in> set (hd_experiences db) \<and> xr_workspace_id x = w \<and> xr_episode_id x = i"
proof -
  let ?xs = "sort_key (\<lambda>x. (xr_created_at x, xr_id x))
      (filter (\<lambda>x. xr_workspace_id x = w \<and> xr_episode_id x = i) (hd_experiences db))"
  have "x \<in> set ?xs"
    using assms by (cases ?xs) (auto simp: experience_by_episode_def)
  then show ?thesis by simp
qed

text \<open>A record that is found for its episode is found for it ever after.\<close>

lemma for_episode_later:
  assumes "later d db" and "history_ok db" and "experience_record_in cd w i d = Inr (Some r)"
    and "exp_episode_id (er_experience r) = ep"
  shows "experience_for_episode cd w ep db = Inr (Some r)"
proof -
  have read: "experience_record_in cd w i db = Inr (Some r)"
    by (rule record_later [OF _ assms(3)]) (use assms(1) in \<open>simp add: later_def\<close>)
  then obtain x where x: "experience_row_of w i db = Some x" "xr_episode_id x = ep"
    using assms(4) by (auto elim!: record_in_row)
  have "experience_by_episode w ep db = Some x"
    using by_episode_only [of db x] assms(2) experience_row_of_Some [OF x(1)] x(2)
    by (auto simp: history_ok_def)
  then show ?thesis
    using read experience_row_of_Some [OF x(1)] by (simp add: experience_for_episode_def)
qed

lemma for_episode_Some:
  assumes "experience_for_episode cd w ep db = Inr (Some r)" and "experiences_ok db"
  shows "experience_record_in cd w (exp_id (er_experience r)) db = Inr (Some r)
    \<and> exp_episode_id (er_experience r) = ep"
proof -
  obtain x where x: "experience_by_episode w ep db = Some x"
      "experience_record_in cd w (xr_id x) db = Inr (Some r)"
    using assms by (auto simp: experience_for_episode_def split: option.splits)
  obtain y where y: "experience_row_of w (xr_id x) db = Some y" "xr_id y = exp_id (er_experience r)"
      "xr_episode_id y = exp_episode_id (er_experience r)"
    using x(2) by (rule record_in_row)
  have "xr_id y = xr_id x" and "y \<in> set (hd_experiences db)"
    using experience_row_of_Some [OF y(1)] by simp_all
  then have "y = x"
    using by_episode_Some [OF x(1)] assms(2) by (auto simp: experiences_ok_def distinct_map inj_on_def)
  then show ?thesis using x(2) y by_episode_Some [OF x(1)] by simp
qed


section \<open>A proposal does not depend on the time of the reads\<close>

lemma try_map_mono:
  assumes "try_map f xs = Inr ys" and "\<And>x y. x \<in> set xs \<Longrightarrow> f x = Inr y \<Longrightarrow> g x = Inr y"
  shows "try_map g xs = Inr ys"
  using assms unfolding try_map_eq_Inr by (auto simp: list_all2_conv_all_nth)

lemma member_event_later:
  assumes "\<forall>k. later (seen (ReadEvent k)) db" and "member_event cd w seen km = Inr v"
  shows "member_event cd w (\<lambda>_. db) km = Inr v"
proof -
  obtain k m where km: "km = (k, m)" by (cases km)
  have "stored_event cd w (mb_event_id m) (seen (ReadEvent k)) = Inr (Some v)"
    using assms(2) by (auto simp: km member_event_def and_then_eq_Inr)
  then have "stored_event cd w (mb_event_id m) db = Inr (Some v)"
    using assms(1) stored_event_later by blast
  then show ?thesis by (simp add: km member_event_def)
qed

lemma preview_members_same:
  assumes "members_of (cq_workspace_id q) (cq_episode_id q) db
      = members_of (cq_workspace_id q) (cq_episode_id q) (seen ReadMembers)"
    and "\<forall>k. later (seen (ReadEvent k)) db"
    and "preview_members c new_id now q seen ep = Inr (Proposal p d)"
  shows "preview_members c new_id now q (\<lambda>_. db) ep = Inr (Proposal p d)"
proof -
  have same: "episode_events (cq_workspace_id q) (cq_episode_id q) n db
      = episode_events (cq_workspace_id q) (cq_episode_id q) n (seen ReadMembers)" for n
    by (simp add: episode_events_def assms(1))
  obtain ms events fp where ms: "episode_events (cq_workspace_id q) (cq_episode_id q)
        (max_episode_events + 1) (seen ReadMembers) = Inr ms"
      "\<not> max_episode_events < length ms" "ms \<noteq> []"
      "try_map (scoped_member_event (cn_codec c) ep (cq_workspace_id q) seen) (enumerate 0 ms)
        = Inr events"
      "cn_input_fingerprint c ep events = Inr fp"
      "extract_proposal (cn_service c) (cn_proposal_hash c) new_id now ep events fp = Inr (Proposal p d)"
    using assms(3) by (auto simp: preview_members_def and_then_eq_Inr no_result_def split: if_splits)
  have "try_map (scoped_member_event (cn_codec c) ep (cq_workspace_id q) (\<lambda>_. db)) (enumerate 0 ms)
      = Inr events"
    by (rule try_map_mono [OF ms(4)])
      (use member_event_later [OF assms(2)] in \<open>auto simp: scoped_member_event_def and_then_eq_Inr\<close>)
  then show ?thesis using ms by (simp add: preview_members_def same)
qed

lemma preview_Proposal:
  assumes "preview c new_id now q seen = Inr (Proposal p d)"
  obtains ep where "stored_episode (cq_workspace_id q) (cq_episode_id q) (seen ReadEpisode) = Inr (Some ep)"
    and "ep_version ep = cq_expected_version q" and "ep_status ep \<in> {ClosedEpisode, AbandonedEpisode}"
    and "preview_members c new_id now q seen ep = Inr (Proposal p d)"
proof -
  have "\<exists>ep. stored_episode (cq_workspace_id q) (cq_episode_id q) (seen ReadEpisode) = Inr (Some ep)
      \<and> ep_version ep = cq_expected_version q \<and> ep_status ep \<in> {ClosedEpisode, AbandonedEpisode}
      \<and> preview_members c new_id now q seen ep = Inr (Proposal p d)"
    using assms
    by (auto simp: preview_def and_then_eq_Inr no_result_def split: option.splits if_splits)
  then show ?thesis using that by blast
qed

lemma preview_same:
  assumes "preview c new_id now q seen = Inr (Proposal p d)"
    and "\<forall>r. later (seen ReadEpisode) (seen r) \<and> later (seen r) db"
    and none: "experience_for_episode (cn_codec c) (cq_workspace_id q) (cq_episode_id q) db = Inr None"
  shows "preview c new_id now q (\<lambda>_. db) = Inr (Proposal p d)"
  using assms(1)
proof (rule preview_Proposal)
  fix ep
  assume ep: "stored_episode (cq_workspace_id q) (cq_episode_id q) (seen ReadEpisode) = Inr (Some ep)"
    and version: "ep_version ep = cq_expected_version q"
    and status: "ep_status ep \<in> {ClosedEpisode, AbandonedEpisode}"
    and members: "preview_members c new_id now q seen ep = Inr (Proposal p d)"
  have at_db: "stored_episode (cq_workspace_id q) (cq_episode_id q) db = Inr (Some ep)"
    and same_db: "members_of (cq_workspace_id q) (cq_episode_id q) db
      = members_of (cq_workspace_id q) (cq_episode_id q) (seen ReadEpisode)"
    using terminal_frozen [OF _ ep status] assms(2) by blast+
  have "members_of (cq_workspace_id q) (cq_episode_id q) (seen ReadMembers)
      = members_of (cq_workspace_id q) (cq_episode_id q) (seen ReadEpisode)"
    using terminal_frozen [OF _ ep status] assms(2) by blast
  then have "preview_members c new_id now q (\<lambda>_. db) ep = Inr (Proposal p d)"
    using same_db assms(2) members by (intro preview_members_same) simp_all
  then show ?thesis
    using at_db version status none by (simp add: preview_def)
qed

lemma identity_same:
  assumes "acceptance_input_identity c q seen = Inr x"
    and "members_of (cq_workspace_id q) (cq_episode_id q) db
      = members_of (cq_workspace_id q) (cq_episode_id q) (seen ReadMembers)"
    and "\<forall>k. later (seen (ReadEvent k)) db"
  shows "acceptance_input_identity c q (\<lambda>_. db) = Inr x"
proof -
  have same: "episode_events (cq_workspace_id q) (cq_episode_id q) n db
      = episode_events (cq_workspace_id q) (cq_episode_id q) n (seen ReadMembers)" for n
    by (simp add: episode_events_def assms(2))
  obtain ms ims where ms: "episode_events (cq_workspace_id q) (cq_episode_id q)
        (max_episode_events + 1) (seen ReadMembers) = Inr ms"
      "length ms \<le> max_episode_events"
      "try_map (input_member_at c (cq_workspace_id q) seen) (enumerate 0 ms) = Inr ims"
      "x = \<lparr>ii_workspace_id = cq_workspace_id q, ii_episode_id = cq_episode_id q, ii_members = ims\<rparr>"
    using assms(1) by (auto simp: acceptance_input_identity_def and_then_eq_Inr)
  have "try_map (input_member_at c (cq_workspace_id q) (\<lambda>_. db)) (enumerate 0 ms) = Inr ims"
    by (rule try_map_mono [OF ms(3)])
      (use member_event_later [OF assms(3)] in \<open>auto simp: input_member_at_def and_then_eq_Inr\<close>)
  then show ?thesis using ms by (simp add: acceptance_input_identity_def same ensure_def)
qed

lemma proposal_identity:
  assumes "extract_proposal svc hash new_id now ep events fingerprint = Inr (Proposal p d)"
  shows "exp_consolidation_fingerprint (er_experience (pr_record p)) = pr_fingerprint p
    \<and> exp_proposal_hash (er_experience (pr_record p)) = pr_hash p
    \<and> exp_workspace_id (er_experience (pr_record p)) = ep_workspace_id ep
    \<and> exp_episode_id (er_experience (pr_record p)) = ep_id ep"
  using assms by (rule extract_Proposal) simp

lemma stored_episode_key:
  assumes "stored_episode w i db = Inr (Some ep)"
  shows "ep_workspace_id ep = w \<and> ep_id ep = i"
  using assms episode_row_of_Some
  by (auto simp: stored_episode_Inr dest!: episode_of_row_Inr)

lemma preview_identity:
  assumes "preview c new_id now q seen = Inr (Proposal p d)"
  shows "exp_consolidation_fingerprint (er_experience (pr_record p)) = pr_fingerprint p
    \<and> exp_proposal_hash (er_experience (pr_record p)) = pr_hash p
    \<and> exp_workspace_id (er_experience (pr_record p)) = cq_workspace_id q
    \<and> exp_episode_id (er_experience (pr_record p)) = cq_episode_id q"
  using assms
proof (rule preview_Proposal)
  fix ep
  assume "stored_episode (cq_workspace_id q) (cq_episode_id q) (seen ReadEpisode) = Inr (Some ep)"
    and "preview_members c new_id now q seen ep = Inr (Proposal p d)"
  then show ?thesis
    using stored_episode_key proposal_identity
    by (auto simp: preview_members_def and_then_eq_Inr no_result_def split: if_splits)
qed


section \<open>Acceptance\<close>

text \<open>The reads of an acceptance happen in a run, one after the other, and the insertion after them.\<close>

definition run_reads :: "history_services \<Rightarrow> acceptance_reads \<Rightarrow> history_db \<Rightarrow> bool" where
  "run_reads hs seen db \<longleftrightarrow>
     (let d = ar_preview seen ReadEpisode in
      history_run hs empty_history (ar_first seen) \<and> history_run hs (ar_first seen) d
      \<and> history_run hs d (ar_again seen) \<and> history_run hs (ar_again seen) db
      \<and> (\<forall>r. history_run hs d (ar_preview seen r) \<and> history_run hs (ar_preview seen r) db)
      \<and> (\<forall>r. history_run hs d (ar_identity seen r) \<and> history_run hs (ar_identity seen r) db))"

definition reads_at :: "history_db \<Rightarrow> acceptance_reads" where
  "reads_at db = \<lparr>ar_first = db, ar_preview = (\<lambda>_. db), ar_again = db, ar_identity = (\<lambda>_. db)\<rparr>"

lemma run_reads_later:
  assumes "run_reads hs seen db"
  shows "history_ok (ar_first seen)" and "history_ok (ar_again seen)" and "history_ok db"
    and "later (ar_first seen) db" and "later (ar_again seen) db"
    and "\<forall>r. later (ar_preview seen ReadEpisode) (ar_preview seen r) \<and> later (ar_preview seen r) db"
    and "\<forall>r. later (ar_preview seen ReadEpisode) (ar_identity seen r) \<and> later (ar_identity seen r) db"
proof -
  let ?d = "ar_preview seen ReadEpisode"
  note runs = assms [unfolded run_reads_def Let_def]
  show first: "history_ok (ar_first seen)" using runs reachable_ok by blast
  have d: "history_ok ?d \<and> later (ar_first seen) ?d" using runs first history_run_keeps by blast
  have steps: "history_ok x \<and> later ?d x" if "history_run hs ?d x" for x
    using history_run_keeps [OF that] d by blast
  have rest: "history_ok db \<and> later x db" if "history_run hs ?d x" and "history_run hs x db" for x
    using history_run_keeps [OF that(2)] steps [OF that(1)] by blast
  show "history_ok (ar_again seen)" using runs steps by blast
  show "history_ok db" and "later (ar_again seen) db" using runs rest by blast+
  have "later ?d db" using runs rest steps later_trans by blast
  then show "later (ar_first seen) db" using d later_trans by blast
  show "\<forall>r. later ?d (ar_preview seen r) \<and> later (ar_preview seen r) db"
    using runs rest steps by blast
  show "\<forall>r. later ?d (ar_identity seen r) \<and> later (ar_identity seen r) db"
    using runs rest steps by blast
qed

lemma accept_cases:
  assumes "accept c new_id now q seen db = Inr (Accepted r, db')"
  obtains
    (found) d where "d \<in> {ar_first seen, ar_again seen}" and "accepted_before c q d = Inr (Some r)"
      and "wanted q r" and "db' = db"
  | (inserted) p input where "preview c new_id now (ac_request q) (ar_preview seen) = Inr (Proposal p Automatic)"
      and "pr_fingerprint p = ac_fingerprint q" and "pr_hash p = ac_proposal_hash q"
      and "acceptance_input_identity c (ac_request q) (ar_identity seen) = Inr input"
      and "insert_consolidated_experience (cn_history c) (pr_record p)
        (cq_expected_version (ac_request q)) input db = Inr (r, db')"
proof -
  obtain found' where "accepted_before c q (ar_first seen) = Inr found'"
    using assms by (auto simp: accept_def and_then_eq_Inr)
  then consider (first) x where "accepted_before c q (ar_first seen) = Inr (Some x)"
    | (none) "accepted_before c q (ar_first seen) = Inr None"
    by (cases found') auto
  then show ?thesis
  proof cases
    case first
    then have "wanted q r \<and> r = x \<and> db' = db"
      using assms by (auto simp: accept_def no_accept_def split: if_splits)
    then show ?thesis using first found by blast
  next
    case none
    obtain result where result: "preview c new_id now (ac_request q) (ar_preview seen) = Inr result"
      using assms none by (auto simp: accept_def and_then_eq_Inr)
    show ?thesis
    proof (cases result)
      case (NoResult reason ds)
      then have "accept_no_result c q seen reason ds = Inr (Accepted r) \<and> db' = db"
        using assms none result by (auto simp: accept_def and_then_eq_Inr)
      then have "accepted_before c q (ar_again seen) = Inr (Some r) \<and> wanted q r \<and> db' = db"
        by (auto simp: accept_no_result_def and_then_eq_Inr split: if_splits option.splits)
      then show ?thesis using found by blast
    next
      case (Proposal p d)
      then have "accept_proposal c q seen p d db = Inr (Accepted r, db')"
        using assms none result by (simp add: accept_def)
      then have "d = Automatic \<and> pr_fingerprint p = ac_fingerprint q \<and> pr_hash p = ac_proposal_hash q
          \<and> (\<exists>input. acceptance_input_identity c (ac_request q) (ar_identity seen) = Inr input
              \<and> insert_consolidated_experience (cn_history c) (pr_record p)
                  (cq_expected_version (ac_request q)) input db = Inr (r, db'))"
        by (auto simp: accept_proposal_def no_accept_def and_then_eq_Inr split: if_splits)
      then show ?thesis using inserted result Proposal by blast
    qed
  qed
qed

text \<open>The record that an acceptance answers with is stored under its own id.\<close>

lemma accepted_stored:
  assumes "run_reads (cn_history c) seen db" and "accept c new_id now q seen db = Inr (Accepted r, db')"
    and faithful: "faithful (cn_codec c) r"
  shows "wanted q r \<and> history_ok db' \<and> later db db'
    \<and> experience_record_in (cn_codec c) (cq_workspace_id (ac_request q)) (exp_id (er_experience r)) db'
        = Inr (Some r)"
  using assms(2)
proof (cases rule: accept_cases)
  case (found d)
  note reads = run_reads_later [OF assms(1)]
  have "history_ok d" and "later d db" using found(1) reads by auto
  then have "experience_record_in (cn_codec c) (cq_workspace_id (ac_request q)) (exp_id (er_experience r)) d
      = Inr (Some r)"
    using found(2) for_episode_Some by (fastforce simp: accepted_before_def history_ok_def)
  then show ?thesis
    using found(3,4) reads(3) record_later \<open>later d db\<close> by (auto simp: later_def)
next
  case (inserted p input)
  have ok: "history_ok db" using run_reads_later [OF assms(1)] by blast
  note pid = preview_identity [OF inserted(1)]
  have kept: "history_ok db' \<and> later db db'"
    by (rule insert_experience_history [OF ok inserted(5)])
  from inserted(5) show ?thesis
    unfolding insert_consolidated_experience_def
  proof (cases rule: insert_experience_checked_cases)
    case (existing y)
    have "xr_workspace_id y = exp_workspace_id (er_experience (pr_record p))
        \<and> xr_consolidation_fingerprint y = exp_consolidation_fingerprint (er_experience (pr_record p))"
      using existing(1) by (auto simp: experience_by_fingerprint_def dest: find_SomeD)
    moreover obtain x where "experience_row_of (cq_workspace_id (ac_request q)) (xr_id y) db = Some x"
        "xr_id x = exp_id (er_experience r)"
        "xr_consolidation_fingerprint x = exp_consolidation_fingerprint (er_experience r)"
        "xr_proposal_hash x = exp_proposal_hash (er_experience r)"
      using record_in_row [OF existing(4)] pid by metis
    moreover have "y \<in> set (hd_experiences db)"
      using existing(1) by (auto simp: experience_by_fingerprint_def dest: find_SomeD)
    moreover have "x = y" if "experience_row_of (cq_workspace_id (ac_request q)) (xr_id y) db = Some x" for x
      using experience_row_of_Some [OF that] ok \<open>y \<in> set (hd_experiences db)\<close>
      by (auto simp: history_ok_def experiences_ok_def distinct_map inj_on_def)
    ultimately show ?thesis
      using existing(2,3,4) pid inserted(2,3) kept by (auto simp: wanted_def)
  next
    case (fresh n)
    have "experience_row_of (exp_workspace_id (er_experience r)) (exp_id (er_experience r)) db = None"
      using allowed_fresh [OF fresh(5)] rows_hold_row [OF fresh(4)] fresh(2) by metis
    moreover have "all_parts_known db" using ok by (simp add: history_ok_def experiences_ok_def)
    ultimately have "experience_record_in (cn_codec c) (exp_workspace_id (er_experience r))
        (exp_id (er_experience r)) db' = Inr (Some r)"
      using record_read_back [OF _ _ fresh(4) _ fresh(6)] faithful fresh(2,3) by blast
    then show ?thesis using kept pid inserted(2,3) fresh(2) by (simp add: wanted_def)
  qed
qed


section \<open>Properties\<close>

text \<open>C1. Acceptance is as if it happened at once: the reads of an acceptance see the database at
  different times of a run, between which any client writes, but when it inserts an experience, it
  does what it would do if all its reads saw the database that it inserts into.\<close>

theorem acceptance_atomic:
  assumes "run_reads (cn_history c) seen db"
    and "accept c new_id now q seen db = Inr (Accepted r, db')" and "db' \<noteq> db"
  shows "accept c new_id now q (reads_at db) db = Inr (Accepted r, db')"
  using assms(2)
proof (cases rule: accept_cases)
  case (found d)
  then show ?thesis using assms(3) by simp
next
  case (inserted p input)
  note reads = run_reads_later [OF assms(1)]
  note pid = preview_identity [OF inserted(1)]
  have "experience_by_episode (cq_workspace_id (ac_request q)) (cq_episode_id (ac_request q)) db = None"
    using inserted(5) unfolding insert_consolidated_experience_def
    by (cases rule: insert_experience_checked_cases) (use assms(3) pid in auto)
  then have none: "experience_for_episode (cn_codec c) (cq_workspace_id (ac_request q))
      (cq_episode_id (ac_request q)) db = Inr None"
    by (simp add: experience_for_episode_def)
  have preview: "preview c new_id now (ac_request q) (\<lambda>_. db) = Inr (Proposal p Automatic)"
    by (rule preview_same [OF inserted(1) reads(6) none])
  obtain ep where ep: "stored_episode (cq_workspace_id (ac_request q)) (cq_episode_id (ac_request q))
        (ar_preview seen ReadEpisode) = Inr (Some ep)"
      "ep_status ep \<in> {ClosedEpisode, AbandonedEpisode}"
    using inserted(1) by (rule preview_Proposal)
  have frozen: "members_of (cq_workspace_id (ac_request q)) (cq_episode_id (ac_request q)) x
      = members_of (cq_workspace_id (ac_request q)) (cq_episode_id (ac_request q))
        (ar_preview seen ReadEpisode)" if "later (ar_preview seen ReadEpisode) x" for x
    using terminal_frozen [OF that ep] by blast
  have "later (ar_preview seen ReadEpisode) db" using reads(6) by blast
  then have "members_of (cq_workspace_id (ac_request q)) (cq_episode_id (ac_request q)) db
      = members_of (cq_workspace_id (ac_request q)) (cq_episode_id (ac_request q))
        (ar_identity seen ReadMembers)"
    using frozen reads(7) by metis
  then have "acceptance_input_identity c (ac_request q) (\<lambda>_. db) = Inr input"
    by (rule identity_same [OF inserted(4)]) (use reads(7) in blast)
  then show ?thesis
    using none preview inserted(2,3,5)
    by (simp add: accept_def accepted_before_def reads_at_def accept_proposal_def)
qed

lemma demo_run_reads: "run_reads (cn_history demo_consolidator) demo_reads demo_closed"
  using demo_reach(1) demo_closed_run
  by (simp add: run_reads_def Let_def demo_reads_def demo_consolidator_def)

theorem acceptance_atomic_witness:
  "accept demo_consolidator demo_ids 0 demo_request (reads_at demo_closed) demo_closed
    = Inr (Accepted demo_record, demo_accepted)"
  using acceptance_atomic [OF demo_run_reads demo_accepts demo_differ(2)] .

lemma demo_consolidator_parts:
  "cn_history demo_consolidator = demo_history_services" "hs_codec demo_history_services = demo_codec"
  by (simp_all add: demo_consolidator_def demo_history_services_def)

text \<open>C10. An accepted experience is the one that was asked for, it is stored, and every later
  database of a run reads it back unchanged, provided its JSON columns read back.\<close>

theorem accepted_record_stays:
  assumes "run_reads (cn_history c) seen db"
    and "accept c new_id now q seen db = Inr (Accepted r, db')"
    and "faithful (cn_codec c) r" and "history_run (cn_history c) db' db2"
  shows "wanted q r \<and> experience_record_in (cn_codec c) (cq_workspace_id (ac_request q))
    (exp_id (er_experience r)) db2 = Inr (Some r)"
proof -
  note stored = accepted_stored [OF assms(1-3)]
  then have "records_later db' db2"
    using history_run_keeps [OF assms(4)] by (simp add: later_def)
  then show ?thesis using stored record_later by blast
qed

theorem accepted_record_stays_witness:
  "experience_record_in demo_codec ''w'' ''i0'' demo_recurred = Inr (Some demo_record)"
  using accepted_record_stays [OF demo_run_reads demo_accepts, of demo_recurred] demo_faithful
    demo_recurred_run
  by (simp add: demo_consolidator_parts demo_request_def demo_record_fields)

text \<open>C17. Accepting again, with other ids at another time, answers with the same experience and
  writes nothing, whatever was written in between.\<close>

theorem acceptance_repeatable:
  assumes "run_reads (cn_history c) seen db"
    and "accept c new_id now q seen db = Inr (Accepted r, db')" and "faithful (cn_codec c) r"
    and "exp_episode_id (er_experience r) = cq_episode_id (ac_request q)"
    and "history_run (cn_history c) db' (ar_first seen2)"
  shows "accept c new_id2 now2 q seen2 db2 = Inr (Accepted r, db2)"
proof -
  note stored = accepted_stored [OF assms(1-3)]
  have "history_ok (ar_first seen2) \<and> later db' (ar_first seen2)"
    using stored history_run_keeps [OF assms(5)] by blast
  then have "accepted_before c q (ar_first seen2) = Inr (Some r)"
    using stored assms(4) for_episode_later unfolding accepted_before_def by blast
  then show ?thesis using stored by (simp add: accept_def)
qed

theorem acceptance_repeatable_witness:
  "accept demo_consolidator (\<lambda>_. ''other'') 7 demo_request (reads_at demo_recurred) demo_recurred
    = Inr (Accepted demo_record, demo_recurred)"
proof -
  have "exp_episode_id (er_experience demo_record) = cq_episode_id (ac_request demo_request)"
    by (simp add: demo_request_def demo_record_fields)
  then show ?thesis
    using acceptance_repeatable [OF demo_run_reads demo_accepts, of "reads_at demo_recurred"
        "\<lambda>_. ''other''" 7 demo_recurred] demo_faithful demo_recurred_run
    by (simp add: demo_consolidator_parts reads_at_def)
qed

end
