(* ===== verification/Utf8.thy ===== *)
theory Utf8
  imports CortexError
begin

text \<open>
  Byte positions in a Rust string.  A slice panics unless both ends are character boundaries in
  order; here it is a result with the panic as its error.  The searches return byte positions.
\<close>

definition is_continuation :: "char \<Rightarrow> bool" where
  "is_continuation c \<longleftrightarrow> 128 \<le> code c \<and> code c < 192"

definition is_char_boundary :: "string \<Rightarrow> nat \<Rightarrow> bool" where
  "is_char_boundary s i \<longleftrightarrow>
     i = 0 \<or> i = length s \<or> i < length s \<and> \<not> is_continuation (s ! i)"

definition slice :: "string \<Rightarrow> nat \<Rightarrow> nat \<Rightarrow> cortex_error + string" where
  "slice s a b =
     (if a \<le> b \<and> is_char_boundary s a \<and> is_char_boundary s b
      then Inr (take (b - a) (drop a s))
      else Inl (Panicked ''byte index is not a char boundary''))"

text \<open>\<open>str::rfind\<close>: the last position at which the pattern occurs.\<close>

definition rfind_str :: "string \<Rightarrow> string \<Rightarrow> nat option" where
  "rfind_str p s =
     (let is = filter (\<lambda>i. prefix p (drop i s)) [0..<Suc (length s)]
      in if is = [] then None else Some (last is))"

fun floor_char_boundary :: "string \<Rightarrow> nat \<Rightarrow> nat" where
  "floor_char_boundary s 0 = 0"
| "floor_char_boundary s (Suc i) =
     (if is_char_boundary s (Suc i) then Suc i else floor_char_boundary s i)"

function ceil_char_boundary :: "string \<Rightarrow> nat \<Rightarrow> nat" where
  "ceil_char_boundary s i =
     (if i < length s \<and> \<not> is_char_boundary s i then ceil_char_boundary s (Suc i) else i)"
  by pat_completeness auto
termination by (relation "measure (\<lambda>(s, i). length s - i)") auto

declare ceil_char_boundary.simps [simp del]

definition next_char_boundary_at_or_after :: "string \<Rightarrow> nat \<Rightarrow> nat" where
  "next_char_boundary_at_or_after s i = ceil_char_boundary s (min i (length s))"

text \<open>\<open>next_char_boundary\<close> takes the second entry of \<open>char_indices\<close> of the rest: the first boundary
  after the position, or the end.\<close>

definition next_char_boundary :: "string \<Rightarrow> nat \<Rightarrow> cortex_error + nat" where
  "next_char_boundary s i =
     and_then (slice s i (length s)) (\<lambda>_. Inr (next_char_boundary_at_or_after s (Suc i)))"

lemma boundary_0 [simp]: "is_char_boundary s 0"
  by (simp add: is_char_boundary_def)

lemma boundary_length [simp]: "is_char_boundary s (length s)"
  by (simp add: is_char_boundary_def)

lemma boundary_le: "is_char_boundary s i \<Longrightarrow> i \<le> length s"
  by (auto simp: is_char_boundary_def)

lemma slice_eq_Inr [result_simps]: "slice s a b = Inr t \<longleftrightarrow>
    a \<le> b \<and> is_char_boundary s a \<and> is_char_boundary s b \<and> t = take (b - a) (drop a s)"
  by (auto simp: slice_def)

lemma floor_boundary: "is_char_boundary s (floor_char_boundary s i)"
  by (induction s i rule: floor_char_boundary.induct) auto

lemma floor_le: "floor_char_boundary s i \<le> i"
  by (induction s i rule: floor_char_boundary.induct) auto

lemma floor_greatest: "is_char_boundary s j \<Longrightarrow> j \<le> i \<Longrightarrow> j \<le> floor_char_boundary s i"
  by (induction s i rule: floor_char_boundary.induct) (auto simp: le_Suc_eq)

lemma ceil_spec:
  assumes "i \<le> length s"
  shows "is_char_boundary s (ceil_char_boundary s i) \<and> i \<le> ceil_char_boundary s i
    \<and> (\<forall>j. i \<le> j \<longrightarrow> is_char_boundary s j \<longrightarrow> ceil_char_boundary s i \<le> j)"
  using assms
proof (induction s i rule: ceil_char_boundary.induct)
  case (1 s i)
  show ?case
  proof (cases "i < length s \<and> \<not> is_char_boundary s i")
    case True
    then have eq: "ceil_char_boundary s i = ceil_char_boundary s (Suc i)"
      by (subst ceil_char_boundary.simps) simp
    have "is_char_boundary s (ceil_char_boundary s (Suc i)) \<and> Suc i \<le> ceil_char_boundary s (Suc i)
      \<and> (\<forall>j. Suc i \<le> j \<longrightarrow> is_char_boundary s j \<longrightarrow> ceil_char_boundary s (Suc i) \<le> j)"
      using 1 True by simp
    with True show ?thesis unfolding eq by (metis Suc_leD Suc_leI le_neq_implies_less)
  next
    case False
    then show ?thesis using 1(2) by (subst (1 2 3) ceil_char_boundary.simps) auto
  qed
qed

lemma ceil_facts:
  assumes "i \<le> length s"
  shows "is_char_boundary s (next_char_boundary_at_or_after s i)"
    and "i \<le> next_char_boundary_at_or_after s i"
    and "next_char_boundary_at_or_after s i \<le> length s"
    and "is_char_boundary s j \<Longrightarrow> i \<le> j \<Longrightarrow> next_char_boundary_at_or_after s i \<le> j"
  using ceil_spec [OF assms] assms
  by (simp_all add: next_char_boundary_at_or_after_def min_absorb1)

lemma next_char_boundary_Inr:
  assumes "is_char_boundary s i" and "i < length s"
  shows "\<exists>e. next_char_boundary s i = Inr e \<and> is_char_boundary s e \<and> i < e
    \<and> (\<forall>j. i < j \<longrightarrow> is_char_boundary s j \<longrightarrow> e \<le> j)"
  using assms ceil_facts [of "Suc i" s]
  by (auto simp: next_char_boundary_def slice_def Suc_le_eq)

lemma rfind_str_SomeD: "rfind_str p s = Some i \<Longrightarrow> prefix p (drop i s) \<and> i \<le> length s"
proof -
  assume a: "rfind_str p s = Some i"
  let ?is = "filter (\<lambda>i. prefix p (drop i s)) [0..<Suc (length s)]"
  from a have "?is \<noteq> []" and i: "i = last ?is"
    by (auto simp: rfind_str_def Let_def split: if_splits)
  then have "i \<in> set ?is" using last_in_set by blast
  then show ?thesis by (auto simp del: upt_Suc)
qed

lemma rfind_str_bound:
  assumes "rfind_str p s = Some i"
  shows "i + length p \<le> length s"
  using rfind_str_SomeD [OF assms] prefix_length_le [of p "drop i s"] by auto

lemma prefix_drop_nth:
  assumes "prefix p (drop i s)" and "i \<le> length s" and "k < length p"
  shows "s ! (i + k) = p ! k"
proof -
  obtain r where "drop i s = p @ r" using assms(1) by (auto simp: prefix_def)
  then have "drop i s ! k = p ! k" using assms(3) by (simp add: nth_append)
  then show ?thesis using assms(2) by simp
qed

section \<open>Well-formed UTF-8\<close>

text \<open>Every \<open>String\<close> is well-formed UTF-8: the byte ranges of the Unicode standard, table 3-7.\<close>

definition byte_in :: "nat \<Rightarrow> nat \<Rightarrow> char \<Rightarrow> bool" where
  "byte_in lo hi c \<longleftrightarrow> lo \<le> code c \<and> code c \<le> hi"

definition lead_length :: "char \<Rightarrow> nat" where
  "lead_length a =
     (if code a < 128 then 1
      else if byte_in 194 223 a then 2
      else if byte_in 224 239 a then 3
      else if byte_in 240 244 a then 4
      else 0)"

definition second_byte :: "char \<Rightarrow> char \<Rightarrow> bool" where
  "second_byte a b \<longleftrightarrow>
     byte_in (if code a = 224 then 160 else if code a = 240 then 144 else 128)
       (if code a = 237 then 159 else if code a = 244 then 143 else 191) b"

definition utf8_char :: "string \<Rightarrow> nat \<Rightarrow> bool" where
  "utf8_char s n \<longleftrightarrow> 0 < n \<and> n \<le> length s \<and> lead_length (hd s) = n
     \<and> (1 < n \<longrightarrow> second_byte (s ! 0) (s ! 1)) \<and> list_all is_continuation (drop 2 (take n s))"

function utf8_valid :: "string \<Rightarrow> bool" where
  "utf8_valid s =
     (if s = [] then True
      else if utf8_char s (lead_length (hd s)) then utf8_valid (drop (lead_length (hd s)) s)
      else False)"
  by pat_completeness auto
termination by (relation "measure length") (auto simp: utf8_char_def)

declare utf8_valid.simps [simp del]

lemma utf8_valid_Nil [simp]: "utf8_valid []"
  by (subst utf8_valid.simps) simp

lemma second_byte_continuation: "second_byte a b \<Longrightarrow> is_continuation b"
  by (auto simp: second_byte_def byte_in_def is_continuation_def split: if_splits)

lemma lead_not_continuation: "0 < lead_length a \<Longrightarrow> \<not> is_continuation a"
  by (auto simp: lead_length_def byte_in_def is_continuation_def split: if_splits)

lemma utf8_valid_start: "utf8_valid s \<Longrightarrow> s \<noteq> [] \<Longrightarrow> \<not> is_continuation (s ! 0)"
  by (subst (asm) utf8_valid.simps)
    (auto simp: utf8_char_def lead_not_continuation hd_conv_nth split: if_splits)

lemma utf8_char_inner:
  assumes "utf8_char s n" and "0 < i" and "i < n"
  shows "is_continuation (s ! i)"
proof (cases "i = 1")
  case True
  then show ?thesis using assms by (auto simp: utf8_char_def second_byte_continuation)
next
  case False
  with assms(2) have "2 \<le> i" by simp
  then obtain k where "i = 2 + k" using le_Suc_ex by blast
  then have "drop 2 (take n s) ! (i - 2) = s ! i" and "i - 2 < length (drop 2 (take n s))"
    using assms by (auto simp: utf8_char_def)
  then show ?thesis using assms(1) by (metis list_all_length utf8_char_def)
qed

lemma utf8_valid_after_ascii:
  "utf8_valid s \<Longrightarrow> Suc i < length s \<Longrightarrow> code (s ! i) < 128 \<Longrightarrow> \<not> is_continuation (s ! Suc i)"
proof (induction s arbitrary: i rule: utf8_valid.induct)
  case (1 s)
  let ?n = "lead_length (hd s)"
  have s: "utf8_char s ?n" "utf8_valid (drop ?n s)" "s \<noteq> []"
    using 1(2,3) utf8_valid.simps [of s] by (auto split: if_splits)
  show ?case
  proof (cases "i < ?n")
    case True
    then have "i = 0"
      using utf8_char_inner [OF s(1), of i] 1(4) by (auto simp: is_continuation_def)
    then have "?n = 1"
      using 1(4) s(3) by (simp add: lead_length_def hd_conv_nth)
    then show ?thesis
      using utf8_valid_start [OF s(2)] 1(3) \<open>i = 0\<close> by simp
  next
    case False
    then have "s ! i = drop ?n s ! (i - ?n)" "s ! Suc i = drop ?n s ! Suc (i - ?n)"
      "Suc (i - ?n) < length (drop ?n s)"
      using 1(3) s(1) by (auto simp: utf8_char_def Suc_diff_le)
    then show ?thesis using 1(1) [OF s(3) s(1) s(2), of "i - ?n"] 1(4) by simp
  qed
qed

text \<open>The position after an ASCII byte is a boundary, and so is the position of one.\<close>

lemma boundary_after_ascii:
  assumes "utf8_valid s" and "i < length s" and "code (s ! i) < 128"
  shows "is_char_boundary s (Suc i)"
  using assms utf8_valid_after_ascii [of s i] by (auto simp: is_char_boundary_def)

lemma boundary_at_ascii:
  assumes "i < length s" and "code (s ! i) < 128"
  shows "is_char_boundary s i"
  using assms by (simp add: is_char_boundary_def is_continuation_def)

end
