(* ===== verification/GenericChunks.thy ===== *)
theory GenericChunks
  imports GraphDomain Utf8
begin

text \<open>
  \<open>src/parsing/generic.rs\<close>: the fallback analyzer, which cuts a file without known structure into
  overlapping chunks.  The loop runs until the source is used up; that it stops, covers the
  source and never slices inside a character is proved here.  Sizes are \<open>usize\<close>; the addition
  that can overflow is checked, as a build with overflow checks does.
\<close>

section \<open>The analyzer\<close>

record generic_analyzer =
  target_chars :: nat
  overlap_chars :: nat

definition generic_new :: "nat \<Rightarrow> nat \<Rightarrow> generic_analyzer" where
  "generic_new target overlap =
     \<lparr>target_chars = max target 1, overlap_chars = min overlap (target - 1)\<rparr>"

definition generic_version :: "generic_analyzer \<Rightarrow> string" where
  "generic_version a =
     ''3-target'' @ digits (target_chars a) @ ''-overlap'' @ digits (overlap_chars a)"

definition newline :: char where "newline = char_of (10::nat)"

text \<open>The last heading of a chunk, unless it opens the chunk.\<close>

definition markdown_heading_boundary :: "string \<Rightarrow> nat option" where
  "markdown_heading_boundary chunk = map_option Suc (rfind_str [newline, CHR ''#''] chunk)"

definition heading_end :: "string \<Rightarrow> nat \<Rightarrow> nat \<Rightarrow> nat \<Rightarrow> cortex_error + nat" where
  "heading_end source start previous_end e =
     (if e < length source then
        and_then (slice source start e) (\<lambda>chunk.
        Inr (case markdown_heading_boundary chunk of
               Some h \<Rightarrow> if start + h > previous_end then start + h else e
             | None \<Rightarrow> e))
      else Inr e)"

definition paragraph_end :: "string \<Rightarrow> nat \<Rightarrow> nat \<Rightarrow> nat \<Rightarrow> cortex_error + nat" where
  "paragraph_end source start previous_end e =
     (if e < length source then
        and_then (slice source start e) (\<lambda>chunk.
        Inr (case rfind_str [newline, newline] chunk of
               Some r \<Rightarrow> if start + r + 2 > previous_end then start + r + 2 else e
             | None \<Rightarrow> e))
      else Inr e)"

definition forced_end :: "string \<Rightarrow> nat \<Rightarrow> nat \<Rightarrow> cortex_error + nat" where
  "forced_end source previous_end e =
     (if e \<le> previous_end then next_char_boundary source previous_end else Inr e)"

definition chunk_end :: "string \<Rightarrow> nat \<Rightarrow> nat \<Rightarrow> nat \<Rightarrow> cortex_error + nat" where
  "chunk_end source target start previous_end =
     and_then (ok_or (checked_add start target) (Panicked ''attempt to add with overflow'')) (\<lambda>t.
     and_then (heading_end source start previous_end
                 (floor_char_boundary source (min t (length source)))) (\<lambda>e.
     and_then (paragraph_end source start previous_end e) (\<lambda>e.
     forced_end source previous_end e)))"

text \<open>The loop's state: the chunks so far, \<open>start\<close> and \<open>previous_end\<close>.\<close>

type_synonym chunk_state = "(nat \<times> nat) list \<times> nat \<times> nat"

definition chunk_step ::
    "string \<Rightarrow> nat \<Rightarrow> nat \<Rightarrow> chunk_state \<Rightarrow> (cortex_error + (nat \<times> nat) list) + chunk_state" where
  "chunk_step source target overlap = (\<lambda>(chunks, start, previous_end).
     if start < length source then
       (case chunk_end source target start previous_end of
          Inl err \<Rightarrow> Inl (Inl err)
        | Inr e \<Rightarrow>
            let chunks = chunks @ [(start, e)]
            in if e = length source then Inl (Inr chunks)
               else if e < start then Inl (Inl (Panicked ''attempt to subtract with overflow''))
               else
                 let proposed = (if e - start \<le> overlap then e else e - overlap)
                 in Inr (chunks, min (next_char_boundary_at_or_after source proposed) e, e))
     else Inl (Inr chunks))"

definition chunk_boundaries ::
    "string \<Rightarrow> nat \<Rightarrow> nat \<Rightarrow> (cortex_error + (nat \<times> nat) list) option" where
  "chunk_boundaries source target overlap = run_loop (chunk_step source target overlap) ([], 0, 0)"

definition newlines :: "string \<Rightarrow> nat" where
  "newlines s = length (filter (\<lambda>c. c = newline) s)"

definition text_chunk :: "string \<Rightarrow> string \<Rightarrow> nat \<times> (nat \<times> nat) \<Rightarrow> cortex_error + analyzed_chunk" where
  "text_chunk path source = (\<lambda>(index, start, e).
     and_then (slice source 0 start) (\<lambda>before.
     and_then (slice source start e) (\<lambda>content.
     let start_line = newlines before + 1
     in Inr \<lparr>chunk_stable_key = path @ ''::text:'' @ digits index,
             chunk_language = ''text'', chunk_symbol = None, chunk_qualified_symbol = None,
             chunk_symbol_kind = None, chunk_start_byte = start, chunk_end_byte = e,
             chunk_start_line = start_line, chunk_end_line = start_line + newlines content,
             chunk_content = content,
             chunk_metadata = JObject [(''chunk_index'', JNumber (PosInt index))]\<rparr>)))"

definition generic_analyze ::
    "generic_analyzer \<Rightarrow> string \<Rightarrow> string \<Rightarrow> (cortex_error + analysis_result) option" where
  "generic_analyze a path source =
     (if source = [] then Some (Inr (chunks_only []))
      else case chunk_boundaries source (target_chars a) (overlap_chars a) of
        None \<Rightarrow> None
      | Some r \<Rightarrow> Some (and_then r (\<lambda>bs.
          and_then (try_map (text_chunk (to_slashes path) source) (enumerate 0 bs)) (\<lambda>cs.
          Inr (chunks_only cs)))))"

section \<open>The end of a chunk\<close>

text \<open>The position after a byte of an ASCII pattern found in a slice is a boundary.\<close>

lemma pattern_boundary:
  assumes "utf8_valid s" and "slice s a b = Inr c" and "rfind_str p c = Some i"
    and "k < length p" and "code (p ! k) < 128"
  shows "is_char_boundary s (Suc (a + i + k)) \<and> a + i + k < b"
proof -
  have c: "c = take (b - a) (drop a s)" "a \<le> b" "b \<le> length s"
    using assms(2) by (simp_all add: slice_eq_Inr boundary_le)
  have bound: "i + length p \<le> length c" using rfind_str_bound [OF assms(3)] .
  with assms(4) c have less: "a + i + k < b" by simp
  have "c ! (i + k) = p ! k"
    using rfind_str_SomeD [OF assms(3)] assms(4) by (simp add: prefix_drop_nth)
  then have "s ! (a + i + k) = p ! k"
    using c bound assms(4) by (simp add: add.assoc)
  then show ?thesis
    using boundary_after_ascii [OF assms(1), of "a + i + k"] assms(5) less c by simp
qed

lemma heading_end_Inr:
  assumes "utf8_valid s" and "is_char_boundary s start" and "is_char_boundary s e" and "start \<le> e"
  shows "\<exists>e'. heading_end s start p e = Inr e' \<and> is_char_boundary s e' \<and> start \<le> e' \<and> e' \<le> e
    \<and> (e' = e \<or> p < e')"
proof -
  obtain c where c: "slice s start e = Inr c"
    using assms by (simp add: slice_def)
  show ?thesis
  proof (cases "rfind_str [newline, CHR ''#''] c")
    case None
    then show ?thesis
      using assms c by (simp add: heading_end_def markdown_heading_boundary_def)
  next
    case (Some i)
    have "is_char_boundary s (Suc (start + i)) \<and> start + i < e"
      using pattern_boundary [OF assms(1) c Some, of 0] by (simp add: newline_def code_def)
    then show ?thesis
      using assms c Some by (simp add: heading_end_def markdown_heading_boundary_def)
  qed
qed

lemma paragraph_end_Inr:
  assumes "utf8_valid s" and "is_char_boundary s start" and "is_char_boundary s e" and "start \<le> e"
  shows "\<exists>e'. paragraph_end s start p e = Inr e' \<and> is_char_boundary s e' \<and> start \<le> e' \<and> e' \<le> e
    \<and> (e' = e \<or> p < e')"
proof -
  obtain c where c: "slice s start e = Inr c"
    using assms by (simp add: slice_def)
  show ?thesis
  proof (cases "rfind_str [newline, newline] c")
    case None
    then show ?thesis using assms c by (simp add: paragraph_end_def)
  next
    case (Some i)
    have "is_char_boundary s (Suc (Suc (start + i))) \<and> Suc (start + i) < e"
      using pattern_boundary [OF assms(1) c Some, of 1] by (simp add: newline_def code_def)
    then show ?thesis using assms c Some by (simp add: paragraph_end_def)
  qed
qed

text \<open>A chunk ends after the previous one, at most \<open>target\<close> bytes from its start unless one
  character is longer than that.\<close>

definition fits :: "string \<Rightarrow> nat \<Rightarrow> nat \<times> nat \<Rightarrow> bool" where
  "fits s target = (\<lambda>(start, e). start < e \<and> is_char_boundary s start \<and> is_char_boundary s e
     \<and> (e \<le> start + target \<or> next_char_boundary_at_or_after s (Suc (start + target)) = e))"

lemma chunk_end_Inr:
  assumes "utf8_valid s" and "is_char_boundary s start" and "is_char_boundary s p"
    and "start \<le> p" and "p < length s" and "start + target \<le> usize_max"
    and "p \<le> start + overlap" and "overlap < target"
  shows "\<exists>e. chunk_end s target start p = Inr e \<and> p < e \<and> e \<le> length s \<and> fits s target (start, e)"
proof -
  let ?f = "floor_char_boundary s (min (start + target) (length s))"
  have f: "is_char_boundary s ?f" "start \<le> ?f" "?f \<le> start + target"
    using assms floor_greatest [of s start "min (start + target) (length s)"]
      floor_le [of s "min (start + target) (length s)"]
    by (simp_all add: floor_boundary boundary_le)
  obtain g where g: "heading_end s start p ?f = Inr g" "is_char_boundary s g" "start \<le> g" "g \<le> ?f"
      "g = ?f \<or> p < g"
    using heading_end_Inr [OF assms(1,2) f(1,2), of p] by blast
  obtain h where h: "paragraph_end s start p g = Inr h" "is_char_boundary s h" "h \<le> g"
      "h = g \<or> p < h"
    using paragraph_end_Inr [OF assms(1,2) g(2,3), of p] by blast
  have run: "chunk_end s target start p = forced_end s p h"
    using assms(6) g h by (simp add: chunk_end_def checked_add_def)
  show ?thesis
  proof (cases "h \<le> p")
    case False
    then show ?thesis
      using assms(2,4) run f g h by (auto simp: forced_end_def fits_def boundary_le)
  next
    case True
    then have "h = ?f" using g(5) h(4) by auto
    obtain e where e: "next_char_boundary s p = Inr e" "is_char_boundary s e" "p < e"
      "\<And>j. p < j \<Longrightarrow> is_char_boundary s j \<Longrightarrow> e \<le> j"
      using next_char_boundary_Inr [OF assms(3,5)] by blast
    have "e = next_char_boundary_at_or_after s (Suc (start + target))" if "start + target < e"
    proof -
      have t: "Suc (start + target) \<le> length s" using that boundary_le [OF e(2)] by simp
      have "e \<le> next_char_boundary_at_or_after s (Suc (start + target))"
        using ceil_facts(1,2) [OF t] assms(7,8) by (intro e(4)) simp_all
      moreover have "next_char_boundary_at_or_after s (Suc (start + target)) \<le> e"
        using ceil_facts(4) [OF t e(2)] that by simp
      ultimately show ?thesis by simp
    qed
    then have "e \<le> start + target \<or> next_char_boundary_at_or_after s (Suc (start + target)) = e"
      by (cases "start + target < e") simp_all
    then show ?thesis
      using assms(2,4) run True e(1,2,3) by (auto simp: forced_end_def fits_def boundary_le)
  qed
qed

section \<open>The loop\<close>

text \<open>Consecutive chunks: the next one starts later, without a gap and within the overlap, and ends
  later.\<close>

definition follows :: "nat \<Rightarrow> nat \<times> nat \<Rightarrow> nat \<times> nat \<Rightarrow> bool" where
  "follows overlap = (\<lambda>(a, b) (c, d). a < c \<and> c \<le> b \<and> b \<le> c + overlap \<and> b < d)"

definition chunked :: "string \<Rightarrow> nat \<Rightarrow> nat \<Rightarrow> (nat \<times> nat) list \<Rightarrow> bool" where
  "chunked s target overlap bs \<longleftrightarrow>
     list_all (fits s target) bs \<and> successively (follows overlap) bs \<and> (bs \<noteq> [] \<longrightarrow> fst (hd bs) = 0)"

definition chunk_inv :: "string \<Rightarrow> nat \<Rightarrow> nat \<Rightarrow> chunk_state \<Rightarrow> bool" where
  "chunk_inv s target overlap = (\<lambda>(bs, start, p).
     chunked s target overlap bs \<and> is_char_boundary s start \<and> is_char_boundary s p
     \<and> start \<le> p \<and> p < length s \<and> p \<le> start + overlap
     \<and> (if bs = [] then start = 0 \<and> p = 0 else fst (last bs) < start \<and> snd (last bs) = p))"

lemma chunked_snoc:
  assumes "chunk_inv s target overlap (bs, start, p)" and "fits s target (start, e)" and "p < e"
  shows "chunked s target overlap (bs @ [(start, e)])"
  using assms
  by (cases "bs = []"; cases "last bs")
    (auto simp: chunk_inv_def chunked_def successively_append_iff follows_def)

lemma chunk_step_spec:
  assumes inv: "chunk_inv s target overlap (bs, start, p)" and "utf8_valid s"
    and "length s + target \<le> usize_max" and "overlap < target"
  obtains e where "chunked s target overlap (bs @ [(start, e)])" and "e = length s"
      and "chunk_step s target overlap (bs, start, p) = Inl (Inr (bs @ [(start, e)]))"
    | e start' where "chunk_inv s target overlap (bs @ [(start, e)], start', e)" and "p < e"
      and "chunk_step s target overlap (bs, start, p) = Inr (bs @ [(start, e)], start', e)"
proof -
  have pre: "is_char_boundary s start" "is_char_boundary s p" "start \<le> p" "p < length s"
    "p \<le> start + overlap" "start < length s" "start + target \<le> usize_max"
    using inv assms(3) by (auto simp: chunk_inv_def)
  obtain e where e: "chunk_end s target start p = Inr e" "p < e" "e \<le> length s"
    "fits s target (start, e)"
    using chunk_end_Inr [OF assms(2) pre(1,2,3,4,7,5) assms(4)] by blast
  have bs: "chunked s target overlap (bs @ [(start, e)])"
    using chunked_snoc [OF inv e(4,2)] .
  have be: "is_char_boundary s e" "start < e" using e(4) by (auto simp: fits_def)
  show thesis
  proof (cases "e = length s")
    case True
    then show thesis using that(1) [of e] bs e(1) pre(6) by (simp add: chunk_step_def Let_def)
  next
    case False
    let ?q = "if e - start \<le> overlap then e else e - overlap"
    let ?start = "min (next_char_boundary_at_or_after s ?q) e"
    have q: "?q \<le> length s" "start < ?q" "?q \<le> e" "e \<le> ?q + overlap"
      using e(3) be(2) by auto
    have le: "next_char_boundary_at_or_after s ?q \<le> e"
      using ceil_facts(4) [OF q(1) be(1) q(3)] .
    then have st: "?start = next_char_boundary_at_or_after s ?q" by simp
    have "chunk_inv s target overlap (bs @ [(start, e)], ?start, e)"
      unfolding st using bs be False e(3) ceil_facts(1,2) [OF q(1)] q le
      by (simp add: chunk_inv_def del: if_split)
    then show thesis
      using that(2) [of e ?start] False e(1,2) be(2) pre(6) by (simp add: chunk_step_def Let_def)
  qed
qed

lemma chunk_boundaries_result:
  assumes "utf8_valid s" and "s \<noteq> []" and "length s + target \<le> usize_max" and "overlap < target"
  shows "\<exists>bs. chunk_boundaries s target overlap = Some (Inr bs) \<and> bs \<noteq> []
    \<and> chunked s target overlap bs \<and> snd (last bs) = length s"
proof -
  have "\<exists>r. chunk_boundaries s target overlap = Some r
      \<and> (\<exists>bs. r = Inr bs \<and> bs \<noteq> [] \<and> chunked s target overlap bs \<and> snd (last bs) = length s)"
    unfolding chunk_boundaries_def
  proof (rule run_loop_result [where P = "chunk_inv s target overlap"
        and m = "\<lambda>(bs, start, p). length s - p"])
    show "chunk_inv s target overlap ([], 0, 0)"
      using assms(2) by (simp add: chunk_inv_def chunked_def)
  next
    fix st st'
    assume "chunk_inv s target overlap st" and "chunk_step s target overlap st = Inr st'"
    then show "chunk_inv s target overlap st'
      \<and> (case st' of (bs, start, p) \<Rightarrow> length s - p) < (case st of (bs, start, p) \<Rightarrow> length s - p)"
      using chunk_step_spec [OF _ assms(1,3,4)]
      by (cases st) (fastforce simp: chunk_inv_def)
  next
    fix st r
    assume "chunk_inv s target overlap st" and "chunk_step s target overlap st = Inl r"
    then show "\<exists>bs. r = Inr bs \<and> bs \<noteq> [] \<and> chunked s target overlap bs \<and> snd (last bs) = length s"
      using chunk_step_spec [OF _ assms(1,3,4)] by (cases st) fastforce
  qed
  then show ?thesis by blast
qed

section \<open>The chunks\<close>

lemma generic_new_bounds: "overlap_chars (generic_new t v) < target_chars (generic_new t v)"
  by (auto simp: generic_new_def)

definition chunk_of :: "string \<Rightarrow> string \<Rightarrow> nat \<times> (nat \<times> nat) \<Rightarrow> analyzed_chunk \<Rightarrow> bool" where
  "chunk_of path source = (\<lambda>(index, start, e) c.
     chunk_stable_key c = path @ ''::text:'' @ digits index
     \<and> chunk_start_byte c = start \<and> chunk_end_byte c = e
     \<and> chunk_content c = take (e - start) (drop start source)
     \<and> chunk_start_line c = 1 + newlines (take start source)
     \<and> chunk_end_line c = 1 + newlines (take e source))"

lemma newlines_append [simp]: "newlines (s @ t) = newlines s + newlines t"
  by (simp add: newlines_def)

lemma take_split: "a \<le> b \<Longrightarrow> take b s = take a s @ take (b - a) (drop a s)"
  by (metis le_add_diff_inverse take_add)

lemma text_chunk_Inr:
  assumes "fits s target (start, e)"
  shows "\<exists>c. text_chunk path s (i, start, e) = Inr c \<and> chunk_of path s (i, start, e) c"
  using assms
  by (auto simp: fits_def text_chunk_def slice_def chunk_of_def Let_def take_split [of start e s])

lemma text_chunks_Inr:
  assumes "list_all (fits s target) bs"
  shows "\<exists>cs. try_map (text_chunk path s) (enumerate n bs) = Inr cs
    \<and> list_all2 (chunk_of path s) (enumerate n bs) cs"
  using assms
proof (induction bs arbitrary: n)
  case (Cons b bs)
  obtain c where c: "text_chunk path s (n, b) = Inr c" "chunk_of path s (n, b) c"
    using text_chunk_Inr [of s target "fst b" "snd b" path n] Cons.prems by auto
  moreover obtain cs where "try_map (text_chunk path s) (enumerate (Suc n) bs) = Inr cs"
    "list_all2 (chunk_of path s) (enumerate (Suc n) bs) cs"
    using Cons.IH [of "Suc n"] Cons.prems by auto
  ultimately show ?case by simp
qed simp

text \<open>What a reader of the chunks puts together: the text of each without what it repeats.\<close>

fun reassemble :: "nat \<Rightarrow> analyzed_chunk list \<Rightarrow> string" where
  "reassemble p [] = []"
| "reassemble p (c # cs) =
     drop (p - chunk_start_byte c) (chunk_content c) @ reassemble (chunk_end_byte c) cs"

lemma reassemble_chunks:
  assumes "list_all2 (chunk_of path s) (enumerate n bs) cs" and "successively (follows v) bs"
    and "list_all (fits s target) bs" and "bs \<noteq> []" and "fst (hd bs) \<le> p" and "p < snd (hd bs)"
    and "snd (last bs) = length s"
  shows "reassemble p cs = drop p s"
  using assms
proof (induction bs arbitrary: n cs p)
  case (Cons b bs)
  obtain a e where b: "b = (a, e)" by (cases b)
  obtain c cs' where cs: "cs = c # cs'" "chunk_of path s (n, a, e) c"
    "list_all2 (chunk_of path s) (enumerate (Suc n) bs) cs'"
    using Cons.prems(1) b by (auto simp: list_all2_Cons1)
  have ae: "a \<le> p" "p < e" "e \<le> length s"
    using Cons.prems(3,5,6) b by (auto simp: fits_def boundary_le)
  have first: "drop (p - a) (take (e - a) (drop a s)) = take (e - p) (drop p s)"
    using ae by (simp add: drop_take)
  have rest: "reassemble e cs' = drop e s"
  proof (cases bs)
    case Nil
    then show ?thesis using Cons.prems(7) b cs by simp
  next
    case (Cons d ds)
    then show ?thesis
      using Cons.IH [OF cs(3), of e] Cons.prems b by (auto simp: follows_def)
  qed
  have "take (e - p) (drop p s) @ drop e s = drop p s"
    using ae append_take_drop_id [of "e - p" "drop p s"] by simp
  then show ?case using cs first rest by (simp add: chunk_of_def)
qed simp

lemma analyze_chunks:
  assumes "utf8_valid source" and "source \<noteq> []"
    and "length source + target_chars (generic_new t v) \<le> usize_max"
  obtains bs cs where
    "chunk_boundaries source (target_chars (generic_new t v)) (overlap_chars (generic_new t v))
      = Some (Inr bs)"
    and "bs \<noteq> []" and "snd (last bs) = length source"
    and "chunked source (target_chars (generic_new t v)) (overlap_chars (generic_new t v)) bs"
    and "generic_analyze (generic_new t v) path source = Some (Inr (chunks_only cs))"
    and "list_all2 (chunk_of (to_slashes path) source) (enumerate 0 bs) cs"
proof -
  let ?t = "target_chars (generic_new t v)" and ?v = "overlap_chars (generic_new t v)"
  obtain bs where bs: "chunk_boundaries source ?t ?v = Some (Inr bs)" "bs \<noteq> []"
    "chunked source ?t ?v bs" "snd (last bs) = length source"
    using chunk_boundaries_result [OF assms generic_new_bounds] by blast
  obtain cs where cs: "try_map (text_chunk (to_slashes path) source) (enumerate 0 bs) = Inr cs"
    "list_all2 (chunk_of (to_slashes path) source) (enumerate 0 bs) cs"
    using text_chunks_Inr [of source ?t bs "to_slashes path" 0] bs(3) by (auto simp: chunked_def)
  have "generic_analyze (generic_new t v) path source = Some (Inr (chunks_only cs))"
    using assms(2) bs(1) cs(1) by (simp add: generic_analyze_def)
  then show thesis using that bs cs by blast
qed

section \<open>Properties\<close>

text \<open>C30. Cutting a text always ends, without a panic, and loses nothing: for any well-formed
  text whose length plus the target size fits in a \<open>usize\<close>, and whatever target and overlap are
  configured, the analyzer returns chunks whose texts, without what each repeats of the one
  before, are together the text itself.\<close>

theorem generic_analysis_covers:
  assumes "utf8_valid source"
    and "length source + target_chars (generic_new target overlap) \<le> usize_max"
  shows "\<exists>cs. generic_analyze (generic_new target overlap) path source = Some (Inr (chunks_only cs))
    \<and> reassemble 0 cs = source"
proof (cases "source = []")
  case True
  then show ?thesis by (auto simp: generic_analyze_def intro: exI [of _ "[]"])
next
  case False
  then obtain bs cs
    where bs: "bs \<noteq> []" "snd (last bs) = length source"
      and ch: "chunked source (target_chars (generic_new target overlap))
        (overlap_chars (generic_new target overlap)) bs"
      and run: "generic_analyze (generic_new target overlap) path source
        = Some (Inr (chunks_only cs))"
      and cs: "list_all2 (chunk_of (to_slashes path) source) (enumerate 0 bs) cs"
    using analyze_chunks [OF assms(1) False assms(2), of path] by metis
  have "fst (hd bs) = 0" and "0 < snd (hd bs)"
      using ch bs(1) by (cases bs; auto simp: chunked_def fits_def)+
  then have "reassemble 0 cs = drop 0 source"
    using reassemble_chunks [OF cs, of _ _ 0] ch bs by (auto simp: chunked_def)
  then show ?thesis using run by auto
qed

theorem generic_analysis_covers_witness:
  "\<exists>cs. generic_analyze (generic_new 4 1) ''notes.md'' ''# ab cd ef'' = Some (Inr (chunks_only cs))
    \<and> reassemble 0 cs = ''# ab cd ef''"
  by (rule generic_analysis_covers) code_simp+

text \<open>The shape of the cuts: the first chunk starts the text and the last one ends it; every
  chunk is a nonempty range between character boundaries, at most the target long unless a single
  character reaches past it; and each following chunk starts later, leaves no gap, repeats at most
  the overlap and ends later.\<close>

theorem generic_chunk_bounds:
  assumes "utf8_valid source" and "source \<noteq> []"
    and "length source + target_chars (generic_new t v) \<le> usize_max"
    and "chunk_boundaries source (target_chars (generic_new t v)) (overlap_chars (generic_new t v))
      = Some (Inr bs)"
  shows "bs \<noteq> [] \<and> fst (hd bs) = 0 \<and> snd (last bs) = length source
    \<and> list_all (fits source (target_chars (generic_new t v))) bs
    \<and> successively (follows (overlap_chars (generic_new t v))) bs"
  using chunk_boundaries_result [OF assms(1-3) generic_new_bounds] assms(4)
  by (auto simp: chunked_def)

theorem generic_chunk_bounds_witness:
  "[(0, 4), (3, 7), (6, 8)] \<noteq> ([] :: (nat \<times> nat) list)
   \<and> list_all (fits ''abcdefgh'' 4) [(0, 4), (3, 7), (6, 8)]
   \<and> successively (follows 1) [(0, 4), (3, 7), (6, 8)]"
proof -
  have "chunk_boundaries ''abcdefgh'' (target_chars (generic_new 4 1))
      (overlap_chars (generic_new 4 1)) = Some (Inr [(0, 4), (3, 7), (6, 8)])"
    and "utf8_valid ''abcdefgh''"
    and "length ''abcdefgh'' + target_chars (generic_new 4 1) \<le> usize_max"
    by code_simp+
  from generic_chunk_bounds [OF this(2) _ this(3) this(1)] show ?thesis
    by (simp add: generic_new_def)
qed

text \<open>Every chunk carries its own text and place: its content is the text between its byte
  offsets, its lines are counted from the start of the text, and its key, which names the path and
  the chunk's index, is that of no other chunk.\<close>

theorem generic_chunks_located:
  assumes "utf8_valid source"
    and "length source + target_chars (generic_new target overlap) \<le> usize_max"
    and "generic_analyze (generic_new target overlap) path source = Some (Inr result)"
  shows "distinct (map chunk_stable_key (result_chunks result))
    \<and> (\<forall>c \<in> set (result_chunks result).
         chunk_content c
           = take (chunk_end_byte c - chunk_start_byte c) (drop (chunk_start_byte c) source)
         \<and> chunk_start_line c = 1 + newlines (take (chunk_start_byte c) source)
         \<and> chunk_end_line c = 1 + newlines (take (chunk_end_byte c) source))"
proof (cases "source = []")
  case True
  then show ?thesis using assms(3) by (auto simp: generic_analyze_def chunks_only_def)
next
  case False
  then obtain bs cs where "generic_analyze (generic_new target overlap) path source
        = Some (Inr (chunks_only cs))"
      and cs: "list_all2 (chunk_of (to_slashes path) source) (enumerate 0 bs) cs"
    using analyze_chunks [OF assms(1) False assms(2), of path] by metis
  then have res: "result_chunks result = cs" using assms(3) by (auto simp: chunks_only_def)
  have nth: "i < length cs \<Longrightarrow> chunk_of (to_slashes path) source (i, bs ! i) (cs ! i)" for i
    using list_all2_nthD2 [OF cs, of i] list_all2_lengthD [OF cs] by (simp add: nth_enumerate_eq)
  have "chunk_stable_key (cs ! i) = to_slashes path @ ''::text:'' @ digits i"
    if "i < length cs" for i
    using nth [OF that] by (cases "bs ! i") (simp add: chunk_of_def)
  then have "distinct (map chunk_stable_key cs)" by (simp add: distinct_conv_nth)
  moreover have "\<forall>c \<in> set cs. \<exists>x. chunk_of (to_slashes path) source x c"
    using nth by (metis in_set_conv_nth)
  ultimately show ?thesis by (auto simp: res chunk_of_def)
qed


theorem generic_chunks_located_witness:
  "\<exists>result. generic_analyze (generic_new 4 0) ''a'' (''ab'' @ [newline] @ ''cde'') = Some (Inr result)
    \<and> distinct (map chunk_stable_key (result_chunks result))
    \<and> map chunk_start_line (result_chunks result) = [1, 2]"
proof -
  let ?s = "''ab'' @ [newline] @ ''cde''"
  obtain result where run: "generic_analyze (generic_new 4 0) ''a'' ?s = Some (Inr result)"
    and lines: "map chunk_start_line (result_chunks result) = [1, 2]"
  proof
    show "generic_analyze (generic_new 4 0) ''a'' ?s
        = Some (Inr (projr (the (generic_analyze (generic_new 4 0) ''a'' ?s))))"
      and "map chunk_start_line (result_chunks
        (projr (the (generic_analyze (generic_new 4 0) ''a'' ?s)))) = [1, 2]"
      by code_simp+
  qed
  have "utf8_valid ?s" and "length ?s + target_chars (generic_new 4 0) \<le> usize_max"
    by code_simp+
  from generic_chunks_located [OF this run]
  have "distinct (map chunk_stable_key (result_chunks result))" ..
  with run lines show ?thesis by (intro exI [of _ result] conjI)
qed

end
