(* ===== verification/GraphReconciliation.thy ===== *)
theory GraphReconciliation
  imports GraphStore
begin

text \<open>
  What a reconciliation writes: the batch that the indexer hands to \<open>apply_graph_reconciliation\<close>,
  its validation, and the statements that change the graph's own tables, from
  \<open>src/storage/repositories.rs\<close> and the tables, triggers and cascades of
  \<open>migrations/0005_graph_domain.sql\<close> and \<open>migrations/0006_graph_repair_generations.sql\<close>.  Each
  statement returns the new database or the error that aborts the transaction.  The references to
  \<open>workspaces\<close> hold because the workspace has a revision row, and the checks on segment columns
  because of \<open>graph_source_segment_bindings\<close>.  \<open>serde_json::to_string\<close> is a parameter.  Which
  batches get this far is the subject of \<open>GraphLifecycle\<close>.
\<close>

section \<open>The batch\<close>

record unresolved_relationship =
  rel_id :: string
  rel_workspace_id :: string
  rel_source_document_id :: string
  rel_key :: string
  rel_from_node :: "string option"
  rel_from_stable_key :: string
  rel_edge_type :: graph_edge_type
  rel_target_kind :: relationship_target_kind
  rel_target_value :: string
  rel_confidence :: f32
  rel_analyzer_id :: string
  rel_analyzer_version :: string
  rel_structure_version :: string
  rel_source_segment :: "source_segment option"
  rel_content_revision :: int
  rel_metadata :: json
  rel_created_at :: timestamp
  rel_updated_at :: timestamp

type_synonym graph_relationship_fact = unresolved_relationship

record graph_analysis_expectation =
  expected_document_id :: string
  expected_analyzer_id :: string
  expected_analyzer_version :: string
  expected_structure_version :: string

record graph_relationship_identity =
  identity_document_id :: string
  identity_key :: string

record unresolved_graph_projection =
  projection_relationship :: unresolved_relationship
  projection_candidates :: "string list"

record graph_reconciliation_batch =
  batch_workspace_id :: string
  batch_target_revision :: int
  batch_expected_updated_at :: "timestamp option"
  batch_update_started_at :: "timestamp option"
  batch_repair_generation :: "string option"
  batch_delete_path :: "string option"
  batch_source_document :: "string option"
  batch_nodes :: "graph_node list"
  batch_facts :: "graph_relationship_fact list"
  batch_analysis_state :: "graph_analysis_state option"
  batch_expected_analysis :: "graph_analysis_expectation list"
  batch_affected :: "graph_relationship_identity list"
  batch_edges :: "graph_edge list"
  batch_unresolved :: "unresolved_graph_projection list"

type_synonym json_writer = "json \<Rightarrow> string + string"

section \<open>Validation\<close>

text \<open>A loop that rejects a bad element and a key it has seen.\<close>

definition scan_keys :: "('a \<Rightarrow> bool) \<Rightarrow> ('a \<Rightarrow> 'k) \<Rightarrow> string \<Rightarrow> 'a list \<Rightarrow> cortex_error + 'k list" where
  "scan_keys ok key message =
     try_fold (\<lambda>seen x. if \<not> ok x \<or> key x \<in> set seen then Inl (AnalysisErr message)
       else Inr (key x # seen)) []"

definition ownership_token :: "graph_reconciliation_batch \<Rightarrow> bool" where
  "ownership_token b \<longleftrightarrow>
     (case (batch_delete_path b, batch_expected_updated_at b, batch_update_started_at b) of
        (Some _, Some _, None) \<Rightarrow> True | (None, None, Some _) \<Rightarrow> True | _ \<Rightarrow> False)"

definition expectation_ok :: "graph_analysis_expectation \<Rightarrow> bool" where
  "expectation_ok x \<longleftrightarrow> \<not> blank (expected_document_id x) \<and> \<not> blank (expected_analyzer_id x)
     \<and> \<not> blank (expected_analyzer_version x) \<and> \<not> blank (expected_structure_version x)"

type_synonym identity = "string \<times> string"

definition check_edge ::
    "graph_reconciliation_batch \<Rightarrow> identity list \<Rightarrow> identity list \<times> string list \<Rightarrow> graph_edge
      \<Rightarrow> cortex_error + identity list \<times> string list" where
  "check_edge b affected = (\<lambda>(projected, edge_ids) e.
     and_then (ok_or (edge_source_document_id e)
       (AnalysisErr ''resolved graph projections require source ownership'')) (\<lambda>source.
     let identity = (source, edge_relationship_key e)
     in if edge_workspace_id e \<noteq> batch_workspace_id b \<or> identity \<notin> set affected
           \<or> identity \<in> set projected \<or> edge_id e \<in> set edge_ids
        then Inl (AnalysisErr
          ''resolved graph projections do not match the affected relationship set'')
        else Inr (identity # projected, edge_id e # edge_ids)))"

definition check_unresolved ::
    "graph_reconciliation_batch \<Rightarrow> identity list \<Rightarrow> identity list \<times> string list
      \<Rightarrow> unresolved_graph_projection \<Rightarrow> cortex_error + identity list \<times> string list" where
  "check_unresolved b affected = (\<lambda>(projected, unresolved_ids) p.
     let r = projection_relationship p; identity = (rel_source_document_id r, rel_key r)
     in if rel_workspace_id r \<noteq> batch_workspace_id b \<or> identity \<notin> set affected
           \<or> identity \<in> set projected \<or> rel_id r \<in> set unresolved_ids
           \<or> \<not> distinct (projection_candidates p)
        then Inl (AnalysisErr
          ''unresolved graph projections do not match the affected relationship set'')
        else Inr (identity # projected, rel_id r # unresolved_ids))"

definition validate_graph_reconciliation_batch ::
    "graph_reconciliation_batch \<Rightarrow> cortex_error + unit" where
  "validate_graph_reconciliation_batch b =
     and_then (ensure (\<not> blank (batch_workspace_id b) \<and> 0 \<le> batch_target_revision b)
       (AnalysisErr ''graph reconciliation requires a workspace and non-negative target revision'')) (\<lambda>_.
     and_then (ensure (\<not> (batch_delete_path b \<noteq> None \<and> batch_source_document b \<noteq> None))
       (AnalysisErr ''graph reconciliation cannot update and delete a source document together'')) (\<lambda>_.
     and_then (ensure (ownership_token b)
       (AnalysisErr ''graph reconciliation has an invalid snapshot ownership token'')) (\<lambda>_.
     and_then (scan_keys (\<lambda>n. node_workspace_id n = batch_workspace_id b
         \<and> node_document_id n = batch_source_document b) node_stable_key
       ''graph reconciliation contains invalid or duplicate source nodes'' (batch_nodes b)) (\<lambda>_.
     and_then (scan_keys (\<lambda>f. rel_workspace_id f = batch_workspace_id b
         \<and> Some (rel_source_document_id f) = batch_source_document b) rel_key
       ''graph reconciliation contains invalid or duplicate source facts'' (batch_facts b)) (\<lambda>_.
     and_then (ensure (case batch_analysis_state b of None \<Rightarrow> True
         | Some s \<Rightarrow> analysis_workspace_id s = batch_workspace_id b
             \<and> Some (analysis_document_id s) = batch_source_document b)
       (AnalysisErr ''graph analysis state does not match its reconciliation target'')) (\<lambda>_.
     and_then (scan_keys expectation_ok expected_document_id
       ''graph reconciliation contains invalid analysis expectations''
       (batch_expected_analysis b)) (\<lambda>_.
     and_then (scan_keys (\<lambda>_. True) (\<lambda>i. (identity_document_id i, identity_key i))
       ''graph reconciliation contains duplicate affected relationships'' (batch_affected b)) (\<lambda>affected.
     and_then (try_fold (check_edge b affected) ([], []) (batch_edges b)) (\<lambda>(projected, _).
     and_then (try_fold (check_unresolved b affected) (projected, []) (batch_unresolved b)) (\<lambda>_.
     Inr ()))))))))))"

section \<open>Deleting rows\<close>

text \<open>A \<open>DELETE\<close> with the cascades of the tables that refer to the rows.\<close>

definition delete_edges :: "(graph_edge_row \<Rightarrow> bool) \<Rightarrow> graph_db \<Rightarrow> graph_db" where
  "delete_edges P db = db\<lparr>db_edges := filter (\<lambda>r. \<not> P r) (db_edges db)\<rparr>"

definition delete_unresolved :: "(relationship_row \<Rightarrow> bool) \<Rightarrow> graph_db \<Rightarrow> graph_db" where
  "delete_unresolved P db =
     (let gone = map (\<lambda>r. (fr_id r, fr_workspace_id r)) (filter P (db_unresolved db))
      in db\<lparr>db_unresolved := filter (\<lambda>r. \<not> P r) (db_unresolved db),
            db_candidates := filter (\<lambda>c. (ur_relationship_id c, ur_workspace_id c) \<notin> set gone)
              (db_candidates db)\<rparr>)"

definition delete_facts :: "(relationship_row \<Rightarrow> bool) \<Rightarrow> graph_db \<Rightarrow> graph_db" where
  "delete_facts P db =
     (let gone = map (\<lambda>r. (Some (fr_id r), fr_workspace_id r)) (filter P (db_facts db))
      in delete_edges (\<lambda>e. (er_relationship_fact_id e, er_workspace_id e) \<in> set gone)
           (db\<lparr>db_facts := filter (\<lambda>r. \<not> P r) (db_facts db)\<rparr>))"

definition forget_source :: "string list \<Rightarrow> relationship_row \<Rightarrow> relationship_row" where
  "forget_source gone r =
     (if fr_from_node r \<in> Some ` set gone then r\<lparr>fr_from_node := None\<rparr> else r)"

definition delete_nodes :: "(graph_node_row \<Rightarrow> bool) \<Rightarrow> graph_db \<Rightarrow> graph_db" where
  "delete_nodes P db =
     (let rows = filter P (db_nodes db);
          gone = map (\<lambda>r. (nr_id r, nr_workspace_id r)) rows;
          db1 = delete_edges (\<lambda>e. (er_from_node e, er_workspace_id e) \<in> set gone
            \<or> (er_to_node e, er_workspace_id e) \<in> set gone) db
      in db1\<lparr>db_nodes := filter (\<lambda>r. \<not> P r) (db_nodes db1),
             db_candidates := filter (\<lambda>c. (ur_node_id c, ur_workspace_id c) \<notin> set gone)
               (db_candidates db1),
             db_facts := map (forget_source (map nr_id rows)) (db_facts db1),
             db_unresolved := map (forget_source (map nr_id rows)) (db_unresolved db1)\<rparr>)"

definition delete_chunks :: "(chunk_range \<Rightarrow> bool) \<Rightarrow> graph_db \<Rightarrow> graph_db" where
  "delete_chunks P db =
     (let gone = map cr_id (filter P (db_chunks db))
      in db\<lparr>db_chunks := filter (\<lambda>c. \<not> P c) (db_chunks db),
            db_nodes := map (\<lambda>n. if nr_chunk_id n \<in> Some ` set gone then n\<lparr>nr_chunk_id := None\<rparr>
              else n) (db_nodes db)\<rparr>)"

definition delete_document :: "string \<Rightarrow> string \<Rightarrow> graph_db \<Rightarrow> nat \<times> graph_db" where
  "delete_document workspace path db =
     (let P = \<lambda>d. document_workspace_id d = workspace \<and> document_relative_path d = path;
          rows = filter P (db_documents db);
          gone = map (\<lambda>d. (document_id d, document_workspace_id d)) rows;
          optional = map (\<lambda>(d, w). (Some d, w)) gone;
          db1 = db\<lparr>db_documents := filter (\<lambda>d. \<not> P d) (db_documents db),
            db_analysis := filter (\<lambda>s. (analysis_document_id s, analysis_workspace_id s) \<notin> set gone)
              (db_analysis db),
            db_projections := filter (\<lambda>p. (pr_document_id p, pr_workspace_id p) \<notin> set gone)
              (db_projections db)\<rparr>
      in (length rows,
          delete_chunks (\<lambda>c. cr_document_id c \<in> set (map document_id rows))
            (delete_unresolved (\<lambda>r. (fr_source_document_id r, fr_workspace_id r) \<in> set gone)
              (delete_edges (\<lambda>e. (er_source_document_id e, er_workspace_id e) \<in> set optional)
                (delete_facts (\<lambda>r. (fr_source_document_id r, fr_workspace_id r) \<in> set gone)
                  (delete_nodes (\<lambda>n. (nr_document_id n, nr_workspace_id n) \<in> set optional)
                    db1))))))"

section \<open>Rows of values\<close>

definition graph_source_segment_bindings ::
    "source_segment option \<Rightarrow> cortex_error + string option \<times> int option \<times> int option" where
  "graph_source_segment_bindings segment =
     (case segment of
        None \<Rightarrow> Inr (None, None, None)
      | Some s \<Rightarrow>
          and_then (ensure (segment_start_byte s \<le> i64_max)
            (AnalysisErr ''graph source segment start exceeds SQLite range'')) (\<lambda>_.
          and_then (ensure (segment_end_byte s \<le> i64_max)
            (AnalysisErr ''graph source segment end exceeds SQLite range'')) (\<lambda>_.
          and_then (ensure (segment_start_byte s \<le> segment_end_byte s)
            (AnalysisErr ''graph source segment ends before it starts'')) (\<lambda>_.
          Inr (Some (segment_source s), Some (int (segment_start_byte s)),
            Some (int (segment_end_byte s)))))))"

definition json_text :: "json_writer \<Rightarrow> json \<Rightarrow> cortex_error + string" where
  "json_text to_text j = (case to_text j of Inl e \<Rightarrow> Inl (SerializationErr e) | Inr s \<Rightarrow> Inr s)"

definition row_of_node :: "json_writer \<Rightarrow> graph_node \<Rightarrow> cortex_error + graph_node_row" where
  "row_of_node to_text n =
     and_then (graph_source_segment_bindings (node_source_segment n)) (\<lambda>(path, start, e).
     and_then (json_text to_text (node_metadata n)) (\<lambda>metadata.
     Inr \<lparr>nr_id = node_id n, nr_workspace_id = node_workspace_id n,
       nr_node_type = node_type_storage_name (node_type_of n),
       nr_stable_key = node_stable_key n, nr_language = node_language n, nr_name = node_name n,
       nr_qualified_name = node_qualified_name n, nr_document_id = node_document_id n,
       nr_chunk_id = node_chunk_id n, nr_source_path = path, nr_source_start_byte = start,
       nr_source_end_byte = e, nr_analyzer_id = node_analyzer_id n,
       nr_analyzer_version = node_analyzer_version n,
       nr_structure_version = node_structure_version n,
       nr_content_revision = node_content_revision n, nr_metadata_json = metadata,
       nr_created_at = node_created_at n, nr_updated_at = node_updated_at n\<rparr>))"

definition row_of_edge :: "json_writer \<Rightarrow> graph_edge \<Rightarrow> cortex_error + graph_edge_row" where
  "row_of_edge to_text e =
     and_then (graph_source_segment_bindings (edge_source_segment e)) (\<lambda>(path, start, t).
     and_then (json_text to_text (edge_metadata e)) (\<lambda>metadata.
     Inr \<lparr>er_id = edge_id e, er_workspace_id = edge_workspace_id e,
       er_relationship_key = edge_relationship_key e,
       er_relationship_fact_id = edge_relationship_fact_id e,
       er_from_node = edge_from_node e, er_to_node = edge_to_node e,
       er_edge_type = edge_type_storage_name (edge_type_of e),
       er_confidence = edge_confidence e, er_analyzer_id = edge_analyzer_id e,
       er_analyzer_version = edge_analyzer_version e,
       er_structure_version = edge_structure_version e,
       er_source_document_id = edge_source_document_id e, er_source_path = path,
       er_source_start_byte = start, er_source_end_byte = t,
       er_content_revision = edge_content_revision e, er_metadata_json = metadata,
       er_created_at = edge_created_at e\<rparr>))"

definition row_of_relationship ::
    "json_writer \<Rightarrow> unresolved_relationship \<Rightarrow> cortex_error + relationship_row" where
  "row_of_relationship to_text r =
     and_then (graph_source_segment_bindings (rel_source_segment r)) (\<lambda>(path, start, e).
     and_then (json_text to_text (rel_metadata r)) (\<lambda>metadata.
     Inr \<lparr>fr_id = rel_id r, fr_workspace_id = rel_workspace_id r,
       fr_source_document_id = rel_source_document_id r, fr_relationship_key = rel_key r,
       fr_from_node = rel_from_node r, fr_from_stable_key = rel_from_stable_key r,
       fr_edge_type = edge_type_storage_name (rel_edge_type r),
       fr_target_kind = target_kind_storage_name (rel_target_kind r),
       fr_target_value = rel_target_value r, fr_confidence = rel_confidence r,
       fr_analyzer_id = rel_analyzer_id r, fr_analyzer_version = rel_analyzer_version r,
       fr_structure_version = rel_structure_version r, fr_source_path = path,
       fr_source_start_byte = start, fr_source_end_byte = e,
       fr_content_revision = rel_content_revision r, fr_metadata_json = metadata,
       fr_created_at = rel_created_at r, fr_updated_at = rel_updated_at r\<rparr>))"

section \<open>Inserting rows\<close>

definition document_known :: "string option \<Rightarrow> string \<Rightarrow> graph_db \<Rightarrow> bool" where
  "document_known document workspace db \<longleftrightarrow>
     (case document of None \<Rightarrow> True
      | Some d \<Rightarrow> (d, workspace) \<in> set (map (\<lambda>x. (document_id x, document_workspace_id x))
          (db_documents db)))"

definition node_known :: "string \<Rightarrow> string \<Rightarrow> graph_db \<Rightarrow> bool" where
  "node_known node workspace db \<longleftrightarrow>
     (node, workspace) \<in> set (map (\<lambda>n. (nr_id n, nr_workspace_id n)) (db_nodes db))"

definition source_known :: "string option \<Rightarrow> string \<Rightarrow> graph_db \<Rightarrow> bool" where
  "source_known node workspace db \<longleftrightarrow>
     (case node of None \<Rightarrow> True | Some n \<Rightarrow> node_known n workspace db)"

text \<open>The trigger on the chunk of a node.\<close>

definition chunk_belongs :: "graph_node_row \<Rightarrow> graph_db \<Rightarrow> bool" where
  "chunk_belongs n db \<longleftrightarrow>
     (case nr_chunk_id n of None \<Rightarrow> True
      | Some c \<Rightarrow> list_ex (\<lambda>r. cr_id r = c \<and> Some (cr_document_id r) = nr_document_id n
          \<and> list_ex (\<lambda>d. document_id d = cr_document_id r
              \<and> document_workspace_id d = nr_workspace_id n) (db_documents db)) (db_chunks db))"

text \<open>\<open>INSERT ... ON CONFLICT(key) DO UPDATE\<close>: \<open>keep\<close> says what an updated row keeps.  The row of
  another key may not have the new row's primary key.\<close>

definition upsert_row ::
    "('r \<Rightarrow> 'k) \<Rightarrow> ('r \<Rightarrow> 'p) \<Rightarrow> ('r \<Rightarrow> 'r \<Rightarrow> 'r) \<Rightarrow> 'r \<Rightarrow> 'r list \<Rightarrow> cortex_error + 'r list" where
  "upsert_row key primary keep new rows =
     (if list_ex (\<lambda>r. key r = key new) rows
      then Inr (map (\<lambda>r. if key r = key new then keep r new else r) rows)
      else if list_ex (\<lambda>r. primary r = primary new) rows then Inl (constraint_failed ''UNIQUE'')
      else Inr (rows @ [new]))"

definition upsert_node :: "json_writer \<Rightarrow> string \<Rightarrow> string \<Rightarrow> graph_db \<Rightarrow> graph_node \<Rightarrow> cortex_error + graph_db" where
  "upsert_node to_text workspace document db node =
     and_then (ensure (list_all (\<lambda>r. nr_workspace_id r = workspace \<and> nr_stable_key r = node_stable_key node
         \<longrightarrow> nr_document_id r = Some document) (db_nodes db))
       (AnalysisErr (''graph node stable key '' @ node_stable_key node
         @ '' is already owned by another document''))) (\<lambda>_.
     and_then (row_of_node to_text node) (\<lambda>row.
     and_then (ensure (chunk_belongs row db)
       (StorageErr ''graph node chunk must belong to node document and workspace'')) (\<lambda>_.
     and_then (ensure (0 \<le> nr_content_revision row) (constraint_failed ''CHECK'')) (\<lambda>_.
     and_then (upsert_row (\<lambda>r. (nr_workspace_id r, nr_stable_key r)) nr_id
       (\<lambda>old new. new\<lparr>nr_id := nr_id old, nr_created_at := nr_created_at old\<rparr>) row (db_nodes db)) (\<lambda>rows.
     and_then (ensure (document_known (nr_document_id row) (nr_workspace_id row) db)
       (constraint_failed ''FOREIGN KEY'')) (\<lambda>_.
     Inr (db\<lparr>db_nodes := rows\<rparr>)))))))"

text \<open>The checks that the tables of facts and of unresolved relationships share.\<close>

definition relationship_admitted :: "string \<Rightarrow> relationship_row \<Rightarrow> graph_db \<Rightarrow> cortex_error + unit" where
  "relationship_admitted what r db =
     and_then (ensure (source_known (fr_from_node r) (fr_workspace_id r) db)
       (StorageErr (what @ '' source node must belong to workspace''))) (\<lambda>_.
     and_then (ensure (in_unit (fr_confidence r) \<and> 0 \<le> fr_content_revision r)
       (constraint_failed ''CHECK'')) (\<lambda>_.
     ensure (document_known (Some (fr_source_document_id r)) (fr_workspace_id r) db)
       (constraint_failed ''FOREIGN KEY'')))"

definition relationship_identity :: "relationship_row \<Rightarrow> string \<times> string \<times> string" where
  "relationship_identity r = (fr_workspace_id r, fr_source_document_id r, fr_relationship_key r)"

definition upsert_fact :: "json_writer \<Rightarrow> graph_db \<Rightarrow> graph_relationship_fact \<Rightarrow> cortex_error + graph_db" where
  "upsert_fact to_text db f =
     and_then (row_of_relationship to_text f) (\<lambda>row.
     and_then (relationship_admitted ''graph relationship fact'' row db) (\<lambda>_.
     and_then (upsert_row relationship_identity fr_id
       (\<lambda>old new. new\<lparr>fr_id := fr_id old, fr_created_at := fr_created_at old\<rparr>) row (db_facts db)) (\<lambda>rows.
     Inr (db\<lparr>db_facts := rows\<rparr>))))"

definition insert_edge :: "json_writer \<Rightarrow> graph_db \<Rightarrow> graph_edge \<Rightarrow> cortex_error + graph_db" where
  "insert_edge to_text db e =
     and_then (row_of_edge to_text e) (\<lambda>row.
     and_then (ensure (in_unit (er_confidence row) \<and> 0 \<le> er_content_revision row)
       (constraint_failed ''CHECK'')) (\<lambda>_.
     and_then (ensure (list_all (\<lambda>r. er_id r \<noteq> er_id row
         \<and> (er_workspace_id r, er_relationship_key r) \<noteq> (er_workspace_id row, er_relationship_key row))
         (db_edges db)) (constraint_failed ''UNIQUE'')) (\<lambda>_.
     and_then (ensure ((case er_relationship_fact_id row of None \<Rightarrow> True
           | Some f \<Rightarrow> (f, er_workspace_id row)
               \<in> set (map (\<lambda>r. (fr_id r, fr_workspace_id r)) (db_facts db)))
         \<and> node_known (er_from_node row) (er_workspace_id row) db
         \<and> node_known (er_to_node row) (er_workspace_id row) db
         \<and> document_known (er_source_document_id row) (er_workspace_id row) db)
       (constraint_failed ''FOREIGN KEY'')) (\<lambda>_.
     Inr (db\<lparr>db_edges := db_edges db @ [row]\<rparr>)))))"

definition insert_candidate ::
    "string \<Rightarrow> string \<Rightarrow> timestamp \<Rightarrow> graph_db \<Rightarrow> string \<Rightarrow> cortex_error + graph_db" where
  "insert_candidate relationship workspace created_at db node =
     and_then (ensure (list_all (\<lambda>c. (ur_relationship_id c, ur_node_id c) \<noteq> (relationship, node))
         (db_candidates db)) (constraint_failed ''UNIQUE'')) (\<lambda>_.
     and_then (ensure ((relationship, workspace)
           \<in> set (map (\<lambda>r. (fr_id r, fr_workspace_id r)) (db_unresolved db))
         \<and> node_known node workspace db) (constraint_failed ''FOREIGN KEY'')) (\<lambda>_.
     Inr (db\<lparr>db_candidates := db_candidates db @
       [\<lparr>ur_relationship_id = relationship, ur_workspace_id = workspace, ur_node_id = node,
         ur_created_at = created_at\<rparr>]\<rparr>)))"

definition insert_unresolved ::
    "json_writer \<Rightarrow> string \<Rightarrow> timestamp \<Rightarrow> graph_db \<Rightarrow> unresolved_graph_projection
      \<Rightarrow> cortex_error + graph_db" where
  "insert_unresolved to_text workspace updated_at db p =
     (let r = projection_relationship p
      in and_then (row_of_relationship to_text r) (\<lambda>row.
         and_then (relationship_admitted ''unresolved relationship'' row db) (\<lambda>_.
         and_then (ensure (list_all (\<lambda>u. fr_id u \<noteq> fr_id row
             \<and> relationship_identity u \<noteq> relationship_identity row) (db_unresolved db))
           (constraint_failed ''UNIQUE'')) (\<lambda>_.
         try_fold (insert_candidate (rel_id r) workspace updated_at)
           (db\<lparr>db_unresolved := db_unresolved db @ [row]\<rparr>) (projection_candidates p)))))"

definition upsert_analysis_state :: "graph_analysis_state \<Rightarrow> graph_db \<Rightarrow> cortex_error + graph_db" where
  "upsert_analysis_state s db =
     and_then (ensure (0 \<le> analysis_content_revision s) (constraint_failed ''CHECK'')) (\<lambda>_.
     and_then (upsert_row analysis_document_id analysis_document_id (\<lambda>_ new. new) s (db_analysis db)) (\<lambda>rows.
     and_then (ensure (document_known (Some (analysis_document_id s)) (analysis_workspace_id s) db)
       (constraint_failed ''FOREIGN KEY'')) (\<lambda>_.
     Inr (db\<lparr>db_analysis := rows\<rparr>))))"

definition manifest_of :: "graph_db \<Rightarrow> graph_analysis_state \<Rightarrow> projection_row" where
  "manifest_of db s =
     (let owns = \<lambda>workspace document. workspace = analysis_workspace_id s
        \<and> document = analysis_document_id s
      in \<lparr>pr_document_id = analysis_document_id s, pr_workspace_id = analysis_workspace_id s,
          pr_content_revision = analysis_content_revision s,
          pr_analyzer_id = analysis_analyzer_id s,
          pr_analyzer_version = analysis_analyzer_version s,
          pr_structure_version = analysis_structure_version s,
          pr_node_count = row_count (\<lambda>n. nr_workspace_id n = analysis_workspace_id s
            \<and> nr_document_id n = Some (analysis_document_id s)) (db_nodes db),
          pr_fact_count = row_count (\<lambda>f. owns (fr_workspace_id f) (fr_source_document_id f)) (db_facts db),
          pr_edge_count = row_count (\<lambda>e. er_workspace_id e = analysis_workspace_id s
            \<and> er_source_document_id e = Some (analysis_document_id s)) (db_edges db),
          pr_unresolved_count = row_count (\<lambda>u. owns (fr_workspace_id u) (fr_source_document_id u))
            (db_unresolved db),
          pr_projected_at = analysis_analyzed_at s\<rparr>)"

definition project_state :: "graph_db \<Rightarrow> graph_analysis_state \<Rightarrow> cortex_error + graph_db" where
  "project_state db s =
     (let row = manifest_of db s
      in and_then (ensure (0 \<le> pr_content_revision row) (constraint_failed ''CHECK'')) (\<lambda>_.
         and_then (upsert_row pr_document_id pr_document_id (\<lambda>_ new. new) row (db_projections db)) (\<lambda>rows.
         and_then (ensure (document_known (Some (pr_document_id row)) (pr_workspace_id row) db)
           (constraint_failed ''FOREIGN KEY'')) (\<lambda>_.
         Inr (db\<lparr>db_projections := rows\<rparr>)))))"

section \<open>The writes of a batch\<close>

definition write_source ::
    "json_writer \<Rightarrow> graph_reconciliation_batch \<Rightarrow> graph_db \<Rightarrow> cortex_error + graph_db" where
  "write_source to_text b db =
     (case batch_source_document b of
        None \<Rightarrow> Inr db
      | Some document \<Rightarrow>
          let workspace = batch_workspace_id b;
              owned = \<lambda>n. nr_workspace_id n = workspace \<and> nr_document_id n = Some document;
              previous_nodes = map nr_stable_key (filter owned (db_nodes db))
          in and_then (try_fold (upsert_node to_text workspace document) db (batch_nodes b)) (\<lambda>db1.
             let sourced = \<lambda>f. fr_workspace_id f = workspace \<and> fr_source_document_id f = document;
                 previous_facts = map fr_relationship_key (filter sourced (db_facts db1))
             in and_then (try_fold (upsert_fact to_text) db1 (batch_facts b)) (\<lambda>db2.
                let db3 = fold (\<lambda>key. delete_facts (\<lambda>f. sourced f \<and> fr_relationship_key f = key))
                      (filter (\<lambda>key. key \<notin> set (map rel_key (batch_facts b))) previous_facts) db2
                in Inr (fold (\<lambda>key. delete_nodes (\<lambda>n. owned n \<and> nr_stable_key n = key))
                      (filter (\<lambda>key. key \<notin> set (map node_stable_key (batch_nodes b)))
                        previous_nodes) db3))))"

definition delete_affected ::
    "string \<Rightarrow> graph_relationship_identity \<Rightarrow> graph_db \<Rightarrow> graph_db" where
  "delete_affected workspace i db =
     delete_unresolved (\<lambda>r. fr_workspace_id r = workspace
         \<and> fr_source_document_id r = identity_document_id i \<and> fr_relationship_key r = identity_key i)
       (delete_edges (\<lambda>e. er_workspace_id e = workspace
         \<and> er_source_document_id e = Some (identity_document_id i)
         \<and> er_relationship_key e = identity_key i) db)"

definition write_reconciliation ::
    "json_writer \<Rightarrow> graph_reconciliation_batch \<Rightarrow> timestamp \<Rightarrow> graph_db \<Rightarrow> cortex_error + graph_db" where
  "write_reconciliation to_text b updated_at db =
     and_then (write_source to_text b db) (\<lambda>db1.
     and_then (try_fold (insert_edge to_text)
       (fold (delete_affected (batch_workspace_id b)) (batch_affected b) db1) (batch_edges b)) (\<lambda>db2.
     and_then (try_fold (insert_unresolved to_text (batch_workspace_id b) updated_at) db2
       (batch_unresolved b)) (\<lambda>db3.
     and_then (case batch_analysis_state b of None \<Rightarrow> Inr db3
       | Some s \<Rightarrow> upsert_analysis_state s db3) (\<lambda>db4.
     try_fold project_state db4 (filter (\<lambda>s. analysis_workspace_id s = batch_workspace_id b)
       (db_analysis db4))))))"

section \<open>What the writes leave alone\<close>

text \<open>Two databases that differ in the graph's own tables only.\<close>

definition same_lifecycle :: "graph_db \<Rightarrow> graph_db \<Rightarrow> bool" where
  "same_lifecycle db db' \<longleftrightarrow>
     db_revisions db' = db_revisions db \<and> db_repairs db' = db_repairs db"

lemma same_refl [simp]: "same_lifecycle db db"
  by (simp add: same_lifecycle_def)

lemma same_trans [trans]:
  "same_lifecycle a b \<Longrightarrow> same_lifecycle b c \<Longrightarrow> same_lifecycle a c"
  by (simp add: same_lifecycle_def)

lemma delete_same [simp]:
  "same_lifecycle db (delete_edges P db)"
  "same_lifecycle db (delete_unresolved P' db)"
  "same_lifecycle db (delete_facts P' db)"
  "same_lifecycle db (delete_nodes N db)"
  "same_lifecycle db (delete_chunks C db)"
  "same_lifecycle db (delete_affected w i db)"
  by (simp_all add: same_lifecycle_def delete_edges_def delete_unresolved_def delete_facts_def
      delete_nodes_def delete_chunks_def delete_affected_def Let_def)

lemma delete_document_same: "same_lifecycle db (snd (delete_document w path db))"
  by (simp add: same_lifecycle_def delete_document_def delete_edges_def delete_unresolved_def
      delete_facts_def delete_nodes_def delete_chunks_def Let_def)

lemma fold_same: "(\<And>x db. same_lifecycle db (f x db)) \<Longrightarrow> same_lifecycle db (fold f xs db)"
  by (induction xs arbitrary: db) (auto intro: same_trans)

lemma try_fold_same:
  assumes "try_fold f db xs = Inr db'" and "\<And>a x b. f a x = Inr b \<Longrightarrow> same_lifecycle a b"
  shows "same_lifecycle db db'"
  using assms(1) same_refl
  by (rule try_fold_inv) (blast intro: same_trans assms(2))

lemma insert_same:
  "upsert_node to_text w d db n = Inr db' \<Longrightarrow> same_lifecycle db db'"
  "upsert_fact to_text db f = Inr db' \<Longrightarrow> same_lifecycle db db'"
  "insert_edge to_text db e = Inr db' \<Longrightarrow> same_lifecycle db db'"
  "insert_candidate r w t db c = Inr db' \<Longrightarrow> same_lifecycle db db'"
  "upsert_analysis_state s db = Inr db' \<Longrightarrow> same_lifecycle db db'"
  "project_state db s = Inr db' \<Longrightarrow> same_lifecycle db db'"
  by (auto simp: same_lifecycle_def upsert_node_def upsert_fact_def insert_edge_def
      insert_candidate_def upsert_analysis_state_def project_state_def Let_def and_then_eq_Inr)

lemma insert_unresolved_same:
  assumes "insert_unresolved to_text w t db p = Inr db'"
  shows "same_lifecycle db db'"
proof -
  obtain row where "try_fold (insert_candidate (rel_id (projection_relationship p)) w t)
      (db\<lparr>db_unresolved := db_unresolved db @ [row]\<rparr>) (projection_candidates p) = Inr db'"
    using assms by (auto simp: insert_unresolved_def Let_def and_then_eq_Inr)
  then have "same_lifecycle (db\<lparr>db_unresolved := db_unresolved db @ [row]\<rparr>) db'"
    by (rule try_fold_same) (rule insert_same(4))
  then show ?thesis by (simp add: same_lifecycle_def)
qed

lemma delete_folds_same [simp]:
  "same_lifecycle db (fold (\<lambda>k. delete_nodes (f k)) ks (fold (\<lambda>l. delete_facts (g l)) ls db))"
proof (rule same_trans)
  show "same_lifecycle db (fold (\<lambda>l. delete_facts (g l)) ls db)" by (rule fold_same) simp
qed (rule fold_same, simp)

lemma write_source_same:
  assumes "write_source to_text b db = Inr db'"
  shows "same_lifecycle db db'"
proof (cases "batch_source_document b")
  case None
  then show ?thesis using assms by (simp add: write_source_def)
next
  case (Some document)
  then obtain db1 db2 where nodes: "try_fold (upsert_node to_text (batch_workspace_id b) document) db
      (batch_nodes b) = Inr db1"
    and facts: "try_fold (upsert_fact to_text) db1 (batch_facts b) = Inr db2"
    and rest: "same_lifecycle db2 db'"
    using assms by (auto simp: write_source_def Let_def and_then_eq_Inr)
  have "same_lifecycle db db1"
    using nodes by (rule try_fold_same) (rule insert_same(1))
  also have "same_lifecycle db1 db2"
    using facts by (rule try_fold_same) (rule insert_same(2))
  also note rest
  finally show ?thesis .
qed

lemma write_reconciliation_same:
  assumes "write_reconciliation to_text b t db = Inr db'"
  shows "same_lifecycle db db'"
proof -
  obtain db1 db2 db3 db4 where source: "write_source to_text b db = Inr db1"
    and edges: "try_fold (insert_edge to_text)
      (fold (delete_affected (batch_workspace_id b)) (batch_affected b) db1) (batch_edges b) = Inr db2"
    and unresolved: "try_fold (insert_unresolved to_text (batch_workspace_id b) t) db2
      (batch_unresolved b) = Inr db3"
    and state: "(case batch_analysis_state b of None \<Rightarrow> Inr db3
      | Some s \<Rightarrow> upsert_analysis_state s db3) = Inr db4"
    and manifests: "try_fold project_state db4
      (filter (\<lambda>s. analysis_workspace_id s = batch_workspace_id b) (db_analysis db4)) = Inr db'"
    using assms by (auto simp: write_reconciliation_def and_then_eq_Inr)
  have "same_lifecycle db db1" using source by (rule write_source_same)
  also have "same_lifecycle db1 (fold (delete_affected (batch_workspace_id b)) (batch_affected b) db1)"
    by (rule fold_same) simp
  also have "same_lifecycle \<dots> db2" using edges by (rule try_fold_same) (rule insert_same(3))
  also have "same_lifecycle db2 db3"
    using unresolved by (rule try_fold_same) (rule insert_unresolved_same)
  also have "same_lifecycle db3 db4"
    using state insert_same(5) by (cases "batch_analysis_state b") simp_all
  also have "same_lifecycle db4 db'"
    using manifests by (rule try_fold_same) (rule insert_same(6))
  finally show ?thesis .
qed

end
