(* ===== verification/GraphLifecycle.thy ===== *)
theory GraphLifecycle
  imports GraphReconciliation
begin

text \<open>
  The life of a workspace's graph: the statements of \<open>src/storage/repositories.rs\<close> that write the
  tables \<open>workspace_graph_revisions\<close> and \<open>workspace_graph_repairs\<close>.  Each operation takes the
  database to its result and the new database; a call that fails leaves the database as it was.
  Repairs are owned by generations under a lease, and a reconciliation is written only by the
  update, the deletion or the repair that still owns the graph.  The step relation lets any caller
  run any operation with any arguments, clocks included, and lets the other tables change freely.
\<close>

section \<open>Statements\<close>

definition update_revisions ::
    "(graph_revision_row \<Rightarrow> bool) \<Rightarrow> (graph_revision_row \<Rightarrow> graph_revision_row) \<Rightarrow> graph_db
      \<Rightarrow> nat \<times> graph_db" where
  "update_revisions P f db =
     (let (n, rows) = update_where P f (db_revisions db) in (n, db\<lparr>db_revisions := rows\<rparr>))"

definition update_repairs ::
    "(graph_repair_row \<Rightarrow> bool) \<Rightarrow> (graph_repair_row \<Rightarrow> graph_repair_row) \<Rightarrow> graph_db
      \<Rightarrow> nat \<times> graph_db" where
  "update_repairs P f db =
     (let (n, rows) = update_where P f (db_repairs db) in (n, db\<lparr>db_repairs := rows\<rparr>))"

definition require_one :: "nat \<Rightarrow> string \<Rightarrow> string \<Rightarrow> cortex_error + unit" where
  "require_one n kind key = ensure (n = 1) (NotFoundErr (kind @ '' '' @ key))"

type_synonym 'a update = "(cortex_error + 'a) \<times> graph_db"

section \<open>Repair ownership\<close>

definition live_repair :: "string \<Rightarrow> string \<Rightarrow> timestamp \<Rightarrow> graph_repair_row \<Rightarrow> bool" where
  "live_repair workspace generation now r \<longleftrightarrow> rr_workspace_id r = workspace
     \<and> rr_generation_id r = generation \<and> rr_state r = ''active'' \<and> now < rr_lease_expires_at r"

definition owns_repair :: "string \<Rightarrow> string \<Rightarrow> int \<Rightarrow> timestamp \<Rightarrow> graph_db \<Rightarrow> bool" where
  "owns_repair workspace generation target now db \<longleftrightarrow>
     (\<exists>r \<in> set (db_repairs db).
        live_repair workspace generation now r \<and> rr_target_revision r = target)"

definition blocking_repair :: "string \<Rightarrow> graph_db \<Rightarrow> bool" where
  "blocking_repair workspace db \<longleftrightarrow>
     (\<exists>r \<in> set (db_repairs db). rr_workspace_id r = workspace
        \<and> rr_state r \<in> {''active'', ''failed'', ''interrupted''})"

text \<open>The condition that most updates share: with a generation, its live repair of the target
  revision; without one, no repair that blocks.\<close>

definition repair_allows :: "string \<Rightarrow> int \<Rightarrow> string option \<Rightarrow> timestamp \<Rightarrow> graph_db \<Rightarrow> bool" where
  "repair_allows workspace target generation now db =
     (case generation of
        Some g \<Rightarrow> owns_repair workspace g target now db
      | None \<Rightarrow> \<not> blocking_repair workspace db)"

section \<open>Revision updates\<close>

definition register_workspace :: "string \<Rightarrow> timestamp \<Rightarrow> graph_db \<Rightarrow> unit update" where
  "register_workspace workspace created_at db =
     (if workspace \<in> vr_workspace_id ` set (db_revisions db)
      then (Inl (constraint_failed ''UNIQUE''), db)
      else (Inr (), db\<lparr>db_revisions := db_revisions db @
        [\<lparr>vr_workspace_id = workspace, vr_content_revision = 0, vr_graph_content_revision = 0,
          vr_graph_schema_version = 1, vr_graph_state = ''current'', vr_update_started_at = None,
          vr_failed_target = None, vr_last_error = None, vr_updated_at = created_at\<rparr>]\<rparr>))"

definition bump_content_revision :: "string \<Rightarrow> timestamp \<Rightarrow> graph_db \<Rightarrow> int update" where
  "bump_content_revision workspace updated_at db =
     (let (n, db') = update_revisions (\<lambda>r. vr_workspace_id r = workspace)
        (\<lambda>r. r\<lparr>vr_content_revision := vr_content_revision r + 1, vr_graph_state := ''stale'',
           vr_update_started_at := None, vr_failed_target := None, vr_last_error := None,
           vr_updated_at := updated_at\<rparr>) db
      in case find (\<lambda>r. vr_workspace_id r = workspace) (db_revisions db') of
           None \<Rightarrow> (Inl (StorageErr ''no rows returned''), db)
         | Some r \<Rightarrow> (Inr (vr_content_revision r), db'))"

definition mark_graph_updating :: "string \<Rightarrow> timestamp \<Rightarrow> graph_db \<Rightarrow> unit update" where
  "mark_graph_updating workspace started_at db =
     (let (n, db') = update_revisions (\<lambda>r. vr_workspace_id r = workspace)
        (\<lambda>r. r\<lparr>vr_graph_state := ''updating'', vr_update_started_at := Some started_at,
           vr_failed_target := None, vr_last_error := None, vr_updated_at := started_at\<rparr>) db
      in (require_one n ''workspace graph revision'' workspace, db'))"

definition mark_graph_updating_if_current ::
    "string \<Rightarrow> int \<Rightarrow> timestamp \<Rightarrow> timestamp \<Rightarrow> string option \<Rightarrow> graph_db \<Rightarrow> bool update" where
  "mark_graph_updating_if_current workspace target expected started_at generation db =
     (let (n, db') = update_revisions (\<lambda>r. vr_workspace_id r = workspace
          \<and> vr_content_revision r = target \<and> vr_updated_at r = expected
          \<and> repair_allows workspace target generation started_at db)
        (\<lambda>r. r\<lparr>vr_graph_state := ''updating'', vr_update_started_at := Some started_at,
           vr_updated_at := started_at\<rparr>) db
      in (Inr (n = 1), db'))"

definition set_graph_error ::
    "int \<Rightarrow> string \<Rightarrow> timestamp \<Rightarrow> graph_revision_row \<Rightarrow> graph_revision_row" where
  "set_graph_error target error updated_at r =
     r\<lparr>vr_graph_state := ''error'', vr_update_started_at := None, vr_failed_target := Some target,
       vr_last_error := Some error, vr_updated_at := updated_at\<rparr>"

definition mark_graph_error ::
    "string \<Rightarrow> int \<Rightarrow> string \<Rightarrow> timestamp \<Rightarrow> graph_db \<Rightarrow> unit update" where
  "mark_graph_error workspace target error updated_at db =
     (let (n, db') = update_revisions (\<lambda>r. vr_workspace_id r = workspace)
        (set_graph_error target error updated_at) db
      in if target < 0 \<and> 0 < n then (Inl (constraint_failed ''CHECK''), db)
         else (require_one n ''workspace graph revision'' workspace, db'))"

definition mark_graph_error_if_snapshot ::
    "string \<Rightarrow> int \<Rightarrow> timestamp \<Rightarrow> string option \<Rightarrow> string \<Rightarrow> timestamp \<Rightarrow> graph_db \<Rightarrow> bool update" where
  "mark_graph_error_if_snapshot workspace target expected generation error updated_at db =
     (let (n, db') = update_revisions (\<lambda>r. vr_workspace_id r = workspace
          \<and> vr_content_revision r = target \<and> vr_updated_at r = expected
          \<and> repair_allows workspace target generation updated_at db)
        (set_graph_error target error updated_at) db
      in (Inr (n = 1), db'))"

definition update_owned :: "string \<Rightarrow> int \<Rightarrow> timestamp \<Rightarrow> graph_revision_row \<Rightarrow> bool" where
  "update_owned workspace target started_at r \<longleftrightarrow> vr_workspace_id r = workspace
     \<and> vr_content_revision r = target \<and> vr_graph_state r = ''updating''
     \<and> vr_update_started_at r = Some started_at"

definition mark_graph_error_for_update ::
    "string \<Rightarrow> int \<Rightarrow> timestamp \<Rightarrow> string \<Rightarrow> timestamp \<Rightarrow> graph_db \<Rightarrow> bool update" where
  "mark_graph_error_for_update workspace target started_at error updated_at db =
     (let (n, db') = update_revisions (update_owned workspace target started_at)
        (set_graph_error target error updated_at) db
      in (Inr (n = 1), db'))"

definition set_graph_stale :: "timestamp \<Rightarrow> graph_revision_row \<Rightarrow> graph_revision_row" where
  "set_graph_stale updated_at r =
     r\<lparr>vr_graph_state := ''stale'', vr_update_started_at := None, vr_updated_at := updated_at\<rparr>"

definition clear_graph_update_if_owned ::
    "string \<Rightarrow> int \<Rightarrow> timestamp \<Rightarrow> timestamp \<Rightarrow> graph_db \<Rightarrow> bool update" where
  "clear_graph_update_if_owned workspace target started_at updated_at db =
     (let (n, db') = update_revisions (update_owned workspace target started_at)
        (set_graph_stale updated_at) db
      in (Inr (n = 1), db'))"

definition set_graph_current ::
    "int \<Rightarrow> timestamp \<Rightarrow> graph_revision_row \<Rightarrow> graph_revision_row" where
  "set_graph_current target updated_at r =
     r\<lparr>vr_graph_content_revision := target, vr_graph_state := ''current'',
       vr_update_started_at := None, vr_failed_target := None, vr_last_error := None,
       vr_updated_at := updated_at\<rparr>"

definition acknowledge_graph_revision ::
    "string \<Rightarrow> int \<Rightarrow> timestamp \<Rightarrow> graph_db \<Rightarrow> bool update" where
  "acknowledge_graph_revision workspace target updated_at db =
     (let (n, db') = update_revisions (\<lambda>r. vr_workspace_id r = workspace
          \<and> vr_content_revision r = target \<and> vr_graph_content_revision r \<le> target)
        (\<lambda>r. r\<lparr>vr_graph_content_revision := target,
           vr_graph_state := (if vr_content_revision r = target then ''current'' else ''stale''),
           vr_update_started_at := None,
           vr_failed_target := (if vr_content_revision r = target then None
             else vr_failed_target r),
           vr_last_error := (if vr_content_revision r = target then None else vr_last_error r),
           vr_updated_at := updated_at\<rparr>) db
      in (Inr (n = 1), db'))"

section \<open>Repairs\<close>

datatype graph_repair_acquire =
  Acquired graph_repair_generation | InProgress graph_repair_generation

definition interrupt_expired :: "string \<Rightarrow> timestamp \<Rightarrow> graph_db \<Rightarrow> graph_db" where
  "interrupt_expired workspace now db =
     snd (update_repairs (\<lambda>r. rr_workspace_id r = workspace \<and> rr_state r = ''active''
          \<and> rr_lease_expires_at r \<le> now)
        (\<lambda>r. r\<lparr>rr_state := ''interrupted'', rr_updated_at := now,
           rr_last_error := Some (case rr_last_error r of Some e \<Rightarrow> e
             | None \<Rightarrow> ''graph repair lease expired'')\<rparr>) db)"

definition repair_row_of :: "graph_repair_generation \<Rightarrow> graph_repair_row" where
  "repair_row_of g =
     \<lparr>rr_workspace_id = repair_workspace_id g, rr_generation_id = repair_generation_id g,
      rr_mode = repair_mode_storage_name (repair_mode_of g),
      rr_target_revision = repair_target_revision g, rr_state = ''active'',
      rr_started_at = repair_started_at g, rr_lease_expires_at = repair_lease_expires_at g,
      rr_updated_at = repair_updated_at g, rr_completed_at = None,
      rr_documents_considered = int (repair_documents_considered g), rr_documents_repaired = 0,
      rr_documents_failed = 0, rr_last_error = None\<rparr>"

definition replaceable :: "string \<Rightarrow> graph_repair_row \<Rightarrow> bool" where
  "replaceable workspace r \<longleftrightarrow> rr_workspace_id r = workspace
     \<and> rr_state r \<in> {''completed'', ''failed'', ''interrupted''}"

text \<open>The insertion with its conflict clause: \<open>None\<close> when the row exists and may not be taken
  over.  The table's constraints refuse a negative target and a generation used elsewhere.\<close>

definition claim_repair :: "graph_repair_generation \<Rightarrow> graph_db \<Rightarrow> cortex_error + graph_db option" where
  "claim_repair g db =
     (let takes = replaceable (repair_workspace_id g);
          exists = repair_workspace_id g \<in> rr_workspace_id ` set (db_repairs db)
      in if repair_target_revision g < 0 then Inl (constraint_failed ''CHECK'')
         else if exists \<and> filter takes (db_repairs db) = [] then Inr None
         else if \<exists>r \<in> set (db_repairs db). rr_generation_id r = repair_generation_id g
              \<and> rr_workspace_id r \<noteq> repair_workspace_id g
         then Inl (constraint_failed ''UNIQUE'')
         else if exists then Inr (Some (snd (update_repairs takes (\<lambda>_. repair_row_of g) db)))
         else Inr (Some (db\<lparr>db_repairs := db_repairs db @ [repair_row_of g]\<rparr>)))"

definition acquire_graph_repair ::
    "graph_repair_generation \<Rightarrow> timestamp \<Rightarrow> graph_db \<Rightarrow> graph_repair_acquire update" where
  "acquire_graph_repair g now db =
     (let db1 = interrupt_expired (repair_workspace_id g) now db
      in if i64_max < repair_documents_considered g
         then (Inl (AnalysisErr ''graph repair document count exceeds SQLite integer range''), db)
         else case claim_repair g db1 of
           Inl e \<Rightarrow> (Inl e, db)
         | Inr (Some db2) \<Rightarrow> (Inr (Acquired g), db2)
         | Inr None \<Rightarrow>
             (case find (\<lambda>r. rr_workspace_id r = repair_workspace_id g) (db_repairs db1) of
                None \<Rightarrow> (Inl (StorageErr ''no rows returned''), db)
              | Some r \<Rightarrow>
                  (and_then (graph_repair_of_row r) (\<lambda>current. Inr (InProgress current)), db1)))"

definition record_graph_repair_progress ::
    "string \<Rightarrow> string \<Rightarrow> nat \<Rightarrow> timestamp \<Rightarrow> timestamp \<Rightarrow> graph_db \<Rightarrow> bool update" where
  "record_graph_repair_progress workspace generation repaired lease updated_at db =
     (if lease \<le> updated_at
      then (Inl (AnalysisErr ''graph repair lease renewal must expire after its update time''), db)
      else if i64_max < repaired
      then (Inl (AnalysisErr ''graph repair document count exceeds SQLite integer range''), db)
      else
        let (n, db') = update_repairs (live_repair workspace generation updated_at)
              (\<lambda>r. r\<lparr>rr_documents_repaired := int repaired, rr_lease_expires_at := lease,
                 rr_updated_at := updated_at\<rparr>) db
        in (Inr (n = 1), db'))"

definition fail_graph_repair ::
    "string \<Rightarrow> string \<Rightarrow> nat \<Rightarrow> string \<Rightarrow> timestamp \<Rightarrow> graph_db \<Rightarrow> bool update" where
  "fail_graph_repair workspace generation repaired error updated_at db =
     (if i64_max < repaired
      then (Inl (AnalysisErr ''graph repair document count exceeds SQLite integer range''), db)
      else
        let (n, db') = update_repairs (live_repair workspace generation updated_at)
              (\<lambda>r. r\<lparr>rr_state := ''failed'', rr_documents_repaired := int repaired,
                 rr_documents_failed := rr_documents_failed r + 1, rr_updated_at := updated_at,
                 rr_last_error := Some error\<rparr>) db
        in (Inr (n = 1), db'))"

section \<open>Expected analyses\<close>

record graph_analysis_snapshot_row =
  sr_document :: document
  sr_state :: "graph_analysis_state option"
  sr_manifest :: "projection_row option"
  sr_node_count :: int
  sr_fact_count :: int
  sr_edge_count :: int
  sr_unresolved_count :: int

definition graph_analysis_snapshot_rows ::
    "string \<Rightarrow> graph_db \<Rightarrow> graph_analysis_snapshot_row list" where
  "graph_analysis_snapshot_rows workspace db =
     map (\<lambda>d.
       \<lparr>sr_document = d,
        sr_state = find (\<lambda>s. analysis_document_id s = document_id d
          \<and> analysis_workspace_id s = document_workspace_id d) (db_analysis db),
        sr_manifest = find (\<lambda>p. pr_document_id p = document_id d
          \<and> pr_workspace_id p = document_workspace_id d) (db_projections db),
        sr_node_count = row_count (\<lambda>n. nr_workspace_id n = document_workspace_id d
          \<and> nr_document_id n = Some (document_id d)) (db_nodes db),
        sr_fact_count = row_count (\<lambda>f. fr_workspace_id f = document_workspace_id d
          \<and> fr_source_document_id f = document_id d) (db_facts db),
        sr_edge_count = row_count (\<lambda>e. er_workspace_id e = document_workspace_id d
          \<and> er_source_document_id e = Some (document_id d)) (db_edges db),
        sr_unresolved_count = row_count (\<lambda>u. fr_workspace_id u = document_workspace_id d
          \<and> fr_source_document_id u = document_id d) (db_unresolved db)\<rparr>)
      (filter (\<lambda>d. document_workspace_id d = workspace) (db_documents db))"

definition row_meets :: "graph_analysis_expectation \<Rightarrow> graph_analysis_snapshot_row \<Rightarrow> bool" where
  "row_meets x row \<longleftrightarrow>
     document_analyzer_id (sr_document row) = expected_analyzer_id x
     \<and> document_analyzer_version (sr_document row) = expected_analyzer_version x
     \<and> (case sr_state row of None \<Rightarrow> False
        | Some s \<Rightarrow> analysis_content_revision s = document_content_revision (sr_document row)
            \<and> analysis_analyzer_id s = expected_analyzer_id x
            \<and> analysis_analyzer_version s = expected_analyzer_version x
            \<and> analysis_structure_version s = expected_structure_version x
            \<and> analysis_last_error s = None)
     \<and> (case sr_manifest row of None \<Rightarrow> False
        | Some p \<Rightarrow> pr_content_revision p = document_content_revision (sr_document row)
            \<and> pr_analyzer_id p = expected_analyzer_id x
            \<and> pr_analyzer_version p = expected_analyzer_version x
            \<and> pr_structure_version p = expected_structure_version x
            \<and> pr_node_count p = sr_node_count row \<and> pr_fact_count p = sr_fact_count row
            \<and> pr_edge_count p = sr_edge_count row
            \<and> pr_unresolved_count p = sr_unresolved_count row)"

text \<open>The rows are collected into a map by document, where a later row replaces an earlier one.\<close>

definition analysis_expectations_match ::
    "graph_analysis_snapshot_row list \<Rightarrow> graph_analysis_expectation list \<Rightarrow> bool" where
  "analysis_expectations_match rows expected \<longleftrightarrow>
     (let by_document = map_of (rev (map (\<lambda>r. (document_id (sr_document r), r)) rows))
      in length (remdups (map (\<lambda>r. document_id (sr_document r)) rows)) = length expected
         \<and> list_all (\<lambda>x. case by_document (expected_document_id x) of
              None \<Rightarrow> False | Some row \<Rightarrow> row_meets x row) expected)"

definition complete_graph_repair ::
    "string \<Rightarrow> string \<Rightarrow> int \<Rightarrow> graph_analysis_expectation list \<Rightarrow> timestamp \<Rightarrow> graph_db
      \<Rightarrow> bool update" where
  "complete_graph_repair workspace generation target expected updated_at db =
     (if length (filter (\<lambda>r. live_repair workspace generation updated_at r
           \<and> rr_target_revision r = target) (db_repairs db)) \<noteq> 1 then (Inr False, db)
      else if \<not> analysis_expectations_match (graph_analysis_snapshot_rows workspace db) expected
      then (Inr False, db)
      else
        let (n, db1) = update_revisions
              (\<lambda>r. vr_workspace_id r = workspace \<and> vr_content_revision r = target)
              (set_graph_current target updated_at) db
        in if n \<noteq> 1 then (Inr False, db)
           else
             let (m, db2) = update_repairs (live_repair workspace generation updated_at)
                   (\<lambda>r. r\<lparr>rr_state := ''completed'', rr_lease_expires_at := updated_at,
                      rr_updated_at := updated_at, rr_completed_at := Some updated_at,
                      rr_last_error := None\<rparr>) db1
             in if m \<noteq> 1 then (Inr False, db) else (Inr True, db2))"

section \<open>Reconciliation\<close>

datatype reconciliation_status = ReconciledCurrent | ReconciledStale | Superseded

definition publish_reconciliation ::
    "string \<Rightarrow> int \<Rightarrow> string option \<Rightarrow> graph_analysis_expectation list \<Rightarrow> timestamp \<Rightarrow> graph_db
      \<Rightarrow> reconciliation_status update" where
  "publish_reconciliation workspace target generation expected updated_at db =
     (if analysis_expectations_match (graph_analysis_snapshot_rows workspace db) expected
         \<and> generation = None
      then
        let (n, db') = update_revisions (\<lambda>r. vr_workspace_id r = workspace
              \<and> vr_content_revision r = target \<and> vr_graph_content_revision r \<le> target)
              (set_graph_current target updated_at) db
        in if n \<noteq> 1 then (Inr Superseded, db) else (Inr ReconciledCurrent, db')
      else
        let (n, db') = update_revisions
              (\<lambda>r. vr_workspace_id r = workspace \<and> vr_content_revision r = target)
              (set_graph_stale updated_at) db
        in (Inr ReconciledStale, db'))"

text \<open>Who may write: the snapshot of an update or of a deletion, the repair, and the source document
  that the batch was computed from.\<close>

definition owns_snapshot :: "graph_reconciliation_batch \<Rightarrow> graph_revision_row \<Rightarrow> bool" where
  "owns_snapshot b r \<longleftrightarrow>
     (case (batch_delete_path b, batch_expected_updated_at b, batch_update_started_at b) of
        (Some _, Some expected, None) \<Rightarrow> vr_updated_at r = expected
      | (None, None, Some started_at) \<Rightarrow>
          vr_graph_state r = ''updating'' \<and> vr_update_started_at r = Some started_at
      | _ \<Rightarrow> False)"

definition repair_owned :: "graph_reconciliation_batch \<Rightarrow> timestamp \<Rightarrow> graph_db \<Rightarrow> bool" where
  "repair_owned b updated_at db \<longleftrightarrow>
     (case batch_repair_generation b of
        Some generation \<Rightarrow> row_count (\<lambda>r. live_repair (batch_workspace_id b) generation updated_at r
          \<and> rr_target_revision r = batch_target_revision b) (db_repairs db) = 1
      | None \<Rightarrow> row_count (\<lambda>r. rr_workspace_id r = batch_workspace_id b
          \<and> rr_state r \<in> {''active'', ''failed'', ''interrupted''}) (db_repairs db) = 0)"

definition source_is_current :: "graph_reconciliation_batch \<Rightarrow> graph_db \<Rightarrow> bool" where
  "source_is_current b db \<longleftrightarrow>
     (case batch_analysis_state b of None \<Rightarrow> True
      | Some s \<Rightarrow> row_count (\<lambda>d. document_id d = analysis_document_id s
          \<and> document_workspace_id d = analysis_workspace_id s
          \<and> document_content_revision d = analysis_content_revision s
          \<and> document_analyzer_id d = analysis_analyzer_id s
          \<and> document_analyzer_version d = analysis_analyzer_version s) (db_documents db) = 1)"

text \<open>A deletion takes the document away and moves to the next content revision.  \<open>None\<close> stands for
  \<open>Superseded\<close>.  The subtraction that gives the expected revision cannot overflow, because the
  target is not negative.\<close>

definition decimal :: "int \<Rightarrow> string" where
  "decimal v = (if v < 0 then ''-'' @ digits (nat (- v)) else digits (nat v))"

definition delete_source ::
    "graph_reconciliation_batch \<Rightarrow> timestamp \<Rightarrow> graph_db \<Rightarrow> cortex_error + graph_db option" where
  "delete_source b updated_at db =
     (case batch_delete_path b of
        None \<Rightarrow> Inr (Some db)
      | Some path \<Rightarrow>
          let (deleted, db1) = delete_document (batch_workspace_id b) path db
          in if deleted \<noteq> 1 then Inr None
             else case bump_content_revision (batch_workspace_id b) updated_at db1 of
               (Inl e, _) \<Rightarrow> Inl e
             | (Inr revision, db2) \<Rightarrow>
                 if revision \<noteq> batch_target_revision b
                 then Inl (AnalysisErr (''graph deletion produced content revision '' @ decimal revision
                   @ '', expected '' @ decimal (batch_target_revision b)))
                 else Inr (Some db2))"

definition expected_revision :: "graph_reconciliation_batch \<Rightarrow> int" where
  "expected_revision b =
     (if batch_delete_path b \<noteq> None then batch_target_revision b - 1 else batch_target_revision b)"

definition apply_graph_reconciliation ::
    "json_writer \<Rightarrow> graph_reconciliation_batch \<Rightarrow> timestamp \<Rightarrow> graph_db
      \<Rightarrow> reconciliation_status update" where
  "apply_graph_reconciliation to_text b updated_at db =
     (case validate_graph_reconciliation_batch b of Inl e \<Rightarrow> (Inl e, db) | Inr _ \<Rightarrow>
      case find (\<lambda>r. vr_workspace_id r = batch_workspace_id b) (db_revisions db) of
        None \<Rightarrow> (Inl (StorageErr ''no rows returned''), db)
      | Some r \<Rightarrow>
          if vr_content_revision r \<noteq> expected_revision b then (Inr Superseded, db)
          else if \<not> owns_snapshot b r then (Inr Superseded, db)
          else if \<not> repair_owned b updated_at db then (Inr Superseded, db)
          else if \<not> source_is_current b db then (Inr Superseded, db)
          else case delete_source b updated_at db of
            Inl e \<Rightarrow> (Inl e, db)
          | Inr None \<Rightarrow> (Inr Superseded, db)
          | Inr (Some db1) \<Rightarrow>
              (case write_reconciliation to_text b updated_at db1 of
                 Inl e \<Rightarrow> (Inl e, db)
               | Inr db2 \<Rightarrow>
                   let (status, db3) = publish_reconciliation (batch_workspace_id b)
                         (batch_target_revision b) (batch_repair_generation b)
                         (batch_expected_analysis b) updated_at db2
                   in (status, if status = Inr Superseded then db else db3)))"

section \<open>Steps\<close>

datatype graph_op =
    RegisterWorkspace string timestamp
  | BumpContent string timestamp
  | MarkUpdating string timestamp
  | MarkUpdatingIfCurrent string int timestamp timestamp "string option"
  | MarkError string int string timestamp
  | MarkErrorIfSnapshot string int timestamp "string option" string timestamp
  | MarkErrorForUpdate string int timestamp string timestamp
  | ClearUpdate string int timestamp timestamp
  | Acknowledge string int timestamp
  | AcquireRepair graph_repair_generation timestamp
  | RepairProgress string string nat timestamp timestamp
  | FailRepair string string nat string timestamp
  | CompleteRepair string string int "graph_analysis_expectation list" timestamp
  | ApplyReconciliation json_writer graph_reconciliation_batch timestamp
  | WriteContent

fun run_op :: "graph_op \<Rightarrow> graph_db \<Rightarrow> graph_db" where
  "run_op (RegisterWorkspace w t) db = snd (register_workspace w t db)"
| "run_op (BumpContent w t) db = snd (bump_content_revision w t db)"
| "run_op (MarkUpdating w t) db = snd (mark_graph_updating w t db)"
| "run_op (MarkUpdatingIfCurrent w v x t g) db = snd (mark_graph_updating_if_current w v x t g db)"
| "run_op (MarkError w v e t) db = snd (mark_graph_error w v e t db)"
| "run_op (MarkErrorIfSnapshot w v x g e t) db = snd (mark_graph_error_if_snapshot w v x g e t db)"
| "run_op (MarkErrorForUpdate w v s e t) db = snd (mark_graph_error_for_update w v s e t db)"
| "run_op (ClearUpdate w v s t) db = snd (clear_graph_update_if_owned w v s t db)"
| "run_op (Acknowledge w v t) db = snd (acknowledge_graph_revision w v t db)"
| "run_op (AcquireRepair g t) db = snd (acquire_graph_repair g t db)"
| "run_op (RepairProgress w g n l t) db = snd (record_graph_repair_progress w g n l t db)"
| "run_op (FailRepair w g n e t) db = snd (fail_graph_repair w g n e t db)"
| "run_op (CompleteRepair w g v x t) db = snd (complete_graph_repair w g v x t db)"
| "run_op (ApplyReconciliation to_text b t) db = snd (apply_graph_reconciliation to_text b t db)"
| "run_op WriteContent db = db"

text \<open>A step is an operation, or a change of content alone: of documents, chunks and the graph's own
  tables by the code that is not modelled.\<close>

inductive graph_step :: "graph_db \<Rightarrow> graph_op \<Rightarrow> graph_db \<Rightarrow> bool" where
  operation: "op \<noteq> WriteContent \<Longrightarrow> graph_step db op (run_op op db)"
| content: "same_lifecycle db db' \<Longrightarrow> graph_step db WriteContent db'"

inductive graph_run :: "graph_db \<Rightarrow> graph_op list \<Rightarrow> graph_db \<Rightarrow> bool" where
  finish: "graph_run db [] db"
| step: "graph_step db op db1 \<Longrightarrow> graph_run db1 ops db2 \<Longrightarrow> graph_run db (op # ops) db2"

inductive_cases graph_run_ConsE: "graph_run db (op # ops) db'"
inductive_simps graph_run_Nil: "graph_run db [] db'"

lemma graph_run_invariant:
  assumes "graph_run db ops db'" and "P db"
    and "\<And>db op db'. op \<in> set ops \<Longrightarrow> P db \<Longrightarrow> graph_step db op db' \<Longrightarrow> P db'"
  shows "P db'"
  using assms
proof (induction rule: graph_run.induct)
  case (step db op db1 ops db2)
  from step.prems(2) [of op db db1] step.hyps(1) step.prems(1) have "P db1" by simp
  moreover have "P d'" if "p \<in> set ops" "P d" "graph_step d p d'" for d p d'
    using step.prems(2) [of p d d'] that by simp
  ultimately show ?case by (rule step.IH)
qed simp

section \<open>Row updates\<close>

lemma update_revisions_simps [simp]:
  "fst (update_revisions P f db) = length (filter P (db_revisions db))"
  "db_revisions (snd (update_revisions P f db)) = map (\<lambda>r. if P r then f r else r) (db_revisions db)"
  "db_repairs (snd (update_revisions P f db)) = db_repairs db"
  by (simp_all add: update_revisions_def update_where_def)

lemma update_repairs_simps [simp]:
  "fst (update_repairs P f db) = length (filter P (db_repairs db))"
  "db_repairs (snd (update_repairs P f db)) = map (\<lambda>r. if P r then f r else r) (db_repairs db)"
  "db_revisions (snd (update_repairs P f db)) = db_revisions db"
  by (simp_all add: update_repairs_def update_where_def)

lemmas lifecycle_defs = register_workspace_def bump_content_revision_def mark_graph_updating_def
  mark_graph_updating_if_current_def mark_graph_error_def mark_graph_error_if_snapshot_def
  mark_graph_error_for_update_def clear_graph_update_if_owned_def acknowledge_graph_revision_def
  acquire_graph_repair_def record_graph_repair_progress_def fail_graph_repair_def
  complete_graph_repair_def publish_reconciliation_def apply_graph_reconciliation_def
  interrupt_expired_def claim_repair_def

text \<open>A revision row that is well formed, and one that may replace it.\<close>

definition revision_row_ok :: "graph_revision_row \<Rightarrow> bool" where
  "revision_row_ok r \<longleftrightarrow> 0 \<le> vr_graph_content_revision r
     \<and> vr_graph_content_revision r \<le> vr_content_revision r \<and> 0 < vr_graph_schema_version r
     \<and> vr_graph_state r \<in> {''current'', ''updating'', ''stale'', ''error''}
     \<and> (vr_graph_state r = ''current'' \<longrightarrow>
          vr_graph_content_revision r = vr_content_revision r \<and> vr_last_error r = None)
     \<and> (vr_graph_state r = ''updating'' \<longleftrightarrow> vr_update_started_at r \<noteq> None)"

definition later_row :: "graph_revision_row \<Rightarrow> graph_revision_row \<Rightarrow> bool" where
  "later_row r r' \<longleftrightarrow> vr_workspace_id r' = vr_workspace_id r
     \<and> vr_content_revision r \<le> vr_content_revision r'
     \<and> vr_graph_content_revision r \<le> vr_graph_content_revision r'"

definition revisions_ok :: "graph_db \<Rightarrow> bool" where
  "revisions_ok db \<longleftrightarrow> distinct (map vr_workspace_id (db_revisions db))
     \<and> list_all revision_row_ok (db_revisions db)"

text \<open>The row function of each update keeps a row well formed and never lowers its revisions.\<close>

definition good_update ::
    "(graph_revision_row \<Rightarrow> bool) \<Rightarrow> (graph_revision_row \<Rightarrow> graph_revision_row) \<Rightarrow> bool" where
  "good_update P f \<longleftrightarrow>
     (\<forall>r. revision_row_ok r \<longrightarrow> P r \<longrightarrow> revision_row_ok (f r) \<and> later_row r (f r))"

definition evolves :: "graph_db \<Rightarrow> graph_db \<Rightarrow> bool" where
  "evolves db db' \<longleftrightarrow> revisions_ok db'
     \<and> (\<forall>r \<in> set (db_revisions db). \<exists>r' \<in> set (db_revisions db'). later_row r r')"

lemma later_refl [simp]: "later_row r r"
  by (simp add: later_row_def)

lemma evolves_same:
  "revisions_ok db \<Longrightarrow> db_revisions db' = db_revisions db \<Longrightarrow> evolves db db'"
  by (auto simp: evolves_def revisions_ok_def intro: later_refl)

lemma evolves_update:
  assumes "revisions_ok db" and "good_update P f"
    and "db_revisions db' = map (\<lambda>r. if P r then f r else r) (db_revisions db)"
  shows "evolves db db'"
proof -
  have later: "later_row r (if P r then f r else r)" and ok: "revision_row_ok (if P r then f r else r)"
    if "r \<in> set (db_revisions db)" for r
    using assms(1,2) that by (auto simp: revisions_ok_def good_update_def list_all_iff)
  have key: "map vr_workspace_id (map (\<lambda>r. if P r then f r else r) (db_revisions db))
      = map vr_workspace_id (db_revisions db)"
    using later by (auto simp: later_row_def)
  have "list_all revision_row_ok (map (\<lambda>r. if P r then f r else r) (db_revisions db))"
    unfolding list_all_iff set_map using ok by blast
  then have "revisions_ok db'"
    using assms(1) unfolding revisions_ok_def assms(3) key by simp
  moreover have "\<exists>r' \<in> set (db_revisions db'). later_row r r'" if "r \<in> set (db_revisions db)" for r
    unfolding assms(3) set_map using later that by blast
  ultimately show ?thesis by (simp add: evolves_def)
qed

lemma good_updates:
  "good_update P (\<lambda>r. r\<lparr>vr_content_revision := vr_content_revision r + 1, vr_graph_state := ''stale'',
     vr_update_started_at := None, vr_failed_target := None, vr_last_error := None,
     vr_updated_at := t\<rparr>)"
  "good_update P (\<lambda>r. r\<lparr>vr_graph_state := ''updating'', vr_update_started_at := Some t,
     vr_failed_target := None, vr_last_error := None, vr_updated_at := t\<rparr>)"
  "good_update P (\<lambda>r. r\<lparr>vr_graph_state := ''updating'', vr_update_started_at := Some t,
     vr_updated_at := t\<rparr>)"
  "good_update P (set_graph_error v e t)"
  "good_update P (set_graph_stale t)"
  by (auto simp: good_update_def revision_row_ok_def later_row_def set_graph_error_def
      set_graph_stale_def)

lemma good_current:
  "good_update (\<lambda>r. vr_workspace_id r = w \<and> vr_content_revision r = v) (set_graph_current v t)"
  "good_update (\<lambda>r. vr_workspace_id r = w \<and> vr_content_revision r = v
     \<and> vr_graph_content_revision r \<le> v) (set_graph_current v t)"
  by (auto simp: good_update_def revision_row_ok_def later_row_def set_graph_current_def)

lemma good_acknowledge:
  "good_update (\<lambda>r. vr_workspace_id r = w \<and> vr_content_revision r = v
      \<and> vr_graph_content_revision r \<le> v)
    (\<lambda>r. r\<lparr>vr_graph_content_revision := v,
       vr_graph_state := (if vr_content_revision r = v then ''current'' else ''stale''),
       vr_update_started_at := None,
       vr_failed_target := (if vr_content_revision r = v then None else vr_failed_target r),
       vr_last_error := (if vr_content_revision r = v then None else vr_last_error r),
       vr_updated_at := t\<rparr>)"
  by (auto simp: good_update_def revision_row_ok_def later_row_def)

lemma register_evolves: "revisions_ok db \<Longrightarrow> evolves db (snd (register_workspace w t db))"
  by (auto simp: register_workspace_def evolves_def revisions_ok_def revision_row_ok_def
      intro: later_refl)

lemma update_revisions_evolves [simp]:
  "revisions_ok db \<Longrightarrow> good_update P f \<Longrightarrow> evolves db (snd (update_revisions P f db))"
  by (rule evolves_update [of db P f]) simp_all

lemma update_repairs_evolves [simp]:
  "evolves db (snd (update_repairs P f db')) \<longleftrightarrow> evolves db db'"
  by (simp add: evolves_def revisions_ok_def)

lemma bump_evolves: "revisions_ok db \<Longrightarrow> evolves db (snd (bump_content_revision w t db))"
  by (simp add: bump_content_revision_def split_beta Let_def evolves_same good_updates
      split: option.split del: update_revisions_simps)

lemma complete_evolves: "revisions_ok db \<Longrightarrow> evolves db (snd (complete_graph_repair w g v x t db))"
  by (simp add: complete_graph_repair_def split_beta Let_def evolves_same good_current
      del: update_revisions_simps update_repairs_simps)

lemma publish_evolves: "revisions_ok db \<Longrightarrow> evolves db (snd (publish_reconciliation w v g x t db))"
  by (simp add: publish_reconciliation_def split_beta Let_def evolves_same good_current good_updates
      del: update_revisions_simps)

text \<open>A reconciliation is a sequence of at most three changes: the bump of a deletion, the writes,
  which leave revisions and repairs alone, and the publication.\<close>

lemma delete_source_cases:
  assumes "delete_source b t db = Inr (Some db')"
  obtains "db' = db"
    | db1 where "same_lifecycle db db1"
      and "db' = snd (bump_content_revision (batch_workspace_id b) t db1)"
proof (cases "batch_delete_path b")
  case None
  then show thesis using assms that(1) by (simp add: delete_source_def)
next
  case (Some path)
  obtain n db1 where d: "delete_document (batch_workspace_id b) path db = (n, db1)"
    by fastforce
  then have "same_lifecycle db db1"
    using delete_document_same [of db "batch_workspace_id b" path] by simp
  moreover have "db' = snd (bump_content_revision (batch_workspace_id b) t db1)"
    using assms Some d by (auto simp: delete_source_def split: if_splits prod.splits sum.splits)
  ultimately show thesis by (rule that(2))
qed

lemma apply_cases:
  obtains "snd (apply_graph_reconciliation to_text b t db) = db"
    | r db1 db2 where
      "find (\<lambda>r. vr_workspace_id r = batch_workspace_id b) (db_revisions db) = Some r"
      and "owns_snapshot b r" and "repair_owned b t db"
      and "delete_source b t db = Inr (Some db1)" and "same_lifecycle db1 db2"
      and "snd (apply_graph_reconciliation to_text b t db) = snd (publish_reconciliation
        (batch_workspace_id b) (batch_target_revision b) (batch_repair_generation b)
        (batch_expected_analysis b) t db2)"
proof (cases "snd (apply_graph_reconciliation to_text b t db) = db")
  case False
  then obtain r db1 where r: "find (\<lambda>r. vr_workspace_id r = batch_workspace_id b) (db_revisions db) = Some r"
    and own: "owns_snapshot b r" "repair_owned b t db" "source_is_current b db"
      "vr_content_revision r = expected_revision b"
    and valid: "validate_graph_reconciliation_batch b = Inr ()"
    and db1: "delete_source b t db = Inr (Some db1)"
    by (auto simp: apply_graph_reconciliation_def split: sum.splits option.splits if_splits)
  with False obtain db2 where db2: "write_reconciliation to_text b t db1 = Inr db2"
    by (auto simp: apply_graph_reconciliation_def split: sum.splits)
  then have "snd (apply_graph_reconciliation to_text b t db) = snd (publish_reconciliation
      (batch_workspace_id b) (batch_target_revision b) (batch_repair_generation b)
      (batch_expected_analysis b) t db2)"
    using False r own valid db1
    by (simp add: apply_graph_reconciliation_def split_beta Let_def split: if_splits)
  with r own(1,2) db1 write_reconciliation_same [OF db2] show thesis by (rule that(2))
qed (rule that(1))

lemma interrupt_revisions [simp]: "db_revisions (interrupt_expired w t db) = db_revisions db"
  by (simp add: interrupt_expired_def)

lemma claim_revisions:
  assumes "claim_repair g db = Inr (Some db')"
  shows "db_revisions db' = db_revisions db"
proof -
  have "db' = snd (update_repairs (replaceable (repair_workspace_id g)) (\<lambda>_. repair_row_of g) db)
    \<or> db' = db\<lparr>db_repairs := db_repairs db @ [repair_row_of g]\<rparr>"
    using assms unfolding claim_repair_def Let_def by (simp split: if_splits)
  then show ?thesis by (elim disjE) simp_all
qed

lemma acquire_revisions: "db_revisions (snd (acquire_graph_repair g t db)) = db_revisions db"
proof -
  let ?db1 = "interrupt_expired (repair_workspace_id g) t db"
  show ?thesis
  proof (cases "claim_repair g ?db1")
    case (Inr claimed)
    then have "claimed = Some db' \<Longrightarrow> db_revisions db' = db_revisions db" for db'
      using claim_revisions [of g ?db1 db'] by simp
    then show ?thesis
      using Inr by (cases claimed) (simp_all add: acquire_graph_repair_def Let_def split: option.split)
  qed (simp add: acquire_graph_repair_def Let_def)
qed

lemma mark_evolves:
  assumes "revisions_ok db"
  shows "evolves db (snd (mark_graph_updating w t db))"
    and "evolves db (snd (mark_graph_updating_if_current w v x t g db))"
    and "evolves db (snd (mark_graph_error w v e t db))"
    and "evolves db (snd (mark_graph_error_if_snapshot w v x g e t db))"
    and "evolves db (snd (mark_graph_error_for_update w v x e t db))"
    and "evolves db (snd (clear_graph_update_if_owned w v x t db))"
    and "evolves db (snd (acknowledge_graph_revision w v t db))"
  using assms
  by (simp_all add: mark_graph_updating_def mark_graph_updating_if_current_def mark_graph_error_def
      mark_graph_error_if_snapshot_def mark_graph_error_for_update_def
      clear_graph_update_if_owned_def acknowledge_graph_revision_def split_beta Let_def
      evolves_same good_updates good_acknowledge del: update_revisions_simps)

lemma repair_evolves:
  assumes "revisions_ok db"
  shows "evolves db (snd (record_graph_repair_progress w g n l t db))"
    and "evolves db (snd (fail_graph_repair w g n e t db))"
    and "evolves db (snd (acquire_graph_repair r t db))"
  using assms
  by (simp_all add: record_graph_repair_progress_def fail_graph_repair_def split_beta Let_def
      evolves_same acquire_revisions)

lemma evolves_trans: "evolves a b \<Longrightarrow> evolves b c \<Longrightarrow> evolves a c"
proof -
  have "later_row r1 r3" if "later_row r1 r2" "later_row r2 r3" for r1 r2 r3
    using that by (auto simp: later_row_def)
  then show "evolves a b \<Longrightarrow> evolves b c \<Longrightarrow> evolves a c"
    unfolding evolves_def by (metis (no_types, lifting))
qed

lemma evolves_after_same:
  assumes "revisions_ok db" and "same_lifecycle db db1"
    and "\<And>db1. revisions_ok db1 \<Longrightarrow> evolves db1 (f db1)"
  shows "evolves db (f db1)"
proof -
  have "evolves db db1" using assms(1,2) by (intro evolves_same) (simp_all add: same_lifecycle_def)
  moreover have "evolves db1 (f db1)" using calculation by (intro assms(3)) (simp add: evolves_def)
  ultimately show ?thesis by (rule evolves_trans)
qed

lemma apply_evolves:
  assumes "revisions_ok db"
  shows "evolves db (snd (apply_graph_reconciliation to_text b t db))"
proof (cases rule: apply_cases [of to_text b t db])
  case 1
  then show ?thesis using assms by (simp add: evolves_same)
next
  case (2 r db1 db2)
  have "evolves db db1"
    using 2(4)
  proof (cases rule: delete_source_cases)
    case (2 d)
    then show ?thesis using evolves_after_same [OF assms _ bump_evolves] by simp
  qed (simp add: assms evolves_same)
  moreover have "evolves db1 (snd (apply_graph_reconciliation to_text b t db))"
    unfolding 2(6) using calculation
    by (intro evolves_after_same [OF _ 2(5) publish_evolves]) (simp add: evolves_def)
  ultimately show ?thesis by (rule evolves_trans)
qed

lemma operation_evolves: "revisions_ok db \<Longrightarrow> evolves db (run_op op db)"
  by (cases op) (simp_all add: register_evolves bump_evolves mark_evolves repair_evolves
      complete_evolves apply_evolves evolves_same)

lemma step_evolves:
  assumes "graph_step db op db'" and "revisions_ok db"
  shows "evolves db db'"
  using assms
proof cases
  case content
  then show ?thesis using assms(2) evolves_same [of db db'] by (simp add: same_lifecycle_def)
qed (simp add: operation_evolves)

lemma run_evolves:
  assumes "graph_run db ops db'" and "revisions_ok db"
  shows "evolves db db'"
  using assms(1) evolves_same [OF assms(2) refl]
proof (rule graph_run_invariant)
  fix db1 op db2
  assume a: "evolves db db1" and "graph_step db1 op db2"
  then have b: "evolves db1 db2" using step_evolves [of db1 op db2] by (simp add: evolves_def)
  show "evolves db db2" using a b by (rule evolves_trans)
qed

section \<open>Repair rows\<close>

text \<open>At most one row for each workspace, and rows of one workspace that a generation does not own
  keep being not its own until it acquires the repair again.\<close>

definition repairs_keyed :: "graph_db \<Rightarrow> bool" where
  "repairs_keyed db \<longleftrightarrow> distinct (map rr_workspace_id (db_repairs db))"

definition not_owned :: "string \<Rightarrow> string \<Rightarrow> graph_db \<Rightarrow> bool" where
  "not_owned w g db \<longleftrightarrow>
     list_all (\<lambda>r. rr_workspace_id r = w \<longrightarrow> rr_generation_id r \<noteq> g) (db_repairs db)"

definition acquires :: "string \<Rightarrow> string \<Rightarrow> graph_op \<Rightarrow> bool" where
  "acquires w g op \<longleftrightarrow> (case op of
     AcquireRepair gen now \<Rightarrow> repair_workspace_id gen = w \<and> repair_generation_id gen = g
   | _ \<Rightarrow> False)"

text \<open>Every operation but an acquisition rewrites the repair rows one by one and keeps their keys.\<close>

definition keeps_repair_keys :: "graph_db \<Rightarrow> graph_db \<Rightarrow> bool" where
  "keeps_repair_keys db db' \<longleftrightarrow>
     map (\<lambda>r. (rr_workspace_id r, rr_generation_id r)) (db_repairs db')
       = map (\<lambda>r. (rr_workspace_id r, rr_generation_id r)) (db_repairs db)"

lemma keeps_same [simp]: "db_repairs db' = db_repairs db \<Longrightarrow> keeps_repair_keys db db'"
  by (simp add: keeps_repair_keys_def)

lemma keeps_update_revisions [simp]:
  "keeps_repair_keys db (snd (update_revisions P f db')) \<longleftrightarrow> keeps_repair_keys db db'"
  by (simp add: keeps_repair_keys_def)

lemma keeps_update_repairs [simp]:
  assumes "\<And>r. rr_workspace_id (f r) = rr_workspace_id r" and "\<And>r. rr_generation_id (f r) = rr_generation_id r"
  shows "keeps_repair_keys db (snd (update_repairs P f db')) \<longleftrightarrow> keeps_repair_keys db db'"
proof -
  have "map (\<lambda>r. (rr_workspace_id r, rr_generation_id r)) (map (\<lambda>r. if P r then f r else r) rows)
    = map (\<lambda>r. (rr_workspace_id r, rr_generation_id r)) rows" for rows
    using assms by simp
  then show ?thesis by (simp add: keeps_repair_keys_def del: map_map)
qed

lemma keeps_keyed: "keeps_repair_keys db db' \<Longrightarrow> repairs_keyed db' \<longleftrightarrow> repairs_keyed db"
  unfolding keeps_repair_keys_def repairs_keyed_def
  by (drule arg_cong [where f = "map fst"]) (simp add: comp_def)

lemma keeps_not_owned: "keeps_repair_keys db db' \<Longrightarrow> not_owned w g db' \<longleftrightarrow> not_owned w g db"
proof -
  assume a: "keeps_repair_keys db db'"
  have "not_owned w g d \<longleftrightarrow> (w, g) \<notin> set (map (\<lambda>r. (rr_workspace_id r, rr_generation_id r)) (db_repairs d))"
    for d by (auto simp: not_owned_def list_all_iff)
  then show ?thesis using a unfolding keeps_repair_keys_def by metis
qed

lemma keeps_interrupt: "keeps_repair_keys db (interrupt_expired w t db)"
  by (simp add: interrupt_expired_def)

lemma keeps_trans: "keeps_repair_keys a b \<Longrightarrow> keeps_repair_keys b c \<Longrightarrow> keeps_repair_keys a c"
  by (simp add: keeps_repair_keys_def)

lemma keeps_lifecycle: "same_lifecycle a b \<Longrightarrow> keeps_repair_keys a b"
  by (simp add: same_lifecycle_def)

lemma bump_keeps: "keeps_repair_keys db (snd (bump_content_revision w t db))"
  by (simp add: bump_content_revision_def split_beta Let_def split: option.split
      del: update_revisions_simps)

lemma publish_keeps: "keeps_repair_keys db (snd (publish_reconciliation w v g x t db))"
  by (simp add: publish_reconciliation_def split_beta Let_def del: update_revisions_simps)

lemma apply_keeps: "keeps_repair_keys db (snd (apply_graph_reconciliation to_text b t db))"
proof (cases rule: apply_cases [of to_text b t db])
  case (2 r db1 db2)
  have "keeps_repair_keys db db1"
    using 2(4)
  proof (cases rule: delete_source_cases)
    case (2 d)
    then show ?thesis using keeps_trans [OF keeps_lifecycle bump_keeps] by simp
  qed simp
  then have "keeps_repair_keys db db2" using 2(5) by (rule keeps_trans [OF _ keeps_lifecycle])
  then show ?thesis unfolding 2(6) by (rule keeps_trans [OF _ publish_keeps])
qed simp

lemma operation_keeps_keys:
  assumes "\<And>gen now. op \<noteq> AcquireRepair gen now"
  shows "keeps_repair_keys db (run_op op db)"
proof (cases op)
  case (AcquireRepair gen now)
  then show ?thesis using assms by simp
qed (simp_all add: register_workspace_def bump_content_revision_def mark_graph_updating_def
    mark_graph_updating_if_current_def mark_graph_error_def mark_graph_error_if_snapshot_def
    mark_graph_error_for_update_def clear_graph_update_if_owned_def acknowledge_graph_revision_def
    record_graph_repair_progress_def fail_graph_repair_def complete_graph_repair_def
    apply_keeps split_beta Let_def split: option.split
    del: update_revisions_simps update_repairs_simps)

text \<open>An acquisition leaves the table alone, or replaces or adds the row of its workspace.\<close>

lemma claim_cases:
  assumes "claim_repair g db = Inr (Some db')"
  obtains "\<exists>r \<in> set (db_repairs db). replaceable (repair_workspace_id g) r"
      and "db' = snd (update_repairs (replaceable (repair_workspace_id g)) (\<lambda>_. repair_row_of g) db)"
    | "repair_workspace_id g \<notin> rr_workspace_id ` set (db_repairs db)"
      and "db' = db\<lparr>db_repairs := db_repairs db @ [repair_row_of g]\<rparr>"
  using assms unfolding claim_repair_def Let_def by (auto split: if_splits simp: filter_empty_conv)

lemma repair_row_of_keys [simp]:
  "rr_workspace_id (repair_row_of g) = repair_workspace_id g"
  "rr_generation_id (repair_row_of g) = repair_generation_id g"
  "rr_state (repair_row_of g) = ''active''"
  by (simp_all add: repair_row_of_def)

lemma claim_keeps:
  assumes "claim_repair gen db = Inr (Some db')"
  shows "repairs_keyed db \<Longrightarrow> repairs_keyed db'"
    and "not_owned w g db \<Longrightarrow> \<not> (repair_workspace_id gen = w \<and> repair_generation_id gen = g)
      \<Longrightarrow> not_owned w g db'"
proof -
  have ws: "map rr_workspace_id (map (\<lambda>r. if replaceable (repair_workspace_id gen) r
      then repair_row_of gen else r) rows) = map rr_workspace_id rows" for rows
    by (auto simp: replaceable_def)
  show "repairs_keyed db \<Longrightarrow> repairs_keyed db'"
    using assms by (cases rule: claim_cases) (simp_all add: repairs_keyed_def ws del: map_map)
  show "not_owned w g db \<Longrightarrow> \<not> (repair_workspace_id gen = w \<and> repair_generation_id gen = g)
      \<Longrightarrow> not_owned w g db'"
    using assms by (cases rule: claim_cases) (auto simp: not_owned_def list_all_iff)
qed

lemma acquire_cases:
  obtains "keeps_repair_keys db (snd (acquire_graph_repair gen now db))"
      and "\<And>g. fst (acquire_graph_repair gen now db) \<noteq> Inr (Acquired g)"
    | db2 where "claim_repair gen (interrupt_expired (repair_workspace_id gen) now db) = Inr (Some db2)"
      and "acquire_graph_repair gen now db = (Inr (Acquired gen), db2)"
proof -
  let ?db1 = "interrupt_expired (repair_workspace_id gen) now db"
  show thesis
  proof (cases "i64_max < repair_documents_considered gen")
    case True
    then show thesis using that(1) by (simp add: acquire_graph_repair_def Let_def)
  next
    case False
    show thesis
    proof (cases "claim_repair gen ?db1")
      case (Inl e)
      then show thesis using that(1) False by (simp add: acquire_graph_repair_def Let_def)
    next
      case (Inr claimed)
      then show thesis
        using that False keeps_interrupt [of db "repair_workspace_id gen" now]
        by (cases claimed)
          (simp_all add: acquire_graph_repair_def Let_def and_then_eq_Inr split: option.splits)
    qed
  qed
qed

lemma step_repairs:
  assumes "graph_step db op db'"
  shows "repairs_keyed db \<Longrightarrow> repairs_keyed db'"
    and "not_owned w g db \<Longrightarrow> \<not> acquires w g op \<Longrightarrow> not_owned w g db'"
proof -
  have acq: "(repairs_keyed db \<longrightarrow> repairs_keyed db')
      \<and> (not_owned w g db \<longrightarrow> \<not> acquires w g op \<longrightarrow> not_owned w g db')"
    if "op = AcquireRepair gen now" "db' = snd (acquire_graph_repair gen now db)" for gen now
  proof -
    note same = keeps_keyed [OF keeps_interrupt] keeps_not_owned [OF keeps_interrupt]
    show ?thesis
    proof (rule acquire_cases [of db gen now])
      assume "keeps_repair_keys db (snd (acquire_graph_repair gen now db))"
      then show ?thesis using that keeps_keyed keeps_not_owned by blast
    next
      fix db2
      assume c: "claim_repair gen (interrupt_expired (repair_workspace_id gen) now db) = Inr (Some db2)"
        and "acquire_graph_repair gen now db = (Inr (Acquired gen), db2)"
      then show ?thesis
        using that claim_keeps(1) [OF c] claim_keeps(2) [OF c, of w g]
        by (simp add: acquires_def same)
    qed
  qed
  have other: "keeps_repair_keys db db'" if "\<And>gen now. op \<noteq> AcquireRepair gen now"
    using assms
  proof cases
    case content
    then show ?thesis by (simp add: same_lifecycle_def)
  qed (simp add: operation_keeps_keys that)
  have run: "db' = snd (acquire_graph_repair gen now db)" if "op = AcquireRepair gen now" for gen now
    using assms that by cases simp_all
  show "repairs_keyed db \<Longrightarrow> repairs_keyed db'"
    using acq run other keeps_keyed by (cases "\<exists>gen now. op = AcquireRepair gen now") blast+
  show "not_owned w g db \<Longrightarrow> \<not> acquires w g op \<Longrightarrow> not_owned w g db'"
    using acq run other keeps_not_owned by (cases "\<exists>gen now. op = AcquireRepair gen now") blast+
qed

section \<open>Reachable databases\<close>

definition empty_db :: graph_db where
  "empty_db = \<lparr>db_documents = [], db_chunks = [], db_analysis = [], db_revisions = [],
     db_repairs = [], db_nodes = [], db_edges = [], db_facts = [], db_unresolved = [],
     db_projections = [], db_candidates = []\<rparr>"

definition reachable :: "graph_db \<Rightarrow> bool" where
  "reachable db \<longleftrightarrow> (\<exists>ops. graph_run empty_db ops db)"

lemma reachable_revisions: "reachable db \<Longrightarrow> revisions_ok db"
  using run_evolves [of empty_db _ db]
  by (auto simp: reachable_def evolves_def revisions_ok_def empty_db_def)

lemma reachable_repairs: "reachable db \<Longrightarrow> repairs_keyed db"
  unfolding reachable_def
proof (elim exE)
  fix ops
  assume "graph_run empty_db ops db"
  then show "repairs_keyed db"
    by (rule graph_run_invariant) (auto simp: empty_db_def repairs_keyed_def step_repairs(1)
        [unfolded repairs_keyed_def])
qed

lemma keyed_unique:
  "repairs_keyed db \<Longrightarrow> r \<in> set (db_repairs db) \<Longrightarrow> s \<in> set (db_repairs db)
    \<Longrightarrow> rr_workspace_id r = rr_workspace_id s \<Longrightarrow> r = s"
  by (auto simp: repairs_keyed_def distinct_map inj_on_def)

section \<open>Who may finish a repair\<close>


lemma update_repairs_none:
  assumes "\<And>r. r \<in> set (db_repairs db) \<Longrightarrow> \<not> P r"
  shows "snd (update_repairs P f db) = db" and "filter P (db_repairs db) = []"
proof -
  have "map (\<lambda>r. if P r then f r else r) (db_repairs db) = db_repairs db"
    using assms by (simp add: map_idI)
  then show "snd (update_repairs P f db) = db"
    by (simp add: update_repairs_def update_where_def)
  show "filter P (db_repairs db) = []" using assms by (simp add: filter_empty_conv)
qed

lemma update_revisions_none:
  assumes "\<And>r. r \<in> set (db_revisions db) \<Longrightarrow> \<not> P r"
  shows "snd (update_revisions P f db) = db" and "filter P (db_revisions db) = []"
proof -
  have "map (\<lambda>r. if P r then f r else r) (db_revisions db) = db_revisions db"
    using assms by (simp add: map_idI)
  then show "snd (update_revisions P f db) = db"
    by (simp add: update_revisions_def update_where_def)
  show "filter P (db_revisions db) = []" using assms by (simp add: filter_empty_conv)
qed

text \<open>What a generation without a live repair is told, and that it changes nothing.\<close>

definition reconciliation_refused :: "reconciliation_status update \<Rightarrow> graph_db \<Rightarrow> bool" where
  "reconciliation_refused u db \<longleftrightarrow>
     fst u \<noteq> Inr ReconciledCurrent \<and> fst u \<noteq> Inr ReconciledStale \<and> snd u = db"

lemma apply_refused:
  assumes "\<not> repair_owned b t db"
  shows "reconciliation_refused (apply_graph_reconciliation to_text b t db) db"
  using assms
  by (simp add: reconciliation_refused_def apply_graph_reconciliation_def
      split: sum.split option.split)

definition refused :: "string \<Rightarrow> string \<Rightarrow> timestamp \<Rightarrow> graph_db \<Rightarrow> bool" where
  "refused w g t db \<longleftrightarrow>
     (\<forall>n l. fst (record_graph_repair_progress w g n l t db) \<noteq> Inr True
        \<and> snd (record_graph_repair_progress w g n l t db) = db)
     \<and> (\<forall>n e. fst (fail_graph_repair w g n e t db) \<noteq> Inr True
        \<and> snd (fail_graph_repair w g n e t db) = db)
     \<and> (\<forall>v x. complete_graph_repair w g v x t db = (Inr False, db))
     \<and> (\<forall>v x. mark_graph_updating_if_current w v x t (Some g) db = (Inr False, db))
     \<and> (\<forall>v x e. mark_graph_error_if_snapshot w v x (Some g) e t db = (Inr False, db))
     \<and> (\<forall>to_text b. batch_workspace_id b = w \<and> batch_repair_generation b = Some g \<longrightarrow>
          reconciliation_refused (apply_graph_reconciliation to_text b t db) db)"

lemma refused_if:
  assumes "\<And>r. r \<in> set (db_repairs db) \<Longrightarrow> \<not> live_repair w g t r"
  shows "refused w g t db"
proof -
  have own: "\<not> repair_allows w v (Some g) t db" for v
    using assms by (auto simp: repair_allows_def owns_repair_def)
  have none: "filter (\<lambda>r. live_repair w g t r \<and> rr_target_revision r = v) (db_repairs db) = []" for v
    using assms by (simp add: filter_empty_conv)
  have "\<not> repair_owned b t db" if "batch_workspace_id b = w" "batch_repair_generation b = Some g" for b
    using that none by (simp add: repair_owned_def row_count_def)
  then show ?thesis
    using update_repairs_none [OF assms]
    by (simp add: refused_def apply_refused record_graph_repair_progress_def fail_graph_repair_def
        complete_graph_repair_def mark_graph_updating_if_current_def none
        mark_graph_error_if_snapshot_def own update_revisions_none split_beta Let_def)
qed

lemma find_updated_row:
  assumes "distinct (map vr_workspace_id rows)" and "r \<in> set rows"
    and "vr_workspace_id r = w \<and> vr_content_revision r = v"
  shows "find (\<lambda>r. vr_workspace_id r = w)
      (map (\<lambda>r. if vr_workspace_id r = w \<and> vr_content_revision r = v then set_graph_current v t r else r)
        rows) = Some (set_graph_current v t r)"
  using assms by (induction rows) (auto simp: set_graph_current_def)

section \<open>Properties\<close>

text \<open>C31. However the graph operations of any callers interleave, starting from an empty database,
  every workspace's revision row can be read; it is current, in the full sense of \<open>is_current\<close>, as
  soon as its state says so; and along any further run its content revision and its graph's
  revision never go back.\<close>

theorem graph_revisions_advance:
  assumes "reachable db" and "graph_run db ops db'" and "r \<in> set (db_revisions db)"
  shows "(\<exists>s. graph_revision_of_row r = Inr s
      \<and> (revision_graph_state s = CurrentGraph \<longleftrightarrow> is_current s))
    \<and> (\<exists>r' \<in> set (db_revisions db'). vr_workspace_id r' = vr_workspace_id r
      \<and> vr_content_revision r \<le> vr_content_revision r'
      \<and> vr_graph_content_revision r \<le> vr_graph_content_revision r')"
proof
  have ok: "revisions_ok db" using assms(1) by (rule reachable_revisions)
  then have "revision_row_ok r" using assms(3) by (simp add: revisions_ok_def list_all_iff)
  then show "\<exists>s. graph_revision_of_row r = Inr s
      \<and> (revision_graph_state s = CurrentGraph \<longleftrightarrow> is_current s)"
    by (auto simp: revision_row_ok_def graph_revision_of_row_def is_current_def
        graph_state_from_storage_def)
  show "\<exists>r' \<in> set (db_revisions db'). vr_workspace_id r' = vr_workspace_id r
      \<and> vr_content_revision r \<le> vr_content_revision r'
      \<and> vr_graph_content_revision r \<le> vr_graph_content_revision r'"
    using run_evolves [OF assms(2) ok] assms(3) by (simp add: evolves_def later_row_def)
qed


text \<open>C16. A live lease is exclusive: while a generation holds an unexpired repair of a workspace, no
  acquisition made before the lease expires is granted and the repair row stays as it is; and
  every other generation is refused, its reconciliations included.\<close>

theorem live_repair_exclusive:
  assumes "reachable db" and "r \<in> set (db_repairs db)" and "live_repair w g now r"
    and "repair_workspace_id gen = w" and "h \<noteq> g"
  shows "fst (acquire_graph_repair gen now db) \<noteq> Inr (Acquired gen)
    \<and> r \<in> set (db_repairs (snd (acquire_graph_repair gen now db))) \<and> refused w h t db"
proof -
  have keyed: "repairs_keyed db" using assms(1) by (rule reachable_repairs)
  have w: "rr_workspace_id r = w" "rr_state r = ''active''" "now < rr_lease_expires_at r"
    "rr_generation_id r = g"
    using assms(3) by (simp_all add: live_repair_def)
  have r1: "r \<in> set (db_repairs (interrupt_expired w now db))"
    using assms(2) w by (force simp: interrupt_expired_def image_iff)
  have keyed1: "repairs_keyed (interrupt_expired w now db)"
    using keyed keeps_keyed [OF keeps_interrupt] by simp
  have none: "\<not> replaceable w s" if "s \<in> set (db_repairs (interrupt_expired w now db))" for s
    using keyed_unique [OF keyed1 that r1] w by (auto simp: replaceable_def)
  have claim: "claim_repair gen (interrupt_expired w now db) \<noteq> Inr (Some db2)" for db2
  proof
    assume "claim_repair gen (interrupt_expired w now db) = Inr (Some db2)"
    then show False
      using none r1 w(1) assms(4) by (cases rule: claim_cases) auto
  qed
  have "fst (acquire_graph_repair gen now db) \<noteq> Inr (Acquired gen)"
    using claim assms(4)
    by (auto simp: acquire_graph_repair_def Let_def and_then_eq_Inr split: sum.splits option.splits)
  moreover have "r \<in> set (db_repairs (snd (acquire_graph_repair gen now db)))"
    using claim assms(2,4) r1
    by (auto simp: acquire_graph_repair_def Let_def split: sum.splits option.splits)
  moreover have "refused w h t db"
  proof (rule refused_if)
    fix s
    assume "s \<in> set (db_repairs db)"
    then show "\<not> live_repair w h t s"
      using keyed_unique [OF keyed _ assms(2), of s] w assms(5) by (auto simp: live_repair_def)
  qed
  ultimately show ?thesis by blast
qed

text \<open>A repair that completes leaves the workspace readable: its graph is current at the
  repaired revision and no repair of it blocks structural reads; and every document's analysis,
  projection and row counts were what the caller expected.\<close>

theorem completed_repair_publishes:
  assumes "reachable db" and "complete_graph_repair w g v x t db = (Inr True, db')"
  shows "(\<exists>s. workspace_graph_revision_of w db' = Inr (Some s) \<and> is_current s
      \<and> revision_content_revision s = v)
    \<and> \<not> blocking_repair w db'
    \<and> (\<forall>p. workspace_graph_repair_of w db' = Inr (Some p)
        \<longrightarrow> \<not> blocks_structural_reads (repair_state_of p))
    \<and> analysis_expectations_match (graph_analysis_snapshot_rows w db) x"
proof -
  let ?P = "\<lambda>r. vr_workspace_id r = w \<and> vr_content_revision r = v"
  let ?done = "\<lambda>r. r\<lparr>rr_state := ''completed'', rr_lease_expires_at := t, rr_updated_at := t,
    rr_completed_at := Some t, rr_last_error := None\<rparr>"
  have one: "length (filter ?P (db_revisions db)) = 1"
    and live: "length (filter (live_repair w g t) (db_repairs db)) = 1"
    and match: "analysis_expectations_match (graph_analysis_snapshot_rows w db) x"
    and revs: "db_revisions db' = map (\<lambda>r. if ?P r then set_graph_current v t r else r) (db_revisions db)"
    and reps: "db_repairs db' = map (\<lambda>r. if live_repair w g t r then ?done r else r) (db_repairs db)"
    using assms(2) by (auto simp: complete_graph_repair_def split_beta Let_def split: if_splits)
  have ok: "revisions_ok db" and keyed: "repairs_keyed db"
    using assms(1) by (simp_all add: reachable_revisions reachable_repairs)
  obtain r where r: "r \<in> set (db_revisions db)" "?P r"
    using one by (metis (mono_tags, lifting) filter_empty_conv list.size(3) zero_neq_one)
  have rok: "revision_row_ok r" using ok r(1) by (simp add: revisions_ok_def list_all_iff)
  have found: "find (\<lambda>r. vr_workspace_id r = w) (db_revisions db') = Some (set_graph_current v t r)"
    using ok r unfolding revs revisions_ok_def by (intro find_updated_row) simp_all
  obtain q where q: "q \<in> set (db_repairs db)" "live_repair w g t q"
    using live by (metis (mono_tags, lifting) filter_empty_conv list.size(3) zero_neq_one)
  have completed: "rr_state s = ''completed''"
    if s: "s \<in> set (db_repairs db')" "rr_workspace_id s = w" for s
  proof -
    obtain p where p: "p \<in> set (db_repairs db)" "s = (if live_repair w g t p then ?done p else p)"
      using s(1) unfolding reps set_map by blast
    then have "rr_workspace_id p = rr_workspace_id q"
      using s(2) q(2) by (auto simp: live_repair_def split: if_splits)
    then have "p = q" using keyed_unique [OF keyed p(1) q(1)] by simp
    then show ?thesis using p(2) q(2) by simp
  qed
  have "\<not> blocks_structural_reads (repair_state_of p)"
    if "workspace_graph_repair_of w db' = Inr (Some p)" for p
    using that completed
    by (auto simp: workspace_graph_repair_of_def result_simps graph_repair_of_row_def
        blocks_structural_reads_def repair_state_from_storage_def split: option.splits
        dest!: find_SomeD)
  moreover have "\<exists>s. workspace_graph_revision_of w db' = Inr (Some s) \<and> is_current s
      \<and> revision_content_revision s = v"
    using found r(2) rok
    by (auto simp: workspace_graph_revision_of_def transpose_row_def graph_revision_of_row_def
        set_graph_current_def revision_row_ok_def is_current_def graph_state_from_storage_def)
  moreover have "\<not> blocking_repair w db'" using completed by (auto simp: blocking_repair_def)
  ultimately show ?thesis using match by blast
qed

section \<open>Witnesses\<close>

definition demo_generation :: "string \<Rightarrow> timestamp \<Rightarrow> timestamp \<Rightarrow> graph_repair_generation" where
  "demo_generation g start lease =
     \<lparr>repair_workspace_id = ''w'', repair_generation_id = g, repair_mode_of = Force,
      repair_target_revision = 0, repair_state_of = RepairActive, repair_started_at = start,
      repair_lease_expires_at = lease, repair_updated_at = start, repair_completed_at = None,
      repair_documents_considered = 0, repair_documents_repaired = 0,
      repair_documents_failed = 0, repair_last_error = None\<rparr>"

definition demo_repaired_db :: graph_db where
  "demo_repaired_db = run_op (AcquireRepair (demo_generation ''a'' 1 10) 1)
     (run_op (RegisterWorkspace ''w'' 0) empty_db)"

definition demo_revision_row :: graph_revision_row where
  "demo_revision_row =
     \<lparr>vr_workspace_id = ''w'', vr_content_revision = 0, vr_graph_content_revision = 0,
      vr_graph_schema_version = 1, vr_graph_state = ''current'', vr_update_started_at = None,
      vr_failed_target = None, vr_last_error = None, vr_updated_at = 0\<rparr>"

lemma demo_reachable: "reachable demo_repaired_db"
proof -
  have "graph_run empty_db [RegisterWorkspace ''w'' 0, AcquireRepair (demo_generation ''a'' 1 10) 1]
      demo_repaired_db"
    unfolding demo_repaired_db_def
    by (rule graph_run.step [OF graph_step.operation
          graph_run.step [OF graph_step.operation graph_run.finish]]) simp_all
  then show ?thesis unfolding reachable_def by blast
qed

lemma demo_graph_run: "graph_run demo_repaired_db [BumpContent ''w'' 2] (run_op (BumpContent ''w'' 2) demo_repaired_db)"
  by (rule graph_run.step [OF graph_step.operation graph_run.finish]) simp_all

lemma demo_rows:
  "db_revisions demo_repaired_db = [demo_revision_row]"
  "db_repairs demo_repaired_db = [repair_row_of (demo_generation ''a'' 1 10)]"
  "live_repair ''w'' ''a'' 5 (repair_row_of (demo_generation ''a'' 1 10))"
  "fst (acquire_graph_repair (demo_generation ''b'' 20 40) 20 demo_repaired_db)
     = Inr (Acquired (demo_generation ''b'' 20 40))"
  "fst (complete_graph_repair ''w'' ''a'' 0 [] 5 demo_repaired_db) = Inr True"
  by code_simp+











theorem graph_revisions_advance_witness:
  "(\<exists>s. graph_revision_of_row demo_revision_row = Inr s
      \<and> (revision_graph_state s = CurrentGraph \<longleftrightarrow> is_current s))
   \<and> (\<exists>r' \<in> set (db_revisions (run_op (BumpContent ''w'' 2) demo_repaired_db)).
        vr_workspace_id r' = vr_workspace_id demo_revision_row
        \<and> vr_content_revision demo_revision_row \<le> vr_content_revision r'
        \<and> vr_graph_content_revision demo_revision_row \<le> vr_graph_content_revision r')"
  by (rule graph_revisions_advance [OF demo_reachable demo_graph_run]) (simp add: demo_rows)


theorem live_repair_exclusive_witness:
  "fst (acquire_graph_repair (demo_generation ''b'' 5 40) 5 demo_repaired_db)
     \<noteq> Inr (Acquired (demo_generation ''b'' 5 40)) \<and> refused ''w'' ''b'' 5 demo_repaired_db"
  using live_repair_exclusive [OF demo_reachable _ demo_rows(3),
      of "demo_generation ''b'' 5 40" "''b''" 5]
  by (simp add: demo_rows demo_generation_def)

theorem completed_repair_publishes_witness:
  "\<exists>s. workspace_graph_revision_of ''w''
        (snd (complete_graph_repair ''w'' ''a'' 0 [] 5 demo_repaired_db)) = Inr (Some s)
      \<and> is_current s \<and> revision_content_revision s = 0"
proof -
  have "complete_graph_repair ''w'' ''a'' 0 [] 5 demo_repaired_db
      = (Inr True, snd (complete_graph_repair ''w'' ''a'' 0 [] 5 demo_repaired_db))"
    using demo_rows(5) by (metis prod.collapse)
  from completed_repair_publishes [OF demo_reachable this] show ?thesis by blast
qed

end
