(* ===== verification/HistoryResults.thy ===== *)
theory HistoryResults
  imports HistoryDemo
begin

text \<open>
  What every run of the history keeps: terminal episodes and their members, the membership of events,
  mutations and reviews that are executed once, the order of acceptance and events, the ledger of
  assessments and its pages.
\<close>

section \<open>Episodes\<close>

lemma terminal_row:
  assumes "episode_of_row r = Inr e" and "ep_status e \<noteq> OpenEpisode"
  shows "epr_status r \<noteq> ''open''"
proof
  assume "epr_status r = ''open''"
  then have "ep_status e = OpenEpisode"
    using episode_of_row_Inr [OF assms(1)]
    by (simp add: episode_status_from_storage_def enum_read_def episode_status_names_def)
  with assms(2) show False by simp
qed

lemma stored_episode_later:
  assumes "history_ok db" and "history_ok db'" and "later db db'" and "stored_episode w i db = Inr (Some e)"
  shows "\<exists>e'. stored_episode w i db' = Inr (Some e') \<and> ep_version e \<le> ep_version e'
    \<and> ep_session_id e' = ep_session_id e \<and> ep_task_id e' = ep_task_id e
    \<and> (ep_status e = OpenEpisode \<or> e' = e \<and> members_of w i db' = members_of w i db)"
proof -
  obtain r where r: "episode_row_of w i db = Some r" "episode_of_row r = Inr e"
    using assms(4) by (auto simp: stored_episode_Inr)
  obtain r' where r': "episode_row_of w i db' = Some r'" "episode_later r r'"
      "epr_status r \<noteq> ''open'' \<longrightarrow> members_of w i db' = members_of w i db"
    using assms(3) r(1) unfolding later_def history_later_def episodes_later_def by blast
  have "status_ok r'"
    using assms(2) episode_row_of_Some [OF r'(1)] by (simp add: history_ok_def episodes_ok_def)
  then obtain e' where e': "episode_of_row r' = Inr e'" using episode_of_row_ok by blast
  have "ep_status e = OpenEpisode \<or> e' = e \<and> members_of w i db' = members_of w i db"
    using terminal_row [OF r(2)] r' r(2) e' by (auto simp: episode_later_def)
  then show ?thesis
    using r'(1,2) e' episode_of_row_Inr [OF r(2)] episode_of_row_Inr [OF e']
    by (auto simp: stored_episode_Inr episode_later_def)
qed

text \<open>C6. An episode, once stored, stays in every later database of a run with its session and task;
  its version never goes back, and once it is closed or abandoned it does not change any more, and
  neither do its members.\<close>

theorem terminal_episodes_frozen:
  assumes "history_run hs empty_history db" and "history_run hs db db'"
    and "stored_episode w i db = Inr (Some e)"
  shows "\<exists>e'. stored_episode w i db' = Inr (Some e') \<and> ep_version e \<le> ep_version e'
    \<and> ep_session_id e' = ep_session_id e \<and> ep_task_id e' = ep_task_id e
    \<and> (ep_status e = OpenEpisode \<or> e' = e \<and> members_of w i db' = members_of w i db)"
  using stored_episode_later [OF _ _ _ assms(3)] history_run_keeps [OF assms(2)] reachable_ok [OF assms(1)]
  by blast

theorem terminal_episodes_frozen_witness:
  "stored_episode ''w'' ''ep'' demo_accepted = Inr (Some demo_episode)
     \<and> members_of ''w'' ''ep'' demo_accepted = members_of ''w'' ''ep'' demo_closed"
  using terminal_episodes_frozen [OF demo_reach(2) demo_accepted_run demo_episode_stored]
  by (auto simp: demo_episode_def)

text \<open>C37. In every reachable database the members of an episode are numbered from 0 in the order of
  their addition, there are at most 100, each is an event of the session and task of the episode, and
  no other episode has it.\<close>

theorem episode_membership:
  assumes "history_run hs empty_history db"
  shows "map mbr_ordinal (members_of w i db) = map int [0..<length (members_of w i db)]
    \<and> length (members_of w i db) \<le> max_episode_events
    \<and> (\<forall>m \<in> set (members_of w i db).
        (\<exists>e v. episode_row_of w i db = Some e \<and> event_row_of w (mbr_event_id m) db = Some v
           \<and> evr_session_id v = Some (epr_session_id e) \<and> evr_task_id v = epr_task_id e)
        \<and> (\<forall>j. mbr_event_id m \<in> mbr_event_id ` set (members_of w j db) \<longrightarrow> j = i))"
proof -
  have ok: "episodes_ok db" using reachable_ok [OF assms] by (simp add: history_ok_def)
  have members: "members_of w j db = episode_members w j db" for j
    using ok by (rule members_of_ok)
  have "inj_on member_key (set (hd_members db))" using ok by (simp add: episodes_ok_def distinct_map)
  then have only: "j = i" if "m \<in> set (episode_members w i db)" "m' \<in> set (episode_members w j db)"
      "mbr_event_id m = mbr_event_id m'" for m m' j
  proof -
    have "m \<in> set (hd_members db)" "m' \<in> set (hd_members db)" "member_key m = member_key m'"
        "mbr_episode_id m = i" "mbr_episode_id m' = j"
      using that by (auto simp: episode_members_def member_key_def)
    with \<open>inj_on _ _\<close> show ?thesis by (metis inj_onD)
  qed
  have own: "\<exists>e v. episode_row_of w i db = Some e \<and> event_row_of w (mbr_event_id m) db = Some v
      \<and> evr_session_id v = Some (epr_session_id e) \<and> evr_task_id v = epr_task_id e"
    if "m \<in> set (episode_members w i db)" for m
  proof -
    have "member_ok db m" "mbr_workspace_id m = w" "mbr_episode_id m = i"
      using ok that by (auto simp: episodes_ok_def episode_members_def)
    then show ?thesis by (auto simp: member_ok_def split: option.splits)
  qed
  have "contiguous (episode_members w i db) \<and> length (episode_members w i db) \<le> 100"
    using ok by (simp add: episodes_ok_def)
  then show ?thesis
    using only own unfolding members contiguous_def max_episode_events_def by blast
qed

theorem episode_membership_witness:
  "map mbr_ordinal (members_of ''w'' ''ep'' demo_closed)
    = map int [0..<length (members_of ''w'' ''ep'' demo_closed)]"
  using episode_membership [OF demo_reach(2), of "''w''" "''ep''"] by blast

text \<open>C13. A mutation of an episode is executed once: the same request, sent again to any later
  database, is answered with the episode as it is then and changes nothing, and a request with the
  same key and another content is refused.\<close>

theorem episode_mutations_once:
  assumes "history_run hs empty_history db" and "proper_mutation m"
    and "mutate_episode m db = Inr (e, db1)" and "history_run hs db1 db2"
    and "mutation_ready p" and "mutation_key p = mutation_key m"
  shows "if mutation_content p = mutation_content m
    then \<exists>e2. mutate_episode p db2 = Inr (e2, db2) \<and> ep_version e \<le> ep_version e2
    else \<exists>t. mutate_episode p db2 = Inl (ConflictErr t)"
proof -
  have ok: "history_ok db" using assms(1) by (rule reachable_ok)
  have "history_ok db1"
    using history_step_keeps [OF history_step.mutation [OF assms(2,3)] ok] by blast
  then have ok2: "history_ok db1" "history_ok db2" "later db1 db2"
    using history_run_keeps [OF assms(4)] by blast+
  have good: "episodes_ok db" "episodes_ok db2" "history_later db1 db2"
    using ok ok2 by (simp_all add: history_ok_def later_def)
  have ids: "distinct (map epr_id (hd_episodes db))" "distinct (map epr_id (hd_episodes db2))"
    using good by (simp_all add: episodes_ok_def)
  have key: "mt_workspace_id p = mt_workspace_id m" "mt_episode_id p = mt_episode_id m"
    using assms(6) by (simp_all add: mutation_key_def)
  show ?thesis
  proof (cases "mutation_content p = mutation_content m")
    case True
    have "mutation_receipt db2 (mutation_key m) = Some (mutation_content m)"
      using episode_requests.kept [OF good(3) episode_requests.recorded [OF good(1) assms(3)]] .
    then obtain e2 where e2: "mutate_episode p db2 = Inr (e2, db2)"
      using episode_requests.replayed [OF good(2) assms(5)] True assms(6) by auto
    have stored: "stored_episode (mt_workspace_id m) (mt_episode_id m) db1 = Inr (Some e)"
      using mutate_episode_stored [OF ids(1) assms(3)] .
    moreover have "stored_episode (mt_workspace_id m) (mt_episode_id m) db2 = Inr (Some e2)"
      using mutate_episode_stored [OF ids(2) e2] unfolding key .
    ultimately have "ep_version e \<le> ep_version e2"
      using stored_episode_later [OF ok2 stored] by auto
    with True e2 show ?thesis by auto
  next
    case False
    then show ?thesis
      using episode_requests.other_content [OF good(1) assms(3) good(3) assms(5,6)] by simp
  qed
qed


theorem episode_mutations_once_witness:
  "\<exists>e. mutate_episode demo_adding demo_closed = Inr (e, demo_closed)"
proof -
  have "mutation_ready demo_adding" by (simp add: mutation_ready_def demo_adding_def i64_max_def)
  then show ?thesis
    using episode_mutations_once [OF demo_open_run demo_adding_proper demo_added demo_closed_run, of demo_adding]
    by auto
qed

lemma closing_closes:
  assumes "distinct (map epr_id (hd_episodes db))" and "mutate_episode (closing blake3 t q) db = Inr (e, db1)"
    and "db1 \<noteq> db"
  shows "ep_status e = ClosedEpisode"
  using assms(2)
proof (cases rule: mutate_episode_cases)
  case (replay r)
  then show ?thesis using replay_mutation_Inr assms(3) by blast
next
  case (fresh d v)
  let ?m = "closing blake3 t q"
  define n where "n = int (tq_expected_version q)"
  note facts = mutate_episode_applied [OF assms(2) fresh(1) assms(1), simplified, folded n_def]
  obtain r where "episode_row_of (tq_workspace_id q) (tq_episode_id q) db = Some r"
      "mutable_episode ?m n r"
    and db1: "db1 = mutated ?m n (n + 1) (db\<lparr>hd_requests := hd_requests db @ [mutation_row_of ?m (n + 1)]\<rparr>)"
    using facts by blast
  then have "episode_row_of (tq_workspace_id q) (tq_episode_id q) db1 = Some (mutate_row ?m (n + 1) r)"
    unfolding db1 episode_row_of_mutated by (simp add: episode_row_of_def)
  then show ?thesis
    using mutate_episode_stored [OF assms(1,2)] episode_of_row_Inr [of "mutate_row ?m (n + 1) r" e]
    by (auto simp: stored_episode_Inr mutate_row_def closing_def)
qed

text \<open>C38. Closing an episode can be repeated: after a closing that took effect, the same request at
  any later time is answered with the very same closed episode and changes nothing.\<close>

theorem closing_repeatable:
  assumes "history_run hs empty_history db" and "close_episode blake3 now q db = Inr (e, db1)"
    and "db1 \<noteq> db" and "history_run hs db1 db2"
  shows "ep_status e = ClosedEpisode \<and> close_episode blake3 now2 q db2 = Inr (e, db2)"
proof -
  have key: "validate_episode_request_key (tq_request_key q) = Inr ()"
    and workspace: "tq_workspace_id q \<in> set (hd_workspaces db)"
    and mutate: "mutate_episode (closing blake3 now q) db = Inr (e, db1)"
    using assms(2)
    by (auto simp: close_episode_closing and_then_eq_Inr require_episode_def require_workspace_def)
  have ok: "history_ok db" using assms(1) by (rule reachable_ok)
  have ok1: "history_ok db1 \<and> later db db1"
    by (rule history_step_keeps [OF history_step.mutation [OF _ mutate] ok]) simp
  then have ok2: "history_ok db2" "later db1 db2" using history_run_keeps [OF assms(4)] by blast+
  have ids: "distinct (map epr_id (hd_episodes db))" "distinct (map epr_id (hd_episodes db2))"
    using ok ok2 by (simp_all add: history_ok_def episodes_ok_def)
  have closed: "ep_status e = ClosedEpisode" by (rule closing_closes [OF ids(1) mutate assms(3)])
  have stored: "stored_episode (tq_workspace_id q) (tq_episode_id q) db1 = Inr (Some e)"
    using mutate_episode_stored [OF ids(1) mutate] by simp
  have frozen: "stored_episode (tq_workspace_id q) (tq_episode_id q) db2 = Inr (Some e)"
    using stored_episode_later [OF _ ok2 stored] ok1 closed by auto
  have good: "history_later db1 db2" "episodes_ok db" "episodes_ok db2"
    using ok ok2 by (simp_all add: later_def history_ok_def)
  have "mutation_receipt db2 (mutation_key (closing blake3 now2 q))
      = Some (mutation_content (closing blake3 now2 q))"
    using episode_requests.kept [OF good(1) episode_requests.recorded [OF good(2) mutate]] by simp
  then obtain e2 where e2: "mutate_episode (closing blake3 now2 q) db2 = Inr (e2, db2)"
    using episode_requests.replayed [OF good(3)] episode_requests.ready_if [OF mutate]
    by (fastforce simp: mutation_ready_def)
  then have "e2 = e" using mutate_episode_stored [OF ids(2) e2] frozen by simp
  moreover have "tq_workspace_id q \<in> set (hd_workspaces db2)"
    using workspace ok1 ok2 by (auto simp: later_def history_later_def appended_def)
  ultimately show ?thesis
    using closed key e2 frozen
    by (simp add: close_episode_closing require_episode_def require_workspace_def ensure_def
        require_stored_episode_def)
qed


theorem closing_repeatable_witness:
  "close_episode (\<lambda>_. demo_digest) 9 demo_close_request demo_accepted = Inr (demo_episode, demo_accepted)"
  using closing_repeatable [OF demo_reach(1) demo_close demo_differ(1) demo_accepted_run] by blast

section \<open>The ledger of assessments\<close>

lemma require_experience_later:
  assumes "require_experience cd w db e = Inr ()" and "later db db2"
  shows "require_experience cd w db2 e = Inr ()"
proof -
  obtain r where "experience_record_in cd w e db = Inr (Some r)"
    using assms(1) by (auto simp: require_experience_def and_then_eq_Inr)
  then have "experience_record_in cd w e db2 = Inr (Some r)"
    using assms(2) record_later unfolding later_def by blast
  then show ?thesis by (simp add: require_experience_def ensure_def)
qed

lemma require_event_later:
  assumes "require_event cd w db v = Inr ()" and "later db db2"
  shows "require_event cd w db2 v = Inr ()"
proof -
  obtain e where e: "event_row_of w v db = Some e" "\<exists>y. event_of_row cd e = Inr y"
    using assms(1) by (auto simp: require_event_def stored_event_def transpose_row_def and_then_eq_Inr
        split: option.splits)
  have "event_row_of w v db2 = Some e"
    by (rule event_row_later [OF _ e(1)]) (use assms(2) in \<open>simp add: later_def\<close>)
  then show ?thesis
    using e(2) by (auto simp: require_event_def stored_event_def transpose_row_def ensure_def)
qed

text \<open>C14. A review is executed once: the same request, sent again at any later time under another
  id, is answered with the assessment of the first one and writes nothing.\<close>

theorem review_repeatable:
  assumes "history_run hs empty_history db" and "review blake3 (hs_codec hs) i now q db = Inr (x, db1)"
    and "history_run hs db1 db2" and "\<not> blank i2"
  shows "review blake3 (hs_codec hs) i2 now2 q db2 = Inr (x, db2)"
proof -
  let ?cd = "hs_codec hs" and ?w = "rq_workspace_id q"
  let ?a = "\<lambda>i t. reviewed_assessment i t q"
  have same_hash: "assessment_request_hash blake3 (?a i2 now2) = assessment_request_hash blake3 (?a i now)"
    by (simp add: assessment_request_hash_def assessment_material_def reviewed_assessment_def)
  have request: "validate_review_request q = Inr ()"
      "require_experience ?cd ?w db (rq_experience_id q) = Inr ()"
      "pred_option (\<lambda>r. require_experience ?cd ?w db r = Inr ()) (rq_replacement q)"
      "\<forall>v \<in> set (rq_evidence_event_ids q). require_event ?cd ?w db v = Inr ()"
    and append: "append_reviewed_experience_assessment (?a i now) (rq_request_key q)
      (assessment_request_hash blake3 (?a i now)) db = Inr (x, db1)"
    using assms(2) by (auto simp: review_def and_then_eq_Inr try_each_eq_Inr Let_def split: option.splits)
  have ok: "history_ok db" using assms(1) by (rule reachable_ok)
  have ok1: "history_ok db1 \<and> later db db1" by (rule append_reviewed_history [OF ok append])
  then have ok2: "history_ok db2" "later db1 db2" using history_run_keeps [OF assms(3)] by blast+
  then have later: "later db db2" using ok1 later_trans by blast
  have experience: "require_experience ?cd ?w db2 e = Inr ()"
    if "require_experience ?cd ?w db e = Inr ()" for e
    using that later by (rule require_experience_later)
  have event: "require_event ?cd ?w db2 v = Inr ()" if "require_event ?cd ?w db v = Inr ()" for v
    using that later by (rule require_event_later)
  have "validate_assessment (?a i now) = Inr ()"
    using append by (auto simp: append_reviewed_experience_assessment_def and_then_eq_Inr)
  then have "validate_assessment (?a i2 now2) = Inr ()"
    using assms(4) by (auto simp: validate_assessment_def reviewed_assessment_def and_then_eq_Inr)
  then have "append_reviewed_experience_assessment (?a i2 now2) (rq_request_key q)
      (assessment_request_hash blake3 (?a i now)) db2 = Inr (x, db2)"
    using ok ok2 append_again [OF _ append]
    by (simp add: history_ok_def later_def reviewed_assessment_def)
  then show ?thesis
    using request experience event
    by (auto simp: review_def and_then_eq_Inr try_each_eq_Inr Let_def same_hash split: option.splits)
qed

theorem review_repeatable_witness:
  "review demo_hash demo_codec ''a1'' 9 demo_review_request demo_reviewed
    = Inr (demo_assessment ''a0'', demo_reviewed)"
proof -
  have "\<not> blank ''a1''" by code_simp
  moreover have "review demo_hash (hs_codec demo_history_services) ''a0'' 5 demo_review_request demo_accepted
      = Inr (demo_assessment ''a0'', demo_reviewed)"
    using demo_review by (simp add: demo_history_services_def)
  ultimately show ?thesis
    using review_repeatable [OF demo_reach(3) _ history_run_refl, of demo_hash "''a0''" 5
        demo_review_request "demo_assessment ''a0''" demo_reviewed "''a1''" 9]
    by (simp add: demo_history_services_def)
qed

text \<open>C7. In every reachable database supersession is well-founded: in each workspace an experience
  has at most one replacement, and following replacements never comes back to where it began.\<close>

theorem supersession_well_founded:
  assumes "history_run hs empty_history db"
  shows "acyclic (set (replacements w db)) \<and> wf (set (replacements w db))
    \<and> distinct (map fst (replacements w db))"
proof -
  have "acyclic (set (replacements w db)) \<and> distinct (map fst (replacements w db))"
    using reachable_ok [OF assms] by (simp add: history_ok_def ledger_ok_def)
  then show ?thesis by (simp add: finite_acyclic_wf)
qed

theorem supersession_well_founded_witness: "wf (set (replacements ''w'' demo_reviewed))"
  using supersession_well_founded [OF history_run_trans [OF demo_reach(3) demo_reviewed_run]] by blast

text \<open>C39. The lifecycle of an experience is the one its assessments amount to, and it only advances,
  from active over disputed and refuted to superseded, whatever is written later.\<close>

theorem lifecycle_advances:
  assumes "history_run hs empty_history db" and "history_run hs db db'"
  shows "stored_lifecycle w i db \<le> stored_lifecycle w i db'
    \<and> stored_lifecycle w i db = lifecycle_of (map (\<lambda>r. as_kind (assessment_of_row db r))
        (assessment_rows w i db))"
proof -
  have ok: "history_ok db" using assms(1) by (rule reachable_ok)
  then have "ledger_later db db'" using history_run_keeps [OF assms(2)] by (simp add: later_def)
  moreover have "\<forall>a \<in> set (hd_assessments db). asr_kind a \<in> fst ` set assessment_names"
    using ok by (simp add: history_ok_def ledger_ok_def)
  ultimately show ?thesis using stored_lifecycle_later lifecycle_of_ledger by blast
qed

theorem lifecycle_advances_witness:
  "stored_lifecycle ''w'' ''i0'' demo_accepted \<le> stored_lifecycle ''w'' ''i0'' demo_reviewed"
  using lifecycle_advances [OF demo_reach(3) demo_reviewed_run] by blast

text \<open>C40. The pages of the assessments of an experience fit together: a page holds the next rows after
  its cursor, at most as many as asked for, the last page says so, and the cursor of any other page
  is followed by exactly the rows that the page left.\<close>

theorem assessment_pages:
  assumes "history_run hs empty_history db"
    and "0 < limit" and "limit \<le> max_experience_assessment_page_limit"
  shows "\<exists>p. experience_assessment_page w i after limit db = Inr p
    \<and> page_assessments p = map (assessment_of_row db) (take limit (remaining_rows w i after db))
    \<and> (case page_next_cursor p of
         None \<Rightarrow> drop limit (remaining_rows w i after db) = []
       | Some c \<Rightarrow> drop limit (remaining_rows w i after db) \<noteq> []
           \<and> remaining_rows w i (Some c) db = drop limit (remaining_rows w i after db))"
proof -
  have "distinct (map asr_id (hd_assessments db))"
    using reachable_ok [OF assms(1)] by (simp add: history_ok_def ledger_ok_def)
  then show ?thesis
    using page_Inr [OF assms(2,3)] remaining_after_page [OF _ assms(2)] by simp
qed


theorem assessment_pages_witness:
  "\<exists>p. experience_assessment_page ''w'' ''i0'' None 1 demo_reviewed = Inr p"
proof -
  have "(0::nat) < 1" "1 \<le> max_experience_assessment_page_limit"
    by (simp_all add: max_experience_assessment_page_limit_def)
  from assessment_pages [OF history_run_trans [OF demo_reach(3) demo_reviewed_run] this,
      where w = "''w''" and i = "''i0''" and after = None]
  show ?thesis by (rule exE) (rule exI, erule conjunct1)
qed

section \<open>Recurrence\<close>

lemma length_of_keys:
  assumes "distinct (map f xs)" and "distinct ys" and "f ` set xs = set ys"
  shows "length xs = length ys"
  by (metis assms distinct_card length_map list.set_map)

definition event_orders :: "string \<Rightarrow> string list \<Rightarrow> order_row list \<Rightarrow> order_row list" where
  "event_orders w events rows = filter (\<lambda>r. odr_workspace_id r = w \<and> odr_entity_kind r = ''event''
     \<and> odr_entity_id r \<in> set events) rows"

text \<open>Each event has one row in the order of writing.\<close>

lemma event_orders_length:
  assumes "order_ok db" and "distinct events" and "\<forall>v \<in> set events. event_row_of w v db \<noteq> None"
  shows "length (event_orders w events (hd_order db)) = length events"
proof (rule length_of_keys)
  have "inj_on order_key (set (hd_order db))" and "distinct (hd_order db)"
    using assms(1) by (simp_all add: order_ok_def distinct_map)
  then show "distinct (map odr_entity_id (event_orders w events (hd_order db)))"
    by (auto simp: distinct_map event_orders_def inj_on_def order_key_def)
  show "odr_entity_id ` set (event_orders w events (hd_order db)) = set events"
  proof
    show "set events \<subseteq> odr_entity_id ` set (event_orders w events (hd_order db))"
    proof
      fix v assume v: "v \<in> set events"
      then obtain e where "event_row_of w v db = Some e" using assms(3) by auto
      then have "(w, ''event'', v) \<in> order_key ` set (hd_order db)"
        using assms(1) event_row_of_Some by (force simp: order_ok_def)
      then show "v \<in> odr_entity_id ` set (event_orders w events (hd_order db))"
        using v by (force simp: event_orders_def order_key_def)
    qed
  qed (auto simp: event_orders_def)
qed (rule assms(2))

lemma old_event_orders:
  assumes "order_ok db"
  shows "event_orders w events (hd_order db) = [] \<longleftrightarrow> (\<forall>v \<in> set events. event_row_of w v db = None)"
proof
  assume none: "event_orders w events (hd_order db) = []"
  show "\<forall>v \<in> set events. event_row_of w v db = None"
  proof (rule ballI, rule ccontr)
    fix v assume v: "v \<in> set events" and "event_row_of w v db \<noteq> None"
    then obtain e where "event_row_of w v db = Some e" by auto
    then have "(w, ''event'', v) \<in> order_key ` set (hd_order db)"
      using assms event_row_of_Some by (force simp: order_ok_def)
    then show False using none v by (auto simp: event_orders_def filter_empty_conv order_key_def)
  qed
qed (use assms in \<open>auto simp: event_orders_def filter_empty_conv order_ok_def\<close>)

lemma seal_found:
  assumes "order_ok db0" and "experience_row_of w i db0 = None"
    and "hd_seals db = hd_seals db0 @ \<lparr>slr_workspace_id = w, slr_experience_id = i,
      slr_acceptance_order = n\<rparr> # ss"
  shows "find (\<lambda>s. slr_workspace_id s = w \<and> slr_experience_id s = i) (hd_seals db)
    = Some \<lparr>slr_workspace_id = w, slr_experience_id = i, slr_acceptance_order = n\<rparr>"
proof -
  have "find (\<lambda>s. slr_workspace_id s = w \<and> slr_experience_id s = i) (hd_seals db0) = None"
    using assms(1,2) by (auto simp: find_None_iff order_ok_def)
  then show ?thesis by (simp add: assms(3) find_append)
qed

text \<open>C5. Recurrence is counted by the order of writing: after an experience was accepted, and
  whatever was written later, events are reported as later than it exactly when none of them was
  stored at its acceptance.\<close>

theorem recurrence_follows_acceptance:
  assumes "history_run hs empty_history db"
    and "insert_consolidated_experience hs r version input db = Inr (x, db1)" and "db1 \<noteq> db"
    and "history_run hs db1 db2" and "events \<noteq> []" and "distinct events"
    and "\<forall>v \<in> set events. event_row_of (exp_workspace_id (er_experience r)) v db2 \<noteq> None"
  shows "events_ingressed_after_experience (exp_workspace_id (er_experience r))
      (exp_id (er_experience r)) events db2
    \<longleftrightarrow> (\<forall>v \<in> set events. event_row_of (exp_workspace_id (er_experience r)) v db = None)"
proof -
  let ?w = "exp_workspace_id (er_experience r)" and ?i = "exp_id (er_experience r)"
  let ?n = "hd_last_sequence db + 1"
  have ok: "history_ok db" using assms(1) by (rule reachable_ok)
  have "history_ok db1" using insert_experience_history [OF ok assms(2)] by blast
  then have ok2: "history_ok db2" "later db1 db2" using history_run_keeps [OF assms(4)] by blast+
  obtain n where n: "db1 = with_rows n db" "rows_hold (hs_codec hs) r n"
      "experience_row_allowed (wr_experience n) db"
    using assms(2) unfolding insert_consolidated_experience_def
    by (cases rule: insert_experience_checked_cases) (use assms(3) in auto)
  note row = rows_hold_row [OF n(2)]
  have fresh: "experience_row_of ?w ?i db = None" using allowed_fresh [OF n(3)] row by simp
  obtain ss where "hd_seals db2 = hd_seals db1 @ ss"
    using ok2 by (auto simp: later_def records_later_def)
  then have seal: "find (\<lambda>s. slr_workspace_id s = ?w \<and> slr_experience_id s = ?i) (hd_seals db2)
      = Some \<lparr>slr_workspace_id = ?w, slr_experience_id = ?i, slr_acceptance_order = Some ?n\<rparr>"
    using seal_found [OF _ fresh, of db2 "Some ?n" ss] ok row by (simp add: history_ok_def n(1))
  obtain rs where rs: "hd_order db2 = hd_order db1 @ rs" "\<forall>o' \<in> set rs. ?n < odr_sequence o'"
    using ok2 by (auto simp: later_def order_later_def n(1))
  have orders: "event_orders ?w events (hd_order db2)
      = event_orders ?w events (hd_order db) @ event_orders ?w events rs"
    by (simp add: rs(1) n(1) event_orders_def)
  have below: "\<forall>o' \<in> set (event_orders ?w events (hd_order db)). \<not> ?n < odr_sequence o'"
    using ok by (fastforce simp: history_ok_def order_ok_def event_orders_def)
  have above: "\<forall>o' \<in> set (event_orders ?w events rs). ?n < odr_sequence o'"
    using rs(2) by (simp add: event_orders_def)
  have "events_ingressed_after_experience ?w ?i events db2
      \<longleftrightarrow> list_all (\<lambda>o'. ?n < odr_sequence o') (event_orders ?w events (hd_order db2))"
    using event_orders_length [OF _ assms(6,7)] ok2 assms(5)
    by (simp add: events_ingressed_after_experience_def seal Let_def history_ok_def
        event_orders_def list.pred_map comp_def)
  also have "... \<longleftrightarrow> event_orders ?w events (hd_order db) = []"
    using below above unfolding orders
    by (cases "event_orders ?w events (hd_order db)") (auto simp: list_all_iff)
  also have "... \<longleftrightarrow> (\<forall>v \<in> set events. event_row_of ?w v db = None)"
    using ok by (intro old_event_orders) (simp add: history_ok_def)
  finally show ?thesis .
qed

theorem recurrence_follows_acceptance_witness:
  "events_ingressed_after_experience ''w'' ''i0'' [''e4''] demo_recurred"
proof -
  have "event_row_of ''w'' ''e4'' demo_recurred \<noteq> None"
    by (simp add: demo_recurred_def demo_with_event_def Let_def event_row_of_def demo_event_row_def
        find_append split: option.split)
  moreover have "event_row_of ''w'' ''e4'' demo_closed = None"
    by (simp add: event_row_of_def demo_tables demo_event_row_def)
  ultimately show ?thesis
    using recurrence_follows_acceptance [OF demo_reach(2) demo_inserted demo_differ(2) demo_recurred_run,
        of "[''e4'']"]
    by (simp add: demo_record_fields)
qed

end
