(* ===== verification/Analyzers.thy ===== *)
theory Analyzers
  imports GenericChunks
begin

text \<open>
  \<open>src/parsing/registry.rs\<close> and the identities of the analyzers it registers: which analyzer reads
  a path.  An analyzer is what the registry and its clients ask of it; a \<open>HashMap\<close> is a finite map.
  Parsing itself walks trees of a foreign parser and is not modelled.
\<close>

record language_analyzer =
  language_id :: string
  analyzer_id :: string
  analyzer_version :: string
  structure_version :: string
  extensions :: "string list"

text \<open>\<open>CARGO_PKG_VERSION\<close> of the crate.\<close>

definition cargo_pkg_version :: string where "cargo_pkg_version = ''0.5.1''"

definition rust_analyzer :: language_analyzer where
  "rust_analyzer = \<lparr>language_id = ''rust'', analyzer_id = ''tree-sitter-rust'',
     analyzer_version = cargo_pkg_version @ ''-3'', structure_version = ''rust-structure:v2'',
     extensions = [''rs'']\<rparr>"

definition python_analyzer :: language_analyzer where
  "python_analyzer = \<lparr>language_id = ''python'', analyzer_id = ''tree-sitter-python'',
     analyzer_version = cargo_pkg_version @ ''-2'', structure_version = ''python-structure:v2'',
     extensions = [''py'', ''pyi'']\<rparr>"

definition javascript_analyzer :: language_analyzer where
  "javascript_analyzer = \<lparr>language_id = ''javascript'', analyzer_id = ''tree-sitter-javascript'',
     analyzer_version = cargo_pkg_version @ ''-2'', structure_version = ''javascript-structure:v2'',
     extensions = [''js'', ''jsx'', ''mjs'', ''cjs'']\<rparr>"

definition typescript_analyzer :: language_analyzer where
  "typescript_analyzer = \<lparr>language_id = ''typescript'', analyzer_id = ''tree-sitter-typescript'',
     analyzer_version = cargo_pkg_version @ ''-2'', structure_version = ''typescript-structure:v2'',
     extensions = [''ts'', ''tsx'', ''mts'', ''cts'']\<rparr>"

definition csharp_analyzer :: language_analyzer where
  "csharp_analyzer = \<lparr>language_id = ''csharp'', analyzer_id = ''tree-sitter-c-sharp'',
     analyzer_version = cargo_pkg_version @ ''-2'', structure_version = ''csharp-structure:v2'',
     extensions = [''cs'']\<rparr>"

definition go_analyzer :: language_analyzer where
  "go_analyzer = \<lparr>language_id = ''go'', analyzer_id = ''tree-sitter-go'',
     analyzer_version = cargo_pkg_version @ ''-3'', structure_version = ''go-structure:v2'',
     extensions = [''go'']\<rparr>"

definition text_analyzer :: "generic_analyzer \<Rightarrow> language_analyzer" where
  "text_analyzer a = \<lparr>language_id = ''text'', analyzer_id = ''generic'',
     analyzer_version = generic_version a, structure_version = ''generic-structure:v1'',
     extensions = []\<rparr>"

section \<open>The registry\<close>

record analyzer_registry =
  by_extension :: "string \<rightharpoonup> language_analyzer"
  by_language :: "string \<rightharpoonup> language_analyzer"
  available_by_extension :: "string \<rightharpoonup> language_analyzer"
  available_by_language :: "string \<rightharpoonup> language_analyzer"
  fallback :: language_analyzer

definition registry_empty :: "language_analyzer \<Rightarrow> analyzer_registry" where
  "registry_empty a =
     \<lparr>by_extension = Map.empty, by_language = Map.empty, available_by_extension = Map.empty,
      available_by_language = Map.empty, fallback = a\<rparr>"

definition normal_extension :: "string \<Rightarrow> string" where
  "normal_extension e = to_ascii_lowercase (dropWhile (\<lambda>c. c = CHR ''.'') e)"

definition insert_extensions ::
    "language_analyzer \<Rightarrow> (string \<rightharpoonup> language_analyzer) \<Rightarrow> (string \<rightharpoonup> language_analyzer)" where
  "insert_extensions a m = fold (\<lambda>e m. m(normal_extension e \<mapsto> a)) (extensions a) m"

definition register_available :: "language_analyzer \<Rightarrow> analyzer_registry \<Rightarrow> analyzer_registry" where
  "register_available a r =
     r\<lparr>available_by_language := (available_by_language r)(language_id a \<mapsto> a),
       available_by_extension := insert_extensions a (available_by_extension r)\<rparr>"

definition enable :: "language_analyzer \<Rightarrow> analyzer_registry \<Rightarrow> analyzer_registry" where
  "enable a r =
     r\<lparr>by_language := (by_language r)(language_id a \<mapsto> a),
       by_extension := insert_extensions a (by_extension r)\<rparr>"

definition register_analyzer :: "language_analyzer \<Rightarrow> analyzer_registry \<Rightarrow> analyzer_registry" where
  "register_analyzer a r = enable a (register_available a r)"

record language_config =
  rust_enabled :: bool
  python_enabled :: bool
  javascript_enabled :: bool
  typescript_enabled :: bool
  csharp_enabled :: bool
  go_enabled :: bool

definition configured_analyzers :: "language_config \<Rightarrow> (bool \<times> language_analyzer) list" where
  "configured_analyzers c =
     [(rust_enabled c, rust_analyzer), (python_enabled c, python_analyzer),
      (javascript_enabled c, javascript_analyzer), (typescript_enabled c, typescript_analyzer),
      (csharp_enabled c, csharp_analyzer), (go_enabled c, go_analyzer)]"

definition configured :: "language_config \<Rightarrow> nat \<Rightarrow> nat \<Rightarrow> analyzer_registry" where
  "configured c target overlap =
     fold (\<lambda>(enabled, a) r.
         if enabled then enable a (register_available a r) else register_available a r)
       (configured_analyzers c) (registry_empty (text_analyzer (generic_new target overlap)))"

text \<open>\<open>Path::file_name\<close> and \<open>Path::extension\<close> for slash-separated paths.\<close>

definition file_name :: "string \<Rightarrow> string option" where
  "file_name path =
     (case rev (filter (\<lambda>s. s \<noteq> [] \<and> s \<noteq> ''.'') (split_on (CHR ''/'') path)) of
        [] \<Rightarrow> None | f # fs \<Rightarrow> if f = ''..'' then None else Some f)"

definition path_extension :: "string \<Rightarrow> string option" where
  "path_extension path =
     (case file_name path of None \<Rightarrow> None | Some f \<Rightarrow>
        let parts = split_on (CHR ''.'') f
        in if length parts < 2 \<or> length parts = 2 \<and> hd parts = [] then None
           else Some (last parts))"

definition for_path :: "analyzer_registry \<Rightarrow> string \<Rightarrow> language_analyzer" where
  "for_path r path =
     (case path_extension path of None \<Rightarrow> fallback r | Some e \<Rightarrow>
        case by_extension r (to_ascii_lowercase e) of None \<Rightarrow> fallback r | Some a \<Rightarrow> a)"

definition for_language :: "analyzer_registry \<Rightarrow> string \<Rightarrow> language_analyzer option" where
  "for_language r l = by_language r l"

definition available_for_path :: "analyzer_registry \<Rightarrow> string \<Rightarrow> language_analyzer option" where
  "available_for_path r path =
     (case path_extension path of None \<Rightarrow> None
      | Some e \<Rightarrow> available_by_extension r (to_ascii_lowercase e))"

definition available_for_language :: "analyzer_registry \<Rightarrow> string \<Rightarrow> language_analyzer option" where
  "available_for_language r l = available_by_language r l"

end
