(* ===== verification/Structural.thy ===== *)
theory Structural
  imports Analyzers GraphStore
begin

text \<open>
  \<open>src/service/structural.rs\<close>: bounded reads of the structural graph.  Each call of the storage
  sees the database at its own point in time; the requests thread that time, so that writers may
  run between any two calls.  The traversals are written over the two storage operations they
  use, whose contract is the locale \<open>graph_source\<close>, interpreted on the queries of the graph store.
  Reads that start from a free-text query are not modelled.
\<close>

section \<open>Calls of the storage\<close>

type_synonym 'a timed = "cortex_error + 'a \<times> nat"

definition call :: "storage \<Rightarrow> (graph_db \<Rightarrow> cortex_error + 'a) \<Rightarrow> nat \<Rightarrow> 'a timed" where
  "call storage query t =
     and_then (storage t) (\<lambda>db. and_then (query db) (\<lambda>x. Inr (x, Suc t)))"

type_synonym edges_op =
  "nat \<Rightarrow> string \<Rightarrow> bool \<Rightarrow> graph_edge_type list \<Rightarrow> nat \<Rightarrow> graph_edge list timed"
type_synonym node_op = "nat \<Rightarrow> string \<Rightarrow> graph_node option timed"

definition edges_at :: "storage \<Rightarrow> json_parser \<Rightarrow> string \<Rightarrow> edges_op" where
  "edges_at storage parse workspace t node incoming types limit =
     call storage (graph_edges_for_node parse workspace node incoming types limit) t"

definition node_at :: "storage \<Rightarrow> json_parser \<Rightarrow> string \<Rightarrow> node_op" where
  "node_at storage parse workspace t node = call storage (graph_node_by_id parse workspace node) t"

section \<open>Snapshots\<close>

definition version_current ::
    "analyzer_registry \<Rightarrow> document \<Rightarrow> graph_analysis_state \<Rightarrow> bool" where
  "version_current registry d s \<longleftrightarrow>
     (let a = for_path registry (document_relative_path d)
      in analysis_content_revision s = document_content_revision d
         \<and> analysis_analyzer_id s = analyzer_id a \<and> analysis_analyzer_version s = analyzer_version a
         \<and> analysis_structure_version s = structure_version a \<and> analysis_last_error s = None)"

fun versions_current ::
    "storage \<Rightarrow> analyzer_registry \<Rightarrow> document list \<Rightarrow> nat \<Rightarrow> bool timed" where
  "versions_current storage registry [] t = Inr (True, t)"
| "versions_current storage registry (d # ds) t =
     and_then (call storage (\<lambda>db. Inr (graph_analysis_state_of (document_id d) db)) t) (\<lambda>(s, t).
     case s of None \<Rightarrow> Inr (False, t)
     | Some s \<Rightarrow> if version_current registry d s then versions_current storage registry ds t
                 else Inr (False, t))"

definition analysis_versions_are_current ::
    "storage \<Rightarrow> analyzer_registry \<Rightarrow> string \<Rightarrow> nat \<Rightarrow> bool timed" where
  "analysis_versions_are_current storage registry workspace t =
     and_then (call storage (\<lambda>db. Inr (list_documents workspace db)) t) (\<lambda>(ds, t).
     versions_current storage registry ds t)"

definition repair_blocks :: "graph_repair_generation option \<Rightarrow> bool" where
  "repair_blocks r = (case r of None \<Rightarrow> False | Some g \<Rightarrow> blocks_structural_reads (repair_state_of g))"

definition graph_snapshot ::
    "storage \<Rightarrow> analyzer_registry \<Rightarrow> string \<Rightarrow> bool \<Rightarrow> nat \<Rightarrow> workspace_graph_revision timed" where
  "graph_snapshot storage registry workspace stale_allowed t =
     and_then (call storage (workspace_graph_revision_of workspace) t) (\<lambda>(r, t).
     and_then (ok_or r (NotFoundErr (''workspace graph revision '' @ workspace))) (\<lambda>snapshot.
     and_then (call storage (workspace_graph_repair_of workspace) t) (\<lambda>(repair, t).
     and_then (ensure (\<not> repair_blocks repair) (AnalysisErr (''structural graph for workspace ''
        @ workspace @ '' is unavailable while graph repair is active, failed, or interrupted''))) (\<lambda>_.
     and_then (if is_current snapshot then analysis_versions_are_current storage registry workspace t
               else Inr (True, t)) (\<lambda>(fresh, t).
     let snapshot = (if fresh then snapshot else snapshot\<lparr>revision_graph_state := StaleGraph\<rparr>)
     in and_then (ensure (stale_allowed \<or> is_current snapshot) (AnalysisErr
          (''structural graph for workspace '' @ workspace @ '' is ''
            @ graph_state_storage_name (revision_graph_state snapshot)
            @ ''; reindex the workspace or explicitly allow stale structural evidence''))) (\<lambda>_.
        Inr (snapshot, t)))))))"

definition ensure_snapshot_unchanged ::
    "storage \<Rightarrow> analyzer_registry \<Rightarrow> string \<Rightarrow> workspace_graph_revision \<Rightarrow> bool \<Rightarrow> nat
      \<Rightarrow> unit timed" where
  "ensure_snapshot_unchanged storage registry workspace before stale_allowed t =
     and_then (graph_snapshot storage registry workspace stale_allowed t) (\<lambda>(after, t).
     and_then (ensure (after = before) (AnalysisErr (''structural graph for workspace '' @ workspace
        @ '' changed during the read; retry against one graph snapshot''))) (\<lambda>_. Inr ((), t)))"


section \<open>Options, seeds and adjacent edges\<close>

definition validate_options :: "structural_read_options \<Rightarrow> cortex_error + unit" where
  "validate_options options =
     ensure (max_nodes options \<noteq> 0 \<and> max_nodes options \<le> max_structural_nodes
         \<and> max_edges options \<noteq> 0 \<and> max_edges options \<le> max_structural_edges
         \<and> max_depth options \<noteq> 0 \<and> max_depth options \<le> max_structural_depth)
       (AnalysisErr (''structural bounds require 1..='' @ digits max_structural_nodes
         @ '' nodes, 1..='' @ digits max_structural_edges @ '' edges, and 1..=''
         @ digits max_structural_depth @ '' depth''))"

fun load_seeds :: "node_op \<Rightarrow> string \<Rightarrow> nat \<Rightarrow> string list \<Rightarrow> string list \<Rightarrow> graph_node list \<Rightarrow> nat
    \<Rightarrow> graph_node list timed" where
  "load_seeds node_op workspace limit [] seen seeds t = Inr (seeds, t)"
| "load_seeds node_op workspace limit (n # ns) seen seeds t =
     (if n \<in> set seen then load_seeds node_op workspace limit ns seen seeds t
      else if limit < length (n # seen)
      then Inl (AnalysisErr (''structural seed count exceeds the effective node bound of ''
             @ digits limit))
      else and_then (node_op t n) (\<lambda>(found, t).
           and_then (ok_or found (NotFoundErr
             (''graph node '' @ n @ '' in workspace '' @ workspace))) (\<lambda>node.
           load_seeds node_op workspace limit ns (n # seen) (seeds @ [node]) t)))"

definition load_seed_nodes ::
    "node_op \<Rightarrow> string \<Rightarrow> string list \<Rightarrow> nat \<Rightarrow> nat \<Rightarrow> graph_node list timed" where
  "load_seed_nodes node_op workspace node_ids limit t =
     and_then (load_seeds node_op workspace limit node_ids [] [] t) (\<lambda>(seeds, t).
     Inr (sort_key node_stable_key seeds, t))"

definition adjacent_node_id :: "graph_edge \<Rightarrow> string \<Rightarrow> string option" where
  "adjacent_node_id e current =
     (if edge_from_node e = current then Some (edge_to_node e)
      else if edge_to_node e = current then Some (edge_from_node e)
      else None)"

definition adjacent_edges ::
    "edges_op \<Rightarrow> string \<Rightarrow> structural_direction \<Rightarrow> graph_edge_type list \<Rightarrow> nat \<Rightarrow> nat
      \<Rightarrow> graph_edge list timed" where
  "adjacent_edges edges_op node direction types limit t =
     and_then (if direction = Incoming then Inr ([], t)
               else edges_op t node False types limit) (\<lambda>(outgoing, t).
     and_then (if direction = Outgoing then Inr ([], t)
               else edges_op t node True types limit) (\<lambda>(incoming, t).
     Inr (take limit (dedup_by edge_id (sort_key
           (\<lambda>e. (edge_type_storage_name (edge_type_of e), edge_relationship_key e, edge_id e))
           (outgoing @ incoming))), t)))"

section \<open>Traversal\<close>

record traversal_state =
  ts_node_id :: string
  ts_node_ids :: "string list"
  ts_edges :: "graph_edge list"
  ts_confidence :: f32
  ts_depth :: nat

text \<open>The local variables of \<open>traverse_with_snapshot\<close>, and the time.\<close>

record traversal =
  tr_queue :: "traversal_state list"
  tr_seen :: "string list"
  tr_nodes :: "graph_node list"
  tr_edges :: "graph_edge list"
  tr_edge_ids :: "string list"
  tr_paths :: "structural_path list"
  tr_truncated :: bool
  tr_time :: nat

definition next_confidence :: "f32 \<Rightarrow> f32 \<Rightarrow> f32" where
  "next_confidence c e = f32_clamp (f32_mul c e) f32_zero f32_one"

definition record_edge :: "graph_edge \<Rightarrow> traversal \<Rightarrow> traversal" where
  "record_edge e w =
     (if edge_id e \<in> set (tr_edge_ids w) then w
      else w\<lparr>tr_edges := tr_edges w @ [e], tr_edge_ids := edge_id e # tr_edge_ids w\<rparr>)"

definition extend_state :: "traversal_state \<Rightarrow> graph_edge \<Rightarrow> graph_node \<Rightarrow> traversal_state" where
  "extend_state s e node =
     \<lparr>ts_node_id = node_id node, ts_node_ids = ts_node_ids s @ [node_id node],
      ts_edges = ts_edges s @ [e],
      ts_confidence = next_confidence (ts_confidence s) (edge_confidence e),
      ts_depth = ts_depth s + 1\<rparr>"

definition record_node :: "traversal_state \<Rightarrow> graph_node \<Rightarrow> traversal \<Rightarrow> traversal" where
  "record_node s' node w =
     w\<lparr>tr_paths := tr_paths w @ [\<lparr>path_node_ids = ts_node_ids s', path_edges = ts_edges s',
           path_confidence = ts_confidence s'\<rparr>],
       tr_nodes := tr_nodes w @ [node]\<rparr>"

fun visit_edges ::
    "node_op \<Rightarrow> nat \<Rightarrow> traversal_state \<Rightarrow> graph_edge list \<Rightarrow> traversal \<Rightarrow> cortex_error + traversal" where
  "visit_edges node_op limit s [] w = Inr w"
| "visit_edges node_op limit s (e # es) w =
     and_then (ok_or (adjacent_node_id e (ts_node_id s))
       (AnalysisErr ''structural edge does not touch traversal node'')) (\<lambda>next_id.
     let w = record_edge e w
     in if next_id \<in> set (tr_seen w) then visit_edges node_op limit s es w
        else
          let w = w\<lparr>tr_seen := next_id # tr_seen w\<rparr>
          in and_then (node_op (tr_time w) next_id) (\<lambda>(found, t).
             let w = w\<lparr>tr_time := t\<rparr>
             in case found of
                  None \<Rightarrow> visit_edges node_op limit s es w
                | Some node \<Rightarrow>
                    let s' = extend_state s e node; w = record_node s' node w
                    in if length (tr_nodes w) = limit
                       then Inr (w\<lparr>tr_truncated := (es \<noteq> [] \<or> tr_queue w \<noteq> [])\<rparr>)
                       else visit_edges node_op limit s es (w\<lparr>tr_queue := tr_queue w @ [s']\<rparr>)))"

text \<open>One round of the loop over the queue; \<open>Inl\<close> when the loop ends.\<close>

definition traverse_step ::
    "edges_op \<Rightarrow> node_op \<Rightarrow> structural_direction \<Rightarrow> graph_edge_type list \<Rightarrow> structural_read_options
      \<Rightarrow> traversal \<Rightarrow> (cortex_error + traversal) + traversal" where
  "traverse_step edges_op node_op direction types options w =
     (case tr_queue w of
        [] \<Rightarrow> Inl (Inr w)
      | s # queue \<Rightarrow>
          let w = w\<lparr>tr_queue := queue\<rparr>; remaining = max_edges options - length (tr_edges w)
          in if max_depth options \<le> ts_depth s then Inr w
             else if remaining = 0 \<or> length (tr_nodes w) = max_nodes options
             then Inl (Inr (w\<lparr>tr_truncated := True\<rparr>))
             else case adjacent_edges edges_op (ts_node_id s) direction types (remaining + 1)
                    (tr_time w) of
                    Inl err \<Rightarrow> Inl (Inl err)
                  | Inr (adjacent, t) \<Rightarrow>
                      let w = w\<lparr>tr_time := t,
                            tr_truncated := (tr_truncated w \<or> remaining < length adjacent)\<rparr>
                      in (case visit_edges node_op (max_nodes options) s (take remaining adjacent) w of
                            Inl err \<Rightarrow> Inl (Inl err) | Inr w \<Rightarrow> Inr w))"

definition seed_state :: "graph_node \<Rightarrow> traversal_state" where
  "seed_state seed =
     \<lparr>ts_node_id = node_id seed, ts_node_ids = [node_id seed], ts_edges = [],
      ts_confidence = f32_one, ts_depth = 0\<rparr>"

definition start_traversal :: "graph_node list \<Rightarrow> nat \<Rightarrow> traversal" where
  "start_traversal seeds t =
     \<lparr>tr_queue = map seed_state seeds, tr_seen = map node_id seeds, tr_nodes = [], tr_edges = [],
      tr_edge_ids = [], tr_paths = [], tr_truncated = False, tr_time = t\<rparr>"

definition traverse_loop ::
    "edges_op \<Rightarrow> node_op \<Rightarrow> structural_direction \<Rightarrow> graph_edge_type list \<Rightarrow> structural_read_options
      \<Rightarrow> graph_node list \<Rightarrow> nat \<Rightarrow> (cortex_error + traversal) option" where
  "traverse_loop edges_op node_op direction types options seeds t =
     run_loop (traverse_step edges_op node_op direction types options) (start_traversal seeds t)"

text \<open>\<open>traverse\<close> and the requests that are one hop of it.  \<open>None\<close> would be a loop that runs
  forever.\<close>

definition traverse ::
    "storage \<Rightarrow> json_parser \<Rightarrow> analyzer_registry \<Rightarrow> string \<Rightarrow> string list \<Rightarrow> structural_direction
      \<Rightarrow> graph_edge_type list \<Rightarrow> structural_read_options \<Rightarrow> nat
      \<Rightarrow> (structural_result timed) option" where
  "traverse storage parse registry workspace seed_ids direction types options t =
     (case and_then (validate_options options) (\<lambda>_.
           and_then (graph_snapshot storage registry workspace (allow_stale options) t) (\<lambda>(snapshot, t).
           and_then (load_seed_nodes (node_at storage parse workspace) workspace seed_ids
             (max_nodes options) t) (\<lambda>(seeds, t). Inr (snapshot, seeds, t)))) of
        Inl err \<Rightarrow> Some (Inl err)
      | Inr (snapshot, seeds, t) \<Rightarrow>
          (case traverse_loop (edges_at storage parse workspace) (node_at storage parse workspace)
                  direction types options seeds t of
             None \<Rightarrow> None
           | Some r \<Rightarrow> Some (and_then r (\<lambda>w.
               and_then (ensure_snapshot_unchanged storage registry workspace snapshot
                 (allow_stale options) (tr_time w)) (\<lambda>(_, t).
               Inr (\<lparr>result_snapshot = snapshot, result_limits = options, result_seeds = seeds,
                 result_nodes = tr_nodes w, result_edges = tr_edges w, result_paths = tr_paths w,
                 result_truncated = tr_truncated w\<rparr>, t))))))"

definition one_hop ::
    "storage \<Rightarrow> json_parser \<Rightarrow> analyzer_registry \<Rightarrow> string \<Rightarrow> string \<Rightarrow> structural_direction
      \<Rightarrow> graph_edge_type list \<Rightarrow> structural_read_options \<Rightarrow> nat
      \<Rightarrow> (structural_result timed) option" where
  "one_hop storage parse registry workspace node direction types options t =
     traverse storage parse registry workspace [node] direction types (options\<lparr>max_depth := 1\<rparr>) t"

definition neighbors where
  "neighbors storage parse registry workspace node options t =
     traverse storage parse registry workspace [node] Both [] (options\<lparr>max_depth := 1\<rparr>) t"

definition callers where
  "callers storage parse registry workspace node =
     one_hop storage parse registry workspace node Incoming [Calls]"

definition callees where
  "callees storage parse registry workspace node =
     one_hop storage parse registry workspace node Outgoing [Calls]"

definition references where
  "references storage parse registry workspace node =
     one_hop storage parse registry workspace node Incoming [References]"

definition implementations where
  "implementations storage parse registry workspace node =
     one_hop storage parse registry workspace node Incoming [Implements, Extends, Overrides]"

definition tests_of where
  "tests_of storage parse registry workspace node =
     one_hop storage parse registry workspace node Incoming [Tests]"

definition dependencies where
  "dependencies storage parse registry workspace node =
     one_hop storage parse registry workspace node Outgoing [Imports, DependsOn]"

definition dependents where
  "dependents storage parse registry workspace node =
     one_hop storage parse registry workspace node Incoming [Imports, DependsOn]"

section \<open>Finding symbols\<close>

definition find_symbol ::
    "storage \<Rightarrow> json_parser \<Rightarrow> analyzer_registry \<Rightarrow> string \<Rightarrow> string \<Rightarrow> structural_read_options \<Rightarrow> nat
      \<Rightarrow> structural_result timed" where
  "find_symbol storage parse registry workspace symbol options t =
     and_then (validate_options options) (\<lambda>_.
     and_then (graph_snapshot storage registry workspace (allow_stale options) t) (\<lambda>(snapshot, t).
     and_then (call storage (graph_nodes_matching parse workspace symbol (max_nodes options + 1)) t)
       (\<lambda>(seeds, t).
     and_then (ensure_snapshot_unchanged storage registry workspace snapshot (allow_stale options) t)
       (\<lambda>(_, t).
     Inr (\<lparr>result_snapshot = snapshot, result_limits = options,
       result_seeds = take (max_nodes options) seeds, result_nodes = [], result_edges = [],
       result_paths = [], result_truncated = max_nodes options < length seeds\<rparr>, t)))))"

fun push_segment :: "string list \<Rightarrow> string \<Rightarrow> string list" where
  "push_segment segments s =
     (if s = [] \<or> s = ''.'' then segments
      else if s = ''..''
      then (if segments \<noteq> [] \<and> last segments \<noteq> ''..'' then butlast segments else segments @ [s])
      else segments @ [s])"

definition normalize_path :: "string \<Rightarrow> string" where
  "normalize_path value =
     join_with ''/'' (foldl push_segment [] (split_on (CHR ''/'') (to_slashes (trim value))))"

section \<open>Impact\<close>

definition reverse_types :: "graph_edge_type list" where
  "reverse_types = [Calls, References, Implements, Extends, UsesType, Constructs, Overrides, Tests,
     Imports, DependsOn]"

record impact_entry =
  ie_node :: graph_node
  ie_path :: structural_path
  ie_depth :: nat

record impact_search =
  is_queue :: "impact_entry list"
  is_seen :: "string list"
  is_impacts :: "impact_item list"
  is_traversed :: nat
  is_truncated :: bool
  is_time :: nat

definition impact_edges :: "edges_op \<Rightarrow> impact_entry \<Rightarrow> nat \<Rightarrow> nat \<Rightarrow> graph_edge list timed" where
  "impact_edges edges_op s limit t =
     and_then (edges_op t (node_id (ie_node s)) True reverse_types limit) (\<lambda>(adjacent, t).
     and_then (if ie_depth s = 0 \<and> node_type_of (ie_node s) = FileNode
               then edges_op t (node_id (ie_node s)) False [Contains] limit
               else Inr ([], t)) (\<lambda>(contained, t).
     Inr (dedup_by edge_id (sort_key
           (\<lambda>e. (edge_type_storage_name (edge_type_of e), edge_relationship_key e))
           (adjacent @ contained)), t)))"

definition extend_path :: "structural_path \<Rightarrow> graph_edge \<Rightarrow> graph_node \<Rightarrow> structural_path" where
  "extend_path p e node =
     \<lparr>path_node_ids = path_node_ids p @ [node_id node], path_edges = path_edges p @ [e],
      path_confidence = next_confidence (path_confidence p) (edge_confidence e)\<rparr>"

fun visit_impacts ::
    "node_op \<Rightarrow> nat \<Rightarrow> impact_entry \<Rightarrow> graph_edge list \<Rightarrow> impact_search
      \<Rightarrow> cortex_error + impact_search" where
  "visit_impacts node_op limit s [] w = Inr w"
| "visit_impacts node_op limit s (e # es) w =
     (let w = w\<lparr>is_traversed := is_traversed w + 1\<rparr>
      in and_then (ok_or (adjacent_node_id e (node_id (ie_node s)))
         (AnalysisErr ''impact edge does not touch traversal node'')) (\<lambda>next_id.
         if next_id \<in> set (is_seen w) then visit_impacts node_op limit s es w
         else
           let w = w\<lparr>is_seen := next_id # is_seen w\<rparr>
           in and_then (node_op (is_time w) next_id) (\<lambda>(found, t).
              let w = w\<lparr>is_time := t\<rparr>
              in case found of
                   None \<Rightarrow> visit_impacts node_op limit s es w
                 | Some node \<Rightarrow>
                     let p = extend_path (ie_path s) e node;
                         w = w\<lparr>is_impacts := is_impacts w @ [\<lparr>impact_node = node, impact_path = p,
                                 impact_confidence = path_confidence p\<rparr>],
                               is_queue := is_queue w @
                                 [\<lparr>ie_node = node, ie_path = p, ie_depth = ie_depth s + 1\<rparr>]\<rparr>
                     in if length (is_impacts w) = limit
                        then Inr (w\<lparr>is_truncated := (es \<noteq> [] \<or> is_queue w \<noteq> [])\<rparr>)
                        else visit_impacts node_op limit s es w)))"

definition impact_step ::
    "edges_op \<Rightarrow> node_op \<Rightarrow> structural_read_options \<Rightarrow> impact_search
      \<Rightarrow> (cortex_error + impact_search) + impact_search" where
  "impact_step edges_op node_op options w =
     (case is_queue w of
        [] \<Rightarrow> Inl (Inr w)
      | s # queue \<Rightarrow>
          let w = w\<lparr>is_queue := queue\<rparr>; remaining = max_edges options - is_traversed w
          in if max_depth options \<le> ie_depth s then Inr w
             else if remaining = 0 \<or> length (is_impacts w) = max_nodes options
             then Inl (Inr (w\<lparr>is_truncated := True\<rparr>))
             else case impact_edges edges_op s (remaining + 1) (is_time w) of
                    Inl err \<Rightarrow> Inl (Inl err)
                  | Inr (adjacent, t) \<Rightarrow>
                      let w = w\<lparr>is_time := t,
                            is_truncated := (is_truncated w \<or> remaining < length adjacent)\<rparr>
                      in (case visit_impacts node_op (max_nodes options) s
                                 (take remaining adjacent) w of
                            Inl err \<Rightarrow> Inl (Inl err) | Inr w \<Rightarrow> Inr w))"

definition seed_entry :: "graph_node \<Rightarrow> impact_entry" where
  "seed_entry seed =
     \<lparr>ie_node = seed, ie_path = \<lparr>path_node_ids = [node_id seed], path_edges = [],
        path_confidence = f32_one\<rparr>, ie_depth = 0\<rparr>"

definition start_impact :: "graph_node list \<Rightarrow> nat \<Rightarrow> impact_search" where
  "start_impact seeds t =
     \<lparr>is_queue = map seed_entry seeds, is_seen = map node_id seeds, is_impacts = [],
      is_traversed = 0, is_truncated = False, is_time = t\<rparr>"

definition impact_order :: "impact_item \<Rightarrow> nat \<times> int \<times> string" where
  "impact_order i = (distance (impact_path i), - f32_total_key (impact_confidence i),
     node_stable_key (impact_node i))"

definition impact_from_seed_nodes ::
    "storage \<Rightarrow> json_parser \<Rightarrow> analyzer_registry \<Rightarrow> string \<Rightarrow> workspace_graph_revision
      \<Rightarrow> graph_node list \<Rightarrow> structural_read_options \<Rightarrow> nat \<Rightarrow> (impact_report timed) option" where
  "impact_from_seed_nodes storage parse registry workspace snapshot seeds options t =
     (case validate_options options of
        Inl err \<Rightarrow> Some (Inl err)
      | Inr _ \<Rightarrow>
          (case run_loop (impact_step (edges_at storage parse workspace)
                  (node_at storage parse workspace) options) (start_impact seeds t) of
             None \<Rightarrow> None
           | Some r \<Rightarrow> Some (and_then r (\<lambda>w.
               and_then (ensure_snapshot_unchanged storage registry workspace snapshot
                 (allow_stale options) (is_time w)) (\<lambda>(_, t).
               Inr (\<lparr>report_snapshot = snapshot, report_limits = options, report_seeds = seeds,
                 report_impacts = sort_key impact_order (is_impacts w),
                 report_truncated = is_truncated w\<rparr>, t))))))"

definition impact_from_symbol ::
    "storage \<Rightarrow> json_parser \<Rightarrow> analyzer_registry \<Rightarrow> string \<Rightarrow> string \<Rightarrow> structural_read_options \<Rightarrow> nat
      \<Rightarrow> (impact_report timed) option" where
  "impact_from_symbol storage parse registry workspace symbol options t =
     (case find_symbol storage parse registry workspace symbol options t of
        Inl err \<Rightarrow> Some (Inl err)
      | Inr (found, t) \<Rightarrow> impact_from_seed_nodes storage parse registry workspace
          (result_snapshot found) (result_seeds found) options t)"

definition impact_from_path ::
    "storage \<Rightarrow> json_parser \<Rightarrow> analyzer_registry \<Rightarrow> string \<Rightarrow> string \<Rightarrow> structural_read_options \<Rightarrow> nat
      \<Rightarrow> (impact_report timed) option" where
  "impact_from_path storage parse registry workspace path options t =
     (case find_symbol storage parse registry workspace (normalize_path path) options t of
        Inl err \<Rightarrow> Some (Inl err)
      | Inr (found, t) \<Rightarrow> impact_from_seed_nodes storage parse registry workspace
          (result_snapshot found)
          (filter (\<lambda>n. node_type_of n = FileNode) (result_seeds found)) options t)"

definition impact_from_nodes ::
    "storage \<Rightarrow> json_parser \<Rightarrow> analyzer_registry \<Rightarrow> string \<Rightarrow> string list \<Rightarrow> structural_read_options
      \<Rightarrow> nat \<Rightarrow> (impact_report timed) option" where
  "impact_from_nodes storage parse registry workspace seed_ids options t =
     (case and_then (validate_options options) (\<lambda>_.
           and_then (graph_snapshot storage registry workspace (allow_stale options) t) (\<lambda>(snapshot, t).
           and_then (load_seed_nodes (node_at storage parse workspace) workspace seed_ids
             (max_nodes options) t) (\<lambda>(seeds, t). Inr (snapshot, seeds, t)))) of
        Inl err \<Rightarrow> Some (Inl err)
      | Inr (snapshot, seeds, t) \<Rightarrow>
          impact_from_seed_nodes storage parse registry workspace snapshot seeds options t)"


section \<open>The contract of the storage\<close>

locale graph_source =
  fixes edges_op :: edges_op and node_op :: node_op
  assumes edges_touch: "edges_op t n incoming types limit = Inr (es, t') \<Longrightarrow> e \<in> set es
      \<Longrightarrow> (if incoming then edge_to_node e else edge_from_node e) = n"
    and edges_typed: "edges_op t n incoming types limit = Inr (es, t') \<Longrightarrow> e \<in> set es
      \<Longrightarrow> types \<noteq> [] \<Longrightarrow> edge_type_of e \<in> set types"
    and node_found: "node_op t n = Inr (Some node, t') \<Longrightarrow> node_id node = n"

lemma call_Inr [result_simps]:
  "call storage query t = Inr (x, t') \<longleftrightarrow> (\<exists>db. storage t = Inr db \<and> query db = Inr x) \<and> t' = Suc t"
  by (auto simp: call_def and_then_eq_Inr)

interpretation stored_graph: graph_source "edges_at storage parse workspace"
    "node_at storage parse workspace" for storage parse workspace
proof
  fix t n incoming types limit es t' e
  assume "edges_at storage parse workspace t n incoming types limit = Inr (es, t')"
    and "e \<in> set es"
  then obtain db r where r: "graph_edge_of_row parse r = Inr e"
    "edge_row_selected workspace n incoming types r"
    using edges_for_node_row by (fastforce simp: edges_at_def call_Inr)
  then show "(if incoming then edge_to_node e else edge_from_node e) = n"
    by (auto simp: edge_row_selected_def edge_of_row_fields)
  assume "types \<noteq> []"
  with r show "edge_type_of e \<in> set types"
    by (simp add: edge_of_row_fields edge_row_selected_type)
next
  fix t n node t'
  assume "node_at storage parse workspace t n = Inr (Some node, t')"
  then show "node_id node = n"
    by (auto simp: node_at_def call_Inr intro: node_by_id_Some)
qed

section \<open>Routes\<close>

text \<open>An edge that a traversal follows from one node to another, in a direction.\<close>

definition joins :: "structural_direction \<Rightarrow> graph_edge \<Rightarrow> string \<Rightarrow> string \<Rightarrow> bool" where
  "joins d e a b \<longleftrightarrow>
     d \<noteq> Incoming \<and> edge_from_node e = a \<and> edge_to_node e = b
     \<or> d \<noteq> Outgoing \<and> edge_to_node e = a \<and> edge_from_node e = b"

definition of_type :: "graph_edge_type list \<Rightarrow> graph_edge \<Rightarrow> bool" where
  "of_type types e \<longleftrightarrow> types = [] \<or> edge_type_of e \<in> set types"

definition followed ::
    "structural_direction \<Rightarrow> graph_edge_type list \<Rightarrow> graph_edge \<Rightarrow> string \<Rightarrow> string \<Rightarrow> bool" where
  "followed d types e a b \<longleftrightarrow> joins d e a b \<and> of_type types e"

fun links ::
    "(graph_edge \<Rightarrow> string \<Rightarrow> string \<Rightarrow> bool) \<Rightarrow> string list \<Rightarrow> graph_edge list \<Rightarrow> bool" where
  "links R (a # b # ns) (e # es) \<longleftrightarrow> R e a b \<and> links R (b # ns) es"
| "links R ns es \<longleftrightarrow> length ns = 1 \<and> es = []"

lemma links_snoc: "links R ns es \<Longrightarrow> R e (last ns) b \<Longrightarrow> links R (ns @ [b]) (es @ [e])"
proof (induction R ns es rule: links.induct)
  case (1 R a b' ns e' es)
  then show ?case by (cases ns) auto
qed (auto simp: length_Suc_conv)

lemma links_length: "links R ns es \<Longrightarrow> length ns = Suc (length es)"
  by (induction R ns es rule: links.induct) auto

text \<open>A route from a seed: consecutive nodes are linked by its edges, no node repeats, and the
  confidence is the product of the edges', clamped step by step.\<close>

definition route :: "graph_node list \<Rightarrow> (graph_edge \<Rightarrow> string \<Rightarrow> string \<Rightarrow> bool)
    \<Rightarrow> string list \<Rightarrow> graph_edge list \<Rightarrow> f32 \<Rightarrow> bool" where
  "route seeds R ns es c \<longleftrightarrow> links R ns es \<and> hd ns \<in> node_id ` set seeds \<and> distinct ns
     \<and> c = foldl next_confidence f32_one (map edge_confidence es)"

lemma route_snoc:
  assumes "route seeds R ns es c" and "R e (last ns) b" and "b \<notin> set ns"
  shows "route seeds R (ns @ [b]) (es @ [e]) (next_confidence c (edge_confidence e))"
proof -
  have "ns \<noteq> []" using assms(1) links_length [of R ns es] by (auto simp: route_def)
  then show ?thesis using assms by (simp add: route_def links_snoc)
qed

lemma route_confidence:
  assumes "route seeds R ns es c" and "list_all (\<lambda>e. in_unit (edge_confidence e)) es"
  shows "in_unit c"
proof -
  have "in_unit (foldl next_confidence a (map edge_confidence es))"
    if "in_unit a" "list_all (\<lambda>e. in_unit (edge_confidence e)) es" for a
    using that by (induction es arbitrary: a) (simp_all add: next_confidence_def f32_mul_clamp_unit)
  then show ?thesis using assms by (simp add: route_def)
qed

lemma adjacent_joins:
  assumes "(if incoming then edge_to_node e else edge_from_node e) = n"
    and "d = (if incoming then Incoming else Outgoing) \<or> d = Both"
  shows "\<exists>m. adjacent_node_id e n = Some m \<and> joins d e n m"
  using assms by (auto simp: adjacent_node_id_def joins_def split: if_splits)

context graph_source
begin

lemma adjacent_edges_Inr:
  assumes "adjacent_edges edges_op n d types limit t = Inr (es, t')"
  shows "length es \<le> limit"
    and "e \<in> set es \<Longrightarrow> \<exists>m. adjacent_node_id e n = Some m \<and> followed d types e n m"
proof -
  from assms obtain out t1 inc where
    out: "(if d = Incoming then Inr ([], t) else edges_op t n False types limit) = Inr (out, t1)"
    and inc: "(if d = Outgoing then Inr ([], t1) else edges_op t1 n True types limit) = Inr (inc, t')"
    and es: "es = take limit (dedup_by edge_id (sort_key
      (\<lambda>e. (edge_type_storage_name (edge_type_of e), edge_relationship_key e, edge_id e)) (out @ inc)))"
    unfolding adjacent_edges_def by (fastforce simp: and_then_eq_Inr)
  show "length es \<le> limit" using es by simp
  assume "e \<in> set es"
  then have "e \<in> set out \<or> e \<in> set inc"
    using set_dedup_by_subset unfolding es by (fastforce dest: in_set_takeD)
  then show "\<exists>m. adjacent_node_id e n = Some m \<and> followed d types e n m"
  proof
    assume e: "e \<in> set out"
    then have op: "edges_op t n False types limit = Inr (out, t1)" and "d \<noteq> Incoming"
      using out by (auto split: if_splits)
    then show ?thesis
      using edges_touch [OF op e] edges_typed [OF op e] adjacent_joins [of False e n d]
      by (cases d) (auto simp: of_type_def followed_def)
  next
    assume e: "e \<in> set inc"
    then have op: "edges_op t1 n True types limit = Inr (inc, t')" and "d \<noteq> Outgoing"
      using inc by (auto split: if_splits)
    then show ?thesis
      using edges_touch [OF op e] edges_typed [OF op e] adjacent_joins [of True e n d]
      by (cases d) (auto simp: of_type_def followed_def)
  qed
qed

end

section \<open>The traversal's invariant\<close>

definition state_ok :: "graph_node list \<Rightarrow> (graph_edge \<Rightarrow> string \<Rightarrow> string \<Rightarrow> bool) \<Rightarrow> nat
    \<Rightarrow> string list \<Rightarrow> traversal_state \<Rightarrow> bool" where
  "state_ok seeds R depth seen s \<longleftrightarrow>
     route seeds R (ts_node_ids s) (ts_edges s) (ts_confidence s)
     \<and> last (ts_node_ids s) = ts_node_id s \<and> ts_depth s = length (ts_edges s) \<and> ts_depth s \<le> depth
     \<and> set (ts_node_ids s) \<subseteq> set seen"

definition path_ok :: "graph_node list \<Rightarrow> (graph_edge \<Rightarrow> string \<Rightarrow> string \<Rightarrow> bool) \<Rightarrow> nat
    \<Rightarrow> graph_node \<Rightarrow> structural_path \<Rightarrow> bool" where
  "path_ok seeds R depth n p \<longleftrightarrow>
     route seeds R (path_node_ids p) (path_edges p) (path_confidence p)
     \<and> last (path_node_ids p) = node_id n \<and> 1 \<le> distance p \<and> distance p \<le> depth"

definition trav_ok :: "graph_node list \<Rightarrow> (graph_edge \<Rightarrow> string \<Rightarrow> string \<Rightarrow> bool)
    \<Rightarrow> structural_read_options \<Rightarrow> traversal \<Rightarrow> bool" where
  "trav_ok seeds R options w \<longleftrightarrow>
     list_all (state_ok seeds R (max_depth options) (tr_seen w)) (tr_queue w)
     \<and> list_all2 (path_ok seeds R (max_depth options)) (tr_nodes w) (tr_paths w)
     \<and> distinct (map node_id (tr_nodes w))
     \<and> node_id ` set (tr_nodes w) \<inter> node_id ` set seeds = {}
     \<and> node_id ` set (tr_nodes w) \<union> node_id ` set seeds \<subseteq> set (tr_seen w)
     \<and> length (tr_nodes w) \<le> max_nodes options \<and> length (tr_edges w) \<le> max_edges options
     \<and> distinct (map edge_id (tr_edges w)) \<and> set (tr_edge_ids w) = edge_id ` set (tr_edges w)"

lemma state_ok_seen:
  "state_ok seeds R depth seen s \<Longrightarrow> set seen \<subseteq> set seen' \<Longrightarrow> state_ok seeds R depth seen' s"
  by (auto simp: state_ok_def)

lemma record_edge_fields [simp]:
  "tr_queue (record_edge e w) = tr_queue w" "tr_seen (record_edge e w) = tr_seen w"
  "tr_nodes (record_edge e w) = tr_nodes w" "tr_paths (record_edge e w) = tr_paths w"
  "tr_time (record_edge e w) = tr_time w" "tr_truncated (record_edge e w) = tr_truncated w"
  by (simp_all add: record_edge_def)

lemma record_edge_length: "length (tr_edges (record_edge e w)) \<le> Suc (length (tr_edges w))"
  by (simp add: record_edge_def)

lemma record_edge_ok:
  assumes "trav_ok seeds R options w" and "length (tr_edges w) < max_edges options"
  shows "trav_ok seeds R options (record_edge e w)"
  using assms by (auto simp: trav_ok_def record_edge_def)

lemma see_ok: "trav_ok seeds R options w
    \<Longrightarrow> trav_ok seeds R options (w\<lparr>tr_seen := n # tr_seen w, tr_time := t\<rparr>)"
  by (auto simp: trav_ok_def list_all_iff intro: state_ok_seen)

lemma extend_ok:
  assumes "state_ok seeds R depth seen s" and "ts_depth s < depth"
    and "R e (ts_node_id s) (node_id n)" and "node_id n \<notin> set seen"
  shows "state_ok seeds R depth (node_id n # seen) (extend_state s e n)"
  using assms route_snoc [of seeds R "ts_node_ids s" "ts_edges s" "ts_confidence s" e "node_id n"]
  by (auto simp: state_ok_def extend_state_def)

lemma record_node_ok:
  assumes ok: "trav_ok seeds R options w" and "state_ok seeds R (max_depth options) (tr_seen w) s'"
    and "ts_node_id s' = node_id n" and "ts_edges s' \<noteq> []" and "length (tr_nodes w) < max_nodes options"
    and "node_id n \<in> set (tr_seen w)" and "node_id n \<notin> node_id ` set (tr_nodes w)"
    and "node_id n \<notin> node_id ` set seeds"
  shows "trav_ok seeds R options (record_node s' n w)"
proof -
  have "path_ok seeds R (max_depth options) n \<lparr>path_node_ids = ts_node_ids s',
      path_edges = ts_edges s', path_confidence = ts_confidence s'\<rparr>"
    using assms by (cases "ts_edges s'") (auto simp: path_ok_def state_ok_def distance_def)
  then show ?thesis
    using assms by (auto simp: trav_ok_def record_node_def list_all2_appendI)
qed

text \<open>How far a loop state is from the end: each queued entry counts one, each node that may still be
  found counts two.\<close>

definition trav_measure :: "structural_read_options \<Rightarrow> traversal \<Rightarrow> nat" where
  "trav_measure options w = length (tr_queue w) + 2 * (max_nodes options - length (tr_nodes w))"

context graph_source
begin

lemma visit_edges_ok:
  assumes "visit_edges node_op (max_nodes options) s es w = Inr w'"
    and "trav_ok seeds R options w"
    and "state_ok seeds R (max_depth options) (tr_seen w) s" and "ts_depth s < max_depth options"
    and "length (tr_nodes w) < max_nodes options"
    and "length (tr_edges w) + length es \<le> max_edges options"
    and "\<forall>e \<in> set es. \<exists>m. adjacent_node_id e (ts_node_id s) = Some m \<and> R e (ts_node_id s) m"
  shows "trav_ok seeds R options w' \<and> trav_measure options w' \<le> trav_measure options w"
  using assms
proof (induction es arbitrary: w)
  case (Cons e es)
  obtain m where m: "adjacent_node_id e (ts_node_id s) = Some m" "R e (ts_node_id s) m"
    using Cons.prems(7) by auto
  let ?w1 = "record_edge e w"
  have ok1: "trav_ok seeds R options ?w1"
    using Cons.prems(2,6) by (intro record_edge_ok) simp_all
  have len1: "length (tr_edges ?w1) + length es \<le> max_edges options"
    using Cons.prems(6) record_edge_length [of e w] by simp
  have m1: "trav_measure options ?w1 = trav_measure options w" by (simp add: trav_measure_def)
  note IH = Cons.IH [OF _ _ _ Cons.prems(4)]
  have rest: "\<forall>e \<in> set es. \<exists>m. adjacent_node_id e (ts_node_id s) = Some m \<and> R e (ts_node_id s) m"
    using Cons.prems(7) by simp
  show ?case
  proof (cases "m \<in> set (tr_seen w)")
    case True
    then have run: "visit_edges node_op (max_nodes options) s es ?w1 = Inr w'"
      using Cons.prems(1) m(1) by simp
    show ?thesis
      using IH [OF run ok1] Cons.prems(3,5) len1 rest m1 by simp
  next
    case new: False
    obtain found t where found: "node_op (tr_time w) m = Inr (found, t)"
      using Cons.prems(1) m(1) new by (auto simp: and_then_eq_Inr Let_def)
    let ?w2 = "?w1\<lparr>tr_seen := m # tr_seen w, tr_time := t\<rparr>"
    have ok2: "trav_ok seeds R options ?w2"
      using see_ok [OF ok1, where n = m and t = t] by simp
    have s2: "state_ok seeds R (max_depth options) (tr_seen ?w2) s"
      using Cons.prems(3) by (auto intro: state_ok_seen)
    have m2: "trav_measure options ?w2 = trav_measure options w" using m1 by (simp add: trav_measure_def)
    show ?thesis
    proof (cases found)
      case None
      then have run: "visit_edges node_op (max_nodes options) s es ?w2 = Inr w'"
        using Cons.prems(1) m(1) new found by (simp add: Let_def)
      show ?thesis
        using IH [OF run ok2 s2] Cons.prems(5) len1 rest m2 by simp
    next
      case (Some node)
      have id: "node_id node = m" using node_found found Some by blast
      let ?s' = "extend_state s e node"
      let ?w3 = "record_node ?s' node ?w2"
      have s': "state_ok seeds R (max_depth options) (tr_seen ?w2) ?s'"
        using extend_ok [OF Cons.prems(3,4), of e node] m(2) new id by simp
      have fresh: "node_id node \<notin> node_id ` set (tr_nodes ?w2)" "node_id node \<notin> node_id ` set seeds"
        using Cons.prems(2) new id by (auto simp: trav_ok_def)
      have ok3: "trav_ok seeds R options ?w3"
        using s' fresh Cons.prems(5) id by (intro record_node_ok ok2) (simp_all add: extend_state_def)
      have run: "(if length (tr_nodes ?w3) = max_nodes options
          then Inr (?w3\<lparr>tr_truncated := (es \<noteq> [] \<or> tr_queue ?w3 \<noteq> [])\<rparr>)
          else visit_edges node_op (max_nodes options) s es (?w3\<lparr>tr_queue := tr_queue ?w3 @ [?s']\<rparr>))
        = Inr w'"
        using Cons.prems(1) m(1) new found Some by (simp add: Let_def)
      have m3: "trav_measure options ?w3 + 2 = trav_measure options w"
        using Cons.prems(5) by (simp add: trav_measure_def record_node_def)
      show ?thesis
      proof (cases "length (tr_nodes ?w3) = max_nodes options")
        case True
        then have "w' = ?w3\<lparr>tr_truncated := (es \<noteq> [] \<or> tr_queue ?w3 \<noteq> [])\<rparr>" using run by simp
        then show ?thesis
          using ok3 m3 by (auto simp: trav_ok_def trav_measure_def)
      next
        case False
        let ?w4 = "?w3\<lparr>tr_queue := tr_queue ?w3 @ [?s']\<rparr>"
        have run4: "visit_edges node_op (max_nodes options) s es ?w4 = Inr w'"
          using run False by simp
        have ok4: "trav_ok seeds R options ?w4"
          using ok3 s' by (simp add: trav_ok_def record_node_def)
        have s4: "state_ok seeds R (max_depth options) (tr_seen ?w4) s"
          using s2 by (simp add: record_node_def)
        have n4: "length (tr_nodes ?w4) < max_nodes options"
          using Cons.prems(5) False by (simp add: record_node_def)
        have "trav_measure options ?w4 \<le> trav_measure options w"
          using m3 by (simp add: trav_measure_def)
        then show ?thesis
          using IH [OF run4 ok4 s4 n4] len1 rest by (simp add: record_node_def)
      qed
    qed
  qed
qed simp

lemma traverse_step_ok:
  assumes "trav_ok seeds (followed d types) options w"
  shows "traverse_step edges_op node_op d types options w = Inr w'
      \<Longrightarrow> trav_ok seeds (followed d types) options w' \<and> trav_measure options w' < trav_measure options w"
    and "traverse_step edges_op node_op d types options w = Inl (Inr w')
      \<Longrightarrow> trav_ok seeds (followed d types) options w'"
proof -
  have pop: "trav_ok seeds (followed d types) options (w\<lparr>tr_queue := q\<rparr>)
      \<and> state_ok seeds (followed d types) (max_depth options) (tr_seen w) s
      \<and> trav_measure options w = Suc (trav_measure options (w\<lparr>tr_queue := q\<rparr>))"
    if "tr_queue w = s # q" for s q
    using assms that by (simp add: trav_ok_def trav_measure_def)
  show "trav_ok seeds (followed d types) options w'"
    if run: "traverse_step edges_op node_op d types options w = Inl (Inr w')"
  proof (cases "tr_queue w")
    case Nil
    then show ?thesis using that assms by (simp add: traverse_step_def)
  next
    case (Cons s q)
    then have "w' = w\<lparr>tr_queue := q, tr_truncated := True\<rparr>"
      using that by (auto simp: traverse_step_def Let_def split: if_splits sum.splits prod.splits)
    then show ?thesis using pop [OF Cons] by (simp add: trav_ok_def)
  qed
  assume run: "traverse_step edges_op node_op d types options w = Inr w'"
  then obtain s q where q: "tr_queue w = s # q"
    by (cases "tr_queue w") (simp_all add: traverse_step_def)
  let ?w0 = "w\<lparr>tr_queue := q\<rparr>" and ?r = "max_edges options - length (tr_edges w)"
  show "trav_ok seeds (followed d types) options w' \<and> trav_measure options w' < trav_measure options w"
  proof (cases "max_depth options \<le> ts_depth s")
    case True
    then show ?thesis using run q pop [OF q] by (simp add: traverse_step_def)
  next
    case False
    then have go: "?r \<noteq> 0" "length (tr_nodes w) \<noteq> max_nodes options"
      using run q by (auto simp: traverse_step_def Let_def split: if_splits)
    obtain es t where es: "adjacent_edges edges_op (ts_node_id s) d types (?r + 1) (tr_time w)
        = Inr (es, t)"
      using run q False go by (auto simp: traverse_step_def Let_def split: sum.splits prod.splits)
    let ?w1 = "?w0\<lparr>tr_time := t, tr_truncated := (tr_truncated w \<or> ?r < length es)\<rparr>"
    have visit: "visit_edges node_op (max_nodes options) s (take ?r es) ?w1 = Inr w'"
      using run q False go es by (auto simp: traverse_step_def Let_def split: sum.splits)
    have ok1: "trav_ok seeds (followed d types) options ?w1" and m1: "trav_measure options ?w1 < trav_measure options w"
      using pop [OF q] by (simp_all add: trav_ok_def trav_measure_def)
    have "trav_ok seeds (followed d types) options w' \<and> trav_measure options w' \<le> trav_measure options ?w1"
    proof (rule visit_edges_ok [OF visit ok1])
      show "state_ok seeds (followed d types) (max_depth options) (tr_seen ?w1) s" using pop [OF q] by simp
      show "length (tr_nodes ?w1) < max_nodes options"
        using assms go(2) by (simp add: trav_ok_def)
      show "length (tr_edges ?w1) + length (take ?r es) \<le> max_edges options"
        using go(1) by simp
      show "\<forall>e \<in> set (take ?r es).
          \<exists>m. adjacent_node_id e (ts_node_id s) = Some m \<and> followed d types e (ts_node_id s) m"
        using adjacent_edges_Inr(2) [OF es] by (blast dest: in_set_takeD)
    qed (use False in simp)
    then show ?thesis using m1 by simp
  qed
qed

text \<open>The loop ends, and what it found satisfies the invariant.\<close>

lemma traverse_loop_result:
  "\<exists>r. traverse_loop edges_op node_op d types options seeds t = Some r
    \<and> (\<forall>w. r = Inr w \<longrightarrow> trav_ok seeds (followed d types) options w)"
  unfolding traverse_loop_def
proof (rule run_loop_result [where P = "trav_ok seeds (followed d types) options"
      and m = "trav_measure options"])
  show "trav_ok seeds (followed d types) options (start_traversal seeds t)"
    by (auto simp: trav_ok_def start_traversal_def list_all_iff state_ok_def seed_state_def route_def)
qed (use traverse_step_ok in blast)+

end


section \<open>The impact search's invariant\<close>

text \<open>Impact follows dependents, and from a file seed also what the file contains.\<close>

definition impact_link :: "graph_edge \<Rightarrow> string \<Rightarrow> string \<Rightarrow> bool" where
  "impact_link e a b \<longleftrightarrow> followed Incoming reverse_types e a b \<or> followed Outgoing [Contains] e a b"

definition entry_ok :: "graph_node list \<Rightarrow> nat \<Rightarrow> string list \<Rightarrow> impact_entry \<Rightarrow> bool" where
  "entry_ok seeds depth seen s \<longleftrightarrow>
     route seeds impact_link (path_node_ids (ie_path s)) (path_edges (ie_path s))
       (path_confidence (ie_path s))
     \<and> last (path_node_ids (ie_path s)) = node_id (ie_node s)
     \<and> ie_depth s = distance (ie_path s) \<and> ie_depth s \<le> depth
     \<and> set (path_node_ids (ie_path s)) \<subseteq> set seen"

definition item_ok :: "graph_node list \<Rightarrow> nat \<Rightarrow> impact_item \<Rightarrow> bool" where
  "item_ok seeds depth i \<longleftrightarrow> path_ok seeds impact_link depth (impact_node i) (impact_path i)
     \<and> impact_confidence i = path_confidence (impact_path i)"

definition impact_ok :: "graph_node list \<Rightarrow> structural_read_options \<Rightarrow> impact_search \<Rightarrow> bool" where
  "impact_ok seeds options w \<longleftrightarrow>
     list_all (entry_ok seeds (max_depth options) (is_seen w)) (is_queue w)
     \<and> list_all (item_ok seeds (max_depth options)) (is_impacts w)
     \<and> distinct (map (\<lambda>i. node_id (impact_node i)) (is_impacts w))
     \<and> (\<lambda>i. node_id (impact_node i)) ` set (is_impacts w) \<inter> node_id ` set seeds = {}
     \<and> (\<lambda>i. node_id (impact_node i)) ` set (is_impacts w) \<union> node_id ` set seeds \<subseteq> set (is_seen w)
     \<and> length (is_impacts w) \<le> max_nodes options"

definition impact_measure :: "structural_read_options \<Rightarrow> impact_search \<Rightarrow> nat" where
  "impact_measure options w = length (is_queue w) + 2 * (max_nodes options - length (is_impacts w))"

lemma entry_ok_seen:
  "entry_ok seeds depth seen s \<Longrightarrow> set seen \<subseteq> set seen' \<Longrightarrow> entry_ok seeds depth seen' s"
  by (auto simp: entry_ok_def)

lemma impact_see_ok: "impact_ok seeds options w
    \<Longrightarrow> impact_ok seeds options (w\<lparr>is_seen := n # is_seen w, is_time := t\<rparr>)"
  by (auto simp: impact_ok_def list_all_iff intro: entry_ok_seen)

definition extend_entry :: "impact_entry \<Rightarrow> graph_edge \<Rightarrow> graph_node \<Rightarrow> impact_entry" where
  "extend_entry s e node =
     \<lparr>ie_node = node, ie_path = extend_path (ie_path s) e node, ie_depth = ie_depth s + 1\<rparr>"

definition item_of :: "impact_entry \<Rightarrow> impact_item" where
  "item_of s = \<lparr>impact_node = ie_node s, impact_path = ie_path s,
     impact_confidence = path_confidence (ie_path s)\<rparr>"

definition found_impact :: "impact_entry \<Rightarrow> impact_search \<Rightarrow> impact_search" where
  "found_impact s' w = w\<lparr>is_impacts := is_impacts w @ [item_of s'], is_queue := is_queue w @ [s']\<rparr>"

lemma extend_entry_ok:
  assumes "entry_ok seeds depth seen s" and "ie_depth s < depth"
    and "impact_link e (node_id (ie_node s)) (node_id n)" and "node_id n \<notin> set seen"
  shows "entry_ok seeds depth (node_id n # seen) (extend_entry s e n)"
proof -
  have "route seeds impact_link (path_node_ids (ie_path s) @ [node_id n]) (path_edges (ie_path s) @ [e])
      (next_confidence (path_confidence (ie_path s)) (edge_confidence e))"
    using assms by (intro route_snoc) (auto simp: entry_ok_def)
  then show ?thesis
    using assms by (auto simp: entry_ok_def extend_entry_def extend_path_def distance_def)
qed

lemma found_impact_ok:
  assumes "impact_ok seeds options w" and "entry_ok seeds (max_depth options) (is_seen w) s'"
    and "path_edges (ie_path s') \<noteq> []" and "length (is_impacts w) < max_nodes options"
    and "node_id (ie_node s') \<in> set (is_seen w)"
    and "node_id (ie_node s') \<notin> (\<lambda>i. node_id (impact_node i)) ` set (is_impacts w)"
    and "node_id (ie_node s') \<notin> node_id ` set seeds"
  shows "impact_ok seeds options (found_impact s' w)"
proof -
  have "item_ok seeds (max_depth options) (item_of s')"
    using assms(2,3) by (cases "path_edges (ie_path s')")
      (auto simp: item_ok_def item_of_def path_ok_def entry_ok_def distance_def)
  then show ?thesis
    using assms by (auto simp: impact_ok_def found_impact_def item_of_def)
qed

lemma impact_edges_parts:
  assumes "impact_edges edges_op s limit t = Inr (es, t')"
  obtains inc t1 out where
    "edges_op t (node_id (ie_node s)) True reverse_types limit = Inr (inc, t1)"
    and "(if ie_depth s = 0 \<and> node_type_of (ie_node s) = FileNode
      then edges_op t1 (node_id (ie_node s)) False [Contains] limit else Inr ([], t1)) = Inr (out, t')"
    and "es = dedup_by edge_id (sort_key
      (\<lambda>e. (edge_type_storage_name (edge_type_of e), edge_relationship_key e)) (inc @ out))"
  using assms unfolding impact_edges_def by (fastforce simp: and_then_eq_Inr)

text \<open>One step of the visit: the edge is counted, and its far node is either known, missing or
  new.\<close>

lemma visit_impacts_Cons:
  "visit_impacts node_op limit s (e # es) w =
     (case adjacent_node_id e (node_id (ie_node s)) of
        None \<Rightarrow> Inl (AnalysisErr ''impact edge does not touch traversal node'')
      | Some m \<Rightarrow>
          let w1 = w\<lparr>is_traversed := is_traversed w + 1\<rparr>
          in if m \<in> set (is_seen w) then visit_impacts node_op limit s es w1
             else case node_op (is_time w) m of
               Inl err \<Rightarrow> Inl err
             | Inr (found, t) \<Rightarrow>
                 let w2 = w1\<lparr>is_seen := m # is_seen w, is_time := t\<rparr>
                 in case found of
                      None \<Rightarrow> visit_impacts node_op limit s es w2
                    | Some node \<Rightarrow>
                        let w3 = found_impact (extend_entry s e node) w2
                        in if length (is_impacts w3) = limit
                           then Inr (w3\<lparr>is_truncated := True\<rparr>)
                           else visit_impacts node_op limit s es w3)"
  by (auto simp: and_then_def ok_or_def Let_def found_impact_def item_of_def extend_entry_def
      split: option.split sum.split)

context graph_source
begin

lemma visit_impacts_ok:
  assumes "visit_impacts node_op (max_nodes options) s es w = Inr w'"
    and "impact_ok seeds options w"
    and "entry_ok seeds (max_depth options) (is_seen w) s" and "ie_depth s < max_depth options"
    and "length (is_impacts w) < max_nodes options"
    and "\<forall>e \<in> set es. \<exists>m. adjacent_node_id e (node_id (ie_node s)) = Some m
      \<and> impact_link e (node_id (ie_node s)) m"
  shows "impact_ok seeds options w' \<and> impact_measure options w' \<le> impact_measure options w"
  using assms
proof (induction es arbitrary: w)
  case (Cons e es)
  let ?n = "node_id (ie_node s)"
  obtain m where m: "adjacent_node_id e ?n = Some m" "impact_link e ?n m"
    using Cons.prems(6) by auto
  let ?w1 = "w\<lparr>is_traversed := is_traversed w + 1\<rparr>"
  have ok1: "impact_ok seeds options ?w1" using Cons.prems(2) by (simp add: impact_ok_def)
  have m1: "impact_measure options ?w1 = impact_measure options w" by (simp add: impact_measure_def)
  have rest: "\<forall>e \<in> set es. \<exists>m. adjacent_node_id e ?n = Some m \<and> impact_link e ?n m"
    using Cons.prems(6) by simp
  note IH = Cons.IH [OF _ _ _ Cons.prems(4) _ rest]
  show ?case
  proof (cases "m \<in> set (is_seen w)")
    case True
    then have run: "visit_impacts node_op (max_nodes options) s es ?w1 = Inr w'"
      using Cons.prems(1) m(1) by (simp add: visit_impacts_Cons del: visit_impacts.simps)
    show ?thesis using IH [OF run ok1] Cons.prems(3,5) m1 by simp
  next
    case new: False
    obtain found t where found: "node_op (is_time w) m = Inr (found, t)"
      using Cons.prems(1) m(1) new
      by (auto simp: visit_impacts_Cons Let_def simp del: visit_impacts.simps split: sum.splits)
    let ?w2 = "?w1\<lparr>is_seen := m # is_seen w, is_time := t\<rparr>"
    have ok2: "impact_ok seeds options ?w2"
      using impact_see_ok [OF ok1, where n = m and t = t] by simp
    have s2: "entry_ok seeds (max_depth options) (is_seen ?w2) s"
      using Cons.prems(3) by (auto intro: entry_ok_seen)
    have m2: "impact_measure options ?w2 = impact_measure options w"
      by (simp add: impact_measure_def)
    show ?thesis
    proof (cases found)
      case None
      then have run: "visit_impacts node_op (max_nodes options) s es ?w2 = Inr w'"
        using Cons.prems(1) m(1) new found
        by (simp add: visit_impacts_Cons Let_def del: visit_impacts.simps)
      show ?thesis using IH [OF run ok2 s2] Cons.prems(5) m2 by simp
    next
      case (Some node)
      have id: "node_id node = m" using node_found found Some by blast
      let ?s' = "extend_entry s e node"
      let ?w3 = "found_impact ?s' ?w2"
      have s': "entry_ok seeds (max_depth options) (is_seen ?w2) ?s'"
        using extend_entry_ok [OF Cons.prems(3,4), of e node] m(2) new id by simp
      have fresh: "node_id node \<notin> (\<lambda>i. node_id (impact_node i)) ` set (is_impacts ?w2)"
        "node_id node \<notin> node_id ` set seeds"
        using Cons.prems(2) new id by (auto simp: impact_ok_def)
      have ok3: "impact_ok seeds options ?w3"
        using s' fresh Cons.prems(5) id
        by (intro found_impact_ok ok2) (simp_all add: extend_entry_def extend_path_def)
      have m3: "impact_measure options ?w3 < impact_measure options w"
        using Cons.prems(5) by (simp add: impact_measure_def found_impact_def)
      have step: "visit_impacts node_op (max_nodes options) s (e # es) w =
          (if length (is_impacts ?w3) = max_nodes options then Inr (?w3\<lparr>is_truncated := True\<rparr>)
           else visit_impacts node_op (max_nodes options) s es ?w3)"
        unfolding visit_impacts_Cons m(1) found Some option.case sum.case prod.case Let_def
        using new by simp
      show ?thesis
      proof (cases "length (is_impacts ?w3) = max_nodes options")
        case True
        then have "w' = ?w3\<lparr>is_truncated := True\<rparr>" using Cons.prems(1) unfolding step by simp
        then show ?thesis using ok3 m3 by (simp add: impact_ok_def impact_measure_def)
      next
        case False
        then have run3: "visit_impacts node_op (max_nodes options) s es ?w3 = Inr w'"
          using Cons.prems(1) unfolding step by simp
        have "entry_ok seeds (max_depth options) (is_seen ?w3) s"
          and "length (is_impacts ?w3) < max_nodes options"
          using s2 Cons.prems(5) False by (simp_all add: found_impact_def)
        from IH [OF run3 ok3 this] show ?thesis using m3 by simp
      qed
    qed
  qed
qed simp

lemma impact_edges_Inr:
  assumes "impact_edges edges_op s limit t = Inr (es, t')" and "e \<in> set es"
  shows "\<exists>m. adjacent_node_id e (node_id (ie_node s)) = Some m
    \<and> impact_link e (node_id (ie_node s)) m"
proof -
  let ?n = "node_id (ie_node s)"
  from assms(1) obtain inc t1 out where
    inc: "edges_op t ?n True reverse_types limit = Inr (inc, t1)"
    and out: "(if ie_depth s = 0 \<and> node_type_of (ie_node s) = FileNode
      then edges_op t1 ?n False [Contains] limit else Inr ([], t1)) = Inr (out, t')"
    and es: "es = dedup_by edge_id (sort_key
      (\<lambda>e. (edge_type_storage_name (edge_type_of e), edge_relationship_key e)) (inc @ out))"
    by (rule impact_edges_parts)
  from assms(2) have "e \<in> set inc \<or> e \<in> set out"
    using set_dedup_by_subset unfolding es by fastforce
  then show ?thesis
  proof
    assume e: "e \<in> set inc"
    then show ?thesis
      using edges_touch [OF inc e] edges_typed [OF inc e] adjacent_joins [of True e ?n Incoming]
      by (auto simp: impact_link_def followed_def of_type_def reverse_types_def)
  next
    assume e: "e \<in> set out"
    then have op: "edges_op t1 ?n False [Contains] limit = Inr (out, t')"
      using out by (auto split: if_splits)
    show ?thesis
      using edges_touch [OF op e] edges_typed [OF op e] adjacent_joins [of False e ?n Outgoing]
      by (auto simp: impact_link_def followed_def of_type_def)
  qed
qed

text \<open>The cases of a round.\<close>

lemma impact_step_cases:
  obtains "is_queue w = []" and "impact_step edges_op node_op options w = Inl (Inr w)"
    | s q where "is_queue w = s # q" and "max_depth options \<le> ie_depth s"
        and "impact_step edges_op node_op options w = Inr (w\<lparr>is_queue := q\<rparr>)"
    | s q where "is_queue w = s # q"
        and "impact_step edges_op node_op options w
          = Inl (Inr (w\<lparr>is_queue := q, is_truncated := True\<rparr>))"
    | err where "impact_step edges_op node_op options w = Inl (Inl err)"
    | s q es t w' where "is_queue w = s # q" and "ie_depth s < max_depth options"
        and "max_edges options - is_traversed w \<noteq> 0"
        and "length (is_impacts w) \<noteq> max_nodes options"
        and "impact_edges edges_op s (max_edges options - is_traversed w + 1) (is_time w) = Inr (es, t)"
        and "visit_impacts node_op (max_nodes options) s
          (take (max_edges options - is_traversed w) es)
          (w\<lparr>is_queue := q, is_time := t, is_truncated :=
             (is_truncated w \<or> max_edges options - is_traversed w < length es)\<rparr>) = Inr w'"
        and "impact_step edges_op node_op options w = Inr w'"
proof (cases "is_queue w")
  case Nil
  then show thesis using that(1) by (simp add: impact_step_def)
next
  case (Cons s q)
  let ?r = "max_edges options - is_traversed w"
  show thesis
  proof (cases "max_depth options \<le> ie_depth s")
    case True
    then show thesis using that(2) Cons by (simp add: impact_step_def)
  next
    case deep: False
    show thesis
    proof (cases "?r = 0 \<or> length (is_impacts w) = max_nodes options")
      case True
      then show thesis using that(3) [OF Cons] Cons deep by (auto simp: impact_step_def Let_def)
    next
      case False
      show thesis
      proof (cases "impact_edges edges_op s (?r + 1) (is_time w)")
        case (Inl err)
        then show thesis using that(4) Cons deep False by (simp add: impact_step_def Let_def)
      next
        case (Inr et)
        obtain es t where et: "et = (es, t)" by (cases et)
        let ?w1 = "w\<lparr>is_queue := q, is_time := t, is_truncated := (is_truncated w \<or> ?r < length es)\<rparr>"
        show thesis
        proof (cases "visit_impacts node_op (max_nodes options) s (take ?r es) ?w1")
          case (Inl err)
          then show thesis
            using that(4) Cons deep False Inr et by (simp add: impact_step_def Let_def)
        next
          case visited: (Inr w')
          have "impact_step edges_op node_op options w = Inr w'"
            using visited Cons deep False Inr et by (simp add: impact_step_def Let_def)
          then show thesis
            using that(5) [OF Cons _ _ _ _ visited] deep False Inr et by simp
        qed
      qed
    qed
  qed
qed

lemma impact_step_ok:
  assumes "impact_ok seeds options w"
  shows "impact_step edges_op node_op options w = Inr w'
      \<Longrightarrow> impact_ok seeds options w' \<and> impact_measure options w' < impact_measure options w"
    and "impact_step edges_op node_op options w = Inl (Inr w') \<Longrightarrow> impact_ok seeds options w'"
proof -
  have pop: "impact_ok seeds options (w\<lparr>is_queue := q\<rparr>)
      \<and> entry_ok seeds (max_depth options) (is_seen w) s
      \<and> impact_measure options w = Suc (impact_measure options (w\<lparr>is_queue := q\<rparr>))"
    if "is_queue w = s # q" for s q
    using assms that by (simp add: impact_ok_def impact_measure_def)
  have both: "case impact_step edges_op node_op options w of
      Inl (Inl err) \<Rightarrow> True
    | Inl (Inr w') \<Rightarrow> impact_ok seeds options w'
    | Inr w' \<Rightarrow> impact_ok seeds options w' \<and> impact_measure options w' < impact_measure options w"
  proof (cases rule: impact_step_cases [of w options])
    case 1
    then show ?thesis using assms by simp
  next
    case (2 s q)
    then show ?thesis using pop [OF 2(1)] by simp
  next
    case (3 s q)
    then show ?thesis using pop [OF 3(1)] by (simp add: impact_ok_def)
  next
    case (4 err)
    then show ?thesis by simp
  next
    case (5 s q es t w')
    let ?r = "max_edges options - is_traversed w"
    let ?w1 = "w\<lparr>is_queue := q, is_time := t, is_truncated := (is_truncated w \<or> ?r < length es)\<rparr>"
    have ok1: "impact_ok seeds options ?w1" and m1: "impact_measure options ?w1 < impact_measure options w"
      using pop [OF 5(1)] by (simp_all add: impact_ok_def impact_measure_def)
    have "impact_ok seeds options w' \<and> impact_measure options w' \<le> impact_measure options ?w1"
    proof (rule visit_impacts_ok [OF 5(6) ok1])
      show "entry_ok seeds (max_depth options) (is_seen ?w1) s" using pop [OF 5(1)] by simp
      show "length (is_impacts ?w1) < max_nodes options"
        using assms 5(4) by (simp add: impact_ok_def)
      show "\<forall>e \<in> set (take ?r es). \<exists>m. adjacent_node_id e (node_id (ie_node s)) = Some m
          \<and> impact_link e (node_id (ie_node s)) m"
        using impact_edges_Inr [OF 5(5)] by (blast dest: in_set_takeD)
    qed (rule 5(2))
    then show ?thesis using 5(7) m1 by simp
  qed
  show "impact_step edges_op node_op options w = Inr w'
      \<Longrightarrow> impact_ok seeds options w' \<and> impact_measure options w' < impact_measure options w"
    and "impact_step edges_op node_op options w = Inl (Inr w') \<Longrightarrow> impact_ok seeds options w'"
    using both by auto
qed

lemma impact_loop_result:
  "\<exists>r. run_loop (impact_step edges_op node_op options) (start_impact seeds t) = Some r
    \<and> (\<forall>w. r = Inr w \<longrightarrow> impact_ok seeds options w)"
proof (rule run_loop_result [where P = "impact_ok seeds options" and m = "impact_measure options"])
  show "impact_ok seeds options (start_impact seeds t)"
    by (auto simp: impact_ok_def start_impact_def list_all_iff entry_ok_def seed_entry_def route_def
        distance_def)
qed (use impact_step_ok in blast)+

end

end
