(* ===== verification/StructuralResults.thy ===== *)
theory StructuralResults
  imports Structural GraphLifecycle
begin

text \<open>
  What callers of the structural reads may rely on: the reads return, a result is what routes
  from the seeds reach within the bounds, and it belongs to one snapshot of the graph.
\<close>

section \<open>Successful reads, step by step\<close>

lemma load_seeds_ids:
  assumes "load_seeds (node_at storage parse workspace) workspace limit ns seen seeds t = Inr (out, t')"
    and "length seen \<le> limit" and "set seen = node_id ` set seeds" and "distinct seen"
    and "length seeds = length seen" and "distinct (map node_id seeds)"
  shows "node_id ` set out = set seen \<union> set ns \<and> distinct (map node_id out) \<and> length out \<le> limit"
  using assms
proof (induction ns arbitrary: seen seeds t)
  case (Cons n ns)
  show ?case
  proof (cases "n \<in> set seen")
    case True
    then have "load_seeds (node_at storage parse workspace) workspace limit ns seen seeds t = Inr (out, t')"
      using Cons.prems(1) by simp
    from Cons.IH [OF this Cons.prems(2-6)] True show ?thesis by auto
  next
    case False
    then obtain node t1 where node: "node_at storage parse workspace t n = Inr (Some node, t1)"
      and rest: "load_seeds (node_at storage parse workspace) workspace limit ns (n # seen)
        (seeds @ [node]) t1 = Inr (out, t')" and len: "length (n # seen) \<le> limit"
      using Cons.prems(1) by (auto simp: and_then_eq_Inr split: if_splits)
    have "node_id node = n" using stored_graph.node_found [OF node] .
    with Cons.IH [OF rest len] Cons.prems False show ?thesis by auto
  qed
qed simp

lemma load_seed_nodes_ids:
  assumes "load_seed_nodes (node_at storage parse workspace) workspace ns limit t = Inr (seeds, t')"
  shows "node_id ` set seeds = set ns" and "distinct (map node_id seeds)" and "length seeds \<le> limit"
proof -
  from assms obtain out where "load_seeds (node_at storage parse workspace) workspace limit ns [] [] t
      = Inr (out, t')" and seeds: "seeds = sort_key node_stable_key out"
    by (auto simp: load_seed_nodes_def and_then_eq_Inr)
  from load_seeds_ids [OF this(1)] have out: "node_id ` set out = set ns" "distinct (map node_id out)"
    "length out \<le> limit" by simp_all
  show "node_id ` set seeds = set ns" and "length seeds \<le> limit" using out seeds by simp_all
  show "distinct (map node_id seeds)"
    using out(2) seeds by (auto simp: distinct_map inj_on_def)
qed

lemma traverse_Inr:
  assumes "traverse storage parse registry workspace seed_ids d types options t = Some (Inr (r, t'))"
  obtains snapshot t1 seeds t2 w where
    "validate_options options = Inr ()"
    and "graph_snapshot storage registry workspace (allow_stale options) t = Inr (snapshot, t1)"
    and "load_seed_nodes (node_at storage parse workspace) workspace seed_ids (max_nodes options) t1
      = Inr (seeds, t2)"
    and "traverse_loop (edges_at storage parse workspace) (node_at storage parse workspace) d types
      options seeds t2 = Some (Inr w)"
    and "ensure_snapshot_unchanged storage registry workspace snapshot (allow_stale options)
      (tr_time w) = Inr ((), t')"
    and "r = \<lparr>result_snapshot = snapshot, result_limits = options, result_seeds = seeds,
       result_nodes = tr_nodes w, result_edges = tr_edges w, result_paths = tr_paths w,
       result_truncated = tr_truncated w\<rparr>"
  using assms unfolding traverse_def
  by (auto simp: and_then_eq_Inr split: sum.splits option.splits prod.splits)

lemma impact_from_seed_nodes_Inr:
  assumes "impact_from_seed_nodes storage parse registry workspace snapshot seeds options t
      = Some (Inr (r, t'))"
  obtains w where
    "validate_options options = Inr ()"
    and "run_loop (impact_step (edges_at storage parse workspace) (node_at storage parse workspace)
      options) (start_impact seeds t) = Some (Inr w)"
    and "ensure_snapshot_unchanged storage registry workspace snapshot (allow_stale options)
      (is_time w) = Inr ((), t')"
    and "r = \<lparr>report_snapshot = snapshot, report_limits = options, report_seeds = seeds,
       report_impacts = sort_key impact_order (is_impacts w), report_truncated = is_truncated w\<rparr>"
  using assms unfolding impact_from_seed_nodes_def
  by (auto simp: and_then_eq_Inr split: sum.splits option.splits prod.splits)

lemma impact_from_nodes_Inr:
  assumes "impact_from_nodes storage parse registry workspace seed_ids options t = Some (Inr (r, t'))"
  obtains snapshot t1 seeds t2 where
    "validate_options options = Inr ()"
    and "graph_snapshot storage registry workspace (allow_stale options) t = Inr (snapshot, t1)"
    and "load_seed_nodes (node_at storage parse workspace) workspace seed_ids (max_nodes options) t1
      = Inr (seeds, t2)"
    and "impact_from_seed_nodes storage parse registry workspace snapshot seeds options t2
      = Some (Inr (r, t'))"
  using assms unfolding impact_from_nodes_def
  by (auto simp: and_then_eq_Inr split: sum.splits)

lemma graph_snapshot_Inr:
  assumes "graph_snapshot storage registry workspace stale t = Inr (snapshot, t')"
  shows "stale \<or> is_current snapshot"
    and "\<exists>db. storage (Suc t) = Inr db \<and> (\<exists>repair.
      workspace_graph_repair_of workspace db = Inr repair \<and> \<not> repair_blocks repair)"
  using assms unfolding graph_snapshot_def
  by (auto simp: and_then_eq_Inr call_Inr Let_def split: prod.splits)

lemma ensure_snapshot_unchanged_Inr:
  "ensure_snapshot_unchanged storage registry workspace before stale t = Inr ((), t')
   \<longleftrightarrow> graph_snapshot storage registry workspace stale t = Inr (before, t')"
  by (auto simp: ensure_snapshot_unchanged_def and_then_eq_Inr split: prod.splits)

section \<open>Reads between the two reads of the snapshot\<close>

text \<open>A source whose calls take time.\<close>

locale timed_source = graph_source +
  assumes edges_later: "edges_op t n incoming types limit = Inr (es, t') \<Longrightarrow> t \<le> t'"
    and node_later: "node_op t n = Inr (found, t') \<Longrightarrow> t \<le> t'"

context timed_source
begin

lemma visit_edges_later:
  "visit_edges node_op limit s es w = Inr w' \<Longrightarrow> tr_time w \<le> tr_time w'"
proof (induction es arbitrary: w)
  case (Cons e es)
  obtain m where m: "adjacent_node_id e (ts_node_id s) = Some m"
    using Cons.prems by (cases "adjacent_node_id e (ts_node_id s)") simp_all
  show ?case
  proof (cases "m \<in> set (tr_seen w)")
    case True
    then have "visit_edges node_op limit s es (record_edge e w) = Inr w'"
      using Cons.prems m by simp
    then show ?thesis using Cons.IH by fastforce
  next
    case False
    then obtain found t where found: "node_op (tr_time w) m = Inr (found, t)"
      using Cons.prems m by (auto simp: and_then_eq_Inr Let_def)
    moreover from this have "tr_time w \<le> t" by (rule node_later)
    ultimately show ?thesis
      using Cons.prems m False
      by (cases found) (auto simp: Let_def record_node_def split: if_splits dest!: Cons.IH)
  qed
qed simp

lemma adjacent_edges_later:
  assumes "adjacent_edges edges_op n d types limit t = Inr (es, t')"
  shows "t \<le> t'"
  using assms unfolding adjacent_edges_def
  by (auto simp: and_then_eq_Inr split: if_splits dest!: edges_later)

lemma traverse_step_later:
  shows "traverse_step edges_op node_op d types options w = Inr w' \<Longrightarrow> tr_time w \<le> tr_time w'"
    and "traverse_step edges_op node_op d types options w = Inl (Inr w') \<Longrightarrow> tr_time w \<le> tr_time w'"
  unfolding traverse_step_def Let_def
  by (auto split: list.splits if_splits sum.splits prod.splits
      dest!: adjacent_edges_later visit_edges_later)

lemma traverse_loop_sound:
  assumes "traverse_loop edges_op node_op d types options seeds t = Some (Inr w)"
  shows "trav_ok seeds (followed d types) options w" and "t \<le> tr_time w"
proof -
  let ?P = "\<lambda>w. trav_ok seeds (followed d types) options w \<and> t \<le> tr_time w"
  have "\<exists>r. traverse_loop edges_op node_op d types options seeds t = Some r
      \<and> (\<forall>w. r = Inr w \<longrightarrow> ?P w)"
    unfolding traverse_loop_def
  proof (rule run_loop_result [where P = ?P and m = "trav_measure options"])
    show "?P (start_traversal seeds t)"
      by (auto simp: trav_ok_def start_traversal_def list_all_iff state_ok_def seed_state_def route_def)
  next
    fix w w'
    assume w: "?P w" and step: "traverse_step edges_op node_op d types options w = Inr w'"
    from traverse_step_ok(1) [OF conjunct1 [OF w] step] traverse_step_later(1) [OF step] w
    show "?P w' \<and> trav_measure options w' < trav_measure options w" by simp
  next
    fix w r
    assume w: "?P w" and step: "traverse_step edges_op node_op d types options w = Inl r"
    show "\<forall>w. r = Inr w \<longrightarrow> ?P w"
    proof (intro allI impI)
      fix w' assume "r = Inr w'"
      with step have step: "traverse_step edges_op node_op d types options w = Inl (Inr w')" by simp
      from traverse_step_ok(2) [OF conjunct1 [OF w] step] traverse_step_later(2) [OF step] w
      show "?P w'" by simp
    qed
  qed
  with assms show "trav_ok seeds (followed d types) options w" and "t \<le> tr_time w" by auto
qed

end

interpretation stored_later: timed_source "edges_at storage parse workspace"
    "node_at storage parse workspace" for storage parse workspace
  by unfold_locales (auto simp: edges_at_def node_at_def call_Inr)

section \<open>A graph to run the reads on\<close>

definition demo_node_row :: "string \<Rightarrow> graph_node_row" where
  "demo_node_row n =
     \<lparr>nr_id = n, nr_workspace_id = ''w'', nr_node_type = ''function'', nr_stable_key = n,
      nr_language = None, nr_name = n, nr_qualified_name = None, nr_document_id = None,
      nr_chunk_id = None, nr_source_path = None, nr_source_start_byte = None,
      nr_source_end_byte = None, nr_analyzer_id = ''x'', nr_analyzer_version = ''1'',
      nr_structure_version = ''1'', nr_content_revision = 1, nr_metadata_json = ''null'',
      nr_created_at = 0, nr_updated_at = 0\<rparr>"

definition demo_edge_row :: "string \<Rightarrow> string \<Rightarrow> string \<Rightarrow> graph_edge_row" where
  "demo_edge_row i a b =
     \<lparr>er_id = i, er_workspace_id = ''w'', er_relationship_key = i, er_relationship_fact_id = None,
      er_from_node = a, er_to_node = b, er_edge_type = ''calls'', er_confidence = f32_zero,
      er_analyzer_id = ''x'', er_analyzer_version = ''1'', er_structure_version = ''1'',
      er_source_document_id = None, er_source_path = None, er_source_start_byte = None,
      er_source_end_byte = None, er_content_revision = 1, er_metadata_json = ''null'',
      er_created_at = 0\<rparr>"

text \<open>Both b and c call a, and d calls b.\<close>

definition demo_graph :: graph_db where
  "demo_graph =
     \<lparr>db_documents = [], db_chunks = [], db_analysis = [],
      db_revisions = [demo_revision_row],
      db_repairs = [], db_nodes = map demo_node_row [''a'', ''b'', ''c'', ''d''],
      db_edges = [demo_edge_row ''e1'' ''b'' ''a'', demo_edge_row ''e2'' ''c'' ''a'',
        demo_edge_row ''e3'' ''d'' ''b''],
      db_facts = [], db_unresolved = [], db_projections = [], db_candidates = []\<rparr>"

definition demo_storage :: storage where "demo_storage t = Inr demo_graph"

definition demo_parser :: json_parser where "demo_parser s = Inr JNull"

definition demo_options :: "nat \<Rightarrow> nat \<Rightarrow> nat \<Rightarrow> structural_read_options" where
  "demo_options n e d = \<lparr>allow_stale = False, max_nodes = n, max_edges = e, max_depth = d\<rparr>"

definition demo_registry :: analyzer_registry where
  "demo_registry = registry_empty rust_analyzer"


section \<open>Results\<close>

text \<open>C32. Structural reads always come to an end: whatever the graph holds and however it changes
  during the read, a traversal and an impact analysis return a result or an error.\<close>

theorem structural_reads_return:
  "(\<exists>r. traverse storage parse registry workspace seed_ids d types options t = Some r)
   \<and> (\<exists>r. impact_from_nodes storage parse registry workspace seed_ids options t = Some r)
   \<and> (\<exists>r. impact_from_symbol storage parse registry workspace symbol options t = Some r)
   \<and> (\<exists>r. impact_from_path storage parse registry workspace path options t = Some r)"
proof -
  have traversal: "\<exists>r. traverse_loop (edges_at storage parse workspace) (node_at storage parse workspace)
      d types options seeds t = Some r" for seeds t
    using stored_graph.traverse_loop_result by blast
  have impact: "\<exists>r. impact_from_seed_nodes storage parse registry workspace snapshot seeds options t
      = Some r" for snapshot seeds t
  proof -
    obtain r where "run_loop (impact_step (edges_at storage parse workspace)
        (node_at storage parse workspace) options) (start_impact seeds t) = Some r"
      using stored_graph.impact_loop_result by blast
    then show ?thesis by (simp add: impact_from_seed_nodes_def split: sum.split)
  qed
  have "\<exists>r. traverse storage parse registry workspace seed_ids d types options t = Some r"
    using traversal by (auto simp: traverse_def split: sum.split option.split) (metis option.distinct(1))
  then show ?thesis
    using impact by (auto simp: impact_from_nodes_def impact_from_symbol_def impact_from_path_def
        split: sum.split)
qed

text \<open>C33. A successful traversal starts from the requested nodes, without repetition, and finds only
  nodes that a route from a seed reaches along the requested direction and edge types: each found
  node comes with such a route, of at most the depth limit, without a cycle, whose confidence is the
  product of its edges' confidences clamped to the unit interval.  No node is found twice, seeds are
  not found again, and the limits on nodes and edges hold.\<close>

theorem traversal_sound:
  assumes "traverse storage parse registry workspace seed_ids d types options t = Some (Inr (r, t'))"
  shows "node_id ` set (result_seeds r) = set seed_ids
    \<and> list_all2 (path_ok (result_seeds r) (followed d types) (max_depth options))
        (result_nodes r) (result_paths r)
    \<and> distinct (map node_id (result_seeds r @ result_nodes r))
    \<and> distinct (map edge_id (result_edges r))
    \<and> length (result_seeds r) \<le> max_nodes options \<and> length (result_nodes r) \<le> max_nodes options
    \<and> length (result_edges r) \<le> max_edges options"
  using assms
proof (rule traverse_Inr)
  fix snapshot t1 seeds t2 w
  assume seeds: "load_seed_nodes (node_at storage parse workspace) workspace seed_ids
      (max_nodes options) t1 = Inr (seeds, t2)"
    and loop: "traverse_loop (edges_at storage parse workspace) (node_at storage parse workspace) d
      types options seeds t2 = Some (Inr w)"
    and r: "r = \<lparr>result_snapshot = snapshot, result_limits = options, result_seeds = seeds,
      result_nodes = tr_nodes w, result_edges = tr_edges w, result_paths = tr_paths w,
      result_truncated = tr_truncated w\<rparr>"
  from stored_later.traverse_loop_sound(1) [OF loop] load_seed_nodes_ids [OF seeds] r
  show ?thesis by (auto simp: trav_ok_def)
qed

lemma demo_traversal:
  "map_option (map_sum id (\<lambda>(r, t). (map node_id (result_nodes r), result_truncated r)))
     (traverse demo_storage demo_parser demo_registry ''w'' [''a''] Incoming [Calls] (demo_options 5 5 2) 0)
   = Some (Inr ([''b'', ''c'', ''d''], False))"
  by code_simp

lemma demo_result:
  obtains r t where "traverse demo_storage demo_parser demo_registry ''w'' [''a''] Incoming [Calls]
      (demo_options 5 5 2) 0 = Some (Inr (r, t))"
    and "map node_id (result_nodes r) = [''b'', ''c'', ''d'']"
proof -
  obtain x where x: "traverse demo_storage demo_parser demo_registry ''w'' [''a''] Incoming [Calls]
      (demo_options 5 5 2) 0 = Some (Inr x)"
    and "(\<lambda>(r, t). (map node_id (result_nodes r), result_truncated r)) x
      = ([''b'', ''c'', ''d''], False)"
    by (rule found_result [OF demo_traversal])
  moreover obtain r t where "x = (r, t)" by (cases x)
  ultimately show thesis using that [of r t] by simp
qed

theorem traversal_sound_witness:
  "\<exists>r :: structural_result. map node_id (result_nodes r) = [''b'', ''c'', ''d'']
    \<and> list_all2 (path_ok (result_seeds r) (followed Incoming [Calls]) 2) (result_nodes r) (result_paths r)
    \<and> length (result_nodes r) \<le> 5"
proof -
  obtain r t where r: "traverse demo_storage demo_parser demo_registry ''w'' [''a''] Incoming [Calls]
      (demo_options 5 5 2) 0 = Some (Inr (r, t))"
    and nodes: "map node_id (result_nodes r) = [''b'', ''c'', ''d'']"
    by (rule demo_result)
  have "max_depth (demo_options 5 5 2) = 2" "max_nodes (demo_options 5 5 2) = 5"
    by (simp_all add: demo_options_def)
  with traversal_sound [OF r] have "list_all2 (path_ok (result_seeds r) (followed Incoming [Calls]) 2)
      (result_nodes r) (result_paths r) \<and> length (result_nodes r) \<le> 5" by simp
  with nodes show ?thesis by (intro exI [of _ r] conjI) simp_all
qed

section \<open>One snapshot\<close>

lemma versions_current_later:
  "versions_current storage registry ds t = Inr (b, t') \<Longrightarrow> t \<le> t'"
proof (induction ds arbitrary: t)
  case (Cons d ds)
  then obtain s where "(case s of None \<Rightarrow> Inr (False, Suc t)
      | Some s \<Rightarrow> if version_current registry d s then versions_current storage registry ds (Suc t)
        else Inr (False, Suc t)) = Inr (b, t')"
    by (auto simp: and_then_eq_Inr call_Inr)
  then show ?case
    using Cons.IH [of "Suc t"] by (cases s) (auto split: if_splits)
qed simp

lemma graph_snapshot_reads:
  assumes "graph_snapshot storage registry workspace stale t = Inr (snapshot, t')"
  shows "t < t'" and "\<exists>db s. storage t = Inr db \<and> workspace_graph_revision_of workspace db = Inr (Some s)
    \<and> revision_content_revision s = revision_content_revision snapshot
    \<and> revision_graph_content_revision s = revision_graph_content_revision snapshot"
proof -
  from assms obtain s t1 t2 fresh repair where
    s: "call storage (workspace_graph_revision_of workspace) t = Inr (Some s, t1)"
    and r: "call storage (workspace_graph_repair_of workspace) t1 = Inr (repair, t2)"
    and fresh: "(if is_current s then analysis_versions_are_current storage registry workspace t2
               else Inr (True, t2)) = Inr (fresh, t')"
    and snapshot: "snapshot = (if fresh then s else s\<lparr>revision_graph_state := StaleGraph\<rparr>)"
    unfolding graph_snapshot_def by (auto simp: and_then_eq_Inr Let_def split: prod.splits)
  have "t2 \<le> t'" using fresh
    by (auto simp: analysis_versions_are_current_def and_then_eq_Inr call_Inr split: if_splits
        dest: versions_current_later)
  then show "t < t'" using s r by (simp add: call_Inr)
  show "\<exists>db s. storage t = Inr db \<and> workspace_graph_revision_of workspace db = Inr (Some s)
    \<and> revision_content_revision s = revision_content_revision snapshot
    \<and> revision_graph_content_revision s = revision_graph_content_revision snapshot"
    using s snapshot by (auto simp: call_Inr)
qed

lemma load_seeds_later:
  "load_seeds (node_at storage parse workspace) workspace limit ns seen seeds t = Inr (out, t')
    \<Longrightarrow> t \<le> t'"
  by (induction ns arbitrary: seen seeds t)
    (auto simp: and_then_eq_Inr split: if_splits dest!: stored_later.node_later intro: le_trans)

lemma load_seed_nodes_later:
  "load_seed_nodes (node_at storage parse workspace) workspace ns limit t = Inr (seeds, t') \<Longrightarrow> t \<le> t'"
  by (auto simp: load_seed_nodes_def and_then_eq_Inr dest: load_seeds_later)

text \<open>A storage whose database changes by graph operations only, from one moment to the next.\<close>

definition follows :: "storage \<Rightarrow> (nat \<Rightarrow> graph_db) \<Rightarrow> bool" where
  "follows storage db \<longleftrightarrow> reachable (db 0) \<and> (\<forall>i. storage i = Inr (db i))
     \<and> (\<forall>i. \<exists>ops. graph_run (db i) ops (db (Suc i)))"

lemma graph_run_append:
  "graph_run a ops b \<Longrightarrow> graph_run b ops' c \<Longrightarrow> graph_run a (ops @ ops') c"
  by (induction rule: graph_run.induct) (auto intro: graph_run.intros)

lemma follows_run:
  assumes "follows storage db" and "i \<le> j"
  shows "\<exists>ops. graph_run (db i) ops (db j)"
  using assms(2)
proof (induction j rule: dec_induct)
  case (step j)
  then show ?case using assms(1) graph_run_append unfolding follows_def by blast
qed (use graph_run.finish in blast)

lemma follows_evolves:
  assumes "follows storage db" and "i \<le> j"
  shows "revisions_ok (db i)" and "evolves (db i) (db j)"
proof -
  obtain ops where "graph_run (db 0) ops (db i)" using follows_run [OF assms(1), of 0 i] by blast
  then show ok: "revisions_ok (db i)"
    using assms(1) run_evolves reachable_revisions by (auto simp: follows_def evolves_def)
  show "evolves (db i) (db j)" using follows_run [OF assms] run_evolves [OF _ ok] by blast
qed

lemma find_keyed:
  "distinct (map f xs) \<Longrightarrow> x \<in> set xs \<Longrightarrow> find (\<lambda>y. f y = f x) xs = Some x"
  by (induction xs) auto

text \<open>Along such a storage, the revisions that a workspace's row reads as never go back.\<close>

lemma revision_of_later:
  assumes "follows storage db" and "i \<le> j"
    and "workspace_graph_revision_of w (db i) = Inr (Some s)"
  obtains s' where "workspace_graph_revision_of w (db j) = Inr (Some s')"
    and "revision_content_revision s \<le> revision_content_revision s'"
    and "revision_graph_content_revision s \<le> revision_graph_content_revision s'"
proof -
  from assms(3) obtain r where r: "find (\<lambda>r. vr_workspace_id r = w) (db_revisions (db i)) = Some r"
    and s: "graph_revision_of_row r = Inr s"
    by (auto simp: workspace_graph_revision_of_def transpose_row_Inr split: option.splits)
  from find_SomeD [OF r] follows_evolves(2) [OF assms(1,2)] obtain r' where
    r': "r' \<in> set (db_revisions (db j))" "later_row r r'" "vr_workspace_id r = w"
    by (auto simp: evolves_def)
  have ok: "revisions_ok (db j)" using follows_evolves(1) [OF assms(1), of j j] by simp
  have "find (\<lambda>r. vr_workspace_id r = w) (db_revisions (db j)) = Some r'"
    using ok r' by (auto simp: later_row_def revisions_ok_def dest: find_keyed [where f = vr_workspace_id])
  moreover obtain s' where "graph_revision_of_row r' = Inr s'"
    and "revision_content_revision s' = vr_content_revision r'"
    and "revision_graph_content_revision s' = vr_graph_content_revision r'"
    using ok r'(1) by (auto simp: revisions_ok_def list_all_iff revision_row_ok_def
        graph_revision_of_row_def)
  ultimately show thesis
    using that r'(2) s by (auto simp: workspace_graph_revision_of_def transpose_row_def later_row_def
        graph_revision_of_row_def split: if_splits)
qed

lemma revision_between:
  assumes "follows storage db" and "t \<le> i" and "i \<le> u"
    and first: "graph_snapshot storage registry workspace stale t = Inr (snapshot, t1)"
    and last: "graph_snapshot storage registry workspace stale u = Inr (snapshot, t2)"
  shows "\<exists>s. workspace_graph_revision_of workspace (db i) = Inr (Some s)
    \<and> revision_content_revision s = revision_content_revision snapshot
    \<and> revision_graph_content_revision s = revision_graph_content_revision snapshot"
proof -
  have storage: "storage i = Inr (db i)" for i using assms(1) by (simp add: follows_def)
  obtain s0 where s0: "workspace_graph_revision_of workspace (db t) = Inr (Some s0)"
    "revision_content_revision s0 = revision_content_revision snapshot"
    "revision_graph_content_revision s0 = revision_graph_content_revision snapshot"
    using graph_snapshot_reads(2) [OF first] storage by auto
  obtain s where s: "workspace_graph_revision_of workspace (db i) = Inr (Some s)"
    "revision_content_revision s0 \<le> revision_content_revision s"
    "revision_graph_content_revision s0 \<le> revision_graph_content_revision s"
    using revision_of_later [OF assms(1,2) s0(1)] by auto
  obtain s1 where s1: "workspace_graph_revision_of workspace (db u) = Inr (Some s1)"
    "revision_content_revision s \<le> revision_content_revision s1"
    "revision_graph_content_revision s \<le> revision_graph_content_revision s1"
    using revision_of_later [OF assms(1,3) s(1)] by auto
  have "revision_content_revision s1 = revision_content_revision snapshot"
    "revision_graph_content_revision s1 = revision_graph_content_revision snapshot"
    using graph_snapshot_reads(2) [OF last] storage s1(1) by auto
  then show ?thesis using s0 s s1 by auto
qed

text \<open>C4. A traversal's answer belongs to one state of the graph.  When the storage changes by the
  graph operations only, however they interleave with the read, a traversal that succeeds began and
  ended with the same snapshot, which is current unless stale reads were allowed; at every moment
  in between the workspace had the snapshot's content and graph revisions; and at both ends no
  repair of the workspace was pending.\<close>

theorem traversal_isolated:
  assumes "follows storage db"
    and "traverse storage parse registry workspace seed_ids d types options t = Some (Inr (r, t'))"
  shows "(allow_stale options \<or> is_current (result_snapshot r))
    \<and> (\<exists>u. t < u \<and> u < t'
        \<and> graph_snapshot storage registry workspace (allow_stale options) u = Inr (result_snapshot r, t')
        \<and> (\<forall>i \<in> {t .. u}. \<exists>s. workspace_graph_revision_of workspace (db i) = Inr (Some s)
            \<and> revision_content_revision s = revision_content_revision (result_snapshot r)
            \<and> revision_graph_content_revision s = revision_graph_content_revision (result_snapshot r))
        \<and> (\<forall>i \<in> {Suc t, Suc u}. \<exists>repair. workspace_graph_repair_of workspace (db i) = Inr repair
            \<and> \<not> repair_blocks repair))"
  using assms(2)
proof (rule traverse_Inr)
  fix snapshot t1 seeds t2 w
  assume first: "graph_snapshot storage registry workspace (allow_stale options) t = Inr (snapshot, t1)"
    and seeds: "load_seed_nodes (node_at storage parse workspace) workspace seed_ids
      (max_nodes options) t1 = Inr (seeds, t2)"
    and loop: "traverse_loop (edges_at storage parse workspace) (node_at storage parse workspace) d
      types options seeds t2 = Some (Inr w)"
    and "ensure_snapshot_unchanged storage registry workspace snapshot (allow_stale options)
      (tr_time w) = Inr ((), t')"
    and "r = \<lparr>result_snapshot = snapshot, result_limits = options, result_seeds = seeds,
      result_nodes = tr_nodes w, result_edges = tr_edges w, result_paths = tr_paths w,
      result_truncated = tr_truncated w\<rparr>"
  then have last: "graph_snapshot storage registry workspace (allow_stale options) (tr_time w)
      = Inr (snapshot, t')" and r: "result_snapshot r = snapshot"
    by (simp_all add: ensure_snapshot_unchanged_Inr)
  have storage: "storage i = Inr (db i)" for i using assms(1) by (simp add: follows_def)
  have "t < tr_time w"
    using graph_snapshot_reads(1) [OF first] load_seed_nodes_later [OF seeds]
      stored_later.traverse_loop_sound(2) [OF loop] by simp
  moreover have "\<exists>s. workspace_graph_revision_of workspace (db i) = Inr (Some s)
      \<and> revision_content_revision s = revision_content_revision snapshot
      \<and> revision_graph_content_revision s = revision_graph_content_revision snapshot"
    if "i \<in> {t .. tr_time w}" for i
    using revision_between [OF assms(1) _ _ first last, of i] that by simp
  moreover have "\<exists>repair. workspace_graph_repair_of workspace (db i) = Inr repair \<and> \<not> repair_blocks repair"
    if "i \<in> {Suc t, Suc (tr_time w)}" for i
    using graph_snapshot_Inr(2) [OF first] graph_snapshot_Inr(2) [OF last] storage that by auto
  ultimately show ?thesis
    using graph_snapshot_Inr(1) [OF last] graph_snapshot_reads(1) [OF last] last r by auto
qed

lemma demo_follows: "follows demo_storage (\<lambda>_. demo_graph)"
proof -
  have "same_lifecycle (run_op (RegisterWorkspace ''w'' 0) empty_db) demo_graph"
    by code_simp
  then have "graph_run empty_db [RegisterWorkspace ''w'' 0, WriteContent] demo_graph"
    by (intro graph_run.step [OF graph_step.operation
          graph_run.step [OF graph_step.content graph_run.finish]]) simp_all
  then show ?thesis
    using graph_run.finish by (auto simp: follows_def demo_storage_def reachable_def)
qed

theorem traversal_isolated_witness:
  "\<exists>(r :: structural_result) (u :: nat). map node_id (result_nodes r) = [''b'', ''c'', ''d'']
    \<and> is_current (result_snapshot r) \<and> 0 < u"
proof -
  obtain r t where r: "traverse demo_storage demo_parser demo_registry ''w'' [''a''] Incoming [Calls]
      (demo_options 5 5 2) 0 = Some (Inr (r, t))"
    and nodes: "map node_id (result_nodes r) = [''b'', ''c'', ''d'']"
    by (rule demo_result)
  have "\<not> allow_stale (demo_options 5 5 2)" by (simp add: demo_options_def)
  with traversal_isolated [OF demo_follows r] obtain u :: nat where "is_current (result_snapshot r)" "0 < u"
    by auto
  with nodes show ?thesis by (intro exI [of _ r] exI [of _ u] conjI) simp_all
qed

end
