(* ===== verification/ImpactSearch.thy ===== *)
theory ImpactSearch
  imports StructuralResults
begin

text \<open>
  What an impact analysis computes: on a database that does not change during the read, a report
  that is not truncated holds exactly the nodes that depend on the seeds within each distance.  The
  abstract specification is \<open>affected\<close>, a level-by-level closure over the rows of the database; the
  search over queues, seen sets and limits refines it.
\<close>

section \<open>The specification\<close>

definition has_node :: "json_parser \<Rightarrow> string \<Rightarrow> graph_db \<Rightarrow> string \<Rightarrow> graph_node \<Rightarrow> bool" where
  "has_node parse workspace db n node \<longleftrightarrow> graph_node_by_id parse workspace n db = Inr (Some node)"

definition has_edge :: "json_parser \<Rightarrow> string \<Rightarrow> graph_db \<Rightarrow> graph_edge \<Rightarrow> bool" where
  "has_edge parse workspace db e \<longleftrightarrow>
     (\<exists>r \<in> set (db_edges db). er_workspace_id r = workspace \<and> graph_edge_of_row parse r = Inr e)"

definition contained :: "json_parser \<Rightarrow> string \<Rightarrow> graph_db \<Rightarrow> nat \<Rightarrow> string \<Rightarrow> bool" where
  "contained parse workspace db k a \<longleftrightarrow>
     k = 0 \<and> (\<exists>node. has_node parse workspace db a node \<and> node_type_of node = FileNode)"

text \<open>\<open>depends k a m\<close>: the node m is one hop further than a, which lies at distance k.\<close>

definition depends :: "json_parser \<Rightarrow> string \<Rightarrow> graph_db \<Rightarrow> nat \<Rightarrow> string \<Rightarrow> string \<Rightarrow> bool" where
  "depends parse workspace db k a m \<longleftrightarrow> (\<exists>node. has_node parse workspace db m node)
     \<and> (\<exists>e. has_edge parse workspace db e \<and> (followed Incoming reverse_types e a m
          \<or> contained parse workspace db k a \<and> followed Outgoing [Contains] e a m))"

primrec affected :: "json_parser \<Rightarrow> string \<Rightarrow> graph_db \<Rightarrow> string set \<Rightarrow> nat \<Rightarrow> string set" where
  "affected parse workspace db S 0 = S"
| "affected parse workspace db S (Suc k) = affected parse workspace db S k
     \<union> {m. \<exists>a \<in> affected parse workspace db S k. depends parse workspace db k a m}"

lemma affected_mono: "i \<le> j \<Longrightarrow> affected parse workspace db S i \<subseteq> affected parse workspace db S j"
  by (induction j rule: dec_induct) auto

section \<open>Complete edge queries\<close>

lemma stored_edge_type:
  assumes "edge_type_from_storage v \<in> set types" and "list_all (\<lambda>x. other_edge_type x = None) types"
  shows "v \<in> set (map edge_type_storage_name types)"
proof -
  have "map_of edge_type_names v \<noteq> None"
    using assms by (auto simp: edge_type_from_storage_def read_name_def list_all_iff
        split: option.splits if_splits)
  then obtain x where x: "map_of edge_type_names v = Some x" by auto
  then have "edge_type_from_storage v = x"
    by (simp add: edge_type_from_storage_def read_name_def)
  moreover have "edge_type_storage_name x = v"
    using map_of_SomeD [OF x]
    by (auto simp: edge_type_names_def edge_type_storage_name_def stored_name_def)
  ultimately show ?thesis using assms(1) by force
qed

lemma edges_for_node_complete:
  assumes "graph_edges_for_node parse workspace node incoming types limit db = Inr es"
    and "length es < limit" and "list_all (\<lambda>x. other_edge_type x = None) types" and "types \<noteq> []"
    and "has_edge parse workspace db e" and "edge_type_of e \<in> set types"
    and "(if incoming then edge_to_node e else edge_from_node e) = node"
  shows "e \<in> set es"
proof -
  let ?rows = "sort_key (\<lambda>r. (er_edge_type r, er_relationship_key r))
    (filter (edge_row_selected workspace node incoming types) (db_edges db))"
  from assms(1,2) have es: "try_map (graph_edge_of_row parse) (take limit ?rows) = Inr es"
    by (auto simp: graph_edges_for_node_def memory_limit_def and_then_eq_Inr split: if_splits)
  have "length (take limit ?rows) < limit" using try_map_length [OF es] assms(2) by simp
  then have es: "list_all2 (\<lambda>r e. graph_edge_of_row parse r = Inr e) ?rows es"
    using es by (simp add: try_map_eq_Inr)
  obtain r where r: "r \<in> set (db_edges db)" "er_workspace_id r = workspace"
    "graph_edge_of_row parse r = Inr e"
    using assms(5) by (auto simp: has_edge_def)
  then have "edge_row_selected workspace node incoming types r"
    using stored_edge_type [of "er_edge_type r" types] assms(3,4,6,7) edge_of_row_fields [OF r(3)]
    by (simp add: edge_row_selected_def split: if_splits)
  then have "r \<in> set ?rows" using r(1) by simp
  then obtain i where "i < length ?rows" "?rows ! i = r" by (meson in_set_conv_nth)
  then show ?thesis using es r(3) by (auto simp: list_all2_conv_all_nth)
qed

lemma converted_ids:
  "list_all2 (\<lambda>r e. graph_edge_of_row parse r = Inr e) rows es \<Longrightarrow> map edge_id es = map er_id rows"
  by (induction rule: list_all2_induct) (simp_all add: edge_of_row_fields)

lemma edges_for_node_keyed:
  assumes "graph_edges_for_node parse workspace node incoming types limit db = Inr es"
    and "distinct (map er_id (db_edges db))"
  shows "distinct (map edge_id es)"
proof (cases "limit = 0")
  case False
  let ?rows = "sort_key (\<lambda>r. (er_edge_type r, er_relationship_key r))
    (filter (edge_row_selected workspace node incoming types) (db_edges db))"
  obtain n where es: "try_map (graph_edge_of_row parse) (take n ?rows) = Inr es"
    using assms(1) False by (auto simp: graph_edges_for_node_def and_then_eq_Inr)
  have "map edge_id es = map er_id (take n ?rows)"
    using es converted_ids unfolding try_map_eq_Inr by blast
  moreover have "distinct (map er_id ?rows)"
    using assms(2) by (simp add: distinct_map inj_on_def)
  ultimately show ?thesis by (simp add: take_map [symmetric] distinct_take)
qed (use assms(1) in \<open>simp add: graph_edges_for_node_def\<close>)

lemma edges_for_node_has:
  assumes "graph_edges_for_node parse workspace node incoming types limit db = Inr es" and "e \<in> set es"
  shows "has_edge parse workspace db e"
  using edges_for_node_row [OF assms] by (auto simp: has_edge_def edge_row_selected_def)

lemma has_edge_unique:
  assumes "distinct (map er_id (db_edges db))" and "has_edge parse workspace db e"
    and "has_edge parse workspace db e'" and "edge_id e = edge_id e'"
  shows "e = e'"
proof -
  obtain r r' where "r \<in> set (db_edges db)" "r' \<in> set (db_edges db)"
    "graph_edge_of_row parse r = Inr e" "graph_edge_of_row parse r' = Inr e'"
    using assms(2,3) by (auto simp: has_edge_def)
  moreover from this have "r = r'"
    using assms(1,4) by (auto simp: edge_of_row_fields distinct_map inj_on_def)
  ultimately show ?thesis by simp
qed

lemma dedup_by_distinct: "distinct (map f xs) \<Longrightarrow> dedup_by f xs = xs"
  by (induction f xs rule: dedup_by.induct) auto

section \<open>The hops of one entry\<close>

lemma impact_edges_complete:
  assumes quiet: "\<And>t. storage t = Inr db" and keyed: "distinct (map er_id (db_edges db))"
    and "impact_edges (edges_at storage parse workspace) s limit t = Inr (es, t')"
    and "length es < limit"
    and "contained parse workspace db (ie_depth s) (node_id (ie_node s))
      \<longleftrightarrow> ie_depth s = 0 \<and> node_type_of (ie_node s) = FileNode"
    and "depends parse workspace db (ie_depth s) (node_id (ie_node s)) m"
  shows "\<exists>e \<in> set es. adjacent_node_id e (node_id (ie_node s)) = Some m"
proof -
  let ?n = "node_id (ie_node s)"
  from assms(3) obtain inc t1 out where
    inc: "edges_at storage parse workspace t ?n True reverse_types limit = Inr (inc, t1)"
    and out: "(if ie_depth s = 0 \<and> node_type_of (ie_node s) = FileNode
      then edges_at storage parse workspace t1 ?n False [Contains] limit else Inr ([], t1)) = Inr (out, t')"
    and es: "es = dedup_by edge_id (sort_key
      (\<lambda>e. (edge_type_storage_name (edge_type_of e), edge_relationship_key e)) (inc @ out))"
    by (rule impact_edges_parts)
  from inc have inc: "graph_edges_for_node parse workspace ?n True reverse_types limit db = Inr inc"
    by (simp add: edges_at_def call_Inr quiet)
  have out: "out = [] \<and> \<not> contained parse workspace db (ie_depth s) ?n
      \<or> graph_edges_for_node parse workspace ?n False [Contains] limit db = Inr out"
    using out assms(5) by (auto simp: edges_at_def call_Inr quiet split: if_splits)
  have types: "edge_type_of e \<in> set reverse_types" if "e \<in> set inc" for e
  proof -
    have "reverse_types \<noteq> []" by (simp add: reverse_types_def)
    with edges_for_node_row [OF inc that] show ?thesis
      using edge_row_selected_type by (fastforce simp: edge_of_row_fields)
  qed
  have contains: "edge_type_of e = Contains" if "e \<in> set out" for e
    using out edges_for_node_row [of parse workspace ?n False "[Contains]" limit db out e]
      edge_row_selected_type [of workspace ?n False "[Contains]"] that
    by (auto simp: edge_of_row_fields)
  have "edge_id e \<noteq> edge_id e'" if "e \<in> set inc" "e' \<in> set out" for e e'
    using has_edge_unique [OF keyed edges_for_node_has [OF inc that(1)], of e'] types [OF that(1)]
      contains [OF that(2)] out edges_for_node_has [of parse workspace ?n False "[Contains]" limit db out e']
      that(2) by (auto simp: reverse_types_def)
  then have distinct: "distinct (map edge_id (inc @ out))"
    using edges_for_node_keyed [OF inc keyed] out
      edges_for_node_keyed [OF _ keyed, of parse workspace ?n False "[Contains]" limit out] by auto
  have "es = sort_key (\<lambda>e. (edge_type_storage_name (edge_type_of e), edge_relationship_key e)) (inc @ out)"
    unfolding es using distinct
    by (intro dedup_by_distinct) (simp only: distinct_map distinct_sort set_sort)
  then have set: "set es = set inc \<union> set out" and len: "length inc < limit" "length out < limit"
    using assms(4) by simp_all
  from assms(6) obtain e where e: "has_edge parse workspace db e"
    and "followed Incoming reverse_types e ?n m
      \<or> contained parse workspace db (ie_depth s) ?n \<and> followed Outgoing [Contains] e ?n m"
    unfolding depends_def by blast
  then show ?thesis
  proof (elim disjE conjE)
    assume f: "followed Incoming reverse_types e ?n m"
    then have "e \<in> set inc"
      by (intro edges_for_node_complete [OF inc len(1) _ _ e])
        (auto simp: followed_def joins_def of_type_def reverse_types_def)
    moreover have "adjacent_node_id e ?n = Some m"
      using f by (auto simp: followed_def joins_def adjacent_node_id_def)
    ultimately show ?thesis using set by blast
  next
    assume c: "contained parse workspace db (ie_depth s) ?n" and f: "followed Outgoing [Contains] e ?n m"
    then have "e \<in> set out"
      using out by (intro edges_for_node_complete [OF _ len(2) _ _ e])
        (auto simp: followed_def joins_def of_type_def)
    moreover have "adjacent_node_id e ?n = Some m"
      using f by (auto simp: followed_def joins_def adjacent_node_id_def)
    ultimately show ?thesis using set by blast
  qed
qed

lemma impact_edges_depends:
  assumes quiet: "\<And>t. storage t = Inr db"
    and "impact_edges (edges_at storage parse workspace) s limit t = Inr (es, t')"
    and "contained parse workspace db (ie_depth s) (node_id (ie_node s))
      \<longleftrightarrow> ie_depth s = 0 \<and> node_type_of (ie_node s) = FileNode"
    and "e \<in> set es" and "has_node parse workspace db m node"
    and "adjacent_node_id e (node_id (ie_node s)) = Some m"
  shows "depends parse workspace db (ie_depth s) (node_id (ie_node s)) m"
proof -
  let ?n = "node_id (ie_node s)"
  from assms(2) obtain inc t1 out where
    inc: "edges_at storage parse workspace t ?n True reverse_types limit = Inr (inc, t1)"
    and out: "(if ie_depth s = 0 \<and> node_type_of (ie_node s) = FileNode
      then edges_at storage parse workspace t1 ?n False [Contains] limit else Inr ([], t1)) = Inr (out, t')"
    and es: "es = dedup_by edge_id (sort_key
      (\<lambda>e. (edge_type_storage_name (edge_type_of e), edge_relationship_key e)) (inc @ out))"
    by (rule impact_edges_parts)
  from assms(4) have "e \<in> set inc \<or> e \<in> set out"
    using set_dedup_by_subset unfolding es by fastforce
  then show ?thesis
  proof
    assume e: "e \<in> set inc"
    then have "has_edge parse workspace db e"
      using inc edges_for_node_has by (auto simp: edges_at_def call_Inr quiet)
    moreover have "followed Incoming reverse_types e ?n m"
      using stored_graph.edges_touch [OF inc e] stored_graph.edges_typed [OF inc e] assms(6)
      by (auto simp: followed_def joins_def of_type_def reverse_types_def adjacent_node_id_def
          split: if_splits)
    ultimately show ?thesis using assms(5) by (auto simp: depends_def)
  next
    assume e: "e \<in> set out"
    then have c: "contained parse workspace db (ie_depth s) ?n"
      and op: "edges_at storage parse workspace t1 ?n False [Contains] limit = Inr (out, t')"
      using out assms(3) by (auto split: if_splits)
    then have "has_edge parse workspace db e"
      using e edges_for_node_has by (auto simp: edges_at_def call_Inr quiet)
    moreover have "followed Outgoing [Contains] e ?n m"
      using stored_graph.edges_touch [OF op e] stored_graph.edges_typed [OF op e] assms(6)
      by (auto simp: followed_def joins_def of_type_def adjacent_node_id_def split: if_splits)
    ultimately show ?thesis using c assms(5) by (auto simp: depends_def)
  qed
qed

section \<open>The search's progress\<close>

text \<open>The nodes that the search knows, each at its distance, and those it has still to expand.\<close>

definition known :: "graph_node list \<Rightarrow> impact_search \<Rightarrow> (string \<times> nat) set" where
  "known seeds w = (\<lambda>s. (node_id s, 0)) ` set seeds
     \<union> (\<lambda>i. (node_id (impact_node i), distance (impact_path i))) ` set (is_impacts w)"

definition pending :: "impact_search \<Rightarrow> (string \<times> nat) set" where
  "pending w = (\<lambda>s. (node_id (ie_node s), ie_depth s)) ` set (is_queue w)"

definition settled :: "json_parser \<Rightarrow> string \<Rightarrow> graph_db \<Rightarrow> (string \<times> nat) set \<Rightarrow> string \<Rightarrow> nat \<Rightarrow> bool" where
  "settled parse workspace db K a d \<longleftrightarrow>
     (\<forall>m. depends parse workspace db d a m \<longrightarrow> (\<exists>d' \<le> Suc d. (m, d') \<in> K))"

lemma settled_mono: "settled parse workspace db K a d \<Longrightarrow> K \<subseteq> K' \<Longrightarrow> settled parse workspace db K' a d"
  by (auto simp: settled_def)

text \<open>What holds whenever the search looks at an edge; \<open>skip\<close> is the entry that it expands.\<close>

definition explored :: "json_parser \<Rightarrow> string \<Rightarrow> graph_db \<Rightarrow> graph_node list \<Rightarrow> nat
    \<Rightarrow> (string \<times> nat) option \<Rightarrow> impact_search \<Rightarrow> bool" where
  "explored parse workspace db seeds depth skip w \<longleftrightarrow>
     (\<forall>(a, k) \<in> known seeds w. a \<in> affected parse workspace db (node_id ` set seeds) k)
     \<and> pending w \<subseteq> known seeds w
     \<and> list_all (\<lambda>s. has_node parse workspace db (node_id (ie_node s)) (ie_node s)
          \<and> ie_depth s = distance (ie_path s)) (is_queue w)
     \<and> sorted (map ie_depth (is_queue w))
     \<and> (\<forall>m \<in> set (is_seen w). \<forall>node. has_node parse workspace db m node \<longrightarrow> m \<in> fst ` known seeds w)
     \<and> (\<forall>(a, k) \<in> known seeds w. Some (a, k) = skip \<or> (a, k) \<in> pending w \<or> depth \<le> k
          \<or> settled parse workspace db (known seeds w) a k)"

text \<open>Nothing known lies more than a hop beyond depth d, and nothing pending before it.\<close>

definition within_hop :: "graph_node list \<Rightarrow> nat \<Rightarrow> impact_search \<Rightarrow> bool" where
  "within_hop seeds d w \<longleftrightarrow>
     (\<forall>(a, k) \<in> known seeds w. k \<le> Suc d) \<and> (\<forall>(a, k) \<in> pending w. d \<le> k)"

lemma known_cong: "is_impacts w' = is_impacts w \<Longrightarrow> known seeds w' = known seeds w"
  by (simp add: known_def)

lemma known_found: "known seeds (found_impact s' w)
    = insert (node_id (ie_node s'), distance (ie_path s')) (known seeds w)"
  by (simp add: known_def found_impact_def item_of_def)

lemma pending_found: "pending (found_impact s' w)
    = insert (node_id (ie_node s'), ie_depth s') (pending w)"
  by (simp add: pending_def found_impact_def)

lemma explored_same:
  assumes "explored parse workspace db seeds depth skip w" and "is_queue w' = is_queue w"
    and "is_impacts w' = is_impacts w"
    and "set (is_seen w') \<subseteq> set (is_seen w) \<union> {m. \<nexists>node. has_node parse workspace db m node}"
  shows "explored parse workspace db seeds depth skip w'"
proof -
  have "pending w' = pending w" "known seeds w' = known seeds w"
    using assms(2,3) by (simp_all add: pending_def known_def)
  moreover have "m \<in> fst ` known seeds w" if "m \<in> set (is_seen w')" "has_node parse workspace db m node"
    for m node
    using assms(1,4) that unfolding explored_def by blast
  ultimately show ?thesis
    using assms(1-3) by (simp add: explored_def)
qed

lemma explored_found:
  assumes "explored parse workspace db seeds depth skip w" and "within_hop seeds d w"
    and "has_node parse workspace db m node" and "node_id node = m"
    and "m \<in> affected parse workspace db (node_id ` set seeds) (Suc d)"
    and "ie_depth s = d" and "d = distance (ie_path s)"
  shows "explored parse workspace db seeds depth skip
      (found_impact (extend_entry s e node) (w\<lparr>is_seen := m # is_seen w, is_time := t\<rparr>))"
    and "within_hop seeds d
      (found_impact (extend_entry s e node) (w\<lparr>is_seen := m # is_seen w, is_time := t\<rparr>))"
proof -
  let ?w = "w\<lparr>is_seen := m # is_seen w, is_time := t\<rparr>" and ?s = "extend_entry s e node"
  have s: "node_id (ie_node ?s) = m" "ie_depth ?s = Suc d" "distance (ie_path ?s) = Suc d"
    "ie_node ?s = node"
    using assms(4,6,7) by (simp_all add: extend_entry_def extend_path_def distance_def)
  have K: "known seeds (found_impact ?s ?w) = insert (m, Suc d) (known seeds w)"
    using s by (simp add: known_def found_impact_def item_of_def)
  have P: "pending (found_impact ?s ?w) = insert (m, Suc d) (pending w)"
    using s by (simp add: pending_def found_impact_def)
  show "within_hop seeds d (found_impact ?s ?w)"
    using assms(2) unfolding within_hop_def K P by auto
  have Q: "is_queue (found_impact ?s ?w) = is_queue w @ [?s]"
    "is_seen (found_impact ?s ?w) = m # is_seen w" by (simp_all add: found_impact_def)
  have "ie_depth q \<le> Suc d" if "q \<in> set (is_queue w)" for q
  proof -
    have "(node_id (ie_node q), ie_depth q) \<in> known seeds w"
      using assms(1) that by (auto simp: explored_def pending_def)
    then show ?thesis using assms(2) by (auto simp: within_hop_def)
  qed
  then have sorted: "sorted (map ie_depth (is_queue w @ [?s]))"
    using assms(1) s by (auto simp: explored_def sorted_append)
  have settled: "Some (a, k) = skip \<or> (a, k) \<in> insert (m, Suc d) (pending w) \<or> depth \<le> k
      \<or> settled parse workspace db (insert (m, Suc d) (known seeds w)) a k"
    if "(a, k) \<in> insert (m, Suc d) (known seeds w)" for a k
  proof (cases "(a, k) \<in> known seeds w")
    case True
    have "\<forall>(a, k) \<in> known seeds w. Some (a, k) = skip \<or> (a, k) \<in> pending w \<or> depth \<le> k
        \<or> settled parse workspace db (known seeds w) a k"
      using assms(1) unfolding explored_def by (elim conjE)
    from bspec [OF this True] show ?thesis
      using settled_mono [OF _ subset_insertI, of parse workspace db "known seeds w" a k] by auto
  qed (use that in simp)
  show "explored parse workspace db seeds depth skip (found_impact ?s ?w)"
    unfolding explored_def K P Q
  proof (intro conjI)
    show "\<forall>(a, k) \<in> insert (m, Suc d) (known seeds w).
        a \<in> affected parse workspace db (node_id ` set seeds) k"
      using assms(1,5) by (simp add: explored_def del: affected.simps)
    show "insert (m, Suc d) (pending w) \<subseteq> insert (m, Suc d) (known seeds w)"
      using assms(1) by (auto simp: explored_def)
    show "list_all (\<lambda>s. has_node parse workspace db (node_id (ie_node s)) (ie_node s)
        \<and> ie_depth s = distance (ie_path s)) (is_queue w @ [?s])"
      using assms(1,3,4) s by (simp add: explored_def)
    show "\<forall>n \<in> set (m # is_seen w). \<forall>node. has_node parse workspace db n node
        \<longrightarrow> n \<in> fst ` insert (m, Suc d) (known seeds w)"
      using assms(1) by (auto simp: explored_def)
  qed (use sorted settled in auto)
qed

text \<open>What a visit does with its first edge.\<close>

lemma visit_impacts_cases:
  assumes "visit_impacts node_op limit s (e # es) w = Inr w'"
  obtains (seen) m where "adjacent_node_id e (node_id (ie_node s)) = Some m" and "m \<in> set (is_seen w)"
      and "visit_impacts node_op limit s es (w\<lparr>is_traversed := is_traversed w + 1\<rparr>) = Inr w'"
    | (missing) m t where "adjacent_node_id e (node_id (ie_node s)) = Some m"
      and "node_op (is_time w) m = Inr (None, t)"
      and "visit_impacts node_op limit s es (w\<lparr>is_traversed := is_traversed w + 1,
        is_seen := m # is_seen w, is_time := t\<rparr>) = Inr w'"
    | (found) m node t w3 where "adjacent_node_id e (node_id (ie_node s)) = Some m"
      and "node_op (is_time w) m = Inr (Some node, t)"
      and "w3 = found_impact (extend_entry s e node) (w\<lparr>is_traversed := is_traversed w + 1,
        is_seen := m # is_seen w, is_time := t\<rparr>)"
      and "w' = w3\<lparr>is_truncated := True\<rparr> \<or> visit_impacts node_op limit s es w3 = Inr w'"
proof (cases "adjacent_node_id e (node_id (ie_node s))")
  case None
  then show thesis using assms unfolding visit_impacts_Cons by simp
next
  case (Some m)
  show thesis
  proof (cases "m \<in> set (is_seen w)")
    case True
    then show thesis using assms Some seen unfolding visit_impacts_Cons by simp
  next
    case False
    then obtain x t where x: "node_op (is_time w) m = Inr (x, t)"
      using assms Some unfolding visit_impacts_Cons
      by (cases "node_op (is_time w) m") (auto simp: Let_def)
    show thesis
    proof (cases x)
      case None
      then show thesis
        using assms Some False x missing unfolding visit_impacts_Cons by (simp add: Let_def)
    next
      case node: (Some node)
      show thesis
        using assms False found [OF Some _ refl, of node t] x
        unfolding visit_impacts_Cons Some x node option.case sum.case prod.case Let_def
        by (simp split: if_splits)
    qed
  qed
qed

lemma visit_keeps_truncated:
  "visit_impacts node_op limit s es w = Inr w' \<Longrightarrow> is_truncated w \<Longrightarrow> is_truncated w'"
proof (induction es arbitrary: w)
  case (Cons e es)
  from Cons.prems(1) show ?case
  proof (cases rule: visit_impacts_cases)
    case (found m node t w3)
    then have "is_truncated w3" using Cons.prems(2) by (simp add: found_impact_def)
    then show ?thesis using found(4) Cons.IH by auto
  qed (use Cons.prems(2) in \<open>auto dest!: Cons.IH\<close>)
qed simp

lemma exploredD:
  assumes "explored parse workspace db seeds depth skip w"
  shows "(a, k) \<in> known seeds w \<Longrightarrow> a \<in> affected parse workspace db (node_id ` set seeds) k"
    and "pending w \<subseteq> known seeds w"
    and "s \<in> set (is_queue w) \<Longrightarrow> has_node parse workspace db (node_id (ie_node s)) (ie_node s)
      \<and> ie_depth s = distance (ie_path s)"
    and "sorted (map ie_depth (is_queue w))"
    and "m \<in> set (is_seen w) \<Longrightarrow> has_node parse workspace db m node \<Longrightarrow> m \<in> fst ` known seeds w"
    and "(a, k) \<in> known seeds w \<Longrightarrow> Some (a, k) = skip \<or> (a, k) \<in> pending w \<or> depth \<le> k
      \<or> settled parse workspace db (known seeds w) a k"
  using assms unfolding explored_def by (fast, simp, simp add: list_all_iff, simp, fast, fast)

lemma visit_impacts_explored:
  assumes "visit_impacts (node_at storage parse workspace) limit s es w = Inr w'"
    and quiet: "\<And>t. storage t = Inr db"
    and "explored parse workspace db seeds depth (Some (node_id (ie_node s), ie_depth s)) w"
    and "within_hop seeds (ie_depth s) w" and "ie_depth s = distance (ie_path s)"
    and "\<forall>e \<in> set es. \<forall>m node. adjacent_node_id e (node_id (ie_node s)) = Some m
      \<longrightarrow> has_node parse workspace db m node
      \<longrightarrow> m \<in> affected parse workspace db (node_id ` set seeds) (Suc (ie_depth s))"
  shows "is_truncated w' \<or>
    explored parse workspace db seeds depth (Some (node_id (ie_node s), ie_depth s)) w'
    \<and> within_hop seeds (ie_depth s) w' \<and> known seeds w \<subseteq> known seeds w'
    \<and> (\<forall>e \<in> set es. \<forall>m node. adjacent_node_id e (node_id (ie_node s)) = Some m
        \<longrightarrow> has_node parse workspace db m node
        \<longrightarrow> (\<exists>d' \<le> Suc (ie_depth s). (m, d') \<in> known seeds w'))"
  using assms(1,3,4,6)
proof (induction es arbitrary: w)
  case (Cons e es)
  let ?n = "node_id (ie_node s)" and ?d = "ie_depth s"
  let ?ok = "\<lambda>w. explored parse workspace db seeds depth (Some (?n, ?d)) w \<and> within_hop seeds ?d w"
  let ?reached = "\<lambda>w e. \<forall>m node. adjacent_node_id e ?n = Some m
    \<longrightarrow> has_node parse workspace db m node \<longrightarrow> (\<exists>d' \<le> Suc ?d. (m, d') \<in> known seeds w)"
  have rest: "\<forall>e \<in> set es. \<forall>m node. adjacent_node_id e ?n = Some m \<longrightarrow> has_node parse workspace db m node
      \<longrightarrow> m \<in> affected parse workspace db (node_id ` set seeds) (Suc ?d)"
    using Cons.prems(4) by simp
  have next_state: ?case if "visit_impacts (node_at storage parse workspace) limit s es w1 = Inr w'"
    "?ok w1" "known seeds w \<subseteq> known seeds w1" "?reached w1 e" for w1
  proof -
    from Cons.IH [OF that(1) conjunct1 [OF that(2)] conjunct2 [OF that(2)] rest]
    show ?thesis using that(3,4) by (elim disjE) (simp, simp, meson subset_iff)
  qed
  from Cons.prems(1) show ?case
  proof (cases rule: visit_impacts_cases)
    case (seen m)
    let ?w1 = "w\<lparr>is_traversed := is_traversed w + 1\<rparr>"
    have "?ok ?w1"
      using explored_same [OF Cons.prems(2), of ?w1] Cons.prems(3) by (simp add: within_hop_def known_def pending_def)
    moreover have "?reached ?w1 e"
    proof (intro allI impI)
      fix m' node assume "adjacent_node_id e ?n = Some m'" and "has_node parse workspace db m' node"
      then have "m' \<in> fst ` known seeds w"
        using seen(1,2) exploredD(5) [OF Cons.prems(2)] by simp
      then obtain k where k: "(m', k) \<in> known seeds w" by auto
      then have "k \<le> Suc ?d" using Cons.prems(3) by (auto simp: within_hop_def)
      with k show "\<exists>d' \<le> Suc ?d. (m', d') \<in> known seeds ?w1" by (auto simp: known_def)
    qed
    ultimately show ?thesis using next_state [OF seen(3)] by (simp add: known_def)
  next
    case (missing m t)
    let ?w1 = "w\<lparr>is_traversed := is_traversed w + 1, is_seen := m # is_seen w, is_time := t\<rparr>"
    have none: "\<not> has_node parse workspace db m node" for node
      using missing(2) by (simp add: node_at_def call_Inr quiet has_node_def)
    then have "?ok ?w1"
      using explored_same [OF Cons.prems(2), of ?w1] Cons.prems(3)
      by (auto simp: within_hop_def known_def pending_def)
    moreover have "?reached ?w1 e" using none missing(1) by auto
    ultimately show ?thesis using next_state [OF missing(3)] by (simp add: known_def)
  next
    case (found m node t w3)
    let ?w1 = "w\<lparr>is_traversed := is_traversed w + 1\<rparr>"
    have has: "has_node parse workspace db m node"
      using found(2) by (simp add: node_at_def call_Inr quiet has_node_def)
    have id: "node_id node = m" using stored_graph.node_found [OF found(2)] .
    have aff: "m \<in> affected parse workspace db (node_id ` set seeds) (Suc ?d)"
      using Cons.prems(4) found(1) has by (meson list.set_intros(1))
    have ok1: "?ok ?w1"
      using explored_same [OF Cons.prems(2), of ?w1] Cons.prems(3) by (simp add: within_hop_def known_def pending_def)
    have w3: "w3 = found_impact (extend_entry s e node) (?w1\<lparr>is_seen := m # is_seen ?w1, is_time := t\<rparr>)"
      using found(3) by simp
    have ok3: "?ok w3"
      using explored_found [OF conjunct1 [OF ok1] conjunct2 [OF ok1] has id aff refl assms(5)]
      unfolding w3 by blast
    have grown: "known seeds w3 = insert (m, Suc ?d) (known seeds w)"
      using id assms(5) unfolding w3
      by (simp add: known_def found_impact_def item_of_def extend_entry_def extend_path_def distance_def)
    have "?reached w3 e" using found(1) grown by auto
    then have "visit_impacts (node_at storage parse workspace) limit s es w3 = Inr w' \<Longrightarrow> ?thesis"
      by (intro next_state) (use ok3 grown in blast)+
    with found(4) show ?thesis by auto
  qed
qed simp

definition progress :: "json_parser \<Rightarrow> string \<Rightarrow> graph_db \<Rightarrow> graph_node list \<Rightarrow> nat \<Rightarrow> impact_search
    \<Rightarrow> bool" where
  "progress parse workspace db seeds depth w \<longleftrightarrow> is_truncated w
     \<or> explored parse workspace db seeds depth None w
       \<and> (\<forall>s q. is_queue w = s # q \<longrightarrow> within_hop seeds (ie_depth s) w)"

text \<open>Taking an entry off the queue.\<close>

lemma explored_pop:
  assumes "explored parse workspace db seeds depth None w" and "is_queue w = s # q"
    and "within_hop seeds (ie_depth s) w" and "is_queue w1 = q" and "is_impacts w1 = is_impacts w"
    and "is_seen w1 = is_seen w"
  shows "explored parse workspace db seeds depth (Some (node_id (ie_node s), ie_depth s)) w1"
    and "within_hop seeds (ie_depth s) w1" and "known seeds w1 = known seeds w"
    and "node_id (ie_node s) \<in> affected parse workspace db (node_id ` set seeds) (ie_depth s)"
proof -
  let ?a = "node_id (ie_node s)" and ?d = "ie_depth s"
  show K: "known seeds w1 = known seeds w" using assms(5) by (simp add: known_def)
  have P: "pending w = insert (?a, ?d) (pending w1)" using assms(2,4) by (simp add: pending_def)
  note e = exploredD [OF assms(1)]
  show "?a \<in> affected parse workspace db (node_id ` set seeds) ?d" using e(1,2) P by blast
  show "within_hop seeds ?d w1" using assms(3) unfolding within_hop_def K P by blast
  show "explored parse workspace db seeds depth (Some (?a, ?d)) w1"
    unfolding explored_def K
  proof (intro conjI)
    show "\<forall>(a, k) \<in> known seeds w. Some (a, k) = Some (?a, ?d) \<or> (a, k) \<in> pending w1 \<or> depth \<le> k
        \<or> settled parse workspace db (known seeds w) a k"
    proof (intro ballI)
      fix x assume "x \<in> known seeds w"
      then show "case x of (a, k) \<Rightarrow> Some (a, k) = Some (?a, ?d) \<or> (a, k) \<in> pending w1 \<or> depth \<le> k
          \<or> settled parse workspace db (known seeds w) a k"
        using e(6) [of "fst x" "snd x"] P by (cases x) auto
    qed
    show "\<forall>(a, k) \<in> known seeds w. a \<in> affected parse workspace db (node_id ` set seeds) k"
      using e(1) by auto
    show "pending w1 \<subseteq> known seeds w" using e(2) P by blast
  qed (use assms(2,4,6) e(3,4,5) in \<open>auto simp: list_all_iff\<close>)
qed

text \<open>An entry whose hops are all known is settled.\<close>

lemma explored_settle:
  assumes "explored parse workspace db seeds depth (Some (a, d)) w"
    and "depth \<le> d \<or> settled parse workspace db (known seeds w) a d"
  shows "explored parse workspace db seeds depth None w"
  using assms unfolding explored_def by fast

lemma progress_intro:
  assumes "explored parse workspace db seeds depth None w" and "within_hop seeds d w"
  shows "progress parse workspace db seeds depth w"
proof -
  have "within_hop seeds (ie_depth s) w" if q: "is_queue w = s # q" for s q
  proof -
    have "sorted (map ie_depth (s # q))" using exploredD(4) [OF assms(1)] q by simp
    then have "\<forall>x \<in> set (is_queue w). ie_depth s \<le> ie_depth x" using q by auto
    moreover have "d \<le> ie_depth s" using assms(2) q by (auto simp: within_hop_def pending_def)
    ultimately show ?thesis using assms(2) by (fastforce simp: within_hop_def pending_def)
  qed
  then show ?thesis using assms(1) by (simp add: progress_def)
qed

lemma impact_step_progress:
  assumes quiet: "\<And>t. storage t = Inr db" and keyed: "distinct (map er_id (db_edges db))"
    and "progress parse workspace db seeds (max_depth options) w"
  shows "case impact_step (edges_at storage parse workspace) (node_at storage parse workspace) options w of
      Inl (Inl err) \<Rightarrow> True
    | Inl (Inr w') \<Rightarrow> progress parse workspace db seeds (max_depth options) w'
        \<and> (is_truncated w' \<or> is_queue w' = [])
    | Inr w' \<Rightarrow> progress parse workspace db seeds (max_depth options) w'"
proof (cases rule: stored_graph.impact_step_cases [of w storage parse workspace options])
  case 1
  then show ?thesis using assms(3) by simp
next
  case (2 s q)
  let ?w1 = "w\<lparr>is_queue := q\<rparr>"
  have "progress parse workspace db seeds (max_depth options) ?w1"
  proof (cases "is_truncated w")
    case True
    then show ?thesis by (simp add: progress_def)
  next
    case False
    then have e: "explored parse workspace db seeds (max_depth options) None w"
      "within_hop seeds (ie_depth s) w"
      using assms(3) 2(1) by (simp_all add: progress_def)
    note pop = explored_pop [OF e(1) 2(1) e(2), of ?w1]
    have "explored parse workspace db seeds (max_depth options) None ?w1"
      using pop(1) 2(2) by (intro explored_settle [OF pop(1)]) simp_all
    then show ?thesis using pop(2) by (intro progress_intro) simp_all
  qed
  then show ?thesis using 2(3) by simp
next
  case (3 s q)
  then show ?thesis by (simp add: progress_def)
next
  case (4 err)
  then show ?thesis by simp
next
  case (5 s q es t w')
  let ?a = "node_id (ie_node s)" and ?d = "ie_depth s" and ?r = "max_edges options - is_traversed w"
  let ?w1 = "w\<lparr>is_queue := q, is_time := t, is_truncated := (is_truncated w \<or> ?r < length es)\<rparr>"
  have "progress parse workspace db seeds (max_depth options) w'"
  proof (cases "is_truncated w'")
    case True
    then show ?thesis by (simp add: progress_def)
  next
    case False
    then have whole: "\<not> is_truncated ?w1" using visit_keeps_truncated [OF 5(6)] by blast
    then have len: "length es < ?r + 1" and e: "explored parse workspace db seeds (max_depth options) None w"
      "within_hop seeds ?d w"
      using assms(3) 5(1) by (auto simp: progress_def)
    note pop = explored_pop [OF e(1) 5(1) e(2), of ?w1]
    have here: "has_node parse workspace db ?a (ie_node s) \<and> ?d = distance (ie_path s)"
      using exploredD(3) [OF e(1), of s] 5(1) by simp
    have is_file: "contained parse workspace db ?d ?a \<longleftrightarrow> ?d = 0 \<and> node_type_of (ie_node s) = FileNode"
      using here by (auto simp: contained_def has_node_def)
    have hops: "\<forall>e \<in> set es. \<forall>m node. adjacent_node_id e ?a = Some m \<longrightarrow> has_node parse workspace db m node
        \<longrightarrow> m \<in> affected parse workspace db (node_id ` set seeds) (Suc ?d)"
      using impact_edges_depends [OF quiet 5(5) is_file] pop(4) by auto
    have visit: "visit_impacts (node_at storage parse workspace) (max_nodes options) s es ?w1 = Inr w'"
      using 5(6) len by simp
    have after: "explored parse workspace db seeds (max_depth options) (Some (?a, ?d)) w'
      \<and> within_hop seeds ?d w' \<and> known seeds ?w1 \<subseteq> known seeds w'
      \<and> (\<forall>e \<in> set es. \<forall>m node. adjacent_node_id e ?a = Some m
        \<longrightarrow> has_node parse workspace db m node \<longrightarrow> (\<exists>d' \<le> Suc ?d. (m, d') \<in> known seeds w'))"
      using visit_impacts_explored [OF visit quiet pop(1) pop(2) conjunct2 [OF here] hops] False by simp
    have "settled parse workspace db (known seeds w') ?a ?d"
      unfolding settled_def
    proof (intro allI impI)
      fix m assume m: "depends parse workspace db ?d ?a m"
      obtain e where "e \<in> set es" "adjacent_node_id e ?a = Some m"
        using impact_edges_complete [OF quiet keyed 5(5) len is_file m] by blast
      moreover obtain node where "has_node parse workspace db m node" using m by (auto simp: depends_def)
      ultimately show "\<exists>d' \<le> Suc ?d. (m, d') \<in> known seeds w'" using after by blast
    qed
    then have "explored parse workspace db seeds (max_depth options) None w'"
      by (intro explored_settle [OF conjunct1 [OF after]]) simp
    then show ?thesis using after by (intro progress_intro [where d = ?d]) simp_all
  qed
  then show ?thesis using 5(7) by simp
qed

lemma start_progress:
  assumes "\<forall>s \<in> set seeds. has_node parse workspace db (node_id s) s"
  shows "progress parse workspace db seeds depth (start_impact seeds t)"
proof -
  let ?w = "start_impact seeds t"
  have K: "known seeds ?w = (\<lambda>s. (node_id s, 0)) ` set seeds" by (simp add: known_def start_impact_def)
  have P: "pending ?w = (\<lambda>s. (node_id s, 0)) ` set seeds"
    by (simp add: pending_def start_impact_def seed_entry_def image_image)
  have queue: "is_queue ?w = map seed_entry seeds" by (simp add: start_impact_def)
  have seed: "node_id (ie_node (seed_entry s)) = node_id s" "ie_node (seed_entry s) = s"
    "ie_depth (seed_entry s) = 0" "distance (ie_path (seed_entry s)) = 0" for s
    by (simp_all add: seed_entry_def distance_def)
  have "m \<in> fst ` known seeds ?w" if "m \<in> set (is_seen ?w)" for m
    using that unfolding K by (simp add: start_impact_def image_image)
  moreover have "sorted (map ie_depth (map seed_entry seeds))"
    by (simp add: comp_def seed sorted_replicate map_replicate_const)
  ultimately have "explored parse workspace db seeds depth None ?w"
    unfolding explored_def K P queue using assms by (auto simp: list_all_iff seed)
  moreover have "within_hop seeds 0 ?w" by (auto simp: within_hop_def K P)
  ultimately show ?thesis by (rule progress_intro)
qed

text \<open>A search that ends without being cut short has settled everything it knows.\<close>

lemma impact_loop_complete:
  assumes quiet: "\<And>t. storage t = Inr db" and keyed: "distinct (map er_id (db_edges db))"
    and seeds: "\<forall>s \<in> set seeds. has_node parse workspace db (node_id s) s"
    and "run_loop (impact_step (edges_at storage parse workspace) (node_at storage parse workspace)
      options) (start_impact seeds t) = Some (Inr w)"
    and "\<not> is_truncated w"
  shows "explored parse workspace db seeds (max_depth options) None w" and "pending w = {}"
    and "impact_ok seeds options w"
proof -
  let ?edges = "edges_at storage parse workspace" and ?node = "node_at storage parse workspace"
  let ?P = "\<lambda>w. impact_ok seeds options w \<and> progress parse workspace db seeds (max_depth options) w"
  let ?Q = "\<lambda>w. impact_ok seeds options w \<and> progress parse workspace db seeds (max_depth options) w
    \<and> (is_truncated w \<or> is_queue w = [])"
  have "\<exists>r. run_loop (impact_step ?edges ?node options) (start_impact seeds t) = Some r
      \<and> (\<forall>w. r = Inr w \<longrightarrow> ?Q w)"
  proof (rule run_loop_result [where P = ?P and m = "impact_measure options"])
    show "?P (start_impact seeds t)"
      using start_progress [OF seeds] by (auto simp: impact_ok_def start_impact_def list_all_iff
          entry_ok_def seed_entry_def route_def distance_def)
  next
    fix w w'
    assume w: "?P w" and step: "impact_step ?edges ?node options w = Inr w'"
    from stored_graph.impact_step_ok(1) [OF conjunct1 [OF w] step]
      impact_step_progress [where storage = storage, OF quiet keyed conjunct2 [OF w]] step
    show "?P w' \<and> impact_measure options w' < impact_measure options w" by simp
  next
    fix w r
    assume w: "?P w" and step: "impact_step ?edges ?node options w = Inl r"
    show "\<forall>w. r = Inr w \<longrightarrow> ?Q w"
    proof (intro allI impI)
      fix w' assume "r = Inr w'"
      with step have step: "impact_step ?edges ?node options w = Inl (Inr w')" by simp
      from stored_graph.impact_step_ok(2) [OF conjunct1 [OF w] step]
        impact_step_progress [where storage = storage, OF quiet keyed conjunct2 [OF w]] step
      show "?Q w'" by simp
    qed
  qed
  with assms(4,5) have "impact_ok seeds options w" "explored parse workspace db seeds (max_depth options) None w"
    "is_queue w = []" by (auto simp: progress_def)
  then show "explored parse workspace db seeds (max_depth options) None w" and "pending w = {}"
    and "impact_ok seeds options w" by (simp_all add: pending_def)
qed

lemma affected_known:
  assumes "explored parse workspace db seeds depth None w" and "pending w = {}" and "k \<le> depth"
    and "n \<in> affected parse workspace db (node_id ` set seeds) k"
  shows "\<exists>d \<le> k. (n, d) \<in> known seeds w"
  using assms(3,4)
proof (induction k arbitrary: n)
  case 0
  then show ?case by (auto simp: known_def)
next
  case (Suc k)
  from Suc.prems(2) consider "n \<in> affected parse workspace db (node_id ` set seeds) k"
    | a where "a \<in> affected parse workspace db (node_id ` set seeds) k" "depends parse workspace db k a n"
    by auto
  then show ?case
  proof cases
    case 1
    with Suc.IH [of n] Suc.prems(1) show ?thesis by (meson Suc_leD le_SucI)
  next
    case 2
    from Suc.IH [OF _ 2(1)] Suc.prems(1) obtain d where d: "d \<le> k" "(a, d) \<in> known seeds w" by auto
    have "settled parse workspace db (known seeds w) a d"
      using exploredD(6) [OF assms(1) d(2)] assms(2) d(1) Suc.prems(1) by auto
    moreover have "depends parse workspace db d a n"
      using 2(2) d(1) by (auto simp: depends_def contained_def)
    ultimately show ?thesis using d(1) by (meson Suc_le_mono le_trans settled_def)
  qed
qed

lemma load_seeds_found:
  assumes "load_seeds node_op workspace limit ns seen seeds t = Inr (out, t')" and "n \<in> set out"
    and "\<And>t n node t'. node_op t n = Inr (Some node, t') \<Longrightarrow> node_id node = n"
  shows "n \<in> set seeds \<or> (\<exists>t t'. node_op t (node_id n) = Inr (Some n, t'))"
  using assms(1)
proof (induction ns arbitrary: seen seeds t)
  case (Cons i ns)
  show ?case
  proof (cases "i \<in> set seen")
    case True
    then show ?thesis using Cons by simp
  next
    case False
    then obtain node t1 where node: "node_op t i = Inr (Some node, t1)"
      and rest: "load_seeds node_op workspace limit ns (i # seen) (seeds @ [node]) t1 = Inr (out, t')"
      using Cons.prems by (auto simp: and_then_eq_Inr split: if_splits)
    from Cons.IH [OF rest] assms(3) [OF node] node show ?thesis by auto
  qed
qed (use assms(2) in simp)

lemma load_seed_nodes_found:
  assumes "load_seed_nodes (node_at storage parse workspace) workspace ns limit t = Inr (seeds, t')"
    and "s \<in> set seeds"
  shows "\<exists>t t'. node_at storage parse workspace t (node_id s) = Inr (Some s, t')"
proof -
  from assms obtain out where "load_seeds (node_at storage parse workspace) workspace limit ns [] [] t
      = Inr (out, t')" and "s \<in> set out"
    by (auto simp: load_seed_nodes_def and_then_eq_Inr)
  from load_seeds_found [OF this stored_graph.node_found] show ?thesis by simp
qed

text \<open>C2. Refinement of the specification: on a database that does not change during the read, an
  impact analysis that is not reported as truncated finds, within each distance up to the depth
  limit, exactly the nodes that are affected by the seeds within that distance; so a node's distance
  in the report is the least one.\<close>

theorem impact_refines_affected:
  assumes "\<And>t. storage t = Inr db" and "distinct (map er_id (db_edges db))"
    and "impact_from_nodes storage parse registry workspace seed_ids options t = Some (Inr (r, t'))"
    and "\<not> report_truncated r" and "k \<le> max_depth options"
  shows "{node_id (impact_node i) | i. i \<in> set (report_impacts r) \<and> distance (impact_path i) \<le> k}
    = affected parse workspace db (set seed_ids) k - set seed_ids"
  using assms(3)
proof (rule impact_from_nodes_Inr)
  fix snapshot t1 seeds t2
  assume load: "load_seed_nodes (node_at storage parse workspace) workspace seed_ids (max_nodes options) t1
      = Inr (seeds, t2)"
    and "impact_from_seed_nodes storage parse registry workspace snapshot seeds options t2 = Some (Inr (r, t'))"
  from this(2) obtain w where
    loop: "run_loop (impact_step (edges_at storage parse workspace) (node_at storage parse workspace)
      options) (start_impact seeds t2) = Some (Inr w)"
    and r: "r = \<lparr>report_snapshot = snapshot, report_limits = options, report_seeds = seeds,
       report_impacts = sort_key impact_order (is_impacts w), report_truncated = is_truncated w\<rparr>"
    by (rule impact_from_seed_nodes_Inr)
  have whole: "\<not> is_truncated w" using assms(4) r by simp
  have seeds: "\<forall>s \<in> set seeds. has_node parse workspace db (node_id s) s"
  proof
    fix s assume "s \<in> set seeds"
    from load_seed_nodes_found [OF load this] show "has_node parse workspace db (node_id s) s"
      using assms(1) by (auto simp: has_node_def node_at_def call_Inr)
  qed
  note complete = impact_loop_complete [OF assms(1,2) seeds loop whole]
  have ids: "node_id ` set seeds = set seed_ids" by (rule load_seed_nodes_ids(1) [OF load])
  have found: "(n, d) \<in> known seeds w \<and> n \<notin> set seed_ids \<longleftrightarrow>
      (\<exists>i \<in> set (is_impacts w). node_id (impact_node i) = n \<and> distance (impact_path i) = d)" for n d
    using complete(3) ids by (auto simp: known_def impact_ok_def)
  have sound: "n \<in> affected parse workspace db (set seed_ids) k" if "(n, d) \<in> known seeds w" "d \<le> k" for n d
    using exploredD(1) [OF complete(1) that(1)] affected_mono [OF that(2)] unfolding ids by blast
  show ?thesis
  proof (intro equalityI subsetI)
    fix n
    assume "n \<in> {node_id (impact_node i) | i. i \<in> set (report_impacts r) \<and> distance (impact_path i) \<le> k}"
    then obtain d where "(n, d) \<in> known seeds w" "n \<notin> set seed_ids" "d \<le> k"
      using found r by auto
    then show "n \<in> affected parse workspace db (set seed_ids) k - set seed_ids"
      using sound by blast
  next
    fix n
    assume "n \<in> affected parse workspace db (set seed_ids) k - set seed_ids"
    then obtain d where "d \<le> k" "(n, d) \<in> known seeds w" "n \<notin> set seed_ids"
      using affected_known [OF complete(1,2) assms(5), of n] ids by auto
    then show "n \<in> {node_id (impact_node i) | i. i \<in> set (report_impacts r) \<and> distance (impact_path i) \<le> k}"
      using found [of n d] r by auto
  qed
qed


text \<open>A report lists each affected node once, never a seed, nearest first and within a distance
  by falling confidence and then by key; each entry's path is a route from a seed to the node along
  dependency edges, or from a file to what it contains, within the depth limit; and the report has at
  most as many entries as asked for.\<close>

theorem impact_report_sound:
  assumes "impact_from_nodes storage parse registry workspace seed_ids options t = Some (Inr (r, t'))"
  shows "sorted (map impact_order (report_impacts r))
    \<and> distinct (map (\<lambda>i. node_id (impact_node i)) (report_impacts r))
    \<and> (\<forall>i \<in> set (report_impacts r). node_id (impact_node i) \<notin> set seed_ids
        \<and> path_ok (report_seeds r) impact_link (max_depth options) (impact_node i) (impact_path i)
        \<and> impact_confidence i = path_confidence (impact_path i))
    \<and> length (report_impacts r) \<le> max_nodes options"
  using assms
proof (rule impact_from_nodes_Inr)
  fix snapshot t1 seeds t2
  assume load: "load_seed_nodes (node_at storage parse workspace) workspace seed_ids (max_nodes options) t1
      = Inr (seeds, t2)"
    and "impact_from_seed_nodes storage parse registry workspace snapshot seeds options t2 = Some (Inr (r, t'))"
  from this(2) obtain w where
    loop: "run_loop (impact_step (edges_at storage parse workspace) (node_at storage parse workspace)
      options) (start_impact seeds t2) = Some (Inr w)"
    and r: "r = \<lparr>report_snapshot = snapshot, report_limits = options, report_seeds = seeds,
       report_impacts = sort_key impact_order (is_impacts w), report_truncated = is_truncated w\<rparr>"
    by (rule impact_from_seed_nodes_Inr)
  have ok: "impact_ok seeds options w"
    using stored_graph.impact_loop_result [of storage parse workspace options seeds t2] loop by auto
  have "distinct (map (\<lambda>i. node_id (impact_node i)) (sort_key impact_order (is_impacts w)))"
    using ok unfolding impact_ok_def distinct_map distinct_sort set_sort by blast
  then show ?thesis
    using ok load_seed_nodes_ids(1) [OF load] r
    by (auto simp: impact_ok_def list_all_iff item_ok_def)
qed

lemma demo_impact:
  "map_option (map_sum id (\<lambda>(r, t). (map (\<lambda>i. (node_id (impact_node i), distance (impact_path i)))
       (report_impacts r), report_truncated r)))
     (impact_from_nodes demo_storage demo_parser demo_registry ''w'' [''a''] (demo_options 5 5 2) 0)
   = Some (Inr ([(''b'', 1), (''c'', 1), (''d'', 2)], False))"
  by code_simp

lemma demo_report:
  obtains r t where "impact_from_nodes demo_storage demo_parser demo_registry ''w'' [''a'']
      (demo_options 5 5 2) 0 = Some (Inr (r, t))"
    and "map (\<lambda>i. (node_id (impact_node i), distance (impact_path i))) (report_impacts r)
      = [(''b'', 1), (''c'', 1), (''d'', 2)]"
    and "\<not> report_truncated r"
proof -
  obtain x where "impact_from_nodes demo_storage demo_parser demo_registry ''w'' [''a'']
      (demo_options 5 5 2) 0 = Some (Inr x)"
    and "(\<lambda>(r, t). (map (\<lambda>i. (node_id (impact_node i), distance (impact_path i)))
       (report_impacts r), report_truncated r)) x = ([(''b'', 1), (''c'', 1), (''d'', 2)], False)"
    by (rule found_result [OF demo_impact])
  moreover obtain r t where "x = (r, t)" by (cases x)
  ultimately show thesis using that [of r t] by simp
qed

theorem impact_refines_affected_witness:
  "affected demo_parser ''w'' demo_graph {''a''} 2 - {''a''} = {''b'', ''c'', ''d''}"
proof -
  obtain r t where r: "impact_from_nodes demo_storage demo_parser demo_registry ''w'' [''a'']
      (demo_options 5 5 2) 0 = Some (Inr (r, t))"
    and items: "map (\<lambda>i. (node_id (impact_node i), distance (impact_path i))) (report_impacts r)
      = [(''b'', 1), (''c'', 1), (''d'', 2)]"
    and whole: "\<not> report_truncated r"
    by (rule demo_report)
  have quiet: "demo_storage t = Inr demo_graph" for t by (simp add: demo_storage_def)
  have keyed: "distinct (map er_id (db_edges demo_graph))" by code_simp
  have "2 \<le> max_depth (demo_options 5 5 2)" by (simp add: demo_options_def)
  from impact_refines_affected [OF quiet keyed r whole this]
  have "affected demo_parser ''w'' demo_graph {''a''} 2 - {''a''}
    = {node_id (impact_node i) | i. i \<in> set (report_impacts r) \<and> distance (impact_path i) \<le> 2}"
    by simp
  also have "\<dots> = fst ` {p \<in> set (map (\<lambda>i. (node_id (impact_node i), distance (impact_path i)))
      (report_impacts r)). snd p \<le> 2}"
    by force
  also have "\<dots> = {''b'', ''c'', ''d''}" unfolding items by force
  finally show ?thesis .
qed

theorem impact_report_sound_witness:
  "\<exists>r :: impact_report. length (report_impacts r) = 3 \<and> sorted (map impact_order (report_impacts r))"
proof -
  obtain r t where r: "impact_from_nodes demo_storage demo_parser demo_registry ''w'' [''a'']
      (demo_options 5 5 2) 0 = Some (Inr (r, t))"
    and items: "map (\<lambda>i. (node_id (impact_node i), distance (impact_path i))) (report_impacts r)
      = [(''b'', 1), (''c'', 1), (''d'', 2)]"
    by (rule demo_report)
  have "length (report_impacts r) = 3" using arg_cong [OF items, of length] by simp
  with impact_report_sound [OF r] show ?thesis by (intro exI [of _ r] conjI) simp_all
qed

section \<open>A cut that is not reported\<close>

text \<open>Traversals, unlike impact analyses, can be cut short without saying so: the node that meets the
  node limit is not put on the queue, and the flag is overwritten when it is found.  Node a has two
  callers; a request for one edge and one node finds the first of them and reports the answer as
  complete.\<close>

lemma callers_cut_unreported:
  "map_option (map_sum id (\<lambda>(r, t). (map node_id (result_nodes r), result_truncated r)))
     (callers demo_storage demo_parser demo_registry ''w'' ''a'' (demo_options 1 1 1) 0)
   = Some (Inr ([''b''], False))
   \<and> map_option (map_sum id (\<lambda>(r, t). (map node_id (result_nodes r), result_truncated r)))
     (callers demo_storage demo_parser demo_registry ''w'' ''a'' (demo_options 5 5 1) 0)
   = Some (Inr ([''b'', ''c''], False))"
  by code_simp

end
