(* ===== verification/Resolver.thy ===== *)
theory Resolver
  imports GraphStore Utf8 "HOL-Library.Multiset"
begin

text \<open>
  \<open>src/graph/resolver.rs\<close> and the pure part of \<open>src/graph/registry.rs\<close>: the graph nodes that a
  document's symbols become, and which node the target of a relationship means.  Node ids and the
  clock are arguments of the operations that draw them.
\<close>

section \<open>Symbol registry\<close>

definition normalized_path :: "string \<Rightarrow> string" where
  "normalized_path path =
     join_with ''/'' (filter (\<lambda>p. p \<noteq> [] \<and> p \<noteq> ''.'') (split_on (CHR ''/'') (to_slashes (trim path))))"

definition file_stable_key :: "string \<Rightarrow> string" where
  "file_stable_key path = ''file:'' @ normalized_path path"

definition symbol_node_key :: "string \<Rightarrow> string \<Rightarrow> string" where
  "symbol_node_key analyzer key = ''symbol:'' @ analyzer @ '':'' @ key"

text \<open>\<open>Value::get\<close> with a string, \<open>as_bool\<close> and \<open>as_str\<close>.\<close>

definition json_get :: "string \<Rightarrow> json \<Rightarrow> json option" where
  "json_get k j = (case j of JObject kvs \<Rightarrow> map_of kvs k | _ \<Rightarrow> None)"

definition json_str :: "json \<Rightarrow> string option" where
  "json_str j = (case j of JString s \<Rightarrow> Some s | _ \<Rightarrow> None)"

definition symbol_node_type :: "symbol_kind \<Rightarrow> json \<Rightarrow> graph_node_type" where
  "symbol_node_type kind metadata =
     (if json_get ''is_test'' metadata = Some (JBool True) then TestNode
      else case kind of
        FunctionSymbol \<Rightarrow> FunctionNode | MethodSymbol \<Rightarrow> MethodNode | ClassSymbol \<Rightarrow> ClassNode
      | StructSymbol \<Rightarrow> StructNode | EnumSymbol \<Rightarrow> EnumNode | TraitSymbol \<Rightarrow> TraitNode
      | InterfaceSymbol \<Rightarrow> InterfaceNode | ModuleSymbol \<Rightarrow> ModuleNode
      | NamespaceSymbol \<Rightarrow> NamespaceNode | TypeSymbol \<Rightarrow> TypeNode | ConstantSymbol \<Rightarrow> ConstantNode
      | VariableSymbol \<Rightarrow> OtherNode ''variable'' | ImplementationSymbol \<Rightarrow> OtherNode ''implementation''
      | OtherSymbol v \<Rightarrow> OtherNode v)"

definition stored_symbol_metadata :: "analyzed_symbol \<Rightarrow> string \<Rightarrow> json" where
  "stored_symbol_metadata y analyzer =
     (let values = (case symbol_metadata y of JObject kvs \<Rightarrow> kvs
                    | v \<Rightarrow> [(''analyzer_metadata'', v)]);
          values = btree_insert ''logical_stable_key'' (JString (symbol_stable_key y)) values;
          values = btree_insert ''symbol_kind''
            (JString (symbol_kind_storage_name (symbol_kind_of y))) values;
          values = btree_insert ''start_line'' (JNumber (PosInt (symbol_start_line y))) values;
          values = btree_insert ''end_line'' (JNumber (PosInt (symbol_end_line y))) values
      in JObject (case symbol_parent_key y of
           None \<Rightarrow> values
         | Some p \<Rightarrow> btree_insert ''parent_stable_key'' (JString (symbol_node_key analyzer p)) values))"

definition file_node :: "string \<Rightarrow> timestamp \<Rightarrow> document \<Rightarrow> string \<Rightarrow> nat \<Rightarrow> graph_node" where
  "file_node i now d path end_byte =
     \<lparr>node_id = i, node_workspace_id = document_workspace_id d, node_type_of = FileNode,
      node_stable_key = file_stable_key path, node_language = Some (document_language d),
      node_name = last (split_on (CHR ''/'') path), node_qualified_name = Some path,
      node_document_id = Some (document_id d), node_chunk_id = None,
      node_source_segment = Some \<lparr>segment_source = path, segment_start_byte = 0,
        segment_end_byte = end_byte\<rparr>,
      node_analyzer_id = ''graph-core'', node_analyzer_version = ''1'',
      node_structure_version = ''graph-core:file:v1'',
      node_content_revision = document_content_revision d,
      node_metadata = JObject [(''logical_kind'', JString ''file'')],
      node_created_at = now, node_updated_at = now\<rparr>"

definition symbol_node ::
    "string \<Rightarrow> timestamp \<Rightarrow> document \<Rightarrow> string \<Rightarrow> string \<Rightarrow> analyzed_symbol \<Rightarrow> cortex_error + graph_node" where
  "symbol_node i now d structure path y =
     (let analyzer = document_analyzer_id d; key = trim (symbol_stable_key y)
      in and_then (ensure (key \<noteq> [])
           (AnalysisErr (''analyzer '' @ analyzer @ '' emitted an empty symbol stable key''))) (\<lambda>_.
         and_then (ensure (\<not> blank (symbol_name y))
           (AnalysisErr (''analyzer '' @ analyzer @ '' emitted an unnamed symbol '' @ key))) (\<lambda>_.
         and_then (ensure (symbol_start_byte y \<le> symbol_end_byte y)
           (AnalysisErr (''analyzer '' @ analyzer @ '' emitted an invalid source range for '' @ key))) (\<lambda>_.
         Inr \<lparr>node_id = i, node_workspace_id = document_workspace_id d,
           node_type_of = symbol_node_type (symbol_kind_of y) (symbol_metadata y),
           node_stable_key = symbol_node_key analyzer key,
           node_language = Some (document_language d), node_name = symbol_name y,
           node_qualified_name = symbol_qualified_name y, node_document_id = Some (document_id d),
           node_chunk_id = None,
           node_source_segment = Some \<lparr>segment_source = path,
             segment_start_byte = symbol_start_byte y, segment_end_byte = symbol_end_byte y\<rparr>,
           node_analyzer_id = analyzer, node_analyzer_version = document_analyzer_version d,
           node_structure_version = structure,
           node_content_revision = document_content_revision d,
           node_metadata = stored_symbol_metadata y analyzer,
           node_created_at = now, node_updated_at = now\<rparr>))))"

fun symbol_nodes :: "(nat \<Rightarrow> string) \<Rightarrow> timestamp \<Rightarrow> document \<Rightarrow> string \<Rightarrow> string \<Rightarrow> nat
    \<Rightarrow> analyzed_symbol list \<Rightarrow> cortex_error + graph_node list" where
  "symbol_nodes new_id now d structure path k [] = Inr []"
| "symbol_nodes new_id now d structure path k (y # ys) =
     and_then (symbol_node (new_id k) now d structure path y) (\<lambda>n.
     and_then (symbol_nodes new_id now d structure path (Suc k) ys) (\<lambda>ns. Inr (n # ns)))"

definition nodes_for_document :: "(nat \<Rightarrow> string) \<Rightarrow> timestamp \<Rightarrow> document \<Rightarrow> string
    \<Rightarrow> analyzed_symbol list \<Rightarrow> cortex_error + graph_node list" where
  "nodes_for_document new_id now d structure symbols =
     (let path = normalized_path (document_relative_path d)
      in and_then (ensure (path \<noteq> [])
           (AnalysisErr ''symbol registration requires a non-empty document path'')) (\<lambda>_.
         and_then (u64_column ''document size cannot be negative during registration''
           (document_size_bytes d)) (\<lambda>end_byte.
         and_then (symbol_nodes new_id now d structure path 1 symbols) (\<lambda>nodes.
         Inr (file_node (new_id 0) now d path end_byte # nodes)))))"

section \<open>Names and aliases\<close>

definition language_matches :: "graph_node \<Rightarrow> string option \<Rightarrow> bool" where
  "language_matches n language = (case language of None \<Rightarrow> True | Some l \<Rightarrow> node_language n = Some l)"

definition starts_with_separator :: "string \<Rightarrow> bool" where
  "starts_with_separator v \<longleftrightarrow> starts_with v ''::'' \<or> starts_with v ''.'' \<or> starts_with v ''/''"

definition is_simple_name :: "string \<Rightarrow> bool" where
  "is_simple_name target \<longleftrightarrow> \<not> contains_str ''::'' target \<and> \<not> contains_str ''.'' target
     \<and> CHR ''/'' \<notin> set target \<and> CHR 0x5C \<notin> set target"

definition sibling_qualified_name :: "string \<Rightarrow> string \<Rightarrow> string option" where
  "sibling_qualified_name source target =
     (case (rfind_str ''::'' source, rfind_str ''.'' source) of
        (None, None) \<Rightarrow> None
      | (Some p, None) \<Rightarrow> Some (take p source @ ''::'' @ target)
      | (None, Some q) \<Rightarrow> Some (take q source @ ''.'' @ target)
      | (Some p, Some q) \<Rightarrow> Some (if q < p then take p source @ ''::'' @ target
                               else take q source @ ''.'' @ target))"

definition module_like :: "graph_node \<Rightarrow> bool" where
  "module_like n \<longleftrightarrow> node_type_of n \<in> {ModuleNode, NamespaceNode, PackageNode, FileNode}"

definition module_belongs_to :: "string \<Rightarrow> string \<Rightarrow> bool" where
  "module_belongs_to target base =
     (let base = trim base
      in target = base \<or> (case strip_prefix_str base target of
           None \<Rightarrow> False | Some rest \<Rightarrow> starts_with_separator rest))"

definition expand_alias :: "string \<Rightarrow> resolution_alias \<Rightarrow> string list" where
  "expand_alias target a =
     (let name = trim (alias_name a); to = trim (alias_target a)
      in if name = [] \<or> to = [] then []
         else if target = name then [to]
         else case strip_prefix_str name target of
                None \<Rightarrow> []
              | Some rest \<Rightarrow> if starts_with_separator rest then [to @ rest] else [])"

definition expand_aliases :: "string \<Rightarrow> resolution_alias list \<Rightarrow> string list \<times> bool" where
  "expand_aliases target aliases =
     (let expanded = concat (map (expand_alias target) aliases)
      in (dedup_by (\<lambda>t. t) (sort (if expanded = [] then [target] else expanded)), expanded \<noteq> []))"

section \<open>Candidates\<close>

text \<open>\<open>deduplicate\<close> sorts by stable key and id, and keeps the first node of each id.\<close>

definition deduplicate :: "graph_node list \<Rightarrow> graph_node list" where
  "deduplicate ns = retain_first node_id [] (sort_key (\<lambda>n. (node_stable_key n, node_id n)) ns)"

definition nodes_by_qualified_name :: "graph_node list \<Rightarrow> string \<Rightarrow> string option \<Rightarrow> graph_node list" where
  "nodes_by_qualified_name nodes name language =
     filter (\<lambda>n. node_qualified_name n = Some name \<and> language_matches n language) nodes"

definition nodes_by_name :: "graph_node list \<Rightarrow> string \<Rightarrow> string option \<Rightarrow> graph_node list" where
  "nodes_by_name nodes name language =
     filter (\<lambda>n. node_name n = name \<and> language_matches n language) nodes"

definition qualified_candidates :: "graph_node list \<Rightarrow> string option \<Rightarrow> string list \<Rightarrow> graph_node list" where
  "qualified_candidates nodes language names =
     deduplicate (filter (\<lambda>n. (case node_qualified_name n of None \<Rightarrow> False | Some q \<Rightarrow> q \<in> set names)
       \<and> language_matches n language) nodes)"

text \<open>The node with a stable key, if its language matches.\<close>

definition keyed_node :: "graph_node list \<Rightarrow> string \<Rightarrow> string option \<Rightarrow> graph_node option" where
  "keyed_node nodes key language =
     (case find (\<lambda>n. node_stable_key n = key) nodes of
        None \<Rightarrow> None | Some n \<Rightarrow> if language_matches n language then Some n else None)"

definition source_document :: "resolution_request \<Rightarrow> graph_node option \<Rightarrow> string option" where
  "source_document request source =
     (case request_source_document_id request of
        Some d \<Rightarrow> Some d
      | None \<Rightarrow> (case source of None \<Rightarrow> None | Some n \<Rightarrow> node_document_id n))"

text \<open>The candidates in the source document, when the document is known and has any.\<close>

definition local_nodes :: "string option \<Rightarrow> graph_node list \<Rightarrow> graph_node list" where
  "local_nodes document ns =
     (case document of None \<Rightarrow> [] | Some d \<Rightarrow> filter (\<lambda>n. node_document_id n = Some d) ns)"

definition finish_resolution :: "graph_node list \<Rightarrow> resolution_basis \<Rightarrow> string \<Rightarrow> resolution_outcome" where
  "finish_resolution candidates basis target =
     (case deduplicate candidates of
        [] \<Rightarrow> Unresolved target
      | [n] \<Rightarrow> Resolved n basis
      | ns \<Rightarrow> Ambiguous ns [] basis)"

section \<open>Resolution\<close>

definition nonempty_outcome :: "string \<Rightarrow> bool \<Rightarrow> resolution_outcome" where
  "nonempty_outcome target external =
     (let target = trim target
      in if target = [] \<or> \<not> external then Unresolved target else External target)"

definition has_logical_key :: "string \<Rightarrow> graph_node \<Rightarrow> bool" where
  "has_logical_key target n \<longleftrightarrow>
     Option.bind (json_get ''logical_stable_key'' (node_metadata n)) json_str = Some target"

definition resolve_local_key ::
    "resolution_request \<Rightarrow> graph_node option \<Rightarrow> string option \<Rightarrow> string \<Rightarrow> graph_node list
      \<Rightarrow> resolution_outcome" where
  "resolve_local_key request source language target nodes =
     (let target = trim target
      in if target = [] then Unresolved target
         else case keyed_node nodes target language of
           Some n \<Rightarrow> Resolved n ByLocalStableKey
         | None \<Rightarrow>
             (case (case source of None \<Rightarrow> None
                    | Some s \<Rightarrow> keyed_node nodes (symbol_node_key (node_analyzer_id s) target) language) of
                Some n \<Rightarrow> Resolved n ByLocalStableKey
              | None \<Rightarrow>
                  let candidates = filter (\<lambda>n. language_matches n language \<and> has_logical_key target n) nodes;
                      local = local_nodes (source_document request source) candidates
                  in finish_resolution (if local \<noteq> [] then local else candidates) ByLocalStableKey target))"

definition resolve_by_name ::
    "resolution_request \<Rightarrow> graph_node option \<Rightarrow> string option \<Rightarrow> string \<Rightarrow> graph_node list
      \<Rightarrow> resolution_outcome" where
  "resolve_by_name request source language target nodes =
     (let named = nodes_by_name nodes target language;
          local = local_nodes (source_document request source) named
      in if \<not> is_simple_name target then Unresolved target
         else if local \<noteq> [] then finish_resolution local BySourceDocument target
         else if named \<noteq> [] then finish_resolution named ByWorkspaceName target
         else Unresolved target)"

definition sibling_candidates ::
    "graph_node option \<Rightarrow> string option \<Rightarrow> string \<Rightarrow> graph_node list \<Rightarrow> graph_node list" where
  "sibling_candidates source language target nodes =
     (if is_simple_name target
      then case Option.bind (Option.bind source node_qualified_name)
                  (\<lambda>q. sibling_qualified_name q target) of
             None \<Rightarrow> [] | Some name \<Rightarrow> nodes_by_qualified_name nodes name language
      else [])"

definition resolve_qualified ::
    "resolution_request \<Rightarrow> graph_node option \<Rightarrow> string option \<Rightarrow> string \<Rightarrow> graph_node list
      \<Rightarrow> resolution_outcome" where
  "resolve_qualified request source language target nodes =
     (let target = trim target; (expanded, used_alias) = expand_aliases target (request_aliases request);
          aliased = (if used_alias then qualified_candidates nodes language expanded else []);
          siblings = sibling_candidates source language target nodes;
          named = nodes_by_qualified_name nodes target language
      in if target = [] then Unresolved target
         else if aliased \<noteq> [] then finish_resolution aliased ByAlias target
         else if siblings \<noteq> [] then finish_resolution siblings ByEnclosingContainer target
         else if named \<noteq> [] then finish_resolution named ByQualifiedName target
         else resolve_by_name request source language target nodes)"

definition file_candidates :: "graph_node list \<Rightarrow> string option \<Rightarrow> string list \<Rightarrow> graph_node list" where
  "file_candidates nodes language targets =
     concat (map (\<lambda>t. case keyed_node nodes (file_stable_key t) language of
        None \<Rightarrow> [] | Some n \<Rightarrow> [n]) targets)"

definition module_candidates ::
    "string option \<Rightarrow> string \<Rightarrow> string list \<Rightarrow> graph_node list \<Rightarrow> graph_node list" where
  "module_candidates language target expanded nodes =
     (let candidates = filter module_like (qualified_candidates nodes language expanded)
            @ file_candidates nodes language expanded
      in if candidates = [] \<and> is_simple_name target
         then filter module_like (nodes_by_name nodes target language) else candidates)"

definition external_candidates :: "resolution_request \<Rightarrow> string list \<Rightarrow> string list" where
  "external_candidates request expanded =
     dedup_by (\<lambda>t. t) (sort (filter
       (\<lambda>t. list_ex (module_belongs_to t) (request_external_module_roots request)) expanded))"

definition resolve_module ::
    "resolution_request \<Rightarrow> string option \<Rightarrow> string \<Rightarrow> graph_node list \<Rightarrow> resolution_outcome" where
  "resolve_module request language target nodes =
     (let target = trim target; (expanded, used_alias) = expand_aliases target (request_aliases request);
          candidates = module_candidates language target expanded nodes;
          external = external_candidates request expanded
      in if target = [] then Unresolved target
         else if used_alias \<and> candidates \<noteq> [] \<and> external \<noteq> [] \<or> 1 < length external
         then Ambiguous (deduplicate candidates) external ByAlias
         else if candidates \<noteq> []
         then finish_resolution candidates (if used_alias then ByAlias else ByModule) target
         else if external \<noteq> [] then External (last external)
         else Unresolved target)"

definition resolve_against_nodes ::
    "resolution_request \<Rightarrow> graph_node list \<Rightarrow> cortex_error + resolution_outcome" where
  "resolve_against_nodes request nodes =
     and_then (case request_source_node_id request of
        None \<Rightarrow> Inr None
      | Some i \<Rightarrow> and_then (ok_or (find (\<lambda>n. node_id n = i) nodes)
            (NotFoundErr (''source graph node '' @ i @ '' in workspace '' @ request_workspace_id request)))
            (\<lambda>n. Inr (Some n))) (\<lambda>source.
     let language = (case request_language request of Some l \<Rightarrow> Some l
                     | None \<Rightarrow> Option.bind source node_language)
     in Inr (case request_target request of
          LocalStableKey target \<Rightarrow> resolve_local_key request source language target nodes
        | QualifiedSymbol target \<Rightarrow> resolve_qualified request source language target nodes
        | ModulePath target \<Rightarrow> resolve_module request language target nodes
        | ExternalTarget target \<Rightarrow> nonempty_outcome target True
        | UnresolvedTarget target \<Rightarrow> nonempty_outcome target False))"

definition resolve :: "json_parser \<Rightarrow> resolution_request \<Rightarrow> graph_db \<Rightarrow> cortex_error + resolution_outcome" where
  "resolve parse request db =
     and_then (graph_nodes parse (request_workspace_id request) db) (resolve_against_nodes request)"

section \<open>Candidates are nodes of the workspace\<close>

lemma deduplicate_sound:
  shows "set (deduplicate ns) \<subseteq> set ns" and "distinct (map node_id (deduplicate ns))"
    and "sorted (map (\<lambda>n. (node_stable_key n, node_id n)) (deduplicate ns))"
    and "deduplicate ns = [] \<longleftrightarrow> ns = []"
proof -
  let ?s = "sort_key (\<lambda>n. (node_stable_key n, node_id n)) ns"
  show "set (deduplicate ns) \<subseteq> set ns"
    using set_retain_first_subset [of node_id "[]" ?s] by (simp add: deduplicate_def)
  show "distinct (map node_id (deduplicate ns))"
    by (simp add: deduplicate_def distinct_retain_first)
  have "sorted_wrt (\<lambda>a b. (node_stable_key a, node_id a) \<le> (node_stable_key b, node_id b)) ?s"
    using sorted_sort_key [of "\<lambda>n. (node_stable_key n, node_id n)" ns] by (simp only: sorted_map)
  then show "sorted (map (\<lambda>n. (node_stable_key n, node_id n)) (deduplicate ns))"
    by (simp only: deduplicate_def sorted_map sorted_retain_first)
  have "node_id ` set (deduplicate ns) = node_id ` set ns"
    by (simp add: deduplicate_def keys_retain_first)
  then show "deduplicate ns = [] \<longleftrightarrow> ns = []" by (metis image_is_empty set_empty)
qed

lemma keyed_node_Some:
  "keyed_node nodes key language = Some n \<Longrightarrow> n \<in> set nodes \<and> language_matches n language
     \<and> node_stable_key n = key"
  by (auto simp: keyed_node_def split: option.splits if_splits dest: find_SomeD)

text \<open>Nodes that a workspace's table holds: its two unique keys.\<close>

definition keyed_nodes :: "graph_node list \<Rightarrow> bool" where
  "keyed_nodes ns \<longleftrightarrow> distinct (map node_id ns) \<and> distinct (map node_stable_key ns)"

text \<open>The language of a resolution: the request's, or else its source node's.\<close>

definition request_source :: "resolution_request \<Rightarrow> graph_node list \<Rightarrow> cortex_error + graph_node option" where
  "request_source request nodes =
     (case request_source_node_id request of
        None \<Rightarrow> Inr None
      | Some i \<Rightarrow> and_then (ok_or (find (\<lambda>n. node_id n = i) nodes)
            (NotFoundErr (''source graph node '' @ i @ '' in workspace '' @ request_workspace_id request)))
            (\<lambda>n. Inr (Some n)))"

definition resolution_language :: "resolution_request \<Rightarrow> graph_node option \<Rightarrow> string option" where
  "resolution_language request source =
     (case request_language request of Some l \<Rightarrow> Some l | None \<Rightarrow> Option.bind source node_language)"

definition target_text :: "relationship_target \<Rightarrow> string" where
  "target_text t = (case t of LocalStableKey s \<Rightarrow> s | QualifiedSymbol s \<Rightarrow> s | ModulePath s \<Rightarrow> s
     | ExternalTarget s \<Rightarrow> s | UnresolvedTarget s \<Rightarrow> s)"

lemma resolve_parts:
  assumes "resolve_against_nodes request nodes = Inr out"
  obtains source where "request_source request nodes = Inr source"
    and "out = (case request_target request of
          LocalStableKey t \<Rightarrow> resolve_local_key request source (resolution_language request source) t nodes
        | QualifiedSymbol t \<Rightarrow> resolve_qualified request source (resolution_language request source) t nodes
        | ModulePath t \<Rightarrow> resolve_module request (resolution_language request source) t nodes
        | ExternalTarget t \<Rightarrow> nonempty_outcome t True
        | UnresolvedTarget t \<Rightarrow> nonempty_outcome t False)"
  using assms unfolding resolve_against_nodes_def request_source_def [symmetric]
    resolution_language_def [symmetric] by (auto simp: and_then_eq_Inr Let_def)

section \<open>What a target means\<close>

text \<open>The reference: which nodes a target can mean, and on what basis, as sets in the order of
  preference.  A rewriting of a name replaces an alias at its front, the alias being the whole
  name or ending before a separator.\<close>

definition separated :: "string \<Rightarrow> bool" where
  "separated rest \<longleftrightarrow> (\<exists>sep \<in> {''::'', ''.'', ''/''}. prefix sep rest)"

definition unqualified :: "string \<Rightarrow> bool" where
  "unqualified t \<longleftrightarrow> (\<forall>sep \<in> {''::'', ''.'', ''/'', [CHR 0x5C]}. \<not> sublist sep t)"

definition rewritings :: "resolution_alias list \<Rightarrow> string \<Rightarrow> string set" where
  "rewritings aliases t =
     {trim (alias_target a) @ rest | a rest. a \<in> set aliases \<and> trim (alias_name a) \<noteq> []
        \<and> trim (alias_target a) \<noteq> [] \<and> t = trim (alias_name a) @ rest
        \<and> (rest = [] \<or> separated rest)}"

definition readings :: "resolution_alias list \<Rightarrow> string \<Rightarrow> string set" where
  "readings aliases t = (if rewritings aliases t = {} then {t} else rewritings aliases t)"

definition external_readings :: "resolution_request \<Rightarrow> string \<Rightarrow> string set" where
  "external_readings request t =
     {r \<in> readings (request_aliases request) t.
        \<exists>base \<in> set (request_external_module_roots request).
          \<exists>rest. r = trim base @ rest \<and> (rest = [] \<or> separated rest)}"

definition in_language :: "string option \<Rightarrow> graph_node list \<Rightarrow> graph_node set" where
  "in_language language nodes =
     {n \<in> set nodes. language = None \<or> node_language n = language}"

definition in_source_document :: "resolution_request \<Rightarrow> graph_node option \<Rightarrow> graph_node \<Rightarrow> bool" where
  "in_source_document request source n \<longleftrightarrow>
     (\<exists>d. node_document_id n = Some d
        \<and> (request_source_document_id request = Some d
           \<or> request_source_document_id request = None
             \<and> (\<exists>s. source = Some s \<and> node_document_id s = Some d)))"

type_synonym answers = "(resolution_basis \<times> graph_node set) list"

definition key_answers ::
    "resolution_request \<Rightarrow> graph_node option \<Rightarrow> string \<Rightarrow> graph_node set \<Rightarrow> answers" where
  "key_answers request source t known =
     [(ByLocalStableKey, {n \<in> known. node_stable_key n = t}),
      (ByLocalStableKey, {n \<in> known. \<exists>s. source = Some s
         \<and> node_stable_key n = symbol_node_key (node_analyzer_id s) t}),
      (ByLocalStableKey, {n \<in> known. has_logical_key t n \<and> in_source_document request source n}),
      (ByLocalStableKey, {n \<in> known. has_logical_key t n})]"

definition symbol_answers ::
    "resolution_request \<Rightarrow> graph_node option \<Rightarrow> string \<Rightarrow> graph_node set \<Rightarrow> answers" where
  "symbol_answers request source t known =
     [(ByAlias, {n \<in> known. \<exists>r \<in> rewritings (request_aliases request) t. node_qualified_name n = Some r}),
      (ByEnclosingContainer, {n \<in> known. unqualified t \<and> (\<exists>s q c. source = Some s
         \<and> node_qualified_name s = Some q \<and> sibling_qualified_name q t = Some c
         \<and> node_qualified_name n = Some c)}),
      (ByQualifiedName, {n \<in> known. node_qualified_name n = Some t}),
      (BySourceDocument, {n \<in> known. unqualified t \<and> node_name n = t
         \<and> in_source_document request source n}),
      (ByWorkspaceName, {n \<in> known. unqualified t \<and> node_name n = t})]"

definition module_node :: "graph_node \<Rightarrow> bool" where
  "module_node n \<longleftrightarrow> node_type_of n = ModuleNode \<or> node_type_of n = NamespaceNode
     \<or> node_type_of n = PackageNode \<or> node_type_of n = FileNode"

definition module_answers :: "resolution_request \<Rightarrow> string \<Rightarrow> graph_node set \<Rightarrow> answers" where
  "module_answers request t known =
     (let basis = (if rewritings (request_aliases request) t = {} then ByModule else ByAlias)
      in [(basis, {n \<in> known. \<exists>r \<in> readings (request_aliases request) t.
             module_node n \<and> node_qualified_name n = Some r \<or> node_stable_key n = file_stable_key r}),
          (basis, {n \<in> known. unqualified t \<and> module_node n \<and> node_name n = t})])"

text \<open>The first basis with an answer decides.  One node is the answer; several are listed, each
  once and in key order, as an ambiguity.\<close>

fun chosen :: "answers \<Rightarrow> (resolution_basis \<times> graph_node set) option" where
  "chosen [] = None"
| "chosen ((basis, ns) # rest) = (if ns = {} then chosen rest else Some (basis, ns))"

definition lists_nodes :: "graph_node list \<Rightarrow> graph_node set \<Rightarrow> bool" where
  "lists_nodes xs ns \<longleftrightarrow> set xs = ns \<and> distinct (map node_id xs)
     \<and> sorted (map (\<lambda>n. (node_stable_key n, node_id n)) xs)"

definition decided :: "resolution_basis \<Rightarrow> graph_node set \<Rightarrow> resolution_outcome \<Rightarrow> bool" where
  "decided basis ns out \<longleftrightarrow>
     (\<exists>n. ns = {n} \<and> out = Resolved n basis)
     \<or> (\<exists>xs. lists_nodes xs ns \<and> 2 \<le> length xs \<and> out = Ambiguous xs [] basis)"

definition answered :: "answers \<Rightarrow> string \<Rightarrow> resolution_outcome \<Rightarrow> bool" where
  "answered steps t out \<longleftrightarrow>
     (case chosen steps of None \<Rightarrow> out = Unresolved t | Some (basis, ns) \<Rightarrow> decided basis ns out)"

text \<open>A module path can also mean a module outside the workspace.  Two such readings, or one beside
  a node found through an alias, are an ambiguity.\<close>

definition module_answered :: "resolution_request \<Rightarrow> string \<Rightarrow> graph_node set \<Rightarrow> resolution_outcome \<Rightarrow> bool" where
  "module_answered request t known out \<longleftrightarrow>
     (let steps = module_answers request t known; external = external_readings request t;
          ns = (case chosen steps of None \<Rightarrow> {} | Some (_, ns) \<Rightarrow> ns)
      in if 1 < card external
           \<or> external \<noteq> {} \<and> ns \<noteq> {} \<and> rewritings (request_aliases request) t \<noteq> {}
         then \<exists>xs ts. lists_nodes xs ns \<and> set ts = external \<and> sorted ts \<and> distinct ts
                \<and> 2 \<le> length xs + length ts \<and> out = Ambiguous xs ts ByAlias
         else if ns = {} \<and> external \<noteq> {} then \<exists>x. external = {x} \<and> out = External x
         else answered steps t out)"

definition target_answered ::
    "resolution_request \<Rightarrow> graph_node option \<Rightarrow> graph_node set \<Rightarrow> resolution_outcome \<Rightarrow> bool" where
  "target_answered request source known out \<longleftrightarrow>
     (let t = trim (target_text (request_target request))
      in if t = [] then out = Unresolved []
         else case request_target request of
             LocalStableKey _ \<Rightarrow> answered (key_answers request source t known) t out
           | QualifiedSymbol _ \<Rightarrow> answered (symbol_answers request source t known) t out
           | ModulePath _ \<Rightarrow> module_answered request t known out
           | ExternalTarget _ \<Rightarrow> out = External t
           | UnresolvedTarget _ \<Rightarrow> out = Unresolved t)"

section \<open>The code finds it\<close>

lemma language_matches_iff: "language_matches n l \<longleftrightarrow> l = None \<or> node_language n = l"
  by (auto simp: language_matches_def split: option.split)

lemma contains_str_sublist: "contains_str p s \<longleftrightarrow> sublist p s"
  by (induction s) (auto simp: sublist_Cons_right)

lemma simple_unqualified: "is_simple_name t \<longleftrightarrow> unqualified t"
proof -
  have "sublist [c] t \<longleftrightarrow> c \<in> set t" for c :: char
    by (induction t) (auto simp: sublist_Cons_right)
  then show ?thesis by (auto simp: is_simple_name_def unqualified_def contains_str_sublist)
qed

lemma separator_iff: "starts_with_separator v \<longleftrightarrow> separated v"
  by (simp add: starts_with_separator_def separated_def starts_with_def)

lemma module_like_iff: "module_like n \<longleftrightarrow> module_node n"
  by (auto simp: module_like_def module_node_def)

lemma in_source_document_iff:
  "in_source_document request source n \<longleftrightarrow>
     (\<exists>d. source_document request source = Some d \<and> node_document_id n = Some d)"
  by (auto simp: in_source_document_def source_document_def split: option.splits)

lemma local_nodes_iff:
  "n \<in> set (local_nodes (source_document request source) ns) \<longleftrightarrow>
     n \<in> set ns \<and> in_source_document request source n"
  by (cases "source_document request source")
    (simp_all add: local_nodes_def in_source_document_iff)

lemma belongs_iff:
  "module_belongs_to t base \<longleftrightarrow> (\<exists>rest. t = trim base @ rest \<and> (rest = [] \<or> separated rest))"
  by (auto simp: module_belongs_to_def Let_def strip_prefix_str_def separator_iff prefix_def)

lemma expand_alias_iff:
  "r \<in> set (expand_alias t a) \<longleftrightarrow>
     (\<exists>rest. r = trim (alias_target a) @ rest \<and> trim (alias_name a) \<noteq> []
        \<and> trim (alias_target a) \<noteq> [] \<and> t = trim (alias_name a) @ rest
        \<and> (rest = [] \<or> separated rest))"
  by (auto simp: expand_alias_def Let_def strip_prefix_str_def separator_iff prefix_def
      separated_def)

lemma rewritings_iff: "set (concat (map (expand_alias t) aliases)) = rewritings aliases t"
  unfolding set_concat set_map UN_simps set_eq_iff UN_iff expand_alias_iff rewritings_def mem_Collect_eq
  by blast

lemma set_dedup_id [simp]: "set (dedup_by (\<lambda>t. t) xs) = set xs"
  using keys_dedup_by [of "\<lambda>t. t" xs] by simp

lemma dedup_sorted:
  "sorted (xs :: 'a :: linorder list) \<Longrightarrow> sorted (dedup_by (\<lambda>t. t) xs) \<and> distinct (dedup_by (\<lambda>t. t) xs)"
  by (induction "\<lambda>t :: 'a. t" xs rule: dedup_by.induct) (auto simp: order.antisym)

lemma expand_aliases_readings:
  assumes "expand_aliases t aliases = (expanded, used)"
  shows "set expanded = readings aliases t" and "used \<longleftrightarrow> rewritings aliases t \<noteq> {}"
proof -
  let ?E = "concat (map (expand_alias t) aliases)"
  have empty: "?E = [] \<longleftrightarrow> rewritings aliases t = {}"
    unfolding rewritings_iff [symmetric] by (rule set_empty [symmetric])
  have "expanded = dedup_by (\<lambda>t. t) (sort (if ?E = [] then [t] else ?E))"
    and used: "used \<longleftrightarrow> ?E \<noteq> []"
    using assms by (auto simp only: expand_aliases_def Let_def prod.inject)
  then have "set expanded = set (if ?E = [] then [t] else ?E)"
    by (simp only: set_dedup_id set_sort)
  then show "set expanded = readings aliases t"
    using empty rewritings_iff [of t aliases]
    by (cases "?E = []") (simp_all only: readings_def if_True if_False list.set simp_thms)
  show "used \<longleftrightarrow> rewritings aliases t \<noteq> {}"
    using used empty by blast
qed

lemma external_listed:
  shows "set expanded = readings (request_aliases request) t
    \<Longrightarrow> set (external_candidates request expanded) = external_readings request t"
    and "sorted (external_candidates request expanded)"
    and "distinct (external_candidates request expanded)"
proof -
  show "sorted (external_candidates request expanded)"
    unfolding external_candidates_def by (rule dedup_sorted [THEN conjunct1]) simp
  show "distinct (external_candidates request expanded)"
    unfolding external_candidates_def by (rule dedup_sorted [THEN conjunct2]) simp
  show "set expanded = readings (request_aliases request) t
    \<Longrightarrow> set (external_candidates request expanded) = external_readings request t"
    by (simp add: external_candidates_def external_readings_def list_ex_iff belongs_iff)
qed

text \<open>Nodes of the table are told apart by their ids, so nothing is lost in listing them.\<close>

lemma deduplicate_lists:
  assumes "keyed_nodes nodes" and "set ns \<subseteq> set nodes"
  shows "lists_nodes (deduplicate ns) (set ns)"
proof -
  have "node_id ` set (deduplicate ns) = node_id ` set ns"
    by (simp add: deduplicate_def keys_retain_first)
  moreover have "inj_on node_id (set ns)"
    using assms by (auto simp: keyed_nodes_def distinct_map intro: inj_on_subset)
  ultimately have "set (deduplicate ns) = set ns"
    using deduplicate_sound(1) [of ns] by (meson inj_on_image_eq_iff subset_refl)
  then show ?thesis
    using deduplicate_sound(2,3) [of ns] by (simp add: lists_nodes_def)
qed

lemma finish_decided:
  assumes "keyed_nodes nodes" and "set ns \<subseteq> set nodes" and "ns \<noteq> []"
  shows "decided basis (set ns) (finish_resolution ns basis t)"
proof -
  note lists = deduplicate_lists [OF assms(1,2)]
  have "deduplicate ns \<noteq> []" using assms(3) deduplicate_sound(4) by blast
  then obtain x xs where d: "deduplicate ns = x # xs" by (cases "deduplicate ns") auto
  show ?thesis
  proof (cases xs)
    case Nil
    with lists d have "set ns = {x}" by (simp add: lists_nodes_def)
    with d Nil show ?thesis by (simp add: decided_def finish_resolution_def)
  next
    case (Cons y ys)
    with d have "2 \<le> length (deduplicate ns)"
      "finish_resolution ns basis t = Ambiguous (deduplicate ns) [] basis"
      by (simp_all add: finish_resolution_def)
    with lists show ?thesis unfolding decided_def by blast
  qed
qed

lemma keyed_node_iff:
  assumes "keyed_nodes nodes"
  shows "keyed_node nodes key language = Some n \<longleftrightarrow>
    n \<in> in_language language nodes \<and> node_stable_key n = key"
proof -
  have inj: "inj_on node_stable_key (set nodes)"
    using assms by (simp add: keyed_nodes_def distinct_map)
  have find: "find (\<lambda>n. node_stable_key n = key) nodes = Some n" if "n \<in> set nodes" "node_stable_key n = key"
  proof (cases "find (\<lambda>n. node_stable_key n = key) nodes")
    case None
    with that show ?thesis by (auto simp: find_None_iff)
  next
    case (Some m)
    then have "m \<in> set nodes" "node_stable_key m = key" by (auto dest: find_SomeD)
    then have "m = n" using that inj_onD [OF inj, of m n] by simp
    with Some show ?thesis by simp
  qed
  show ?thesis
  proof
    assume "keyed_node nodes key language = Some n"
    from keyed_node_Some [OF this] show "n \<in> in_language language nodes \<and> node_stable_key n = key"
      by (auto simp: in_language_def language_matches_iff)
  next
    assume "n \<in> in_language language nodes \<and> node_stable_key n = key"
    then show "keyed_node nodes key language = Some n"
      using find by (simp add: in_language_def keyed_node_def language_matches_iff)
  qed
qed

lemma keyed_node_set:
  assumes "keyed_nodes nodes"
  shows "{n \<in> in_language language nodes. node_stable_key n = key}
    = (case keyed_node nodes key language of None \<Rightarrow> {} | Some n \<Rightarrow> {n})"
proof (cases "keyed_node nodes key language")
  case None
  with keyed_node_iff [OF assms, of key language] show ?thesis by auto
next
  case (Some m)
  with keyed_node_iff [OF assms, of key language] have "x \<in> in_language language nodes
      \<and> node_stable_key x = key \<longleftrightarrow> x = m" for x
    by (metis option.inject)
  with Some show ?thesis by auto
qed

lemma selected_set:
  "set (nodes_by_qualified_name nodes name language)
     = {n \<in> in_language language nodes. node_qualified_name n = Some name}"
  "set (nodes_by_name nodes name language) = {n \<in> in_language language nodes. node_name n = name}"
  by (auto simp: nodes_by_qualified_name_def nodes_by_name_def in_language_def language_matches_iff)

lemma qualified_set:
  assumes "keyed_nodes nodes"
  shows "set (qualified_candidates nodes language names)
     = {n \<in> in_language language nodes. \<exists>q \<in> set names. node_qualified_name n = Some q}"
proof -
  let ?f = "filter (\<lambda>n. (case node_qualified_name n of None \<Rightarrow> False | Some q \<Rightarrow> q \<in> set names)
      \<and> language_matches n language) nodes"
  have "set (deduplicate ?f) = set ?f"
    using deduplicate_lists [OF assms, of ?f] by (auto simp: lists_nodes_def)
  then show ?thesis
    by (auto simp: qualified_candidates_def in_language_def language_matches_iff split: option.splits)
qed

lemma in_language_nodes: "in_language language nodes \<subseteq> set nodes"
  by (auto simp: in_language_def)

text \<open>The three searches give the answer of the reference.\<close>

lemma finish_answered:
  assumes "keyed_nodes nodes" and "set ns \<subseteq> set nodes" and "chosen steps = Some (basis, set ns)"
    and "ns \<noteq> []"
  shows "answered steps t (finish_resolution ns basis t)"
  using finish_decided [OF assms(1,2,4)] assms(3) by (simp add: answered_def)

lemma local_nodes_Nil [simp]: "local_nodes d [] = []"
  by (simp add: local_nodes_def split: option.split)

lemma local_key_answered:
  assumes "keyed_nodes nodes" and "trim target \<noteq> []"
  shows "answered (key_answers request source (trim target) (in_language language nodes)) (trim target)
    (resolve_local_key request source language target nodes)"
proof -
  let ?t = "trim target" and ?L = "in_language language nodes"
  let ?cs = "filter (\<lambda>n. language_matches n language \<and> has_logical_key ?t n) nodes"
  let ?local = "local_nodes (source_document request source) ?cs"
  let ?steps = "key_answers request source ?t ?L"
  define second where "second = (case source of None \<Rightarrow> None
      | Some s \<Rightarrow> keyed_node nodes (symbol_node_key (node_analyzer_id s) ?t) language)"
  have sets: "{n \<in> ?L. node_stable_key n = ?t} = set_option (keyed_node nodes ?t language)"
    "{n \<in> ?L. \<exists>s. source = Some s \<and> node_stable_key n = symbol_node_key (node_analyzer_id s) ?t}
      = set_option second"
    using keyed_node_set [OF assms(1), of language]
    by (auto simp: second_def split: option.splits)
  have cs: "{n \<in> ?L. has_logical_key ?t n} = set ?cs"
    by (auto simp: in_language_def language_matches_iff)
  then have local: "{n \<in> ?L. has_logical_key ?t n \<and> in_source_document request source n} = set ?local"
    using local_nodes_iff [of _ request source ?cs] by blast
  have steps: "?steps = [(ByLocalStableKey, set_option (keyed_node nodes ?t language)),
      (ByLocalStableKey, set_option second), (ByLocalStableKey, set ?local), (ByLocalStableKey, set ?cs)]"
    unfolding key_answers_def sets cs local ..
  have sub: "set ?cs \<subseteq> set nodes" "set ?local \<subseteq> set nodes"
    using cs local in_language_nodes [of language nodes] by auto
  consider (first) n where "keyed_node nodes ?t language = Some n"
    | (second) n where "keyed_node nodes ?t language = None" "second = Some n"
    | (logical) "keyed_node nodes ?t language = None" "second = None" by fastforce
  then show ?thesis
  proof cases
    case first
    then show ?thesis
      using assms(2) by (simp add: resolve_local_key_def answered_def steps decided_def)
  next
    case second
    then show ?thesis
      using assms(2)
      by (simp add: resolve_local_key_def answered_def steps decided_def flip: second_def)
  next
    case logical
    then have out: "resolve_local_key request source language target nodes
        = finish_resolution (if ?local \<noteq> [] then ?local else ?cs) ByLocalStableKey ?t"
      using assms(2) by (simp add: resolve_local_key_def Let_def flip: second_def)
    show ?thesis
    proof (cases "?cs = []")
      case True
      then have "?local = []" by simp
      with True logical out show ?thesis
        by (simp add: answered_def steps finish_resolution_def deduplicate_def)
    next
      case False
      with logical have "chosen ?steps = Some (ByLocalStableKey, set (if ?local \<noteq> [] then ?local else ?cs))"
        by (auto simp: steps filter_empty_conv)
      from finish_answered [OF assms(1) _ this, of ?t] False sub show ?thesis
        unfolding out by (cases "?local = []") simp_all
    qed
  qed
qed

lemma sibling_set:
  "set (sibling_candidates source language t nodes) = {n \<in> in_language language nodes.
     unqualified t \<and> (\<exists>s q c. source = Some s \<and> node_qualified_name s = Some q
       \<and> sibling_qualified_name q t = Some c \<and> node_qualified_name n = Some c)}"
proof (cases "Option.bind (Option.bind source node_qualified_name) (\<lambda>q. sibling_qualified_name q t)")
  case None
  then have "\<nexists>s q c. source = Some s \<and> node_qualified_name s = Some q \<and> sibling_qualified_name q t = Some c"
    by (auto simp: bind_eq_None_conv)
  then show ?thesis using None by (simp only: sibling_candidates_def option.case list.set if_cancel) blast
next
  case (Some c)
  then have "(\<exists>s q c'. source = Some s \<and> node_qualified_name s = Some q
      \<and> sibling_qualified_name q t = Some c' \<and> x = Some c') \<longleftrightarrow> x = Some c" for x
    by (auto simp: bind_eq_Some_conv)
  then show ?thesis
    using Some by (simp only: sibling_candidates_def simple_unqualified option.case) (auto simp: selected_set)
qed

lemma qualified_answered:
  assumes "keyed_nodes nodes" and "trim target \<noteq> []"
  shows "answered (symbol_answers request source (trim target) (in_language language nodes))
    (trim target) (resolve_qualified request source language target nodes)"
proof -
  let ?t = "trim target" and ?L = "in_language language nodes"
  let ?steps = "symbol_answers request source ?t ?L"
  obtain expanded used where e: "expand_aliases ?t (request_aliases request) = (expanded, used)"
    by (cases "expand_aliases ?t (request_aliases request)")
  note r = expand_aliases_readings [OF e]
  define aliased where "aliased = (if used then qualified_candidates nodes language expanded else [])"
  define siblings where "siblings = sibling_candidates source language ?t nodes"
  define exact where "exact = nodes_by_qualified_name nodes ?t language"
  define named where "named = (if is_simple_name ?t then nodes_by_name nodes ?t language else [])"
  define local where "local = local_nodes (source_document request source) named"
  have alias_set: "{n \<in> ?L. \<exists>r \<in> rewritings (request_aliases request) ?t.
      node_qualified_name n = Some r} = set aliased"
    using r by (auto simp: aliased_def qualified_set [OF assms(1)] readings_def)
  have name_sets: "{n \<in> ?L. node_qualified_name n = Some ?t} = set exact"
    "{n \<in> ?L. unqualified ?t \<and> node_name n = ?t} = set named"
    by (auto simp: exact_def named_def selected_set simple_unqualified)
  note sets = alias_set sibling_set [of source language ?t nodes, folded siblings_def, symmetric] name_sets
  have local_set: "{n \<in> ?L. unqualified ?t \<and> node_name n = ?t \<and> in_source_document request source n}
      = set local"
    using name_sets(2) local_nodes_iff [of _ request source named] by (auto simp: local_def)
  have steps: "?steps = [(ByAlias, set aliased), (ByEnclosingContainer, set siblings),
      (ByQualifiedName, set exact), (BySourceDocument, set local), (ByWorkspaceName, set named)]"
    by (simp only: symbol_answers_def sets local_set)
  have "set aliased \<subseteq> ?L" "set siblings \<subseteq> ?L" "set exact \<subseteq> ?L" "set local \<subseteq> ?L" "set named \<subseteq> ?L"
    using sets local_set by blast+
  note sub = this [THEN subset_trans, OF in_language_nodes]
  have out: "resolve_qualified request source language target nodes =
      (if aliased \<noteq> [] then finish_resolution aliased ByAlias ?t
       else if siblings \<noteq> [] then finish_resolution siblings ByEnclosingContainer ?t
       else if exact \<noteq> [] then finish_resolution exact ByQualifiedName ?t
       else if local \<noteq> [] then finish_resolution local BySourceDocument ?t
       else if named \<noteq> [] then finish_resolution named ByWorkspaceName ?t else Unresolved ?t)"
    using assms(2) by (simp add: resolve_qualified_def e resolve_by_name_def Let_def aliased_def
        siblings_def exact_def named_def local_def local_nodes_def split: option.split)
  note finish = finish_answered [OF assms(1), where steps = ?steps and t = ?t]
  show ?thesis
    unfolding out using finish [OF sub(1)] finish [OF sub(2)] finish [OF sub(3)]
      finish [OF sub(4)] finish [OF sub(5)]
    by (auto simp: steps answered_def [of _ _ "Unresolved ?t"])
qed

lemma file_set:
  assumes "keyed_nodes nodes"
  shows "set (file_candidates nodes language targets)
    = {n \<in> in_language language nodes. \<exists>r \<in> set targets. node_stable_key n = file_stable_key r}"
proof -
  have "set (case k of None \<Rightarrow> [] | Some n \<Rightarrow> [n]) = set_option k" for k :: "graph_node option"
    by (cases k) simp_all
  then have "set (file_candidates nodes language targets)
      = (\<Union>r \<in> set targets. set_option (keyed_node nodes (file_stable_key r) language))"
    by (simp add: file_candidates_def)
  then show ?thesis by (auto simp: keyed_node_iff [OF assms])
qed

lemma module_resolved:
  assumes "keyed_nodes nodes" and "trim target \<noteq> []"
  shows "module_answered request (trim target) (in_language language nodes)
    (resolve_module request language target nodes)"
proof -
  let ?t = "trim target" and ?L = "in_language language nodes"
  let ?steps = "module_answers request ?t ?L"
  obtain expanded used where e: "expand_aliases ?t (request_aliases request) = (expanded, used)"
    by (cases "expand_aliases ?t (request_aliases request)")
  note r = expand_aliases_readings [OF e]
  let ?basis = "if used then ByAlias else ByModule"
  define primary where "primary = filter module_like (qualified_candidates nodes language expanded)
      @ file_candidates nodes language expanded"
  define named where "named = (if is_simple_name ?t
      then filter module_like (nodes_by_name nodes ?t language) else [])"
  define cs where "cs = module_candidates language ?t expanded nodes"
  define ext where "ext = external_candidates request expanded"
  note ext_set = external_listed(1) [OF r(1)]
  have sets: "{n \<in> ?L. \<exists>r \<in> readings (request_aliases request) ?t.
        module_node n \<and> node_qualified_name n = Some r \<or> node_stable_key n = file_stable_key r} = set primary"
    "{n \<in> ?L. unqualified ?t \<and> module_node n \<and> node_name n = ?t} = set named"
    using r(1) by (auto simp: primary_def named_def qualified_set [OF assms(1)] file_set [OF assms(1)]
        module_like_iff selected_set simple_unqualified)
  have cs: "cs = (if primary = [] then named else primary)"
    by (simp add: cs_def module_candidates_def Let_def primary_def named_def)
  have steps: "?steps = [(?basis, set primary), (?basis, set named)]"
    unfolding module_answers_def sets Let_def using r(2) by simp
  then have chosen: "chosen ?steps = (if cs = [] then None else Some (?basis, set cs))"
    by (simp add: cs)
  have sub: "set cs \<subseteq> set nodes"
    using sets in_language_nodes [of language nodes] by (auto simp: cs)
  have out: "resolve_module request language target nodes =
      (if used \<and> cs \<noteq> [] \<and> ext \<noteq> [] \<or> 1 < length ext then Ambiguous (deduplicate cs) ext ByAlias
       else if cs \<noteq> [] then finish_resolution cs ?basis ?t
       else if ext \<noteq> [] then External (last ext) else Unresolved ?t)"
    using assms(2) by (simp add: resolve_module_def e Let_def cs_def ext_def)
  have ext: "set ext = external_readings request ?t" "sorted ext" "distinct ext"
    using ext_set external_listed(2,3) by (simp_all add: ext_def)
  have card: "card (external_readings request ?t) = length ext"
    using ext(1,3) distinct_card by metis
  have ns: "(case chosen ?steps of None \<Rightarrow> {} | Some (_, ns) \<Rightarrow> ns) = set cs"
    by (simp add: chosen)
  show ?thesis
  proof (cases "used \<and> cs \<noteq> [] \<and> ext \<noteq> [] \<or> 1 < length ext")
    case True
    have lists: "lists_nodes (deduplicate cs) (set cs)" by (rule deduplicate_lists [OF assms(1) sub])
    have "2 \<le> length (deduplicate cs) + length ext"
    proof (cases "1 < length ext")
      case False
      with True have "deduplicate cs \<noteq> []" "ext \<noteq> []" using deduplicate_sound(4) by auto
      then show ?thesis by (cases "deduplicate cs"; cases ext) simp_all
    qed simp
    with True lists ext r(2) card show ?thesis
      by (auto simp: module_answered_def Let_def ns out)
  next
    case False
    then have few: "\<not> (1 < card (external_readings request ?t) \<or> external_readings request ?t \<noteq> {}
        \<and> set cs \<noteq> {} \<and> rewritings (request_aliases request) ?t \<noteq> {})"
      using r(2) unfolding card unfolding ext(1) [symmetric] by auto
    show ?thesis
    proof (cases "cs = []")
      case True
      show ?thesis
      proof (cases ext)
        case Nil
        with True few show ?thesis
          using out by (simp add: module_answered_def Let_def ns answered_def chosen flip: ext(1))
      next
        case (Cons x xs)
        with False have "ext = [x]" by (cases xs) simp_all
        with True few show ?thesis
          using out by (simp add: module_answered_def Let_def ns flip: ext(1))
      qed
    next
      case False
      with out \<open>\<not> (used \<and> cs \<noteq> [] \<and> ext \<noteq> [] \<or> 1 < length ext)\<close>
      have "resolve_module request language target nodes = finish_resolution cs ?basis ?t"
        using False by (simp only: if_False if_True simp_thms)
      moreover have "answered ?steps ?t (finish_resolution cs ?basis ?t)"
        using finish_answered [OF assms(1) sub, of ?steps ?basis ?t] chosen False by simp
      moreover have "\<not> (set cs = {} \<and> external_readings request ?t \<noteq> {})"
        using False by simp
      ultimately show ?thesis
        unfolding module_answered_def Let_def ns by (simp only: few if_False)
    qed
  qed
qed

text \<open>C11. Resolution finds what the target means and invents nothing.  Against nodes with unique
  ids and stable keys, which the table's constraints ensure, the answer to a target is that of
  the first basis with an answer, among the nodes of the workspace in the language asked for: the
  single node that answers to the trimmed target on that basis, or, as an ambiguity, all the nodes
  that do, once each and in key order.  Only a module path read through an alias or an external
  root gives external targets: every such reading, as a lone external answer, or as alternatives of
  an ambiguity beside whatever nodes there are.  With no answer on any basis the result is the
  trimmed target, unresolved.\<close>

theorem resolution_sound:
  assumes "resolve_against_nodes request nodes = Inr out" and "keyed_nodes nodes"
  shows "\<exists>source. request_source request nodes = Inr source
    \<and> target_answered request source (in_language (resolution_language request source) nodes) out"
proof -
  from assms(1) obtain source where source: "request_source request nodes = Inr source"
    and out: "out = (case request_target request of
          LocalStableKey t \<Rightarrow> resolve_local_key request source (resolution_language request source) t nodes
        | QualifiedSymbol t \<Rightarrow> resolve_qualified request source (resolution_language request source) t nodes
        | ModulePath t \<Rightarrow> resolve_module request (resolution_language request source) t nodes
        | ExternalTarget t \<Rightarrow> nonempty_outcome t True
        | UnresolvedTarget t \<Rightarrow> nonempty_outcome t False)"
    by (rule resolve_parts)
  have "target_answered request source (in_language (resolution_language request source) nodes) out"
  proof (cases "request_target request")
    case (LocalStableKey t)
    with out local_key_answered [OF assms(2), of t] show ?thesis
      by (cases "trim t = []") (simp_all add: target_answered_def target_text_def resolve_local_key_def)
  next
    case (QualifiedSymbol t)
    with out qualified_answered [OF assms(2), of t] show ?thesis
      by (cases "trim t = []")
        (simp_all add: target_answered_def target_text_def resolve_qualified_def split: prod.split)
  next
    case (ModulePath t)
    with out module_resolved [OF assms(2), of t] show ?thesis
      by (cases "trim t = []")
        (simp_all add: target_answered_def target_text_def resolve_module_def split: prod.split)
  qed (use out in \<open>simp_all add: target_answered_def target_text_def nonempty_outcome_def\<close>)
  with source show ?thesis by blast
qed

section \<open>The order of the nodes\<close>

lemma keyed_mset: "mset ns = mset ms \<Longrightarrow> keyed_nodes ns \<Longrightarrow> keyed_nodes ms"
  unfolding keyed_nodes_def by (metis mset_eq_imp_distinct_iff mset_map)

lemma find_mset:
  assumes "mset ns = mset ms" and "distinct (map f ns)"
  shows "find (\<lambda>n. f n = k) ns = find (\<lambda>n. f n = k) ms"
proof -
  have set: "set ns = set ms" using assms(1) by (rule mset_eq_setD)
  have inj: "inj_on f (set ns)" using assms(2) by (simp add: distinct_map)
  show ?thesis
  proof (cases "find (\<lambda>n. f n = k) ns")
    case None
    then have "find (\<lambda>n. f n = k) ms = None" using set by (auto simp: find_None_iff)
    then show ?thesis using None by simp
  next
    case (Some n)
    then have n: "n \<in> set ns" "f n = k" by (auto dest: find_SomeD)
    then obtain m where m: "find (\<lambda>n. f n = k) ms = Some m"
      using set by (cases "find (\<lambda>n. f n = k) ms") (auto simp: find_None_iff)
    then have "m \<in> set ms" "f m = k" by (auto dest: find_SomeD)
    then have "m = n" using n set inj by (auto simp: inj_on_def)
    then show ?thesis using Some m by simp
  qed
qed

lemma sort_key_mset:
  assumes "mset ns = mset ms" and "inj_on f (set ns)"
  shows "sort_key f ns = sort_key f ms"
proof -
  have "map f (sort_key f ns) = map f (sort_key f ms)"
  proof -
    have "mset (map f (sort_key f ns)) = mset (map f (sort_key f ms))"
      using assms(1) by simp
    then have "sort (map f (sort_key f ms)) = map f (sort_key f ns)"
      by (intro properties_for_sort) simp_all
    then show ?thesis by (simp add: sorted_sort_id)
  qed
  moreover have "inj_on f (set (sort_key f ns) \<union> set (sort_key f ms))"
    using assms mset_eq_setD [OF assms(1)] by simp
  ultimately show ?thesis by (simp add: inj_on_map_eq_map)
qed

lemma deduplicate_mset:
  assumes "mset ns = mset ms" and "distinct (map node_id ns)"
  shows "deduplicate ns = deduplicate ms"
proof -
  have "inj_on (\<lambda>n. (node_stable_key n, node_id n)) (set ns)"
    using assms(2) by (auto simp: distinct_map inj_on_def)
  then show ?thesis by (simp add: deduplicate_def sort_key_mset [OF assms(1)])
qed


text \<open>Two listings of the same nodes.\<close>

definition alike :: "graph_node list \<Rightarrow> graph_node list \<Rightarrow> bool" where
  "alike ns ms \<longleftrightarrow> mset ns = mset ms \<and> distinct (map node_id ns)"

lemma alike_filter: "alike ns ms \<Longrightarrow> alike (filter P ns) (filter P ms)"
  by (simp add: alike_def distinct_map_filter)

lemma alike_empty: "alike ns ms \<Longrightarrow> ns = [] \<longleftrightarrow> ms = []"
  unfolding alike_def by (metis mset_zero_iff)

lemma alike_deduplicate: "alike ns ms \<Longrightarrow> deduplicate ns = deduplicate ms"
  by (simp add: alike_def deduplicate_mset)

lemma alike_finish: "alike ns ms \<Longrightarrow> finish_resolution ns b t = finish_resolution ms b t"
  by (simp add: finish_resolution_def alike_deduplicate)

lemma alike_local: "alike ns ms \<Longrightarrow> alike (local_nodes d ns) (local_nodes d ms)"
  by (simp add: local_nodes_def alike_filter split: option.split) (simp add: alike_def)

lemmas alike_candidates = alike_filter alike_local

lemma alike_keyed_node:
  "alike ns ms \<Longrightarrow> keyed_nodes ns \<Longrightarrow> keyed_node ns key language = keyed_node ms key language"
  unfolding keyed_node_def keyed_nodes_def alike_def by (simp add: find_mset [of ns ms node_stable_key])

lemma local_key_alike:
  assumes "alike ns ms" and "keyed_nodes ns"
  shows "resolve_local_key request source language target ns
    = resolve_local_key request source language target ms"
proof -
  let ?P = "\<lambda>n. language_matches n language \<and> has_logical_key (trim target) n"
    and ?d = "source_document request source"
  have c: "alike (filter ?P ns) (filter ?P ms)" by (rule alike_filter [OF assms(1)])
  have l: "alike (local_nodes ?d (filter ?P ns)) (local_nodes ?d (filter ?P ms))"
    by (rule alike_local [OF c])
  have "alike (if local_nodes ?d (filter ?P ns) \<noteq> [] then local_nodes ?d (filter ?P ns) else filter ?P ns)
      (if local_nodes ?d (filter ?P ms) \<noteq> [] then local_nodes ?d (filter ?P ms) else filter ?P ms)"
    using c l alike_empty [OF l] by simp
  note both = alike_finish [OF this]
  show ?thesis
    unfolding resolve_local_key_def Let_def alike_keyed_node [OF assms] both ..
qed

lemma by_name_alike:
  assumes "alike ns ms"
  shows "resolve_by_name request source language target ns = resolve_by_name request source language target ms"
proof -
  have n: "alike (nodes_by_name ns target language) (nodes_by_name ms target language)"
    unfolding nodes_by_name_def by (rule alike_filter [OF assms])
  note l = alike_local [OF n, of "source_document request source"]
  show ?thesis
    unfolding resolve_by_name_def Let_def alike_empty [OF n] alike_empty [OF l] alike_finish [OF n]
      alike_finish [OF l] ..
qed

lemma qualified_candidates_alike:
  "alike ns ms \<Longrightarrow> qualified_candidates ns language names = qualified_candidates ms language names"
  unfolding qualified_candidates_def by (intro alike_deduplicate alike_filter)

lemma sibling_alike:
  "alike ns ms \<Longrightarrow> alike (sibling_candidates source language target ns)
    (sibling_candidates source language target ms)"
  by (simp add: sibling_candidates_def nodes_by_qualified_name_def alike_filter split: option.split)
    (simp add: alike_def)

lemma qualified_alike:
  assumes "alike ns ms"
  shows "resolve_qualified request source language target ns = resolve_qualified request source language target ms"
proof -
  note s = sibling_alike [OF assms, of source language "trim target"]
  have q: "alike (nodes_by_qualified_name ns (trim target) language)
      (nodes_by_qualified_name ms (trim target) language)"
    unfolding nodes_by_qualified_name_def by (rule alike_filter [OF assms])
  show ?thesis
    unfolding resolve_qualified_def Let_def qualified_candidates_alike [OF assms]
      alike_empty [OF s] alike_empty [OF q] alike_finish [OF s] alike_finish [OF q]
      by_name_alike [OF assms] ..
qed

lemma module_candidates_alike:
  assumes "alike ns ms" and "keyed_nodes ns"
  shows "deduplicate (module_candidates language target expanded ns)
      = deduplicate (module_candidates language target expanded ms)"
    and "module_candidates language target expanded ns = []
      \<longleftrightarrow> module_candidates language target expanded ms = []"
proof -
  have f: "file_candidates ns language expanded = file_candidates ms language expanded"
    unfolding file_candidates_def alike_keyed_node [OF assms] ..
  have n: "alike (filter module_like (nodes_by_name ns target language))
      (filter module_like (nodes_by_name ms target language))"
    unfolding nodes_by_name_def by (intro alike_filter assms(1))
  show "deduplicate (module_candidates language target expanded ns)
      = deduplicate (module_candidates language target expanded ms)"
    unfolding module_candidates_def Let_def qualified_candidates_alike [OF assms(1)] f
    by (simp add: alike_deduplicate [OF n])
  show "module_candidates language target expanded ns = []
      \<longleftrightarrow> module_candidates language target expanded ms = []"
    unfolding module_candidates_def Let_def qualified_candidates_alike [OF assms(1)] f
    using alike_empty [OF n] by simp
qed

lemma module_alike:
  assumes "alike ns ms" and "keyed_nodes ns"
  shows "resolve_module request language target ns = resolve_module request language target ms"
proof -
  have fin: "finish_resolution (module_candidates language target' e ns) b t
      = finish_resolution (module_candidates language target' e ms) b t" for target' e b t
    unfolding finish_resolution_def module_candidates_alike(1) [OF assms] ..
  show ?thesis
    unfolding resolve_module_def Let_def module_candidates_alike [OF assms] fin ..
qed

text \<open>C34. Resolution does not depend on the order in which the nodes of the workspace are listed: as
  long as node ids and stable keys are unique, which the table's constraints ensure, any listing
  gives the same outcome, down to the order of the alternatives.\<close>

theorem resolution_order_irrelevant:
  assumes "mset ns = mset ms" and "keyed_nodes ns"
  shows "resolve_against_nodes request ns = resolve_against_nodes request ms"
proof -
  have a: "alike ns ms" using assms by (simp add: alike_def keyed_nodes_def)
  have found: "find (\<lambda>n. node_id n = i) ns = find (\<lambda>n. node_id n = i) ms" for i
    using assms find_mset by (auto simp: keyed_nodes_def)
  show ?thesis
    unfolding resolve_against_nodes_def Let_def local_key_alike [OF a assms(2)]
      qualified_alike [OF a] module_alike [OF a assms(2)] found ..
qed

section \<open>Witnesses\<close>

definition demo_document :: document where
  "demo_document =
     \<lparr>document_id = ''d'', document_workspace_id = ''w'', document_relative_path = ''src/lib.rs'',
      document_language = ''rust'', document_analyzer_id = ''ts'', document_analyzer_version = ''1'',
      document_segmentation_id = [], document_content_revision = 1, document_content_hash = [],
      document_size_bytes = 90, document_modified_at_ns = None, document_indexed_at = 0\<rparr>"

definition demo_symbol :: "string \<Rightarrow> string \<Rightarrow> nat \<Rightarrow> analyzed_symbol" where
  "demo_symbol key name start =
     \<lparr>symbol_stable_key = key, symbol_name = name, symbol_qualified_name = Some name,
      symbol_kind_of = FunctionSymbol, symbol_parent_key = None, symbol_start_byte = start,
      symbol_end_byte = start + 10, symbol_start_line = 1, symbol_end_line = 2,
      symbol_metadata = JObject []\<rparr>"

definition demo_ids :: "nat \<Rightarrow> string" where "demo_ids k = ''n'' @ digits k"

definition demo_nodes :: "graph_node list" where
  "demo_nodes = (case nodes_for_document demo_ids 0 demo_document ''s1''
      [demo_symbol ''f1'' ''f'' 0, demo_symbol ''f2'' ''f'' 20, demo_symbol ''g1'' ''g'' 40] of
     Inr ns \<Rightarrow> ns | Inl e \<Rightarrow> [])"

definition demo_request :: "relationship_target \<Rightarrow> resolution_request" where
  "demo_request target =
     \<lparr>request_workspace_id = ''w'', request_target = target, request_source_document_id = None,
      request_source_node_id = Some ''n3'', request_language = None, request_aliases = [],
      request_external_module_roots = []\<rparr>"

lemma demo_resolutions:
  "resolve_against_nodes (demo_request (QualifiedSymbol '' f '')) demo_nodes
     = Inr (Ambiguous [demo_nodes ! 1, demo_nodes ! 2] [] ByQualifiedName)"
  "keyed_nodes demo_nodes" "length demo_nodes = 4"
  by code_simp+

theorem resolution_sound_witness:
  "\<exists>source. request_source (demo_request (QualifiedSymbol '' f '')) demo_nodes = Inr source
    \<and> target_answered (demo_request (QualifiedSymbol '' f '')) source
        (in_language (resolution_language (demo_request (QualifiedSymbol '' f '')) source) demo_nodes)
        (Ambiguous [demo_nodes ! 1, demo_nodes ! 2] [] ByQualifiedName)"
  by (rule resolution_sound [OF demo_resolutions(1,2)])

theorem resolution_order_irrelevant_witness:
  "resolve_against_nodes (demo_request (QualifiedSymbol '' f '')) (rev demo_nodes)
     = Inr (Ambiguous [demo_nodes ! 1, demo_nodes ! 2] [] ByQualifiedName)"
  using resolution_order_irrelevant [of demo_nodes "rev demo_nodes"] demo_resolutions by simp

end
