(* ===== verification/Segmenter.thy ===== *)
theory Segmenter
  imports GenericChunks Embedding
begin

text \<open>
  \<open>src/indexing/segmenter.rs\<close>: cutting a logical chunk that is too large for the embedding model
  into segments.  The token counter and the document transformation are the provider's; nothing is
  assumed of them except where a theorem says so.  BLAKE3's hex digest is a parameter.
\<close>

section \<open>Characters\<close>

text \<open>The byte positions after the first character, as \<open>char_indices\<close> gives them, and the end.\<close>

definition boundaries_after :: "string \<Rightarrow> nat \<Rightarrow> nat list" where
  "boundaries_after s start = filter (is_char_boundary s) [Suc start..<Suc (length s)]"

text \<open>\<open>char_indices\<close>: each character's position and the position after it.\<close>

definition char_ranges :: "string \<Rightarrow> (nat \<times> nat) list" where
  "char_ranges s = (let bs = filter (is_char_boundary s) [0..<Suc (length s)] in zip bs (tl bs))"

definition is_whitespace_at :: "string \<Rightarrow> nat \<times> nat \<Rightarrow> bool" where
  "is_whitespace_at s = (\<lambda>(i, j). take (j - i) (drop i s) \<in> set ws_encodings)"

definition char_boundary_after :: "string \<Rightarrow> nat \<Rightarrow> nat" where
  "char_boundary_after s start =
     (if start < length s then next_char_boundary_at_or_after s (Suc start) else start)"

section \<open>The end of a segment\<close>

definition input_tokens :: "('s, 'v) embedding_provider \<Rightarrow> string \<Rightarrow> nat" where
  "input_tokens p t = tokens (count_tokens p (prepare_document_input p t))"

text \<open>The binary search: \<open>fit\<close> says whether the text up to a boundary is within the budget.\<close>

function search_fit :: "(nat \<Rightarrow> bool) \<Rightarrow> nat \<Rightarrow> nat \<Rightarrow> nat" where
  "search_fit fit low high =
     (if low < high then
        let middle = low + (high - low) div 2
        in if fit middle then search_fit fit (middle + 1) high else search_fit fit low middle
      else low)"
  by pat_completeness auto
termination by (relation "measure (\<lambda>(fit, low, high). high - low)") auto

declare search_fit.simps [simp del]

definition furthest_fitting_end ::
    "string \<Rightarrow> nat \<Rightarrow> ('s, 'v) embedding_provider \<Rightarrow> nat \<Rightarrow> cortex_error + nat" where
  "furthest_fitting_end source start p budget =
     and_then (slice source start (length source)) (\<lambda>_.
     let bs = boundaries_after source start;
         fit = (\<lambda>k. input_tokens p (take (bs ! k - start) (drop start source)) \<le> budget);
         low = search_fit fit 0 (length bs)
     in if bs = [] then Inl (Panicked ''index out of bounds'')
        else if low = 0 \<and> \<not> fit 0 then Inr start
        else Inr (bs ! (low - 1)))"

definition last_fitting :: "nat \<Rightarrow> nat list \<Rightarrow> nat option" where
  "last_fitting minimum ends =
     (let es = filter (\<lambda>e. minimum \<le> e) ends in if es = [] then None else Some (last es))"

definition blank_line_end :: "string \<Rightarrow> nat \<Rightarrow> nat \<Rightarrow> nat option" where
  "blank_line_end candidate start minimum =
     (let cr = char_of (13::nat);
          ends = List.map_filter (\<lambda>b. map_option (\<lambda>i. start + i + length b) (rfind_str b candidate))
            [[newline, newline], [cr, newline, cr, newline]];
          fitting = filter (\<lambda>e. minimum \<le> e) ends
      in if fitting = [] then None else Some (Max (set fitting)))"

definition line_end :: "string \<Rightarrow> nat \<Rightarrow> nat \<Rightarrow> nat option" where
  "line_end candidate start minimum =
     last_fitting minimum (map (\<lambda>i. start + i + 1)
       (filter (\<lambda>i. candidate ! i = newline) [0..<length candidate]))"

definition space_end :: "string \<Rightarrow> nat \<Rightarrow> nat \<Rightarrow> nat option" where
  "space_end candidate start minimum =
     last_fitting minimum (map (\<lambda>(i, j). start + j)
       (filter (is_whitespace_at candidate) (char_ranges candidate)))"

definition preferred_boundary :: "string \<Rightarrow> nat \<Rightarrow> nat \<Rightarrow> cortex_error + nat" where
  "preferred_boundary source start max_end =
     (if max_end = length source then Inr max_end
      else and_then (slice source start max_end) (\<lambda>candidate.
        let minimum = start + (max_end - start) div 2
        in Inr (case blank_line_end candidate start minimum of Some e \<Rightarrow> e | None \<Rightarrow>
           (case line_end candidate start minimum of Some e \<Rightarrow> e | None \<Rightarrow>
           (case space_end candidate start minimum of Some e \<Rightarrow> e | None \<Rightarrow> max_end)))))"

section \<open>The overlap\<close>

fun overlap_scan :: "(nat \<Rightarrow> bool) \<Rightarrow> nat list \<Rightarrow> nat \<Rightarrow> nat" where
  "overlap_scan near [] result = result"
| "overlap_scan near (c # cs) result =
     (if near c then overlap_scan near cs c else result)"

definition overlap_start ::
    "string \<Rightarrow> nat \<Rightarrow> nat \<Rightarrow> ('s, 'v) embedding_provider \<Rightarrow> nat \<Rightarrow> cortex_error + nat" where
  "overlap_start source start e p overlap =
     (if overlap = 0 then Inr e
      else and_then (slice source start e) (\<lambda>segment.
        Inr (overlap_scan
          (\<lambda>c. tokens (count_tokens p (take (e - c) (drop c source))) \<le> overlap)
          (rev (map (\<lambda>(i, j). start + i) (char_ranges segment))) e)))"

section \<open>Segments\<close>

text \<open>One round of the loop over the content, on the ranges so far and \<open>start\<close>.\<close>

definition split_step :: "string \<Rightarrow> string \<Rightarrow> ('s, 'v) embedding_provider \<Rightarrow> nat \<Rightarrow> nat
    \<Rightarrow> (nat \<times> nat) list \<times> nat \<Rightarrow> (cortex_error + (nat \<times> nat) list) + (nat \<times> nat) list \<times> nat" where
  "split_step key source p budget overlap = (\<lambda>(ranges, start).
     if start < length source then
       (case and_then (furthest_fitting_end source start p budget) (\<lambda>max_end.
             and_then (ensure (start < max_end) (AnalysisErr (''embedding input budget ''
                @ digits budget @ '' cannot fit one Unicode scalar from '' @ key))) (\<lambda>_.
             and_then (preferred_boundary source start max_end) (\<lambda>e.
             if e = length source then Inr (e, e)
             else and_then (overlap_start source start e p overlap) (\<lambda>v. Inr (e, v))))) of
          Inl err \<Rightarrow> Inl (Inl err)
        | Inr (e, v) \<Rightarrow>
            if e = length source then Inl (Inr (ranges @ [(start, e)]))
            else Inr (ranges @ [(start, e)], if start < v then v else char_boundary_after source start))
     else Inl (Inr ranges))"

definition split_ranges :: "string \<Rightarrow> string \<Rightarrow> ('s, 'v) embedding_provider \<Rightarrow> nat \<Rightarrow> nat
    \<Rightarrow> (cortex_error + (nat \<times> nat) list) option" where
  "split_ranges key source p budget overlap = run_loop (split_step key source p budget overlap) ([], 0)"

definition segment_metadata :: "analyzed_chunk \<Rightarrow> nat \<Rightarrow> nat \<Rightarrow> json" where
  "segment_metadata c index count =
     (let kvs = (case chunk_metadata c of JObject kvs \<Rightarrow> kvs | v \<Rightarrow> [(''logical_metadata'', v)]);
          kvs = btree_insert ''parent_logical_stable_key'' (JString (chunk_stable_key c)) kvs;
          kvs = btree_insert ''segment_part_index'' (JNumber (PosInt index)) kvs
      in JObject (btree_insert ''segment_part_count'' (JNumber (PosInt count)) kvs))"

definition segment_of :: "analyzed_chunk \<Rightarrow> nat \<Rightarrow> nat \<times> nat \<times> nat \<Rightarrow> cortex_error + analyzed_chunk" where
  "segment_of c count = (\<lambda>(index, start, e).
     and_then (slice (chunk_content c) 0 start) (\<lambda>before.
     and_then (slice (chunk_content c) start e) (\<lambda>content.
     let start_line = chunk_start_line c + newlines before
     in Inr (c\<lparr>chunk_stable_key := chunk_stable_key c @ ''::segment:'' @ digits index,
          chunk_start_byte := chunk_start_byte c + start, chunk_end_byte := chunk_start_byte c + e,
          chunk_start_line := start_line, chunk_end_line := start_line + newlines content,
          chunk_content := content, chunk_metadata := segment_metadata c index count\<rparr>))))"

definition split_chunk :: "analyzed_chunk \<Rightarrow> ('s, 'v) embedding_provider \<Rightarrow> nat \<Rightarrow> nat
    \<Rightarrow> (cortex_error + analyzed_chunk list) option" where
  "split_chunk c p budget overlap =
     (if chunk_content c = [] then Some (Inl (AnalysisErr (''oversized logical chunk ''
           @ chunk_stable_key c @ '' has no source content'')))
      else let prefix_tokens = input_tokens p []
        in if budget \<le> prefix_tokens then Some (Inl (ConfigurationErr (''document transformation consumes ''
               @ digits prefix_tokens @ '' tokens, leaving no usable input budget of '' @ digits budget)))
           else map_option (\<lambda>r. and_then r (\<lambda>ranges.
                  try_map (segment_of c (length ranges)) (enumerate 0 ranges)))
                (split_ranges (chunk_stable_key c) (chunk_content c) p budget
                  (min overlap ((budget - prefix_tokens) div 4))))"

section \<open>Segmenting\<close>

record ('s, 'v) identified_provider = "('s, 'v) embedding_provider" +
  token_counter_id :: string
  document_transformation_id :: string

record segmentation_output =
  segmented_chunks :: "analyzed_chunk list"
  segmentation_identity :: string
  segmentation_split_count :: nat

definition segmenter_version :: string where
  "segmenter_version = ''embedding-segmenter-v1''"

text \<open>The debug form of an \<open>Option<usize>\<close>.\<close>

definition debug_limit :: "nat option \<Rightarrow> string" where
  "debug_limit l = (case l of None \<Rightarrow> ''None'' | Some n \<Rightarrow> ''Some('' @ digits n @ '')'')"

definition policy_identity ::
    "(string \<Rightarrow> string) \<Rightarrow> ('s, 'v) identified_provider \<Rightarrow> nat \<Rightarrow> nat option \<Rightarrow> string" where
  "policy_identity hex p overlap limit =
     segmenter_version @ '':'' @ take 16 (hex (join_with [nul] [segmenter_version, debug_limit limit,
       digits (reserved_tokens (provider_limits p)), digits overlap, token_counter_id p,
       document_transformation_id p]))"

fun segment_all :: "('s, 'v) embedding_provider \<Rightarrow> nat \<Rightarrow> nat \<Rightarrow> analyzed_chunk list
    \<Rightarrow> analyzed_chunk list \<Rightarrow> nat \<Rightarrow> (cortex_error + analyzed_chunk list \<times> nat) option" where
  "segment_all p budget overlap [] out split_count = Some (Inr (out, split_count))"
| "segment_all p budget overlap (c # cs) out split_count =
     (if input_tokens p (chunk_content c) \<le> budget
      then segment_all p budget overlap cs (out @ [c]) split_count
      else case split_chunk c p budget overlap of
             None \<Rightarrow> None
           | Some (Inl err) \<Rightarrow> Some (Inl err)
           | Some (Inr segments) \<Rightarrow> segment_all p budget overlap cs (out @ segments)
               (split_count + (length segments - 1)))"

definition segment_chunks ::
    "(string \<Rightarrow> string) \<Rightarrow> analyzed_chunk list \<Rightarrow> ('s, 'v) identified_provider \<Rightarrow> nat \<Rightarrow> nat option
      \<Rightarrow> (cortex_error + segmentation_output) option" where
  "segment_chunks hex logical p overlap limit =
     (let identity = policy_identity hex p overlap limit in
      case limit of
        None \<Rightarrow> Some (Inr \<lparr>segmented_chunks = logical, segmentation_identity = identity,
                  segmentation_split_count = 0\<rparr>)
      | Some max_tokens \<Rightarrow>
          let reserved = reserved_tokens (provider_limits p) in
          if max_tokens < reserved then Some (Inl (ConfigurationErr (''embedding input limit ''
               @ digits max_tokens @ '' cannot accommodate '' @ digits reserved @ '' reserved tokens'')))
          else if max_tokens - reserved = 0 then Some (Inl (ConfigurationErr
               ''embedding input budget must leave at least one token for source''))
          else map_option (\<lambda>r. and_then r (\<lambda>(chunks, n). Inr \<lparr>segmented_chunks = chunks,
                 segmentation_identity = identity, segmentation_split_count = n\<rparr>))
               (segment_all (embedding_provider.truncate p) (max_tokens - reserved) overlap logical [] 0))"

section \<open>Where a segment may end\<close>

lemma boundaries_after_set:
  "b \<in> set (boundaries_after s a) \<longleftrightarrow> a < b \<and> b \<le> length s \<and> is_char_boundary s b"
  by (auto simp: boundaries_after_def)

lemma search_fit_spec:
  "low \<le> high \<Longrightarrow> low \<le> search_fit fit low high \<and> search_fit fit low high \<le> high
    \<and> (low < search_fit fit low high \<longrightarrow> fit (search_fit fit low high - 1))"
proof (induction fit low high rule: search_fit.induct)
  case (1 fit low high)
  show ?case
  proof (cases "low < high")
    case True
    let ?m = "low + (high - low) div 2"
    have m: "low \<le> ?m" "?m < high" using True by auto
    show ?thesis
    proof (cases "fit ?m")
      case fit: True
      then have eq: "search_fit fit low high = search_fit fit (?m + 1) high"
        using True by (subst search_fit.simps) (simp add: Let_def)
      have "?m + 1 \<le> search_fit fit (?m + 1) high \<and> search_fit fit (?m + 1) high \<le> high
        \<and> (?m + 1 < search_fit fit (?m + 1) high \<longrightarrow> fit (search_fit fit (?m + 1) high - 1))"
        using 1(1) [OF True refl fit] m by simp
      then show ?thesis using fit m unfolding eq
        by (cases "search_fit fit (?m + 1) high = ?m + 1") auto
    next
      case nofit: False
      then have eq: "search_fit fit low high = search_fit fit low ?m"
        using True by (subst search_fit.simps) (simp add: Let_def)
      show ?thesis using 1(2) [OF True refl nofit] m unfolding eq by simp
    qed
  next
    case False
    then have "search_fit fit low high = low" by (subst search_fit.simps) simp
    then show ?thesis using 1(3) by simp
  qed
qed

lemma furthest_fitting_end_Inr:
  assumes "is_char_boundary s a" and "a < length s"
  obtains "furthest_fitting_end s a p budget = Inr a"
    | e where "furthest_fitting_end s a p budget = Inr e" and "a < e" and "is_char_boundary s e"
      and "input_tokens p (take (e - a) (drop a s)) \<le> budget"
proof -
  let ?bs = "boundaries_after s a"
  let ?fit = "\<lambda>k. input_tokens p (take (?bs ! k - a) (drop a s)) \<le> budget"
  let ?low = "search_fit ?fit 0 (length ?bs)"
  have "length s \<in> set ?bs" using assms(2) by (simp add: boundaries_after_set)
  then have ne: "?bs \<noteq> []" by auto
  have slice: "slice s a (length s) = Inr (drop a s)" using assms by (simp add: slice_def)
  have run: "furthest_fitting_end s a p budget
      = (if ?low = 0 \<and> \<not> ?fit 0 then Inr a else Inr (?bs ! (?low - 1)))"
    unfolding furthest_fitting_end_def slice Let_def using ne by simp
  have low: "?low \<le> length ?bs" "0 < ?low \<Longrightarrow> ?fit (?low - 1)"
    using search_fit_spec [of 0 "length ?bs" ?fit] by auto
  show thesis
  proof (cases "?low = 0 \<and> \<not> ?fit 0")
    case True
    then show thesis using that(1) run by simp
  next
    case False
    let ?e = "?bs ! (?low - 1)"
    have "?e \<in> set ?bs" using ne low(1) by (intro nth_mem) (cases ?bs; auto)
    then have e: "a < ?e" "is_char_boundary s ?e" by (simp_all add: boundaries_after_set)
    have "input_tokens p (take (?e - a) (drop a s)) \<le> budget"
      using low(2) False by (cases "?low = 0") simp_all
    then show thesis using that(2) [of ?e] run False e by simp
  qed
qed

lemma slice_boundary:
  assumes "slice s a b = Inr c" and "is_char_boundary c j"
  shows "is_char_boundary s (a + j) \<and> a + j \<le> b"
proof -
  have c: "c = take (b - a) (drop a s)" "a \<le> b" "b \<le> length s"
    "is_char_boundary s a" "is_char_boundary s b"
    using assms(1) by (simp_all add: slice_eq_Inr boundary_le)
  then have len: "length c = b - a" by simp
  show ?thesis
  proof (cases "j = 0 \<or> j = length c")
    case True
    then show ?thesis using c len by auto
  next
    case False
    then have j: "j < b - a" "\<not> is_continuation (c ! j)"
      using assms(2) len by (auto simp: is_char_boundary_def)
    then have "a + j < length s" "c ! j = s ! (a + j)" using c by auto
    then show ?thesis using j by (simp add: is_char_boundary_def)
  qed
qed

lemma char_ranges_member:
  assumes "(i, j) \<in> set (char_ranges s)"
  shows "is_char_boundary s i" and "is_char_boundary s j" and "i < j"
proof -
  let ?bs = "filter (is_char_boundary s) [0..<Suc (length s)]"
  obtain k where k: "k < length (zip ?bs (tl ?bs))" "zip ?bs (tl ?bs) ! k = (i, j)"
    using assms by (auto simp: char_ranges_def Let_def in_set_conv_nth simp del: upt_Suc)
  then have ij: "i = ?bs ! k" "j = ?bs ! Suc k" "Suc k < length ?bs"
    by (auto simp: nth_tl simp del: upt_Suc)
  have "sorted_wrt (<) ?bs" by (intro sorted_wrt_filter) (simp del: upt_Suc)
  then show "i < j" using ij by (simp add: sorted_wrt_iff_nth_less del: upt_Suc)
  have "i \<in> set ?bs" "j \<in> set ?bs" using ij by (metis Suc_lessD nth_mem)+
  then show "is_char_boundary s i" "is_char_boundary s j" by (auto simp del: upt_Suc)
qed

text \<open>A position that a segment from a to b may end at.\<close>

definition may_end :: "string \<Rightarrow> nat \<Rightarrow> nat \<Rightarrow> nat \<Rightarrow> bool" where
  "may_end s a b e \<longleftrightarrow> a < e \<and> e \<le> b \<and> is_char_boundary s e"

lemma blank_line_may_end:
  assumes "utf8_valid s" and "slice s a b = Inr c" and "blank_line_end c a m = Some e"
  shows "may_end s a b e"
proof -
  let ?pats = "[[newline, newline], [char_of (13::nat), newline, char_of (13::nat), newline]]"
  let ?ends = "List.map_filter (\<lambda>p. map_option (\<lambda>i. a + i + length p) (rfind_str p c)) ?pats"
  have ends: "set ?ends = {e. \<exists>p \<in> set ?pats. \<exists>i. rfind_str p c = Some i \<and> e = a + i + length p}"
    by (auto simp: List.map_filter_def split: option.splits)
  have "e \<in> set ?ends"
  proof -
    from assms(3) have ne: "filter (\<lambda>e. m \<le> e) ?ends \<noteq> []"
      and e: "e = Max (set (filter (\<lambda>e. m \<le> e) ?ends))"
      by (auto simp: blank_line_end_def Let_def split: if_splits)
    have "e \<in> set (filter (\<lambda>e. m \<le> e) ?ends)"
      unfolding e by (intro Max_in) (use ne in \<open>simp_all only: finite_set set_empty not_False_eq_True\<close>)
    then show ?thesis by simp
  qed
  then obtain p i where p: "p \<in> set ?pats" "rfind_str p c = Some i" "e = a + i + length p"
    unfolding ends by blast
  have "0 < length p" "code (p ! (length p - 1)) < 128"
    using p(1) by (auto simp: newline_def code_def)
  then show ?thesis
    using pattern_boundary [OF assms(1,2) p(2), of "length p - 1"] p(3)
    by (cases "length p") (auto simp: may_end_def)
qed

lemma last_fitting_member: "last_fitting m es = Some e \<Longrightarrow> e \<in> set es"
proof -
  assume "last_fitting m es = Some e"
  then have "filter (\<lambda>e. m \<le> e) es \<noteq> []" "e = last (filter (\<lambda>e. m \<le> e) es)"
    by (auto simp: last_fitting_def Let_def split: if_splits)
  then have "e \<in> set (filter (\<lambda>e. m \<le> e) es)" using last_in_set by blast
  then show ?thesis by simp
qed

lemma line_may_end:
  assumes "utf8_valid s" and "slice s a b = Inr c" and "line_end c a m = Some e"
  shows "may_end s a b e"
proof -
  have c: "c = take (b - a) (drop a s)" "a \<le> b" "b \<le> length s"
    using assms(2) by (simp_all add: slice_eq_Inr boundary_le)
  from assms(3) obtain i where i: "i < length c" "c ! i = newline" "e = a + i + 1"
    by (auto simp: line_end_def dest!: last_fitting_member)
  then have "s ! (a + i) = newline" "a + i < b" using c by auto
  then show ?thesis
    using boundary_after_ascii [OF assms(1), of "a + i"] i c
    by (simp add: may_end_def newline_def code_def)
qed

lemma space_may_end:
  assumes "slice s a b = Inr c" and "space_end c a m = Some e"
  shows "may_end s a b e"
proof -
  from assms(2) obtain i j where "(i, j) \<in> set (char_ranges c)" "e = a + j"
    by (auto simp: space_end_def dest!: last_fitting_member)
  then show ?thesis
    using char_ranges_member slice_boundary [OF assms(1)] by (fastforce simp: may_end_def)
qed

lemma preferred_boundary_Inr:
  assumes "utf8_valid s" and "is_char_boundary s a" and "is_char_boundary s b" and "a < b"
  shows "\<exists>e. preferred_boundary s a b = Inr e \<and> may_end s a b e"
proof -
  have b: "may_end s a b b" using assms(3,4) by (simp add: may_end_def)
  show ?thesis
  proof (cases "b = length s")
    case True
    then show ?thesis using b by (simp add: preferred_boundary_def)
  next
    case False
    obtain c where c: "slice s a b = Inr c" using assms(2-4) by (simp add: slice_def)
    show ?thesis
      using False c b blank_line_may_end [OF assms(1) c] line_may_end [OF assms(1) c] space_may_end [OF c]
      by (auto simp: preferred_boundary_def Let_def split: option.split)
  qed
qed

lemma overlap_scan_result: "overlap_scan near cs r = r \<or> overlap_scan near cs r \<in> set cs"
  by (induction near cs r rule: overlap_scan.induct) auto

lemma overlap_start_Inr:
  assumes "is_char_boundary s a" and "is_char_boundary s e" and "a \<le> e"
  shows "\<exists>v. overlap_start s a e p overlap = Inr v \<and> a \<le> v \<and> v \<le> e \<and> is_char_boundary s v"
proof (cases "overlap = 0")
  case False
  obtain c where c: "slice s a e = Inr c" using assms by (simp add: slice_def)
  let ?cs = "rev (map (\<lambda>(i, j). a + i) (char_ranges c))"
    and ?near = "\<lambda>v. tokens (count_tokens p (take (e - v) (drop v s))) \<le> overlap"
  have inside: "a \<le> v \<and> v \<le> e \<and> is_char_boundary s v" if "v \<in> set ?cs" for v
  proof -
    from that obtain i j where ij: "(i, j) \<in> set (char_ranges c)" "v = a + i" by auto
    show ?thesis using slice_boundary [OF c char_ranges_member(1) [OF ij(1)]] ij(2) by simp
  qed
  have run: "overlap_start s a e p overlap = Inr (overlap_scan ?near ?cs e)"
    using False c by (simp add: overlap_start_def)
  have "a \<le> v \<and> v \<le> e \<and> is_char_boundary s v" if "v = e \<or> v \<in> set ?cs" for v
    using that inside assms by blast
  from this [OF overlap_scan_result] show ?thesis unfolding run by blast
qed (use assms in \<open>simp add: overlap_start_def\<close>)
section \<open>The loop over the content\<close>

text \<open>Segments in order: each starts later than the one before and no later than its end.\<close>

definition contiguous :: "nat \<times> nat \<Rightarrow> nat \<times> nat \<Rightarrow> bool" where
  "contiguous = (\<lambda>(a, b) (c, d). a < c \<and> c \<le> b)"

definition segment_ok :: "string \<Rightarrow> nat \<times> nat \<Rightarrow> bool" where
  "segment_ok s = (\<lambda>(a, b). a < b \<and> is_char_boundary s a \<and> is_char_boundary s b)"

definition segmented :: "string \<Rightarrow> (nat \<times> nat) list \<Rightarrow> bool" where
  "segmented s rs \<longleftrightarrow> list_all (segment_ok s) rs \<and> successively contiguous rs
     \<and> (rs \<noteq> [] \<longrightarrow> fst (hd rs) = 0)"

definition split_inv :: "string \<Rightarrow> (nat \<times> nat) list \<times> nat \<Rightarrow> bool" where
  "split_inv s = (\<lambda>(rs, start). segmented s rs \<and> is_char_boundary s start \<and> start < length s
     \<and> (if rs = [] then start = 0 else fst (last rs) < start \<and> start \<le> snd (last rs)))"

lemma segmented_snoc:
  assumes "split_inv s (rs, start)" and "start < e" and "is_char_boundary s e"
  shows "segmented s (rs @ [(start, e)])"
  using assms
  by (cases "rs = []"; cases "last rs")
    (auto simp: split_inv_def segmented_def successively_append_iff contiguous_def segment_ok_def)

lemma char_boundary_after_facts:
  assumes "start < length s" and "is_char_boundary s e" and "start < e"
  shows "start < char_boundary_after s start" and "char_boundary_after s start \<le> e"
    and "is_char_boundary s (char_boundary_after s start)"
  using ceil_facts [of "Suc start" s] assms by (auto simp: char_boundary_after_def Suc_le_eq)

text \<open>What a round does: it stops with an error that is not a panic, stops at the end of the content,
  or goes on.  Where it does not fail, the segment is within the input that was found to fit.\<close>

lemma split_step_cases:
  assumes inv: "split_inv s (rs, start)" and valid: "utf8_valid s"
  obtains m where "split_step key s p budget overlap (rs, start) = Inl (Inl (AnalysisErr m))"
    | e b where "segmented s (rs @ [(start, e)])" and "e = length s" and "may_end s start b e"
      and "is_char_boundary s b" and "input_tokens p (take (b - start) (drop start s)) \<le> budget"
      and "split_step key s p budget overlap (rs, start) = Inl (Inr (rs @ [(start, e)]))"
    | e b start' where "split_inv s (rs @ [(start, e)], start')" and "start < start'"
      and "may_end s start b e" and "is_char_boundary s b"
      and "input_tokens p (take (b - start) (drop start s)) \<le> budget"
      and "split_step key s p budget overlap (rs, start) = Inr (rs @ [(start, e)], start')"
proof -
  have start: "is_char_boundary s start" "start < length s" using inv by (auto simp: split_inv_def)
  show thesis
  proof (rule furthest_fitting_end_Inr [OF start, of p budget])
    assume "furthest_fitting_end s start p budget = Inr start"
    then show thesis using that(1) start by (simp add: split_step_def ensure_def)
  next
    fix b
    assume b: "furthest_fitting_end s start p budget = Inr b" "start < b" "is_char_boundary s b"
      "input_tokens p (take (b - start) (drop start s)) \<le> budget"
    obtain e where e: "preferred_boundary s start b = Inr e" "may_end s start b e"
      using preferred_boundary_Inr [OF valid start(1) b(3,2)] by blast
    have se: "start < e" "is_char_boundary s e" using e(2) by (simp_all add: may_end_def)
    note seg = segmented_snoc [OF inv se]
    show thesis
    proof (cases "e = length s")
      case True
      then show thesis using that(2) [OF seg _ e(2) b(3,4)] b e start by (simp add: split_step_def ensure_def)
    next
      case False
      then have "e < length s" using boundary_le [OF se(2)] by simp
      obtain v where v: "overlap_start s start e p overlap = Inr v" "start \<le> v" "v \<le> e"
        "is_char_boundary s v"
        using overlap_start_Inr [OF start(1) se(2)] se(1) by auto
      let ?start = "if start < v then v else char_boundary_after s start"
      have next_start: "start < ?start" "?start \<le> e" "is_char_boundary s ?start"
        using v char_boundary_after_facts [OF start(2) se(2,1)] by auto
      have "split_inv s (rs @ [(start, e)], ?start)"
        using seg next_start \<open>e < length s\<close> by (simp add: split_inv_def del: if_split)
      then show thesis
        using that(3) [OF _ next_start(1) e(2) b(3,4)] False b e v start
        by (simp add: split_step_def ensure_def)
    qed
  qed
qed

definition not_panicked :: "cortex_error \<Rightarrow> bool" where
  "not_panicked err \<longleftrightarrow> (\<forall>m. err \<noteq> Panicked m)"

text \<open>Each segment ends inside an input that was found to fit the budget.\<close>

definition found_within :: "string \<Rightarrow> ('s, 'v) embedding_provider \<Rightarrow> nat \<Rightarrow> nat \<times> nat \<Rightarrow> bool" where
  "found_within s p budget = (\<lambda>(a, e). \<exists>b. may_end s a b e \<and> is_char_boundary s b
     \<and> input_tokens p (take (b - a) (drop a s)) \<le> budget)"

lemma split_ranges_result:
  assumes "utf8_valid s" and "s \<noteq> []"
  shows "\<exists>r. split_ranges key s p budget overlap = Some r
    \<and> (case r of Inl err \<Rightarrow> not_panicked err
       | Inr rs \<Rightarrow> rs \<noteq> [] \<and> segmented s rs \<and> snd (last rs) = length s
           \<and> list_all (found_within s p budget) rs)"
  unfolding split_ranges_def
proof (rule run_loop_result [where P = "\<lambda>(rs, start). split_inv s (rs, start)
      \<and> list_all (found_within s p budget) rs" and m = "\<lambda>(rs, start). length s - start"])
  show "case ([], 0) of (rs, start) \<Rightarrow> split_inv s (rs, start) \<and> list_all (found_within s p budget) rs"
    using assms(2) by (simp add: split_inv_def segmented_def)
next
  fix st st'
  assume P: "case st of (rs, start) \<Rightarrow> split_inv s (rs, start) \<and> list_all (found_within s p budget) rs"
    and step: "split_step key s p budget overlap st = Inr st'"
  obtain rs start where st: "st = (rs, start)" by (cases st)
  show "(case st' of (rs, start) \<Rightarrow> split_inv s (rs, start) \<and> list_all (found_within s p budget) rs)
    \<and> (case st' of (rs, start) \<Rightarrow> length s - start) < (case st of (rs, start) \<Rightarrow> length s - start)"
  proof (rule split_step_cases [of s rs start key p budget overlap])
    fix e b start'
    assume "split_inv s (rs @ [(start, e)], start')" "start < start'" "may_end s start b e"
      "is_char_boundary s b" "input_tokens p (take (b - start) (drop start s)) \<le> budget"
      "split_step key s p budget overlap (rs, start) = Inr (rs @ [(start, e)], start')"
    moreover from this have "start' < length s" by (simp add: split_inv_def)
    ultimately show ?thesis using P step st by (auto simp: found_within_def)
  qed (use P step st assms(1) in auto)
next
  fix st r
  assume P: "case st of (rs, start) \<Rightarrow> split_inv s (rs, start) \<and> list_all (found_within s p budget) rs"
    and step: "split_step key s p budget overlap st = Inl r"
  obtain rs start where st: "st = (rs, start)" by (cases st)
  show "case r of Inl err \<Rightarrow> not_panicked err
    | Inr rs \<Rightarrow> rs \<noteq> [] \<and> segmented s rs \<and> snd (last rs) = length s \<and> list_all (found_within s p budget) rs"
    by (rule split_step_cases [of s rs start key p budget overlap])
      (use P step st assms(1) in \<open>auto simp: not_panicked_def found_within_def\<close>)
qed

section \<open>The segments\<close>

text \<open>A segment is a part of its chunk, located in the file like the chunk.\<close>

definition segment_located :: "analyzed_chunk \<Rightarrow> nat \<times> nat \<times> nat \<Rightarrow> analyzed_chunk \<Rightarrow> bool" where
  "segment_located c = (\<lambda>(index, a, e) g.
     chunk_stable_key g = chunk_stable_key c @ ''::segment:'' @ digits index
     \<and> chunk_content g = take (e - a) (drop a (chunk_content c))
     \<and> chunk_start_byte g = chunk_start_byte c + a \<and> chunk_end_byte g = chunk_start_byte c + e
     \<and> chunk_start_line g = chunk_start_line c + newlines (take a (chunk_content c))
     \<and> chunk_end_line g = chunk_start_line c + newlines (take e (chunk_content c))
     \<and> chunk_language g = chunk_language c \<and> chunk_symbol g = chunk_symbol c)"

lemma segment_of_Inr:
  assumes "segment_ok (chunk_content c) (a, e)"
  shows "\<exists>g. segment_of c n (i, a, e) = Inr g \<and> segment_located c (i, a, e) g"
  using assms take_split [of a e "chunk_content c"]
  by (auto simp: segment_ok_def segment_of_def slice_def segment_located_def Let_def)

lemma segments_Inr:
  assumes "list_all (segment_ok (chunk_content c)) rs"
  shows "\<exists>gs. try_map (segment_of c n) (enumerate i rs) = Inr gs
    \<and> list_all2 (segment_located c) (enumerate i rs) gs"
  using assms
proof (induction rs arbitrary: i)
  case (Cons r rs)
  obtain g where "segment_of c n (i, r) = Inr g" "segment_located c (i, r) g"
    using segment_of_Inr [of c "fst r" "snd r" n i] Cons.prems by auto
  moreover obtain gs where "try_map (segment_of c n) (enumerate (Suc i) rs) = Inr gs"
    "list_all2 (segment_located c) (enumerate (Suc i) rs) gs"
    using Cons.IH [of "Suc i"] Cons.prems by auto
  ultimately show ?case by simp
qed simp

lemma split_chunk_result:
  assumes "utf8_valid (chunk_content c)"
  shows "\<exists>r. split_chunk c p budget overlap = Some r
    \<and> (case r of Inl err \<Rightarrow> not_panicked err
       | Inr gs \<Rightarrow> \<exists>rs. rs \<noteq> [] \<and> segmented (chunk_content c) rs
           \<and> snd (last rs) = length (chunk_content c)
           \<and> list_all (found_within (chunk_content c) p budget) rs
           \<and> list_all2 (segment_located c) (enumerate 0 rs) gs)"
proof (cases "chunk_content c = [] \<or> budget \<le> input_tokens p []")
  case True
  then show ?thesis by (auto simp: split_chunk_def not_panicked_def)
next
  case False
  let ?overlap = "min overlap ((budget - input_tokens p []) div 4)"
  obtain r where run: "split_ranges (chunk_stable_key c) (chunk_content c) p budget ?overlap = Some r"
    and r: "case r of Inl err \<Rightarrow> not_panicked err
       | Inr rs \<Rightarrow> rs \<noteq> [] \<and> segmented (chunk_content c) rs \<and> snd (last rs) = length (chunk_content c)
           \<and> list_all (found_within (chunk_content c) p budget) rs"
    using split_ranges_result [OF assms, of "chunk_stable_key c" p budget ?overlap] False by blast
  show ?thesis
  proof (cases r)
    case (Inl err)
    then show ?thesis using run r False by (simp add: split_chunk_def Let_def)
  next
    case (Inr rs)
    then have rs: "rs \<noteq> []" "segmented (chunk_content c) rs" "snd (last rs) = length (chunk_content c)"
      "list_all (found_within (chunk_content c) p budget) rs"
      using r by simp_all
    obtain gs where "try_map (segment_of c (length rs)) (enumerate 0 rs) = Inr gs"
      "list_all2 (segment_located c) (enumerate 0 rs) gs"
      using segments_Inr [of c rs "length rs" 0] rs(2) by (auto simp: segmented_def)
    then have "split_chunk c p budget overlap = Some (Inr gs)"
      using run Inr False by (simp add: split_chunk_def Let_def)
    then show ?thesis using rs \<open>list_all2 _ _ gs\<close> by auto
  qed
qed

text \<open>C3. Splitting a chunk always ends and never panics, whatever the token counter says: for any
  well-formed content, budget and overlap, it reports an error or returns segments.  The segments
  start at the chunk's start and end at its end, each starts later than the one before and at or
  before its end, so that together they cover the chunk; and each carries its own part of the
  content, its position and lines in the file, and a key of its own.\<close>

theorem split_chunk_covers:
  assumes "utf8_valid (chunk_content c)"
  shows "\<exists>r. split_chunk c p budget overlap = Some r
    \<and> (case r of Inl err \<Rightarrow> not_panicked err
       | Inr gs \<Rightarrow> \<exists>rs. rs \<noteq> [] \<and> segmented (chunk_content c) rs
           \<and> snd (last rs) = length (chunk_content c)
           \<and> list_all2 (segment_located c) (enumerate 0 rs) gs)"
  using split_chunk_result [OF assms, of p budget overlap]
  by (fastforce split: sum.split)

text \<open>The counter of every provider whose texts only cost more when they grow, such as the
  conservative count of bytes behind a fixed prefix.\<close>

definition monotone_counter :: "('s, 'v) embedding_provider \<Rightarrow> bool" where
  "monotone_counter p \<longleftrightarrow> (\<forall>s t. prefix s t \<longrightarrow> input_tokens p s \<le> input_tokens p t)"

lemma segment_within_budget:
  assumes "monotone_counter p" and "found_within s p budget (a, e)"
  shows "input_tokens p (take (e - a) (drop a s)) \<le> budget"
proof -
  obtain b where b: "e \<le> b" "input_tokens p (take (b - a) (drop a s)) \<le> budget"
    using assms(2) by (auto simp: found_within_def may_end_def)
  have "take (e - a) (drop a s) = take (e - a) (take (b - a) (drop a s))"
    using b(1) by (simp add: min_absorb1 diff_le_mono)
  then have "prefix (take (e - a) (drop a s)) (take (b - a) (drop a s))"
    by (metis take_is_prefix)
  then have "input_tokens p (take (e - a) (drop a s)) \<le> input_tokens p (take (b - a) (drop a s))"
    using assms(1) by (simp add: monotone_counter_def)
  then show ?thesis using b(2) by simp
qed

lemma split_chunk_fits:
  assumes "monotone_counter p" and "utf8_valid (chunk_content c)"
  shows "\<exists>r. split_chunk c p budget overlap = Some r
    \<and> (\<forall>gs. r = Inr gs \<longrightarrow> list_all (\<lambda>g. input_tokens p (chunk_content g) \<le> budget) gs)"
proof -
  obtain r where r: "split_chunk c p budget overlap = Some r"
    "case r of Inl err \<Rightarrow> not_panicked err
       | Inr gs \<Rightarrow> \<exists>rs. rs \<noteq> [] \<and> segmented (chunk_content c) rs
           \<and> snd (last rs) = length (chunk_content c)
           \<and> list_all (found_within (chunk_content c) p budget) rs
           \<and> list_all2 (segment_located c) (enumerate 0 rs) gs"
    using split_chunk_result [OF assms(2), of p budget overlap] by blast
  have "list_all (\<lambda>g. input_tokens p (chunk_content g) \<le> budget) gs" if "r = Inr gs" for gs
  proof -
    from r(2) that obtain rs where "list_all (found_within (chunk_content c) p budget) rs"
      and located: "list_all2 (segment_located c) (enumerate 0 rs) gs" by auto
    then have "list_all2 (\<lambda>x g. segment_located c x g \<and> found_within (chunk_content c) p budget (snd x))
        (enumerate 0 rs) gs"
      by (auto simp: list_all2_conv_all_nth list_all_length nth_enumerate_eq)
    then show ?thesis
      using segment_within_budget [OF assms(1)]
      by (induction rule: list_all2_induct) (auto simp: segment_located_def)
  qed
  with r(1) show ?thesis by blast
qed

lemma segment_all_fits:
  assumes "monotone_counter p" and "list_all (\<lambda>c. utf8_valid (chunk_content c)) cs"
    and "list_all (\<lambda>g. input_tokens p (chunk_content g) \<le> budget) out"
  shows "\<exists>r. segment_all p budget overlap cs out n = Some r
    \<and> (\<forall>gs k. r = Inr (gs, k) \<longrightarrow> list_all (\<lambda>g. input_tokens p (chunk_content g) \<le> budget) gs)"
  using assms(2,3)
proof (induction cs arbitrary: out n)
  case (Cons c cs)
  show ?case
  proof (cases "input_tokens p (chunk_content c) \<le> budget")
    case True
    then show ?thesis using Cons.IH [of "out @ [c]" n] Cons.prems by simp
  next
    case False
    obtain r where r: "split_chunk c p budget overlap = Some r"
      "\<forall>gs. r = Inr gs \<longrightarrow> list_all (\<lambda>g. input_tokens p (chunk_content g) \<le> budget) gs"
      using split_chunk_fits [OF assms(1), of c budget overlap] Cons.prems(1) by auto
    show ?thesis
    proof (cases r)
      case (Inl err)
      then show ?thesis using r False by simp
    next
      case (Inr gs)
      then show ?thesis
        using r False Cons.IH [of "out @ gs" "n + (length gs - 1)"] Cons.prems by simp
    qed
  qed
qed simp

text \<open>C18. The embedding budget: with a counter that never falls as a text grows, segmenting any
  well-formed chunks ends, and if it succeeds, every chunk that it returns, transformed as for
  embedding, is within the input limit less the reserved tokens.\<close>

theorem segments_within_budget:
  assumes "monotone_counter (embedding_provider.truncate p)"
    and "list_all (\<lambda>c. utf8_valid (chunk_content c)) logical"
  shows "\<exists>r. segment_chunks hex logical p overlap (Some limit) = Some r
    \<and> (\<forall>out. r = Inr out \<longrightarrow> list_all (\<lambda>g. input_tokens (embedding_provider.truncate p) (chunk_content g)
          \<le> limit - reserved_tokens (provider_limits p)) (segmented_chunks out))"
proof -
  let ?budget = "limit - reserved_tokens (provider_limits p)"
  obtain r where r: "segment_all (embedding_provider.truncate p) ?budget overlap logical [] 0 = Some r"
    "\<forall>gs k. r = Inr (gs, k) \<longrightarrow>
      list_all (\<lambda>g. input_tokens (embedding_provider.truncate p) (chunk_content g) \<le> ?budget) gs"
    using segment_all_fits [OF assms, of ?budget "[]" overlap 0] by auto
  then show ?thesis
    by (cases r) (auto simp: segment_chunks_def Let_def)
qed

section \<open>Witnesses\<close>

definition demo_bytes :: "(unit, unit) identified_provider" where
  "demo_bytes =
     \<lparr>provider_limits = \<lparr>max_input_tokens = Some 8, max_batch_tokens = None, max_batch_items = 8,
        reserved_tokens = 0\<rparr>,
      count_tokens = conservative_byte_count, prepare_document_input = (\<lambda>t. t),
      provider_embed_documents = (\<lambda>s ts. (Inr [], s)), token_counter_id = ''b'',
      document_transformation_id = ''m''\<rparr>"

definition demo_chunk :: analyzed_chunk where
  "demo_chunk =
     \<lparr>chunk_stable_key = ''k'', chunk_language = ''text'', chunk_symbol = None,
      chunk_qualified_symbol = None, chunk_symbol_kind = None, chunk_start_byte = 10,
      chunk_end_byte = 26, chunk_start_line = 3, chunk_end_line = 3,
      chunk_content = ''alpha beta gamma'', chunk_metadata = JNull\<rparr>"

lemma demo_split:
  "map_option (map_sum id (map chunk_content))
     (split_chunk demo_chunk (embedding_provider.truncate demo_bytes) 8 2)
   = Some (Inr [''alpha '', ''a beta '', ''a gamma''])"
  by code_simp

theorem split_chunk_covers_witness:
  "\<exists>gs rs. split_chunk demo_chunk (embedding_provider.truncate demo_bytes) 8 2 = Some (Inr gs)
    \<and> segmented ''alpha beta gamma'' rs \<and> snd (last rs) = 16 \<and> length gs = length rs"
proof -
  have valid: "utf8_valid (chunk_content demo_chunk)" by code_simp
  obtain gs where gs: "split_chunk demo_chunk (embedding_provider.truncate demo_bytes) 8 2 = Some (Inr gs)"
    by (rule found_result [OF demo_split])
  with split_chunk_covers [OF valid, of "embedding_provider.truncate demo_bytes" 8 2]
  obtain rs where "segmented (chunk_content demo_chunk) rs" "snd (last rs) = length (chunk_content demo_chunk)"
    "list_all2 (segment_located demo_chunk) (enumerate 0 rs) gs" by auto
  moreover from this have "length gs = length rs" by (auto dest: list_all2_lengthD)
  ultimately show ?thesis using gs by (intro exI [of _ gs] exI [of _ rs]) (simp add: demo_chunk_def)
qed

theorem segments_within_budget_witness:
  "\<exists>out. segment_chunks (\<lambda>s. s) [demo_chunk] demo_bytes 2 (Some 8) = Some (Inr out)
    \<and> list_all (\<lambda>g. length (chunk_content g) \<le> 8) (segmented_chunks out)"
proof -
  have tokens: "input_tokens (embedding_provider.truncate demo_bytes) t = length t" for t
    by (simp add: input_tokens_def demo_bytes_def embedding_provider.truncate_def conservative_byte_count_def)
  have mono: "monotone_counter (embedding_provider.truncate demo_bytes)"
    by (simp add: monotone_counter_def tokens prefix_length_le)
  have valid: "list_all (\<lambda>c. utf8_valid (chunk_content c)) [demo_chunk]" by code_simp
  have reserved: "reserved_tokens (provider_limits demo_bytes) = 0" by (simp add: demo_bytes_def)
  have demo: "map_option (map_sum id (map chunk_content \<circ> segmented_chunks))
      (segment_chunks (\<lambda>s. s) [demo_chunk] demo_bytes 2 (Some 8))
      = Some (Inr [''alpha '', ''a beta '', ''a gamma''])"
    by code_simp
  obtain out where out: "segment_chunks (\<lambda>s. s) [demo_chunk] demo_bytes 2 (Some 8) = Some (Inr out)"
    by (rule found_result [OF demo])
  with segments_within_budget [OF mono valid, of "\<lambda>s. s" 2 8] show ?thesis
    by (auto simp: tokens reserved)
qed

end
