(* ===== verification/Spec2Isabelle.thy ===== *)
theory Spec2Isabelle
  imports Batcher ConsolidationAccepted GenericChunks GraphLifecycle HistoryResults ImpactSearch
    Resolver Segmenter
begin

text \<open>
  CortexWeave keeps a semantic memory for coding agents: it indexes a workspace into chunks, embeds
  them, builds a structural graph of symbols, and records evidence of what tools reported.  This
  library models its decision logic, the code under \<open>src/src\<close>, and proves what that logic promises.

  The parts and the theories that model them:

  \<^item> \<open>Prelude\<close>, \<open>Utf8\<close>, \<open>Float32\<close>, \<open>Codec\<close>, \<open>Registry\<close>: results of fallible code (\<open>Inl\<close> is
    \<open>Err\<close>, the question mark is \<open>and_then\<close>), strings as UTF-8 bytes, \<open>f32\<close> as 32-bit words, and
    the loops and registries that several parts share.
  \<^item> \<open>CortexError\<close>, \<open>Embedding\<close>, \<open>Batcher\<close>: the error enums, the embedding provider's response
    validation (\<open>embedding/\<close>) and the batch planner with its repacking loop
    (\<open>indexing/batcher.rs\<close>).  Texts keep their order and are partitioned, limits hold, planning
    is refused exactly when one text alone is too large, calls are bounded, and a provider that only
    complains of size is always satisfied in the end.
  \<^item> \<open>EvidenceDomain\<close>, \<open>EvidenceDecode\<close>: events and the seven evidence decoders
    (\<open>service/evidence.rs\<close>).  Decoding never panics, and it yields evidence exactly when the
    payload reads as an observation that meets every rule of its contract (\<open>reads_as\<close>,
    \<open>observation_ok\<close>).
  \<^item> \<open>TestEligibility\<close>: which test runs count as evidence (\<open>service/test_evidence.rs\<close>).
  \<^item> \<open>FailureSignature\<close>, \<open>FailureNormalize\<close>: canonical failure signatures
    (\<open>domain/failure.rs\<close>, \<open>service/failure.rs\<close>).  The encoding is injective, prose is ignored, exact
    identity is reserved for what can be identified exactly.
  \<^item> \<open>GraphDomain\<close>, \<open>GraphStore\<close>: the graph's types, its tables as lists of rows, and the queries
    over them (\<open>domain/graph.rs\<close>, \<open>storage/repositories.rs\<close>).
  \<^item> \<open>GraphReconciliation\<close>: the batch of changes that the indexer hands to storage, its validation,
    and the statements that write it, with the constraints, triggers and cascades of the tables.
  \<^item> \<open>GenericChunks\<close>, \<open>Analyzers\<close>: the fallback chunker and the choice of an analyzer
    (\<open>parsing/\<close>).  Chunks cover the text, progress, and carry their own lines.
  \<^item> \<open>GraphLifecycle\<close>: revisions and repair leases of the graph as a step relation
    (\<open>graph_step\<close>, \<open>graph_run\<close>) over the operations of \<open>storage/repositories.rs\<close>,
    \<open>apply_graph_reconciliation\<close> included, with invariants of reachable databases: revisions never go
    back, leases exclude, fenced-off repairs are refused whatever they try.  Writers of documents and
    of the graph's own tables that are not modelled are the arbitrary step \<open>content\<close>.
  \<^item> \<open>Structural\<close>, \<open>StructuralResults\<close>, \<open>ImpactSearch\<close>: reads of the graph
    (\<open>service/structural.rs\<close>), whose storage calls each see the database at a time of their own, so
    that every interleaving with writers is covered.  Reads return, results are routes within the
    bounds, belong to one revision of the graph (this rests on \<open>GraphLifecycle\<close>), and an impact
    report refines the closure \<open>affected\<close>.

  \<^item> \<open>ExperienceDomain\<close>, \<open>ExperienceValidation\<close>: experiences, episodes and assessments
    (\<open>domain/experience.rs\<close>, \<open>domain/episode.rs\<close>) and what storage checks of an experience before
    it writes it.  Lemma \<open>validate_experience_record_Inr\<close> states what the checks amount to.
  \<^item> \<open>Consolidation\<close>: the extraction of a failure-to-verification experience from the events of an
    episode (\<open>service/consolidation.rs\<close>): classification, the event loop, the outcome, the record.
    \<open>ConsolidationDemo\<close> evaluates it on an episode; \<open>ConsolidationResults\<close> carries the invariant
    of the loop and shows that it never panics; \<open>ConsolidationStored\<close> shows that what it proposes
    is what storage accepts, and on which evidence it rests: a proposal is automatic exactly when
    nothing asks for a review, and then its outcome rests on verifier results and tool completions.
    An acceptance by the user can stand behind an automatic proposal only as the result of an attempt
    that is not the last; \<open>acceptance_without_review\<close> is such an episode.
  \<^item> \<open>HistoryTables\<close>, \<open>EpisodeStore\<close>, \<open>ExperienceStore\<close>, \<open>ExperienceLedger\<close>: the historical record of a
    workspace in \<open>storage/repositories.rs\<close>.  A table is the list of its rows, a transaction a function
    on the database, and the keys, checks and triggers of the migrations are conditions of its
    insertions.  \<open>EpisodeStore\<close> also has the episode operations of \<open>service/cortex.rs\<close>,
    \<open>ExperienceLedger\<close> the reviews of \<open>service/experience_assessment.rs\<close>.
  \<^item> \<open>EpisodeHistory\<close>, \<open>ExperienceHistory\<close>, \<open>LedgerHistory\<close>: for each of them what a well-formed
    database is, that every operation keeps it, and what later databases share with earlier ones.
    Written records read back.
  \<^item> \<open>History\<close>: the step relation (\<open>history_step\<close>, \<open>history_run\<close>) of all clients that write the
    record, with its reachable databases.  \<open>HistoryDemo\<close> evaluates a run from the empty database to a
    reviewed experience.  \<open>HistoryResults\<close> shows that terminal episodes and their members are frozen,
    that requests are executed once, that supersession is well-founded, that the lifecycle only
    advances, that pages fit together, and that recurrence is counted by the order of writing.
  \<^item> \<open>ConsolidationService\<close>, \<open>ConsolidationAccepted\<close>: preview and acceptance of an experience
    (\<open>service/consolidation.rs\<close>).  Every read sees a database of its own, and yet an acceptance is as
    if it happened at once, can be repeated, and stays.
  \<^item> \<open>Resolver\<close>: the nodes of a document's symbols and the meaning of a relationship's target
    (\<open>graph/registry.rs\<close>, \<open>graph/resolver.rs\<close>).  A resolution is the answer (\<open>target_answered\<close>) of the
    first basis that has one, and does not depend on the order in which the nodes are listed.
  \<^item> \<open>Segmenter\<close>: cutting chunks that exceed the provider's input limit
    (\<open>indexing/segmenter.rs\<close>).  It always ends, covers the chunk, and stays within the limit.

  Interfaces are locales: the codec of canonical encodings, registries, stored enumerations, the
  embedding service, the source of nodes and edges that the traversals use, the tables whose parts
  are read back in order, and requests that are executed once under their key, which both the mutations of episodes and the
  reviews are.  Each is interpreted on the code's own definitions.

  Loops.  Structural recursion needs no bound.  The queue loops use \<open>run_loop\<close>, whose value \<open>None\<close> is
  a loop that runs forever; the theorems show that the value is never \<open>None\<close>, by measures on the
  loop's state.  The recursive query of the trigger against cycles of supersession, \<open>reaches\<close>, takes as
  many steps as there are edges, which is enough by lemma \<open>reaches_rtrancl\<close>; no other fuel is used.

  Parameters.  \<open>serde\<close> and JSON parsing and printing, BLAKE3, the tokenizer and the HTTP provider are arguments
  of the definitions, and so are generated ids and the clock; what a theorem needs of them is a
  hypothesis of it, with a witness.

  Not modelled: tree-sitter parsing, the file watcher and reconciler, the MCP adapter and command
  line, the SQL of the tables of documents, chunks, memories and deliveries (but for the deletion of a
  document in a reconciliation), the full-text indexes,
  and the context, memory and experience search services, which are mostly queries and text assembly
  over the database.  The removal of a workspace, which deletes all its
  history, is not a step of \<open>history_step\<close>.
\<close>

end
